(* ===== verification/Prelude.thy ===== *)
theory Prelude
  imports Main "HOL-Library.Word" "HOL-Library.AList"
begin

unbundle bit_operations_syntax

text \<open>
  Shared vocabulary of the development: the machine integers of the program, the
  \<^verbatim>\<open>std::unordered_map\<close> operations the components use, and the generic facts about
  lists, words and characters that the component proofs rest on.

  A \<^verbatim>\<open>std::string\<close> of the program is a \<^typ>\<open>string\<close>: a HOL character is exactly one
  byte, so a payload, a wire buffer and a text are all lists of characters.  A
  \<^verbatim>\<open>std::unordered_map\<close> is an association list with distinct keys; the iteration
  order of an unordered map is not specified, and no theorem depends on the order of the list.
\<close>

named_theorems um_simps \<open>lookup after an operation of an unordered map\<close>
named_theorems um_intros \<open>distinctness of the keys after an operation of an unordered map\<close>

type_synonym u8 = "8 word"
type_synonym u32 = "32 word"
type_synonym u64 = "64 word"

section \<open>Unordered maps\<close>

type_synonym ('k, 'v) umap = "('k \<times> 'v) list"

abbreviation um_find :: "('k, 'v) umap \<Rightarrow> 'k \<Rightarrow> 'v option" where
  "um_find \<equiv> map_of"

text \<open>\<^verbatim>\<open>emplace\<close> inserts only when the key is absent.\<close>

definition um_emplace :: "'k \<Rightarrow> 'v \<Rightarrow> ('k, 'v) umap \<Rightarrow> ('k, 'v) umap" where
  "um_emplace k v m = (case map_of m k of None \<Rightarrow> (k, v) # m | Some _ \<Rightarrow> m)"

text \<open>\<^verbatim>\<open>m[k] = v\<close> inserts or overwrites.\<close>

definition um_put :: "'k \<Rightarrow> 'v \<Rightarrow> ('k, 'v) umap \<Rightarrow> ('k, 'v) umap" where
  "um_put k v m = AList.update k v m"

text \<open>\<^verbatim>\<open>erase(k)\<close>.\<close>

definition um_erase :: "'k \<Rightarrow> ('k, 'v) umap \<Rightarrow> ('k, 'v) umap" where
  "um_erase k m = AList.delete k m"

definition um_keys :: "('k, 'v) umap \<Rightarrow> 'k set" where
  "um_keys m = fst ` set m"

definition um_distinct :: "('k, 'v) umap \<Rightarrow> bool" where
  "um_distinct m \<longleftrightarrow> distinct (map fst m)"

lemma um_find_emplace [um_simps, simp]:
  "um_find (um_emplace k v m) k' =
     (if k' = k \<and> um_find m k = None then Some v else um_find m k')"
  by (auto simp: um_emplace_def split: option.splits)

lemma um_find_put [um_simps, simp]:
  "um_find (um_put k v m) k' = (if k' = k then Some v else um_find m k')"
  by (simp add: um_put_def update_conv')

lemma um_find_erase [um_simps, simp]:
  "um_find (um_erase k m) k' = (if k' = k then None else um_find m k')"
  by (simp add: um_erase_def delete_conv')

lemma um_keys_emplace [um_simps, simp]: "um_keys (um_emplace k v m) = insert k (um_keys m)"
  by (auto simp: um_keys_def um_emplace_def map_of_eq_None_iff image_iff split: option.splits
      dest: map_of_SomeD intro: rev_image_eqI)

lemma um_keys_put [um_simps, simp]: "um_keys (um_put k v m) = insert k (um_keys m)"
  using dom_map_of_conv_image_fst[of "AList.update k v m"] dom_map_of_conv_image_fst[of m]
  by (simp add: um_keys_def um_put_def update_conv')

lemma um_keys_erase [um_simps, simp]: "um_keys (um_erase k m) = um_keys m - {k}"
  using dom_map_of_conv_image_fst[of "AList.delete k m"] dom_map_of_conv_image_fst[of m]
  by (simp add: um_keys_def um_erase_def delete_conv')

lemma um_keys_Nil [um_simps, simp]: "um_keys [] = {}"
  by (simp add: um_keys_def)

lemma um_distinct_Nil [um_intros, simp]: "um_distinct []"
  by (simp add: um_distinct_def)

lemma um_distinct_emplace [um_intros, simp]: "um_distinct m \<Longrightarrow> um_distinct (um_emplace k v m)"
  by (auto simp: um_distinct_def um_emplace_def map_of_eq_None_iff split: option.splits)

lemma um_distinct_put [um_intros, simp]: "um_distinct m \<Longrightarrow> um_distinct (um_put k v m)"
  by (simp add: um_distinct_def um_put_def distinct_update)

lemma um_distinct_erase [um_intros, simp]: "um_distinct m \<Longrightarrow> um_distinct (um_erase k m)"
  by (simp add: um_distinct_def um_erase_def distinct_delete)

lemma um_find_None_keys: "um_find m k = None \<longleftrightarrow> k \<notin> um_keys m"
  by (simp add: um_keys_def map_of_eq_None_iff)

lemma um_find_Some_keys: "um_find m k = Some v \<Longrightarrow> k \<in> um_keys m"
  by (metis option.distinct(1) um_find_None_keys)

lemma um_erase_absent [simp]: "um_find m k = None \<Longrightarrow> um_erase k m = m"
  by (simp add: um_erase_def map_of_eq_None_iff delete_id)

lemma um_set_erase: "set (um_erase k m) = {p \<in> set m. fst p \<noteq> k}"
  by (induction m) (auto simp: um_erase_def)

lemma um_mem_find: "um_distinct m \<Longrightarrow> (k, v) \<in> set m \<longleftrightarrow> um_find m k = Some v"
  by (metis map_of_SomeD map_of_is_SomeI um_distinct_def)

lemma um_length_emplace: "length (um_emplace k v m) = (if um_find m k = None then Suc (length m) else length m)"
  by (auto simp: um_emplace_def split: option.split)

lemma um_length_put: "length (um_put k v m) = (if um_find m k = None then Suc (length m) else length m)"
  by (induction m) (auto simp: um_put_def)

lemma um_length_erase: "um_distinct m \<Longrightarrow> um_find m k = Some v \<Longrightarrow> Suc (length (um_erase k m)) = length m"
proof (induction m)
  case (Cons p m)
  obtain a b where p: "p = (a, b)" by (cases p)
  show ?case
  proof (cases "a = k")
    case True
    with Cons.prems(1) have "AList.delete k m = m" by (auto simp: um_distinct_def p intro!: delete_id)
    with True show ?thesis by (simp add: p um_erase_def)
  next
    case False
    with Cons show ?thesis by (simp add: p um_erase_def um_distinct_def)
  qed
qed simp

section \<open>Characters as bytes\<close>

lemma of_char_less_256 [simp]: "(of_char c :: nat) < 256"
  using nat_of_char_less_256 by simp

lemma char_of_nat_of_char [simp]: "char_of (of_char c :: nat) = c"
  by simp

lemma of_char_of_nat [simp]: "n < 256 \<Longrightarrow> (of_char (char_of (n :: nat)) :: nat) = n"
  by simp

section \<open>Words\<close>

lemma take_bit_small: "unat w < 2 ^ n \<Longrightarrow> take_bit n w = (w :: 'a :: len word)"
  by (simp add: word_unat_eq_iff unsigned_take_bit_eq take_bit_nat_eq_self_iff)

lemma and_FF_take_bit: "(w :: u32) AND 0xFF = take_bit 8 w"
  by (simp add: take_bit_eq_mask mask_eq_exp_minus_1)

lemma unat_take_bit_8_less: "unat (take_bit 8 (w :: u32)) < 256"
  by (simp add: unsigned_take_bit_eq take_bit_nat_eq_self_iff take_bit_nat_less_exp[of 8, simplified])

lemma of_char_u32: "(of_char c :: u32) = of_nat (of_char c)"
  by (simp only: of_nat_of_char)

lemma of_char_char_of_u32: "(n :: nat) < 256 \<Longrightarrow> (of_char (char_of n :: char) :: u32) = of_nat n"
  by (simp add: of_char_u32 del: of_nat_of_char)

lemma of_char_byte: "(of_char (char_of (unat (take_bit 8 (w :: u32))) :: char) :: u32) = take_bit 8 w"
  by (simp add: of_char_char_of_u32 unat_take_bit_8_less)

lemma unat_of_char_u32 [simp]: "unat (of_char c :: u32) = of_char c"
proof -
  have "(of_char c :: nat) < 4294967296"
    using nat_of_char_less_256[of c] by linarith
  then show ?thesis by (simp add: of_char_u32 unat_of_nat del: of_nat_of_char)
qed

lemma take_bit_of_char_u32 [simp]: "take_bit 8 (of_char c :: u32) = of_char c"
proof -
  have "unat (take_bit 8 (of_char c :: u32)) = unat (of_char c :: u32)"
    by (simp add: unsigned_take_bit_eq take_bit_nat_eq_self_iff)
  then show ?thesis by (simp only: word_unat_eq_iff)
qed

lemma bit_of_char_u32: "bit (of_char c :: u32) n \<Longrightarrow> n < 8"
  by (metis bit_take_bit_iff take_bit_of_char_u32)

section \<open>Lists\<close>

lemma take_eq_append: "take n xs = a \<Longrightarrow> xs = a @ drop n xs"
  by (metis append_take_drop_id)

lemma list_of_length_Suc: "length xs = Suc n \<longleftrightarrow> (\<exists>y ys. xs = y # ys \<and> length ys = n)"
  by (cases xs) auto

lemma takeWhile_stop: "\<forall>x \<in> set xs. P x \<Longrightarrow> \<not> P y \<Longrightarrow> takeWhile P (xs @ y # ys) = xs"
  by (induction xs) auto

lemma dropWhile_stop: "\<forall>x \<in> set xs. P x \<Longrightarrow> \<not> P y \<Longrightarrow> dropWhile P (xs @ y # ys) = y # ys"
  by (induction xs) auto

lemma fold_commute_put:
  assumes "\<And>x s. f x (p s) = p (f x s)"
  shows "fold f xs (p s) = p (fold f xs s)"
  by (induction xs arbitrary: s) (simp_all add: assms)

end
