(* ===== verification/Sip_Frame.thy ===== *)
theory Sip_Frame
  imports Prelude
begin

unbundle bit_operations_syntax

text \<open>
  The wire format of the cloud/agent tunnel (\<^verbatim>\<open>modules/module/pbx/src/sip_frame.cpp\<close>) and
  the receive loop that both ends run over it (\<^verbatim>\<open>on_tunnel_bytes\<close> of the cloud's
  \<^verbatim>\<open>SipBridge\<close> and of the agent's \<^verbatim>\<open>SipFrameDemux\<close>).

  The codec is proved to be a prefix code with a unique encoding; the receive loop is treated
  once, in the locale \<^verbatim>\<open>frame_receiver\<close>, for any object whose dispatch keeps or clears its
  receive buffer.
\<close>

named_theorems sf_simps \<open>unfolding of the codec\<close>

section \<open>Data\<close>

datatype Op = OPEN | DATA | CLOSE | PING | PONG | ERR | PUSH_NOTIFY | CDR_PUSH
  | SUBSCRIBER_REVOKED | REGISTER_STATE | AGENT_HELLO | SOCIETY_BOOTSTRAP | ASTERISK_STATUS

primrec op_code :: "Op \<Rightarrow> nat" where
  "op_code OPEN = 0x01"
| "op_code DATA = 0x02"
| "op_code CLOSE = 0x03"
| "op_code PING = 0x04"
| "op_code PONG = 0x05"
| "op_code ERR = 0x06"
| "op_code PUSH_NOTIFY = 0x10"
| "op_code CDR_PUSH = 0x11"
| "op_code SUBSCRIBER_REVOKED = 0x12"
| "op_code REGISTER_STATE = 0x13"
| "op_code AGENT_HELLO = 0x14"
| "op_code SOCIETY_BOOTSTRAP = 0x15"
| "op_code ASTERISK_STATUS = 0x16"

text \<open>The op-code whitelist of \<^verbatim>\<open>decode\<close>: the \<^verbatim>\<open>switch\<close> over \<^verbatim>\<open>op_raw\<close>.\<close>

definition op_of_code :: "nat \<Rightarrow> Op option" where
  "op_of_code n =
     (if n = 0x01 then Some OPEN else if n = 0x02 then Some DATA
      else if n = 0x03 then Some CLOSE else if n = 0x04 then Some PING
      else if n = 0x05 then Some PONG else if n = 0x06 then Some ERR
      else if n = 0x10 then Some PUSH_NOTIFY else if n = 0x11 then Some CDR_PUSH
      else if n = 0x12 then Some SUBSCRIBER_REVOKED
      else if n = 0x13 then Some REGISTER_STATE
      else if n = 0x14 then Some AGENT_HELLO
      else if n = 0x15 then Some SOCIETY_BOOTSTRAP
      else if n = 0x16 then Some ASTERISK_STATUS else None)"

record Frame =
  frame_op :: Op
  frame_stream_id :: u32
  frame_payload :: string

text \<open>\<^verbatim>\<open>DecodeResult\<close>: the frame and the consumed length are meaningful only with status \<^verbatim>\<open>Ok\<close>.\<close>

datatype 'f decode_result = DecOk 'f nat | NeedMore | Invalid

definition kVersion :: nat where "kVersion = 0x01"
definition kHeaderSize :: nat where "kHeaderSize = 10"
definition kMaxPayload :: nat where "kMaxPayload = 1 * 1024 * 1024"

section \<open>Codec\<close>

definition write_u32_be :: "u32 \<Rightarrow> string" where
  "write_u32_be v =
     [char_of (unat (drop_bit 24 v AND 0xFF)), char_of (unat (drop_bit 16 v AND 0xFF)),
      char_of (unat (drop_bit 8 v AND 0xFF)), char_of (unat (v AND 0xFF))]"

definition read_u32_be :: "char \<Rightarrow> char \<Rightarrow> char \<Rightarrow> char \<Rightarrow> u32" where
  "read_u32_be c0 c1 c2 c3 =
     push_bit 24 (of_char c0) OR push_bit 16 (of_char c1) OR push_bit 8 (of_char c2) OR of_char c3"

text \<open>\<^verbatim>\<open>static_cast<std::uint32_t>(payload.size())\<close> truncates a length beyond \<^verbatim>\<open>2^32\<close>.\<close>

definition sf_encode :: "Op \<Rightarrow> u32 \<Rightarrow> string \<Rightarrow> string" where
  "sf_encode op sid payload =
     [char_of kVersion, char_of (op_code op)] @ write_u32_be sid @
     write_u32_be (of_nat (length payload)) @ payload"

definition sf_decode :: "string \<Rightarrow> Frame decode_result" where
  "sf_decode buf =
     (if length buf < kHeaderSize then NeedMore
      else if (of_char (buf ! 0) :: nat) \<noteq> kVersion then Invalid
      else let op_raw = (of_char (buf ! 1) :: nat);
               stream_id = read_u32_be (buf ! 2) (buf ! 3) (buf ! 4) (buf ! 5);
               plen = unat (read_u32_be (buf ! 6) (buf ! 7) (buf ! 8) (buf ! 9))
           in case op_of_code op_raw of
                None \<Rightarrow> Invalid
              | Some op \<Rightarrow>
                  if plen > kMaxPayload then Invalid
                  else if length buf < kHeaderSize + plen then NeedMore
                  else DecOk \<lparr>frame_op = op, frame_stream_id = stream_id,
                              frame_payload = take plen (drop kHeaderSize buf)\<rparr>
                             (kHeaderSize + plen))"

definition encode_frame :: "Frame \<Rightarrow> string" where
  "encode_frame f = sf_encode (frame_op f) (frame_stream_id f) (frame_payload f)"

definition frame_fits :: "Frame \<Rightarrow> bool" where
  "frame_fits f \<longleftrightarrow> length (frame_payload f) \<le> kMaxPayload"

declare kVersion_def [sf_simps] kHeaderSize_def [sf_simps] kMaxPayload_def [sf_simps]

section \<open>Correctness of the codec\<close>

lemma op_code_less [simp]: "op_code op < 256"
  by (cases op) simp_all

lemma op_of_code_op_code [simp]: "op_of_code (op_code op) = Some op"
  by (cases op) (simp_all add: op_of_code_def)

lemma op_of_code_Some: "op_of_code n = Some op \<longleftrightarrow> n = op_code op"
proof
  assume "op_of_code n = Some op"
  then show "n = op_code op"
    by (auto simp: op_of_code_def split: if_splits)
qed simp

lemma length_write_u32_be [simp]: "length (write_u32_be v) = 4"
  by (simp add: write_u32_be_def)

lemma read_write_u32_be:
  assumes "write_u32_be v = [a, b, c, d]"
  shows "read_u32_be a b c d = v"
proof -
  have bs: "of_char a = take_bit 8 (drop_bit 24 v)" "of_char b = take_bit 8 (drop_bit 16 v)"
    "of_char c = take_bit 8 (drop_bit 8 v)" "of_char d = take_bit 8 v"
    using assms by (auto simp: write_u32_be_def and_FF_take_bit of_char_byte)
  show ?thesis
    unfolding read_u32_be_def bs
  proof (rule bit_word_eqI)
    fix n :: nat
    consider "n < 8" | "8 \<le> n" "n < 16" | "16 \<le> n" "n < 24" | "24 \<le> n" by linarith
    then show "bit (push_bit 24 (take_bit 8 (drop_bit 24 v)) OR push_bit 16 (take_bit 8 (drop_bit 16 v))
        OR push_bit 8 (take_bit 8 (drop_bit 8 v)) OR take_bit 8 v) n = bit v n" if "n < LENGTH(32)"
      using that by cases (auto simp: bit_simps)
  qed
qed

lemma write_read_u32_be: "write_u32_be (read_u32_be a b c d) = [a, b, c, d]"
proof -
  let ?v = "read_u32_be a b c d"
  have "take_bit 8 (drop_bit 24 ?v) = of_char a" "take_bit 8 (drop_bit 16 ?v) = of_char b"
    "take_bit 8 (drop_bit 8 ?v) = of_char c" "take_bit 8 ?v = of_char d"
    by (rule bit_word_eqI; auto simp: read_u32_be_def bit_simps dest: bit_of_char_u32)+
  then show ?thesis
    by (simp add: write_u32_be_def and_FF_take_bit)
qed

lemma write_u32_be_ex: "\<exists>a b c d. write_u32_be v = [a, b, c, d]"
  by (simp add: write_u32_be_def)

lemma length_sf_encode [simp]: "length (sf_encode op sid p) = kHeaderSize + length p"
  by (simp add: sf_encode_def sf_simps)

text \<open>The header of an encoded frame, byte by byte.\<close>

lemma sf_decode_header:
  assumes "length p < 2 ^ 32"
  shows "sf_decode (sf_encode op sid p @ r) =
    (if length p > kMaxPayload then Invalid
     else DecOk \<lparr>frame_op = op, frame_stream_id = sid, frame_payload = p\<rparr> (kHeaderSize + length p))"
proof -
  obtain a b c d where sid: "write_u32_be sid = [a, b, c, d]"
    using write_u32_be_ex by blast
  obtain e f g h where len: "write_u32_be (of_nat (length p)) = [e, f, g, h]"
    using write_u32_be_ex by blast
  have "unat (of_nat (length p) :: u32) = length p"
    using assms by (simp add: unat_of_nat)
  with read_write_u32_be[OF sid] read_write_u32_be[OF len] show ?thesis
    by (simp add: sf_decode_def sf_encode_def sid len sf_simps)
qed

lemma sf_decode_encode:
  assumes "length p \<le> kMaxPayload"
  shows "sf_decode (sf_encode op sid p @ r) =
    DecOk \<lparr>frame_op = op, frame_stream_id = sid, frame_payload = p\<rparr> (kHeaderSize + length p)"
  using assms sf_decode_header[of p op sid r] by (simp add: sf_simps)

text \<open>A successful decode consumed exactly the canonical encoding of its frame.\<close>

lemma sf_header_split:
  assumes "10 \<le> length buf"
  shows "\<exists>a b c d e f g h i j r. buf = a # b # c # d # e # f # g # h # i # j # r"
  using assms by (simp add: eval_nat_numeral Suc_le_length_iff) blast

lemma sf_decode_unique:
  assumes "sf_decode buf = DecOk f n"
  shows "take n buf = encode_frame f" and "n \<le> length buf" and "frame_fits f"
    and "n = kHeaderSize + length (frame_payload f)"
proof -
  have len: "10 \<le> length buf"
    using assms by (auto simp: sf_decode_def sf_simps split: if_splits)
  from sf_header_split[OF len] obtain a b c d e f' g h i j r
    where buf: "buf = a # b # c # d # e # f' # g # h # i # j # r"
    by (elim exE)
  let ?plen = "read_u32_be g h i j"
  from assms obtain op where op: "op_of_code (of_char b) = Some op" and ver: "of_char a = kVersion"
    and fits: "unat ?plen \<le> kMaxPayload" and enough: "unat ?plen \<le> length r"
    and f: "f = \<lparr>frame_op = op, frame_stream_id = read_u32_be c d e f', frame_payload = take (unat ?plen) r\<rparr>"
    and n: "n = kHeaderSize + unat ?plen"
    by (auto simp: sf_decode_def buf sf_simps Let_def split: if_splits option.splits)
  have "a = char_of kVersion" "b = char_of (op_code op)"
    using ver op by (metis char_of_nat_of_char, metis char_of_nat_of_char op_of_code_Some)
  then show "take n buf = encode_frame f"
    using enough by (simp add: buf f n encode_frame_def sf_encode_def write_read_u32_be sf_simps take_add)
  show "n \<le> length buf" "frame_fits f" "n = kHeaderSize + length (frame_payload f)"
    using fits enough by (simp_all add: n buf sf_simps frame_fits_def f)
qed

lemma sf_decode_append:
  "sf_decode buf \<noteq> NeedMore \<Longrightarrow> sf_decode (buf @ r) = sf_decode buf"
  by (auto simp: sf_decode_def sf_simps Let_def nth_append split: if_splits option.splits)

lemma sf_decode_short: "length buf < kHeaderSize \<Longrightarrow> sf_decode buf = NeedMore"
  by (simp add: sf_decode_def)

lemma sf_decode_Nil [simp]: "sf_decode [] = NeedMore"
  by (simp add: sf_decode_def sf_simps)

section \<open>A frame codec as an interface\<close>

text \<open>
  What a receiver needs of a framing: an encoded frame decodes to itself whatever follows it, a
  decision to accept or to reject is not changed by later bytes, and an accepted frame takes at
  least one byte and no more than there are.
\<close>

locale frame_codec =
  fixes enc :: "'f \<Rightarrow> string"
    and dec :: "string \<Rightarrow> 'f decode_result"
    and fits :: "'f \<Rightarrow> bool"
  assumes dec_enc: "fits f \<Longrightarrow> dec (enc f @ r) = DecOk f (length (enc f))"
    and dec_append: "dec b \<noteq> NeedMore \<Longrightarrow> dec (b @ r) = dec b"
    and dec_consumes: "dec b = DecOk f n \<Longrightarrow> 0 < n \<and> n \<le> length b"
    and dec_empty: "dec [] = NeedMore"
begin

lemma enc_nonempty: "fits f \<Longrightarrow> enc f \<noteq> []"
  using dec_consumes[OF dec_enc[of f "[]"]] by auto

lemma enc_inj: "fits f \<Longrightarrow> fits g \<Longrightarrow> enc f = enc g \<Longrightarrow> f = g"
  using dec_enc[of f "[]"] dec_enc[of g "[]"] by simp

lemma prefix_free: "fits f \<Longrightarrow> fits g \<Longrightarrow> enc f @ r = enc g @ r' \<Longrightarrow> f = g \<and> r = r'"
  using dec_enc[of f r] dec_enc[of g r'] by auto

lemma concat_enc_inj:
  "list_all fits fs \<Longrightarrow> list_all fits gs \<Longrightarrow> concat (map enc fs) = concat (map enc gs) \<Longrightarrow> fs = gs"
proof (induction fs arbitrary: gs)
  case Nil
  then show ?case by (cases gs) (auto dest: enc_nonempty)
next
  case (Cons f fs)
  then obtain g gs' where gs: "gs = g # gs'"
    by (cases gs) (auto dest: enc_nonempty)
  have "enc f @ concat (map enc fs) = enc g @ concat (map enc gs')" "fits f" "fits g"
    using Cons.prems gs by simp_all
  from prefix_free[OF this(2,3,1)] have "f = g" "concat (map enc fs) = concat (map enc gs')"
    by simp_all
  with Cons gs show ?case by simp
qed

end

interpretation sf: frame_codec encode_frame sf_decode frame_fits
proof
  fix f r
  assume "frame_fits f"
  then show "sf_decode (encode_frame f @ r) = DecOk f (length (encode_frame f))"
    by (simp add: encode_frame_def frame_fits_def sf_decode_encode)
next
  fix b f n
  assume "sf_decode b = DecOk f n"
  from sf_decode_unique[OF this] show "0 < n \<and> n \<le> length b"
    by (simp add: kHeaderSize_def)
qed (use sf_decode_append in auto)

section \<open>The receive loop\<close>

text \<open>
  \<^verbatim>\<open>on_tunnel_bytes\<close> is the same loop in \<^verbatim>\<open>SipBridge\<close> and in \<^verbatim>\<open>SipFrameDemux\<close>: append the
  bytes, then decode, dispatch and erase until the buffer holds no complete frame.  The object is
  read and written through its receive buffer \<open>get\<close>/\<open>put\<close>; \<open>disp\<close> is its
  \<^verbatim>\<open>dispatch_frame\<close>.  Dispatching may clear the buffer under the loop (the tunnel can be lost
  while a reply is written), so \<^verbatim>\<open>erase(0, consumed)\<close> acts on the buffer found afterwards.
  Running out of fuel is \<^term>\<open>None\<close>; \<open>frame_receiver\<close> proves that it never happens.
\<close>

fun rx_loop :: "('s \<Rightarrow> string) \<Rightarrow> (string \<Rightarrow> 's \<Rightarrow> 's) \<Rightarrow> (Frame \<Rightarrow> 's \<Rightarrow> 's) \<Rightarrow> nat \<Rightarrow> 's
    \<Rightarrow> (bool \<times> 's) option" where
  "rx_loop get put disp 0 s = None"
| "rx_loop get put disp (Suc k) s =
     (case sf_decode (get s) of
        NeedMore \<Rightarrow> Some (True, s)
      | Invalid \<Rightarrow> Some (False, put [] s)
      | DecOk f n \<Rightarrow>
          (let s1 = disp f s in rx_loop get put disp k (put (drop n (get s1)) s1)))"

definition rx_bytes :: "('s \<Rightarrow> string) \<Rightarrow> (string \<Rightarrow> 's \<Rightarrow> 's) \<Rightarrow> (Frame \<Rightarrow> 's \<Rightarrow> 's) \<Rightarrow> string \<Rightarrow> 's
    \<Rightarrow> (bool \<times> 's) option" where
  "rx_bytes get put disp bytes s =
     (let s1 = put (get s @ bytes) s in rx_loop get put disp (Suc (length (get s1))) s1)"

text \<open>Bytes that arrive in several reads: the first protocol violation ends the connection.\<close>

fun rx_feed :: "('s \<Rightarrow> string) \<Rightarrow> (string \<Rightarrow> 's \<Rightarrow> 's) \<Rightarrow> (Frame \<Rightarrow> 's \<Rightarrow> 's) \<Rightarrow> string list \<Rightarrow> 's
    \<Rightarrow> (bool \<times> 's) option" where
  "rx_feed get put disp [] s = Some (True, s)"
| "rx_feed get put disp (c # cs) s =
     (case rx_bytes get put disp c s of
        Some (True, s') \<Rightarrow> rx_feed get put disp cs s'
      | r \<Rightarrow> r)"

locale frame_receiver =
  fixes get :: "'s \<Rightarrow> string"
    and put :: "string \<Rightarrow> 's \<Rightarrow> 's"
    and disp :: "Frame \<Rightarrow> 's \<Rightarrow> 's"
  assumes get_put: "get (put b s) = b"
    and put_put: "put b (put c s) = put b s"
    and put_get: "put (get s) s = s"
    and disp_shrinks: "length (get (disp f s)) \<le> length (get s)"
begin

lemma rx_step_less:
  "sf_decode (get s) = DecOk f n \<Longrightarrow> length (drop n (get (disp f s))) < length (get s)"
  using sf.dec_consumes[of "get s" f n] disp_shrinks[of f s] by auto

lemma rx_loop_enough: "length (get s) < k \<Longrightarrow> rx_loop get put disp k s \<noteq> None"
proof (induction k arbitrary: s)
  case (Suc k)
  show ?case
  proof (cases "sf_decode (get s)")
    case (DecOk f n)
    then show ?thesis
      using Suc.IH[of "put (drop n (get (disp f s))) (disp f s)"] rx_step_less[OF DecOk] Suc.prems
      by (simp add: get_put Let_def del: length_drop)
  qed simp_all
qed simp

lemma rx_loop_fuel: "rx_loop get put disp k s = Some r \<Longrightarrow> k \<le> k' \<Longrightarrow> rx_loop get put disp k' s = Some r"
proof (induction k arbitrary: k' s)
  case (Suc k)
  then obtain j where "k' = Suc j" "k \<le> j" by (cases k') auto
  with Suc show ?case
    by (auto simp: Let_def split: decode_result.splits)
qed simp

definition run :: "'s \<Rightarrow> bool \<times> 's" where
  "run s = the (rx_loop get put disp (Suc (length (get s))) s)"

lemma run_loop: "length (get s) < k \<Longrightarrow> rx_loop get put disp k s = Some (run s)"
proof -
  assume k: "length (get s) < k"
  obtain r where "rx_loop get put disp (Suc (length (get s))) s = Some r"
    using rx_loop_enough[of s "Suc (length (get s))"] by auto
  with rx_loop_fuel[OF this, of k] k show ?thesis by (simp add: run_def)
qed

lemma run_unfold:
  "run s = (case sf_decode (get s) of
      NeedMore \<Rightarrow> (True, s)
    | Invalid \<Rightarrow> (False, put [] s)
    | DecOk f n \<Rightarrow> run (put (drop n (get (disp f s))) (disp f s)))"
proof (cases "sf_decode (get s)")
  case (DecOk f n)
  then show ?thesis
    using run_loop[of "put (drop n (get (disp f s))) (disp f s)" "length (get s)"] rx_step_less[OF DecOk]
    by (simp add: run_def[of s] get_put Let_def del: length_drop)
qed (simp_all add: run_def)

lemma rx_bytes_run: "rx_bytes get put disp b s = Some (run (put (get s @ b) s))"
  by (simp add: rx_bytes_def Let_def get_put run_loop del: rx_loop.simps)

lemma rx_bytes_total: "\<exists>ok s'. rx_bytes get put disp b s = Some (ok, s')"
  by (metis rx_bytes_run surj_pair)

lemma run_induct [case_names step]:
  assumes "\<And>s. (\<And>f n. sf_decode (get s) = DecOk f n \<Longrightarrow> P (put (drop n (get (disp f s))) (disp f s))) \<Longrightarrow> P s"
  shows "P s"
proof (induction "length (get s)" arbitrary: s rule: less_induct)
  case less
  then show ?case
    using assms rx_step_less get_put by metis
qed

text \<open>The loop returns true only with an incomplete frame in the buffer.\<close>

lemma run_rest: "run s = (True, s') \<Longrightarrow> sf_decode (get s') = NeedMore"
proof (induction s rule: run_induct)
  case (step s)
  then show ?case
    by (subst (asm) run_unfold) (auto split: decode_result.splits)
qed

lemma run_invalid: "run s = (False, s') \<Longrightarrow> get s' = []"
proof (induction s rule: run_induct)
  case (step s)
  then show ?case
    by (subst (asm) run_unfold) (auto simp: get_put split: decode_result.splits)
qed

lemma run_preserves:
  assumes "\<And>f s. P s \<Longrightarrow> P (disp f s)" and "\<And>b s. P s \<Longrightarrow> P (put b s)" and "P s"
  shows "P (snd (run s))"
  using \<open>P s\<close>
proof (induction s rule: run_induct)
  case (step s)
  then show ?case
    by (subst run_unfold) (auto simp: assms(1,2) split: decode_result.splits)
qed

end

text \<open>
  Where dispatching neither reads nor writes the receive buffer (\<open>I\<close> holds while that is so),
  the way the bytes are cut into reads is invisible.
\<close>

locale stable_receiver = frame_receiver +
  fixes I :: "'a \<Rightarrow> bool"
  assumes I_put: "I (put b s) = I s"
    and I_disp: "I s \<Longrightarrow> I (disp f s)"
    and disp_put: "I s \<Longrightarrow> disp f (put b s) = put b (disp f s)"
begin

lemma get_disp: "I s \<Longrightarrow> get (disp f s) = get s"
  by (metis disp_put get_put put_get)

lemma run_append:
  assumes "I s"
  shows "run (put (get s @ b) s) =
    (case run s of (True, s') \<Rightarrow> run (put (get s' @ b) s') | (False, s') \<Rightarrow> (False, s'))"
  using assms
proof (induction s rule: run_induct)
  case (step s)
  show ?case
  proof (cases "sf_decode (get s)")
    case (DecOk f n)
    let ?s1 = "put (drop n (get s)) (disp f s)"
    have n: "n \<le> length (get s)" using sf.dec_consumes[OF DecOk] by simp
    have "run (put (get s @ b) s) = run (put (get ?s1 @ b) ?s1)"
      using DecOk sf.dec_append[of "get s" b] n
      by (subst run_unfold) (simp add: get_put put_put disp_put step.prems)
    moreover have "run s = run ?s1"
      using DecOk by (subst run_unfold) (simp add: get_disp step.prems)
    moreover have "I ?s1" by (simp add: I_put I_disp step.prems)
    ultimately show ?thesis
      using step.IH[OF DecOk] by (simp add: get_disp step.prems)
  next
    case NeedMore
    then show ?thesis by (subst (2) run_unfold) simp
  next
    case Invalid
    then show ?thesis
      using sf.dec_append[of "get s" b] by (subst (1 2) run_unfold) (simp add: get_put put_put)
  qed
qed

lemma I_run: "I s \<Longrightarrow> I (snd (run s))"
  using run_preserves[of I s] I_disp I_put by blast

text \<open>One read of \<open>a @ b\<close> is a read of \<open>a\<close> followed by a read of \<open>b\<close>.\<close>

lemma rx_bytes_append:
  assumes "I s" and "rx_bytes get put disp a s = Some (True, s')"
  shows "rx_bytes get put disp (a @ b) s = rx_bytes get put disp b s'"
  using run_append[of "put (get s @ a) s" b] assms
  by (simp add: rx_bytes_run get_put put_put I_put)

lemma rx_bytes_append_invalid:
  assumes "I s" and "rx_bytes get put disp a s = Some (False, s')"
  shows "rx_bytes get put disp (a @ b) s = Some (False, s')"
  using run_append[of "put (get s @ a) s" b] assms
  by (simp add: rx_bytes_run get_put put_put I_put)

lemma run_frames:
  assumes "I s" and "list_all frame_fits fs"
  shows "run (put (concat (map encode_frame fs) @ r) s) = run (put r (fold disp fs s))"
  using assms
proof (induction fs arbitrary: s)
  case (Cons f fs)
  have "run (put (concat (map encode_frame (f # fs)) @ r) s)
      = run (put (concat (map encode_frame fs) @ r) (disp f s))"
    using Cons.prems sf.dec_enc[of f "concat (map encode_frame fs) @ r"]
    by (subst run_unfold) (simp add: get_put put_put disp_put)
  also have "\<dots> = run (put r (fold disp fs (disp f s)))"
    using Cons by (simp add: I_disp)
  finally show ?case by simp
qed simp

lemma I_fold: "I s \<Longrightarrow> I (fold disp fs s)"
  by (induction fs arbitrary: s) (simp_all add: I_disp)

lemma get_fold: "I s \<Longrightarrow> get (fold disp fs s) = get s"
  by (induction fs arbitrary: s) (simp_all add: I_disp get_disp)

text \<open>Whole frames in one read are dispatched in order, each once.\<close>

lemma rx_bytes_frames:
  assumes "I s" and "get s = []" and "list_all frame_fits fs"
  shows "rx_bytes get put disp (concat (map encode_frame fs)) s = Some (True, fold disp fs s)"
proof -
  have "run (put (concat (map encode_frame fs)) s) = run (put [] (fold disp fs s))"
    using run_frames[OF assms(1,3), of "[]"] by simp
  also have "\<dots> = run (fold disp fs s)"
    using get_fold[OF assms(1), of fs] assms(2) by (metis put_get)
  also have "\<dots> = (True, fold disp fs s)"
    using get_fold[OF assms(1), of fs] assms(2) by (subst run_unfold) simp
  finally show ?thesis by (simp add: rx_bytes_run assms(2))
qed

lemma rx_feed_concat:
  assumes "I s" and "rx_bytes get put disp (concat cs) s = Some (True, s')"
    and "sf_decode (get s) = NeedMore"
  shows "rx_feed get put disp cs s = Some (True, s')"
  using assms
proof (induction cs arbitrary: s)
  case Nil
  then have "run s = (True, s')" by (simp add: rx_bytes_run put_get)
  with Nil.prems(3) show ?case by (subst (asm) run_unfold) simp
next
  case (Cons c cs)
  obtain ok s1 where c: "rx_bytes get put disp c s = Some (ok, s1)"
    using rx_bytes_total by blast
  have ok: "ok"
    using rx_bytes_append_invalid[OF Cons.prems(1), of c s1 "concat cs"] c Cons.prems(2) by (cases ok) auto
  have "run (put (get s @ c) s) = (True, s1)"
    using c ok by (simp add: rx_bytes_run)
  then have "I s1" and "sf_decode (get s1) = NeedMore"
    using I_run[of "put (get s @ c) s"] run_rest Cons.prems(1) by (auto simp: I_put)
  moreover have "rx_bytes get put disp (concat cs) s1 = Some (True, s')"
    using rx_bytes_append[of s c s1 "concat cs"] Cons.prems c ok by simp
  ultimately show ?case using Cons.IH c ok by simp
qed

text \<open>Every way of cutting the encoded frames into reads dispatches the same frames.\<close>

lemma rx_feed_frames:
  assumes "I s" and "get s = []" and "list_all frame_fits fs"
    and "concat cs = concat (map encode_frame fs)"
  shows "rx_feed get put disp cs s = Some (True, fold disp fs s)"
  using rx_feed_concat[OF assms(1), of cs] rx_bytes_frames[OF assms(1-3)] assms(2,4) by simp

end

end
