(* ===== verification/Json.thy ===== *)
theory Json
  imports Prelude
begin

text \<open>
  JSON values as the program sees them through \<^verbatim>\<open>nlohmann::json\<close>, and the accessors it uses on
  them.  Parsing and printing belong to that third-party library: they are parameters
  (\<^verbatim>\<open>json_lib\<close>).  The accessors are written out because their failure modes
  matter: \<^verbatim>\<open>contains\<close> is false on a value that is not an object, while \<^verbatim>\<open>value(key, dflt)\<close>
  throws on a value that is not an object and on a present key of another type.
\<close>

datatype cpp_exn = JsonTypeError | JsonParseError | InvalidArgument | OutOfRange | LengthError | DbError | RuntimeError

datatype json = JNull | JBool bool | JInt int | JFloat string | JString string
  | JArray "json list" | JObject "(string \<times> json) list"

text \<open>
  \<^verbatim>\<open>json::parse\<close> throws on malformed text (\<^term>\<open>None\<close>); \<^verbatim>\<open>dump\<close> throws on a string that is
  not valid UTF-8 (\<^term>\<open>None\<close>).
\<close>

record json_lib =
  js_parse :: "string \<Rightarrow> json option"
  js_dump :: "json \<Rightarrow> string option"

fun j_is_object :: "json \<Rightarrow> bool" where
  "j_is_object (JObject _) = True"
| "j_is_object _ = False"

text \<open>\<^verbatim>\<open>j.contains(key)\<close> followed by \<^verbatim>\<open>j[key]\<close>.\<close>

fun j_get :: "json \<Rightarrow> string \<Rightarrow> json option" where
  "j_get (JObject kvs) key = map_of kvs key"
| "j_get _ key = None"

definition j_contains :: "json \<Rightarrow> string \<Rightarrow> bool" where
  "j_contains j key \<longleftrightarrow> j_get j key \<noteq> None"

text \<open>\<^verbatim>\<open>j.contains(key) && j[key].is_object()\<close>, and the same for strings, Booleans and arrays.\<close>

definition j_get_object :: "json \<Rightarrow> string \<Rightarrow> json option" where
  "j_get_object j key =
     (case j_get j key of Some (JObject kvs) \<Rightarrow> Some (JObject kvs) | _ \<Rightarrow> None)"

definition j_get_string :: "json \<Rightarrow> string \<Rightarrow> string option" where
  "j_get_string j key = (case j_get j key of Some (JString v) \<Rightarrow> Some v | _ \<Rightarrow> None)"

definition j_get_bool :: "json \<Rightarrow> string \<Rightarrow> bool option" where
  "j_get_bool j key = (case j_get j key of Some (JBool v) \<Rightarrow> Some v | _ \<Rightarrow> None)"

definition j_get_array :: "json \<Rightarrow> string \<Rightarrow> json list option" where
  "j_get_array j key = (case j_get j key of Some (JArray v) \<Rightarrow> Some v | _ \<Rightarrow> None)"

text \<open>\<^verbatim>\<open>j.value(key, std::string dflt)\<close>.\<close>

definition j_value :: "json \<Rightarrow> string \<Rightarrow> string \<Rightarrow> cpp_exn + string" where
  "j_value j key dflt =
     (case j of
        JObject kvs \<Rightarrow>
          (case map_of kvs key of
             None \<Rightarrow> Inr dflt
           | Some (JString v) \<Rightarrow> Inr v
           | Some _ \<Rightarrow> Inl JsonTypeError)
      | _ \<Rightarrow> Inl JsonTypeError)"

text \<open>
  A statement that may throw returns the exception it let escape, if any, and the state it left
  behind; \<^verbatim>\<open>try_value r s k\<close> goes on with \<^verbatim>\<open>k\<close> unless \<^verbatim>\<open>r\<close> threw.
\<close>

type_synonym 's outcome = "cpp_exn option \<times> 's"

definition try_value :: "cpp_exn + 'v \<Rightarrow> 's \<Rightarrow> ('v \<Rightarrow> 's outcome) \<Rightarrow> 's outcome" where
  "try_value r s k = (case r of Inl e \<Rightarrow> (Some e, s) | Inr v \<Rightarrow> k v)"

lemma j_get_string_Some: "j_get_string j k = Some v \<longleftrightarrow> j_get j k = Some (JString v)"
  by (auto simp: j_get_string_def split: option.splits json.splits)

lemma j_get_object_Some: "j_get_object j k = Some v \<longleftrightarrow> j_get j k = Some v \<and> j_is_object v"
  by (auto simp: j_get_object_def split: option.splits json.splits elim: j_is_object.elims)

lemma j_get_bool_Some: "j_get_bool j k = Some v \<longleftrightarrow> j_get j k = Some (JBool v)"
  by (auto simp: j_get_bool_def split: option.splits json.splits)

lemma j_value_string: "j_get_string j k = Some v \<Longrightarrow> j_value j k d = Inr v"
  by (cases j) (auto simp: j_get_string_def j_value_def split: option.splits json.splits)

lemma j_value_absent: "j_is_object j \<Longrightarrow> j_get j k = None \<Longrightarrow> j_value j k d = Inr d"
  by (cases j) (auto simp: j_value_def)

lemma j_value_throws_iff:
  "j_value j k d = Inl e \<longleftrightarrow>
     e = JsonTypeError \<and> (\<not> j_is_object j \<or> (\<exists>v. j_get j k = Some v \<and> (\<forall>t. v \<noteq> JString t)))"
  by (cases j) (auto simp: j_value_def split: option.splits json.splits)

end
