(* ===== verification/Sip_Bridge.thy ===== *)
theory Sip_Bridge
  imports Sip_Frame Json
begin

text \<open>
  The cloud-side multiplexer \<^verbatim>\<open>SipBridge\<close> (\<^verbatim>\<open>modules/module/pbx/src/sip_bridge.cpp\<close>): many
  browser sockets over one tunnel to the agent.

  Every operation is a function on a record scheme \<^verbatim>\<open>'a bridge_scheme\<close>: the tunnel sink the
  bridge writes to is another object, which may call back into the bridge while it sends
  (\<^verbatim>\<open>CloudTunnelEndpoint::send_frame\<close> reports a lost tunnel).  The sink and the installed handlers are
  therefore state transformers in the environment \<^verbatim>\<open>bridge_env\<close>, and the object behind
  the sink is the record extension.  What the bridge needs of them is the locale
  \<^verbatim>\<open>bridge_callbacks\<close>.

  A \<^verbatim>\<open>BrowserSink*\<close> is an optional sink number (\<^term>\<open>None\<close> is the null pointer); what is written to a
  sink is appended to \<^verbatim>\<open>b_log\<close>.
\<close>

named_theorems bridge_simps \<open>the operations of the bridge\<close>

section \<open>State\<close>

type_synonym sink = nat

datatype browser_event = BSend sink string | BClose sink string

record bridge =
  m_tunnel :: bool
  m_next_stream_id :: u32
  m_browsers :: "(u32, sink option) umap"
  m_recv_buffer :: string
  m_asterisk_connected :: bool
  b_log :: "browser_event list"

record 's bridge_env =
  be_json :: json_lib
  be_send :: "Op \<Rightarrow> u32 \<Rightarrow> string \<Rightarrow> 's \<Rightarrow> 's"
  m_push_handler :: "(string \<Rightarrow> 's \<Rightarrow> 's) option"
  m_cdr_handler :: "(string \<Rightarrow> 's \<Rightarrow> 's) option"
  m_register_state_handler :: "(string \<Rightarrow> 's \<Rightarrow> 's) option"
  m_agent_hello_handler :: "(string \<Rightarrow> 's \<Rightarrow> 's) option"
  m_asterisk_status_handler :: "(string \<Rightarrow> 's \<Rightarrow> 's) option"

text \<open>The constructor \<^verbatim>\<open>SipBridge(TunnelSink*)\<close>.\<close>

definition new_bridge :: "bool \<Rightarrow> bridge" where
  "new_bridge tunnel =
     \<lparr>m_tunnel = tunnel, m_next_stream_id = 1, m_browsers = [], m_recv_buffer = [],
      m_asterisk_connected = False, b_log = []\<rparr>"

definition call_handler :: "(string \<Rightarrow> 's \<Rightarrow> 's) option \<Rightarrow> string \<Rightarrow> 's \<Rightarrow> 's" where
  "call_handler h payload s = (case h of None \<Rightarrow> s | Some g \<Rightarrow> g payload s)"

text \<open>The setters install a handler; an empty \<^verbatim>\<open>std::function\<close> is \<^term>\<open>None\<close>.\<close>

definition set_push_notify_handler :: "(string \<Rightarrow> 's \<Rightarrow> 's) option \<Rightarrow> 's bridge_env \<Rightarrow> 's bridge_env" where
  "set_push_notify_handler h env = env\<lparr>m_push_handler := h\<rparr>"

definition set_cdr_push_handler :: "(string \<Rightarrow> 's \<Rightarrow> 's) option \<Rightarrow> 's bridge_env \<Rightarrow> 's bridge_env" where
  "set_cdr_push_handler h env = env\<lparr>m_cdr_handler := h\<rparr>"

definition set_register_state_handler :: "(string \<Rightarrow> 's \<Rightarrow> 's) option \<Rightarrow> 's bridge_env \<Rightarrow> 's bridge_env" where
  "set_register_state_handler h env = env\<lparr>m_register_state_handler := h\<rparr>"

definition set_agent_hello_handler :: "(string \<Rightarrow> 's \<Rightarrow> 's) option \<Rightarrow> 's bridge_env \<Rightarrow> 's bridge_env" where
  "set_agent_hello_handler h env = env\<lparr>m_agent_hello_handler := h\<rparr>"

definition set_asterisk_status_handler :: "(string \<Rightarrow> 's \<Rightarrow> 's) option \<Rightarrow> 's bridge_env \<Rightarrow> 's bridge_env" where
  "set_asterisk_status_handler h env = env\<lparr>m_asterisk_status_handler := h\<rparr>"

section \<open>Browser side\<close>

definition on_browser_upgrade ::
  "'a bridge_scheme bridge_env \<Rightarrow> sink option \<Rightarrow> string \<Rightarrow> 'a bridge_scheme \<Rightarrow> u32 \<times> 'a bridge_scheme" where
  "on_browser_upgrade env browser open_meta s =
     (let sid = m_next_stream_id s;
          s1 = s\<lparr>m_next_stream_id := sid + 1, m_browsers := um_emplace sid browser (m_browsers s)\<rparr>;
          s2 = (if m_tunnel s1 then be_send env OPEN sid open_meta s1 else s1)
      in (sid, s2))"

definition on_browser_data ::
  "'a bridge_scheme bridge_env \<Rightarrow> u32 \<Rightarrow> string \<Rightarrow> 'a bridge_scheme \<Rightarrow> 'a bridge_scheme" where
  "on_browser_data env stream_id bytes s =
     (if um_find (m_browsers s) stream_id = None then s
      else if m_tunnel s then be_send env DATA stream_id bytes s else s)"

definition on_browser_close ::
  "'a bridge_scheme bridge_env \<Rightarrow> u32 \<Rightarrow> string \<Rightarrow> 'a bridge_scheme \<Rightarrow> 'a bridge_scheme" where
  "on_browser_close env stream_id reason s =
     (if um_find (m_browsers s) stream_id = None then s
      else let s1 = s\<lparr>m_browsers := um_erase stream_id (m_browsers s)\<rparr>
           in if m_tunnel s1 then be_send env CLOSE stream_id reason s1 else s1)"

section \<open>Tunnel side\<close>

definition close_stream :: "u32 \<Rightarrow> string \<Rightarrow> 'a bridge_scheme \<Rightarrow> 'a bridge_scheme" where
  "close_stream stream_id reason s =
     (case um_find (m_browsers s) stream_id of
        None \<Rightarrow> s
      | Some p \<Rightarrow>
          s\<lparr>b_log := b_log s @ (case p of None \<Rightarrow> [] | Some k \<Rightarrow> [BClose k reason]),
            m_browsers := um_erase stream_id (m_browsers s)\<rparr>)"

text \<open>The non-null sinks of the map, in iteration order.\<close>

definition live_sinks :: "(u32, sink option) umap \<Rightarrow> sink list" where
  "live_sinks m = List.map_filter snd m"

definition on_tunnel_disconnect :: "'a bridge_scheme \<Rightarrow> 'a bridge_scheme" where
  "on_tunnel_disconnect s =
     s\<lparr>b_log := b_log s @ map (\<lambda>k. BClose k ''tunnel_lost'') (live_sinks (m_browsers s)),
       m_browsers := [], m_recv_buffer := [], m_tunnel := False, m_asterisk_connected := False\<rparr>"

definition set_tunnel :: "bool \<Rightarrow> 'a bridge_scheme \<Rightarrow> 'a bridge_scheme" where
  "set_tunnel tunnel s = s\<lparr>m_tunnel := tunnel, m_recv_buffer := []\<rparr>"

text \<open>The cached flag of the \<^verbatim>\<open>ASTERISK_STATUS\<close> branch: malformed JSON leaves it untouched.\<close>

definition asterisk_flag :: "json_lib \<Rightarrow> string \<Rightarrow> bool \<Rightarrow> bool" where
  "asterisk_flag lib payload old =
     (case js_parse lib payload of
        None \<Rightarrow> old
      | Some j \<Rightarrow> (case j_get_bool j ''connected'' of None \<Rightarrow> old | Some b \<Rightarrow> b))"

definition dispatch_frame ::
  "'a bridge_scheme bridge_env \<Rightarrow> Frame \<Rightarrow> 'a bridge_scheme \<Rightarrow> 'a bridge_scheme" where
  "dispatch_frame env f s =
     (case frame_op f of
        DATA \<Rightarrow>
          (case um_find (m_browsers s) (frame_stream_id f) of
             Some (Some k) \<Rightarrow> s\<lparr>b_log := b_log s @ [BSend k (frame_payload f)]\<rparr>
           | _ \<Rightarrow> s)
      | CLOSE \<Rightarrow> close_stream (frame_stream_id f) (frame_payload f) s
      | PING \<Rightarrow> if m_tunnel s then be_send env PONG (frame_stream_id f) [] s else s
      | PONG \<Rightarrow> s
      | ERR \<Rightarrow> s
      | OPEN \<Rightarrow> s
      | SUBSCRIBER_REVOKED \<Rightarrow> s
      | PUSH_NOTIFY \<Rightarrow> call_handler (m_push_handler env) (frame_payload f) s
      | CDR_PUSH \<Rightarrow> call_handler (m_cdr_handler env) (frame_payload f) s
      | REGISTER_STATE \<Rightarrow> call_handler (m_register_state_handler env) (frame_payload f) s
      | AGENT_HELLO \<Rightarrow> call_handler (m_agent_hello_handler env) (frame_payload f) s
      | SOCIETY_BOOTSTRAP \<Rightarrow> s
      | ASTERISK_STATUS \<Rightarrow>
          call_handler (m_asterisk_status_handler env) (frame_payload f)
            (s\<lparr>m_asterisk_connected :=
                 asterisk_flag (be_json env) (frame_payload f) (m_asterisk_connected s)\<rparr>))"

text \<open>\<^verbatim>\<open>on_tunnel_bytes\<close>: the receive loop; the result false asks the caller to drop the tunnel.\<close>

definition put_recv_buffer :: "string \<Rightarrow> 'a bridge_scheme \<Rightarrow> 'a bridge_scheme" where
  "put_recv_buffer b s = s\<lparr>m_recv_buffer := b\<rparr>"

definition on_tunnel_bytes ::
  "'a bridge_scheme bridge_env \<Rightarrow> string \<Rightarrow> 'a bridge_scheme \<Rightarrow> (bool \<times> 'a bridge_scheme) option" where
  "on_tunnel_bytes env bytes s =
     rx_bytes m_recv_buffer put_recv_buffer (dispatch_frame env) bytes s"

section \<open>Control frames to the agent\<close>

text \<open>
  A throwing \<^verbatim>\<open>dump()\<close> leaves the bridge unchanged and the exception to the caller.  The library keeps
  the members of an object sorted by key.
\<close>

definition bootstrap_payload :: "string \<Rightarrow> string \<Rightarrow> json" where
  "bootstrap_payload society_id sip_realm =
     JObject [(''sipRealm'', JString sip_realm), (''societyId'', JString society_id)]"

definition bootstrap_society ::
  "'a bridge_scheme bridge_env \<Rightarrow> string \<Rightarrow> string \<Rightarrow> 'a bridge_scheme \<Rightarrow> cpp_exn option \<times> 'a bridge_scheme" where
  "bootstrap_society env society_id sip_realm s =
     (if \<not> m_tunnel s then (None, s)
      else case js_dump (be_json env) (bootstrap_payload society_id sip_realm) of
             None \<Rightarrow> (Some JsonTypeError, s)
           | Some p \<Rightarrow> (None, be_send env SOCIETY_BOOTSTRAP 0 p s))"

definition revoke_payload :: "string \<Rightarrow> string \<Rightarrow> json" where
  "revoke_payload society_id sip_username =
     JObject [(''sipUsername'', JString sip_username), (''societyId'', JString society_id)]"

definition revoke ::
  "'a bridge_scheme bridge_env \<Rightarrow> string \<Rightarrow> string \<Rightarrow> 'a bridge_scheme \<Rightarrow> cpp_exn option \<times> 'a bridge_scheme" where
  "revoke env society_id sip_username s =
     (if \<not> m_tunnel s then (None, s)
      else case js_dump (be_json env) (revoke_payload society_id sip_username) of
             None \<Rightarrow> (Some JsonTypeError, s)
           | Some p \<Rightarrow> (None, be_send env SUBSCRIBER_REVOKED 0 p s))"

definition active_streams :: "'a bridge_scheme \<Rightarrow> nat" where
  "active_streams s = length (m_browsers s)"

definition last_stream_id :: "'a bridge_scheme \<Rightarrow> u32" where
  "last_stream_id s = m_next_stream_id s - 1"

lemmas bridge_ops = on_browser_upgrade_def on_browser_data_def on_browser_close_def
  close_stream_def set_tunnel_def bootstrap_society_def revoke_def

section \<open>Facts about the state\<close>

lemma recv_buffer_put [simp]: "m_recv_buffer (put_recv_buffer b s) = b"
  and put_put_recv_buffer [simp]: "put_recv_buffer b (put_recv_buffer c s) = put_recv_buffer b s"
  and put_recv_buffer_same [simp]: "put_recv_buffer (m_recv_buffer s) s = s"
  by (simp_all add: put_recv_buffer_def)

lemma put_recv_buffer_fields [simp]:
  "m_tunnel (put_recv_buffer b s) = m_tunnel s"
  "m_next_stream_id (put_recv_buffer b s) = m_next_stream_id s"
  "m_browsers (put_recv_buffer b s) = m_browsers s"
  "m_asterisk_connected (put_recv_buffer b s) = m_asterisk_connected s"
  "b_log (put_recv_buffer b s) = b_log s"
  by (simp_all add: put_recv_buffer_def)

lemma truncate_fields [simp]:
  "m_tunnel (bridge.truncate s) = m_tunnel s"
  "m_next_stream_id (bridge.truncate s) = m_next_stream_id s"
  "m_browsers (bridge.truncate s) = m_browsers s"
  "m_recv_buffer (bridge.truncate s) = m_recv_buffer s"
  "m_asterisk_connected (bridge.truncate s) = m_asterisk_connected s"
  "b_log (bridge.truncate s) = b_log s"
  by (simp_all add: bridge.truncate_def)

text \<open>
  The stream ids in use are below the counter, so that an id the counter hands out is new.
\<close>

definition bridge_inv :: "'a bridge_scheme \<Rightarrow> bool" where
  "bridge_inv s \<longleftrightarrow> um_distinct (m_browsers s) \<and>
     (\<forall>sid \<in> um_keys (m_browsers s). unat sid < unat (m_next_stream_id s))"

lemma bridge_inv_new: "bridge_inv (new_bridge t)"
  by (simp add: bridge_inv_def new_bridge_def)

lemma bridge_inv_truncate: "bridge_inv (bridge.truncate s) = bridge_inv s"
  by (simp add: bridge_inv_def)

lemma bridge_inv_disconnect [simp]: "bridge_inv (on_tunnel_disconnect s)"
  by (simp add: bridge_inv_def on_tunnel_disconnect_def)

lemma bridge_inv_put [simp]: "bridge_inv (put_recv_buffer b s) = bridge_inv s"
  by (simp add: bridge_inv_def)

lemma bridge_inv_set_tunnel: "bridge_inv s \<Longrightarrow> bridge_inv (set_tunnel t s)"
  by (simp add: bridge_inv_def set_tunnel_def)

lemma bridge_inv_close_stream: "bridge_inv s \<Longrightarrow> bridge_inv (close_stream sid reason s)"
  by (auto simp: bridge_inv_def close_stream_def split: option.splits)

lemma unat_Suc_u32: "unat (n :: u32) < 2 ^ 32 - 1 \<Longrightarrow> unat (n + 1) = Suc (unat n)"
  by (simp add: unat_word_ariths)

lemma bridge_inv_emplace:
  assumes "bridge_inv s" and "unat (m_next_stream_id s) < 2 ^ 32 - 1"
  shows "bridge_inv (s\<lparr>m_next_stream_id := m_next_stream_id s + 1,
    m_browsers := um_emplace (m_next_stream_id s) p (m_browsers s)\<rparr>)"
  using assms unat_Suc_u32[OF assms(2)] by (auto simp: bridge_inv_def less_Suc_eq)

section \<open>What the bridge needs of its tunnel sink and its handlers\<close>

text \<open>
  A callback either leaves the bridge alone or tells it, once, that the tunnel is lost.
\<close>

definition bridge_calm :: "('a bridge_scheme \<Rightarrow> 'a bridge_scheme) \<Rightarrow> bool" where
  "bridge_calm g \<longleftrightarrow> (\<forall>s. bridge.truncate (g s) = bridge.truncate s \<or>
     bridge.truncate (g s) = bridge.truncate (on_tunnel_disconnect s))"

lemma bridge_calmE:
  assumes "bridge_calm g"
  obtains "bridge.truncate (g s) = bridge.truncate s"
    | "bridge.truncate (g s) = bridge.truncate (on_tunnel_disconnect s)"
  using assms by (auto simp: bridge_calm_def)

lemma bridge_calm_inv: "bridge_calm g \<Longrightarrow> bridge_inv s \<Longrightarrow> bridge_inv (g s)"
  by (metis bridge_calm_def bridge_inv_disconnect bridge_inv_truncate)

lemma bridge_calm_next: "bridge_calm g \<Longrightarrow> m_next_stream_id (g s) = m_next_stream_id s"
  by (erule bridge_calmE[where s = s])
    (drule arg_cong[where f = m_next_stream_id], simp add: on_tunnel_disconnect_def)+

lemma bridge_calm_buffer: "bridge_calm g \<Longrightarrow> length (m_recv_buffer (g s)) \<le> length (m_recv_buffer s)"
  by (erule bridge_calmE[where s = s])
    (drule arg_cong[where f = m_recv_buffer], simp add: on_tunnel_disconnect_def)+

lemma bridge_calm_browsers: "bridge_calm g \<Longrightarrow> m_browsers (g s) = m_browsers s \<or> m_browsers (g s) = []"
  by (erule bridge_calmE[where s = s])
    (drule arg_cong[where f = m_browsers], simp add: on_tunnel_disconnect_def)+

lemma bridge_calm_id [simp]: "bridge_calm (\<lambda>s. s)"
  by (simp add: bridge_calm_def)

lemma call_handler_calm:
  "(\<And>g. h = Some g \<Longrightarrow> bridge_calm (g p)) \<Longrightarrow> bridge_calm (call_handler h p)"
  by (cases h) (auto simp: bridge_calm_def call_handler_def)

locale bridge_callbacks =
  fixes env :: "'a bridge_scheme bridge_env"
  assumes send_calm: "bridge_calm (be_send env op sid p)"
    and push_calm: "m_push_handler env = Some h \<Longrightarrow> bridge_calm (h p)"
    and cdr_calm: "m_cdr_handler env = Some h \<Longrightarrow> bridge_calm (h p)"
    and register_state_calm: "m_register_state_handler env = Some h \<Longrightarrow> bridge_calm (h p)"
    and agent_hello_calm: "m_agent_hello_handler env = Some h \<Longrightarrow> bridge_calm (h p)"
    and asterisk_status_calm: "m_asterisk_status_handler env = Some h \<Longrightarrow> bridge_calm (h p)"
begin

lemmas handler_calm = push_calm cdr_calm register_state_calm agent_hello_calm asterisk_status_calm

lemma handlers_calm:
  "bridge_calm (call_handler (m_push_handler env) p)"
  "bridge_calm (call_handler (m_cdr_handler env) p)"
  "bridge_calm (call_handler (m_register_state_handler env) p)"
  "bridge_calm (call_handler (m_agent_hello_handler env) p)"
  "bridge_calm (call_handler (m_asterisk_status_handler env) p)"
  by (auto intro!: call_handler_calm simp: handler_calm)

lemmas calm = send_calm handlers_calm

lemma dispatch_inv: "bridge_inv s \<Longrightarrow> bridge_inv (dispatch_frame env f s)"
  by (auto simp: dispatch_frame_def bridge_inv_close_stream bridge_calm_inv[OF calm(1)]
      bridge_calm_inv[OF calm(2)] bridge_calm_inv[OF calm(3)] bridge_calm_inv[OF calm(4)]
      bridge_calm_inv[OF calm(5)] intro!: bridge_calm_inv[OF calm(6)]
      split: Op.split option.split) (simp_all add: bridge_inv_def)

lemma dispatch_next: "m_next_stream_id (dispatch_frame env f s) = m_next_stream_id s"
  by (auto simp: dispatch_frame_def close_stream_def calm[THEN bridge_calm_next]
      split: Op.split option.split)

lemma dispatch_buffer: "length (m_recv_buffer (dispatch_frame env f s)) \<le> length (m_recv_buffer s)"
proof -
  have "length (m_recv_buffer (call_handler (m_asterisk_status_handler env) p
      (s\<lparr>m_asterisk_connected := b\<rparr>))) \<le> length (m_recv_buffer s)" for p b
    using bridge_calm_buffer[OF calm(6), of p "s\<lparr>m_asterisk_connected := b\<rparr>"] by simp
  then show ?thesis
    by (auto simp: dispatch_frame_def close_stream_def calm[THEN bridge_calm_buffer]
        split: Op.split option.split)
qed

lemma upgrade_inv:
  assumes "bridge_inv s" and "unat (m_next_stream_id s) < 2 ^ 32 - 1"
  shows "bridge_inv (snd (on_browser_upgrade env b meta s))"
  using bridge_inv_emplace[OF assms, of b] bridge_calm_inv[OF send_calm]
  by (simp add: on_browser_upgrade_def Let_def)

lemma data_inv: "bridge_inv s \<Longrightarrow> bridge_inv (on_browser_data env sid p s)"
  by (simp add: on_browser_data_def bridge_calm_inv[OF send_calm])

lemma close_inv: "bridge_inv s \<Longrightarrow> bridge_inv (on_browser_close env sid reason s)"
  by (auto simp: on_browser_close_def Let_def intro!: bridge_calm_inv[OF send_calm])
    (auto simp: bridge_inv_def)

lemma control_inv:
  "bridge_inv s \<Longrightarrow> bridge_inv (snd (bootstrap_society env soc realm s))"
  "bridge_inv s \<Longrightarrow> bridge_inv (snd (revoke env soc user s))"
  by (simp_all add: bootstrap_society_def revoke_def bridge_calm_inv[OF send_calm] split: option.split)

end

sublocale bridge_callbacks \<subseteq> rx: frame_receiver m_recv_buffer put_recv_buffer "dispatch_frame env"
  by unfold_locales (simp_all add: dispatch_buffer)

context bridge_callbacks
begin

lemma on_tunnel_bytes_total: "\<exists>ok s'. on_tunnel_bytes env bytes s = Some (ok, s')"
  unfolding on_tunnel_bytes_def by (rule rx.rx_bytes_total)

lemma on_tunnel_bytes_keeps:
  assumes "on_tunnel_bytes env bytes s = Some (ok, s')"
  shows "bridge_inv s \<Longrightarrow> bridge_inv s'" and "m_next_stream_id s' = m_next_stream_id s"
    and "\<not> ok \<Longrightarrow> m_recv_buffer s' = []"
    and "ok \<Longrightarrow> sf_decode (m_recv_buffer s') = NeedMore"
proof -
  let ?s = "put_recv_buffer (m_recv_buffer s @ bytes) s"
  have r: "rx.run ?s = (ok, s')"
    using assms by (simp add: on_tunnel_bytes_def rx.rx_bytes_run)
  show "bridge_inv s \<Longrightarrow> bridge_inv s'"
    using rx.run_preserves[of bridge_inv ?s] r by (simp add: dispatch_inv)
  show "m_next_stream_id s' = m_next_stream_id s"
    using rx.run_preserves[of "\<lambda>t. m_next_stream_id t = m_next_stream_id s" ?s] r
    by (simp add: dispatch_next)
  show "\<not> ok \<Longrightarrow> m_recv_buffer s' = []" using rx.run_invalid r by simp
  show "ok \<Longrightarrow> sf_decode (m_recv_buffer s') = NeedMore" using rx.run_rest r by simp
qed

end

end
