(* ===== verification/Transport.thy ===== *)
theory Transport
  imports Sip_Frame "HOL-Library.Sublist"
begin

text \<open>
  What the two ends of the tunnel share: the transport under them and the contract of
  \<^verbatim>\<open>TunnelSink\<close> (\<^verbatim>\<open>modules/module/pbx/inc/sip_bridge.hpp\<close>), implemented by the cloud's
  \<^verbatim>\<open>CloudTunnelEndpoint\<close> and by the agent's \<^verbatim>\<open>CloudConnector\<close>.

  A transport answers its \<^verbatim>\<open>send\<close> calls from a list of outcomes chosen by the environment (an
  exhausted list stands for a healthy socket); every theorem holds for all such lists.
\<close>

section \<open>Transports\<close>

record agent_transport =
  t_id :: nat
  t_oracle :: "bool list"

text \<open>\<^verbatim>\<open>IAgentTransport::send\<close> and \<^verbatim>\<open>ITransport::send\<close>.\<close>

definition transport_send :: "agent_transport \<Rightarrow> bool \<times> agent_transport" where
  "transport_send t =
     (case t_oracle t of [] \<Rightarrow> (True, t) | b # bs \<Rightarrow> (b, t\<lparr>t_oracle := bs\<rparr>))"

text \<open>What went out on which transport, and which transports were closed.\<close>

datatype wire_event = Sent nat string | Closed nat | WsPing nat

definition sent_bytes :: "wire_event list \<Rightarrow> string list" where
  "sent_bytes es = List.map_filter (\<lambda>e. case e of Sent _ b \<Rightarrow> Some b | _ \<Rightarrow> None) es"

lemma transport_send_id: "transport_send t = (ok, t') \<Longrightarrow> t_id t' = t_id t"
  by (auto simp: transport_send_def split: list.splits)

lemma transport_send_healthy [simp]: "t_oracle t = [] \<Longrightarrow> transport_send t = (True, t)"
  by (simp add: transport_send_def)

lemma map_filter_append: "List.map_filter f (xs @ ys) = List.map_filter f xs @ List.map_filter f ys"
  by (simp add: List.map_filter_def)

lemma map_filter_single: "List.map_filter f [x] = (case f x of None \<Rightarrow> [] | Some y \<Rightarrow> [y])"
  by (simp add: List.map_filter_def split: option.split)

lemma sent_bytes_simps [simp]:
  "sent_bytes [] = []" "sent_bytes (es @ fs) = sent_bytes es @ sent_bytes fs"
  "sent_bytes [Sent i b] = [b]" "sent_bytes [Closed i] = []" "sent_bytes [WsPing i] = []"
  by (simp_all add: sent_bytes_def map_filter_append map_filter_single)

section \<open>The contract of a tunnel sink\<close>

text \<open>
  \<open>pipe\<close> is what was handed to the transports so far, in order, followed by what is queued.  A
  sink appends each frame to it: nothing is lost, duplicated or overtaken, whatever the
  transports answer.
\<close>

locale tunnel_sink =
  fixes send :: "Op \<Rightarrow> u32 \<Rightarrow> string \<Rightarrow> 's \<Rightarrow> 's"
    and pipe :: "'s \<Rightarrow> string list"
    and ok :: "'s \<Rightarrow> bool"
  assumes pipe_send: "ok s \<Longrightarrow> pipe (send op sid p s) = pipe s @ [sf_encode op sid p]"
    and ok_send: "ok s \<Longrightarrow> ok (send op sid p s)"
begin

definition send_all :: "Frame list \<Rightarrow> 's \<Rightarrow> 's" where
  "send_all fs s = fold (\<lambda>f. send (frame_op f) (frame_stream_id f) (frame_payload f)) fs s"

lemma ok_send_all: "ok s \<Longrightarrow> ok (send_all fs s)"
  unfolding send_all_def by (induction fs arbitrary: s) (simp_all add: ok_send)

lemma pipe_send_all: "ok s \<Longrightarrow> pipe (send_all fs s) = pipe s @ map encode_frame fs"
  unfolding send_all_def
  by (induction fs arbitrary: s) (simp_all add: ok_send pipe_send encode_frame_def)

end

end
