(* ===== verification/Cloud_Tunnel_Endpoint.thy ===== *)
theory Cloud_Tunnel_Endpoint
  imports Sip_Bridge Transport
begin

text \<open>
  The accept side of the tunnel, \<^verbatim>\<open>CloudTunnelEndpoint\<close>
  (\<^verbatim>\<open>modules/module/pbx/src/cloud_tunnel_endpoint.cpp\<close>), with the timer adapter
  \<^verbatim>\<open>CloudTunnelTickDriver\<close>.  The endpoint and the bridge call each other, so the endpoint's
  record extends the bridge's and \<^verbatim>\<open>send_frame\<close> is the sink the bridge writes to.

  What went out on which transport, and which transports were closed, is recorded in \<^verbatim>\<open>e_log\<close>.
  Clock readings are arguments.
\<close>

section \<open>State\<close>

record cloud_config =
  outbound_buffer_max :: nat
  heartbeat_interval_sec :: int
  heartbeat_max_missed :: int

record cloud = bridge +
  ce_cfg :: cloud_config
  ce_clock :: bool
  ce_bridge :: bool
  ce_transport :: "agent_transport option"
  ce_outbound :: "string list"
  ce_last_heartbeat_unix :: int
  ce_pings_outstanding :: int
  e_log :: "wire_event list"

definition default_config :: cloud_config where
  "default_config =
     \<lparr>outbound_buffer_max = 0, heartbeat_interval_sec = 10, heartbeat_max_missed = 5\<rparr>"

definition attach_bridge :: "bool \<Rightarrow> 'a cloud_scheme \<Rightarrow> 'a cloud_scheme" where
  "attach_bridge b s = s\<lparr>ce_bridge := b\<rparr>"

definition has_agent :: "'a cloud_scheme \<Rightarrow> bool" where
  "has_agent s \<longleftrightarrow> ce_transport s \<noteq> None"

section \<open>Operations\<close>

definition mark_disconnected :: "'a cloud_scheme \<Rightarrow> 'a cloud_scheme" where
  "mark_disconnected s =
     (let s1 = (case ce_transport s of
                  None \<Rightarrow> s
                | Some t \<Rightarrow> s\<lparr>e_log := e_log s @ [Closed (t_id t)], ce_transport := None\<rparr>)
      in if ce_bridge s1 then on_tunnel_disconnect s1 else s1)"

text \<open>The buffering tail of \<^verbatim>\<open>send_frame\<close>: a full bounded buffer drops the frame.\<close>

definition buffer_frame :: "string \<Rightarrow> 'a cloud_scheme \<Rightarrow> 'a cloud_scheme" where
  "buffer_frame bytes s =
     (if outbound_buffer_max (ce_cfg s) = 0 \<or> length (ce_outbound s) < outbound_buffer_max (ce_cfg s)
      then s\<lparr>ce_outbound := ce_outbound s @ [bytes]\<rparr> else s)"

definition endpoint_send_frame :: "Op \<Rightarrow> u32 \<Rightarrow> string \<Rightarrow> 'a cloud_scheme \<Rightarrow> 'a cloud_scheme" where
  "endpoint_send_frame op stream_id payload s =
     (let bytes = sf_encode op stream_id payload
      in case ce_transport s of
           None \<Rightarrow> buffer_frame bytes s
         | Some t \<Rightarrow>
             (case transport_send t of
                (True, t') \<Rightarrow> s\<lparr>ce_transport := Some t', e_log := e_log s @ [Sent (t_id t) bytes]\<rparr>
              | (False, t') \<Rightarrow> buffer_frame bytes (mark_disconnected (s\<lparr>ce_transport := Some t'\<rparr>))))"

function flush_outbound :: "'a cloud_scheme \<Rightarrow> 'a cloud_scheme" where
  "flush_outbound s =
     (case (ce_outbound s, ce_transport s) of
        (b # bs, Some t) \<Rightarrow>
          (case transport_send t of
             (True, t') \<Rightarrow>
               flush_outbound (s\<lparr>ce_transport := Some t', e_log := e_log s @ [Sent (t_id t) b],
                                 ce_outbound := bs\<rparr>)
           | (False, t') \<Rightarrow> mark_disconnected (s\<lparr>ce_transport := Some t'\<rparr>))
      | _ \<Rightarrow> s)"
  by pat_completeness auto
termination
  by (relation "measure (\<lambda>s. length (ce_outbound s))") (auto, metis length_Cons lessI)

declare flush_outbound.simps [simp del]

definition on_agent_connected ::
  "int \<Rightarrow> agent_transport option \<Rightarrow> 'a cloud_scheme \<Rightarrow> 'a cloud_scheme" where
  "on_agent_connected now transport s =
     (case transport of
        None \<Rightarrow> s
      | Some t \<Rightarrow>
          (let s1 = (if has_agent s then mark_disconnected s else s);
               s2 = s1\<lparr>ce_transport := Some t, ce_pings_outstanding := 0,
                       ce_last_heartbeat_unix :=
                         (if ce_clock s1 then now else ce_last_heartbeat_unix s1)\<rparr>;
               s3 = (if ce_bridge s2 then set_tunnel True s2 else s2)
           in flush_outbound s3))"

definition on_bytes_received ::
  "'a cloud_scheme bridge_env \<Rightarrow> string \<Rightarrow> 'a cloud_scheme \<Rightarrow> 'a cloud_scheme option" where
  "on_bytes_received env bytes s =
     (let s1 = s\<lparr>ce_pings_outstanding := 0\<rparr>
      in if \<not> ce_bridge s1 then Some s1
         else case on_tunnel_bytes env bytes s1 of
                None \<Rightarrow> None
              | Some (ok, s2) \<Rightarrow> Some (if ok then s2 else mark_disconnected s2))"

definition on_agent_disconnected :: "'a cloud_scheme \<Rightarrow> 'a cloud_scheme" where
  "on_agent_disconnected s = (if has_agent s then mark_disconnected s else s)"

definition maybe_heartbeat :: "int \<Rightarrow> 'a cloud_scheme \<Rightarrow> 'a cloud_scheme" where
  "maybe_heartbeat now s =
     (if \<not> ce_clock s then s
      else if heartbeat_interval_sec (ce_cfg s) \<le> 0 then s
      else if now - ce_last_heartbeat_unix s < heartbeat_interval_sec (ce_cfg s) then s
      else if ce_pings_outstanding s \<ge> heartbeat_max_missed (ce_cfg s) then mark_disconnected s
      else let s1 = endpoint_send_frame PING 0 [] s
           in if has_agent s1
              then s1\<lparr>ce_pings_outstanding := ce_pings_outstanding s1 + 1,
                      ce_last_heartbeat_unix := now\<rparr>
              else s1)"

definition tick :: "int \<Rightarrow> 'a cloud_scheme \<Rightarrow> 'a cloud_scheme" where
  "tick now s = (if has_agent s then maybe_heartbeat now s else s)"

section \<open>The timer adapter\<close>

text \<open>
  \<^verbatim>\<open>CloudTunnelTickDriver\<close> owns one recurring reactor timer.  The reactor is a third-party
  component; \<open>schedule\<close> is its answer to \<^verbatim>\<open>schedule_timer\<close> (a timer id, or -1).
\<close>

record tick_driver =
  td_timer_id :: int
  td_reactor :: bool
  td_cancelled :: "int list"

definition new_tick_driver :: tick_driver where
  "new_tick_driver = \<lparr>td_timer_id = -1, td_reactor = False, td_cancelled = []\<rparr>"

definition register_with_reactor :: "bool \<Rightarrow> int \<Rightarrow> tick_driver \<Rightarrow> int \<times> tick_driver" where
  "register_with_reactor reactor_ok schedule d =
     (if \<not> reactor_ok then (-1, d)
      else let d1 = d\<lparr>td_reactor := True, td_timer_id := schedule\<rparr>
           in if schedule = -1 then (-1, d1) else (0, d1))"

definition cancel_with_reactor :: "tick_driver \<Rightarrow> int \<times> tick_driver" where
  "cancel_with_reactor d =
     (if td_timer_id d = -1 then (0, d)
      else (0, d\<lparr>td_cancelled := (if td_reactor d then td_cancelled d @ [td_timer_id d] else td_cancelled d),
                td_timer_id := -1\<rparr>))"

definition handle_timeout :: "int \<Rightarrow> 'a cloud_scheme \<Rightarrow> int \<times> 'a cloud_scheme" where
  "handle_timeout now s = (0, tick now s)"

section \<open>Basic facts\<close>

lemma mark_disconnected_fields [simp]:
  "ce_transport (mark_disconnected s) = None"
  "ce_outbound (mark_disconnected s) = ce_outbound s"
  "ce_cfg (mark_disconnected s) = ce_cfg s"
  "ce_clock (mark_disconnected s) = ce_clock s"
  "ce_bridge (mark_disconnected s) = ce_bridge s"
  "ce_pings_outstanding (mark_disconnected s) = ce_pings_outstanding s"
  "ce_last_heartbeat_unix (mark_disconnected s) = ce_last_heartbeat_unix s"
  "m_next_stream_id (mark_disconnected s) = m_next_stream_id s"
  by (auto simp: mark_disconnected_def Let_def on_tunnel_disconnect_def split: option.split)

lemma buffer_frame_fields [simp]:
  "ce_transport (buffer_frame b s) = ce_transport s"
  "ce_cfg (buffer_frame b s) = ce_cfg s"
  "ce_clock (buffer_frame b s) = ce_clock s"
  "ce_bridge (buffer_frame b s) = ce_bridge s"
  "ce_pings_outstanding (buffer_frame b s) = ce_pings_outstanding s"
  "ce_last_heartbeat_unix (buffer_frame b s) = ce_last_heartbeat_unix s"
  "e_log (buffer_frame b s) = e_log s"
  "m_tunnel (buffer_frame b s) = m_tunnel s"
  "bridge.truncate (buffer_frame b s) = bridge.truncate s"
  by (auto simp: buffer_frame_def bridge.truncate_def)

lemma send_frame_fields [simp]:
  "ce_cfg (endpoint_send_frame op sid p s) = ce_cfg s"
  "ce_clock (endpoint_send_frame op sid p s) = ce_clock s"
  "ce_bridge (endpoint_send_frame op sid p s) = ce_bridge s"
  "ce_pings_outstanding (endpoint_send_frame op sid p s) = ce_pings_outstanding s"
  "ce_last_heartbeat_unix (endpoint_send_frame op sid p s) = ce_last_heartbeat_unix s"
  by (auto simp: endpoint_send_frame_def Let_def split: option.split prod.split bool.split)

lemma truncate_cloud_update [simp]:
  "bridge.truncate (s\<lparr>ce_transport := x\<rparr>) = bridge.truncate s"
  "bridge.truncate (s\<lparr>ce_outbound := o'\<rparr>) = bridge.truncate s"
  "bridge.truncate (s\<lparr>e_log := l\<rparr>) = bridge.truncate s"
  "bridge.truncate (s\<lparr>ce_pings_outstanding := i\<rparr>) = bridge.truncate s"
  "bridge.truncate (s\<lparr>ce_last_heartbeat_unix := j\<rparr>) = bridge.truncate s"
  by (simp_all add: bridge.truncate_def)

text \<open>Closing the transport touches the bridge in one way only.\<close>

lemma mark_disconnected_bridge:
  "bridge.truncate (mark_disconnected s) =
     bridge.truncate (if ce_bridge s then on_tunnel_disconnect s else s)"
  by (auto simp: mark_disconnected_def Let_def on_tunnel_disconnect_def bridge.truncate_def
      split: option.split)

lemma endpoint_send_calm: "bridge_calm (endpoint_send_frame op sid p)"
  unfolding bridge_calm_def
proof
  fix s :: "'a cloud_scheme"
  have "bridge.truncate (mark_disconnected (s\<lparr>ce_transport := Some t\<rparr>)) \<in>
      {bridge.truncate s, bridge.truncate (on_tunnel_disconnect s)}" for t
    by (simp add: mark_disconnected_bridge)
      (simp add: on_tunnel_disconnect_def bridge.truncate_def)
  then show "bridge.truncate (endpoint_send_frame op sid p s) = bridge.truncate s \<or>
      bridge.truncate (endpoint_send_frame op sid p s) = bridge.truncate (on_tunnel_disconnect s)"
    by (auto simp: endpoint_send_frame_def Let_def split: option.split prod.split bool.split)
qed

lemma set_tunnel_fields [simp]:
  "ce_cfg (set_tunnel b s) = ce_cfg s" "ce_clock (set_tunnel b s) = ce_clock s"
  "ce_bridge (set_tunnel b s) = ce_bridge s" "ce_transport (set_tunnel b s) = ce_transport s"
  "ce_outbound (set_tunnel b s) = ce_outbound s" "m_tunnel (set_tunnel b s) = b"
  "ce_pings_outstanding (set_tunnel b s) = ce_pings_outstanding s"
  "ce_last_heartbeat_unix (set_tunnel b s) = ce_last_heartbeat_unix s"
  "m_browsers (set_tunnel b s) = m_browsers s" "m_recv_buffer (set_tunnel b s) = []"
  by (simp_all add: set_tunnel_def)

section \<open>Handlers that reach the tunnel only through send\_frame\<close>

inductive sends :: "'a cloud_scheme \<Rightarrow> 'a cloud_scheme \<Rightarrow> bool" for s where
  sends_refl: "sends s s"
| sends_step: "sends s t \<Longrightarrow> sends s (endpoint_send_frame op sid p t)"

definition handler_sends :: "('a cloud_scheme \<Rightarrow> 'a cloud_scheme) \<Rightarrow> bool" where
  "handler_sends g \<longleftrightarrow> (\<forall>s. \<exists>t. sends s t \<and> cloud.truncate (g s) = cloud.truncate t)"

lemma cloud_truncate_fields [simp]:
  "m_tunnel (cloud.truncate s) = m_tunnel s"
  "m_next_stream_id (cloud.truncate s) = m_next_stream_id s"
  "m_browsers (cloud.truncate s) = m_browsers s"
  "ce_cfg (cloud.truncate s) = ce_cfg s"
  "ce_clock (cloud.truncate s) = ce_clock s"
  "ce_bridge (cloud.truncate s) = ce_bridge s"
  "ce_transport (cloud.truncate s) = ce_transport s"
  "ce_outbound (cloud.truncate s) = ce_outbound s"
  "ce_pings_outstanding (cloud.truncate s) = ce_pings_outstanding s"
  "e_log (cloud.truncate s) = e_log s"
  "bridge.truncate (cloud.truncate s) = bridge.truncate s"
  by (simp_all add: cloud.truncate_def bridge.truncate_def)

lemma disconnect_truncate:
  "bridge.truncate (on_tunnel_disconnect s) = on_tunnel_disconnect (bridge.truncate s)"
  by (simp add: on_tunnel_disconnect_def bridge.truncate_def)

lemma disconnect_idem [simp]: "on_tunnel_disconnect (on_tunnel_disconnect s) = on_tunnel_disconnect s"
  by (simp add: on_tunnel_disconnect_def live_sinks_def)

lemma sends_calm:
  "sends s t \<Longrightarrow> bridge.truncate t \<in> {bridge.truncate s, on_tunnel_disconnect (bridge.truncate s)}"
proof (induction rule: sends.induct)
  case (sends_step t op sid p)
  then show ?case
    using endpoint_send_calm[of op sid p]
    by (auto simp: bridge_calm_def disconnect_truncate elim!: allE[of _ t])
qed simp

lemma handler_sends_calm: "handler_sends g \<Longrightarrow> bridge_calm g"
  unfolding handler_sends_def bridge_calm_def disconnect_truncate
  by (metis cloud_truncate_fields(11) insertE sends_calm singletonD)

section \<open>The invariant\<close>

text \<open>
  While an agent is attached nothing is queued, and the bridge of an attached endpoint has its
  tunnel pointer set (so that its frames are not dropped).
\<close>

definition cloud_inv :: "'a cloud_scheme \<Rightarrow> bool" where
  "cloud_inv s \<longleftrightarrow> bridge_inv s \<and> (has_agent s \<longrightarrow> ce_outbound s = []) \<and>
     0 \<le> ce_pings_outstanding s \<and> (has_agent s \<and> ce_bridge s \<longrightarrow> m_tunnel s)"

lemma cloud_inv_truncate: "cloud_inv (cloud.truncate s) = cloud_inv s"
  by (simp add: cloud_inv_def has_agent_def bridge_inv_def)

lemma cloud_inv_bridge_updates [simp]:
  "cloud_inv (s\<lparr>b_log := l\<rparr>) = cloud_inv s"
  "cloud_inv (s\<lparr>m_asterisk_connected := c\<rparr>) = cloud_inv s"
  "cloud_inv (put_recv_buffer b s) = cloud_inv s"
  by (simp_all add: cloud_inv_def has_agent_def bridge_inv_def put_recv_buffer_def)

lemma cloud_inv_close_stream: "cloud_inv s \<Longrightarrow> cloud_inv (close_stream i r s)"
  using bridge_inv_close_stream[of s i r]
  by (cases "um_find (m_browsers s) i") (auto simp: cloud_inv_def has_agent_def close_stream_def)

lemma cloud_inv_mark_disconnected:
  "bridge_inv s \<Longrightarrow> 0 \<le> ce_pings_outstanding s \<Longrightarrow> cloud_inv (mark_disconnected s)"
  using bridge_inv_truncate[of "mark_disconnected s"] bridge_inv_truncate[of s]
  by (auto simp: cloud_inv_def has_agent_def mark_disconnected_bridge bridge_inv_truncate split: if_splits)

lemma cloud_inv_drop: "cloud_inv s \<Longrightarrow> cloud_inv (mark_disconnected s)"
  using cloud_inv_mark_disconnected[of s] by (simp add: cloud_inv_def)

lemma bridge_inv_cloud_update [simp]:
  "bridge_inv (s\<lparr>ce_transport := x\<rparr>) = bridge_inv s"
  "bridge_inv (s\<lparr>ce_outbound := o'\<rparr>) = bridge_inv s"
  "bridge_inv (s\<lparr>e_log := l\<rparr>) = bridge_inv s"
  "bridge_inv (s\<lparr>ce_pings_outstanding := i\<rparr>) = bridge_inv s"
  "bridge_inv (s\<lparr>ce_last_heartbeat_unix := j\<rparr>) = bridge_inv s"
  by (simp_all add: bridge_inv_def)

lemma cloud_inv_buffer: "cloud_inv s \<Longrightarrow> \<not> has_agent s \<Longrightarrow> cloud_inv (buffer_frame b s)"
  by (auto simp: cloud_inv_def has_agent_def buffer_frame_def)

lemma cloud_inv_send: "cloud_inv s \<Longrightarrow> cloud_inv (endpoint_send_frame op sid p s)"
proof -
  assume inv: "cloud_inv s"
  have "cloud_inv (mark_disconnected (s\<lparr>ce_transport := x\<rparr>))" for x
    using inv cloud_inv_mark_disconnected[of "s\<lparr>ce_transport := x\<rparr>"] by (simp add: cloud_inv_def)
  with inv show ?thesis
    by (auto simp: endpoint_send_frame_def Let_def has_agent_def cloud_inv_buffer
        split: option.split prod.split bool.split) (simp_all add: cloud_inv_def has_agent_def)
qed

lemma cloud_inv_sends: "sends s t \<Longrightarrow> cloud_inv s \<Longrightarrow> cloud_inv t"
  by (induction rule: sends.induct) (simp_all add: cloud_inv_send)

lemma cloud_inv_handler: "handler_sends g \<Longrightarrow> cloud_inv s \<Longrightarrow> cloud_inv (g s)"
  unfolding handler_sends_def by (metis cloud_inv_sends cloud_inv_truncate)

lemma flush_outbound_simps:
  "ce_outbound s = [] \<Longrightarrow> flush_outbound s = s"
  "ce_transport s = None \<Longrightarrow> flush_outbound s = s"
  by (simp_all add: flush_outbound.simps[of s] split: list.split)

lemma flush_outbound_inv:
  "bridge_inv s \<Longrightarrow> 0 \<le> ce_pings_outstanding s \<Longrightarrow> (ce_bridge s \<longrightarrow> m_tunnel s) \<Longrightarrow> cloud_inv (flush_outbound s)"
proof (induction s rule: flush_outbound.induct)
  case (1 s)
  then show ?case
    by (subst flush_outbound.simps)
      (auto simp: cloud_inv_mark_disconnected split: list.split option.split prod.split bool.split,
       auto simp: cloud_inv_def has_agent_def)
qed

section \<open>The outbound pipeline\<close>

text \<open>What the agent side has been handed so far, in order, followed by what is still queued.\<close>

definition wire_bytes :: "'a cloud_scheme \<Rightarrow> string list" where
  "wire_bytes s = sent_bytes (e_log s)"

definition pipeline :: "'a cloud_scheme \<Rightarrow> string list" where
  "pipeline s = wire_bytes s @ ce_outbound s"

lemma wire_bytes_mark_disconnected [simp]: "wire_bytes (mark_disconnected s) = wire_bytes s"
  by (auto simp: wire_bytes_def mark_disconnected_def Let_def on_tunnel_disconnect_def split: option.split)

lemma pipeline_mark_disconnected [simp]: "pipeline (mark_disconnected s) = pipeline s"
  by (simp add: pipeline_def)

lemma pipeline_update [simp]:
  "pipeline (s\<lparr>ce_transport := x\<rparr>) = pipeline s"
  "pipeline (s\<lparr>ce_pings_outstanding := i\<rparr>) = pipeline s"
  "pipeline (s\<lparr>ce_last_heartbeat_unix := j\<rparr>) = pipeline s"
  "pipeline (s\<lparr>b_log := l\<rparr>) = pipeline s"
  "pipeline (s\<lparr>m_asterisk_connected := c\<rparr>) = pipeline s"
  "pipeline (s\<lparr>m_browsers := m\<rparr>) = pipeline s"
  "pipeline (s\<lparr>m_next_stream_id := n\<rparr>) = pipeline s"
  "pipeline (put_recv_buffer b s) = pipeline s"
  "pipeline (set_tunnel tn s) = pipeline s"
  "pipeline (cloud.truncate s) = pipeline s"
  by (simp_all add: pipeline_def wire_bytes_def put_recv_buffer_def set_tunnel_def)

lemma send_frame_pipeline:
  assumes "cloud_inv s" and "outbound_buffer_max (ce_cfg s) = 0"
  shows "pipeline (endpoint_send_frame op sid p s) = pipeline s @ [sf_encode op sid p]"
proof (cases "ce_transport s")
  case None
  then show ?thesis
    using assms by (simp add: endpoint_send_frame_def buffer_frame_def pipeline_def wire_bytes_def)
next
  case (Some t)
  obtain ok t' where t: "transport_send t = (ok, t')" by (cases "transport_send t")
  show ?thesis
  proof (cases ok)
    case True
    with Some t assms show ?thesis
      by (simp add: endpoint_send_frame_def pipeline_def wire_bytes_def cloud_inv_def has_agent_def)
  next
    case False
    have "pipeline (buffer_frame b u) = pipeline u @ [b]" if "outbound_buffer_max (ce_cfg u) = 0"
      for b and u :: "'a cloud_scheme"
      using that by (simp add: buffer_frame_def pipeline_def wire_bytes_def)
    with False Some t assms show ?thesis by (simp add: endpoint_send_frame_def)
  qed
qed

interpretation cloud_sink: tunnel_sink endpoint_send_frame pipeline
    "\<lambda>s. cloud_inv s \<and> outbound_buffer_max (ce_cfg s) = 0"
  by unfold_locales (simp_all add: send_frame_pipeline cloud_inv_send)

lemma pipeline_sent:
  "ce_outbound s = b # bs \<Longrightarrow>
   pipeline (s\<lparr>ce_transport := x, e_log := e_log s @ [Sent i b], ce_outbound := bs\<rparr>) = pipeline s"
  by (simp add: pipeline_def wire_bytes_def)

lemma flush_outbound_pipeline [simp]: "pipeline (flush_outbound s) = pipeline s"
proof (induction s rule: flush_outbound.induct)
  case (1 s)
  then show ?case
    by (subst flush_outbound.simps)
      (auto split: list.split option.split prod.split bool.split simp: pipeline_sent)
qed

text \<open>A healthy transport drains the queue completely and stays attached.\<close>

lemma flush_outbound_healthy:
  assumes "ce_transport s = Some t" and "t_oracle t = []"
  shows "ce_outbound (flush_outbound s) = []" and "ce_transport (flush_outbound s) = Some t"
    and "m_tunnel (flush_outbound s) = m_tunnel s" and "m_browsers (flush_outbound s) = m_browsers s"
  using assms
proof (induction s rule: flush_outbound.induct)
  case (1 s)
  { case 1 then show ?case using "1.IH" by (subst flush_outbound.simps) (auto simp: transport_send_def split: list.split) }
  { case 2 then show ?case using "1.IH" by (subst flush_outbound.simps) (auto simp: transport_send_def split: list.split) }
  { case 3 then show ?case using "1.IH" by (subst flush_outbound.simps) (auto simp: transport_send_def split: list.split) }
  { case 4 then show ?case using "1.IH" by (subst flush_outbound.simps) (auto simp: transport_send_def split: list.split) }
qed

section \<open>Every operation keeps the invariant and the pipeline\<close>

text \<open>
  The production environment of the bridge: its sink is this endpoint, and its handlers reach the
  tunnel, if at all, through \<^verbatim>\<open>send_frame\<close>.
\<close>

locale cloud_handlers =
  fixes env :: "'a cloud_scheme bridge_env"
  assumes send_is_endpoint: "be_send env = endpoint_send_frame"
    and push_sends: "m_push_handler env = Some h \<Longrightarrow> handler_sends (h p)"
    and cdr_sends: "m_cdr_handler env = Some h \<Longrightarrow> handler_sends (h p)"
    and register_state_sends: "m_register_state_handler env = Some h \<Longrightarrow> handler_sends (h p)"
    and agent_hello_sends: "m_agent_hello_handler env = Some h \<Longrightarrow> handler_sends (h p)"
    and asterisk_status_sends: "m_asterisk_status_handler env = Some h \<Longrightarrow> handler_sends (h p)"

sublocale cloud_handlers \<subseteq> bridge_callbacks env
  by unfold_locales
    (simp_all add: send_is_endpoint endpoint_send_calm push_sends cdr_sends register_state_sends
      agent_hello_sends asterisk_status_sends handler_sends_calm)

text \<open>
  A property of the endpoint that every \<^verbatim>\<open>send_frame\<close> keeps and that does not look at the bridge.
\<close>

definition endpoint_part where
  "endpoint_part s = (ce_cfg s, ce_clock s, ce_bridge s, ce_transport s, ce_outbound s, e_log s)"

lemma endpoint_part_truncate: "endpoint_part (cloud.truncate s) = endpoint_part s"
  by (simp add: endpoint_part_def)

lemma handler_sends_keeps:
  assumes "handler_sends g" and "P s"
    and "\<And>op sid p t. P t \<Longrightarrow> P (endpoint_send_frame op sid p t)"
    and "\<And>t u. P t \<Longrightarrow> endpoint_part u = endpoint_part t \<Longrightarrow> P u"
  shows "P (g s)"
proof -
  obtain t where t: "sends s t" and g: "cloud.truncate (g s) = cloud.truncate t"
    using assms(1) unfolding handler_sends_def by blast
  from t have "P t"
    using assms(2,3) by (induction rule: sends.induct) blast+
  moreover have "endpoint_part (g s) = endpoint_part t"
    using g by (metis endpoint_part_truncate)
  ultimately show ?thesis by (rule assms(4))
qed

lemma call_handler_sends:
  "(\<And>g. h = Some g \<Longrightarrow> handler_sends (g p)) \<Longrightarrow> handler_sends (call_handler h p)"
  by (cases h) (auto simp: handler_sends_def call_handler_def intro: sends_refl)

context cloud_handlers
begin

lemma call_sends:
  "handler_sends (call_handler (m_push_handler env) p)"
  "handler_sends (call_handler (m_cdr_handler env) p)"
  "handler_sends (call_handler (m_register_state_handler env) p)"
  "handler_sends (call_handler (m_agent_hello_handler env) p)"
  "handler_sends (call_handler (m_asterisk_status_handler env) p)"
  by (auto intro!: call_handler_sends
      simp: push_sends cdr_sends register_state_sends agent_hello_sends asterisk_status_sends)

lemma dispatch_cloud_inv: "cloud_inv s \<Longrightarrow> cloud_inv (dispatch_frame env f s)"
  by (auto simp: dispatch_frame_def send_is_endpoint cloud_inv_send cloud_inv_close_stream
      call_sends[THEN cloud_inv_handler] split: Op.split option.split)

lemma dispatch_keeps:
  assumes "P s"
    and send: "\<And>op sid p t. P t \<Longrightarrow> P (endpoint_send_frame op sid p t)"
    and ep: "\<And>t u. P t \<Longrightarrow> endpoint_part u = endpoint_part t \<Longrightarrow> P u"
  shows "P (dispatch_frame env f s)"
proof -
  have hk: "P (g t)" if "handler_sends g" "P t" for g t
    using that by (rule handler_sends_keeps[where P = P]) (fact send, fact ep)
  note h = hk[OF call_sends(1)] hk[OF call_sends(2)] hk[OF call_sends(3)] hk[OF call_sends(4)]
    hk[OF call_sends(5)]
  have "P (s\<lparr>m_asterisk_connected := c\<rparr>)" "P (s\<lparr>b_log := l\<rparr>)" "P (close_stream i r s)" for c l i r
    using ep[OF \<open>P s\<close>] by (auto simp: endpoint_part_def close_stream_def split: option.split)
  with \<open>P s\<close> show ?thesis
    by (auto simp: dispatch_frame_def send_is_endpoint send h split: Op.split option.split)
qed

lemma on_bytes_received_total: "\<exists>s'. on_bytes_received env bytes s = Some s'"
  using on_tunnel_bytes_total[of bytes "s\<lparr>ce_pings_outstanding := 0\<rparr>"]
  by (auto simp: on_bytes_received_def Let_def)

lemma on_tunnel_bytes_keeps_cloud:
  assumes "on_tunnel_bytes env bytes s = Some (ok, s')" and "P s"
    and "\<And>f t. P t \<Longrightarrow> P (dispatch_frame env f t)" and "\<And>b t. P t \<Longrightarrow> P (put_recv_buffer b t)"
  shows "P s'"
  using rx.run_preserves[of P "put_recv_buffer (m_recv_buffer s @ bytes) s"] assms
  by (simp add: on_tunnel_bytes_def rx.rx_bytes_run)

lemma on_bytes_received_inv:
  assumes "on_bytes_received env bytes s = Some s'" and "cloud_inv s"
  shows "cloud_inv s'"
proof -
  let ?s = "s\<lparr>ce_pings_outstanding := 0\<rparr>"
  have inv: "cloud_inv ?s"
    using assms(2) by (auto simp: cloud_inv_def has_agent_def)
  show ?thesis
  proof (cases "ce_bridge s")
    case True
    then obtain ok t where t: "on_tunnel_bytes env bytes ?s = Some (ok, t)"
      and s': "s' = (if ok then t else mark_disconnected t)"
      using assms(1) by (auto simp: on_bytes_received_def Let_def split: option.splits)
    have "cloud_inv t"
      by (rule on_tunnel_bytes_keeps_cloud[where P = cloud_inv, OF t inv]) (simp_all add: dispatch_cloud_inv)
    then show ?thesis
      by (simp add: s' cloud_inv_drop)
  next
    case False
    with assms(1) inv show ?thesis by (simp add: on_bytes_received_def)
  qed
qed

lemma heartbeat_inv: "cloud_inv s \<Longrightarrow> cloud_inv (maybe_heartbeat now s)"
  using cloud_inv_send[of s PING 0 "[]"]
  by (auto simp: maybe_heartbeat_def Let_def cloud_inv_drop) (auto simp: cloud_inv_def has_agent_def)

lemma connected_inv: "cloud_inv s \<Longrightarrow> cloud_inv (on_agent_connected now t s)"
proof -
  assume inv: "cloud_inv s"
  let ?s1 = "if has_agent s then mark_disconnected s else s"
  have "bridge_inv ?s1" "0 \<le> ce_pings_outstanding ?s1"
    using inv cloud_inv_mark_disconnected[of s] by (auto simp: cloud_inv_def)
  then show ?thesis
    using inv bridge_inv_set_tunnel
    by (auto simp: on_agent_connected_def Let_def bridge_inv_set_tunnel set_tunnel_def
        intro!: flush_outbound_inv split: option.split) (auto simp: bridge_inv_def)
qed

end

text \<open>The calls the reactor makes into the cloud side of the tunnel.\<close>

datatype cloud_op =
    Upgrade "sink option" string
  | BrowserData u32 string
  | BrowserClose u32 string
  | Connected int "agent_transport option"
  | Received string
  | AgentLost
  | Tick int
  | Revoke string string

fun cloud_exec :: "'a cloud_scheme bridge_env \<Rightarrow> cloud_op \<Rightarrow> 'a cloud_scheme \<Rightarrow> 'a cloud_scheme" where
  "cloud_exec env (Upgrade b meta) s = snd (on_browser_upgrade env b meta s)"
| "cloud_exec env (BrowserData sid p) s = on_browser_data env sid p s"
| "cloud_exec env (BrowserClose sid r) s = on_browser_close env sid r s"
| "cloud_exec env (Connected now t) s = on_agent_connected now t s"
| "cloud_exec env (Received b) s = (case on_bytes_received env b s of None \<Rightarrow> s | Some s' \<Rightarrow> s')"
| "cloud_exec env AgentLost s = on_agent_disconnected s"
| "cloud_exec env (Tick now) s = tick now s"
| "cloud_exec env (Revoke soc user) s = snd (revoke env soc user s)"

context cloud_handlers
begin

lemma upgrade_cloud_inv:
  assumes "cloud_inv s" and "unat (m_next_stream_id s) < 2 ^ 32 - 1"
  shows "cloud_inv (snd (on_browser_upgrade env b meta s))"
proof -
  have "cloud_inv (s\<lparr>m_next_stream_id := m_next_stream_id s + 1,
      m_browsers := um_emplace (m_next_stream_id s) b (m_browsers s)\<rparr>)"
    using assms bridge_inv_emplace[of s b] by (auto simp: cloud_inv_def has_agent_def)
  then show ?thesis
    by (simp add: on_browser_upgrade_def Let_def send_is_endpoint cloud_inv_send)
qed

lemma close_cloud_inv: "cloud_inv s \<Longrightarrow> cloud_inv (on_browser_close env sid r s)"
proof -
  assume inv: "cloud_inv s"
  then have "cloud_inv (s\<lparr>m_browsers := um_erase sid (m_browsers s)\<rparr>)"
    by (auto simp: cloud_inv_def has_agent_def bridge_inv_def)
  with inv show ?thesis
    by (simp add: on_browser_close_def Let_def send_is_endpoint cloud_inv_send)
qed

lemma exec_inv:
  assumes "cloud_inv s" and "unat (m_next_stream_id s) < 2 ^ 32 - 1"
  shows "cloud_inv (cloud_exec env op s)"
proof (cases op)
  case (Received b)
  then show ?thesis
    using on_bytes_received_inv[of b s] assms on_bytes_received_total[of b s] by auto
next
  case AgentLost
  then show ?thesis
    using assms by (simp add: on_agent_disconnected_def cloud_inv_drop)
next
  case (Upgrade b m)
  then show ?thesis using upgrade_cloud_inv[OF assms] by simp
qed (use assms in \<open>auto simp: close_cloud_inv connected_inv heartbeat_inv tick_def revoke_def
    on_browser_data_def send_is_endpoint cloud_inv_send split: option.split\<close>)

lemma calm_next: "m_next_stream_id (endpoint_send_frame op sid p s) = m_next_stream_id s"
  using bridge_calm_next[OF endpoint_send_calm] .

lemma flush_next [simp]: "m_next_stream_id (flush_outbound s) = m_next_stream_id s"
proof (induction s rule: flush_outbound.induct)
  case (1 s)
  then show ?case
    by (subst flush_outbound.simps) (auto split: list.split option.split prod.split bool.split)
qed

lemma on_bytes_received_next:
  "on_bytes_received env b s = Some s' \<Longrightarrow> m_next_stream_id s' = m_next_stream_id s"
  using on_tunnel_bytes_keeps(2)[of b "s\<lparr>ce_pings_outstanding := 0\<rparr>"]
  by (auto simp: on_bytes_received_def Let_def split: if_splits option.splits)

text \<open>The counter moves by one at an upgrade and never otherwise, not even at a reconnect.\<close>

lemma exec_next:
  "m_next_stream_id (cloud_exec env op s) =
     (case op of Upgrade _ _ \<Rightarrow> m_next_stream_id s + 1 | _ \<Rightarrow> m_next_stream_id s)"
proof (cases op)
  case (Received b)
  then show ?thesis
    using on_bytes_received_next on_bytes_received_total[of b s] by auto
qed (auto simp: on_browser_upgrade_def on_browser_data_def on_browser_close_def send_is_endpoint
    calm_next on_agent_connected_def set_tunnel_def on_agent_disconnected_def tick_def
    maybe_heartbeat_def revoke_def Let_def split: option.split)

lemma run_inv:
  assumes "cloud_inv s" and "unat (m_next_stream_id s) + length ops < 2 ^ 32"
  shows "cloud_inv (fold (cloud_exec env) ops s)"
  using assms
proof (induction ops arbitrary: s)
  case (Cons op ops)
  have "unat (m_next_stream_id s) < 2 ^ 32 - 1" using Cons.prems(2) by simp
  moreover have "unat (m_next_stream_id (cloud_exec env op s)) \<le> Suc (unat (m_next_stream_id s))"
    using unat_Suc_u32[OF calculation] by (simp add: exec_next split: cloud_op.split)
  ultimately show ?case
    using Cons exec_inv[of s op] by simp
qed simp

end

text \<open>
  With an unbounded buffer the pipeline only grows at its end: nothing handed to \<^verbatim>\<open>send_frame\<close> is
  lost, duplicated or overtaken, whatever the transports answer.
\<close>

definition grows :: "string list \<Rightarrow> 'a cloud_scheme \<Rightarrow> bool" where
  "grows xs s \<longleftrightarrow> cloud_inv s \<and> outbound_buffer_max (ce_cfg s) = 0 \<and> prefix xs (pipeline s)"

lemma grows_send: "grows xs s \<Longrightarrow> grows xs (endpoint_send_frame op sid p s)"
  using send_frame_pipeline[of s op sid p] by (auto simp: grows_def cloud_inv_send)

lemma grows_sends: "sends s t \<Longrightarrow> grows xs s \<Longrightarrow> grows xs t"
  by (induction rule: sends.induct) (simp_all add: grows_send)

lemma grows_truncate: "grows xs (cloud.truncate s) = grows xs s"
  by (simp add: grows_def cloud_inv_truncate)

lemma grows_handler: "handler_sends g \<Longrightarrow> grows xs s \<Longrightarrow> grows xs (g s)"
  unfolding handler_sends_def using grows_sends grows_truncate by metis

lemma grows_drop: "grows xs s \<Longrightarrow> grows xs (mark_disconnected s)"
  by (simp add: grows_def cloud_inv_drop)

lemma flush_cfg [simp]: "ce_cfg (flush_outbound s) = ce_cfg s"
proof (induction s rule: flush_outbound.induct)
  case (1 s)
  then show ?case
    by (subst flush_outbound.simps) (auto split: list.split option.split prod.split bool.split)
qed

context cloud_handlers
begin

lemma grows_dispatch: "grows xs s \<Longrightarrow> grows xs (dispatch_frame env f s)"
proof -
  assume g: "grows xs s"
  then have "grows xs (s\<lparr>m_asterisk_connected := c\<rparr>)" "grows xs (s\<lparr>b_log := l\<rparr>)"
    "grows xs (close_stream i r s)" for c l i r
    by (auto simp: grows_def cloud_inv_close_stream)
      (auto simp: close_stream_def pipeline_def wire_bytes_def split: option.split)
  with g show ?thesis
    by (auto simp: dispatch_frame_def send_is_endpoint grows_send call_sends[THEN grows_handler]
        split: Op.split option.split)
qed

lemma grows_exec:
  assumes g: "grows xs s" and "unat (m_next_stream_id s) < 2 ^ 32 - 1"
  shows "grows xs (cloud_exec env op s)"
proof (cases op)
  case (Upgrade b m)
  have "grows xs (s\<lparr>m_next_stream_id := m_next_stream_id s + 1,
      m_browsers := um_emplace (m_next_stream_id s) b (m_browsers s)\<rparr>)"
    using assms bridge_inv_emplace[of s b] by (auto simp: grows_def cloud_inv_def has_agent_def)
  with Upgrade show ?thesis
    by (simp add: on_browser_upgrade_def Let_def send_is_endpoint grows_send)
next
  case (BrowserClose sid r)
  have "grows xs (s\<lparr>m_browsers := um_erase sid (m_browsers s)\<rparr>)"
    using g by (auto simp: grows_def cloud_inv_def has_agent_def bridge_inv_def)
  with BrowserClose g show ?thesis
    by (simp add: on_browser_close_def Let_def send_is_endpoint grows_send)
next
  case (Connected now t)
  have "ce_cfg (on_agent_connected now t s) = ce_cfg s"
    "pipeline (on_agent_connected now t s) = pipeline s"
    by (auto simp: on_agent_connected_def Let_def split: option.split)
  with Connected g show ?thesis by (simp add: grows_def connected_inv)
next
  case (Received b)
  let ?s = "s\<lparr>ce_pings_outstanding := 0\<rparr>"
  have s0: "grows xs ?s" using g by (auto simp: grows_def cloud_inv_def has_agent_def)
  have "grows xs t" if "on_tunnel_bytes env b ?s = Some (ok, t)" for ok t
    by (rule on_tunnel_bytes_keeps_cloud[where P = "grows xs", OF that s0])
      (simp_all add: grows_dispatch, simp add: grows_def put_recv_buffer_def pipeline_def wire_bytes_def
        cloud_inv_def has_agent_def bridge_inv_def)
  with s0 g Received show ?thesis
    by (auto simp: on_bytes_received_def Let_def grows_drop split: option.splits)
next
  case (Tick now)
  have "grows xs (u\<lparr>ce_pings_outstanding := k + 1, ce_last_heartbeat_unix := now\<rparr>)"
    if "grows xs u" "0 \<le> k" for u :: "'a cloud_scheme" and k
    using that by (auto simp: grows_def cloud_inv_def has_agent_def)
  moreover have "0 \<le> ce_pings_outstanding s" using g by (simp add: grows_def cloud_inv_def)
  ultimately show ?thesis
    using Tick g by (simp add: tick_def maybe_heartbeat_def Let_def grows_drop grows_send)
qed (use g in \<open>auto simp: grows_drop on_agent_disconnected_def revoke_def on_browser_data_def
    send_is_endpoint grows_send split: option.split\<close>)

lemma run_grows:
  assumes "grows xs s" and "unat (m_next_stream_id s) + length ops < 2 ^ 32"
  shows "grows xs (fold (cloud_exec env) ops s)"
  using assms
proof (induction ops arbitrary: s)
  case (Cons op ops)
  have "unat (m_next_stream_id s) < 2 ^ 32 - 1" using Cons.prems(2) by simp
  moreover have "unat (m_next_stream_id (cloud_exec env op s)) \<le> Suc (unat (m_next_stream_id s))"
    using unat_Suc_u32[OF calculation] by (simp add: exec_next split: cloud_op.split)
  ultimately show ?case
    using Cons grows_exec[of xs s op] by simp
qed simp

end

section \<open>Heartbeat\<close>

text \<open>A tick that is due and has no missed PING to give up on sends a PING and counts it.\<close>

lemma tick_ping:
  assumes "ce_transport s = Some t" and "transport_send t = (True, t')" and "ce_clock s"
    and "0 < heartbeat_interval_sec (ce_cfg s)"
    and "heartbeat_interval_sec (ce_cfg s) \<le> now - ce_last_heartbeat_unix s"
    and "ce_pings_outstanding s < heartbeat_max_missed (ce_cfg s)"
  shows "tick now s = s\<lparr>ce_transport := Some t', e_log := e_log s @ [Sent (t_id t) (sf_encode PING 0 [])],
    ce_pings_outstanding := ce_pings_outstanding s + 1, ce_last_heartbeat_unix := now\<rparr>"
  using assms by (simp add: tick_def has_agent_def maybe_heartbeat_def endpoint_send_frame_def)

lemma tick_fields [simp]:
  "ce_cfg (tick now s) = ce_cfg s" "ce_clock (tick now s) = ce_clock s"
  by (auto simp: tick_def maybe_heartbeat_def Let_def)

lemma tick_no_agent: "\<not> has_agent s \<Longrightarrow> tick now s = s"
  by (simp add: tick_def)

lemma fold_tick_no_agent: "\<not> has_agent s \<Longrightarrow> fold tick ts s = s"
  by (induction ts) (simp_all add: tick_no_agent)

text \<open>A due tick drops the agent or spends one of the PINGs that may go unanswered.\<close>

lemma due_tick:
  assumes "has_agent s" and "ce_clock s" and "0 < heartbeat_interval_sec (ce_cfg s)"
    and "heartbeat_interval_sec (ce_cfg s) \<le> now - ce_last_heartbeat_unix s"
  shows "\<not> has_agent (tick now s) \<or>
    (ce_pings_outstanding s < heartbeat_max_missed (ce_cfg s) \<and>
     ce_pings_outstanding (tick now s) = ce_pings_outstanding s + 1 \<and>
     ce_last_heartbeat_unix (tick now s) = now)"
  using assms by (auto simp: tick_def maybe_heartbeat_def Let_def has_agent_def)

text \<open>Clock readings at least one heartbeat interval apart, starting from \<open>t0\<close>.\<close>

fun spaced :: "int \<Rightarrow> int \<Rightarrow> int list \<Rightarrow> bool" where
  "spaced d t0 [] = True"
| "spaced d t0 (t # ts) = (d \<le> t - t0 \<and> spaced d t ts)"

lemma silent_ticks_drop:
  assumes "ce_clock s" and "0 < heartbeat_interval_sec (ce_cfg s)"
    and "spaced (heartbeat_interval_sec (ce_cfg s)) (ce_last_heartbeat_unix s) ts"
    and "nat (heartbeat_max_missed (ce_cfg s) - ce_pings_outstanding s) < length ts"
  shows "\<not> has_agent (fold tick ts s)"
  using assms
proof (induction ts arbitrary: s)
  case (Cons t ts)
  show ?case
  proof (cases "has_agent (tick t s)")
    case True
    then have "has_agent s" by (metis tick_no_agent)
    from due_tick[OF this, of t] Cons.prems True
    have less: "ce_pings_outstanding s < heartbeat_max_missed (ce_cfg s)"
      and p: "ce_pings_outstanding (tick t s) = ce_pings_outstanding s + 1"
      and l: "ce_last_heartbeat_unix (tick t s) = t"
      by auto
    have "nat (heartbeat_max_missed (ce_cfg s) - ce_pings_outstanding (tick t s)) < length ts"
      using Cons.prems(4) less unfolding p by simp
    with Cons.IH[of "tick t s"] Cons.prems l show ?thesis by simp
  next
    case False
    then show ?thesis by (simp add: fold_tick_no_agent)
  qed
qed simp

end
