(* ===== verification/Presence_Cache.thy ===== *)
theory Presence_Cache
  imports Prelude
begin

text \<open>
  \<^verbatim>\<open>InMemoryPresenceCache\<close> (\<^verbatim>\<open>modules/module/pbx/inc/presence_cache.hpp\<close>): the registration
  state per subscriber, in one flat table keyed on the two ids joined by a NUL byte.  The contract
  of \<^verbatim>\<open>IPresenceCache\<close> is a table per (society, user) pair; the joined key implements it as long as
  no society id contains a NUL.
\<close>

type_synonym presence = "(string, bool) umap"

definition presence_key :: "string \<Rightarrow> string \<Rightarrow> string" where
  "presence_key society_id sip_username = society_id @ [CHR 0x00] @ sip_username"

definition presence_set :: "string \<Rightarrow> string \<Rightarrow> bool \<Rightarrow> presence \<Rightarrow> presence" where
  "presence_set society_id sip_username online m = um_put (presence_key society_id sip_username) online m"

definition presence_is_online :: "string \<Rightarrow> string \<Rightarrow> presence \<Rightarrow> bool" where
  "presence_is_online society_id sip_username m =
     (case um_find m (presence_key society_id sip_username) of None \<Rightarrow> False | Some b \<Rightarrow> b)"

definition presence_size :: "presence \<Rightarrow> nat" where
  "presence_size m = length m"

text \<open>\<^verbatim>\<open>IPresenceCache\<close>.\<close>

locale presence_cache =
  fixes upd :: "string \<Rightarrow> string \<Rightarrow> bool \<Rightarrow> 'm \<Rightarrow> 'm"
    and online :: "string \<Rightarrow> string \<Rightarrow> 'm \<Rightarrow> bool"
    and empty :: 'm
    and ok :: "string \<Rightarrow> bool"
  assumes online_empty: "\<not> online soc user empty"
    and online_upd: "ok soc \<Longrightarrow> ok soc' \<Longrightarrow>
      online soc user (upd soc' user' b m) = (if soc = soc' \<and> user = user' then b else online soc user m)"
begin

text \<open>Replaying a log of reports: the last report on a subscriber counts, others do not.\<close>

primrec replay :: "(string \<times> string \<times> bool) list \<Rightarrow> 'm \<Rightarrow> 'm" where
  "replay [] m = m"
| "replay (r # rs) m = replay rs (case r of (soc, user, b) \<Rightarrow> upd soc user b m)"

lemma online_replay:
  assumes "ok soc" and "\<forall>(s, u, b) \<in> set rs. ok s"
  shows "online soc user (replay rs m) =
    (case filter (\<lambda>(s, u, b). s = soc \<and> u = user) rs of
       [] \<Rightarrow> online soc user m | r # rs' \<Rightarrow> snd (snd (last (r # rs'))))"
  using assms
  by (induction rs arbitrary: m) (auto simp: online_upd split: list.split prod.splits)

end

lemma presence_key_inj:
  assumes "CHR 0x00 \<notin> set soc" and "CHR 0x00 \<notin> set soc'"
  shows "presence_key soc user = presence_key soc' user' \<longleftrightarrow> soc = soc' \<and> user = user'"
  using assms unfolding presence_key_def
proof (induction soc arbitrary: soc')
  case Nil
  then show ?case by (cases soc') auto
next
  case (Cons c cs)
  then show ?case by (cases soc') auto
qed

interpretation mem: presence_cache presence_set presence_is_online "[]" "\<lambda>soc. CHR 0x00 \<notin> set soc"
  by unfold_locales (auto simp: presence_is_online_def presence_set_def presence_key_inj)

end
