(* ===== verification/Ws_Frame.thy ===== *)
theory Ws_Frame
  imports Prelude
begin

unbundle bit_operations_syntax

text \<open>
  The WebSocket framing (\<^verbatim>\<open>modules/module/wsdbproxy/src/wsframe.cpp\<close>) used under the browser
  sockets, the agent socket and the sockets to Asterisk.

  Lengths are computed at the program's width: \<^verbatim>\<open>total\<close> is a 64-bit sum, so a frame that
  announces a length near \<^verbatim>\<open>2^64\<close> wraps it.  The program then builds a vector from an iterator
  range whose end lies before its start, the outcome \<^verbatim>\<open>WsBadRange\<close> here.
\<close>

named_theorems ws_simps \<open>unfolding of the WebSocket codec\<close>

section \<open>Data\<close>

record ws_frame =
  ws_opcode :: u8
  ws_payload :: "u8 list"

datatype ws_result = WsNone | WsSome ws_frame "u8 list" | WsBadRange

text \<open>\<^verbatim>\<open>bytes_to_string\<close> and \<^verbatim>\<open>string_to_bytes\<close> of the socket classes.\<close>

definition bytes_to_string :: "u8 list \<Rightarrow> string" where
  "bytes_to_string = map (\<lambda>b. char_of (unat b))"

definition string_to_bytes :: "string \<Rightarrow> u8 list" where
  "string_to_bytes = map of_char"

section \<open>Masking\<close>

definition key_bytes :: "u32 \<Rightarrow> u8 list" where
  "key_bytes key =
     [ucast (drop_bit 24 key AND 0xFF), ucast (drop_bit 16 key AND 0xFF),
      ucast (drop_bit 8 key AND 0xFF), ucast (key AND 0xFF)]"

text \<open>\<^verbatim>\<open>data[i] ^= k[i % 4]\<close> for every \<open>i\<close>.\<close>

definition xor_key :: "u8 list \<Rightarrow> u8 list \<Rightarrow> u8 list" where
  "xor_key k xs = map (\<lambda>i. xs ! i XOR k ! (i mod 4)) [0..<length xs]"

definition apply_mask :: "u8 list \<Rightarrow> u32 \<Rightarrow> u8 list" where
  "apply_mask xs key = xor_key (key_bytes key) xs"

section \<open>Codec\<close>

definition be16 :: "u64 \<Rightarrow> u8 list" where
  "be16 n = [ucast (drop_bit 8 n AND 0xFF), ucast (n AND 0xFF)]"

definition be64 :: "u64 \<Rightarrow> u8 list" where
  "be64 n = map (\<lambda>s. ucast (drop_bit s n AND 0xFF)) [56, 48, 40, 32, 24, 16, 8, 0]"

definition read_be :: "u8 list \<Rightarrow> u64" where
  "read_be bs = foldl (\<lambda>n b. push_bit 8 n OR ucast b) 0 bs"

text \<open>\<open>rnd\<close> is the draw of \<^verbatim>\<open>random_mask_key()\<close>, used when the given key is 0.\<close>

definition ws_length_bytes :: "bool \<Rightarrow> u64 \<Rightarrow> u8 list" where
  "ws_length_bytes masked plen =
     (let mask_bit = (if masked then 0x80 else 0x00 :: u8)
      in if plen < 126 then [mask_bit OR ucast plen]
         else if plen < 65536 then (mask_bit OR 126) # be16 plen
         else (mask_bit OR 127) # be64 plen)"

definition ws_encode :: "u8 list \<Rightarrow> u8 \<Rightarrow> bool \<Rightarrow> u32 \<Rightarrow> u32 \<Rightarrow> u8 list" where
  "ws_encode payload opcode masked mask_key rnd =
     (0x80 OR (opcode AND 0x0F)) # ws_length_bytes masked (of_nat (length payload)) @
     (if masked
      then let key = (if mask_key \<noteq> 0 then mask_key else rnd)
           in key_bytes key @ apply_mask payload key
      else payload)"

text \<open>The extended length: the header size and the payload length, or not enough bytes.\<close>

definition ws_length :: "u8 list \<Rightarrow> (nat \<times> u64) option" where
  "ws_length buf =
     (let plen = ucast (buf ! 1 AND 0x7F) :: u64
      in if plen = 126 then
           (if length buf < 4 then None
            else Some (4, push_bit 8 (ucast (buf ! 2)) OR ucast (buf ! 3)))
         else if plen = 127 then
           (if length buf < 10 then None else Some (10, read_be (take 8 (drop 2 buf))))
         else Some (2, plen))"

definition ws_decode :: "u8 list \<Rightarrow> ws_result" where
  "ws_decode buf =
     (if length buf < 2 then WsNone
      else case ws_length buf of
             None \<Rightarrow> WsNone
           | Some (header_size, plen) \<Rightarrow>
               (let opcode = buf ! 0 AND 0x0F;
                    masked = (buf ! 1 AND 0x80 \<noteq> 0);
                    mask_size = (if masked then 4 else 0 :: nat);
                    total = unat (of_nat header_size + of_nat mask_size + plen :: u64)
                in if length buf < total then WsNone
                   else if total < header_size + mask_size then WsBadRange
                   else let mask_key = take 4 (drop header_size buf);
                            payload = take (total - (header_size + mask_size))
                                        (drop (header_size + mask_size) buf)
                        in WsSome \<lparr>ws_opcode = opcode,
                                   ws_payload = (if masked then xor_key mask_key payload else payload)\<rparr>
                                  (drop total buf)))"

definition close_frame :: "u8 list" where "close_frame = ws_encode [] 0x08 False 0 0"
definition ping_frame :: "u8 list" where "ping_frame = ws_encode [] 0x09 False 0 0"
definition pong_frame :: "u8 list \<Rightarrow> u8 list" where "pong_frame payload = ws_encode payload 0x0A False 0 0"

text \<open>\<^verbatim>\<open>accept_key\<close>: the digest and its base64 text are OpenSSL's, a parameter.\<close>

definition accept_key :: "(string \<Rightarrow> string) \<Rightarrow> string \<Rightarrow> string" where
  "accept_key sha1_base64 key = sha1_base64 (key @ ''258EAFA5-E914-47DA-95CA-C5AB0DC85B11'')"

section \<open>Bytes\<close>

lemma bytes_string_bytes [simp]: "string_to_bytes (bytes_to_string bs) = bs"
proof -
  have "of_char (char_of (unat b) :: char) = b" for b :: u8
  proof -
    have "unat b < 256" using unsigned_less[of b, where 'a = nat] by simp
    then have "of_nat (of_char (char_of (unat b) :: char) :: nat) = b" by simp
    then show ?thesis by (simp only: of_nat_of_char)
  qed
  then show ?thesis by (simp add: string_to_bytes_def bytes_to_string_def map_idI)
qed

lemma string_bytes_string [simp]: "bytes_to_string (string_to_bytes s) = s"
proof -
  have "char_of (unat (of_char c :: u8)) = c" for c
  proof -
    have "(of_char c :: u8) = of_nat (of_char c)" by (simp only: of_nat_of_char)
    then have "unat (of_char c :: u8) = of_char c"
      using of_char_less_256[of c] by (simp add: unat_of_nat del: of_nat_of_char)
    then show ?thesis by simp
  qed
  then show ?thesis by (simp add: string_to_bytes_def bytes_to_string_def map_idI)
qed

lemma length_key_bytes [simp]: "length (key_bytes key) = 4"
  by (simp add: key_bytes_def)

lemma length_xor_key [simp]: "length (xor_key k xs) = length xs"
  by (simp add: xor_key_def)

lemma xor_key_involution [simp]: "xor_key k (xor_key k xs) = xs"
  by (rule nth_equalityI) (simp_all add: xor_key_def xor.assoc)

lemma length_be [simp]: "length (be16 n) = 2" "length (be64 n) = 8"
  by (simp_all add: be16_def be64_def)

lemma and_FF_u64: "(w :: u64) AND 0xFF = take_bit 8 w"
  by (simp add: take_bit_eq_mask mask_eq_exp_minus_1)

lemma be_step:
  "push_bit 8 (drop_bit (s + 8) n) OR ucast (ucast (drop_bit s n AND 0xFF) :: u8) = drop_bit s (n :: u64)"
proof (rule bit_word_eqI)
  fix i assume "i < LENGTH(64)"
  then show "bit (push_bit 8 (drop_bit (s + 8) n) OR ucast (ucast (drop_bit s n AND 0xFF) :: u8)) i =
      bit (drop_bit s n) i"
    by (cases "i < 8") (auto simp: and_FF_u64 bit_simps)
qed

lemma read_be64 [simp]: "read_be (be64 n) = n"
proof -
  have "drop_bit 64 n = 0" by (rule bit_word_eqI) (simp add: bit_simps)
  with be_step[of 56 n] have "ucast (ucast (drop_bit 56 n AND 0xFF) :: u8) = drop_bit 56 n" by simp
  then show ?thesis
    using be_step[of 48 n] be_step[of 40 n] be_step[of 32 n] be_step[of 24 n] be_step[of 16 n]
      be_step[of 8 n] be_step[of 0 n]
    by (simp add: read_be_def be64_def)
qed

lemma read_be16:
  assumes "n < 65536"
  shows "push_bit 8 (ucast (be16 n ! 0)) OR ucast (be16 n ! 1) = n"
proof (rule bit_word_eqI)
  fix i assume i: "i < LENGTH(64)"
  have "take_bit 16 n = n"
    using assms by (intro take_bit_small) (simp add: word_less_nat_alt)
  then have hi: "bit n i \<Longrightarrow> i < 16" by (metis bit_take_bit_iff)
  from i consider "i < 8" | "8 \<le> i" "i < 16" | "16 \<le> i" by linarith
  then show "bit (push_bit 8 (ucast (be16 n ! 0)) OR ucast (be16 n ! 1) :: u64) i = bit n i"
    using i hi by cases (auto simp: be16_def and_FF_u64 bit_simps)
qed

section \<open>Correctness of the codec\<close>

lemma and_7F: "(b :: u8) AND 0x7F = take_bit 7 b"
  and and_0F: "b AND 0x0F = take_bit 4 b"
  and and_80: "b AND 0x80 \<noteq> 0 \<longleftrightarrow> bit b 7"
proof -
  show "b AND 0x7F = take_bit 7 b" "b AND 0x0F = take_bit 4 b"
    by (simp_all add: take_bit_eq_mask mask_eq_exp_minus_1)
  have "b AND 0x80 = b AND push_bit 7 1" by simp
  then show "b AND 0x80 \<noteq> 0 \<longleftrightarrow> bit b 7"
    by (simp only: and_exp_eq_0_iff_not_bit flip: push_bit_eq_mult) (simp add: bit_iff_and_push_bit_not_eq_0)
qed

text \<open>The second byte of a frame carries the mask bit and a seven-bit length.\<close>

lemma mask_bit_byte:
  assumes "l < (128 :: u8)"
  shows "((if m then 0x80 else 0x00) OR l) AND 0x7F = l"
    and "((if m then 0x80 else 0x00 :: u8) OR l) AND 0x80 \<noteq> 0 \<longleftrightarrow> m"
proof -
  have l: "take_bit 7 l = l"
    using assms by (intro take_bit_small) (simp add: word_less_nat_alt)
  then have "\<not> bit l 7" by (metis bit_take_bit_iff less_irrefl)
  moreover have "bit (0x80 :: u8) 7" "take_bit 7 (0x80 :: u8) = 0" by simp_all
  ultimately show "((if m then 0x80 else 0x00) OR l) AND 0x7F = l"
    "((if m then 0x80 else 0x00 :: u8) OR l) AND 0x80 \<noteq> 0 \<longleftrightarrow> m"
    by (simp_all only: and_7F and_80 take_bit_or bit_or_iff l) (auto simp: l)
qed

text \<open>The length field and the header bytes decode to what they encode.\<close>

lemma ucast_small_u64: "(n :: u64) < 126 \<Longrightarrow> ucast (ucast n :: u8) = n \<and> (ucast n :: u8) < 126"
proof -
  assume "n < 126"
  then have n: "unat n < 126" by (simp add: word_less_nat_alt)
  then have u8: "unat (ucast n :: u8) = unat n"
    by (simp add: unsigned_ucast_eq unsigned_take_bit_eq take_bit_nat_eq_self_iff)
  then have "unat (ucast (ucast n :: u8) :: u64) = unat n"
    using n by (simp add: unsigned_ucast_eq unsigned_take_bit_eq take_bit_nat_eq_self_iff)
  with n u8 show ?thesis
    by (simp add: word_unat_eq_iff word_less_nat_alt)
qed

lemma ws_length_encode:
  assumes "b = ws_length_bytes m n"
  shows "ws_length (x # b @ r) = Some (1 + length b, n)"
    and "(x # b @ r) ! 1 AND 0x80 \<noteq> 0 \<longleftrightarrow> m"
    and "1 \<le> length b" and "length b \<le> 9"
proof -
  have small: "n < 126 \<Longrightarrow> (ucast n :: u8) < 128"
    using ucast_small_u64[of n] by (auto elim: order.strict_trans)
  have be: "be16 n = [be16 n ! 0, be16 n ! 1]" by (simp add: be16_def)
  show "ws_length (x # b @ r) = Some (1 + length b, n)"
    using mask_bit_byte(1)[OF small, of m] mask_bit_byte(1)[of 126 m] mask_bit_byte(1)[of 127 m]
      ucast_small_u64[of n] read_be16[of n] be
    by (auto simp: assms ws_length_bytes_def ws_length_def Let_def nth_append)
  show "(x # b @ r) ! 1 AND 0x80 \<noteq> 0 \<longleftrightarrow> m"
    using mask_bit_byte(2)[OF small, of m] mask_bit_byte(2)[of 126 m] mask_bit_byte(2)[of 127 m]
    by (simp add: assms ws_length_bytes_def Let_def)
  show "1 \<le> length b" "length b \<le> 9"
    by (auto simp: assms ws_length_bytes_def Let_def)
qed

text \<open>
  A frame that was encoded decodes to itself, whatever follows it; the opcode keeps its low four
  bits.  The bound excludes payloads whose length does not fit next to the header in 64 bits.
\<close>

lemma ws_decode_encode:
  assumes "length p < 2 ^ 64 - 14"
  shows "ws_decode (ws_encode p opc m key rnd @ r) = WsSome \<lparr>ws_opcode = opc AND 0x0F, ws_payload = p\<rparr> r"
proof -
  let ?k = "if key \<noteq> 0 then key else rnd"
  let ?x = "0x80 OR (opc AND 0x0F)"
  define b where b: "b = ws_length_bytes m (of_nat (length p))"
  define body where "body = (if m then key_bytes ?k @ apply_mask p ?k else p)"
  have enc: "ws_encode p opc m key rnd @ r = ?x # b @ body @ r"
    by (simp add: ws_encode_def Let_def b body_def)
  note len = ws_length_encode(1,2)[OF b, of ?x "body @ r"] ws_length_encode(3,4)[OF b]
  have opc: "?x AND 0x0F = opc AND 0x0F"
    by (simp add: and_0F take_bit_or)
  let ?ms = "if m then 4 else 0 :: nat"
  have "unat (of_nat (1 + length b) + of_nat ?ms + of_nat (length p) :: u64) = 1 + length b + ?ms + length p"
  proof -
    have "1 + length b + ?ms + length p < 2 ^ 64" using assms len(4) by auto
    moreover have "unat (of_nat n :: u64) = n" if "n < 2 ^ 64" for n
      using that by (simp add: unat_of_nat)
    ultimately show ?thesis by (simp only: flip: of_nat_add)
  qed
  then show ?thesis
    using len(1-3) unfolding enc
    by (auto simp: ws_decode_def Let_def opc body_def apply_mask_def simp del: of_nat_add of_nat_Suc)
qed

text \<open>A decision is not changed by bytes that arrive later.\<close>

lemma ws_length_append:
  assumes "ws_length b = Some (h, n)" and "2 \<le> length b"
  shows "ws_length (b @ r) = Some (h, n)" and "2 \<le> h" and "h \<le> length b"
  using assms by (auto simp: ws_length_def Let_def nth_append split: if_splits)

text \<open>What a successful decode says about the buffer.\<close>

lemma ws_decode_SomeE:
  assumes "ws_decode b = WsSome f rest"
  obtains h n where "ws_length b = Some (h, n)" "2 \<le> length b" "2 \<le> h"
    and "h + (if b ! 1 AND 0x80 \<noteq> 0 then 4 else 0) + length (ws_payload f) + length rest = length b"
    and "ws_opcode f = b ! 0 AND 0x0F"
    and "ws_decode (b @ r) = WsSome f (rest @ r)"
proof -
  have b2: "2 \<le> length b" using assms by (auto simp: ws_decode_def split: if_splits)
  then obtain h n where hn: "ws_length b = Some (h, n)"
    using assms by (auto simp: ws_decode_def split: option.splits)
  note app = ws_length_append(1)[OF hn b2, of r] ws_length_append(2,3)[OF hn b2]
  let ?ms = "if b ! 1 AND 0x80 \<noteq> 0 then 4 else 0 :: nat"
  let ?t = "unat (of_nat h + of_nat ?ms + n :: u64)"
  have t: "?t \<le> length b" "h + ?ms \<le> ?t"
    using assms b2 hn by (auto simp: ws_decode_def Let_def split: if_splits)
  then have keys: "take 4 (drop h (b @ r)) = take 4 (drop h b)" if "?ms = 4"
    using that by simp
  have nth: "(b @ r) ! 0 = b ! 0" "(b @ r) ! 1 = b ! 1" using b2 by (auto simp: nth_append)
  show ?thesis
  proof (rule that[OF hn b2 app(2)])
    show "h + ?ms + length (ws_payload f) + length rest = length b"
      "ws_opcode f = b ! 0 AND 0x0F"
      using assms b2 hn t by (auto simp: ws_decode_def Let_def split: if_splits)
    have "ws_decode (b @ r) = (case ws_decode b of WsSome f rest \<Rightarrow> WsSome f (rest @ r) | x \<Rightarrow> x)"
      using b2 hn app(1) t keys
      by (cases "b ! 1 AND 0x80 \<noteq> 0") (simp_all add: ws_decode_def Let_def nth[simplified])
    with assms show "ws_decode (b @ r) = WsSome f (rest @ r)" by simp
  qed
qed

lemma ws_decode_append: "ws_decode b = WsSome f rest \<Longrightarrow> ws_decode (b @ r) = WsSome f (rest @ r)"
  by (erule ws_decode_SomeE[where r = r])

lemma ws_decode_consumes: "ws_decode b = WsSome f rest \<Longrightarrow> length rest < length b"
  by (erule ws_decode_SomeE) linarith

lemma ws_decode_bad_append: "ws_decode b = WsBadRange \<Longrightarrow> ws_decode (b @ r) = WsBadRange"
proof -
  assume bad: "ws_decode b = WsBadRange"
  then have b2: "2 \<le> length b" by (auto simp: ws_decode_def split: if_splits)
  then obtain h n where hn: "ws_length b = Some (h, n)"
    using bad by (auto simp: ws_decode_def split: option.splits)
  have "(b @ r) ! 0 = b ! 0" "(b @ r) ! 1 = b ! 1" using b2 by (auto simp: nth_append)
  with bad b2 hn ws_length_append(1)[OF hn b2, of r] show ?thesis
    by (auto simp: ws_decode_def Let_def split: if_splits)
qed

lemma ws_decode_empty [simp]: "ws_decode [] = WsNone"
  by (simp add: ws_decode_def)

section \<open>Draining a socket\<close>

text \<open>
  \<^verbatim>\<open>drain_frames\<close> is the same loop in every socket class: decode (which erases the frame from the
  buffer) and handle the frame until the buffer holds no complete one.  Handling a frame says
  whether to go on.  The exits are the two return values and an exception out of \<^verbatim>\<open>decode\<close>.
\<close>

datatype drain_exit = DrainMore | DrainStop | DrainThrow

fun ws_loop :: "('s \<Rightarrow> u8 list) \<Rightarrow> (u8 list \<Rightarrow> 's \<Rightarrow> 's) \<Rightarrow> (ws_frame \<Rightarrow> 's \<Rightarrow> bool \<times> 's) \<Rightarrow> nat \<Rightarrow> 's
    \<Rightarrow> (drain_exit \<times> 's) option" where
  "ws_loop get put step 0 s = None"
| "ws_loop get put step (Suc k) s =
     (case ws_decode (get s) of
        WsNone \<Rightarrow> Some (DrainMore, s)
      | WsBadRange \<Rightarrow> Some (DrainThrow, s)
      | WsSome f rest \<Rightarrow>
          (case step f (put rest s) of
             (True, s') \<Rightarrow> ws_loop get put step k s'
           | (False, s') \<Rightarrow> Some (DrainStop, s')))"

definition ws_drain :: "('s \<Rightarrow> u8 list) \<Rightarrow> (u8 list \<Rightarrow> 's \<Rightarrow> 's) \<Rightarrow> (ws_frame \<Rightarrow> 's \<Rightarrow> bool \<times> 's) \<Rightarrow> 's
    \<Rightarrow> (drain_exit \<times> 's) option" where
  "ws_drain get put step s = ws_loop get put step (Suc (length (get s))) s"

text \<open>Handling frames in order until one of them stops the loop.\<close>

fun ws_steps :: "(ws_frame \<Rightarrow> 's \<Rightarrow> bool \<times> 's) \<Rightarrow> ws_frame list \<Rightarrow> 's \<Rightarrow> drain_exit \<times> 's" where
  "ws_steps step [] s = (DrainMore, s)"
| "ws_steps step (f # fs) s =
     (case step f s of (True, s') \<Rightarrow> ws_steps step fs s' | (False, s') \<Rightarrow> (DrainStop, s'))"

text \<open>Reads one after the other, until the socket is given up.\<close>

fun ws_feed :: "('s \<Rightarrow> u8 list) \<Rightarrow> (u8 list \<Rightarrow> 's \<Rightarrow> 's) \<Rightarrow> (ws_frame \<Rightarrow> 's \<Rightarrow> bool \<times> 's) \<Rightarrow> u8 list list
    \<Rightarrow> 's \<Rightarrow> (drain_exit \<times> 's) option" where
  "ws_feed get put step [] s = Some (DrainMore, s)"
| "ws_feed get put step (c # cs) s =
     (case ws_drain get put step (put (get s @ c) s) of
        Some (DrainMore, s') \<Rightarrow> ws_feed get put step cs s'
      | r \<Rightarrow> r)"

locale ws_receiver =
  fixes get :: "'s \<Rightarrow> u8 list"
    and put :: "u8 list \<Rightarrow> 's \<Rightarrow> 's"
    and step :: "ws_frame \<Rightarrow> 's \<Rightarrow> bool \<times> 's"
  assumes get_put: "get (put b s) = b"
    and put_put: "put b (put c s) = put b s"
    and put_get: "put (get s) s = s"
    and step_put: "step f (put b s) = (fst (step f s), put b (snd (step f s)))"
begin

lemma get_step: "get (snd (step f (put b s))) = b"
  by (simp add: step_put get_put)

lemma ws_loop_enough: "length (get s) < k \<Longrightarrow> ws_loop get put step k s \<noteq> None"
proof (induction k arbitrary: s)
  case (Suc k)
  show ?case
  proof (cases "ws_decode (get s)")
    case (WsSome f rest)
    have "length (get (snd (step f (put rest s)))) < k"
      using ws_decode_consumes[OF WsSome] Suc.prems by (simp add: get_step)
    with Suc.IH WsSome show ?thesis by (auto split: prod.split bool.split)
  qed simp_all
qed simp

lemma ws_drain_total: "\<exists>e s'. ws_drain get put step s = Some (e, s')"
  using ws_loop_enough[of s "Suc (length (get s))"] by (auto simp: ws_drain_def)

lemma ws_loop_fuel: "ws_loop get put step k s = Some r \<Longrightarrow> k \<le> k' \<Longrightarrow> ws_loop get put step k' s = Some r"
proof (induction k arbitrary: k' s)
  case (Suc k)
  then obtain j where "k' = Suc j" "k \<le> j" by (cases k') auto
  with Suc show ?case
    by (auto split: ws_result.splits prod.splits bool.splits)
qed simp

lemma ws_drain_unfold:
  "ws_drain get put step s =
     (case ws_decode (get s) of
        WsNone \<Rightarrow> Some (DrainMore, s)
      | WsBadRange \<Rightarrow> Some (DrainThrow, s)
      | WsSome f rest \<Rightarrow>
          (case step f (put rest s) of
             (True, s') \<Rightarrow> ws_drain get put step s'
           | (False, s') \<Rightarrow> Some (DrainStop, s')))"
proof (cases "ws_decode (get s)")
  case (WsSome f rest)
  obtain c s' where st: "step f (put rest s) = (c, s')" by fastforce
  then have "length (get s') < length (get s)"
    using get_step[of f rest s] ws_decode_consumes[OF WsSome] by simp
  then have "ws_loop get put step (length (get s)) s' = ws_drain get put step s'"
    unfolding ws_drain_def using ws_loop_enough[of s' "Suc (length (get s'))"] ws_loop_fuel[of "Suc (length (get s'))" s']
    by (metis Suc_leI lessI not_None_eq)
  with WsSome st show ?thesis by (simp add: ws_drain_def split: bool.split)
qed (simp_all add: ws_drain_def)

text \<open>Bytes that arrive in two reads are handled as if they had arrived in one.\<close>

lemma ws_drain_append:
  "ws_drain get put step (put (get s @ c) s) =
     (case ws_drain get put step s of
        None \<Rightarrow> None
      | Some (e, s') \<Rightarrow>
          (if e = DrainMore then ws_drain get put step (put (get s' @ c) s')
           else Some (e, put (get s' @ c) s')))"
proof (induction "length (get s)" arbitrary: s rule: less_induct)
  case less
  show ?case
  proof (cases "ws_decode (get s)")
    case WsNone
    then show ?thesis by (subst (2) ws_drain_unfold) simp
  next
    case WsBadRange
    then show ?thesis
      by (subst (1 2) ws_drain_unfold) (simp add: get_put ws_decode_bad_append)
  next
    case (WsSome f rest)
    obtain go s1 where st: "step f (put rest s) = (go, s1)" by fastforce
    have g: "get s1 = rest" using get_step[of f rest s] st by simp
    have "step f (put (rest @ c) s) = (go, put (get s1 @ c) s1)"
      using step_put[of f "rest @ c" "put rest s"] st g by (simp add: put_put)
    then have "ws_drain get put step (put (get s @ c) s) =
        (if go then ws_drain get put step (put (get s1 @ c) s1) else Some (DrainStop, put (get s1 @ c) s1))"
      using WsSome by (subst ws_drain_unfold) (simp add: get_put put_put ws_decode_append)
    moreover have "ws_drain get put step s =
        (if go then ws_drain get put step s1 else Some (DrainStop, s1))"
      using WsSome st by (subst ws_drain_unfold) simp
    ultimately show ?thesis
      using less[of s1] ws_decode_consumes[OF WsSome] g by simp
  qed
qed

lemma ws_drain_rest: "ws_drain get put step s = Some (DrainMore, s') \<Longrightarrow> ws_decode (get s') = WsNone"
proof (induction "length (get s)" arbitrary: s rule: less_induct)
  case less
  then show ?case
  proof (cases "ws_decode (get s)")
    case (WsSome f rest)
    obtain go s1 where st: "step f (put rest s) = (go, s1)" by fastforce
    have "length (get s1) < length (get s)"
      using get_step[of f rest s] st ws_decode_consumes[OF WsSome] by simp
    moreover have "ws_drain get put step s1 = Some (DrainMore, s')"
      using less.prems WsSome st by (subst (asm) ws_drain_unfold) (auto split: bool.splits)
    ultimately show ?thesis by (rule less.hyps)
  next
    case WsNone
    with less.prems ws_drain_unfold[of s] show ?thesis by simp
  next
    case WsBadRange
    with less.prems ws_drain_unfold[of s] show ?thesis by simp
  qed
qed

lemma ws_drain_preserves:
  assumes "\<And>f t. P t \<Longrightarrow> P (snd (step f t))" and "\<And>b t. P t \<Longrightarrow> P (put b t)"
    and "P s" and "ws_drain get put step s = Some (e, s')"
  shows "P s'"
  using assms(3,4)
proof (induction "length (get s)" arbitrary: s rule: less_induct)
  case less
  show ?case
  proof (cases "ws_decode (get s)")
    case (WsSome f rest)
    obtain go s1 where st: "step f (put rest s) = (go, s1)" by fastforce
    have P1: "P s1" using assms(1)[OF assms(2)[OF less.prems(1)], of f rest] st by simp
    have shorter: "length (get s1) < length (get s)"
      using get_step[of f rest s] st ws_decode_consumes[OF WsSome] by simp
    have "ws_drain get put step s = (if go then ws_drain get put step s1 else Some (DrainStop, s1))"
      using WsSome st by (subst ws_drain_unfold) simp
    with less.hyps[OF shorter P1] less.prems(2) P1 show ?thesis by (auto split: if_splits)
  next
    case WsNone
    with less.prems ws_drain_unfold[of s] show ?thesis by simp
  next
    case WsBadRange
    with less.prems ws_drain_unfold[of s] show ?thesis by simp
  qed
qed

lemma ws_feed_concat:
  assumes "ws_drain get put step (put (get s @ concat cs) s) = Some (DrainMore, s')"
    and "ws_decode (get s) = WsNone"
  shows "ws_feed get put step cs s = Some (DrainMore, s')"
  using assms
proof (induction cs arbitrary: s)
  case Nil
  then show ?case by (subst (asm) ws_drain_unfold) (simp add: put_get)
next
  case (Cons c cs)
  let ?s = "put (get s @ c) s"
  obtain e s1 where c: "ws_drain get put step ?s = Some (e, s1)"
    using ws_drain_total by blast
  have "ws_drain get put step (put (get s @ concat (c # cs)) s) =
      (if e = DrainMore then ws_drain get put step (put (get s1 @ concat cs) s1)
       else Some (e, put (get s1 @ concat cs) s1))"
    using ws_drain_append[of ?s "concat cs"] c by (simp add: get_put put_put)
  with Cons.prems have "e = DrainMore" "ws_drain get put step (put (get s1 @ concat cs) s1) = Some (DrainMore, s')"
    by (auto split: if_splits)
  with c Cons.IH[of s1] ws_drain_rest show ?case by simp
qed

text \<open>Every way of cutting encoded frames into reads handles the same frames, in order.\<close>

lemma ws_feed_frames:
  assumes "\<And>x rest. x \<in> set xs \<Longrightarrow> ws_decode (enc x @ rest) = WsSome (frm x) rest"
    and "concat cs = concat (map enc xs)" and "get s = []"
    and "ws_steps step (map frm xs) s = (DrainMore, s')"
  shows "ws_feed get put step cs s = Some (DrainMore, s')"
proof (rule ws_feed_concat)
  show "ws_decode (get s) = WsNone" by (simp add: assms(3))
  have "ws_drain get put step (put (concat (map enc xs)) t) = Some (DrainMore, s')"
    if "ws_steps step (map frm xs) t = (DrainMore, s')" "get t = []" for t
    using that assms(1)
  proof (induction xs arbitrary: t)
    case Nil
    then show ?case using put_get[of t] by (subst ws_drain_unfold) simp
  next
    case (Cons x xs)
    let ?rest = "concat (map enc xs)"
    obtain t1 where st: "step (frm x) t = (True, t1)"
      using Cons.prems(1) by (auto split: prod.splits bool.splits)
    have t1: "get t1 = []" using get_step[of "frm x" "[]" t] st Cons.prems(2) put_get[of t] by simp
    have "step (frm x) (put ?rest t) = (True, put ?rest t1)"
      using step_put[of "frm x" ?rest t] st by simp
    moreover have "ws_decode (enc x @ ?rest) = WsSome (frm x) ?rest" by (rule Cons.prems(3)) simp
    ultimately show ?case
      using Cons.IH[of t1] Cons.prems t1 st
      by (subst ws_drain_unfold) (simp add: get_put put_put)
  qed
  then show "ws_drain get put step (put (get s @ concat cs) s) = Some (DrainMore, s')"
    using assms(2-4) by simp
qed

end

section \<open>Draining with a step that may not return\<close>

text \<open>The same loop when handling a frame runs a loop of its own; the buffer is passed beside the state.\<close>

partial_function (option) ws_pump ::
    "(ws_frame \<Rightarrow> 'w \<Rightarrow> (drain_exit \<times> 'w) option) \<Rightarrow> u8 list \<times> 'w \<Rightarrow> (drain_exit \<times> u8 list \<times> 'w) option" where
  "ws_pump step s =
     (case ws_decode (fst s) of
        WsNone \<Rightarrow> Some (DrainMore, s)
      | WsBadRange \<Rightarrow> Some (DrainThrow, s)
      | WsSome f rest \<Rightarrow>
          Option.bind (step f (snd s)) (\<lambda>r.
            if fst r = DrainMore then ws_pump step (rest, snd r) else Some (fst r, rest, snd r)))"

fun ws_run :: "(ws_frame \<Rightarrow> 'w \<Rightarrow> (drain_exit \<times> 'w) option) \<Rightarrow> ws_frame list \<Rightarrow> 'w \<Rightarrow> 'w option" where
  "ws_run step [] w = Some w"
| "ws_run step (f # fs) w = (case step f w of Some (DrainMore, w') \<Rightarrow> ws_run step fs w' | _ \<Rightarrow> None)"

fun ws_pump_all :: "(ws_frame \<Rightarrow> 'w \<Rightarrow> (drain_exit \<times> 'w) option) \<Rightarrow> u8 list list \<Rightarrow> u8 list \<times> 'w
    \<Rightarrow> (drain_exit \<times> u8 list \<times> 'w) option" where
  "ws_pump_all step [] s = Some (DrainMore, s)"
| "ws_pump_all step (c # cs) s =
     (case ws_pump step (fst s @ c, snd s) of
        Some (DrainMore, s') \<Rightarrow> ws_pump_all step cs s'
      | r \<Rightarrow> r)"

lemma ws_run_append:
  "ws_run step (fs @ gs) w = (case ws_run step fs w of None \<Rightarrow> None | Some w' \<Rightarrow> ws_run step gs w')"
  by (induction fs arbitrary: w) (auto split: option.split drain_exit.split)

lemma ws_pump_run:
  assumes "\<And>x r. x \<in> set xs \<Longrightarrow> ws_decode (enc x @ r) = WsSome (frm x) r"
    and "ws_run step (map frm xs) w = Some w'" and "ws_decode t = WsNone"
  shows "ws_pump step (concat (map enc xs) @ t, w) = Some (DrainMore, t, w')"
  using assms
proof (induction xs arbitrary: w)
  case Nil
  then show ?case by (subst ws_pump.simps) simp
next
  case (Cons x xs)
  then obtain w1 where "step (frm x) w = Some (DrainMore, w1)" "ws_run step (map frm xs) w1 = Some w'"
    by (auto split: option.splits drain_exit.splits)
  with Cons show ?case by (subst ws_pump.simps) simp
qed

text \<open>A prefix of encoded frames is some of the frames and an incomplete one.\<close>

lemma frames_prefix:
  assumes "\<And>x r. x \<in> set xs \<Longrightarrow> ws_decode (enc x @ r) = WsSome (frm x) r"
    and "a @ b = concat (map enc xs)"
  shows "\<exists>ys zs t. xs = ys @ zs \<and> a = concat (map enc ys) @ t \<and> t @ b = concat (map enc zs) \<and> ws_decode t = WsNone"
  using assms
proof (induction xs arbitrary: a)
  case Nil
  then show ?case by simp
next
  case (Cons x xs)
  let ?r = "concat (map enc xs)"
  show ?case
  proof (cases "length a < length (enc x)")
    case True
    have whole: "ws_decode (a @ b) = WsSome (frm x) ?r"
      using Cons.prems by simp
    have "ws_decode a = WsNone"
    proof (cases "ws_decode a")
      case (WsSome g r)
      then have "r @ b = ?r" using ws_decode_append[OF WsSome, of b] whole by simp
      then have "length r + length b = length ?r" by (metis length_append)
      moreover have "length a + length b = length (enc x) + length ?r"
        using Cons.prems(2) by (metis concat.simps(2) length_append list.map(2))
      ultimately show ?thesis using True by simp
    next
      case WsBadRange
      then show ?thesis using ws_decode_bad_append whole by fastforce
    qed simp
    with Cons.prems(2) show ?thesis by (intro exI[of _ "[]"] exI[of _ "x # xs"] exI[of _ a]) simp
  next
    case False
    define a' where "a' = drop (length (enc x)) a"
    have "take (length (enc x)) (a @ b) = enc x" using Cons.prems(2) by simp
    with False have a: "a = enc x @ a'" unfolding a'_def by (metis append_take_drop_id not_less take_all take_append
        diff_is_0_eq' append_Nil2 take_0)
    with Cons.prems(2) have "a' @ b = ?r" by simp
    note a = a this
    with Cons.IH[of a'] Cons.prems(1) obtain ys zs t where
      "xs = ys @ zs" "a' = concat (map enc ys) @ t" "t @ b = concat (map enc zs)" "ws_decode t = WsNone"
      by auto
    with a show ?thesis by (intro exI[of _ "x # ys"] exI[of _ zs] exI[of _ t]) simp
  qed
qed

text \<open>Every way of cutting encoded frames into reads handles the same frames, in order.\<close>

lemma ws_pump_all_frames:
  assumes "\<And>x r. x \<in> set xs \<Longrightarrow> ws_decode (enc x @ r) = WsSome (frm x) r"
    and "b @ concat cs = concat (map enc xs)" and "ws_decode b = WsNone"
    and "ws_run step (map frm xs) w = Some w'"
  shows "ws_pump_all step cs (b, w) = Some (DrainMore, [], w')"
  using assms
proof (induction cs arbitrary: b w xs)
  case Nil
  have "xs = []"
    using Nil.prems(1)[of "hd xs" "concat (map enc (tl xs))"] Nil.prems(2,3) by (cases xs) auto
  with Nil show ?case by simp
next
  case (Cons c cs)
  obtain ys zs t where yz: "xs = ys @ zs" "b @ c = concat (map enc ys) @ t" "t @ concat cs = concat (map enc zs)"
    "ws_decode t = WsNone"
    using frames_prefix[of xs enc frm "b @ c" "concat cs"] Cons.prems(1,2) by auto
  obtain w1 where w1: "ws_run step (map frm ys) w = Some w1" "ws_run step (map frm zs) w1 = Some w'"
    using Cons.prems(4) yz(1) by (auto simp: ws_run_append split: option.splits)
  have "ws_pump step (b @ c, w) = Some (DrainMore, t, w1)"
    unfolding yz(2) using Cons.prems(1) yz(1,4) w1(1) by (intro ws_pump_run) auto
  moreover have "ws_pump_all step cs (t, w1) = Some (DrainMore, [], w')"
    using Cons.IH[of zs t w1] Cons.prems(1) yz w1(2) by auto
  ultimately show ?case by simp
qed

lemma ws_pump_preserves:
  assumes "ws_pump step s = Some y"
    and "\<And>f w e w'. step f w = Some (e, w') \<Longrightarrow> P w \<Longrightarrow> P w'" and "P (snd s)"
  shows "P (snd (snd y))"
proof -
  have "(\<forall>f w e w'. step f w = Some (e, w') \<longrightarrow> P w \<longrightarrow> P w') \<longrightarrow> P (snd s) \<longrightarrow> P (snd (snd y))"
    using assms(1)
  proof (rule ws_pump.raw_induct[rotated])
    fix pump step s y
    assume IH: "\<And>step s y. pump step s = Some y \<Longrightarrow>
        (\<forall>f w e w'. step f w = Some (e, w') \<longrightarrow> P w \<longrightarrow> P w') \<longrightarrow> P (snd s) \<longrightarrow> P (snd (snd y))"
      and eq: "(case ws_decode (fst s) of
          WsNone \<Rightarrow> Some (DrainMore, s)
        | WsSome f rest \<Rightarrow> Option.bind (step f (snd s)) (\<lambda>r.
            if fst r = DrainMore then pump step (rest, snd r) else Some (fst r, rest, snd r))
        | WsBadRange \<Rightarrow> Some (DrainThrow, s)) = Some y"
    show "(\<forall>f w e w'. step f w = Some (e, w') \<longrightarrow> P w \<longrightarrow> P w') \<longrightarrow> P (snd s) \<longrightarrow> P (snd (snd y))"
      using eq IH[of step "(_, _)" y]
      by (auto split: ws_result.splits if_splits simp: bind_eq_Some_conv)
  qed
  with assms(2,3) show ?thesis by blast
qed

end
