(* ===== verification/Browser_Stream.thy ===== *)
theory Browser_Stream
  imports Sip_Bridge Ws_Frame
begin

text \<open>
  One browser socket, \<^verbatim>\<open>BrowserStream\<close> (\<^verbatim>\<open>modules/module/pbx/src/browser_stream.cpp\<close>): a
  WebSocket between the reactor and the bridge.  The object and the bridge call each other: a call
  into the bridge can make the bridge close this very socket (a lost tunnel closes every sink).
  The bridge records its calls on sinks in \<^verbatim>\<open>b_log\<close>; \<open>bridge_call\<close> replays on the object those
  that are addressed to it.

  What \<^verbatim>\<open>recv\<close> returns is an argument; the outcomes of \<^verbatim>\<open>send_n\<close> come from \<^verbatim>\<open>bs_sends\<close> (an
  exhausted list stands for a healthy socket) and what was handed to it is in \<^verbatim>\<open>bs_written\<close>.
\<close>

record browser_stream =
  bs_self :: sink
  bs_stream_id :: u32
  bs_handle :: bool
  bs_recv_buf :: "u8 list"
  bs_close_notified :: bool
  bs_ping_timer :: int
  bs_sends :: "bool list"
  bs_written :: "u8 list list"
  bs_cancelled :: "int list"

type_synonym 'a browser_world = "browser_stream \<times> 'a bridge_scheme"

section \<open>Sockets and timers\<close>

definition bs_send_n :: "u8 list \<Rightarrow> browser_stream \<Rightarrow> bool \<times> browser_stream" where
  "bs_send_n bytes w =
     (case bs_sends w of
        [] \<Rightarrow> (True, w\<lparr>bs_written := bs_written w @ [bytes]\<rparr>)
      | ok # oks \<Rightarrow> (ok, w\<lparr>bs_written := bs_written w @ [bytes], bs_sends := oks\<rparr>))"

definition bs_cancel_ping_timer :: "browser_stream \<Rightarrow> browser_stream" where
  "bs_cancel_ping_timer w =
     (if bs_ping_timer w \<noteq> -1
      then w\<lparr>bs_cancelled := bs_cancelled w @ [bs_ping_timer w], bs_ping_timer := -1\<rparr>
      else w\<lparr>bs_ping_timer := -1\<rparr>)"

section \<open>BrowserSink\<close>

definition bs_send_bytes :: "string \<Rightarrow> browser_stream \<Rightarrow> browser_stream" where
  "bs_send_bytes sip_ws_bytes w =
     (if \<not> bs_handle w then w
      else snd (bs_send_n (ws_encode (string_to_bytes sip_ws_bytes) 0x1 False 0 0) w))"

definition bs_close :: "string \<Rightarrow> browser_stream \<Rightarrow> browser_stream" where
  "bs_close reason w =
     (if \<not> bs_handle w then w
      else let w1 = snd (bs_send_n close_frame (bs_cancel_ping_timer w))
           in w1\<lparr>bs_close_notified := True, bs_handle := False\<rparr>)"

section \<open>Calls into the bridge\<close>

fun bs_event :: "browser_event \<Rightarrow> browser_stream \<Rightarrow> browser_stream" where
  "bs_event (BSend k b) w = (if k = bs_self w then bs_send_bytes b w else w)"
| "bs_event (BClose k r) w = (if k = bs_self w then bs_close r w else w)"

definition bridge_call :: "('a bridge_scheme \<Rightarrow> 'a bridge_scheme) \<Rightarrow> 'a browser_world \<Rightarrow> 'a browser_world" where
  "bridge_call g = (\<lambda>(w, s). let s' = g s in (fold bs_event (drop (length (b_log s)) (b_log s')) w, s'))"

definition bs_notify_close_once ::
  "'a bridge_scheme bridge_env \<Rightarrow> string \<Rightarrow> 'a browser_world \<Rightarrow> 'a browser_world" where
  "bs_notify_close_once env reason ws =
     (let (w, s) = ws
      in if bs_close_notified w then (w, s)
         else bridge_call (on_browser_close env (bs_stream_id w) reason) (w\<lparr>bs_close_notified := True\<rparr>, s))"

text \<open>The constructor: the object registers itself as a sink and keeps the stream id.\<close>

definition new_browser_stream ::
  "'a bridge_scheme bridge_env \<Rightarrow> sink \<Rightarrow> bool list \<Rightarrow> string \<Rightarrow> 'a bridge_scheme \<Rightarrow> 'a browser_world" where
  "new_browser_stream env self sends open_meta s =
     (let w = \<lparr>bs_self = self, bs_stream_id = 0, bs_handle = True, bs_recv_buf = [],
               bs_close_notified = False, bs_ping_timer = -1, bs_sends = sends, bs_written = [],
               bs_cancelled = []\<rparr>;
          (sid, s') = on_browser_upgrade env (Some self) open_meta s;
          w' = fold bs_event (drop (length (b_log s)) (b_log s')) w
      in (w'\<lparr>bs_stream_id := sid\<rparr>, s'))"

text \<open>\<open>registered\<close> and \<open>timer\<close> are the reactor's answers to \<^verbatim>\<open>register_handler\<close> and
  \<^verbatim>\<open>schedule_timer\<close>.\<close>

definition bs_register_with_reactor :: "bool \<Rightarrow> int \<Rightarrow> browser_stream \<Rightarrow> int \<times> browser_stream" where
  "bs_register_with_reactor registered timer w =
     (if \<not> registered then (-1, w)
      else if timer = -1 then (-1, w\<lparr>bs_ping_timer := timer\<rparr>)
      else (0, w\<lparr>bs_ping_timer := timer\<rparr>))"

section \<open>Input\<close>

definition bs_frame ::
  "'a bridge_scheme bridge_env \<Rightarrow> ws_frame \<Rightarrow> 'a browser_world \<Rightarrow> bool \<times> 'a browser_world" where
  "bs_frame env f ws =
     (let (w, s) = ws
      in if ws_opcode f \<in> {0x2, 0x1, 0x0}
         then (True, bridge_call (on_browser_data env (bs_stream_id w) (bytes_to_string (ws_payload f))) (w, s))
         else if ws_opcode f = 0x9 then (True, snd (bs_send_n (pong_frame (ws_payload f)) w), s)
         else if ws_opcode f = 0xA then (True, w, s)
         else if ws_opcode f = 0x8
         then (False, bs_notify_close_once env ''browser_closed'' (snd (bs_send_n close_frame w), s))
         else (False, bs_notify_close_once env ''ws_protocol_error'' (w, s)))"

definition bs_put_buf :: "u8 list \<Rightarrow> 'a browser_world \<Rightarrow> 'a browser_world" where
  "bs_put_buf b = (\<lambda>(w, s). (w\<lparr>bs_recv_buf := b\<rparr>, s))"

definition bs_get_buf :: "'a browser_world \<Rightarrow> u8 list" where
  "bs_get_buf = (\<lambda>(w, s). bs_recv_buf w)"

definition bs_drain_frames ::
  "'a bridge_scheme bridge_env \<Rightarrow> 'a browser_world \<Rightarrow> (drain_exit \<times> 'a browser_world) option" where
  "bs_drain_frames env = ws_drain bs_get_buf bs_put_buf (bs_frame env)"

text \<open>\<open>chunk\<close> is what \<^verbatim>\<open>recv\<close> read; the empty chunk is end of file or an error.\<close>

definition bs_handle_input ::
  "'a bridge_scheme bridge_env \<Rightarrow> u8 list \<Rightarrow> 'a browser_world \<Rightarrow> (drain_exit \<times> 'a browser_world) option" where
  "bs_handle_input env chunk ws =
     (if chunk = [] then Some (DrainStop, bs_notify_close_once env ''peer_closed'' ws)
      else bs_drain_frames env (bs_put_buf (bs_get_buf ws @ chunk) ws))"

section \<open>Teardown and keep-alive\<close>

definition bs_handle_close ::
  "'a bridge_scheme bridge_env \<Rightarrow> 'a browser_world \<Rightarrow> 'a browser_world" where
  "bs_handle_close env ws =
     (let (w, s) = ws;
          (w1, s1) = bs_notify_close_once env ''handle_close'' (bs_cancel_ping_timer w, s)
      in (w1\<lparr>bs_handle := False\<rparr>, s1))"

definition bs_handle_timeout ::
  "'a bridge_scheme bridge_env \<Rightarrow> 'a browser_world \<Rightarrow> int \<times> 'a browser_world" where
  "bs_handle_timeout env ws =
     (let (w, s) = ws
      in if \<not> bs_handle w then (-1, w, s)
         else case bs_send_n ping_frame w of
                (True, w1) \<Rightarrow> (0, w1, s)
              | (False, w1) \<Rightarrow> (-1, bs_notify_close_once env ''keepalive_write_failed'' (w1, s)))"

section \<open>Facts\<close>

lemma bs_get_put [simp]: "bs_get_buf (bs_put_buf b ws) = b"
  by (cases ws) (simp add: bs_get_buf_def bs_put_buf_def)

lemma bs_put_put [simp]: "bs_put_buf b (bs_put_buf c ws) = bs_put_buf b ws"
  by (cases ws) (simp add: bs_put_buf_def)

lemma bs_send_n_buf [simp]: "bs_send_n x (w\<lparr>bs_recv_buf := b\<rparr>) = (fst (bs_send_n x w), (snd (bs_send_n x w))\<lparr>bs_recv_buf := b\<rparr>)"
  by (simp add: bs_send_n_def split: list.split)

lemma bs_send_n_fields [simp]:
  "bs_self (snd (bs_send_n x w)) = bs_self w"
  "bs_stream_id (snd (bs_send_n x w)) = bs_stream_id w"
  "bs_handle (snd (bs_send_n x w)) = bs_handle w"
  "bs_recv_buf (snd (bs_send_n x w)) = bs_recv_buf w"
  "bs_close_notified (snd (bs_send_n x w)) = bs_close_notified w"
  "bs_written (snd (bs_send_n x w)) = bs_written w @ [x]"
  by (simp_all add: bs_send_n_def split: list.split)

lemma bs_event_buf: "bs_event e (w\<lparr>bs_recv_buf := b\<rparr>) = (bs_event e w)\<lparr>bs_recv_buf := b\<rparr>"
  by (cases e; cases w)
    (simp_all add: bs_send_bytes_def bs_close_def bs_cancel_ping_timer_def bs_send_n_def Let_def split: list.split)

lemma bs_events_buf: "fold bs_event es (w\<lparr>bs_recv_buf := b\<rparr>) = (fold bs_event es w)\<lparr>bs_recv_buf := b\<rparr>"
  by (induction es arbitrary: w) (simp_all add: bs_event_buf)

lemma bridge_call_put: "bridge_call g (bs_put_buf b ws) = bs_put_buf b (bridge_call g ws)"
  by (cases ws) (simp add: bridge_call_def bs_put_buf_def Let_def bs_events_buf)

lemma bs_notify_put:
  "bs_notify_close_once env r (bs_put_buf b ws) = bs_put_buf b (bs_notify_close_once env r ws)"
proof (cases ws)
  case (Pair w s)
  have "bs_put_buf b (w\<lparr>bs_close_notified := True\<rparr>, s) = (w\<lparr>bs_recv_buf := b, bs_close_notified := True\<rparr>, s)"
    by (cases w) (simp add: bs_put_buf_def)
  with Pair show ?thesis
    using bridge_call_put[of "on_browser_close env (bs_stream_id w) r" b "(w\<lparr>bs_close_notified := True\<rparr>, s)"]
    by (auto simp: bs_notify_close_once_def) (auto simp: bs_put_buf_def bs_notify_close_once_def)
qed

lemma bs_frame_put: "bs_frame env f (bs_put_buf b ws) = (fst (bs_frame env f ws), bs_put_buf b (snd (bs_frame env f ws)))"
proof (cases ws)
  case (Pair w s)
  then show ?thesis
    using bs_notify_put[of env _ b "(w, s)"] bs_notify_put[of env _ b "(snd (bs_send_n close_frame w), s)"]
      bridge_call_put[of _ b "(w, s)"]
    by (simp add: bs_frame_def bs_put_buf_def)
qed

lemma bs_put_get [simp]: "bs_put_buf (bs_get_buf ws) ws = ws"
  by (cases ws) (simp add: bs_get_buf_def bs_put_buf_def)

interpretation browser: ws_receiver bs_get_buf bs_put_buf "bs_frame env" for env
  by unfold_locales (simp_all add: bs_frame_put)

section \<open>Messages reach the bridge\<close>

lemma bs_event_ids [simp]:
  "bs_stream_id (bs_event e w) = bs_stream_id w" "bs_self (bs_event e w) = bs_self w"
  by (cases e; simp add: bs_send_bytes_def bs_close_def bs_cancel_ping_timer_def Let_def)+

lemma bs_events_ids [simp]:
  "bs_stream_id (fold bs_event es w) = bs_stream_id w" "bs_self (fold bs_event es w) = bs_self w"
  by (induction es arbitrary: w) simp_all

lemma bridge_call_parts [simp]:
  "snd (bridge_call g ws) = g (snd ws)"
  "bs_stream_id (fst (bridge_call g ws)) = bs_stream_id (fst ws)"
  by (cases ws; simp add: bridge_call_def Let_def)+

text \<open>
  A client's text message: one masked text frame.  The masking key belongs to the frame; a client draws
  a new one for each.
\<close>

definition client_message :: "u32 \<Rightarrow> string \<Rightarrow> u8 list" where
  "client_message key msg = ws_encode (string_to_bytes msg) 0x1 True key key"

definition message_frame :: "string \<Rightarrow> ws_frame" where
  "message_frame msg = \<lparr>ws_opcode = 0x1, ws_payload = string_to_bytes msg\<rparr>"

lemma decode_client_message:
  "length msg < 2 ^ 64 - 14 \<Longrightarrow> ws_decode (client_message key msg @ r) = WsSome (message_frame msg) r"
  by (simp add: client_message_def message_frame_def ws_decode_encode string_to_bytes_def)

lemma bs_frame_message:
  "bs_frame env (message_frame msg) (w, s) =
     (True, bridge_call (on_browser_data env (bs_stream_id w) msg) (w, s))"
  by (simp add: bs_frame_def message_frame_def)

lemma bs_steps_messages:
  "\<exists>w'. ws_steps (bs_frame env) (map message_frame msgs) (w, s) =
     (DrainMore, w', fold (on_browser_data env (bs_stream_id w)) msgs s) \<and> bs_stream_id w' = bs_stream_id w"
proof (induction msgs arbitrary: w s)
  case (Cons m ms)
  obtain w1 s1 where c: "bridge_call (on_browser_data env (bs_stream_id w) m) (w, s) = (w1, s1)"
    by fastforce
  then have "s1 = on_browser_data env (bs_stream_id w) m s" "bs_stream_id w1 = bs_stream_id w"
    using bridge_call_parts[of "on_browser_data env (bs_stream_id w) m" "(w, s)"] by simp_all
  with c Cons.IH[of w1 s1] show ?case by (simp add: bs_frame_message)
qed simp

lemma bs_feed_messages:
  assumes "\<forall>(key, m) \<in> set kms. length m < 2 ^ 64 - 14" and "bs_recv_buf w = []"
    and "concat cs = concat (map (\<lambda>(key, m). client_message key m) kms)"
  shows "\<exists>w'. ws_feed bs_get_buf bs_put_buf (bs_frame env) cs (w, s) =
    Some (DrainMore, w', fold (on_browser_data env (bs_stream_id w)) (map snd kms) s)"
proof -
  obtain w' where "ws_steps (bs_frame env) (map message_frame (map snd kms)) (w, s) =
      (DrainMore, w', fold (on_browser_data env (bs_stream_id w)) (map snd kms) s)"
    using bs_steps_messages by blast
  with browser.ws_feed_frames[of kms "\<lambda>(key, m). client_message key m" "message_frame \<circ> snd" cs "(w, s)"] assms
  show ?thesis by (auto simp: decode_client_message bs_get_buf_def split_def)
qed

section \<open>Teardown\<close>

text \<open>Once the bridge has been told that the browser is gone, it does not know the stream.\<close>

definition bs_inv :: "'a browser_world \<Rightarrow> bool" where
  "bs_inv = (\<lambda>(w, s). bs_close_notified w \<longrightarrow> um_find (m_browsers s) (bs_stream_id w) = None)"

context bridge_callbacks
begin

lemma close_forgets: "um_find (m_browsers (on_browser_close env sid r s)) sid = None"
  using bridge_calm_browsers[OF send_calm, of CLOSE sid r "s\<lparr>m_browsers := um_erase sid (m_browsers s)\<rparr>"]
  by (auto simp: on_browser_close_def Let_def)

lemma notify_forgets:
  assumes "bs_inv ws"
  shows "um_find (m_browsers (snd (bs_notify_close_once env r ws))) (bs_stream_id (fst ws)) = None"
    and "bs_stream_id (fst (bs_notify_close_once env r ws)) = bs_stream_id (fst ws)"
  using assms
  by (auto simp: bs_notify_close_once_def bs_inv_def Let_def close_forgets split: prod.splits)

end

end
