(* ===== verification/Cloud_App.thy ===== *)
theory Cloud_App
  imports Cloud_Tunnel_Endpoint Presence_Cache Browser_Stream
begin

text \<open>
  The wiring of the cloud process (\<^verbatim>\<open>modules/module/webservice/src/webservice_main.cpp\<close>): the
  handlers installed on the bridge for the frames the agent sends up, as state transformers on the
  endpoint extended with what they write (the presence cache, the notifications handed to
  \<^verbatim>\<open>PushSender\<close>, the documents created in the database).

  The database client and the JSON library are parameters (\<^verbatim>\<open>app_env\<close>).  An exception of
  \<^verbatim>\<open>json::parse\<close> or of an accessor is caught by the handler that caused it.  The calls of the database are
  calls that return: an exception of \<^verbatim>\<open>get_document\<close> or \<^verbatim>\<open>create_document\<close>, which neither the hello handler nor the
  CDR handler catches, is outside this theory.
\<close>

record app_env =
  ae_json :: json_lib
  ae_db :: bool
  ae_get_document :: "string \<Rightarrow> string \<Rightarrow> string \<Rightarrow> string"
  ae_push_sender :: bool

record cloud_app = cloud +
  ca_presence :: presence
  ca_notified :: "(string \<times> string) list"
  ca_created :: "(string \<times> string) list"

section \<open>Handlers\<close>

definition register_state_handler ::
  "app_env \<Rightarrow> string \<Rightarrow> 'a cloud_app_scheme \<Rightarrow> 'a cloud_app_scheme" where
  "register_state_handler ae payload s =
     (case js_parse (ae_json ae) payload of
        None \<Rightarrow> s
      | Some j \<Rightarrow>
          (case (j_get_string j ''societyId'', j_get_string j ''sipUsername'', j_get_bool j ''online'') of
             (Some soc, Some user, Some online) \<Rightarrow>
               s\<lparr>ca_presence := presence_set soc user online (ca_presence s)\<rparr>
           | _ \<Rightarrow> s))"

text \<open>The filter \<^verbatim>\<open>{"code":"<id>"}\<close>, concatenated without escaping.\<close>

definition society_code_filter :: "string \<Rightarrow> string" where
  "society_code_filter society_id = ''{\"code\":\"'' @ society_id @ ''\"}''"

text \<open>The realm read from the society document; a document that does not parse, or whose field has
  another type, gives the empty realm.\<close>

definition society_realm :: "app_env \<Rightarrow> string \<Rightarrow> string" where
  "society_realm ae doc =
     (if doc = [] then []
      else case js_parse (ae_json ae) doc of
             None \<Rightarrow> []
           | Some j \<Rightarrow> (case j_value j ''sipRealm'' [] of Inl _ \<Rightarrow> [] | Inr r \<Rightarrow> r))"

definition agent_hello_handler ::
  "app_env \<Rightarrow> 'a cloud_app_scheme bridge_env \<Rightarrow> string \<Rightarrow> 'a cloud_app_scheme \<Rightarrow> 'a cloud_app_scheme" where
  "agent_hello_handler ae env payload s =
     (if \<not> ae_db ae then s
      else case js_parse (ae_json ae) payload of
             None \<Rightarrow> snd (bootstrap_society env [] [] s)
           | Some j \<Rightarrow>
               (case j_get_string j ''societyId'' of
                  None \<Rightarrow> s
                | Some society_id \<Rightarrow>
                    (let doc = ae_get_document ae ''societies'' (society_code_filter society_id) ''{}''
                     in snd (bootstrap_society env society_id (society_realm ae doc) s))))"

definition push_notify_handler ::
  "app_env \<Rightarrow> string \<Rightarrow> 'a cloud_app_scheme \<Rightarrow> 'a cloud_app_scheme" where
  "push_notify_handler ae payload s =
     (if \<not> ae_push_sender ae then s
      else case js_parse (ae_json ae) payload of
             None \<Rightarrow> s
           | Some j \<Rightarrow>
               (case j_get_string j ''subscriberId'' of
                  None \<Rightarrow> s
                | Some sub_id \<Rightarrow> s\<lparr>ca_notified := ca_notified s @ [(sub_id, payload)]\<rparr>))"

definition cdr_push_handler ::
  "app_env \<Rightarrow> string \<Rightarrow> 'a cloud_app_scheme \<Rightarrow> 'a cloud_app_scheme" where
  "cdr_push_handler ae payload s =
     (if \<not> ae_db ae then s else s\<lparr>ca_created := ca_created s @ [(''cdr'', payload)]\<rparr>)"

section \<open>Wiring\<close>

text \<open>
  The bridge before the handlers are installed; its sink is the endpoint.  The hello handler
  answers through the same bridge, of which it uses the sink and the JSON library only.
\<close>

definition bare_env :: "app_env \<Rightarrow> 'a cloud_app_scheme bridge_env" where
  "bare_env ae =
     \<lparr>be_json = ae_json ae, be_send = endpoint_send_frame, m_push_handler = None, m_cdr_handler = None,
      m_register_state_handler = None, m_agent_hello_handler = None, m_asterisk_status_handler = None\<rparr>"

definition cloud_env :: "app_env \<Rightarrow> 'a cloud_app_scheme bridge_env" where
  "cloud_env ae =
     set_cdr_push_handler (Some (cdr_push_handler ae))
       (set_push_notify_handler (Some (push_notify_handler ae))
         (set_agent_hello_handler (Some (agent_hello_handler ae (bare_env ae)))
           (set_register_state_handler (Some (register_state_handler ae)) (bare_env ae))))"

text \<open>The objects after the bootstrap, before any agent has connected.\<close>

definition cloud_boot :: "cloud_app" where
  "cloud_boot =
     cloud.extend
       (bridge.extend (new_bridge True)
         (cloud.fields default_config True True None [] 0 0 []))
       \<lparr>ca_presence = [], ca_notified = [], ca_created = []\<rparr>"

lemmas app_handler_defs = register_state_handler_def agent_hello_handler_def push_notify_handler_def
  cdr_push_handler_def

lemma cloud_env_fields [simp]:
  "be_json (cloud_env ae) = ae_json ae"
  "be_send (cloud_env ae) = endpoint_send_frame"
  "m_push_handler (cloud_env ae) = Some (push_notify_handler ae)"
  "m_cdr_handler (cloud_env ae) = Some (cdr_push_handler ae)"
  "m_register_state_handler (cloud_env ae) = Some (register_state_handler ae)"
  "m_agent_hello_handler (cloud_env ae) = Some (agent_hello_handler ae (bare_env ae))"
  "m_asterisk_status_handler (cloud_env ae) = None"
  by (simp_all add: cloud_env_def bare_env_def set_cdr_push_handler_def set_push_notify_handler_def
      set_agent_hello_handler_def set_register_state_handler_def)

section \<open>The handlers keep the contract of the endpoint\<close>

lemma handler_sends_quiet:
  "(\<And>s. cloud.truncate (g s) = cloud.truncate s) \<Longrightarrow> handler_sends g"
  unfolding handler_sends_def by (blast intro: sends_refl)

lemma bootstrap_sends:
  "be_send env = endpoint_send_frame \<Longrightarrow> sends s (snd (bootstrap_society env soc realm s))"
  by (auto simp: bootstrap_society_def intro: sends_refl sends_step split: option.split)

lemma hello_sends:
  assumes "be_send env = endpoint_send_frame"
  shows "handler_sends (agent_hello_handler ae env p)"
proof -
  have "sends s (agent_hello_handler ae env p s)" for s
    using bootstrap_sends[OF assms, of s]
    by (auto simp: agent_hello_handler_def Let_def sends_refl split: option.split)
  then show ?thesis unfolding handler_sends_def by blast
qed

interpretation app: cloud_handlers "cloud_env ae" for ae
  by unfold_locales
    (auto intro!: handler_sends_quiet hello_sends
      simp: bare_env_def register_state_handler_def push_notify_handler_def cdr_push_handler_def
        cloud.truncate_def split: option.split)

lemma cloud_boot_inv: "cloud_inv cloud_boot"
  by (simp add: cloud_boot_def cloud_inv_def has_agent_def bridge_inv_def new_bridge_def
      bridge.extend_def cloud.extend_def cloud.fields_def)

section \<open>What the cloud hands to the tunnel\<close>

text \<open>
  The frames each call asks the endpoint to carry, read off the sources of the callers and
  independently of how \<^verbatim>\<open>send_frame\<close> treats them: a received frame is answered by at most one frame,
  an upgrade opens a stream, and so on.  Nothing is handed over while the bridge has no tunnel.
\<close>

definition hello_reply :: "app_env \<Rightarrow> string \<Rightarrow> string list" where
  "hello_reply ae payload =
     (case js_parse (ae_json ae) payload of
        None \<Rightarrow> (case js_dump (ae_json ae) (bootstrap_payload [] []) of
                   None \<Rightarrow> [] | Some p \<Rightarrow> [sf_encode SOCIETY_BOOTSTRAP 0 p])
      | Some j \<Rightarrow>
          (case j_get_string j ''societyId'' of
             None \<Rightarrow> []
           | Some soc \<Rightarrow>
               (case js_dump (ae_json ae) (bootstrap_payload soc
                   (society_realm ae (ae_get_document ae ''societies'' (society_code_filter soc) ''{}''))) of
                  None \<Rightarrow> [] | Some p \<Rightarrow> [sf_encode SOCIETY_BOOTSTRAP 0 p])))"

definition frame_reply :: "app_env \<Rightarrow> Frame \<Rightarrow> 'a cloud_app_scheme \<Rightarrow> string list" where
  "frame_reply ae f s =
     (if \<not> m_tunnel s then []
      else case frame_op f of
             PING \<Rightarrow> [sf_encode PONG (frame_stream_id f) []]
           | AGENT_HELLO \<Rightarrow> (if ae_db ae then hello_reply ae (frame_payload f) else [])
           | _ \<Rightarrow> [])"

fun read_replies :: "app_env \<Rightarrow> nat \<Rightarrow> 'a cloud_app_scheme \<Rightarrow> string list" where
  "read_replies ae 0 s = []"
| "read_replies ae (Suc k) s =
     (case sf_decode (m_recv_buffer s) of
        DecOk f n \<Rightarrow>
          (let s1 = dispatch_frame (cloud_env ae) f s
           in frame_reply ae f s @ read_replies ae k (put_recv_buffer (drop n (m_recv_buffer s1)) s1))
      | _ \<Rightarrow> [])"

fun handed :: "app_env \<Rightarrow> cloud_op \<Rightarrow> 'a cloud_app_scheme \<Rightarrow> string list" where
  "handed ae (Upgrade b meta) s = (if m_tunnel s then [sf_encode OPEN (m_next_stream_id s) meta] else [])"
| "handed ae (BrowserData sid p) s =
     (if um_find (m_browsers s) sid \<noteq> None \<and> m_tunnel s then [sf_encode DATA sid p] else [])"
| "handed ae (BrowserClose sid r) s =
     (if um_find (m_browsers s) sid \<noteq> None \<and> m_tunnel s then [sf_encode CLOSE sid r] else [])"
| "handed ae (Connected now t) s = []"
| "handed ae (Received b) s =
     (if ce_bridge s
      then read_replies ae (Suc (length (m_recv_buffer s @ b)))
             (put_recv_buffer (m_recv_buffer s @ b) (s\<lparr>ce_pings_outstanding := 0\<rparr>))
      else [])"
| "handed ae AgentLost s = []"
| "handed ae (Tick now) s =
     (if has_agent s \<and> ce_clock s \<and> 0 < heartbeat_interval_sec (ce_cfg s) \<and>
         heartbeat_interval_sec (ce_cfg s) \<le> now - ce_last_heartbeat_unix s \<and>
         ce_pings_outstanding s < heartbeat_max_missed (ce_cfg s)
      then [sf_encode PING 0 []] else [])"
| "handed ae (Revoke soc user) s =
     (if m_tunnel s
      then (case js_dump (ae_json ae) (revoke_payload soc user) of
              None \<Rightarrow> [] | Some p \<Rightarrow> [sf_encode SUBSCRIBER_REVOKED 0 p])
      else [])"

fun run_handed :: "app_env \<Rightarrow> cloud_op list \<Rightarrow> 'a cloud_app_scheme \<Rightarrow> string list" where
  "run_handed ae [] s = []"
| "run_handed ae (op # ops) s = handed ae op s @ run_handed ae ops (cloud_exec (cloud_env ae) op s)"

lemma grows_pipeline: "grows xs s \<Longrightarrow> pipeline (endpoint_send_frame op sid p s) = pipeline s @ [sf_encode op sid p]"
  by (simp add: grows_def send_frame_pipeline)

lemma grows_put [simp]: "grows xs (put_recv_buffer b s) = grows xs s"
  by (simp add: grows_def) (simp add: put_recv_buffer_def)

lemma pipeline_quiet: "cloud.truncate t = cloud.truncate s \<Longrightarrow> pipeline t = pipeline s"
  by (metis pipeline_update(10))

lemma pipeline_close_stream [simp]: "pipeline (close_stream i r s) = pipeline s"
  by (simp add: close_stream_def split: option.split)

lemma pipeline_handlers [simp]:
  "pipeline (register_state_handler ae p s) = pipeline s" "pipeline (push_notify_handler ae p s) = pipeline s"
  "pipeline (cdr_push_handler ae p s) = pipeline s"
  by (rule pipeline_quiet; simp add: app_handler_defs cloud.truncate_def split: option.split)+

lemma pipeline_hello:
  assumes "grows xs s"
  shows "pipeline (agent_hello_handler ae (bare_env ae) p s) =
    pipeline s @ (if m_tunnel s \<and> ae_db ae then hello_reply ae p else [])"
  by (simp add: agent_hello_handler_def hello_reply_def bootstrap_society_def bare_env_def Let_def
      grows_pipeline[OF assms] split: option.split)

lemma pipeline_dispatch:
  assumes "grows xs s"
  shows "pipeline (dispatch_frame (cloud_env ae) f s) = pipeline s @ frame_reply ae f s"
  by (simp add: dispatch_frame_def frame_reply_def call_handler_def grows_pipeline[OF assms]
      pipeline_hello[OF assms] split: Op.split option.split)

lemma pipeline_read:
  "grows xs s \<Longrightarrow> rx_loop m_recv_buffer put_recv_buffer (dispatch_frame (cloud_env ae)) k s = Some (ok, t) \<Longrightarrow>
   pipeline t = pipeline s @ read_replies ae k s"
proof (induction k arbitrary: s)
  case (Suc k)
  show ?case
  proof (cases "sf_decode (m_recv_buffer s)")
    case (DecOk f n)
    let ?s = "dispatch_frame (cloud_env ae) f s"
    have "grows xs (put_recv_buffer (drop n (m_recv_buffer ?s)) ?s)"
      using app.grows_dispatch[OF Suc.prems(1), of ae f] by simp
    from Suc.IH[OF this] Suc.prems(2) DecOk show ?thesis
      by (simp add: Let_def pipeline_dispatch[OF Suc.prems(1)])
  qed (use Suc.prems in auto)
qed simp

lemma pipeline_exec:
  assumes g: "grows xs s" and "unat (m_next_stream_id s) < 2 ^ 32 - 1"
  shows "pipeline (cloud_exec (cloud_env ae) op s) = pipeline s @ handed ae op s"
proof (cases op)
  case (Upgrade b m)
  have "grows xs (s\<lparr>m_next_stream_id := m_next_stream_id s + 1,
      m_browsers := um_emplace (m_next_stream_id s) b (m_browsers s)\<rparr>)"
    using assms bridge_inv_emplace[of s b] by (auto simp: grows_def cloud_inv_def has_agent_def)
  from grows_pipeline[OF this] Upgrade show ?thesis by (simp add: on_browser_upgrade_def Let_def)
next
  case (BrowserClose sid r)
  have "grows xs (s\<lparr>m_browsers := um_erase sid (m_browsers s)\<rparr>)"
    using g by (auto simp: grows_def cloud_inv_def has_agent_def bridge_inv_def)
  from grows_pipeline[OF this] BrowserClose show ?thesis by (auto simp: on_browser_close_def Let_def)
next
  case (Received b)
  let ?s = "s\<lparr>ce_pings_outstanding := 0\<rparr>"
  have "grows xs ?s" using g by (auto simp: grows_def cloud_inv_def has_agent_def)
  then have s0: "grows xs (put_recv_buffer (m_recv_buffer s @ b) ?s)" by simp
  obtain ok t where "on_tunnel_bytes (cloud_env ae) b ?s = Some (ok, t)"
    using app.on_tunnel_bytes_total[of ae b ?s] by (metis surj_pair)
  moreover from this have "pipeline t = pipeline s @ read_replies ae (Suc (length (m_recv_buffer s @ b)))
      (put_recv_buffer (m_recv_buffer s @ b) ?s)"
    using pipeline_read[OF s0] by (simp add: on_tunnel_bytes_def rx_bytes_def Let_def del: rx_loop.simps read_replies.simps)
  ultimately show ?thesis
    using Received by (simp add: on_bytes_received_def Let_def del: read_replies.simps)
next
  case (Tick now)
  then show ?thesis
    using grows_pipeline[OF g, of PING 0 "[]"] by (simp add: tick_def maybe_heartbeat_def Let_def)
qed (use grows_pipeline[OF g] in \<open>auto simp: on_browser_data_def on_agent_connected_def on_agent_disconnected_def
    revoke_def Let_def split: option.split\<close>)

lemma pipeline_run:
  assumes "grows xs s" and "unat (m_next_stream_id s) + length ops < 2 ^ 32"
  shows "pipeline (fold (cloud_exec (cloud_env ae)) ops s) = pipeline s @ run_handed ae ops s"
  using assms
proof (induction ops arbitrary: s)
  case (Cons op ops)
  have n: "unat (m_next_stream_id s) < 2 ^ 32 - 1" using Cons.prems(2) by simp
  moreover have "unat (m_next_stream_id (cloud_exec (cloud_env ae) op s)) \<le> Suc (unat (m_next_stream_id s))"
    using unat_Suc_u32[OF n] by (simp add: app.exec_next split: cloud_op.split)
  ultimately show ?case
    using Cons.IH[OF app.grows_exec[OF Cons.prems(1) n, of ae op]] Cons.prems(2)
    by (simp add: pipeline_exec[OF Cons.prems(1) n])
qed simp

lemma run_handed_append:
  "run_handed ae (ops @ ops') s = run_handed ae ops s @ run_handed ae ops' (fold (cloud_exec (cloud_env ae)) ops s)"
  by (induction ops arbitrary: s) simp_all

section \<open>Receiving over a transport that accepts every write\<close>

text \<open>
  A failing reply may drop the tunnel, and with it the receive buffer, in the middle of a read.  As
  long as the transport accepts what is written, dispatching neither reads nor writes the buffer and
  the way the agent's bytes are cut into reads is invisible.
\<close>

definition healthy :: "'a cloud_scheme \<Rightarrow> bool" where
  "healthy s \<longleftrightarrow> (case ce_transport s of None \<Rightarrow> False | Some t \<Rightarrow> t_oracle t = [])"

lemma healthy_cong: "ce_transport t = ce_transport s \<Longrightarrow> healthy t = healthy s"
  by (simp add: healthy_def)

lemma healthy_send:
  "healthy s \<Longrightarrow> endpoint_send_frame op sid p s =
     s\<lparr>e_log := e_log s @ [Sent (t_id (the (ce_transport s))) (sf_encode op sid p)]\<rparr>"
  by (cases s) (auto simp: healthy_def endpoint_send_frame_def Let_def split: option.splits)

lemma healthy_put [simp]: "healthy (put_recv_buffer b s) = healthy s"
  by (simp add: healthy_def put_recv_buffer_def)

lemma healthy_fields [simp]:
  "healthy (s\<lparr>e_log := l\<rparr>) = healthy s" "healthy (s\<lparr>m_browsers := m\<rparr>) = healthy s"
  "healthy (s\<lparr>b_log := bl\<rparr>) = healthy s" "healthy (s\<lparr>m_asterisk_connected := a\<rparr>) = healthy s"
  "healthy (s\<lparr>m_next_stream_id := n\<rparr>) = healthy s"
  by (simp_all add: healthy_def)

lemma put_fields_commute:
  "(put_recv_buffer b s)\<lparr>e_log := l\<rparr> = put_recv_buffer b (s\<lparr>e_log := l\<rparr>)"
  "(put_recv_buffer b s)\<lparr>m_browsers := m\<rparr> = put_recv_buffer b (s\<lparr>m_browsers := m\<rparr>)"
  "(put_recv_buffer b s)\<lparr>b_log := bl\<rparr> = put_recv_buffer b (s\<lparr>b_log := bl\<rparr>)"
  "(put_recv_buffer b s)\<lparr>m_asterisk_connected := a\<rparr> = put_recv_buffer b (s\<lparr>m_asterisk_connected := a\<rparr>)"
  by (simp_all add: put_recv_buffer_def)

lemma healthy_send_put:
  "healthy s \<Longrightarrow> endpoint_send_frame op sid p (put_recv_buffer b s) = put_recv_buffer b (endpoint_send_frame op sid p s)"
  by (simp add: healthy_send put_fields_commute)
    (simp add: put_recv_buffer_def)

lemma healthy_hello:
  assumes "healthy s"
  shows "healthy (agent_hello_handler ae (bare_env ae) p s)"
    and "agent_hello_handler ae (bare_env ae) p (put_recv_buffer b s) =
      put_recv_buffer b (agent_hello_handler ae (bare_env ae) p s)"
  using assms
  by (auto simp: agent_hello_handler_def bootstrap_society_def bare_env_def Let_def healthy_send_put
      split: option.split) (simp_all add: healthy_send)

lemma healthy_quiet_handlers [simp]:
  "healthy (register_state_handler ae p s) = healthy s" "healthy (push_notify_handler ae p s) = healthy s"
  "healthy (cdr_push_handler ae p s) = healthy s"
  by (auto simp: app_handler_defs healthy_def split: option.split)

lemma quiet_handlers_put [simp]:
  "register_state_handler ae p (put_recv_buffer b s) = put_recv_buffer b (register_state_handler ae p s)"
  "push_notify_handler ae p (put_recv_buffer b s) = put_recv_buffer b (push_notify_handler ae p s)"
  "cdr_push_handler ae p (put_recv_buffer b s) = put_recv_buffer b (cdr_push_handler ae p s)"
  by (auto simp: app_handler_defs put_recv_buffer_def split: option.split)

lemma healthy_dispatch:
  fixes s :: "'a cloud_app_scheme"
  assumes "healthy s"
  shows "healthy (dispatch_frame (cloud_env ae) f s)"
    and "dispatch_frame (cloud_env ae) f (put_recv_buffer b s) = put_recv_buffer b (dispatch_frame (cloud_env ae) f s)"
proof -
  note h = healthy_hello[OF assms, of ae "frame_payload f"]
  have 1: "healthy (endpoint_send_frame op i p s)" for op i p using assms by (simp add: healthy_send)
  show "healthy (dispatch_frame (cloud_env ae) f s)"
    using assms 1 h
    by (auto simp: dispatch_frame_def call_handler_def close_stream_def split: Op.split option.split)
  show "dispatch_frame (cloud_env ae) f (put_recv_buffer b s) = put_recv_buffer b (dispatch_frame (cloud_env ae) f s)"
    using assms h
    by (auto simp: dispatch_frame_def call_handler_def close_stream_def healthy_send_put put_fields_commute
        split: Op.split option.split)
qed

interpretation up: stable_receiver m_recv_buffer put_recv_buffer "dispatch_frame (cloud_env ae)" healthy for ae
  by unfold_locales (simp_all add: healthy_dispatch)

end
