(* ===== verification/Sip_Frame_Demux.thy ===== *)
theory Sip_Frame_Demux
  imports Sip_Frame Json
begin

text \<open>
  The agent-side demultiplexer \<^verbatim>\<open>SipFrameDemux\<close> (\<^verbatim>\<open>pbx-agent/src/main/sip_frame_demux.cpp\<close>): one
  local Asterisk connection per stream id.  As for the cloud's bridge, the operations work on a
  record scheme, and the objects the demux calls (the tunnel, the stream factory, the streams, the
  control handlers) are state transformers in \<^verbatim>\<open>demux_env\<close>.  What it needs of them is the locale
  \<^verbatim>\<open>demux_callbacks\<close>: they leave the receive buffer alone, and all but a failing write leave the
  stream table alone.
\<close>

named_theorems demux_simps \<open>the operations of the demultiplexer\<close>

type_synonym stream_ref = nat

record demux =
  dm_tunnel :: bool
  dm_streams :: "(u32, stream_ref) umap"
  dm_recv_buffer :: string

text \<open>\<^verbatim>\<open>IAsteriskFactory::open\<close> may return null; \<^verbatim>\<open>IAsteriskStream::send_bytes\<close> may fail.\<close>

record 's demux_env =
  de_send :: "Op \<Rightarrow> u32 \<Rightarrow> string \<Rightarrow> 's \<Rightarrow> 's"
  de_open :: "u32 \<Rightarrow> string \<Rightarrow> 's \<Rightarrow> stream_ref option \<times> 's"
  de_send_bytes :: "stream_ref \<Rightarrow> string \<Rightarrow> 's \<Rightarrow> bool \<times> 's"
  de_close :: "stream_ref \<Rightarrow> string \<Rightarrow> 's \<Rightarrow> 's"
  m_revoked_handler :: "(string \<Rightarrow> 's \<Rightarrow> 's) option"
  m_society_bootstrap_handler :: "(string \<Rightarrow> 's \<Rightarrow> 's) option"

definition new_demux :: "bool \<Rightarrow> demux" where
  "new_demux tunnel = \<lparr>dm_tunnel = tunnel, dm_streams = [], dm_recv_buffer = []\<rparr>"

definition set_society_bootstrap_handler ::
  "(string \<Rightarrow> 's \<Rightarrow> 's) option \<Rightarrow> 's demux_env \<Rightarrow> 's demux_env" where
  "set_society_bootstrap_handler h env = env\<lparr>m_society_bootstrap_handler := h\<rparr>"

definition set_subscriber_revoked_handler ::
  "(string \<Rightarrow> 's \<Rightarrow> 's) option \<Rightarrow> 's demux_env \<Rightarrow> 's demux_env" where
  "set_subscriber_revoked_handler h env = env\<lparr>m_revoked_handler := h\<rparr>"

section \<open>Operations\<close>

definition dm_close_stream ::
  "'a demux_scheme demux_env \<Rightarrow> u32 \<Rightarrow> string \<Rightarrow> 'a demux_scheme \<Rightarrow> 'a demux_scheme" where
  "dm_close_stream env stream_id reason s =
     (case um_find (dm_streams s) stream_id of
        None \<Rightarrow> s
      | Some a \<Rightarrow>
          (let s1 = de_close env a reason s
           in s1\<lparr>dm_streams := um_erase stream_id (dm_streams s1)\<rparr>))"

definition dm_on_tunnel_disconnect ::
  "'a demux_scheme demux_env \<Rightarrow> 'a demux_scheme \<Rightarrow> 'a demux_scheme" where
  "dm_on_tunnel_disconnect env s =
     (let s1 = fold (\<lambda>(sid, a). de_close env a ''tunnel_lost'') (dm_streams s) s
      in s1\<lparr>dm_streams := [], dm_recv_buffer := [], dm_tunnel := False\<rparr>)"

definition dm_set_tunnel :: "bool \<Rightarrow> 'a demux_scheme \<Rightarrow> 'a demux_scheme" where
  "dm_set_tunnel tunnel s = s\<lparr>dm_tunnel := tunnel, dm_recv_buffer := []\<rparr>"

definition dm_tunnel_send ::
  "(Op \<Rightarrow> u32 \<Rightarrow> string \<Rightarrow> 'a demux_scheme \<Rightarrow> 'a demux_scheme) \<Rightarrow> Op \<Rightarrow> u32 \<Rightarrow> string
    \<Rightarrow> 'a demux_scheme \<Rightarrow> 'a demux_scheme" where
  "dm_tunnel_send send op sid p s = (if dm_tunnel s then send op sid p s else s)"

definition on_asterisk_data ::
  "(Op \<Rightarrow> u32 \<Rightarrow> string \<Rightarrow> 'a demux_scheme \<Rightarrow> 'a demux_scheme) \<Rightarrow> u32 \<Rightarrow> string
    \<Rightarrow> 'a demux_scheme \<Rightarrow> 'a demux_scheme" where
  "on_asterisk_data send stream_id bytes s =
     (if um_find (dm_streams s) stream_id = None then s
      else dm_tunnel_send send DATA stream_id bytes s)"

definition on_asterisk_eof ::
  "(Op \<Rightarrow> u32 \<Rightarrow> string \<Rightarrow> 'a demux_scheme \<Rightarrow> 'a demux_scheme) \<Rightarrow> u32 \<Rightarrow> string
    \<Rightarrow> 'a demux_scheme \<Rightarrow> 'a demux_scheme" where
  "on_asterisk_eof send stream_id reason s =
     (if um_find (dm_streams s) stream_id = None then s
      else dm_tunnel_send send CLOSE stream_id reason
             (s\<lparr>dm_streams := um_erase stream_id (dm_streams s)\<rparr>))"

definition dm_call_handler :: "(string \<Rightarrow> 's \<Rightarrow> 's) option \<Rightarrow> string \<Rightarrow> 's \<Rightarrow> 's" where
  "dm_call_handler h payload s = (case h of None \<Rightarrow> s | Some g \<Rightarrow> g payload s)"

definition dm_dispatch_frame ::
  "'a demux_scheme demux_env \<Rightarrow> Frame \<Rightarrow> 'a demux_scheme \<Rightarrow> 'a demux_scheme" where
  "dm_dispatch_frame env f s =
     (let sid = frame_stream_id f; p = frame_payload f
      in case frame_op f of
           OPEN \<Rightarrow>
             (if um_find (dm_streams s) sid \<noteq> None then s
              else case de_open env sid p s of
                     (None, s1) \<Rightarrow> dm_tunnel_send (de_send env) CLOSE sid ''asterisk_unreachable'' s1
                   | (Some a, s1) \<Rightarrow> s1\<lparr>dm_streams := um_emplace sid a (dm_streams s1)\<rparr>)
         | DATA \<Rightarrow>
             (case um_find (dm_streams s) sid of
                None \<Rightarrow> s
              | Some a \<Rightarrow>
                  (case de_send_bytes env a p s of
                     (True, s1) \<Rightarrow> s1
                   | (False, s1) \<Rightarrow> dm_close_stream env sid ''asterisk_write_failed'' s1))
         | CLOSE \<Rightarrow> dm_close_stream env sid p s
         | PING \<Rightarrow> dm_tunnel_send (de_send env) PONG sid [] s
         | SUBSCRIBER_REVOKED \<Rightarrow> dm_call_handler (m_revoked_handler env) p s
         | SOCIETY_BOOTSTRAP \<Rightarrow> dm_call_handler (m_society_bootstrap_handler env) p s
         | _ \<Rightarrow> s)"

definition dm_put_buffer :: "string \<Rightarrow> 'a demux_scheme \<Rightarrow> 'a demux_scheme" where
  "dm_put_buffer b s = s\<lparr>dm_recv_buffer := b\<rparr>"

definition dm_on_tunnel_bytes ::
  "'a demux_scheme demux_env \<Rightarrow> string \<Rightarrow> 'a demux_scheme \<Rightarrow> (bool \<times> 'a demux_scheme) option" where
  "dm_on_tunnel_bytes env bytes s =
     rx_bytes dm_recv_buffer dm_put_buffer (dm_dispatch_frame env) bytes s"

section \<open>What the demultiplexer needs of the objects it calls\<close>

lemma dm_put_buffer_fields [simp]:
  "dm_recv_buffer (dm_put_buffer b s) = b" "dm_tunnel (dm_put_buffer b s) = dm_tunnel s"
  "dm_streams (dm_put_buffer b s) = dm_streams s"
  "dm_put_buffer b (dm_put_buffer c s) = dm_put_buffer b s"
  "dm_put_buffer (dm_recv_buffer s) s = s"
  by (simp_all add: dm_put_buffer_def)

lemma dm_put_buffer_streams:
  "(dm_put_buffer b s)\<lparr>dm_streams := m\<rparr> = dm_put_buffer b (s\<lparr>dm_streams := m\<rparr>)"
  by (simp add: dm_put_buffer_def)

text \<open>A call that commutes with writing the receive buffer neither reads nor writes it.\<close>

definition buffer_blind :: "('a demux_scheme \<Rightarrow> 'a demux_scheme) \<Rightarrow> bool" where
  "buffer_blind g \<longleftrightarrow> (\<forall>b s. g (dm_put_buffer b s) = dm_put_buffer b (g s))"

definition buffer_blind2 :: "('a demux_scheme \<Rightarrow> 'r \<times> 'a demux_scheme) \<Rightarrow> bool" where
  "buffer_blind2 g \<longleftrightarrow>
     (\<forall>b s. g (dm_put_buffer b s) = (fst (g s), dm_put_buffer b (snd (g s))))"

definition table_quiet :: "('a demux_scheme \<Rightarrow> 'a demux_scheme) \<Rightarrow> bool" where
  "table_quiet g \<longleftrightarrow> (\<forall>s. dm_streams (g s) = dm_streams s \<and> dm_tunnel (g s) = dm_tunnel s)"

lemma buffer_blindD: "buffer_blind g \<Longrightarrow> g (dm_put_buffer b s) = dm_put_buffer b (g s)"
  by (simp add: buffer_blind_def)

lemma buffer_blind2D: "buffer_blind2 g \<Longrightarrow> g (dm_put_buffer b s) = (fst (g s), dm_put_buffer b (snd (g s)))"
  by (simp add: buffer_blind2_def)

lemma buffer_blind_get: "buffer_blind g \<Longrightarrow> dm_recv_buffer (g s) = dm_recv_buffer s"
  by (metis buffer_blind_def dm_put_buffer_fields(1,5))

lemma table_quietD:
  "table_quiet g \<Longrightarrow> dm_streams (g s) = dm_streams s" "table_quiet g \<Longrightarrow> dm_tunnel (g s) = dm_tunnel s"
  by (simp_all add: table_quiet_def)

locale demux_callbacks =
  fixes env :: "'a demux_scheme demux_env"
  assumes send_blind: "buffer_blind (de_send env op sid p)"
    and open_blind: "buffer_blind2 (de_open env sid p)"
    and send_bytes_blind: "buffer_blind2 (de_send_bytes env a p)"
    and close_blind: "buffer_blind (de_close env a p)"
    and revoked_blind: "m_revoked_handler env = Some h \<Longrightarrow> buffer_blind (h p)"
    and bootstrap_blind: "m_society_bootstrap_handler env = Some h \<Longrightarrow> buffer_blind (h p)"
    and send_quiet: "table_quiet (de_send env op sid p)"
    and close_quiet: "table_quiet (de_close env a p)"
begin

lemma close_stream_blind: "buffer_blind (dm_close_stream env sid r)"
  by (simp add: buffer_blind_def dm_close_stream_def buffer_blindD[OF close_blind] Let_def
      dm_put_buffer_streams split: option.split)

lemma tunnel_send_blind: "buffer_blind (dm_tunnel_send (de_send env) op sid p)"
  by (simp add: buffer_blind_def dm_tunnel_send_def buffer_blindD[OF send_blind])

lemma handlers_blind:
  "buffer_blind (dm_call_handler (m_revoked_handler env) p)"
  "buffer_blind (dm_call_handler (m_society_bootstrap_handler env) p)"
  using revoked_blind bootstrap_blind
  by (auto simp: buffer_blind_def dm_call_handler_def split: option.split)

lemma dispatch_blind: "buffer_blind (dm_dispatch_frame env f)"
  unfolding buffer_blind_def dm_dispatch_frame_def Let_def
  by (auto simp: buffer_blindD[OF close_stream_blind] buffer_blindD[OF tunnel_send_blind]
      buffer_blindD[OF handlers_blind(1)] buffer_blindD[OF handlers_blind(2)]
      buffer_blind2D[OF open_blind] buffer_blind2D[OF send_bytes_blind] dm_put_buffer_streams
      split: Op.split option.split prod.split bool.split)

end

sublocale demux_callbacks \<subseteq> rx: stable_receiver dm_recv_buffer dm_put_buffer "dm_dispatch_frame env" "\<lambda>_. True"
  by unfold_locales (simp_all add: buffer_blindD[OF dispatch_blind] buffer_blind_get[OF dispatch_blind])

context demux_callbacks
begin

lemma dm_on_tunnel_bytes_total: "\<exists>ok s'. dm_on_tunnel_bytes env bytes s = Some (ok, s')"
  unfolding dm_on_tunnel_bytes_def by (rule rx.rx_bytes_total)

lemma dm_disconnect_table:
  "dm_streams (dm_on_tunnel_disconnect env s) = []" "dm_recv_buffer (dm_on_tunnel_disconnect env s) = []"
  "\<not> dm_tunnel (dm_on_tunnel_disconnect env s)"
  by (simp_all add: dm_on_tunnel_disconnect_def Let_def)

end

end
