(* ===== verification/Cpp_String.thy ===== *)
theory Cpp_String
  imports Json
begin

text \<open>
  The \<^verbatim>\<open>std::string\<close> operations the program uses: searching, numeric conversion with its
  exceptions, decimal printing and the C character classes (in the C locale).
\<close>

section \<open>Searching\<close>

text \<open>\<^verbatim>\<open>find(needle)\<close>; \<^verbatim>\<open>npos\<close> is \<^term>\<open>None\<close>.\<close>

fun str_find :: "string \<Rightarrow> string \<Rightarrow> nat option" where
  "str_find [] n = (if n = [] then Some 0 else None)"
| "str_find (c # cs) n =
     (if take (length n) (c # cs) = n then Some 0 else map_option Suc (str_find cs n))"

text \<open>\<^verbatim>\<open>find(needle, pos)\<close>.\<close>

definition str_find_from :: "string \<Rightarrow> string \<Rightarrow> nat \<Rightarrow> nat option" where
  "str_find_from h n p =
     (if p \<le> length h then map_option (\<lambda>i. p + i) (str_find (drop p h) n) else None)"

definition str_contains :: "string \<Rightarrow> string \<Rightarrow> bool" where
  "str_contains h n \<longleftrightarrow> str_find h n \<noteq> None"

text \<open>\<^verbatim>\<open>substr(pos, n)\<close> with \<open>pos \<le> size()\<close>.\<close>

definition substr :: "string \<Rightarrow> nat \<Rightarrow> nat \<Rightarrow> string" where
  "substr s p n = take n (drop p s)"

text \<open>\<^verbatim>\<open>c_str()\<close>, read as a C string: it ends at the first zero byte.\<close>

definition c_str :: "string \<Rightarrow> string" where
  "c_str s = takeWhile (\<lambda>c. c \<noteq> CHR 0x00) s"

lemma c_str_append: "c_str (a @ b) = (if CHR 0x00 \<in> set a then c_str a else a @ c_str b)"
  by (auto simp: c_str_def takeWhile_append)

lemma str_find_SomeD:
  "str_find h n = Some i \<Longrightarrow> i + length n \<le> length h \<and> take (length n) (drop i h) = n"
proof (induction h arbitrary: i)
  case (Cons c cs)
  show ?case
  proof (cases "take (length n) (c # cs) = n")
    case True
    then have "length n \<le> length (c # cs)" by (metis length_take min.cobounded1)
    with True Cons.prems show ?thesis by auto
  next
    case False
    with Cons show ?thesis by auto
  qed
qed (simp split: if_splits)

lemma str_find_least: "str_find h n = Some i \<Longrightarrow> j < i \<Longrightarrow> take (length n) (drop j h) \<noteq> n"
proof (induction h arbitrary: i j)
  case (Cons c cs)
  then show ?case by (cases j) (auto split: if_splits)
qed (simp split: if_splits)

lemma str_find_None: "str_find h n = None \<Longrightarrow> i + length n \<le> length h \<Longrightarrow> take (length n) (drop i h) \<noteq> n"
proof (induction h arbitrary: i)
  case (Cons c cs)
  then show ?case by (cases i) (auto split: if_splits)
qed (auto split: if_splits)

lemma str_find_exists:
  assumes "i + length n \<le> length h" and "take (length n) (drop i h) = n"
  shows "\<exists>j \<le> i. str_find h n = Some j"
proof (cases "str_find h n")
  case None
  with assms str_find_None show ?thesis by blast
next
  case (Some j)
  then have "\<not> i < j" using str_find_least[OF Some, of i] assms(2) by auto
  then show ?thesis using Some by auto
qed

text \<open>The first occurrence is found where nothing matches before it.\<close>

lemma str_find_first:
  assumes "\<And>j. j < length a \<Longrightarrow> take (length n) (drop j (a @ n @ b)) \<noteq> n"
  shows "str_find (a @ n @ b) n = Some (length a)"
proof -
  obtain j where j: "j \<le> length a" "str_find (a @ n @ b) n = Some j"
    using str_find_exists[of "length a" n "a @ n @ b"] by auto
  with assms[of j] str_find_SomeD[OF j(2)] show ?thesis by (cases "j = length a") auto
qed

lemma str_find_char_first: "c \<notin> set a \<Longrightarrow> str_find (a @ c # b) [c] = Some (length a)"
proof -
  assume c: "c \<notin> set a"
  have "take (length [c]) (drop j (a @ [c] @ b)) \<noteq> [c]" if "j < length a" for j
  proof -
    have "take (length [c]) (drop j (a @ [c] @ b)) = [a ! j]"
      using that by (simp add: take_Suc hd_drop_conv_nth nth_append)
    with c that show ?thesis by auto
  qed
  with str_find_first[of a "[c]" b] show ?thesis by simp
qed

lemma str_find_char_None: "str_find a [c] = None \<longleftrightarrow> c \<notin> set a"
  by (induction a) auto

text \<open>A needle whose first character does not occur before it.\<close>

lemma str_find_fresh: "c \<notin> set a \<Longrightarrow> str_find (a @ (c # n) @ b) (c # n) = Some (length a)"
proof -
  assume c: "c \<notin> set a"
  have "take (length (c # n)) (drop j (a @ (c # n) @ b)) \<noteq> c # n" if "j < length a" for j
  proof
    assume "take (length (c # n)) (drop j (a @ (c # n) @ b)) = c # n"
    then have "hd (drop j (a @ (c # n) @ b)) = c" by (metis hd_take length_greater_0_conv list.distinct(1) list.sel(1))
    then have "a ! j = c" using that by (simp add: hd_drop_conv_nth nth_append)
    with c that show False by auto
  qed
  then show ?thesis by (rule str_find_first)
qed

text \<open>Text before the first possible match can be skipped.\<close>

lemma str_find_skip:
  "(\<And>j. j < length a \<Longrightarrow> take (length n) (drop j (a @ b)) \<noteq> n) \<Longrightarrow>
     str_find (a @ b) n = map_option (\<lambda>i. length a + i) (str_find b n)"
proof (induction a)
  case (Cons c a)
  have "take (length n) (c # a @ b) \<noteq> n" using Cons.prems[of 0] by simp
  moreover have "str_find (a @ b) n = map_option (\<lambda>i. length a + i) (str_find b n)"
    using Cons.prems[of "Suc _"] by (intro Cons.IH) auto
  ultimately show ?case by (simp add: option.map_comp comp_def)
next
  case Nil
  show ?case by (cases "str_find b n") simp_all
qed

lemma take_drop_hd_neq: "j < length a \<Longrightarrow> a ! j \<noteq> hd n \<Longrightarrow> n \<noteq> [] \<Longrightarrow> take (length n) (drop j (a @ b)) \<noteq> n"
proof
  assume j: "j < length a" "a ! j \<noteq> hd n" "n \<noteq> []" and eq: "take (length n) (drop j (a @ b)) = n"
  have "hd (take (length n) (drop j (a @ b))) = a ! j"
    using j by (simp add: hd_take hd_drop_conv_nth nth_append)
  with eq j show False by simp
qed

section \<open>Lines\<close>

definition crlf :: string where "crlf = [CHR 0x0D, CHR 0x0A]"

text \<open>The first line break of a text whose first line has no carriage return.\<close>

lemma str_find_crlf: "CHR 0x0D \<notin> set l \<Longrightarrow> str_find (l @ crlf @ r) crlf = Some (length l)"
  using str_find_fresh[of "CHR 0x0D" l "[CHR 0x0A]" r] by (simp add: crlf_def)

definition line_ok :: "string \<Rightarrow> bool" where
  "line_ok l \<longleftrightarrow> l \<noteq> [] \<and> CHR 0x0D \<notin> set l"

definition unlines :: "string list \<Rightarrow> string" where
  "unlines ls = concat (map (\<lambda>l. l @ crlf) ls)"

lemma unlines_simps [simp]: "unlines [] = []" "unlines (l # ls) = l @ crlf @ unlines ls"
  by (simp_all add: unlines_def)

text \<open>The blank line that ends a block of lines is the first one.\<close>

lemma str_find_blank_line:
  "ls \<noteq> [] \<Longrightarrow> list_all line_ok ls \<Longrightarrow>
     str_find (unlines ls @ crlf @ body) (crlf @ crlf) = Some (length (unlines ls) - 2)"
proof (induction ls)
  case (Cons l ls)
  show ?case
  proof (cases ls)
    case Nil
    with Cons.prems str_find_fresh[of "CHR 0x0D" l "[CHR 0x0A, CHR 0x0D, CHR 0x0A]" body] show ?thesis
      by (simp add: line_ok_def crlf_def)
  next
    case (Cons l2 ls2)
    let ?r = "unlines ls @ crlf @ body"
    have ok: "line_ok l" "line_ok l2" using Cons.prems Cons by simp_all
    obtain c cs where l2: "l2 = c # cs" "c \<noteq> CHR 0x0D" using ok(2) by (cases l2) (auto simp: line_ok_def)
    have skip: "take (length (crlf @ crlf)) (drop j ((l @ crlf) @ ?r)) \<noteq> crlf @ crlf" if j: "j < length (l @ crlf)" for j
    proof -
      consider "j < length l" | "j = length l" | "j = length l + 1" using j by (fastforce simp: crlf_def)
      then show ?thesis
      proof cases
        case 1
        then have "(l @ crlf) ! j \<noteq> CHR 0x0D" using ok(1) by (auto simp: nth_append line_ok_def in_set_conv_nth)
        with take_drop_hd_neq[OF j, of "crlf @ crlf" ?r] show ?thesis by (simp add: crlf_def)
      next
        case 2
        with l2 show ?thesis by (simp add: Cons crlf_def)
      next
        case 3
        then show ?thesis by (simp add: crlf_def)
      qed
    qed
    have "str_find ?r (crlf @ crlf) = Some (length (unlines ls) - 2)"
      using Cons.IH Cons.prems Cons by simp
    with str_find_skip[of "l @ crlf" "crlf @ crlf" ?r, OF skip] show ?thesis
      by (simp add: Cons crlf_def)
  qed
qed simp

lemma drop_blank_line: "ls \<noteq> [] \<Longrightarrow> drop (length (unlines ls) - 2 + 4) (unlines ls @ crlf @ body) = body"
proof -
  assume "ls \<noteq> []"
  then have "2 \<le> length (unlines ls)" by (cases ls) (simp_all add: crlf_def)
  then have "length (unlines ls) - 2 + 4 = length (unlines ls) + 2" by simp
  then show ?thesis by (simp add: crlf_def)
qed

section \<open>Characters\<close>

definition is_digit :: "char \<Rightarrow> bool" where
  "is_digit c \<longleftrightarrow> 48 \<le> (of_char c :: nat) \<and> (of_char c :: nat) \<le> 57"

definition is_space :: "char \<Rightarrow> bool" where
  "is_space c \<longleftrightarrow> (of_char c :: nat) = 32 \<or> (9 \<le> (of_char c :: nat) \<and> (of_char c :: nat) \<le> 13)"

definition is_alnum :: "char \<Rightarrow> bool" where
  "is_alnum c \<longleftrightarrow> (let n = (of_char c :: nat)
     in (48 \<le> n \<and> n \<le> 57) \<or> (65 \<le> n \<and> n \<le> 90) \<or> (97 \<le> n \<and> n \<le> 122))"

definition is_xdigit :: "char \<Rightarrow> bool" where
  "is_xdigit c \<longleftrightarrow> (let n = (of_char c :: nat)
     in (48 \<le> n \<and> n \<le> 57) \<or> (65 \<le> n \<and> n \<le> 70) \<or> (97 \<le> n \<and> n \<le> 102))"

definition to_lower :: "char \<Rightarrow> char" where
  "to_lower c = (let n = (of_char c :: nat) in if 65 \<le> n \<and> n \<le> 90 then char_of (n + 32) else c)"

section \<open>Numbers\<close>

fun digits_val :: "int \<Rightarrow> string \<Rightarrow> int" where
  "digits_val acc [] = acc"
| "digits_val acc (c # cs) = digits_val (acc * 10 + (of_char c - 48)) cs"

text \<open>\<^verbatim>\<open>std::stoi\<close> in base 10: leading white space and a sign are accepted, trailing text is ignored.\<close>

definition stoi :: "string \<Rightarrow> cpp_exn + int" where
  "stoi s =
     (let t = dropWhile is_space s;
          neg = (t \<noteq> [] \<and> hd t = CHR ''-'');
          u = (if t \<noteq> [] \<and> hd t \<in> {CHR ''-'', CHR ''+''} then tl t else t);
          ds = takeWhile is_digit u;
          v = (if neg then - digits_val 0 ds else digits_val 0 ds)
      in if ds = [] then Inl InvalidArgument
         else if v < - (2 ^ 31) \<or> 2 ^ 31 \<le> v then Inl OutOfRange
         else Inr v)"

text \<open>\<^verbatim>\<open>std::to_string\<close> of a non-negative number, and stream output of one.\<close>

definition digit_char :: "nat \<Rightarrow> char" where
  "digit_char d = char_of (48 + d)"

fun dec_string :: "nat \<Rightarrow> string" where
  "dec_string n = (if n < 10 then [digit_char n] else dec_string (n div 10) @ [digit_char (n mod 10)])"

declare dec_string.simps [simp del]

lemma of_char_digit_char: "d < 10 \<Longrightarrow> (of_char (digit_char d) :: nat) = 48 + d"
  by (simp add: digit_char_def)

lemma is_digit_digit_char: "d < 10 \<Longrightarrow> is_digit (digit_char d)"
  by (simp add: is_digit_def of_char_digit_char)

lemma digits_val_append: "digits_val acc (xs @ ys) = digits_val (digits_val acc xs) ys"
  by (induction xs arbitrary: acc) simp_all

lemma of_char_digit_int: "d < 10 \<Longrightarrow> (of_char (digit_char d) :: int) = 48 + int d"
proof -
  assume "d < 10"
  have "(of_char (digit_char d) :: int) = int (of_char (digit_char d))" by (simp only: of_nat_of_char)
  with \<open>d < 10\<close> show ?thesis by (simp add: of_char_digit_char del: of_nat_of_char)
qed

lemma dec_string_digits: "\<forall>c \<in> set (dec_string n). is_digit c"
  by (induction n rule: dec_string.induct) (subst dec_string.simps, auto simp: is_digit_digit_char)

lemma dec_string_val: "digits_val 0 (dec_string n) = int n"
proof (induction n rule: dec_string.induct)
  case (1 n)
  show ?case
  proof (cases "n < 10")
    case True
    then show ?thesis by (subst dec_string.simps) (simp add: of_char_digit_int)
  next
    case False
    have "int (n div 10) * 10 + int (n mod 10) = int n" by (metis div_mult_mod_eq of_nat_add of_nat_mult of_nat_numeral)
    moreover have "digits_val 0 (dec_string (n div 10)) = int (n div 10)" using 1 False by blast
    moreover have "dec_string n = dec_string (n div 10) @ [digit_char (n mod 10)]"
      using False dec_string.simps[of n] by simp
    moreover have "(of_char (digit_char (n mod 10)) :: int) - 48 = int (n mod 10)"
      by (simp add: of_char_digit_int)
    ultimately show ?thesis
      by (simp only: digits_val_append digits_val.simps)
  qed
qed

lemma dec_string_inj: "dec_string m = dec_string n \<Longrightarrow> m = n"
  by (metis dec_string_val of_nat_eq_iff)

lemma dec_string_nonempty [simp]: "dec_string n \<noteq> []"
  by (subst dec_string.simps) simp

text \<open>Reading back a printed number, whatever non-digit follows.\<close>

lemma stoi_dec_string:
  assumes "int n < 2 ^ 31" and "r = [] \<or> \<not> is_digit (hd r)"
  shows "stoi (dec_string n @ r) = Inr (int n)"
proof -
  obtain c cs where d: "dec_string n = c # cs" by (cases "dec_string n") auto
  then have c: "is_digit c" using dec_string_digits[of n] by auto
  then have "\<not> is_space c" "c \<noteq> CHR ''-''" "c \<noteq> CHR ''+''"
    by (auto simp: is_digit_def is_space_def)
  moreover have "takeWhile is_digit (dec_string n @ r) = dec_string n"
    using dec_string_digits[of n] assms(2) by (subst takeWhile_append2) (auto simp: takeWhile_eq_Nil_iff)
  ultimately show ?thesis
    using dec_string_val[of n] assms(1) by (simp add: stoi_def Let_def d)
qed

text \<open>
  \<^verbatim>\<open>std::stoul\<close> as \<^verbatim>\<open>strtoul\<close> reads it: white space, a sign, digits; a minus sign negates modulo
  \<open>2\<^sup>6\<^sup>4\<close>, and only a magnitude of more than 64 bits is out of range.
\<close>

definition num_sign :: "string \<Rightarrow> bool \<times> string" where
  "num_sign s =
     (let t = dropWhile is_space s
      in (t \<noteq> [] \<and> hd t = CHR ''-'', if t \<noteq> [] \<and> hd t \<in> {CHR ''-'', CHR ''+''} then tl t else t))"

definition stoul :: "string \<Rightarrow> cpp_exn + u64" where
  "stoul s =
     (let (neg, u) = num_sign s; ds = takeWhile is_digit u; v = nat (digits_val 0 ds)
      in if ds = [] then Inl InvalidArgument
         else if 2 ^ 64 \<le> v then Inl OutOfRange
         else Inr (if neg then - of_nat v else of_nat v))"

text \<open>Base 16: an optional \<^verbatim>\<open>0x\<close> that is followed by a digit is skipped.\<close>

definition xdigit_val :: "char \<Rightarrow> nat" where
  "xdigit_val c =
     (let n = (of_char c :: nat) in if n \<le> 57 then n - 48 else if n \<le> 70 then n - 55 else n - 87)"

fun hex_val :: "nat \<Rightarrow> string \<Rightarrow> nat" where
  "hex_val acc [] = acc"
| "hex_val acc (c # cs) = hex_val (acc * 16 + xdigit_val c) cs"

definition hex_digits :: "string \<Rightarrow> string" where
  "hex_digits u =
     takeWhile is_xdigit
       (if 3 \<le> length u \<and> u ! 0 = CHR ''0'' \<and> u ! 1 \<in> {CHR ''x'', CHR ''X''} \<and> is_xdigit (u ! 2)
        then drop 2 u else u)"

definition stoul_hex :: "string \<Rightarrow> cpp_exn + u64" where
  "stoul_hex s =
     (let (neg, u) = num_sign s; ds = hex_digits u; v = hex_val 0 ds
      in if ds = [] then Inl InvalidArgument
         else if 2 ^ 64 \<le> v then Inl OutOfRange
         else Inr (if neg then - of_nat v else of_nat v))"

definition stoi_hex :: "string \<Rightarrow> cpp_exn + int" where
  "stoi_hex s =
     (let (neg, u) = num_sign s; ds = hex_digits u;
          v = (if neg then - int (hex_val 0 ds) else int (hex_val 0 ds))
      in if ds = [] then Inl InvalidArgument
         else if v < - (2 ^ 31) \<or> 2 ^ 31 \<le> v then Inl OutOfRange
         else Inr v)"

lemma num_sign_digits: "is_digit c \<Longrightarrow> num_sign (c # cs) = (False, c # cs)"
  by (auto simp: num_sign_def is_digit_def is_space_def Let_def)

text \<open>A printed length is read back.\<close>

lemma stoul_dec_string:
  assumes "n < 2 ^ 64"
  shows "stoul (dec_string n) = Inr (of_nat n)"
proof -
  obtain c cs where d: "dec_string n = c # cs" by (cases "dec_string n") auto
  then have "is_digit c" using dec_string_digits[of n] by auto
  then have "num_sign (dec_string n) = (False, dec_string n)" by (simp add: d num_sign_digits)
  moreover have "takeWhile is_digit (dec_string n) = dec_string n"
    using dec_string_digits[of n] by (simp add: takeWhile_eq_all_conv)
  ultimately show ?thesis using assms by (simp add: stoul_def Let_def dec_string_val del: takeWhile_eq_all_conv)
qed

section \<open>Reading lines from a stream\<close>

text \<open>
  The strings that repeated calls of \<^verbatim>\<open>std::getline(stream, line, delim)\<close> deliver: a text that ends
  with the delimiter has no empty last line.
\<close>

function getline_split :: "char \<Rightarrow> string \<Rightarrow> string list" where
  "getline_split d [] = []"
| "getline_split d (c # cs) =
     takeWhile (\<lambda>x. x \<noteq> d) (c # cs) # getline_split d (tl (dropWhile (\<lambda>x. x \<noteq> d) (c # cs)))"
  by pat_completeness auto
termination
proof (relation "measure (\<lambda>(d, s). length s)", simp)
  fix d c :: char and cs
  have "length (dropWhile (\<lambda>x. x \<noteq> d) (c # cs)) \<le> length (c # cs)" by (rule length_dropWhile_le)
  then show "((d, tl (dropWhile (\<lambda>x. x \<noteq> d) (c # cs))), d, c # cs) \<in> measure (\<lambda>(d, s). length s)"
    by (cases "dropWhile (\<lambda>x. x \<noteq> d) (c # cs)") simp_all
qed

lemma getline_split_step:
  assumes "d \<notin> set l"
  shows "getline_split d (l @ d # r) = l # getline_split d r"
proof -
  have a: "\<forall>x \<in> set l. x \<noteq> d" using assms by auto
  obtain c cs where e: "l @ d # r = c # cs" by (cases l) auto
  have "takeWhile (\<lambda>x. x \<noteq> d) (l @ d # r) = l" "dropWhile (\<lambda>x. x \<noteq> d) (l @ d # r) = d # r"
    using a by (simp_all add: takeWhile_stop dropWhile_stop)
  then show ?thesis using getline_split.simps(2)[of d c cs] by (simp add: e)
qed

lemma getline_split_last: "d \<notin> set l \<Longrightarrow> l \<noteq> [] \<Longrightarrow> getline_split d l = [l]"
proof -
  assume a: "d \<notin> set l" "l \<noteq> []"
  then have "\<forall>x \<in> set l. x \<noteq> d" by auto
  then have "takeWhile (\<lambda>x. x \<noteq> d) l = l" "dropWhile (\<lambda>x. x \<noteq> d) l = []"
    by (auto simp: takeWhile_eq_all_conv)
  with a(2) show ?thesis by (cases l) simp_all
qed

text \<open>The lines of a block of lines that end in CR LF keep their carriage return.\<close>

lemma getline_split_unlines:
  "\<forall>l \<in> set ls. CHR 0x0A \<notin> set l \<Longrightarrow>
     getline_split (CHR 0x0A) (unlines ls @ r) =
       map (\<lambda>l. l @ [CHR 0x0D]) ls @ getline_split (CHR 0x0A) r"
proof (induction ls)
  case (Cons l ls)
  have "getline_split (CHR 0x0A) (unlines (l # ls) @ r)
      = getline_split (CHR 0x0A) ((l @ [CHR 0x0D]) @ CHR 0x0A # unlines ls @ r)"
    by (simp add: crlf_def)
  also have "\<dots> = (l @ [CHR 0x0D]) # getline_split (CHR 0x0A) (unlines ls @ r)"
    using Cons.prems by (intro getline_split_step) auto
  finally show ?case using Cons by simp
qed simp

end
