(* ===== verification/Asterisk_Stream.thy ===== *)
theory Asterisk_Stream
  imports Sip_Frame_Demux Ws_Frame Cpp_String
begin

text \<open>
  The local sockets to Asterisk, \<^verbatim>\<open>AsteriskStream\<close> and \<^verbatim>\<open>AsteriskWsFactory\<close>
  (\<^verbatim>\<open>pbx-agent/src/main/asterisk_ws_factory.cpp\<close>).  A stream is owned by the reactor, the demux
  holds an adapter with a back pointer, and each side can release the other while a call is in
  progress; the objects therefore live in an explicit store \<^verbatim>\<open>as_heap\<close> next to the demux.

  The adapter of a stream is identified with the stream: \<^verbatim>\<open>as_attached\<close> says that \<^verbatim>\<open>m_adapter\<close> is
  set and the adapter points back (both pointers are dropped together, or the adapter is destroyed at
  once).  \<^verbatim>\<open>as_deleted\<close> records \<^verbatim>\<open>delete this\<close>.

  Environment: \<^verbatim>\<open>as_connects\<close> are the outcomes of \<^verbatim>\<open>connect_and_handshake\<close> together with the
  registration at the reactor, \<^verbatim>\<open>as_sends\<close> the outcomes of \<^verbatim>\<open>send_n\<close> per socket, \<^verbatim>\<open>as_keys\<close> the
  masking keys drawn.  An exhausted list stands for success (and key 0).
\<close>

record asterisk_stream =
  as_stream_id :: u32
  as_handle :: bool
  as_attached :: bool
  as_recv_buf :: "u8 list"
  as_eof_notified :: bool
  as_deleted :: bool
  as_sends :: "bool list"
  as_written :: "u8 list list"

record agent_streams = demux +
  as_heap :: "stream_ref \<Rightarrow> asterisk_stream"
  as_next :: stream_ref
  as_connects :: "bool list"
  as_keys :: "u32 list"

type_synonym 's tunnel_send = "Op \<Rightarrow> u32 \<Rightarrow> string \<Rightarrow> 's \<Rightarrow> 's"

section \<open>The store\<close>

definition as_upd ::
  "stream_ref \<Rightarrow> (asterisk_stream \<Rightarrow> asterisk_stream) \<Rightarrow> 'a agent_streams_scheme \<Rightarrow> 'a agent_streams_scheme" where
  "as_upd a g s = s\<lparr>as_heap := (as_heap s)(a := g (as_heap s a))\<rparr>"

definition as_send_n ::
  "stream_ref \<Rightarrow> u8 list \<Rightarrow> 'a agent_streams_scheme \<Rightarrow> bool \<times> 'a agent_streams_scheme" where
  "as_send_n a bytes s =
     (case as_sends (as_heap s a) of
        [] \<Rightarrow> (True, as_upd a (\<lambda>w. w\<lparr>as_written := as_written w @ [bytes]\<rparr>) s)
      | ok # oks \<Rightarrow> (ok, as_upd a (\<lambda>w. w\<lparr>as_written := as_written w @ [bytes], as_sends := oks\<rparr>) s))"

definition as_draw_key :: "'a agent_streams_scheme \<Rightarrow> u32 \<times> 'a agent_streams_scheme" where
  "as_draw_key s = (case as_keys s of [] \<Rightarrow> (0, s) | k # ks \<Rightarrow> (k, s\<lparr>as_keys := ks\<rparr>))"

section \<open>AsteriskStream\<close>

definition as_notify_eof_once ::
  "'a agent_streams_scheme tunnel_send \<Rightarrow> stream_ref \<Rightarrow> string
    \<Rightarrow> 'a agent_streams_scheme \<Rightarrow> 'a agent_streams_scheme" where
  "as_notify_eof_once send a reason s =
     (if as_eof_notified (as_heap s a) then s
      else on_asterisk_eof send (as_stream_id (as_heap s a)) reason
             (as_upd a (\<lambda>w. w\<lparr>as_eof_notified := True, as_attached := False\<rparr>) s))"

definition as_write_bytes ::
  "'a agent_streams_scheme tunnel_send \<Rightarrow> stream_ref \<Rightarrow> string
    \<Rightarrow> 'a agent_streams_scheme \<Rightarrow> bool \<times> 'a agent_streams_scheme" where
  "as_write_bytes send a bytes s =
     (if \<not> as_handle (as_heap s a) then (False, s)
      else let (k, s1) = as_draw_key s
           in case as_send_n a (ws_encode (string_to_bytes bytes) 0x1 True 0 k) s1 of
                (True, s2) \<Rightarrow> (True, s2)
              | (False, s2) \<Rightarrow> (False, as_notify_eof_once send a ''asterisk_write_failed'' s2))"

definition as_close_socket ::
  "stream_ref \<Rightarrow> string \<Rightarrow> 'a agent_streams_scheme \<Rightarrow> 'a agent_streams_scheme" where
  "as_close_socket a reason s =
     (let s1 = as_upd a (\<lambda>w. w\<lparr>as_attached := False\<rparr>) s;
          s2 = (if as_handle (as_heap s1 a)
                then as_upd a (\<lambda>w. w\<lparr>as_handle := False\<rparr>) (snd (as_send_n a close_frame s1)) else s1)
      in as_upd a (\<lambda>w. w\<lparr>as_eof_notified := True\<rparr>) s2)"

text \<open>\<^verbatim>\<open>DemuxAdapter\<close>.\<close>

definition adapter_send_bytes ::
  "'a agent_streams_scheme tunnel_send \<Rightarrow> stream_ref \<Rightarrow> string
    \<Rightarrow> 'a agent_streams_scheme \<Rightarrow> bool \<times> 'a agent_streams_scheme" where
  "adapter_send_bytes send a b s =
     (if as_attached (as_heap s a) then as_write_bytes send a b s else (False, s))"

definition adapter_close ::
  "stream_ref \<Rightarrow> string \<Rightarrow> 'a agent_streams_scheme \<Rightarrow> 'a agent_streams_scheme" where
  "adapter_close a reason s = (if as_attached (as_heap s a) then as_close_socket a reason s else s)"

definition as_frame ::
  "'a agent_streams_scheme tunnel_send \<Rightarrow> stream_ref \<Rightarrow> ws_frame
    \<Rightarrow> 'a agent_streams_scheme \<Rightarrow> bool \<times> 'a agent_streams_scheme" where
  "as_frame send a f s =
     (if ws_opcode f \<in> {0x2, 0x1, 0x0}
      then let s1 = on_asterisk_data send (as_stream_id (as_heap s a)) (bytes_to_string (ws_payload f)) s
           in (as_attached (as_heap s1 a), s1)
      else if ws_opcode f = 0x9
      then let (k, s1) = as_draw_key s
           in (True, snd (as_send_n a (ws_encode (ws_payload f) 0xA True 0 k) s1))
      else if ws_opcode f = 0xA then (True, s)
      else if ws_opcode f = 0x8
      then (False, as_notify_eof_once send a ''asterisk_closed'' (snd (as_send_n a close_frame s)))
      else (False, as_notify_eof_once send a ''ws_protocol_error'' s))"

definition as_get_buf :: "stream_ref \<Rightarrow> 'a agent_streams_scheme \<Rightarrow> u8 list" where
  "as_get_buf a s = as_recv_buf (as_heap s a)"

definition as_put_buf :: "stream_ref \<Rightarrow> u8 list \<Rightarrow> 'a agent_streams_scheme \<Rightarrow> 'a agent_streams_scheme" where
  "as_put_buf a b s = as_upd a (\<lambda>w. w\<lparr>as_recv_buf := b\<rparr>) s"

definition as_drain_frames ::
  "'a agent_streams_scheme tunnel_send \<Rightarrow> stream_ref
    \<Rightarrow> 'a agent_streams_scheme \<Rightarrow> (drain_exit \<times> 'a agent_streams_scheme) option" where
  "as_drain_frames send a = ws_drain (as_get_buf a) (as_put_buf a) (as_frame send a)"

definition as_handle_input ::
  "'a agent_streams_scheme tunnel_send \<Rightarrow> stream_ref \<Rightarrow> u8 list
    \<Rightarrow> 'a agent_streams_scheme \<Rightarrow> (drain_exit \<times> 'a agent_streams_scheme) option" where
  "as_handle_input send a chunk s =
     (if chunk = [] then Some (DrainStop, as_notify_eof_once send a ''peer_closed'' s)
      else as_drain_frames send a (as_put_buf a (as_get_buf a s @ chunk) s))"

definition as_handle_close ::
  "'a agent_streams_scheme tunnel_send \<Rightarrow> stream_ref \<Rightarrow> 'a agent_streams_scheme \<Rightarrow> 'a agent_streams_scheme" where
  "as_handle_close send a s =
     as_upd a (\<lambda>w. w\<lparr>as_handle := False, as_attached := False, as_deleted := True\<rparr>)
       (as_notify_eof_once send a ''handle_close'' s)"

section \<open>AsteriskWsFactory\<close>

definition new_asterisk_stream :: "u32 \<Rightarrow> asterisk_stream" where
  "new_asterisk_stream sid =
     \<lparr>as_stream_id = sid, as_handle = True, as_attached = True, as_recv_buf = [],
      as_eof_notified = False, as_deleted = False, as_sends = [], as_written = []\<rparr>"

text \<open>
  A stream object is fresh: its reference is new.  How its socket will answer is up to the
  environment, so the store holds the outcomes for references not yet handed out.
\<close>

definition factory_open ::
  "u32 \<Rightarrow> string \<Rightarrow> 'a agent_streams_scheme \<Rightarrow> stream_ref option \<times> 'a agent_streams_scheme" where
  "factory_open stream_id meta s =
     (let (ok, rest) = (case as_connects s of [] \<Rightarrow> (True, []) | ok # oks \<Rightarrow> (ok, oks));
          s1 = s\<lparr>as_connects := rest\<rparr>;
          a = as_next s1
      in if \<not> ok then (None, s1)
         else (Some a,
               as_upd a (\<lambda>w. (new_asterisk_stream stream_id)\<lparr>as_sends := as_sends w\<rparr>)
                 (s1\<lparr>as_next := a + 1\<rparr>)))"

section \<open>Upgrade handshake\<close>

definition build_upgrade_request :: "string \<Rightarrow> string \<Rightarrow> string \<Rightarrow> string" where
  "build_upgrade_request host path key =
     ''GET '' @ path @ '' HTTP/1.1'' @ [CHR 0x0D, CHR 0x0A] @
     ''Host: '' @ host @ [CHR 0x0D, CHR 0x0A] @
     ''Upgrade: websocket'' @ [CHR 0x0D, CHR 0x0A] @
     ''Connection: Upgrade'' @ [CHR 0x0D, CHR 0x0A] @
     ''Sec-WebSocket-Key: '' @ key @ [CHR 0x0D, CHR 0x0A] @
     ''Sec-WebSocket-Version: 13'' @ [CHR 0x0D, CHR 0x0A] @
     ''Sec-WebSocket-Protocol: sip'' @ [CHR 0x0D, CHR 0x0A] @
     [CHR 0x0D, CHR 0x0A]"

definition validate_upgrade_response :: "(string \<Rightarrow> string) \<Rightarrow> string \<Rightarrow> string \<Rightarrow> bool" where
  "validate_upgrade_response sha1_base64 headers key =
     (if take 9 headers \<noteq> ''HTTP/1.1 '' \<and> take 9 headers \<noteq> ''HTTP/1.0 '' then False
      else if \<not> str_contains headers '' 101 '' \<and> take 4 (drop 9 headers) \<noteq> ''101 '' then False
      else str_contains headers (accept_key sha1_base64 key))"

section \<open>Facts about the store\<close>

lemma as_upd_fields [simp]:
  "as_heap (as_upd a g s) = (as_heap s)(a := g (as_heap s a))"
  "dm_streams (as_upd a g s) = dm_streams s" "dm_tunnel (as_upd a g s) = dm_tunnel s"
  "dm_recv_buffer (as_upd a g s) = dm_recv_buffer s"
  "as_next (as_upd a g s) = as_next s" "as_keys (as_upd a g s) = as_keys s"
  by (simp_all add: as_upd_def)

lemma as_upd_as_upd [simp]: "as_upd a g (as_upd a h s) = as_upd a (\<lambda>w. g (h w)) s"
  by (simp add: as_upd_def)

lemma as_buf_laws [simp]:
  "as_get_buf a (as_put_buf a b s) = b" "as_put_buf a b (as_put_buf a c s) = as_put_buf a b s"
  "as_put_buf a (as_get_buf a s) s = s"
  by (simp_all add: as_get_buf_def as_put_buf_def as_upd_def)

section \<open>The tunnel under the streams\<close>

text \<open>A call that neither touches nor looks at the demux and the streams.\<close>

definition outside :: "('a agent_streams_scheme \<Rightarrow> 'a agent_streams_scheme) \<Rightarrow> bool" where
  "outside g \<longleftrightarrow> (\<forall>s. agent_streams.truncate (g s) = agent_streams.truncate s) \<and>
     (\<forall>s t. agent_streams.more s = agent_streams.more t \<longrightarrow> agent_streams.more (g s) = agent_streams.more (g t))"

lemma outside_id [simp]: "outside (\<lambda>s. s)"
  by (simp add: outside_def)

lemma outside_comp: "outside g \<Longrightarrow> outside h \<Longrightarrow> outside (\<lambda>s. g (h s))"
  unfolding outside_def by (metis (no_types, lifting))

lemma outside_fields:
  assumes "outside g"
  shows "dm_tunnel (g s) = dm_tunnel s" "dm_streams (g s) = dm_streams s"
    "dm_recv_buffer (g s) = dm_recv_buffer s" "as_heap (g s) = as_heap s" "as_next (g s) = as_next s"
    "as_connects (g s) = as_connects s" "as_keys (g s) = as_keys s"
proof -
  have "agent_streams.truncate (g s) = agent_streams.truncate s" using assms by (simp add: outside_def)
  then show "dm_tunnel (g s) = dm_tunnel s" "dm_streams (g s) = dm_streams s"
    "dm_recv_buffer (g s) = dm_recv_buffer s" "as_heap (g s) = as_heap s" "as_next (g s) = as_next s"
    "as_connects (g s) = as_connects s" "as_keys (g s) = as_keys s"
    by (simp_all add: agent_streams.truncate_def)
qed

lemma outside_commute:
  assumes "outside g"
  shows "g (as_upd a f s) = as_upd a f (g s)" "g (dm_put_buffer b s) = dm_put_buffer b (g s)"
    "g (s\<lparr>dm_streams := m\<rparr>) = (g s)\<lparr>dm_streams := m\<rparr>"
proof -
  have more: "agent_streams.more (g t) = agent_streams.more (g s)"
    if "agent_streams.more t = agent_streams.more s" for t
    using that assms unfolding outside_def by blast
  show "g (as_upd a f s) = as_upd a f (g s)" "g (dm_put_buffer b s) = dm_put_buffer b (g s)"
    "g (s\<lparr>dm_streams := m\<rparr>) = (g s)\<lparr>dm_streams := m\<rparr>"
    by (rule agent_streams.equality;
        simp add: as_upd_def dm_put_buffer_def outside_fields[OF assms]; rule more; simp)+
qed

text \<open>
  Sending a frame on the tunnel is such a call: a lost tunnel is only noted, and torn down later
  by the timer.
\<close>

locale quiet_tunnel =
  fixes send :: "'a agent_streams_scheme tunnel_send"
  assumes send_outside: "outside (send op sid p)"
begin

lemmas send_fields [simp] = outside_fields[OF send_outside]
lemmas send_commute [simp] = outside_commute[OF send_outside]

lemma tunnel_send_fields [simp]:
  "dm_tunnel (dm_tunnel_send send op sid p s) = dm_tunnel s"
  "dm_streams (dm_tunnel_send send op sid p s) = dm_streams s"
  "dm_recv_buffer (dm_tunnel_send send op sid p s) = dm_recv_buffer s"
  "as_heap (dm_tunnel_send send op sid p s) = as_heap s"
  "as_next (dm_tunnel_send send op sid p s) = as_next s"
  by (simp_all add: dm_tunnel_send_def)

lemma eof_fields [simp]:
  "dm_tunnel (on_asterisk_eof send sid r s) = dm_tunnel s"
  "dm_streams (on_asterisk_eof send sid r s) = um_erase sid (dm_streams s)"
  "dm_recv_buffer (on_asterisk_eof send sid r s) = dm_recv_buffer s"
  "as_heap (on_asterisk_eof send sid r s) = as_heap s"
  "as_next (on_asterisk_eof send sid r s) = as_next s"
  by (simp_all add: on_asterisk_eof_def)

lemma data_fields [simp]:
  "dm_streams (on_asterisk_data send sid r s) = dm_streams s"
  "as_heap (on_asterisk_data send sid r s) = as_heap s"
  "as_next (on_asterisk_data send sid r s) = as_next s"
  by (simp_all add: on_asterisk_data_def)

end

lemma as_send_n_fields [simp]:
  "dm_streams (snd (as_send_n a x s)) = dm_streams s" "dm_tunnel (snd (as_send_n a x s)) = dm_tunnel s"
  "dm_recv_buffer (snd (as_send_n a x s)) = dm_recv_buffer s"
  "as_next (snd (as_send_n a x s)) = as_next s"
  "c \<noteq> a \<Longrightarrow> as_heap (snd (as_send_n a x s)) c = as_heap s c"
  "as_stream_id (as_heap (snd (as_send_n a x s)) c) = as_stream_id (as_heap s c)"
  "as_handle (as_heap (snd (as_send_n a x s)) c) = as_handle (as_heap s c)"
  "as_attached (as_heap (snd (as_send_n a x s)) c) = as_attached (as_heap s c)"
  "as_eof_notified (as_heap (snd (as_send_n a x s)) c) = as_eof_notified (as_heap s c)"
  "as_deleted (as_heap (snd (as_send_n a x s)) c) = as_deleted (as_heap s c)"
  by (auto simp: as_send_n_def split: list.split)

lemma as_draw_key_fields [simp]:
  "dm_streams (snd (as_draw_key s)) = dm_streams s" "dm_tunnel (snd (as_draw_key s)) = dm_tunnel s"
  "as_heap (snd (as_draw_key s)) = as_heap s" "as_next (snd (as_draw_key s)) = as_next s"
  "dm_recv_buffer (snd (as_draw_key s)) = dm_recv_buffer s"
  by (simp_all add: as_draw_key_def split: list.split)

section \<open>Ownership\<close>

text \<open>
  The stream table and the adapters agree: every entry refers to a live, attached stream that has
  not reported its end, and every attached stream is in the table under its own id.  In
  particular an entry never refers to a deleted object, and no attached stream is leaked.
\<close>

definition streams_inv :: "'a agent_streams_scheme \<Rightarrow> bool" where
  "streams_inv s \<longleftrightarrow> um_distinct (dm_streams s) \<and>
     (\<forall>sid a. um_find (dm_streams s) sid = Some a \<longleftrightarrow>
        a < as_next s \<and> as_attached (as_heap s a) \<and> as_stream_id (as_heap s a) = sid) \<and>
     (\<forall>a < as_next s. (as_attached (as_heap s a) \<longleftrightarrow> \<not> as_eof_notified (as_heap s a)) \<and>
        (as_attached (as_heap s a) \<longrightarrow> \<not> as_deleted (as_heap s a)))"

lemma streams_invI:
  assumes "um_distinct (dm_streams s)"
    and "\<And>sid a. um_find (dm_streams s) sid = Some a \<longleftrightarrow>
        a < as_next s \<and> as_attached (as_heap s a) \<and> as_stream_id (as_heap s a) = sid"
    and "\<And>a. a < as_next s \<Longrightarrow> (as_attached (as_heap s a) \<longleftrightarrow> \<not> as_eof_notified (as_heap s a)) \<and>
        (as_attached (as_heap s a) \<longrightarrow> \<not> as_deleted (as_heap s a))"
  shows "streams_inv s"
  using assms unfolding streams_inv_def by blast

lemma streams_inv_find:
  "streams_inv s \<Longrightarrow> um_find (dm_streams s) sid = Some a \<longleftrightarrow>
     a < as_next s \<and> as_attached (as_heap s a) \<and> as_stream_id (as_heap s a) = sid"
  by (simp add: streams_inv_def)

lemma streams_inv_flags:
  "streams_inv s \<Longrightarrow> a < as_next s \<Longrightarrow> as_attached (as_heap s a) \<longleftrightarrow> \<not> as_eof_notified (as_heap s a)"
  "streams_inv s \<Longrightarrow> a < as_next s \<Longrightarrow> as_attached (as_heap s a) \<Longrightarrow> \<not> as_deleted (as_heap s a)"
  by (simp_all add: streams_inv_def)

text \<open>The part of a stream the invariant looks at.\<close>

definition as_view :: "asterisk_stream \<Rightarrow> u32 \<times> bool \<times> bool \<times> bool" where
  "as_view w = (as_stream_id w, as_attached w, as_eof_notified w, as_deleted w)"

lemma streams_inv_cong:
  assumes "streams_inv s" and "dm_streams t = dm_streams s" and "as_next t = as_next s"
    and "\<And>a. as_view (as_heap t a) = as_view (as_heap s a)"
  shows "streams_inv t"
  using assms by (simp add: streams_inv_def as_view_def)

text \<open>Detaching a stream and dropping its entry go together.\<close>

lemma streams_inv_detach:
  assumes inv: "streams_inv s" and tab: "dm_streams t = um_erase (as_stream_id (as_heap s a)) (dm_streams s)"
    and nxt: "as_next t = as_next s"
    and other: "\<And>c. c \<noteq> a \<Longrightarrow> as_view (as_heap t c) = as_view (as_heap s c)"
    and det: "\<not> as_attached (as_heap t a)" "as_eof_notified (as_heap t a)"
    and att: "as_attached (as_heap s a)" "a < as_next s"
  shows "streams_inv t"
proof (rule streams_invI)
  show "um_distinct (dm_streams t)" using inv by (simp add: tab streams_inv_def)
next
  fix sid c
  have find: "um_find (dm_streams s) (as_stream_id (as_heap s a)) = Some a"
    using att by (simp add: streams_inv_find[OF inv])
  have e: "(c < as_next s \<and> as_attached (as_heap s c) \<and> as_stream_id (as_heap s c) = sid) =
      (um_find (dm_streams s) sid = Some c)"
    by (simp add: streams_inv_find[OF inv])
  show "um_find (dm_streams t) sid = Some c \<longleftrightarrow>
      c < as_next t \<and> as_attached (as_heap t c) \<and> as_stream_id (as_heap t c) = sid"
  proof (cases "c = a")
    case True
    then show ?thesis
      using det(1) by (auto simp: tab streams_inv_find[OF inv])
  next
    case False
    from other[OF False] have "as_attached (as_heap t c) = as_attached (as_heap s c)"
      "as_stream_id (as_heap t c) = as_stream_id (as_heap s c)" by (simp_all add: as_view_def)
    then show ?thesis
      using find False by (simp add: tab nxt e)
  qed
next
  fix c assume "c < as_next t"
  then show "(as_attached (as_heap t c) \<longleftrightarrow> \<not> as_eof_notified (as_heap t c)) \<and>
      (as_attached (as_heap t c) \<longrightarrow> \<not> as_deleted (as_heap t c))"
    using det inv other[of c] by (cases "c = a") (auto simp: streams_inv_def nxt as_view_def)
qed

lemma as_send_n_view [simp]: "as_view (as_heap (snd (as_send_n a x s)) c) = as_view (as_heap s c)"
  by (simp add: as_view_def)

lemma streams_inv_send_n: "streams_inv s \<Longrightarrow> streams_inv (snd (as_send_n a x s))"
  by (erule streams_inv_cong) simp_all

lemma streams_inv_draw_key: "streams_inv s \<Longrightarrow> streams_inv (snd (as_draw_key s))"
  by (erule streams_inv_cong) simp_all

text \<open>The demux releases an entry: the adapter is closed, then the entry erased.\<close>

lemma close_socket_view:
  "as_view (as_heap (as_close_socket a r s) c) =
     (if c = a then (as_stream_id (as_heap s a), False, True, as_deleted (as_heap s a)) else as_view (as_heap s c))"
  by (auto simp: as_close_socket_def Let_def as_view_def)

lemma close_socket_fields [simp]:
  "dm_streams (as_close_socket a r s) = dm_streams s" "dm_tunnel (as_close_socket a r s) = dm_tunnel s"
  "as_next (as_close_socket a r s) = as_next s" "dm_recv_buffer (as_close_socket a r s) = dm_recv_buffer s"
  by (simp_all add: as_close_socket_def Let_def)

section \<open>The demux over the sockets\<close>

definition streams_env ::
  "'a agent_streams_scheme tunnel_send \<Rightarrow> (string \<Rightarrow> 'a agent_streams_scheme \<Rightarrow> 'a agent_streams_scheme) option
    \<Rightarrow> (string \<Rightarrow> 'a agent_streams_scheme \<Rightarrow> 'a agent_streams_scheme) option
    \<Rightarrow> 'a agent_streams_scheme demux_env" where
  "streams_env send revoked bootstrap =
     \<lparr>de_send = send, de_open = factory_open, de_send_bytes = adapter_send_bytes send,
      de_close = adapter_close, m_revoked_handler = revoked, m_society_bootstrap_handler = bootstrap\<rparr>"

lemma streams_env_fields [simp]:
  "de_send (streams_env send rv bt) = send" "de_open (streams_env send rv bt) = factory_open"
  "de_send_bytes (streams_env send rv bt) = adapter_send_bytes send"
  "de_close (streams_env send rv bt) = adapter_close"
  "m_revoked_handler (streams_env send rv bt) = rv"
  "m_society_bootstrap_handler (streams_env send rv bt) = bt"
  by (simp_all add: streams_env_def)

locale agent_side = quiet_tunnel send for send :: "'a agent_streams_scheme tunnel_send" +
  fixes revoked bootstrap :: "(string \<Rightarrow> 'a agent_streams_scheme \<Rightarrow> 'a agent_streams_scheme) option"
  assumes revoked_outside: "revoked = Some h \<Longrightarrow> outside (h p)"
    and bootstrap_outside: "bootstrap = Some h \<Longrightarrow> outside (h p)"
begin

abbreviation env where "env \<equiv> streams_env send revoked bootstrap"

end

lemma upd_put_commute: "dm_put_buffer b (as_upd a g s) = as_upd a g (dm_put_buffer b s)"
  by (simp add: dm_put_buffer_def as_upd_def)

lemma put_buffer_heap [simp]:
  "as_heap (dm_put_buffer b s) = as_heap s" "as_next (dm_put_buffer b s) = as_next s"
  "as_connects (dm_put_buffer b s) = as_connects s" "as_keys (dm_put_buffer b s) = as_keys s"
  by (simp_all add: dm_put_buffer_def)

lemma send_n_blind: "as_send_n a x (dm_put_buffer b s) = (fst (as_send_n a x s), dm_put_buffer b (snd (as_send_n a x s)))"
  by (simp add: as_send_n_def upd_put_commute split: list.split)

lemma draw_key_blind: "as_draw_key (dm_put_buffer b s) = (fst (as_draw_key s), dm_put_buffer b (snd (as_draw_key s)))"
  by (simp add: as_draw_key_def dm_put_buffer_def split: list.split)

lemma factory_open_blind: "buffer_blind2 (factory_open sid p)"
  by (simp add: buffer_blind2_def factory_open_def Let_def dm_put_buffer_def as_upd_def split: list.split)

lemma adapter_close_blind: "buffer_blind (adapter_close a r)"
  by (simp add: buffer_blind_def adapter_close_def as_close_socket_def Let_def send_n_blind
      flip: upd_put_commute)

lemma adapter_close_quiet: "table_quiet (adapter_close a r)"
  by (simp add: table_quiet_def adapter_close_def)

context agent_side
begin

lemma tunnel_send_blind: "dm_tunnel_send send op sid p (dm_put_buffer b s) = dm_put_buffer b (dm_tunnel_send send op sid p s)"
  by (simp add: dm_tunnel_send_def)

lemma eof_blind: "on_asterisk_eof send sid r (dm_put_buffer b s) = dm_put_buffer b (on_asterisk_eof send sid r s)"
  by (simp add: on_asterisk_eof_def dm_put_buffer_streams tunnel_send_blind)

lemma notify_blind: "as_notify_eof_once send a r (dm_put_buffer b s) = dm_put_buffer b (as_notify_eof_once send a r s)"
  by (simp add: as_notify_eof_once_def eof_blind flip: upd_put_commute)

lemma send_bytes_blind: "buffer_blind2 (adapter_send_bytes send a p)"
  by (simp add: buffer_blind2_def adapter_send_bytes_def as_write_bytes_def Let_def draw_key_blind
      send_n_blind notify_blind split: prod.split bool.split)

end

sublocale agent_side \<subseteq> dm: demux_callbacks env
proof
  show "table_quiet (de_send env op sid p)" for op sid p
    by (simp add: streams_env_def table_quiet_def)
qed (auto simp: streams_env_def buffer_blind_def factory_open_blind adapter_close_blind[unfolded buffer_blind_def]
    adapter_close_quiet send_bytes_blind
    outside_commute(2)[OF revoked_outside] outside_commute(2)[OF bootstrap_outside])

section \<open>Every operation keeps the ownership invariant\<close>

lemma streams_inv_next: "um_find (dm_streams s) sid = Some a \<Longrightarrow> streams_inv s \<Longrightarrow> a < as_next s"
  by (simp add: streams_inv_find)

lemma adapter_close_attached:
  "streams_inv s \<Longrightarrow> um_find (dm_streams s) sid = Some a \<Longrightarrow> adapter_close a r s = as_close_socket a r s"
  by (simp add: adapter_close_def streams_inv_find)

lemma factory_open_table:
  assumes "factory_open sid p s = (r, s1)"
  shows "dm_streams s1 = dm_streams s" and "dm_tunnel s1 = dm_tunnel s"
    and "r = None \<Longrightarrow> as_next s1 = as_next s \<and> as_heap s1 = as_heap s"
    and "r = Some a \<Longrightarrow> a = as_next s \<and> as_next s1 = Suc (as_next s) \<and>
      (\<forall>c. as_view (as_heap s1 c) = (if c = a then (sid, True, False, False) else as_view (as_heap s c)))"
  using assms
  by (auto simp: factory_open_def Let_def as_view_def new_asterisk_stream_def split: list.splits if_splits)

text \<open>Closing the adapters of a table closes exactly the attached streams it refers to.\<close>

fun closed_view :: "u32 \<times> bool \<times> bool \<times> bool \<Rightarrow> u32 \<times> bool \<times> bool \<times> bool" where
  "closed_view (sid, att, eof, del) = (if att then (sid, False, True, del) else (sid, att, eof, del))"

lemma closed_view_idem [simp]: "closed_view (closed_view v) = closed_view v"
  by (cases v) auto

lemma adapter_close_view:
  "as_view (as_heap (adapter_close a r s) c) =
     (if c = a then closed_view (as_view (as_heap s a)) else as_view (as_heap s c))"
  by (simp add: adapter_close_def close_socket_view) (simp add: as_view_def)

lemma adapters_closed:
  "as_view (as_heap (fold (\<lambda>(sid, a). adapter_close a r) es s) c) =
     (if c \<in> snd ` set es then closed_view (as_view (as_heap s c)) else as_view (as_heap s c))"
  "as_next (fold (\<lambda>(sid, a). adapter_close a r) es s) = as_next s"
proof (induction es arbitrary: s)
  case (Cons e es)
  {
    case 1
    show ?case using Cons.IH(1)[of "adapter_close (snd e) r s"]
      by (auto simp: adapter_close_view case_prod_beta)
  next
    case 2
    show ?case using Cons.IH(2)[of "adapter_close (snd e) r s"]
      by (simp add: case_prod_beta) (simp add: adapter_close_def)
  }
qed simp_all

context agent_side
begin

lemma notify_inv:
  assumes inv: "streams_inv s" and a: "a < as_next s"
  shows "streams_inv (as_notify_eof_once send a r s)"
proof (cases "as_eof_notified (as_heap s a)")
  case False
  then have att: "as_attached (as_heap s a)" using streams_inv_flags(1)[OF inv a] by simp
  show ?thesis
  proof (rule streams_inv_detach[OF inv, of _ a])
    show "as_view (as_heap (as_notify_eof_once send a r s) c) = as_view (as_heap s c)" if "c \<noteq> a" for c
      using that False by (simp add: as_notify_eof_once_def)
  qed (use False att a in \<open>simp_all add: as_notify_eof_once_def\<close>)
qed (simp add: as_notify_eof_once_def inv)

lemma notify_fields [simp]:
  "as_next (as_notify_eof_once send a r s) = as_next s"
  "dm_tunnel (as_notify_eof_once send a r s) = dm_tunnel s"
  by (simp_all add: as_notify_eof_once_def)

lemma write_bytes_inv:
  assumes "streams_inv s" and "a < as_next s"
  shows "streams_inv (snd (as_write_bytes send a p s))"
proof -
  let ?f = "ws_encode (string_to_bytes p) 0x1 True 0 (fst (as_draw_key s))"
  let ?s = "snd (as_send_n a ?f (snd (as_draw_key s)))"
  have "streams_inv ?s" "a < as_next ?s"
    using assms by (simp_all add: streams_inv_send_n streams_inv_draw_key)
  moreover have "snd (as_write_bytes send a p s) \<in>
      {s, ?s, as_notify_eof_once send a ''asterisk_write_failed'' ?s}"
    by (auto simp: as_write_bytes_def Let_def split: prod.split bool.split)
  ultimately show ?thesis using assms notify_inv by auto
qed

lemma close_stream_inv:
  assumes inv: "streams_inv s"
  shows "streams_inv (dm_close_stream env sid r s)"
proof (cases "um_find (dm_streams s) sid")
  case (Some a)
  then have a: "a < as_next s" "as_attached (as_heap s a)" "as_stream_id (as_heap s a) = sid"
    using streams_inv_find[OF inv] by auto
  have "dm_close_stream env sid r s = (as_close_socket a r s)\<lparr>dm_streams := um_erase sid (dm_streams s)\<rparr>"
    using Some by (simp add: dm_close_stream_def streams_env_def adapter_close_attached[OF inv Some])
  moreover have "streams_inv ((as_close_socket a r s)\<lparr>dm_streams := um_erase sid (dm_streams s)\<rparr>)"
  proof (rule streams_inv_detach[OF inv, of _ a])
    show "as_view (as_heap ((as_close_socket a r s)\<lparr>dm_streams := um_erase sid (dm_streams s)\<rparr>) c)
        = as_view (as_heap s c)" if "c \<noteq> a" for c
      using that close_socket_view[of a r s c] by simp
  qed (use a close_socket_view[of a r s a] in \<open>simp_all add: as_view_def\<close>)
  ultimately show ?thesis by simp
qed (simp add: dm_close_stream_def inv)

lemma open_inv:
  assumes inv: "streams_inv s" and free: "um_find (dm_streams s) sid = None"
    and op: "factory_open sid p s = (Some a, s1)"
  shows "streams_inv (s1\<lparr>dm_streams := um_emplace sid a (dm_streams s1)\<rparr>)"
proof -
  from factory_open_table(1)[OF op] factory_open_table(4)[OF op, of a]
  have tab: "dm_streams s1 = dm_streams s" and a: "a = as_next s" and n: "as_next s1 = Suc a"
    and view: "\<And>c. as_view (as_heap s1 c) = (if c = a then (sid, True, False, False) else as_view (as_heap s c))"
    by auto
  have new: "as_attached (as_heap s1 a)" "as_stream_id (as_heap s1 a) = sid"
    "\<not> as_eof_notified (as_heap s1 a)" "\<not> as_deleted (as_heap s1 a)"
    using view[of a] by (simp_all add: as_view_def)
  have old: "as_attached (as_heap s1 c) = as_attached (as_heap s c)"
    "as_stream_id (as_heap s1 c) = as_stream_id (as_heap s c)"
    "as_eof_notified (as_heap s1 c) = as_eof_notified (as_heap s c)"
    "as_deleted (as_heap s1 c) = as_deleted (as_heap s c)" if "c \<noteq> a" for c
    using view[of c] that by (simp_all add: as_view_def)
  have ne: "as_stream_id (as_heap s c) \<noteq> sid" if "c < a" "as_attached (as_heap s c)" for c
    using that free streams_inv_find[OF inv, of sid c] a by auto
  show ?thesis
  proof (rule streams_invI)
    fix sid' c
    show "um_find (dm_streams (s1\<lparr>dm_streams := um_emplace sid a (dm_streams s1)\<rparr>)) sid' = Some c \<longleftrightarrow>
        c < as_next (s1\<lparr>dm_streams := um_emplace sid a (dm_streams s1)\<rparr>) \<and>
        as_attached (as_heap (s1\<lparr>dm_streams := um_emplace sid a (dm_streams s1)\<rparr>) c) \<and>
        as_stream_id (as_heap (s1\<lparr>dm_streams := um_emplace sid a (dm_streams s1)\<rparr>) c) = sid'"
      using free new ne[of c] old[of c]
      by (cases "c = a") (auto simp: tab n streams_inv_find[OF inv] a)
  next
    fix c assume "c < as_next (s1\<lparr>dm_streams := um_emplace sid a (dm_streams s1)\<rparr>)"
    then show "(as_attached (as_heap (s1\<lparr>dm_streams := um_emplace sid a (dm_streams s1)\<rparr>) c) \<longleftrightarrow>
          \<not> as_eof_notified (as_heap (s1\<lparr>dm_streams := um_emplace sid a (dm_streams s1)\<rparr>) c)) \<and>
        (as_attached (as_heap (s1\<lparr>dm_streams := um_emplace sid a (dm_streams s1)\<rparr>) c) \<longrightarrow>
          \<not> as_deleted (as_heap (s1\<lparr>dm_streams := um_emplace sid a (dm_streams s1)\<rparr>) c))"
      using new old[of c] inv a n by (cases "c = a") (auto simp: streams_inv_def)
  qed (use inv in \<open>simp add: tab streams_inv_def\<close>)
qed

lemma dispatch_inv: "streams_inv s \<Longrightarrow> streams_inv (dm_dispatch_frame env f s)"
proof -
  assume inv: "streams_inv s"
  let ?sid = "frame_stream_id f" and ?p = "frame_payload f"
  have quiet: "streams_inv (g s)" if "outside g" for g
    by (rule streams_inv_cong[OF inv]) (simp_all add: outside_fields[OF that])
  have send: "streams_inv (dm_tunnel_send send op sid p t)" if "streams_inv t" for op sid p t
    by (rule streams_inv_cong[OF that]) simp_all
  have hs: "streams_inv (dm_call_handler revoked p s)" "streams_inv (dm_call_handler bootstrap p s)" for p
    using quiet revoked_outside bootstrap_outside inv by (auto simp: dm_call_handler_def split: option.split)
  have op: "streams_inv (case factory_open ?sid ?p s of
        (None, s1) \<Rightarrow> dm_tunnel_send send CLOSE ?sid ''asterisk_unreachable'' s1
      | (Some a, s1) \<Rightarrow> s1\<lparr>dm_streams := um_emplace ?sid a (dm_streams s1)\<rparr>)"
    if free: "um_find (dm_streams s) ?sid = None"
  proof (cases "factory_open ?sid ?p s")
    case (Pair r s1)
    show ?thesis
    proof (cases r)
      case None
      have "streams_inv s1"
        using factory_open_table(1,3)[OF Pair] None by (intro streams_inv_cong[OF inv]) auto
      with Pair None show ?thesis by (simp add: send)
    next
      case (Some a)
      with Pair open_inv[OF inv free, of ?p a s1] show ?thesis by simp
    qed
  qed
  have data: "streams_inv (case adapter_send_bytes send a ?p s of
        (True, s1) \<Rightarrow> s1 | (False, s1) \<Rightarrow> dm_close_stream env ?sid r s1)"
    if "um_find (dm_streams s) ?sid = Some a" for a r
    using write_bytes_inv[OF inv streams_inv_next[OF that inv], of ?p] close_stream_inv inv
    by (auto simp: adapter_send_bytes_def split: prod.split bool.split)
  show ?thesis
    unfolding dm_dispatch_frame_def Let_def streams_env_fields
    using op data hs send[OF inv] close_stream_inv[OF inv] inv
    by (auto split: Op.split option.split)
qed

lemma disconnect_inv:
  assumes inv: "streams_inv s"
  shows "streams_inv (dm_on_tunnel_disconnect env s)"
proof -
  let ?t = "dm_on_tunnel_disconnect env s"
  have heap: "as_view (as_heap ?t c) = (if c \<in> snd ` set (dm_streams s) then closed_view (as_view (as_heap s c))
      else as_view (as_heap s c))" and tab: "as_next ?t = as_next s" "dm_streams ?t = []" for c
    by (simp_all add: dm_on_tunnel_disconnect_def Let_def adapters_closed)
  have "\<not> as_attached (as_heap ?t c) \<and> as_eof_notified (as_heap ?t c)" if "c < as_next s" for c
  proof (cases "as_attached (as_heap s c)")
    case True
    with that have "um_find (dm_streams s) (as_stream_id (as_heap s c)) = Some c"
      by (simp add: streams_inv_find[OF inv])
    then have "c \<in> snd ` set (dm_streams s)" by (metis image_eqI map_of_SomeD snd_conv)
    with True heap[of c] show ?thesis by (simp add: as_view_def)
  next
    case False
    with heap[of c] streams_inv_flags(1)[OF inv that] show ?thesis
      by (simp add: as_view_def split: if_splits)
  qed
  then show ?thesis by (auto simp: streams_inv_def tab)
qed

lemma frame_inv:
  assumes inv: "streams_inv s" and a: "a < as_next s"
  shows "streams_inv (snd (as_frame send a f s))"
proof -
  have data: "streams_inv (on_asterisk_data send sid p s)" for sid p
    by (rule streams_inv_cong[OF inv]) simp_all
  show ?thesis
    using notify_inv[OF streams_inv_send_n[OF inv], of a a close_frame] notify_inv[OF inv a] inv a
    by (auto simp: as_frame_def Let_def data streams_inv_send_n streams_inv_draw_key split: prod.split)
      (metis snd_conv streams_inv_draw_key streams_inv_send_n)
qed

lemma handle_close_inv:
  assumes inv: "streams_inv s" and a: "a < as_next s"
  shows "streams_inv (as_handle_close send a s)"
proof -
  let ?t = "as_notify_eof_once send a ''handle_close'' s"
  have t: "streams_inv ?t" "a < as_next ?t" using notify_inv[OF inv a] a by simp_all
  have "as_eof_notified (as_heap ?t a)" by (simp add: as_notify_eof_once_def)
  then have "\<not> as_attached (as_heap ?t a)" using streams_inv_flags(1)[OF t] by simp
  with t show ?thesis
    by (auto simp: streams_inv_def as_handle_close_def)
qed

end

section \<open>Input from Asterisk\<close>

lemma put_buf_heap:
  "as_heap (as_put_buf a b s) = (as_heap s)(a := (as_heap s a)\<lparr>as_recv_buf := b\<rparr>)"
  by (simp add: as_put_buf_def)

lemma recv_buf_swap:
  "as_written_update f (as_recv_buf_update g w) = as_recv_buf_update g (as_written_update f w)"
  "as_sends_update f2 (as_recv_buf_update g w) = as_recv_buf_update g (as_sends_update f2 w)"
  "as_eof_notified_update f3 (as_recv_buf_update g w) = as_recv_buf_update g (as_eof_notified_update f3 w)"
  "as_attached_update f3 (as_recv_buf_update g w) = as_recv_buf_update g (as_attached_update f3 w)"
  by (cases w; simp)+

lemma upd_streams_swap: "(as_upd a g s)\<lparr>dm_streams := m\<rparr> = as_upd a g (s\<lparr>dm_streams := m\<rparr>)"
  by (simp add: as_upd_def)

lemma send_n_put_buf:
  "as_send_n a x (as_put_buf a b s) = (fst (as_send_n a x s), as_put_buf a b (snd (as_send_n a x s)))"
  by (simp add: as_send_n_def as_put_buf_def as_upd_def recv_buf_swap split: list.split)

lemma draw_key_put_buf:
  "as_draw_key (as_put_buf a b s) = (fst (as_draw_key s), as_put_buf a b (snd (as_draw_key s)))"
  by (simp add: as_draw_key_def as_put_buf_def as_upd_def split: list.split)

context agent_side
begin

lemma tunnel_send_put_buf: "dm_tunnel_send send op sid p (as_put_buf a b s) = as_put_buf a b (dm_tunnel_send send op sid p s)"
  by (simp add: dm_tunnel_send_def as_put_buf_def)

lemma notify_put_buf: "as_notify_eof_once send a r (as_put_buf a b s) = as_put_buf a b (as_notify_eof_once send a r s)"
  by (auto simp: as_notify_eof_once_def on_asterisk_eof_def dm_tunnel_send_def as_put_buf_def recv_buf_swap
      upd_streams_swap)

lemma frame_put_buf:
  "as_frame send a f (as_put_buf a b s) = (fst (as_frame send a f s), as_put_buf a b (snd (as_frame send a f s)))"
proof -
  have "on_asterisk_data send sid p (as_put_buf a b s) = as_put_buf a b (on_asterisk_data send sid p s)" for sid p
    by (auto simp: on_asterisk_data_def tunnel_send_put_buf) (auto simp: as_put_buf_def)
  then show ?thesis
    by (simp add: as_frame_def Let_def put_buf_heap draw_key_put_buf send_n_put_buf notify_put_buf
        split: prod.split)
qed

end

sublocale agent_side \<subseteq> sock: ws_receiver "as_get_buf a" "as_put_buf a" "as_frame send a" for a
  by unfold_locales (simp_all add: frame_put_buf)

context agent_side
begin

lemma put_buf_inv: "streams_inv s \<Longrightarrow> streams_inv (as_put_buf a b s)"
  by (erule streams_inv_cong) (simp_all add: as_put_buf_def as_view_def)

lemma as_frame_next: "as_next (snd (as_frame send a f s)) = as_next s"
  by (auto simp: as_frame_def Let_def split: prod.split) (metis as_draw_key_fields(4) snd_conv)

lemma drain_inv:
  assumes "streams_inv s" and "a < as_next s" and "as_drain_frames send a s = Some (e, s')"
  shows "streams_inv s'"
proof -
  have "streams_inv s' \<and> a < as_next s'"
    by (rule sock.ws_drain_preserves[OF _ _ _ assms(3)[unfolded as_drain_frames_def]])
      (use assms in \<open>simp_all add: frame_inv as_frame_next put_buf_inv\<close>, simp add: as_put_buf_def)
  then show ?thesis ..
qed

lemma handle_input_inv:
  assumes "streams_inv s" and "a < as_next s" and "as_handle_input send a chunk s = Some (e, s')"
  shows "streams_inv s'"
  using assms notify_inv[OF assms(1,2)] drain_inv[OF put_buf_inv[OF assms(1)], of a _ _ e s']
  by (auto simp: as_handle_input_def as_put_buf_def split: if_splits)

lemma handle_input_total: "\<exists>e s'. as_handle_input send a chunk s = Some (e, s')"
  using sock.ws_drain_total[of a] by (auto simp: as_handle_input_def as_drain_frames_def)

end

end
