(* ===== verification/Cloud_Connector.thy ===== *)
theory Cloud_Connector
  imports Asterisk_Stream Transport
begin

text \<open>
  The dialling side of the tunnel, \<^verbatim>\<open>CloudConnector\<close>
  (\<^verbatim>\<open>pbx-agent/src/main/cloud_connector.cpp\<close>).  It extends the record of the demux and the local
  streams, which it tears down when the tunnel is lost.  Unlike the cloud's endpoint it never tears
  down inside a call from the transport: a failure sets \<^verbatim>\<open>cc_disconnect_pending\<close> and the next
  \<^verbatim>\<open>tick\<close> acts on it.

  \<^verbatim>\<open>cc_dials\<close> holds the outcomes of \<^verbatim>\<open>create_connected\<close> (an exhausted list stands for an
  unreachable cloud).  Clock readings are arguments.  A failing \<^verbatim>\<open>send\<close> may already have reported
  the loss through \<^verbatim>\<open>on_transport_lost\<close>; that sets the same flag the sender sets.
\<close>

section \<open>State\<close>

record connector_config =
  cfg_initial_backoff_sec :: int
  cfg_max_backoff_sec :: int
  cfg_outbound_buffer_max :: nat
  cfg_heartbeat_interval_sec :: int
  cfg_heartbeat_max_missed :: int

definition connector_default_config :: connector_config where
  "connector_default_config =
     \<lparr>cfg_initial_backoff_sec = 1, cfg_max_backoff_sec = 30, cfg_outbound_buffer_max = 0,
      cfg_heartbeat_interval_sec = 15, cfg_heartbeat_max_missed = 3\<rparr>"

record connector = agent_streams +
  cc_cfg :: connector_config
  cc_transport :: "agent_transport option"
  cc_demux :: bool
  cc_reconnect_attempts :: int
  cc_current_backoff_sec :: int
  cc_next_reconnect_at :: int
  cc_outbound :: "string list"
  cc_last_heartbeat_unix :: int
  cc_pings_outstanding :: int
  cc_disconnect_pending :: bool
  cc_dials :: "agent_transport option list"
  cc_log :: "wire_event list"

text \<open>The callbacks: the demux with its environment, and \<^verbatim>\<open>m_on_connected\<close>.\<close>

record 's connector_env =
  cn_demux :: "'s demux_env"
  cn_on_connected :: "('s \<Rightarrow> 's) option"

definition set_on_connected :: "('s \<Rightarrow> 's) option \<Rightarrow> 's connector_env \<Rightarrow> 's connector_env" where
  "set_on_connected h env = env\<lparr>cn_on_connected := h\<rparr>"

definition attach_demux :: "bool \<Rightarrow> 'a connector_scheme \<Rightarrow> 'a connector_scheme" where
  "attach_demux d s = s\<lparr>cc_demux := d\<rparr>"

definition connected :: "'a connector_scheme \<Rightarrow> bool" where
  "connected s \<longleftrightarrow> cc_transport s \<noteq> None \<and> \<not> cc_disconnect_pending s"

section \<open>Operations\<close>

definition request_disconnect :: "'a connector_scheme \<Rightarrow> 'a connector_scheme" where
  "request_disconnect s = s\<lparr>cc_disconnect_pending := True\<rparr>"

definition cc_buffer_frame :: "string \<Rightarrow> 'a connector_scheme \<Rightarrow> 'a connector_scheme" where
  "cc_buffer_frame bytes s =
     (if cfg_outbound_buffer_max (cc_cfg s) = 0 \<or> length (cc_outbound s) < cfg_outbound_buffer_max (cc_cfg s)
      then s\<lparr>cc_outbound := cc_outbound s @ [bytes]\<rparr> else s)"

definition cc_send_frame :: "Op \<Rightarrow> u32 \<Rightarrow> string \<Rightarrow> 'a connector_scheme \<Rightarrow> 'a connector_scheme" where
  "cc_send_frame op stream_id payload s =
     (let bytes = sf_encode op stream_id payload
      in if cc_disconnect_pending s then cc_buffer_frame bytes s
         else case cc_transport s of
                None \<Rightarrow> cc_buffer_frame bytes s
              | Some t \<Rightarrow>
                  (case transport_send t of
                     (True, t') \<Rightarrow>
                       s\<lparr>cc_transport := Some t', cc_log := cc_log s @ [Sent (t_id t) bytes]\<rparr>
                   | (False, t') \<Rightarrow>
                       cc_buffer_frame bytes (request_disconnect (s\<lparr>cc_transport := Some t'\<rparr>))))"

definition cc_mark_disconnected ::
  "'a connector_scheme connector_env \<Rightarrow> 'a connector_scheme \<Rightarrow> 'a connector_scheme" where
  "cc_mark_disconnected env s =
     (let s1 = (case cc_transport s of
                  None \<Rightarrow> s
                | Some t \<Rightarrow> s\<lparr>cc_log := cc_log s @ [Closed (t_id t)], cc_transport := None\<rparr>);
          s2 = (if cc_demux s1 then dm_on_tunnel_disconnect (cn_demux env) s1 else s1)
      in s2\<lparr>cc_current_backoff_sec := 0, cc_next_reconnect_at := 0, cc_pings_outstanding := 0,
            cc_disconnect_pending := False\<rparr>)"

text \<open>
  The loop of \<^verbatim>\<open>flush_outbound\<close>, over the queue: what was sent, the remaining queue, the transport,
  and whether a send failed.
\<close>

fun flush_loop :: "string list \<Rightarrow> agent_transport \<Rightarrow> string list \<times> string list \<times> agent_transport \<times> bool" where
  "flush_loop [] t = ([], [], t, False)"
| "flush_loop (b # bs) t =
     (case transport_send t of
        (True, t') \<Rightarrow> (let (sent, rest, t'', failed) = flush_loop bs t' in (b # sent, rest, t'', failed))
      | (False, t') \<Rightarrow> ([], b # bs, t', True))"

definition cc_flush_outbound ::
  "'a connector_scheme connector_env \<Rightarrow> 'a connector_scheme \<Rightarrow> 'a connector_scheme" where
  "cc_flush_outbound env s =
     (case cc_transport s of
        None \<Rightarrow> s
      | Some t \<Rightarrow>
          (let (sent, rest, t', failed) = flush_loop (cc_outbound s) t;
               s1 = s\<lparr>cc_transport := Some t', cc_outbound := rest,
                      cc_log := cc_log s @ map (Sent (t_id t)) sent\<rparr>
           in if failed then cc_mark_disconnected env s1 else s1))"

definition attempt_connect ::
  "'a connector_scheme connector_env \<Rightarrow> int \<Rightarrow> 'a connector_scheme \<Rightarrow> 'a connector_scheme" where
  "attempt_connect env now s =
     (let (dial, rest) = (case cc_dials s of [] \<Rightarrow> (None, []) | d # ds \<Rightarrow> (d, ds));
          s0 = s\<lparr>cc_dials := rest\<rparr>
      in case dial of
           None \<Rightarrow>
             (let backoff = (if cc_current_backoff_sec s0 = 0 then cfg_initial_backoff_sec (cc_cfg s0)
                             else min (cc_current_backoff_sec s0 * 2) (cfg_max_backoff_sec (cc_cfg s0)))
              in s0\<lparr>cc_reconnect_attempts := cc_reconnect_attempts s0 + 1,
                    cc_current_backoff_sec := backoff, cc_next_reconnect_at := now + backoff\<rparr>)
         | Some t \<Rightarrow>
             (let s1 = s0\<lparr>cc_transport := Some t, cc_reconnect_attempts := 0, cc_current_backoff_sec := 0,
                          cc_next_reconnect_at := 0, cc_last_heartbeat_unix := now, cc_pings_outstanding := 0\<rparr>;
                  s2 = cc_flush_outbound env s1
              in case cn_on_connected env of None \<Rightarrow> s2 | Some h \<Rightarrow> h s2))"

definition cc_maybe_heartbeat ::
  "'a connector_scheme connector_env \<Rightarrow> int \<Rightarrow> 'a connector_scheme \<Rightarrow> 'a connector_scheme" where
  "cc_maybe_heartbeat env now s =
     (if cfg_heartbeat_interval_sec (cc_cfg s) \<le> 0 then s
      else if now - cc_last_heartbeat_unix s < cfg_heartbeat_interval_sec (cc_cfg s) then s
      else if cc_pings_outstanding s \<ge> cfg_heartbeat_max_missed (cc_cfg s) then cc_mark_disconnected env s
      else let s1 = cc_send_frame PING 0 [] s
           in if cc_transport s1 \<noteq> None
              then s1\<lparr>cc_pings_outstanding := cc_pings_outstanding s1 + 1, cc_last_heartbeat_unix := now\<rparr>
              else s1)"

definition cc_tick ::
  "'a connector_scheme connector_env \<Rightarrow> int \<Rightarrow> 'a connector_scheme \<Rightarrow> 'a connector_scheme" where
  "cc_tick env now s =
     (let s1 = (if cc_disconnect_pending s
                then let s0 = s\<lparr>cc_disconnect_pending := False\<rparr>
                     in if cc_transport s0 \<noteq> None then cc_mark_disconnected env s0 else s0
                else s)
      in if cc_transport s1 \<noteq> None then cc_maybe_heartbeat env now s1
         else if now < cc_next_reconnect_at s1 then s1
         else attempt_connect env now s1)"

definition cc_on_bytes_received ::
  "'a connector_scheme connector_env \<Rightarrow> string \<Rightarrow> 'a connector_scheme \<Rightarrow> 'a connector_scheme option" where
  "cc_on_bytes_received env bytes s =
     (let s1 = s\<lparr>cc_pings_outstanding := 0\<rparr>
      in if \<not> cc_demux s1 then Some s1
         else case dm_on_tunnel_bytes (cn_demux env) bytes s1 of
                None \<Rightarrow> None
              | Some (ok, s2) \<Rightarrow> Some (if ok then s2 else request_disconnect s2))"

definition on_transport_lost :: "'a connector_scheme \<Rightarrow> 'a connector_scheme" where
  "on_transport_lost s = (if cc_transport s \<noteq> None then request_disconnect s else s)"

definition send_ws_ping :: "'a connector_scheme \<Rightarrow> 'a connector_scheme" where
  "send_ws_ping s =
     (if cc_disconnect_pending s then s
      else case cc_transport s of
             None \<Rightarrow> s
           | Some t \<Rightarrow>
               (case transport_send t of
                  (True, t') \<Rightarrow> s\<lparr>cc_transport := Some t', cc_log := cc_log s @ [WsPing (t_id t)]\<rparr>
                | (False, t') \<Rightarrow> request_disconnect (s\<lparr>cc_transport := Some t'\<rparr>)))"

section \<open>The connector as a tunnel sink\<close>

text \<open>While the connector is connected nothing is queued.\<close>

definition connector_inv :: "'a connector_scheme \<Rightarrow> bool" where
  "connector_inv s \<longleftrightarrow> (connected s \<longrightarrow> cc_outbound s = []) \<and> 0 \<le> cc_pings_outstanding s"

definition cc_pipeline :: "'a connector_scheme \<Rightarrow> string list" where
  "cc_pipeline s = sent_bytes (cc_log s) @ cc_outbound s"

definition cc_unbounded :: "'a connector_scheme \<Rightarrow> bool" where
  "cc_unbounded s \<longleftrightarrow> cfg_outbound_buffer_max (cc_cfg s) = 0"

lemma cc_buffer_frame_fields [simp]:
  "cc_transport (cc_buffer_frame b s) = cc_transport s"
  "cc_disconnect_pending (cc_buffer_frame b s) = cc_disconnect_pending s"
  "cc_pings_outstanding (cc_buffer_frame b s) = cc_pings_outstanding s"
  "cc_last_heartbeat_unix (cc_buffer_frame b s) = cc_last_heartbeat_unix s"
  "cc_cfg (cc_buffer_frame b s) = cc_cfg s" "cc_log (cc_buffer_frame b s) = cc_log s"
  by (simp_all add: cc_buffer_frame_def)

lemma cc_send_fields [simp]:
  "cc_pings_outstanding (cc_send_frame op sid p s) = cc_pings_outstanding s"
  "cc_last_heartbeat_unix (cc_send_frame op sid p s) = cc_last_heartbeat_unix s"
  "cc_cfg (cc_send_frame op sid p s) = cc_cfg s"
  "cc_transport (cc_send_frame op sid p s) = None \<longleftrightarrow> cc_transport s = None"
  by (auto simp: cc_send_frame_def request_disconnect_def Let_def split: option.split prod.split bool.split)

lemma connector_inv_send: "connector_inv s \<Longrightarrow> connector_inv (cc_send_frame op sid p s)"
  by (auto simp: connector_inv_def connected_def cc_send_frame_def request_disconnect_def
      Let_def split: option.split prod.split bool.split)

lemma cc_send_pipeline:
  "connector_inv s \<Longrightarrow> cc_unbounded s \<Longrightarrow> cc_pipeline (cc_send_frame op sid p s) = cc_pipeline s @ [sf_encode op sid p]"
  by (auto simp: cc_pipeline_def cc_send_frame_def cc_buffer_frame_def request_disconnect_def
      connector_inv_def connected_def cc_unbounded_def Let_def split: option.split prod.split bool.split)

interpretation agent_sink: tunnel_sink cc_send_frame cc_pipeline "\<lambda>s. connector_inv s \<and> cc_unbounded s"
  by unfold_locales (simp_all add: cc_send_pipeline connector_inv_send cc_unbounded_def)

lemma cc_send_outside: "outside (cc_send_frame op sid p)"
proof -
  have 1: "agent_streams.truncate (cc_send_frame op sid p s) = agent_streams.truncate s" for s :: "'a connector_scheme"
    by (auto simp: cc_send_frame_def cc_buffer_frame_def request_disconnect_def agent_streams.truncate_def Let_def
        split: option.split prod.split bool.split)
  have 2: "agent_streams.more (cc_send_frame op sid p s) = agent_streams.more (cc_send_frame op sid p t)"
    if "agent_streams.more s = agent_streams.more t" for s t :: "'a connector_scheme"
    using that by (cases s; cases t)
      (auto simp: cc_send_frame_def cc_buffer_frame_def request_disconnect_def Let_def
        split: option.split prod.split bool.split)
  show ?thesis unfolding outside_def using 1 2 by blast
qed

interpretation conn: quiet_tunnel cc_send_frame
  by unfold_locales (rule cc_send_outside)

section \<open>What the rest of the agent does to the connector\<close>

text \<open>The demux, the streams and the handlers reach the connector only through \<^verbatim>\<open>send_frame\<close>.\<close>

definition cc_part where
  "cc_part s = (cc_cfg s, cc_transport s, cc_demux s, (cc_reconnect_attempts s, cc_current_backoff_sec s,
     cc_next_reconnect_at s), cc_outbound s, cc_last_heartbeat_unix s, cc_pings_outstanding s,
     cc_disconnect_pending s, cc_dials s, cc_log s)"

definition conn_closed :: "('a connector_scheme \<Rightarrow> bool) \<Rightarrow> bool" where
  "conn_closed P \<longleftrightarrow> (\<forall>op sid p s. P s \<longrightarrow> P (cc_send_frame op sid p s)) \<and>
     (\<forall>s t. P s \<longrightarrow> cc_part t = cc_part s \<longrightarrow> P t)"

lemma conn_closed_send: "conn_closed P \<Longrightarrow> P s \<Longrightarrow> P (cc_send_frame op sid p s)"
  by (simp add: conn_closed_def)

lemma conn_closed_part: "conn_closed P \<Longrightarrow> P s \<Longrightarrow> cc_part t = cc_part s \<Longrightarrow> P t"
  unfolding conn_closed_def by blast

lemma cc_part_update [simp]:
  "cc_part (as_upd a g s) = cc_part s" "cc_part (s\<lparr>dm_streams := m\<rparr>) = cc_part s"
  "cc_part (s\<lparr>dm_tunnel := b\<rparr>) = cc_part s" "cc_part (s\<lparr>dm_recv_buffer := r\<rparr>) = cc_part s"
  "cc_part (s\<lparr>as_connects := c\<rparr>) = cc_part s" "cc_part (s\<lparr>as_next := n\<rparr>) = cc_part s"
  "cc_part (s\<lparr>as_keys := k\<rparr>) = cc_part s" "cc_part (dm_put_buffer r s) = cc_part s"
  "cc_part (as_put_buf a x s) = cc_part s"
  by (simp_all add: cc_part_def as_upd_def dm_put_buffer_def as_put_buf_def)

lemma cc_part_stream_ops [simp]:
  "cc_part (snd (as_send_n a x s)) = cc_part s" "cc_part (snd (as_draw_key s)) = cc_part s"
  "cc_part (as_close_socket a r s) = cc_part s" "cc_part (adapter_close a r s) = cc_part s"
  "cc_part (snd (factory_open sid p s)) = cc_part s"
  by (auto simp: as_send_n_def as_draw_key_def as_close_socket_def adapter_close_def factory_open_def Let_def
      split: list.split)

lemma cc_part_disconnect [simp]: "cc_part (dm_on_tunnel_disconnect (streams_env send rv bt) s) = cc_part s"
proof -
  have "cc_part (fold (\<lambda>(sid, a). adapter_close a r) es t) = cc_part t" for r es and t :: "'a connector_scheme"
    by (induction es arbitrary: t) (simp_all add: case_prod_beta)
  then show ?thesis by (simp add: dm_on_tunnel_disconnect_def Let_def)
qed

locale agent_wiring =
  fixes rv bt :: "(string \<Rightarrow> 'a connector_scheme \<Rightarrow> 'a connector_scheme) option"
    and onc :: "('a connector_scheme \<Rightarrow> 'a connector_scheme) option"
  assumes rv_outside: "rv = Some h \<Longrightarrow> outside (h p)"
    and bt_outside: "bt = Some h \<Longrightarrow> outside (h p)"
    and rv_part: "rv = Some h \<Longrightarrow> cc_part (h p s) = cc_part s"
    and bt_part: "bt = Some h \<Longrightarrow> cc_part (h p s) = cc_part s"
    and onc_sends: "onc = Some g \<Longrightarrow> conn_closed P \<Longrightarrow> P s \<Longrightarrow> P (g s)"
    and onc_inv: "onc = Some g \<Longrightarrow> streams_inv s \<Longrightarrow> streams_inv (g s)"

sublocale agent_wiring \<subseteq> agent_side cc_send_frame rv bt
  by unfold_locales (simp_all add: rv_outside bt_outside)

context agent_wiring
begin

abbreviation cenv where "cenv \<equiv> \<lparr>cn_demux = env, cn_on_connected = onc\<rparr>"

lemma tunnel_send_closed: "conn_closed P \<Longrightarrow> P s \<Longrightarrow> P (dm_tunnel_send cc_send_frame op sid p s)"
  by (simp add: dm_tunnel_send_def conn_closed_send)

lemma eof_closed: "conn_closed P \<Longrightarrow> P s \<Longrightarrow> P (on_asterisk_eof cc_send_frame sid r s)"
proof -
  assume P: "conn_closed P" "P s"
  have "P (s\<lparr>dm_streams := m\<rparr>)" for m by (rule conn_closed_part[OF P]) simp
  with P show ?thesis by (simp add: on_asterisk_eof_def tunnel_send_closed del: send_commute)
qed

lemma notify_closed: "conn_closed P \<Longrightarrow> P s \<Longrightarrow> P (as_notify_eof_once cc_send_frame a r s)"
proof -
  assume P: "conn_closed P" "P s"
  have "P (as_upd a g s)" for g by (rule conn_closed_part[OF P]) simp
  with P show ?thesis by (simp add: as_notify_eof_once_def eof_closed)
qed

lemma write_closed:
  assumes "conn_closed P" and "P s"
  shows "P (snd (as_write_bytes cc_send_frame a p s))"
proof -
  let ?s = "snd (as_send_n a (ws_encode (string_to_bytes p) 0x1 True 0 (fst (as_draw_key s))) (snd (as_draw_key s)))"
  have "P ?s" by (rule conn_closed_part[OF assms]) simp
  moreover have "snd (as_write_bytes cc_send_frame a p s) \<in>
      {s, ?s, as_notify_eof_once cc_send_frame a ''asterisk_write_failed'' ?s}"
    by (auto simp: as_write_bytes_def Let_def split: prod.split bool.split)
  ultimately show ?thesis using assms notify_closed by auto
qed

lemma close_stream_closed:
  assumes "conn_closed P" and "P s"
  shows "P (dm_close_stream env sid r s)"
  by (rule conn_closed_part[OF assms]) (simp add: dm_close_stream_def Let_def split: option.split)

lemma dispatch_closed:
  assumes P: "conn_closed P" "P s"
  shows "P (dm_dispatch_frame env f s)"
proof -
  let ?sid = "frame_stream_id f" and ?p = "frame_payload f"
  have op: "P (case factory_open ?sid ?p s of
        (None, s1) \<Rightarrow> dm_tunnel_send cc_send_frame CLOSE ?sid r s1
      | (Some a, s1) \<Rightarrow> s1\<lparr>dm_streams := um_emplace ?sid a (dm_streams s1)\<rparr>)" for r
  proof (cases "factory_open ?sid ?p s")
    case (Pair q s1)
    then have "P (s1\<lparr>dm_streams := m\<rparr>)" "P s1" for m
      using cc_part_stream_ops(5)[of ?sid ?p s] by (auto intro: conn_closed_part[OF P])
    with Pair P show ?thesis by (auto simp: tunnel_send_closed split: option.split)
  qed
  have data: "P (case adapter_send_bytes cc_send_frame a ?p s of
        (True, s1) \<Rightarrow> s1 | (False, s1) \<Rightarrow> dm_close_stream env ?sid r s1)" for a r
    using write_closed[OF P, of a ?p] close_stream_closed[OF P(1)] P
    by (auto simp: adapter_send_bytes_def split: prod.split bool.split)
  have hs: "P (dm_call_handler rv p s)" "P (dm_call_handler bt p s)" for p
    using rv_part bt_part P by (auto simp: dm_call_handler_def intro: conn_closed_part[OF P] split: option.split)
  show ?thesis
    unfolding dm_dispatch_frame_def Let_def streams_env_fields
    using op data hs tunnel_send_closed[OF P] close_stream_closed[OF P] P(2)
    by (auto split: Op.split option.split)
qed

lemma tunnel_bytes_closed:
  assumes "conn_closed P" and "P s" and "dm_on_tunnel_bytes env b s = Some (ok, s')"
  shows "P s'"
proof -
  have put: "P (dm_put_buffer x t)" if "P t" for x t
    using conn_closed_part[OF assms(1) that] by simp
  show ?thesis
    using dm.rx.run_preserves[of P "dm_put_buffer (dm_recv_buffer s @ b) s"] assms put
    by (auto simp: dm_on_tunnel_bytes_def dm.rx.rx_bytes_run dispatch_closed)
qed

lemma frame_closed:
  assumes P: "conn_closed P" "P s"
  shows "P (snd (as_frame cc_send_frame a f s))"
proof -
  have part: "P t" if "cc_part t = cc_part s" for t using conn_closed_part[OF P that] .
  show ?thesis
    using notify_closed[OF P(1)] P tunnel_send_closed[OF P]
    by (auto simp: as_frame_def Let_def on_asterisk_data_def case_prod_beta part)
qed

lemma put_buf_closed: "conn_closed P \<Longrightarrow> P s \<Longrightarrow> P (as_put_buf a b s)"
  by (erule (1) conn_closed_part) simp

lemma drain_closed:
  fixes s :: "'a connector_scheme"
  assumes "conn_closed P" and "P s" and "as_drain_frames cc_send_frame a s = Some (e, s')"
  shows "P s'"
  using sock.ws_drain_preserves[where P = P, OF frame_closed[OF assms(1)] put_buf_closed[OF assms(1)] assms(2)]
    assms(3) unfolding as_drain_frames_def by blast

lemma handle_input_closed:
  fixes s :: "'a connector_scheme"
  assumes "conn_closed P" and "P s" and "as_handle_input cc_send_frame a c s = Some (e, s')"
  shows "P s'"
proof (cases "c = []")
  case True
  with assms notify_closed[OF assms(1,2)] show ?thesis by (auto simp: as_handle_input_def)
next
  case False
  with assms(3) have "as_drain_frames cc_send_frame a (as_put_buf a (as_get_buf a s @ c) s) = Some (e, s')"
    by (simp add: as_handle_input_def)
  from drain_closed[OF assms(1) put_buf_closed[OF assms(1,2)] this] show ?thesis .
qed

lemma handle_close_closed:
  assumes "conn_closed P" and "P s"
  shows "P (as_handle_close cc_send_frame a s)"
  by (rule conn_closed_part[OF assms(1) notify_closed[OF assms]]) (simp add: as_handle_close_def)

end

section \<open>Flushing, reconnecting, ticking\<close>

lemma flush_loop_split:
  "flush_loop q t = (sent, rest, t', failed) \<Longrightarrow> sent @ rest = q \<and> (\<not> failed \<longrightarrow> rest = []) \<and> t_id t' = t_id t"
  by (induction q arbitrary: t sent) (auto simp: transport_send_id Let_def split: prod.splits bool.splits)

lemma flush_loop_healthy: "t_oracle t = [] \<Longrightarrow> flush_loop q t = (q, [], t, False)"
  by (induction q) simp_all

lemma sent_bytes_map [simp]: "sent_bytes (map (Sent i) bs) = bs"
  by (induction bs) (simp_all add: sent_bytes_def List.map_filter_def)

lemma mark_disconnected_part:
  assumes "cn_demux cenv = streams_env send rv bt"
  shows "cc_transport (cc_mark_disconnected cenv s) = None"
    and "cc_outbound (cc_mark_disconnected cenv s) = cc_outbound s"
    and "cc_cfg (cc_mark_disconnected cenv s) = cc_cfg s"
    and "cc_pings_outstanding (cc_mark_disconnected cenv s) = 0"
    and "\<not> cc_disconnect_pending (cc_mark_disconnected cenv s)"
    and "cc_next_reconnect_at (cc_mark_disconnected cenv s) = 0"
    and "cc_current_backoff_sec (cc_mark_disconnected cenv s) = 0"
    and "cc_dials (cc_mark_disconnected cenv s) = cc_dials s"
    and "cc_pipeline (cc_mark_disconnected cenv s) = cc_pipeline s"
proof -
  have "cc_transport (dm_on_tunnel_disconnect (cn_demux cenv) t) = cc_transport t"
    "cc_outbound (dm_on_tunnel_disconnect (cn_demux cenv) t) = cc_outbound t"
    "cc_cfg (dm_on_tunnel_disconnect (cn_demux cenv) t) = cc_cfg t"
    "cc_dials (dm_on_tunnel_disconnect (cn_demux cenv) t) = cc_dials t"
    "cc_log (dm_on_tunnel_disconnect (cn_demux cenv) t) = cc_log t" for t :: "'a connector_scheme"
    using cc_part_disconnect[of send rv bt t] by (simp_all add: assms cc_part_def)
  then show "cc_transport (cc_mark_disconnected cenv s) = None"
    "cc_outbound (cc_mark_disconnected cenv s) = cc_outbound s"
    "cc_cfg (cc_mark_disconnected cenv s) = cc_cfg s"
    "cc_pings_outstanding (cc_mark_disconnected cenv s) = 0"
    "\<not> cc_disconnect_pending (cc_mark_disconnected cenv s)"
    "cc_next_reconnect_at (cc_mark_disconnected cenv s) = 0"
    "cc_current_backoff_sec (cc_mark_disconnected cenv s) = 0"
    "cc_dials (cc_mark_disconnected cenv s) = cc_dials s"
    "cc_pipeline (cc_mark_disconnected cenv s) = cc_pipeline s"
    by (simp_all add: cc_mark_disconnected_def Let_def cc_pipeline_def split: option.split)
qed

definition cc_grows :: "string list \<Rightarrow> 'a connector_scheme \<Rightarrow> bool" where
  "cc_grows xs s \<longleftrightarrow> connector_inv s \<and> cc_unbounded s \<and> prefix xs (cc_pipeline s)"

lemma cc_grows_closed: "conn_closed (cc_grows xs)"
proof -
  have "cc_grows xs t" if "cc_grows xs s" "cc_part t = cc_part s" for s t :: "'a connector_scheme"
    using that by (simp add: cc_grows_def cc_part_def connector_inv_def connected_def cc_unbounded_def cc_pipeline_def)
  moreover have "cc_grows xs (cc_send_frame op sid p s)" if "cc_grows xs s" for op sid p and s :: "'a connector_scheme"
    using that by (simp add: cc_grows_def connector_inv_send cc_send_pipeline cc_unbounded_def)
  ultimately show ?thesis unfolding conn_closed_def by blast
qed

datatype agent_op =
    ATick int
  | ABytes string
  | ALost
  | AWsPing
  | APost Op u32 string
  | AInput stream_ref "u8 list"
  | AClose stream_ref

text \<open>
  The calls the reactor makes into the agent side of the tunnel: the timers, the cloud socket, the
  outbox of the worker threads (\<^verbatim>\<open>ReactorFrameOutbox::handle_exception\<close>) and the sockets to Asterisk.
\<close>

fun agent_exec :: "'a connector_scheme connector_env \<Rightarrow> agent_op \<Rightarrow> 'a connector_scheme \<Rightarrow> 'a connector_scheme" where
  "agent_exec env (ATick now) s = cc_tick env now s"
| "agent_exec env (ABytes b) s = (case cc_on_bytes_received env b s of None \<Rightarrow> s | Some s' \<Rightarrow> s')"
| "agent_exec env ALost s = on_transport_lost s"
| "agent_exec env AWsPing s = (if connected s then send_ws_ping s else s)"
| "agent_exec env (APost op sid p) s = cc_send_frame op sid p s"
| "agent_exec env (AInput a chunk) s =
     (if a < as_next s
      then (case as_handle_input cc_send_frame a chunk s of None \<Rightarrow> s | Some (e, s') \<Rightarrow> s') else s)"
| "agent_exec env (AClose a) s = (if a < as_next s then as_handle_close cc_send_frame a s else s)"

context agent_wiring
begin

lemma mark_part:
  "cc_transport (cc_mark_disconnected cenv s) = None" "cc_outbound (cc_mark_disconnected cenv s) = cc_outbound s"
  "cc_cfg (cc_mark_disconnected cenv s) = cc_cfg s" "cc_pings_outstanding (cc_mark_disconnected cenv s) = 0"
  "\<not> cc_disconnect_pending (cc_mark_disconnected cenv s)" "cc_next_reconnect_at (cc_mark_disconnected cenv s) = 0"
  "cc_current_backoff_sec (cc_mark_disconnected cenv s) = 0" "cc_dials (cc_mark_disconnected cenv s) = cc_dials s"
  "cc_pipeline (cc_mark_disconnected cenv s) = cc_pipeline s"
  using mark_disconnected_part[of cenv cc_send_frame rv bt s] by simp_all

lemma mark_grows: "cc_unbounded s \<Longrightarrow> prefix xs (cc_pipeline s) \<Longrightarrow> cc_grows xs (cc_mark_disconnected cenv s)"
  by (simp add: cc_grows_def connector_inv_def connected_def mark_part cc_unbounded_def)

lemma flush_grows:
  assumes "cc_unbounded s" and "prefix xs (cc_pipeline s)" and "0 \<le> cc_pings_outstanding s"
  shows "cc_grows xs (cc_flush_outbound cenv s)"
proof (cases "cc_transport s")
  case None
  with assms show ?thesis
    by (simp add: cc_flush_outbound_def cc_grows_def connector_inv_def connected_def)
next
  case (Some t)
  obtain sent rest t' failed where f: "flush_loop (cc_outbound s) t = (sent, rest, t', failed)"
    by (metis prod_cases4)
  let ?s = "s\<lparr>cc_transport := Some t', cc_outbound := rest, cc_log := cc_log s @ map (Sent (t_id t)) sent\<rparr>"
  have p: "cc_pipeline ?s = cc_pipeline s" and r: "\<not> failed \<Longrightarrow> rest = []"
    using flush_loop_split[OF f] by (auto simp: cc_pipeline_def)
  have "cc_unbounded ?s" using assms(1) by (simp add: cc_unbounded_def)
  moreover from this p r assms have "cc_grows xs ?s" if "\<not> failed"
    using that by (simp add: cc_grows_def connector_inv_def)
  moreover have "cc_flush_outbound cenv s = (if failed then cc_mark_disconnected cenv ?s else ?s)"
    using Some f by (simp add: cc_flush_outbound_def Let_def)
  ultimately show ?thesis using p assms mark_grows[of ?s xs] by (auto split: if_splits)
qed

lemma attempt_grows:
  assumes "cc_grows xs s"
  shows "cc_grows xs (attempt_connect cenv now s)"
proof -
  have s: "cc_unbounded s" "prefix xs (cc_pipeline s)" "connector_inv s" using assms by (simp_all add: cc_grows_def)
  have 1: "cc_grows xs (s\<lparr>cc_dials := rest, cc_reconnect_attempts := a, cc_current_backoff_sec := b, cc_next_reconnect_at := c\<rparr>)"
    for rest a b c
    using assms by (simp add: cc_grows_def connector_inv_def connected_def cc_unbounded_def cc_pipeline_def)
  have 2: "cc_grows xs (cc_flush_outbound cenv (s\<lparr>cc_dials := rest, cc_transport := Some t, cc_reconnect_attempts := 0,
      cc_current_backoff_sec := 0, cc_next_reconnect_at := 0, cc_last_heartbeat_unix := now, cc_pings_outstanding := 0\<rparr>))"
    for rest t
    by (rule flush_grows) (use s in \<open>simp_all add: cc_unbounded_def cc_pipeline_def\<close>)
  have 3: "cc_grows xs (g u)" if "onc = Some g" "cc_grows xs u" for g u
    using onc_sends[OF that(1) cc_grows_closed that(2)] .
  show ?thesis
    using 1 2 3 by (auto simp: attempt_connect_def Let_def split: list.split option.split)
qed

lemma heartbeat_grows: "cc_grows xs s \<Longrightarrow> cc_grows xs (cc_maybe_heartbeat cenv now s)"
proof -
  assume g: "cc_grows xs s"
  have "cc_grows xs (cc_send_frame PING 0 [] s)" by (rule conn_closed_send[OF cc_grows_closed g])
  then have "cc_grows xs ((cc_send_frame PING 0 [] s)\<lparr>cc_pings_outstanding := cc_pings_outstanding s + 1,
      cc_last_heartbeat_unix := now\<rparr>)"
    by (auto simp: cc_grows_def connector_inv_def connected_def cc_unbounded_def cc_pipeline_def)
  with g mark_grows[of s xs] conn_closed_send[OF cc_grows_closed g] show ?thesis
    by (auto simp: cc_maybe_heartbeat_def Let_def) (auto simp: cc_grows_def)
qed

lemma tick_grows: "cc_grows xs s \<Longrightarrow> cc_grows xs (cc_tick cenv now s)"
proof -
  assume g: "cc_grows xs s"
  let ?s = "s\<lparr>cc_disconnect_pending := False\<rparr>"
  have "cc_unbounded ?s" "prefix xs (cc_pipeline ?s)"
    using g by (simp_all add: cc_grows_def cc_unbounded_def cc_pipeline_def)
  then have "cc_grows xs (cc_mark_disconnected cenv ?s)" by (rule mark_grows)
  moreover have "cc_grows xs ?s" if "cc_transport s = None"
    using g that by (simp add: cc_grows_def connector_inv_def connected_def cc_unbounded_def cc_pipeline_def)
  ultimately show ?thesis
    using g by (auto simp: cc_tick_def Let_def attempt_grows heartbeat_grows)
qed

lemma request_grows: "cc_grows xs s \<Longrightarrow> cc_grows xs (request_disconnect s)"
  by (auto simp: cc_grows_def request_disconnect_def connector_inv_def connected_def cc_unbounded_def cc_pipeline_def)

lemma ws_ping_grows: "cc_grows xs s \<Longrightarrow> cc_grows xs (send_ws_ping s)"
  by (auto simp: cc_grows_def send_ws_ping_def request_disconnect_def connector_inv_def connected_def
      cc_unbounded_def cc_pipeline_def split: option.split prod.split bool.split)

lemma bytes_grows:
  assumes g: "cc_grows xs s" and r: "cc_on_bytes_received cenv b s = Some s'"
  shows "cc_grows xs s'"
proof -
  let ?s = "s\<lparr>cc_pings_outstanding := 0\<rparr>"
  have s: "cc_grows xs ?s"
    using g by (auto simp: cc_grows_def connector_inv_def connected_def cc_unbounded_def cc_pipeline_def)
  show ?thesis
    using r s tunnel_bytes_closed[OF cc_grows_closed s, of b]
    by (auto simp: cc_on_bytes_received_def Let_def request_grows split: if_splits option.splits)
qed

lemma exec_grows: "cc_grows xs s \<Longrightarrow> cc_grows xs (agent_exec cenv op s)"
proof (cases op)
  case (AInput a c)
  then show "cc_grows xs s \<Longrightarrow> ?thesis"
    using handle_input_closed[OF cc_grows_closed, of xs s a c] handle_input_total[of a c s] by auto
qed (auto simp: tick_grows bytes_grows request_grows ws_ping_grows on_transport_lost_def
    handle_close_closed[OF cc_grows_closed] conn_closed_send[OF cc_grows_closed] split: option.split)

lemma run_grows: "cc_grows xs s \<Longrightarrow> cc_grows xs (fold (agent_exec cenv) ops s)"
  by (induction ops arbitrary: s) (simp_all add: exec_grows)

end

section \<open>Ownership of the streams over whole runs\<close>

definition streams_part where
  "streams_part s = (dm_streams s, as_next s, as_heap s)"

lemma streams_inv_part: "streams_inv s \<Longrightarrow> streams_part t = streams_part s \<Longrightarrow> streams_inv t"
  by (erule streams_inv_cong) (simp_all add: streams_part_def)

lemma streams_part_update [simp]:
  "streams_part (s\<lparr>cc_transport := x1\<rparr>) = streams_part s" "streams_part (s\<lparr>cc_log := x2\<rparr>) = streams_part s"
  "streams_part (s\<lparr>cc_outbound := x3\<rparr>) = streams_part s" "streams_part (s\<lparr>cc_dials := x4\<rparr>) = streams_part s"
  "streams_part (s\<lparr>cc_reconnect_attempts := x5\<rparr>) = streams_part s"
  "streams_part (s\<lparr>cc_current_backoff_sec := x5\<rparr>) = streams_part s"
  "streams_part (s\<lparr>cc_next_reconnect_at := x5\<rparr>) = streams_part s"
  "streams_part (s\<lparr>cc_last_heartbeat_unix := x5\<rparr>) = streams_part s"
  "streams_part (s\<lparr>cc_pings_outstanding := x5\<rparr>) = streams_part s"
  "streams_part (s\<lparr>cc_disconnect_pending := x6\<rparr>) = streams_part s"
  by (simp_all add: streams_part_def)

lemma streams_part_send [simp]: "streams_part (cc_send_frame op sid p s) = streams_part s"
  by (simp add: streams_part_def)

context agent_wiring
begin

lemma mark_streams: "streams_inv s \<Longrightarrow> streams_inv (cc_mark_disconnected cenv s)"
proof -
  assume inv: "streams_inv s"
  let ?s1 = "case cc_transport s of None \<Rightarrow> s | Some t \<Rightarrow> s\<lparr>cc_log := cc_log s @ [Closed (t_id t)], cc_transport := None\<rparr>"
  have "streams_inv ?s1" by (rule streams_inv_part[OF inv]) (simp split: option.split)
  then have "streams_inv (if cc_demux ?s1 then dm_on_tunnel_disconnect env ?s1 else ?s1)"
    by (simp add: disconnect_inv)
  then show ?thesis
    by (rule streams_inv_part) (simp add: cc_mark_disconnected_def Let_def)
qed

lemma flush_streams:
  assumes inv: "streams_inv s"
  shows "streams_inv (cc_flush_outbound cenv s)"
proof (cases "cc_transport s")
  case (Some t)
  obtain sent rest t' failed where f: "flush_loop (cc_outbound s) t = (sent, rest, t', failed)"
    by (metis prod_cases4)
  let ?s = "s\<lparr>cc_transport := Some t', cc_outbound := rest, cc_log := cc_log s @ map (Sent (t_id t)) sent\<rparr>"
  have "streams_inv ?s" by (rule streams_inv_part[OF inv]) simp
  moreover have "cc_flush_outbound cenv s = (if failed then cc_mark_disconnected cenv ?s else ?s)"
    using Some f by (simp add: cc_flush_outbound_def Let_def)
  ultimately show ?thesis by (simp add: mark_streams)
qed (simp add: cc_flush_outbound_def inv)

lemma attempt_streams:
  assumes inv: "streams_inv s"
  shows "streams_inv (attempt_connect cenv now s)"
proof -
  have 1: "streams_inv (s\<lparr>cc_dials := rest, cc_reconnect_attempts := a, cc_current_backoff_sec := b, cc_next_reconnect_at := c\<rparr>)"
    for rest a b c by (rule streams_inv_part[OF inv]) simp
  have 2: "streams_inv (cc_flush_outbound cenv (s\<lparr>cc_dials := rest, cc_transport := Some t, cc_reconnect_attempts := 0,
      cc_current_backoff_sec := 0, cc_next_reconnect_at := 0, cc_last_heartbeat_unix := now, cc_pings_outstanding := 0\<rparr>))"
    for rest t by (rule flush_streams, rule streams_inv_part[OF inv]) simp
  show ?thesis
    using 1 2 onc_inv by (auto simp: attempt_connect_def Let_def split: list.split option.split)
qed

lemma heartbeat_streams:
  assumes inv: "streams_inv s"
  shows "streams_inv (cc_maybe_heartbeat cenv now s)"
proof -
  have "streams_inv (cc_send_frame PING 0 [] s)"
    "streams_inv ((cc_send_frame PING 0 [] s)\<lparr>cc_pings_outstanding := k, cc_last_heartbeat_unix := now\<rparr>)" for k
    by (rule streams_inv_part[OF inv], simp)+
  with inv show ?thesis by (simp add: cc_maybe_heartbeat_def Let_def mark_streams)
qed

lemma exec_streams:
  assumes inv: "streams_inv s"
  shows "streams_inv (agent_exec cenv op s)"
proof (cases op)
  case (ATick now)
  have "streams_inv (s\<lparr>cc_disconnect_pending := False\<rparr>)" by (rule streams_inv_part[OF inv]) simp
  with ATick inv show ?thesis
    by (auto simp: cc_tick_def Let_def mark_streams heartbeat_streams attempt_streams)
next
  case (ABytes b)
  let ?s = "s\<lparr>cc_pings_outstanding := 0\<rparr>"
  have s: "streams_inv ?s" by (rule streams_inv_part[OF inv]) simp
  have put: "streams_inv (dm_put_buffer x t)" if "streams_inv t" for x and t :: "'a connector_scheme"
    by (rule streams_inv_part[OF that]) (simp add: streams_part_def)
  have req: "streams_inv (request_disconnect t)" if "streams_inv t" for t :: "'a connector_scheme"
    by (rule streams_inv_part[OF that]) (simp add: request_disconnect_def)
  have "streams_inv t" if "dm_on_tunnel_bytes env b ?s = Some (ok, t)" for ok t
    using dm.rx.run_preserves[of streams_inv "dm_put_buffer (dm_recv_buffer ?s @ b) ?s"] that s put
    by (auto simp: dm_on_tunnel_bytes_def dm.rx.rx_bytes_run dispatch_inv)
  with ABytes s req inv show ?thesis
    by (auto simp: cc_on_bytes_received_def Let_def split: option.split)
next
  case (AInput a c)
  with inv handle_input_inv[OF inv, of a c] show ?thesis by (auto split: option.split)
next
  case (AClose a)
  with inv handle_close_inv[OF inv, of a] show ?thesis by simp
next
  case (APost o' i p)
  show ?thesis by (rule streams_inv_part[OF inv]) (simp add: APost)
qed (auto intro!: streams_inv_part[OF inv]
    simp: on_transport_lost_def request_disconnect_def send_ws_ping_def split: option.split prod.split bool.split)

lemma run_streams: "streams_inv s \<Longrightarrow> streams_inv (fold (agent_exec cenv) ops s)"
  by (induction ops arbitrary: s) (simp_all add: exec_streams)

end

section \<open>Backoff\<close>

text \<open>The delay after a number of consecutive failed dials.\<close>

fun backoff_after :: "int \<Rightarrow> int \<Rightarrow> nat \<Rightarrow> int" where
  "backoff_after ini mx 0 = 0"
| "backoff_after ini mx (Suc 0) = ini"
| "backoff_after ini mx (Suc (Suc n)) = min (backoff_after ini mx (Suc n) * 2) mx"

lemma backoff_after_closed:
  assumes "0 < ini" and "ini \<le> mx"
  shows "backoff_after ini mx (Suc n) = min (ini * 2 ^ n) mx"
  by (induction n) (use assms in auto)

lemma backoff_after_pos: "0 < ini \<Longrightarrow> ini \<le> mx \<Longrightarrow> 0 < backoff_after ini mx (Suc n)"
  by (simp add: backoff_after_closed)

lemma attempt_fails:
  assumes "cc_dials s = [] \<or> (\<exists>ds. cc_dials s = None # ds)"
  shows "cc_current_backoff_sec (attempt_connect env now s) =
      (if cc_current_backoff_sec s = 0 then cfg_initial_backoff_sec (cc_cfg s)
       else min (cc_current_backoff_sec s * 2) (cfg_max_backoff_sec (cc_cfg s)))"
    and "cc_next_reconnect_at (attempt_connect env now s) = now + cc_current_backoff_sec (attempt_connect env now s)"
    and "cc_transport (attempt_connect env now s) = cc_transport s"
    and "cc_disconnect_pending (attempt_connect env now s) = cc_disconnect_pending s"
    and "cc_cfg (attempt_connect env now s) = cc_cfg s"
    and "cc_dials (attempt_connect env now s) = tl (cc_dials s)"
    and "cc_reconnect_attempts (attempt_connect env now s) = cc_reconnect_attempts s + 1"
  using assms by (auto simp: attempt_connect_def Let_def)

text \<open>Clock readings, each late enough for the next attempt.\<close>

fun backed_off :: "'a connector_scheme connector_env \<Rightarrow> int list \<Rightarrow> 'a connector_scheme \<Rightarrow> bool" where
  "backed_off env [] s = True"
| "backed_off env (t # ts) s = (cc_next_reconnect_at s \<le> t \<and> backed_off env ts (cc_tick env t s))"

lemma failing_ticks:
  assumes "cc_transport s = None" and "\<not> cc_disconnect_pending s" and "\<forall>d \<in> set (cc_dials s). d = None"
    and "cc_current_backoff_sec s = backoff_after (cfg_initial_backoff_sec (cc_cfg s)) (cfg_max_backoff_sec (cc_cfg s)) n"
    and "0 < cfg_initial_backoff_sec (cc_cfg s)" and "cfg_initial_backoff_sec (cc_cfg s) \<le> cfg_max_backoff_sec (cc_cfg s)"
    and "backed_off env ts s"
  shows "cc_current_backoff_sec (fold (cc_tick env) ts s) =
    backoff_after (cfg_initial_backoff_sec (cc_cfg s)) (cfg_max_backoff_sec (cc_cfg s)) (n + length ts)"
  using assms
proof (induction ts arbitrary: s n)
  case (Cons t ts)
  let ?s = "attempt_connect env t s"
  have tick: "cc_tick env t s = ?s" using Cons.prems by (simp add: cc_tick_def Let_def)
  have dials: "cc_dials s = [] \<or> (\<exists>ds. cc_dials s = None # ds)"
    using Cons.prems(3) by (cases "cc_dials s") auto
  note f = attempt_fails[OF dials, of env t]
  have "cc_current_backoff_sec ?s =
      backoff_after (cfg_initial_backoff_sec (cc_cfg s)) (cfg_max_backoff_sec (cc_cfg s)) (Suc n)"
  proof (cases n)
    case 0
    with f(1) Cons.prems(4) show ?thesis by simp
  next
    case (Suc m)
    with f(1) Cons.prems(4-6) backoff_after_pos[OF Cons.prems(5,6), of m] show ?thesis by auto
  qed
  then have "cc_current_backoff_sec (fold (cc_tick env) ts ?s) = backoff_after
      (cfg_initial_backoff_sec (cc_cfg ?s)) (cfg_max_backoff_sec (cc_cfg ?s)) (Suc n + length ts)"
    by (intro Cons.IH) (use Cons.prems f(2-6) tick dials in auto)
  then show ?case by (simp add: tick f(5))
qed simp

end
