(* ===== verification/Ari_Rest.thy ===== *)
theory Ari_Rest
  imports Cpp_String
begin

unbundle bit_operations_syntax

text \<open>
  The REST client to Asterisk, \<^verbatim>\<open>AriRestClient\<close>
  (\<^verbatim>\<open>pbx-agent/src/main/ari_rest_client.cpp\<close>): request texts, response parsing, URL and base64
  encoding.  Its users (\<^verbatim>\<open>CallRouter\<close>, \<^verbatim>\<open>AriClient\<close>, \<^verbatim>\<open>PjsipProvisioner\<close>) see the interface
  \<^verbatim>\<open>IAriRest\<close>: one constructor of \<^verbatim>\<open>ari_req\<close> per method, and a state with the calls made
  (\<^verbatim>\<open>ar_log\<close>) and what the socket will answer (\<^verbatim>\<open>ar_io\<close>; an exhausted list stands for a refused
  connection).
\<close>

section \<open>Encodings\<close>

definition is_unreserved :: "char \<Rightarrow> bool" where
  "is_unreserved c \<longleftrightarrow> is_alnum c \<or> c \<in> {CHR ''-'', CHR ''_'', CHR ''.'', CHR ''~''}"

definition hex_digit :: "nat \<Rightarrow> char" where
  "hex_digit d = (if d < 10 then char_of (48 + d) else char_of (55 + d))"

definition url_encode_char :: "char \<Rightarrow> string" where
  "url_encode_char c =
     (if is_unreserved c then [c]
      else [CHR ''%'', hex_digit (of_char c div 16), hex_digit (of_char c mod 16)])"

definition url_encode :: "string \<Rightarrow> string" where
  "url_encode s = concat (map url_encode_char s)"

definition b64_alpha :: string where
  "b64_alpha = ''ABCDEFGHIJKLMNOPQRSTUVWXYZabcdefghijklmnopqrstuvwxyz0123456789+/''"

definition b64_char :: "u32 \<Rightarrow> char" where
  "b64_char v = b64_alpha ! unat (v AND 0x3F)"

fun base64_encode :: "string \<Rightarrow> string" where
  "base64_encode (c0 # c1 # c2 # cs) =
     (let b0 = of_char c0 :: u32; b1 = of_char c1; b2 = of_char c2
      in [b64_char (drop_bit 2 b0), b64_char (push_bit 4 b0 OR drop_bit 4 b1),
          b64_char (push_bit 2 b1 OR drop_bit 6 b2), b64_char b2] @ base64_encode cs)"
| "base64_encode [c0] =
     (let b0 = of_char c0 :: u32
      in [b64_char (drop_bit 2 b0), b64_char (push_bit 4 b0), CHR ''='', CHR ''=''])"
| "base64_encode [c0, c1] =
     (let b0 = of_char c0 :: u32; b1 = of_char c1
      in [b64_char (drop_bit 2 b0), b64_char (push_bit 4 b0 OR drop_bit 4 b1),
          b64_char (push_bit 2 b1), CHR ''=''])"
| "base64_encode [] = []"

section \<open>Requests\<close>

record ari_config =
  ac_host :: string
  ac_username :: string
  ac_password :: string

text \<open>The tail shared by every request without a body.\<close>

definition request_tail :: "string \<Rightarrow> string \<Rightarrow> string" where
  "request_tail host basic_auth =
     '' HTTP/1.1'' @ crlf @ ''Host: '' @ host @ crlf @ ''Authorization: Basic '' @ basic_auth @ crlf @
     ''Content-Length: 0'' @ crlf @ ''Connection: close'' @ crlf @ crlf"

fun join_sources :: "string list \<Rightarrow> string" where
  "join_sources [] = []"
| "join_sources [s] = ''eventSource='' @ url_encode s"
| "join_sources (s # ss) = ''eventSource='' @ url_encode s @ ''&'' @ join_sources ss"

definition build_subscribe_request :: "string \<Rightarrow> string list \<Rightarrow> string \<Rightarrow> string \<Rightarrow> string" where
  "build_subscribe_request app sources host basic =
     ''POST /ari/applications/'' @ url_encode app @ ''/subscription?'' @ join_sources sources @
     request_tail host basic"

definition build_continue_request :: "string \<Rightarrow> string \<Rightarrow> string \<Rightarrow> nat \<Rightarrow> string \<Rightarrow> string \<Rightarrow> string" where
  "build_continue_request channel_id ctx extension priority host basic =
     ''POST /ari/channels/'' @ url_encode channel_id @ ''/continue'' @ ''?context='' @ url_encode ctx @
     ''&extension='' @ url_encode extension @ ''&priority='' @ dec_string priority @ request_tail host basic"

definition build_originate_request ::
  "string \<Rightarrow> string \<Rightarrow> string \<Rightarrow> string \<Rightarrow> string \<Rightarrow> string \<Rightarrow> string \<Rightarrow> string" where
  "build_originate_request endpoint app app_args channel_id caller_id host basic =
     ''POST /ari/channels'' @ ''?endpoint='' @ url_encode endpoint @ ''&app='' @ url_encode app @
     ''&appArgs='' @ url_encode app_args @ ''&channelId='' @ url_encode channel_id @
     ''&formats='' @ url_encode ''opus,ulaw,alaw'' @
     (if caller_id = [] then [] else ''&callerId='' @ url_encode caller_id) @ request_tail host basic"

definition build_create_bridge_request :: "string \<Rightarrow> string \<Rightarrow> string \<Rightarrow> string \<Rightarrow> string" where
  "build_create_bridge_request bridge_id typ host basic =
     ''POST /ari/bridges'' @ ''?type='' @ url_encode typ @ ''&bridgeId='' @ url_encode bridge_id @
     request_tail host basic"

definition build_add_channel_request :: "string \<Rightarrow> string \<Rightarrow> string \<Rightarrow> string \<Rightarrow> string" where
  "build_add_channel_request bridge_id channel_id host basic =
     ''POST /ari/bridges/'' @ url_encode bridge_id @ ''/addChannel'' @ ''?channel='' @
     url_encode channel_id @ request_tail host basic"

definition build_hangup_request :: "string \<Rightarrow> string \<Rightarrow> string \<Rightarrow> string \<Rightarrow> string" where
  "build_hangup_request channel_id reason host basic =
     ''DELETE /ari/channels/'' @ url_encode channel_id @ ''?reason='' @ url_encode reason @
     request_tail host basic"

definition build_answer_request :: "string \<Rightarrow> string \<Rightarrow> string \<Rightarrow> string" where
  "build_answer_request channel_id host basic =
     ''POST /ari/channels/'' @ url_encode channel_id @ ''/answer'' @ request_tail host basic"

definition build_get_endpoint_request :: "string \<Rightarrow> string \<Rightarrow> string \<Rightarrow> string \<Rightarrow> string" where
  "build_get_endpoint_request tech res host basic =
     ''GET /ari/endpoints/'' @ url_encode tech @ ''/'' @ url_encode res @ request_tail host basic"

definition build_list_endpoints_request :: "string \<Rightarrow> string \<Rightarrow> string \<Rightarrow> string" where
  "build_list_endpoints_request tech host basic =
     ''GET /ari/endpoints/'' @ url_encode tech @ request_tail host basic"

definition build_create_dynamic_config_request ::
  "string \<Rightarrow> string \<Rightarrow> string \<Rightarrow> string \<Rightarrow> string \<Rightarrow> string \<Rightarrow> string" where
  "build_create_dynamic_config_request cfg_class obj_type oid fields_json host basic =
     ''PUT /ari/asterisk/config/dynamic/'' @ url_encode cfg_class @ ''/'' @ url_encode obj_type @ ''/'' @
     url_encode oid @ '' HTTP/1.1'' @ crlf @ ''Host: '' @ host @ crlf @
     ''Authorization: Basic '' @ basic @ crlf @ ''Content-Type: application/json'' @ crlf @
     ''Content-Length: '' @ dec_string (length fields_json) @ crlf @ ''Connection: close'' @ crlf @ crlf @
     fields_json"

definition build_delete_dynamic_config_request ::
  "string \<Rightarrow> string \<Rightarrow> string \<Rightarrow> string \<Rightarrow> string \<Rightarrow> string" where
  "build_delete_dynamic_config_request cfg_class obj_type oid host basic =
     ''DELETE /ari/asterisk/config/dynamic/'' @ url_encode cfg_class @ ''/'' @ url_encode obj_type @ ''/'' @
     url_encode oid @ request_tail host basic"

section \<open>Responses\<close>

type_synonym ari_response = "int \<times> string"

definition parse_response :: "string \<Rightarrow> ari_response" where
  "parse_response raw =
     (case str_find raw crlf of
        None \<Rightarrow> (0, [])
      | Some eol \<Rightarrow>
          (let status_line = substr raw 0 eol
           in if take 7 status_line \<noteq> ''HTTP/1.'' then (0, [])
              else case str_find status_line '' '' of
                     None \<Rightarrow> (0, [])
                   | Some sp1 \<Rightarrow>
                       (let code = (case str_find_from status_line '' '' (sp1 + 1) of
                                      None \<Rightarrow> drop (sp1 + 1) status_line
                                    | Some sp2 \<Rightarrow> substr status_line (sp1 + 1) (sp2 - sp1 - 1))
                        in case stoi code of
                             Inl _ \<Rightarrow> (0, [])
                           | Inr status \<Rightarrow>
                               (case str_find raw (crlf @ crlf) of
                                  None \<Rightarrow> (status, [])
                                | Some body_pos \<Rightarrow> (status, drop (body_pos + 4) raw)))))"

section \<open>The interface\<close>

datatype ari_req =
    Subscribe string "string list"
  | ContinueInDialplan string string string nat
  | Originate string string string string string
  | CreateBridge string string
  | AddChannelToBridge string string
  | Hangup string string
  | Answer string
  | GetEndpoint string string
  | ListEndpoints string
  | CreateDynamicConfig string string string string
  | DeleteDynamicConfig string string string

definition ari_request_text :: "ari_config \<Rightarrow> ari_req \<Rightarrow> string" where
  "ari_request_text cfg req =
     (let host = ac_host cfg; basic = base64_encode (ac_username cfg @ '':'' @ ac_password cfg)
      in case req of
           Subscribe app srcs \<Rightarrow> build_subscribe_request app srcs host basic
         | ContinueInDialplan ch ctx ext pri \<Rightarrow> build_continue_request ch ctx ext pri host basic
         | Originate ep app args ch cid \<Rightarrow> build_originate_request ep app args ch cid host basic
         | CreateBridge b t \<Rightarrow> build_create_bridge_request b t host basic
         | AddChannelToBridge b ch \<Rightarrow> build_add_channel_request b ch host basic
         | Hangup ch r \<Rightarrow> build_hangup_request ch r host basic
         | Answer ch \<Rightarrow> build_answer_request ch host basic
         | GetEndpoint t r \<Rightarrow> build_get_endpoint_request t r host basic
         | ListEndpoints t \<Rightarrow> build_list_endpoints_request t host basic
         | CreateDynamicConfig c t i f \<Rightarrow> build_create_dynamic_config_request c t i f host basic
         | DeleteDynamicConfig c t i \<Rightarrow> build_delete_dynamic_config_request c t i host basic)"

text \<open>The socket of one request: no connection or a short write, or the reads until end of file.\<close>

datatype ari_io = IoFail | IoReads "string list"

definition kMaxResponse :: nat where "kMaxResponse = 1 * 1024 * 1024"

fun read_response :: "string \<Rightarrow> string list \<Rightarrow> string option" where
  "read_response buf [] = Some buf"
| "read_response buf (chunk # cs) =
     (if chunk = [] then Some buf
      else if length buf + length chunk > kMaxResponse then None
      else read_response (buf @ chunk) cs)"

definition do_request :: "ari_io \<Rightarrow> ari_response" where
  "do_request io =
     (case io of
        IoFail \<Rightarrow> (0, [])
      | IoReads cs \<Rightarrow> (case read_response [] cs of None \<Rightarrow> (0, []) | Some buf \<Rightarrow> parse_response buf))"

record rest =
  ar_cfg :: ari_config
  ar_log :: "ari_req list"
  ar_io :: "ari_io list"

definition rest_call :: "ari_req \<Rightarrow> 'a rest_scheme \<Rightarrow> ari_response \<times> 'a rest_scheme" where
  "rest_call req s =
     (let (io, rest) = (case ar_io s of [] \<Rightarrow> (IoFail, []) | io # ios \<Rightarrow> (io, ios))
      in (do_request io, s\<lparr>ar_log := ar_log s @ [req], ar_io := rest\<rparr>))"

definition is_2xx :: "int \<Rightarrow> bool" where
  "is_2xx status \<longleftrightarrow> 200 \<le> status \<and> status < 300"

text \<open>A call whose answer is not looked at.\<close>

definition rest_do :: "ari_req \<Rightarrow> 'a rest_scheme \<Rightarrow> 'a rest_scheme" where
  "rest_do req s = snd (rest_call req s)"

lemma rest_call_log [simp]: "ar_log (snd (rest_call req s)) = ar_log s @ [req]"
  by (simp add: rest_call_def Let_def split: list.split)

lemma rest_do_log [simp]: "ar_log (rest_do req s) = ar_log s @ [req]"
  by (simp add: rest_do_def)

lemma rest_do_io [simp]: "ar_io (rest_do req s) = drop 1 (ar_io s)"
  by (simp add: rest_do_def rest_call_def Let_def split: list.split)

section \<open>URL encoding\<close>

text \<open>The reference decoder of percent-encoding.\<close>

definition hex_value :: "char \<Rightarrow> nat" where
  "hex_value c = (let n = (of_char c :: nat) in if n < 65 then n - 48 else n - 55)"

fun url_decode :: "string \<Rightarrow> string" where
  "url_decode (c # h # l # cs) =
     (if c = CHR ''%'' then char_of (hex_value h * 16 + hex_value l) # url_decode cs
      else c # url_decode (h # l # cs))"
| "url_decode (c # cs) = c # url_decode cs"
| "url_decode [] = []"

lemma hex_value_digit: "d < 16 \<Longrightarrow> hex_value (hex_digit d) = d"
  by (auto simp: hex_value_def hex_digit_def Let_def)

lemma unreserved_not_percent: "is_unreserved c \<Longrightarrow> c \<noteq> CHR ''%''"
  by (auto simp: is_unreserved_def is_alnum_def Let_def)

lemma url_decode_plain: "c \<noteq> CHR ''%'' \<Longrightarrow> url_decode (c # cs) = c # url_decode cs"
  by (cases "c # cs" rule: url_decode.cases) auto

lemma url_decode_encode: "url_decode (url_encode s) = s"
proof (induction s)
  case (Cons c s)
  have "url_decode (url_encode_char c @ r) = c # url_decode r" for r
  proof (cases "is_unreserved c")
    case True
    then show ?thesis
      using unreserved_not_percent[OF True] by (simp add: url_encode_char_def url_decode_plain)
  next
    case False
    have "of_char c div 16 * 16 + of_char c mod 16 = (of_char c :: nat)" by simp
    moreover have "(of_char c :: nat) div 16 < 16" using of_char_less_256[of c] by (simp add: div_less_iff_less_mult)
    ultimately show ?thesis
      using False by (simp add: url_encode_char_def hex_value_digit)
  qed
  with Cons show ?case by (simp add: url_encode_def)
qed (simp add: url_encode_def)

lemma hex_digit_alnum: "d < 16 \<Longrightarrow> is_alnum (hex_digit d)"
  by (auto simp: is_alnum_def hex_digit_def Let_def)

lemma url_encode_safe: "\<forall>c \<in> set (url_encode s). is_unreserved c \<or> c = CHR ''%''"
proof -
  have "\<forall>x \<in> set (url_encode_char c). is_unreserved x \<or> x = CHR ''%''" for c
  proof -
    have "(of_char c :: nat) div 16 < 16" using of_char_less_256[of c] by (simp add: div_less_iff_less_mult)
    then show ?thesis
      by (simp add: url_encode_char_def is_unreserved_def hex_digit_alnum)
  qed
  then show ?thesis by (auto simp: url_encode_def)
qed

section \<open>Base64\<close>

text \<open>The reference decoder: four characters give up to three bytes.\<close>

definition b64_value :: "char \<Rightarrow> u32" where
  "b64_value c = of_nat (length (takeWhile (\<lambda>x. x \<noteq> c) b64_alpha))"

fun base64_decode :: "string \<Rightarrow> string" where
  "base64_decode (a # b # c # d # cs) =
     (let v0 = b64_value a; v1 = b64_value b; v2 = b64_value c; v3 = b64_value d
      in if c = CHR ''='' then [char_of (unat ((push_bit 2 v0 OR drop_bit 4 v1) AND 0xFF))]
         else if d = CHR ''='' then [char_of (unat ((push_bit 2 v0 OR drop_bit 4 v1) AND 0xFF)),
                                  char_of (unat ((push_bit 4 v1 OR drop_bit 2 v2) AND 0xFF))]
         else [char_of (unat ((push_bit 2 v0 OR drop_bit 4 v1) AND 0xFF)),
               char_of (unat ((push_bit 4 v1 OR drop_bit 2 v2) AND 0xFF)),
               char_of (unat ((push_bit 6 v2 OR v3) AND 0xFF))] @ base64_decode cs)"
| "base64_decode _ = []"

lemma length_b64_alpha: "length b64_alpha = 64"
  by (simp add: b64_alpha_def)

lemma distinct_b64_alpha: "distinct b64_alpha"
  by (simp add: b64_alpha_def)

lemma takeWhile_distinct_index: "distinct xs \<Longrightarrow> i < length xs \<Longrightarrow> length (takeWhile (\<lambda>x. x \<noteq> xs ! i) xs) = i"
proof (induction xs arbitrary: i)
  case (Cons x xs)
  then show ?case by (cases i) auto
qed simp

lemma b64_value_char: "b64_value (b64_char v) = take_bit 6 v"
proof -
  have "v AND 0x3F = take_bit 6 v" by (simp add: take_bit_eq_mask mask_eq_exp_minus_1)
  moreover have "unat (take_bit 6 v) < 64"
    using take_bit_nat_less_exp[of 6 "unat v"] by (simp add: unsigned_take_bit_eq)
  ultimately show ?thesis
    by (simp add: b64_value_def b64_char_def takeWhile_distinct_index distinct_b64_alpha length_b64_alpha)
qed

lemma b64_char_not_pad: "b64_char v \<noteq> CHR ''=''"
proof -
  have "unat (v AND 0x3F) < 64"
  proof -
    have "v AND 0x3F = take_bit 6 v" by (simp add: take_bit_eq_mask mask_eq_exp_minus_1)
    then show ?thesis using take_bit_nat_less_exp[of 6 "unat v"] by (simp add: unsigned_take_bit_eq)
  qed
  then have "b64_char v \<in> set b64_alpha" by (simp add: b64_char_def length_b64_alpha)
  moreover have "CHR ''='' \<notin> set b64_alpha" by (simp add: b64_alpha_def)
  ultimately show ?thesis by metis
qed

lemma b64_bytes:
  fixes b0 b1 b2 :: u32
  assumes "take_bit 8 b0 = b0" and "take_bit 8 b1 = b1" and "take_bit 8 b2 = b2"
  shows "(push_bit 2 (take_bit 6 (drop_bit 2 b0)) OR drop_bit 4 (take_bit 6 (push_bit 4 b0 OR drop_bit 4 b1))) AND 0xFF = b0"
    and "(push_bit 4 (take_bit 6 (push_bit 4 b0 OR drop_bit 4 b1)) OR
      drop_bit 2 (take_bit 6 (push_bit 2 b1 OR drop_bit 6 b2))) AND 0xFF = b1"
    and "(push_bit 6 (take_bit 6 (push_bit 2 b1 OR drop_bit 6 b2)) OR take_bit 6 b2) AND 0xFF = b2"
proof -
  have hi: "8 \<le> n \<Longrightarrow> \<not> bit b0 n" "8 \<le> n \<Longrightarrow> \<not> bit b1 n" "8 \<le> n \<Longrightarrow> \<not> bit b2 n" for n
    using assms by (metis bit_take_bit_iff not_le)+
  have eqI: "x = y" if "\<And>n. 8 \<le> n \<Longrightarrow> bit x n = bit y n" "bit x 0 = bit y 0" "bit x 1 = bit y 1" "bit x 2 = bit y 2"
    "bit x 3 = bit y 3" "bit x 4 = bit y 4" "bit x 5 = bit y 5" "bit x 6 = bit y 6" "bit x 7 = bit y 7" for x y :: u32
  proof (rule bit_word_eqI)
    fix n :: nat
    consider "8 \<le> n" | "n \<in> {0, 1, 2, 3, 4, 5, 6, 7}" by fastforce
    then show "bit x n = bit y n" by cases (use that in auto)
  qed
  show "(push_bit 2 (take_bit 6 (drop_bit 2 b0)) OR drop_bit 4 (take_bit 6 (push_bit 4 b0 OR drop_bit 4 b1))) AND 0xFF = b0"
    unfolding and_FF_take_bit by (rule eqI) (simp_all add: bit_simps hi)
  show "(push_bit 4 (take_bit 6 (push_bit 4 b0 OR drop_bit 4 b1)) OR
      drop_bit 2 (take_bit 6 (push_bit 2 b1 OR drop_bit 6 b2))) AND 0xFF = b1"
    unfolding and_FF_take_bit by (rule eqI) (simp_all add: bit_simps hi)
  show "(push_bit 6 (take_bit 6 (push_bit 2 b1 OR drop_bit 6 b2)) OR take_bit 6 b2) AND 0xFF = b2"
    unfolding and_FF_take_bit by (rule eqI) (simp_all add: bit_simps hi)
qed

lemma base64_decode_encode: "base64_decode (base64_encode s) = s"
proof (induction s rule: base64_encode.induct)
  case (1 c0 c1 c2 cs)
  then show ?case
    using b64_bytes[of "of_char c0" "of_char c1" "of_char c2"]
    by (simp add: Let_def b64_char_not_pad b64_value_char)
next
  case (2 c0)
  then show ?case
    using b64_bytes(1)[of "of_char c0" 0 0] by (simp add: Let_def b64_value_char)
next
  case (3 c0 c1)
  then show ?case
    using b64_bytes(1,2)[of "of_char c0" "of_char c1" 0] by (simp add: Let_def b64_char_not_pad b64_value_char)
qed simp

section \<open>Parsing what a server sends\<close>

lemma read_response_concat:
  "\<forall>c \<in> set cs. c \<noteq> [] \<Longrightarrow> length (buf @ concat cs) \<le> kMaxResponse \<Longrightarrow>
     read_response buf cs = Some (buf @ concat cs)"
  by (induction cs arbitrary: buf) auto

lemma status_line_ok: "CHR 0x0D \<notin> set reason \<Longrightarrow> line_ok (''HTTP/1.1 '' @ dec_string n @ '' '' @ reason)"
proof -
  have "CHR 0x0D \<notin> set (dec_string n)" using dec_string_digits[of n] by (auto simp: is_digit_def)
  then show "CHR 0x0D \<notin> set reason \<Longrightarrow> ?thesis" by (simp add: line_ok_def)
qed

lemma parse_response_ok:
  assumes "int n < 2 ^ 31" and "CHR 0x0D \<notin> set reason" and "list_all line_ok hs"
  shows "parse_response (unlines ((''HTTP/1.1 '' @ dec_string n @ '' '' @ reason) # hs) @ crlf @ body) = (int n, body)"
proof -
  let ?l = "''HTTP/1.1 '' @ dec_string n @ '' '' @ reason"
  let ?raw = "unlines (?l # hs) @ crlf @ body"
  have l: "line_ok ?l" by (rule status_line_ok[OF assms(2)])
  have eol: "str_find ?raw crlf = Some (length ?l)"
    using str_find_crlf[of ?l "unlines hs @ crlf @ body"] l by (simp add: line_ok_def)
  have blank: "str_find ?raw (crlf @ crlf) = Some (length (unlines (?l # hs)) - 2)"
    using str_find_blank_line[of "?l # hs" body] l assms(3) by simp
  have body: "drop (length (unlines (?l # hs)) - 2 + 4) ?raw = body" by (rule drop_blank_line) simp
  have line: "substr ?raw 0 (length ?l) = ?l" by (simp add: substr_def)
  have sp: "CHR '' '' \<notin> set (dec_string n)" using dec_string_digits[of n] by (auto simp: is_digit_def)
  have sp1: "str_find ?l '' '' = Some 8"
    using str_find_char_first[of "CHR '' ''" "''HTTP/1.1''" "dec_string n @ '' '' @ reason"] by simp
  have sp2: "str_find_from ?l '' '' 9 = Some (9 + length (dec_string n))"
    using str_find_char_first[OF sp, of reason] by (simp add: str_find_from_def)
  have code: "substr ?l 9 (length (dec_string n)) = dec_string n" by (simp add: substr_def)
  have "stoi (dec_string n) = Inr (int n)" using stoi_dec_string[OF assms(1), of "[]"] by simp
  then show ?thesis
    unfolding parse_response_def eol option.case Let_def line sp1
    using sp2 code blank body by (simp add: Let_def)
qed

end
