(* ===== verification/Call_Router.thy ===== *)
theory Call_Router
  imports Ari_Rest
begin

text \<open>
  The forked-ring call router, \<^verbatim>\<open>CallRouter\<close> (\<^verbatim>\<open>pbx-agent/src/main/call_router.cpp\<close>): resolving a
  dialed extension, ringing one leg per target, bridging the first that answers and tearing down
  the others.  The router's record extends the state of the REST client it calls; the database
  client and the JSON library are parameters (\<^verbatim>\<open>router_env\<close>; \<^verbatim>\<open>None\<close> is an exception).

  \<^verbatim>\<open>ringing_legs\<close> is an unordered set, kept as a list without duplicates.
\<close>

section \<open>State\<close>

record router_env =
  re_json :: json_lib
  re_get_documents :: "string \<Rightarrow> string \<Rightarrow> string \<Rightarrow> string option"

record pending_call =
  pc_dialed_ext :: string
  pc_ringing_legs :: "string list"
  pc_connected_leg :: string

record router = rest +
  cr_society_id :: string
  cr_app_name :: string
  cr_calls :: "(string, pending_call) umap"
  cr_leg_to_caller :: "(string, string) umap"

section \<open>Resolving targets\<close>

definition target_filter :: "string \<Rightarrow> string \<Rightarrow> json" where
  "target_filter society_id dialed_ext =
     (if dialed_ext = ''0''
      then JObject [(''role'', JString ''guard''), (''societyId'', JString society_id)]
      else JObject [(''flatNumber'', JString dialed_ext), (''societyId'', JString society_id)])"

text \<open>One row: an object that is not marked with another status than active gives its user, if any.\<close>

definition row_target :: "json \<Rightarrow> string option" where
  "row_target row =
     (if \<not> j_is_object row then None
      else case j_get_string row ''status'' of
             Some st \<Rightarrow> (if st \<noteq> ''active'' then None
                         else case j_get_string row ''sipUsername'' of
                                Some user \<Rightarrow> (if user \<noteq> [] then Some user else None) | None \<Rightarrow> None)
           | None \<Rightarrow> (case j_get_string row ''sipUsername'' of
                        Some user \<Rightarrow> (if user \<noteq> [] then Some user else None) | None \<Rightarrow> None))"

definition resolve_targets :: "router_env \<Rightarrow> string \<Rightarrow> string \<Rightarrow> string list" where
  "resolve_targets env society_id dialed_ext =
     (if dialed_ext = [] then []
      else case js_dump (re_json env) (target_filter society_id dialed_ext) of
             None \<Rightarrow> []
           | Some flt \<Rightarrow>
               (case re_get_documents env ''subscribers'' flt ''{}'' of
                  None \<Rightarrow> []
                | Some rows \<Rightarrow>
                    (if rows = [] then []
                     else case js_parse (re_json env) rows of
                            Some (JArray arr) \<Rightarrow> List.map_filter row_target arr
                          | _ \<Rightarrow> [])))"

section \<open>The forked ring\<close>

definition leg_name :: "string \<Rightarrow> nat \<Rightarrow> string" where
  "leg_name caller i = caller @ ''-leg-'' @ dec_string i"

definition bridge_name :: "string \<Rightarrow> string" where
  "bridge_name caller = caller @ ''-bridge''"

text \<open>The loop of \<^verbatim>\<open>on_caller_start\<close>: originate one leg per target, tracking those that were accepted.\<close>

fun fork_legs :: "string \<Rightarrow> string \<Rightarrow> nat \<Rightarrow> string list \<Rightarrow> string list \<Rightarrow> 'a router_scheme
    \<Rightarrow> string list \<times> 'a router_scheme" where
  "fork_legs caller caller_id i [] legs s = (legs, s)"
| "fork_legs caller caller_id i (user # users) legs s =
     (let leg = leg_name caller i;
          (r, s1) = rest_call (Originate (''PJSIP/'' @ user) (cr_app_name s) (''outbound'' @ '','' @ caller)
                                leg caller_id) s
      in if is_2xx (fst r)
         then fork_legs caller caller_id (i + 1) users (List.insert leg legs)
                (s1\<lparr>cr_leg_to_caller := um_put leg caller (cr_leg_to_caller s1)\<rparr>)
         else fork_legs caller caller_id (i + 1) users legs s1)"

definition on_caller_start ::
  "router_env \<Rightarrow> string \<Rightarrow> string \<Rightarrow> string \<Rightarrow> 'a router_scheme \<Rightarrow> 'a router_scheme" where
  "on_caller_start env caller caller_id dialed_ext s =
     (if um_find (cr_calls s) caller \<noteq> None then s
      else let targets = resolve_targets env (cr_society_id s) dialed_ext
           in if targets = [] then rest_do (Hangup caller ''congestion'') s
              else let (legs, s1) = fork_legs caller caller_id 0 targets [] s
                   in if legs = [] then rest_do (Hangup caller ''congestion'') s1
                      else s1\<lparr>cr_calls := um_emplace caller
                                \<lparr>pc_dialed_ext = dialed_ext, pc_ringing_legs = legs, pc_connected_leg = []\<rparr>
                                (cr_calls s1)\<rparr>)"

definition hangup_all :: "string list \<Rightarrow> string \<Rightarrow> 'a router_scheme \<Rightarrow> 'a router_scheme" where
  "hangup_all legs reason s = fold (\<lambda>leg. rest_do (Hangup leg reason)) legs s"

definition on_leg_start :: "string \<Rightarrow> string \<Rightarrow> 'a router_scheme \<Rightarrow> 'a router_scheme" where
  "on_leg_start leg caller s =
     (case um_find (cr_calls s) caller of
        None \<Rightarrow> rest_do (Hangup leg ''normal'') s
      | Some call \<Rightarrow>
          (if pc_connected_leg call \<noteq> [] then
             (if pc_connected_leg call = leg then s
              else let s1 = rest_do (Hangup leg ''answered'') s
                   in s1\<lparr>cr_calls := um_put caller
                            (call\<lparr>pc_ringing_legs := remove1 leg (pc_ringing_legs call)\<rparr>) (cr_calls s1)\<rparr>)
           else
             (let losers = remove1 leg (pc_ringing_legs call);
                  s1 = rest_do (Answer caller) s;
                  s2 = rest_do (CreateBridge (bridge_name caller) ''mixing'') s1;
                  s3 = rest_do (AddChannelToBridge (bridge_name caller) caller) s2;
                  s4 = rest_do (AddChannelToBridge (bridge_name caller) leg) s3;
                  s5 = hangup_all losers ''answered'' s4
              in s5\<lparr>cr_calls := um_put caller
                       (call\<lparr>pc_connected_leg := leg, pc_ringing_legs := []\<rparr>) (cr_calls s5)\<rparr>)))"

definition on_channel_gone :: "string \<Rightarrow> 'a router_scheme \<Rightarrow> 'a router_scheme" where
  "on_channel_gone channel_id s =
     (case um_find (cr_calls s) channel_id of
        Some call \<Rightarrow>
          (let s1 = hangup_all (pc_ringing_legs call) ''normal'' s;
               s2 = (if pc_connected_leg call \<noteq> []
                     then rest_do (Hangup (pc_connected_leg call) ''normal'') s1 else s1)
           in s2\<lparr>cr_calls := um_erase channel_id (cr_calls s2)\<rparr>)
      | None \<Rightarrow>
          (case um_find (cr_leg_to_caller s) channel_id of
             None \<Rightarrow> s
           | Some caller \<Rightarrow>
               (let s1 = s\<lparr>cr_leg_to_caller := um_erase channel_id (cr_leg_to_caller s)\<rparr>
                in case um_find (cr_calls s1) caller of
                     None \<Rightarrow> s1
                   | Some call \<Rightarrow>
                       (if channel_id = pc_connected_leg call then
                          (let s2 = rest_do (Hangup caller ''normal'') s1
                           in s2\<lparr>cr_calls := um_erase caller (cr_calls s2)\<rparr>)
                        else
                          (let legs = remove1 channel_id (pc_ringing_legs call)
                           in if pc_connected_leg call = [] \<and> legs = [] then
                                (let s2 = rest_do (Hangup caller ''no_answer'') s1
                                 in s2\<lparr>cr_calls := um_erase caller (cr_calls s2)\<rparr>)
                              else s1\<lparr>cr_calls := um_put caller (call\<lparr>pc_ringing_legs := legs\<rparr>) (cr_calls s1)\<rparr>)))))"

section \<open>Facts\<close>

lemma rest_fields [simp]:
  "cr_calls (rest_do r s) = cr_calls s" "cr_leg_to_caller (rest_do r s) = cr_leg_to_caller s"
  "cr_society_id (rest_do r s) = cr_society_id s" "cr_app_name (rest_do r s) = cr_app_name s"
  "cr_calls (snd (rest_call r s)) = cr_calls s" "cr_leg_to_caller (snd (rest_call r s)) = cr_leg_to_caller s"
  "cr_app_name (snd (rest_call r s)) = cr_app_name s" "cr_society_id (snd (rest_call r s)) = cr_society_id s"
  by (simp_all add: rest_do_def rest_call_def Let_def split: list.split)

lemma hangup_all_fields [simp]:
  "cr_calls (hangup_all ls r s) = cr_calls s" "cr_leg_to_caller (hangup_all ls r s) = cr_leg_to_caller s"
  "cr_society_id (hangup_all ls r s) = cr_society_id s"
  "ar_log (hangup_all ls r s) = ar_log s @ map (\<lambda>l. Hangup l r) ls"
  by (induction ls arbitrary: s) (simp_all add: hangup_all_def)

lemma channel_gone_society [simp]: "cr_society_id (on_channel_gone ch s) = cr_society_id s"
  by (auto simp: on_channel_gone_def Let_def split: option.split)

text \<open>Leg names determine the caller and the position: the digits at the end are the position.\<close>

lemma leg_name_inj: "leg_name c i = leg_name c' i' \<longleftrightarrow> c = c' \<and> i = i'"
proof
  assume eq: "leg_name c i = leg_name c' i'"
  have digits: "takeWhile is_digit (rev (leg_name x j)) = rev (dec_string j)" for x j
  proof -
    have "\<forall>y \<in> set (rev (dec_string j)). is_digit y" using dec_string_digits by simp
    moreover have "rev (leg_name x j) = rev (dec_string j) @ CHR ''-'' # rev (x @ ''-leg'')"
      by (simp add: leg_name_def)
    moreover have "\<not> is_digit (CHR ''-'')" by (simp add: is_digit_def)
    ultimately show ?thesis using takeWhile_stop by metis
  qed
  have "rev (dec_string i) = rev (dec_string i')" using eq digits[of c i] digits[of c' i'] by simp
  then have "i = i'" using dec_string_inj by simp
  with eq show "c = c' \<and> i = i'" by (simp add: leg_name_def)
qed simp

text \<open>
  The invariant: a call that nobody has answered still has a leg ringing, an answered call has none
  left, legs ring once, and every ringing leg is routed back to its own call.
\<close>

definition call_ok :: "(string, string) umap \<Rightarrow> string \<Rightarrow> pending_call \<Rightarrow> bool" where
  "call_ok legs caller call \<longleftrightarrow> distinct (pc_ringing_legs call) \<and>
     (pc_connected_leg call = [] \<longleftrightarrow> pc_ringing_legs call \<noteq> []) \<and>
     (\<forall>l \<in> set (pc_ringing_legs call). um_find legs l = Some caller \<and> (\<exists>i. l = leg_name caller i))"

definition router_inv :: "'a router_scheme \<Rightarrow> bool" where
  "router_inv s \<longleftrightarrow>
     (\<forall>caller call. um_find (cr_calls s) caller = Some call \<longrightarrow> call_ok (cr_leg_to_caller s) caller call)"

lemma router_invD: "router_inv s \<Longrightarrow> um_find (cr_calls s) c = Some call \<Longrightarrow> call_ok (cr_leg_to_caller s) c call"
  by (simp add: router_inv_def)

lemma fork_legs_spec:
  assumes "fork_legs caller cid i users legs s = (legs', s')"
    and "distinct legs" and "\<forall>l \<in> set legs. um_find (cr_leg_to_caller s) l = Some caller \<and> (\<exists>j. l = leg_name caller j)"
  shows "cr_calls s' = cr_calls s \<and> distinct legs' \<and>
    (\<forall>l \<in> set legs'. um_find (cr_leg_to_caller s') l = Some caller \<and> (\<exists>j. l = leg_name caller j)) \<and>
    (\<forall>l. (\<forall>j. l \<noteq> leg_name caller j) \<longrightarrow> um_find (cr_leg_to_caller s') l = um_find (cr_leg_to_caller s) l)"
  using assms
proof (induction users arbitrary: i legs s)
  case (Cons user users)
  obtain r s1 where c: "rest_call (Originate (''PJSIP/'' @ user) (cr_app_name s) (''outbound'' @ '','' @ caller)
      (leg_name caller i) cid) s = (r, s1)" by fastforce
  have s1: "cr_calls s1 = cr_calls s" "cr_leg_to_caller s1 = cr_leg_to_caller s"
    using rest_fields(5,6) c by (metis snd_conv)+
  let ?s2 = "if is_2xx (fst r) then s1\<lparr>cr_leg_to_caller := um_put (leg_name caller i) caller (cr_leg_to_caller s1)\<rparr> else s1"
  let ?legs = "if is_2xx (fst r) then List.insert (leg_name caller i) legs else legs"
  have rest: "fork_legs caller cid (i + 1) users ?legs ?s2 = (legs', s')"
    using Cons.prems(1) c by (auto simp: Let_def split: if_splits)
  have ok: "distinct ?legs"
    "\<forall>l \<in> set ?legs. um_find (cr_leg_to_caller ?s2) l = Some caller \<and> (\<exists>j. l = leg_name caller j)"
    using Cons.prems(2,3) by (auto simp: s1)
  show ?case using Cons.IH[OF rest ok] by (auto simp: s1 split: if_splits)
qed simp

lemma caller_start_inv:
  assumes inv: "router_inv s"
  shows "router_inv (on_caller_start env caller cid ext s)"
proof -
  obtain legs s1 where f: "fork_legs caller cid 0 (resolve_targets env (cr_society_id s) ext) [] s = (legs, s1)"
    by fastforce
  have sp: "cr_calls s1 = cr_calls s" "distinct legs"
    "\<forall>l \<in> set legs. um_find (cr_leg_to_caller s1) l = Some caller \<and> (\<exists>j. l = leg_name caller j)"
    "\<And>l. (\<And>j. l \<noteq> leg_name caller j) \<Longrightarrow> um_find (cr_leg_to_caller s1) l = um_find (cr_leg_to_caller s) l"
    using fork_legs_spec[OF f] by auto
  let ?call = "\<lparr>pc_dialed_ext = ext, pc_ringing_legs = legs, pc_connected_leg = []\<rparr>"
  have other: "call_ok (cr_leg_to_caller s1) c call" if "um_find (cr_calls s) c = Some call" "c \<noteq> caller" for c call
  proof -
    have ok: "call_ok (cr_leg_to_caller s) c call" by (rule router_invD[OF inv that(1)])
    have "um_find (cr_leg_to_caller s1) l = um_find (cr_leg_to_caller s) l" if "l \<in> set (pc_ringing_legs call)" for l
      using ok that sp(4) \<open>c \<noteq> caller\<close> by (auto simp: call_ok_def leg_name_inj)
    with ok show ?thesis by (auto simp: call_ok_def)
  qed
  have new: "call_ok (cr_leg_to_caller s1) caller ?call" if "legs \<noteq> []"
    using sp(2,3) that by (simp add: call_ok_def)
  have "router_inv (rest_do r s)" for r using inv by (simp add: router_inv_def)
  moreover have "router_inv (rest_do r s1)" if "um_find (cr_calls s) caller = None" for r
    using other that sp(1) by (auto simp: router_inv_def) (metis option.distinct(1))
  moreover have "router_inv (s1\<lparr>cr_calls := um_emplace caller ?call (cr_calls s1)\<rparr>)"
    if "um_find (cr_calls s) caller = None" "legs \<noteq> []"
    using other new that sp(1) by (auto simp: router_inv_def)
  ultimately show ?thesis
    using f inv by (simp add: on_caller_start_def Let_def)
qed

lemma leg_start_inv:
  assumes inv: "router_inv s" and "leg \<noteq> []"
  shows "router_inv (on_leg_start leg caller s)"
proof (cases "um_find (cr_calls s) caller")
  case (Some call)
  have ok: "call_ok (cr_leg_to_caller s) caller call" by (rule router_invD[OF inv Some])
  with inv assms(2) Some show ?thesis
    by (auto simp: on_leg_start_def Let_def router_inv_def call_ok_def)
qed (use inv in \<open>simp add: on_leg_start_def router_inv_def\<close>)

lemma channel_gone_inv:
  assumes inv: "router_inv s"
  shows "router_inv (on_channel_gone ch s)"
proof (cases "um_find (cr_calls s) ch")
  case (Some call)
  with inv show ?thesis by (auto simp: on_channel_gone_def Let_def router_inv_def)
next
  case None
  show ?thesis
  proof (cases "um_find (cr_leg_to_caller s) ch")
    case (Some caller)
    have other: "call_ok (um_erase ch (cr_leg_to_caller s)) c call'"
      if "um_find (cr_calls s) c = Some call'" "c \<noteq> caller" for c call'
      using router_invD[OF inv that(1)] that(2) Some by (auto simp: call_ok_def)
    show ?thesis
    proof (cases "um_find (cr_calls s) caller")
      case c: None
      have "call_ok (um_erase ch (cr_leg_to_caller s)) c' call'" if "um_find (cr_calls s) c' = Some call'" for c' call'
        using other[OF that] c that by (cases "c' = caller") auto
      with c None Some show ?thesis by (simp add: on_channel_gone_def router_inv_def)
    next
      case c: (Some call)
      have ok: "call_ok (cr_leg_to_caller s) caller call" by (rule router_invD[OF inv c])
      let ?legs = "remove1 ch (pc_ringing_legs call)"
      have new: "call_ok (um_erase ch (cr_leg_to_caller s)) caller (call\<lparr>pc_ringing_legs := ?legs\<rparr>)"
        if "pc_connected_leg call \<noteq> [] \<or> ?legs \<noteq> []"
        using ok that by (auto simp: call_ok_def)
      show ?thesis
        using None Some c other new
        by (auto simp: on_channel_gone_def Let_def router_inv_def)
    qed
  next
    case l: None
    with None inv show ?thesis by (simp add: on_channel_gone_def)
  qed
qed

section \<open>Runs of the router\<close>

datatype router_event = CallerStart string string string | LegStart string string | ChannelGone string

fun router_exec :: "router_env \<Rightarrow> router_event \<Rightarrow> 'a router_scheme \<Rightarrow> 'a router_scheme" where
  "router_exec env (CallerStart caller cid ext) s = on_caller_start env caller cid ext s"
| "router_exec env (LegStart leg caller) s = on_leg_start leg caller s"
| "router_exec env (ChannelGone ch) s = on_channel_gone ch s"

text \<open>Asterisk never names a channel by the empty string.\<close>

definition named_legs :: "router_event list \<Rightarrow> bool" where
  "named_legs es \<longleftrightarrow> (\<forall>caller. LegStart [] caller \<notin> set es)"

lemma router_run_inv:
  "router_inv s \<Longrightarrow> named_legs es \<Longrightarrow> router_inv (fold (router_exec env) es s)"
proof (induction es arbitrary: s)
  case (Cons e es)
  have "router_inv (router_exec env e s)"
  proof (cases e)
    case (LegStart leg caller)
    then have "leg \<noteq> []" using Cons.prems(2) by (auto simp: named_legs_def)
    with LegStart Cons.prems(1) show ?thesis by (simp add: leg_start_inv)
  qed (use Cons.prems(1) in \<open>simp_all add: caller_start_inv channel_gone_inv\<close>)
  moreover have "named_legs es" using Cons.prems(2) by (simp add: named_legs_def)
  ultimately show ?case using Cons.IH by simp
qed simp

lemma first_answer:
  assumes "um_find (cr_calls s) caller = Some call" and "pc_connected_leg call = []"
  shows "um_find (cr_calls (on_leg_start leg caller s)) caller =
      Some (call\<lparr>pc_connected_leg := leg, pc_ringing_legs := []\<rparr>)"
    and "ar_log (on_leg_start leg caller s) = ar_log s @
      [Answer caller, CreateBridge (bridge_name caller) ''mixing'',
       AddChannelToBridge (bridge_name caller) caller, AddChannelToBridge (bridge_name caller) leg] @
      map (\<lambda>l. Hangup l ''answered'') (remove1 leg (pc_ringing_legs call))"
  using assms by (simp_all add: on_leg_start_def Let_def)

lemma late_answer:
  assumes "um_find (cr_calls s) caller = Some call" and "pc_connected_leg call \<noteq> []" and "leg \<noteq> pc_connected_leg call"
  shows "ar_log (on_leg_start leg caller s) = ar_log s @ [Hangup leg ''answered'']"
  using assms by (simp add: on_leg_start_def Let_def)

text \<open>Once a leg is connected, it stays connected until the call is over.\<close>

lemma connected_stable:
  assumes "um_find (cr_calls s) c = Some call" and "pc_connected_leg call \<noteq> []"
  shows "case um_find (cr_calls (router_exec env e s)) c of
      None \<Rightarrow> True | Some call' \<Rightarrow> pc_connected_leg call' = pc_connected_leg call"
proof (cases e)
  case (CallerStart caller cid ext)
  have "cr_calls (snd (fork_legs caller cid i us ls t)) = cr_calls t" for i us ls and t :: "'a router_scheme"
  proof (induction us arbitrary: i ls t)
    case (Cons u us)
    obtain r t1 where c: "rest_call (Originate (''PJSIP/'' @ u) (cr_app_name t) (''outbound'' @ '','' @ caller)
        (leg_name caller i) cid) t = (r, t1)" by fastforce
    then have "cr_calls t1 = cr_calls t" using rest_fields(5) by (metis snd_conv)
    with c Cons.IH show ?case by (simp add: Let_def)
  qed simp
  then have "fork_legs caller cid 0 us [] s = (ls, t) \<Longrightarrow> cr_calls t = cr_calls s" for us ls t
    by (metis snd_conv)
  with CallerStart assms show ?thesis
    by (auto simp: on_caller_start_def Let_def split: option.split prod.split)
next
  case (LegStart leg caller)
  with assms show ?thesis by (auto simp: on_leg_start_def Let_def split: option.split)
next
  case (ChannelGone ch)
  with assms show ?thesis by (auto simp: on_channel_gone_def Let_def split: option.split)
qed

lemma caller_gone:
  assumes "um_find (cr_calls s) caller = Some call"
  shows "um_find (cr_calls (on_channel_gone caller s)) caller = None"
    and "ar_log (on_channel_gone caller s) = ar_log s @ map (\<lambda>l. Hangup l ''normal'') (pc_ringing_legs call) @
      (if pc_connected_leg call = [] then [] else [Hangup (pc_connected_leg call) ''normal''])"
  using assms by (simp_all add: on_channel_gone_def Let_def)

text \<open>When every leg of an unanswered call dies, in any order, the caller is released, once.\<close>

lemma ringing_leg_gone:
  assumes inv: "router_inv s" and call: "um_find (cr_calls s) c = Some call" and "pc_connected_leg call = []"
    and "l \<in> set (pc_ringing_legs call)" and "um_find (cr_calls s) l = None"
  shows "on_channel_gone l s =
    (let s1 = s\<lparr>cr_leg_to_caller := um_erase l (cr_leg_to_caller s)\<rparr>; legs = remove1 l (pc_ringing_legs call)
     in if legs = [] then (rest_do (Hangup c ''no_answer'') s1)\<lparr>cr_calls := um_erase c (cr_calls s)\<rparr>
        else s1\<lparr>cr_calls := um_put c (call\<lparr>pc_ringing_legs := legs\<rparr>) (cr_calls s)\<rparr>)"
proof -
  have "um_find (cr_leg_to_caller s) l = Some c" and "l \<noteq> []"
    using router_invD[OF inv call] assms(4) by (auto simp: call_ok_def leg_name_def)
  with assms show ?thesis by (simp add: on_channel_gone_def Let_def)
qed

lemma all_legs_gone:
  assumes "router_inv s" and "um_find (cr_calls s) c = Some call" and "pc_connected_leg call = []"
    and "distinct ls" and "set ls = set (pc_ringing_legs call)" and "\<forall>l \<in> set ls. um_find (cr_calls s) l = None"
  shows "um_find (cr_calls (fold on_channel_gone ls s)) c = None \<and>
    ar_log (fold on_channel_gone ls s) = ar_log s @ [Hangup c ''no_answer'']"
  using assms
proof (induction ls arbitrary: s call)
  case Nil
  then show ?case using router_invD[OF Nil.prems(1,2)] by (simp add: call_ok_def)
next
  case (Cons l ls)
  let ?legs = "remove1 l (pc_ringing_legs call)"
  have dist: "distinct (pc_ringing_legs call)" using router_invD[OF Cons.prems(1,2)] by (simp add: call_ok_def)
  have set: "set ?legs = set ls" using Cons.prems(4,5) dist by auto
  have l: "l \<in> set (pc_ringing_legs call)" "um_find (cr_calls s) l = None"
    using Cons.prems(5,6) by auto
  have step: "on_channel_gone l s =
      (let s1 = s\<lparr>cr_leg_to_caller := um_erase l (cr_leg_to_caller s)\<rparr>
       in if ?legs = [] then (rest_do (Hangup c ''no_answer'') s1)\<lparr>cr_calls := um_erase c (cr_calls s)\<rparr>
          else s1\<lparr>cr_calls := um_put c (call\<lparr>pc_ringing_legs := ?legs\<rparr>) (cr_calls s)\<rparr>)"
    using ringing_leg_gone[OF Cons.prems(1-3) l] by (simp only: Let_def)
  show ?case
  proof (cases ls)
    case Nil
    with set step show ?thesis by (simp add: Let_def)
  next
    case (Cons l' ls')
    let ?s = "on_channel_gone l s" and ?call = "call\<lparr>pc_ringing_legs := ?legs\<rparr>"
    have ne: "?legs \<noteq> []" using set Cons by auto
    then have s: "um_find (cr_calls ?s) c = Some ?call" "ar_log ?s = ar_log s"
      "\<And>x. x \<noteq> c \<Longrightarrow> um_find (cr_calls ?s) x = um_find (cr_calls s) x"
      using step by (simp_all add: Let_def)
    have "c \<notin> set ls" using Cons.prems(2,6) by auto
    then have none: "\<forall>x \<in> set ls. um_find (cr_calls ?s) x = None" using s(3) Cons.prems(6) by (metis list.set_intros(2))
    from Cons.IH[OF channel_gone_inv[OF Cons.prems(1)] s(1)] set none Cons.prems(3,4) s(2)
    show ?thesis by simp
  qed
qed

end
