(* ===== verification/Ari_Client.thy ===== *)
theory Ari_Client
  imports Call_Router
begin

text \<open>
  The consumer of Asterisk's event stream, \<^verbatim>\<open>AriClient\<close> (\<^verbatim>\<open>pbx-agent/src/main/ari_client.cpp\<close>):
  admission control, call detail records, conference joins, registration state.  Its record extends
  the router's, which extends the REST client's.

  A handler returns the exception it let escape, if any, with the state it left behind (the
  dispatch thread catches and drops it).  \<^verbatim>\<open>now\<close> is the reading of \<^verbatim>\<open>std::time(nullptr)\<close> during the
  event.  The calls to the two installed callbacks and to \<^verbatim>\<open>create_document\<close> are recorded.
\<close>

section \<open>State\<close>

record channel_ctx =
  cx_channel_id :: string
  cx_caller_flat :: string
  cx_callee_flat :: string
  cx_bridge_id :: string
  cx_started_at :: int
  cx_answered_at :: int

record bridge_ctx =
  bx_bridge_id :: string
  bx_bridge_type :: string
  bx_channel_ids :: "string list"

record ari_client_config =
  al_max_concurrent_calls :: int
  al_busy_context :: string
  al_busy_extension :: string
  al_busy_priority :: nat

definition ari_default_config :: ari_client_config where
  "ari_default_config =
     \<lparr>al_max_concurrent_calls = 5, al_busy_context = ''pbx-busy'', al_busy_extension = ''s'', al_busy_priority = 1\<rparr>"

record ari_env = router_env +
  re_get_document :: "string \<Rightarrow> string \<Rightarrow> string \<Rightarrow> string option"
  re_register_handler :: bool
  re_status_handler :: bool

record ari = router +
  al_cfg :: ari_client_config
  al_active_bridges :: int
  al_channels :: "(string, channel_ctx) umap"
  al_bridges :: "(string, bridge_ctx) umap"
  al_registered :: "(string \<times> bool) list"
  al_status :: "bool list"
  al_created :: "(string \<times> string) list"

definition start :: "'a ari_scheme \<Rightarrow> 'a ari_scheme" where
  "start s = rest_do (Subscribe (cr_app_name s) [''channel:'', ''bridge:'', ''endpoint:'']) s"

section \<open>Registration state\<close>

definition register_state :: "string \<Rightarrow> bool \<Rightarrow> 'a ari_scheme \<Rightarrow> 'a ari_scheme" where
  "register_state user online s = s\<lparr>al_registered := al_registered s @ [(user, online)]\<rparr>"

definition handle_endpoint_state_change ::
  "'e ari_env_scheme \<Rightarrow> json \<Rightarrow> 'a ari_scheme \<Rightarrow> 'a ari_scheme outcome" where
  "handle_endpoint_state_change env j s =
     (if \<not> re_register_handler env then (None, s)
      else case j_get_object j ''endpoint'' of
             None \<Rightarrow> (None, s)
           | Some ep \<Rightarrow>
               try_value (j_value ep ''technology'' []) s (\<lambda>tech.
               if tech \<noteq> ''PJSIP'' then (None, s)
               else try_value (j_value ep ''resource'' []) s (\<lambda>res.
               if res = [] then (None, s)
               else try_value (j_value ep ''state'' []) s (\<lambda>state.
               (None, register_state res (state = ''online'') s)))))"

definition handle_contact_status_change ::
  "'e ari_env_scheme \<Rightarrow> json \<Rightarrow> 'a ari_scheme \<Rightarrow> 'a ari_scheme outcome" where
  "handle_contact_status_change env j s =
     (if \<not> re_register_handler env then (None, s)
      else case j_get_object j ''endpoint'' of
             None \<Rightarrow> (None, s)
           | Some ep \<Rightarrow>
               try_value (j_value ep ''technology'' []) s (\<lambda>tech.
               if tech \<noteq> ''PJSIP'' then (None, s)
               else try_value (j_value ep ''resource'' []) s (\<lambda>res.
               if res = [] then (None, s)
               else case j_get_object j ''contact_info'' of
                      None \<Rightarrow> (None, s)
                    | Some ci \<Rightarrow>
                        try_value (j_value ci ''contact_status'' []) s (\<lambda>status.
                        (None, register_state res (status \<in> {''Created'', ''Reachable'', ''NonQualified''}) s)))))"

text \<open>The loop of \<^verbatim>\<open>publish_register_snapshot\<close> over the listed endpoints.\<close>

fun publish_endpoints :: "json list \<Rightarrow> 'a ari_scheme \<Rightarrow> 'a ari_scheme outcome" where
  "publish_endpoints [] s = (None, s)"
| "publish_endpoints (ep # eps) s =
     (if \<not> j_is_object ep then publish_endpoints eps s
      else try_value (j_value ep ''technology'' []) s (\<lambda>tech.
      if tech \<noteq> ''PJSIP'' then publish_endpoints eps s
      else try_value (j_value ep ''resource'' []) s (\<lambda>res.
      if res = [] then publish_endpoints eps s
      else try_value (j_value ep ''state'' []) s (\<lambda>state.
      publish_endpoints eps (register_state res (state = ''online'') s)))))"

definition publish_register_snapshot :: "'e ari_env_scheme \<Rightarrow> 'a ari_scheme \<Rightarrow> 'a ari_scheme outcome" where
  "publish_register_snapshot env s =
     (if \<not> re_register_handler env \<and> \<not> re_status_handler env then (None, s)
      else let (r, s1) = rest_call (ListEndpoints ''PJSIP'') s;
               ari_ok = is_2xx (fst r);
               s2 = (if re_status_handler env then s1\<lparr>al_status := al_status s1 @ [ari_ok]\<rparr> else s1)
           in if \<not> re_register_handler env then (None, s2)
              else if \<not> ari_ok then (None, s2)
              else case js_parse (re_json env) (snd r) of
                     Some (JArray arr) \<Rightarrow> publish_endpoints arr s2
                   | _ \<Rightarrow> (None, s2))"

section \<open>Revocation\<close>

definition hangup_channel :: "json \<Rightarrow> 'a ari_scheme \<Rightarrow> 'a ari_scheme" where
  "hangup_channel cid s =
     (case cid of JString i \<Rightarrow> (if i \<noteq> [] then rest_do (Hangup i ''normal'') s else s) | _ \<Rightarrow> s)"

definition revoke_subscriber :: "'e ari_env_scheme \<Rightarrow> string \<Rightarrow> 'a ari_scheme \<Rightarrow> 'a ari_scheme" where
  "revoke_subscriber env sip_username s =
     (if sip_username = [] then s
      else let (r, s1) = rest_call (GetEndpoint ''PJSIP'' sip_username) s
           in if \<not> is_2xx (fst r) then s1
              else case js_parse (re_json env) (snd r) of
                     None \<Rightarrow> s1
                   | Some ep \<Rightarrow>
                       (case j_get_array ep ''channel_ids'' of
                          None \<Rightarrow> s1
                        | Some ids \<Rightarrow> fold hangup_channel ids s1))"

section \<open>StasisStart\<close>

definition sip_user_from_channel_name :: "string \<Rightarrow> string" where
  "sip_user_from_channel_name name =
     (let s = (case str_find name ''/'' of None \<Rightarrow> name | Some slash \<Rightarrow> drop (slash + 1) name)
      in if length s > 9
         then let tail = drop (length s - 9) s
              in if tail ! 0 = CHR ''-'' \<and> list_all is_xdigit (tl tail) then take (length s - 9) s else s
         else s)"

definition lookup_flat_number :: "'e ari_env_scheme \<Rightarrow> string \<Rightarrow> string \<Rightarrow> string" where
  "lookup_flat_number env society_id sip_username =
     (if sip_username = [] then []
      else case js_dump (re_json env)
                  (JObject [(''sipUsername'', JString sip_username), (''societyId'', JString society_id)]) of
             None \<Rightarrow> []
           | Some flt \<Rightarrow>
               (case re_get_document env ''subscribers'' flt ''{}'' of
                  None \<Rightarrow> []
                | Some doc \<Rightarrow>
                    (if doc = [] then []
                     else case js_parse (re_json env) doc of
                            None \<Rightarrow> []
                          | Some sub \<Rightarrow> (case j_get_string sub ''flatNumber'' of None \<Rightarrow> [] | Some f \<Rightarrow> f))))"

definition over_admission_cap :: "'a ari_scheme \<Rightarrow> bool" where
  "over_admission_cap s \<longleftrightarrow> al_active_bridges s \<ge> al_max_concurrent_calls (al_cfg s)"

definition conf_bridge :: "'a ari_scheme \<Rightarrow> string" where
  "conf_bridge s = cr_society_id s @ ''-conf''"

definition handle_conference_join :: "string \<Rightarrow> 'a ari_scheme \<Rightarrow> 'a ari_scheme" where
  "handle_conference_join channel_id s =
     (let (br, s1) = rest_call (CreateBridge (conf_bridge s) ''mixing'') s
      in if \<not> (is_2xx (fst br) \<or> fst br = 409) then rest_do (Hangup channel_id ''congestion'') s1
         else let (ad, s2) = rest_call (AddChannelToBridge (conf_bridge s) channel_id) s1
              in if \<not> is_2xx (fst ad) then rest_do (Hangup channel_id ''congestion'') s2 else s2)"

text \<open>The appArgs of a leg the router originated: the tag and the caller.\<close>

definition outbound_caller :: "json \<Rightarrow> string option" where
  "outbound_caller j =
     (case j_get_array j ''args'' of
        Some (JString tag # JString caller # _) \<Rightarrow> (if tag = ''outbound'' then Some caller else None)
      | _ \<Rightarrow> None)"

definition string_field :: "json \<Rightarrow> string \<Rightarrow> string \<Rightarrow> string" where
  "string_field j obj key =
     (case j_get_object j obj of
        None \<Rightarrow> [] | Some w \<Rightarrow> (case j_get_string w key of None \<Rightarrow> [] | Some v \<Rightarrow> v))"

definition handle_stasis_start ::
  "'e ari_env_scheme \<Rightarrow> int \<Rightarrow> json \<Rightarrow> 'a ari_scheme \<Rightarrow> 'a ari_scheme outcome" where
  "handle_stasis_start env now j s =
     (case j_get_object j ''channel'' of
        None \<Rightarrow> (None, s)
      | Some ch \<Rightarrow>
          (case j_get_string ch ''id'' of
             None \<Rightarrow> (None, s)
           | Some channel_id \<Rightarrow>
               (case outbound_caller j of
                  Some caller \<Rightarrow> (None, on_leg_start channel_id caller s)
                | None \<Rightarrow>
                    (if over_admission_cap s
                     then (None, rest_do (ContinueInDialplan channel_id (al_busy_context (al_cfg s))
                                   (al_busy_extension (al_cfg s)) (al_busy_priority (al_cfg s))) s)
                     else
                       try_value (j_value ch ''name'' []) s (\<lambda>name.
                       let flat = lookup_flat_number env (cr_society_id s) (sip_user_from_channel_name name);
                           caller_flat = (if flat = [] then string_field ch ''caller'' ''number'' else flat);
                           exten = string_field ch ''dialplan'' ''exten'';
                           callee_flat = (if exten \<noteq> [] then exten
                                          else case j_get_array j ''args'' of
                                                 Some (JString a # _) \<Rightarrow> a | _ \<Rightarrow> []);
                           cx = \<lparr>cx_channel_id = channel_id, cx_caller_flat = caller_flat,
                                 cx_callee_flat = callee_flat, cx_bridge_id = [], cx_started_at = now,
                                 cx_answered_at = 0\<rparr>;
                           s1 = s\<lparr>al_channels := um_emplace channel_id cx (al_channels s)\<rparr>
                       in if callee_flat = ''conf'' then (None, handle_conference_join channel_id s1)
                          else (None, on_caller_start (router_env.truncate env) channel_id caller_flat callee_flat s1))))))"

section \<open>Bridges\<close>

definition handle_bridge_created :: "json \<Rightarrow> 'a ari_scheme \<Rightarrow> 'a ari_scheme" where
  "handle_bridge_created j s =
     (case j_get_object j ''bridge'' of
        None \<Rightarrow> s
      | Some br \<Rightarrow>
          (case j_get_string br ''id'' of
             None \<Rightarrow> s
           | Some i \<Rightarrow>
               (let bx = \<lparr>bx_bridge_id = i,
                          bx_bridge_type = (case j_get_string br ''bridge_type'' of None \<Rightarrow> [] | Some t \<Rightarrow> t),
                          bx_channel_ids = []\<rparr>
                in if um_find (al_bridges s) i \<noteq> None then s
                   else s\<lparr>al_bridges := um_emplace i bx (al_bridges s),
                          al_active_bridges := al_active_bridges s + 1\<rparr>)))"

definition handle_bridge_destroyed :: "json \<Rightarrow> 'a ari_scheme \<Rightarrow> 'a ari_scheme" where
  "handle_bridge_destroyed j s =
     (case j_get_object j ''bridge'' of
        None \<Rightarrow> s
      | Some br \<Rightarrow>
          (case j_get_string br ''id'' of
             None \<Rightarrow> s
           | Some i \<Rightarrow>
               (if um_find (al_bridges s) i = None then s
                else s\<lparr>al_bridges := um_erase i (al_bridges s),
                       al_active_bridges :=
                         (if al_active_bridges s > 0 then al_active_bridges s - 1 else al_active_bridges s)\<rparr>)))"

definition handle_channel_entered_bridge :: "int \<Rightarrow> json \<Rightarrow> 'a ari_scheme \<Rightarrow> 'a ari_scheme outcome" where
  "handle_channel_entered_bridge now j s =
     (case (j_get_object j ''channel'', j_get_object j ''bridge'') of
        (Some ch, Some br) \<Rightarrow>
          try_value (j_value ch ''id'' []) s (\<lambda>channel_id.
          try_value (j_value br ''id'' []) s (\<lambda>bridge_id.
          if channel_id = [] \<or> bridge_id = [] then (None, s)
          else let s1 = (case um_find (al_channels s) channel_id of
                           None \<Rightarrow> s
                         | Some cx \<Rightarrow>
                             s\<lparr>al_channels := um_put channel_id
                                (cx\<lparr>cx_bridge_id := bridge_id,
                                    cx_answered_at := (if cx_answered_at cx = 0 then now else cx_answered_at cx)\<rparr>)
                                (al_channels s)\<rparr>)
               in (None, case um_find (al_bridges s1) bridge_id of
                           None \<Rightarrow> s1
                         | Some bx \<Rightarrow>
                             s1\<lparr>al_bridges := um_put bridge_id
                                 (bx\<lparr>bx_channel_ids := List.insert channel_id (bx_channel_ids bx)\<rparr>) (al_bridges s1)\<rparr>)))
      | _ \<Rightarrow> (None, s))"

section \<open>Call detail records\<close>

definition hangup_cause :: "json \<Rightarrow> string" where
  "hangup_cause j =
     (case j_get_string j ''cause_txt'' of
        None \<Rightarrow> ''normal''
      | Some original \<Rightarrow>
          (let lc = map to_lower original
           in if str_contains lc ''busy'' then ''busy''
              else if str_contains lc ''no answer'' then ''missed''
              else if str_contains lc ''normal'' then ''normal''
              else original))"

definition call_duration :: "channel_ctx \<Rightarrow> int \<Rightarrow> int" where
  "call_duration cx ended_at =
     (if cx_answered_at cx > 0 \<and> ended_at \<ge> cx_answered_at cx then ended_at - cx_answered_at cx else 0)"

definition call_type :: "channel_ctx \<Rightarrow> (string, bridge_ctx) umap \<Rightarrow> string" where
  "call_type cx bridges =
     (if cx_bridge_id cx \<noteq> []
      then (case um_find bridges (cx_bridge_id cx) of
              Some bx \<Rightarrow> (if length (bx_channel_ids bx) \<ge> 3 then ''conference'' else ''p2p'')
            | None \<Rightarrow> ''p2p'')
      else ''p2p'')"

text \<open>The members, sorted by key as the library keeps them.\<close>

definition cdr_document :: "string \<Rightarrow> string \<Rightarrow> channel_ctx \<Rightarrow> (string, bridge_ctx) umap \<Rightarrow> int \<Rightarrow> json \<Rightarrow> json" where
  "cdr_document society_id channel_id cx bridges ended_at j =
     JObject
       ([(''answeredAt'', JInt (cx_answered_at cx)), (''callId'', JString channel_id)] @
        (if cx_bridge_id cx \<noteq> [] then [(''conferenceBridge'', JString (cx_bridge_id cx))] else []) @
        [(''durationSec'', JInt (call_duration cx ended_at)), (''endedAt'', JInt ended_at),
         (''fromFlat'', JString (cx_caller_flat cx)), (''hangupCause'', JString (hangup_cause j)),
         (''societyId'', JString society_id), (''startedAt'', JInt (cx_started_at cx)),
         (''toFlat'', JString (cx_callee_flat cx)), (''type'', JString (call_type cx bridges))])"

definition handle_channel_destroyed ::
  "'e ari_env_scheme \<Rightarrow> int \<Rightarrow> json \<Rightarrow> 'a ari_scheme \<Rightarrow> 'a ari_scheme outcome" where
  "handle_channel_destroyed env now j s =
     (case j_get_object j ''channel'' of
        None \<Rightarrow> (None, s)
      | Some ch \<Rightarrow>
          try_value (j_value ch ''id'' []) s (\<lambda>channel_id.
          if channel_id = [] then (None, s)
          else let s1 = on_channel_gone channel_id s
               in case um_find (al_channels s1) channel_id of
                    None \<Rightarrow> (None, s1)
                  | Some cx \<Rightarrow>
                      (let s2 = s1\<lparr>al_channels := um_erase channel_id (al_channels s1)\<rparr>
                       in case js_dump (re_json env)
                                 (cdr_document (cr_society_id s2) channel_id cx (al_bridges s2) now j) of
                            None \<Rightarrow> (Some JsonTypeError, s2)
                          | Some txt \<Rightarrow> (None, s2\<lparr>al_created := al_created s2 @ [(''cdr'', txt)]\<rparr>))))"

section \<open>Dispatch\<close>

definition on_event :: "'e ari_env_scheme \<Rightarrow> int \<Rightarrow> string \<Rightarrow> 'a ari_scheme \<Rightarrow> 'a ari_scheme outcome" where
  "on_event env now json_event s =
     (case js_parse (re_json env) json_event of
        None \<Rightarrow> (None, s)
      | Some j \<Rightarrow>
          (case j_get_string j ''type'' of
             None \<Rightarrow> (None, s)
           | Some typ \<Rightarrow>
               (if typ = ''StasisStart'' then handle_stasis_start env now j s
                else if typ = ''BridgeCreated'' then (None, handle_bridge_created j s)
                else if typ = ''BridgeDestroyed'' then (None, handle_bridge_destroyed j s)
                else if typ = ''ChannelEnteredBridge'' then handle_channel_entered_bridge now j s
                else if typ = ''ChannelDestroyed'' then handle_channel_destroyed env now j s
                else if typ = ''EndpointStateChange'' then handle_endpoint_state_change env j s
                else if typ = ''ContactStatusChange'' then handle_contact_status_change env j s
                else (None, s))))"

section \<open>What the router leaves alone\<close>

definition al_part where
  "al_part s = (al_cfg s, al_active_bridges s, al_channels s, al_bridges s, al_registered s, al_status s, al_created s)"

lemma al_part_rest [simp]:
  "al_part (rest_do r s) = al_part s" "al_part (snd (rest_call r s)) = al_part s"
  "al_part (s\<lparr>cr_calls := c\<rparr>) = al_part s" "al_part (s\<lparr>cr_leg_to_caller := l\<rparr>) = al_part s"
  by (simp_all add: al_part_def rest_do_def rest_call_def Let_def split: list.split)

lemma al_part_hangup_all [simp]: "al_part (hangup_all ls r s) = al_part s"
  by (induction ls arbitrary: s) (simp_all add: hangup_all_def)

lemma al_part_fork_legs: "al_part (snd (fork_legs caller cid i us ls s)) = al_part s"
proof (induction us arbitrary: i ls s)
  case (Cons u us)
  obtain r t where c: "rest_call (Originate (''PJSIP/'' @ u) (cr_app_name s) (''outbound'' @ '','' @ caller)
      (leg_name caller i) cid) s = (r, t)" by fastforce
  then have "al_part t = al_part s" using al_part_rest(2) by (metis snd_conv)
  with c Cons.IH show ?case by (simp add: Let_def)
qed simp

lemma al_part_router [simp]:
  "al_part (on_caller_start env caller cid ext s) = al_part s"
  "al_part (on_leg_start leg caller s) = al_part s"
  "al_part (on_channel_gone ch s) = al_part s"
proof -
  have "fork_legs caller cid 0 us [] s = (ls, t) \<Longrightarrow> al_part t = al_part s" for us ls t
    using al_part_fork_legs by (metis snd_conv)
  then show "al_part (on_caller_start env caller cid ext s) = al_part s"
    by (auto simp: on_caller_start_def Let_def split: prod.split)
qed (auto simp: on_leg_start_def on_channel_gone_def Let_def split: option.split)

lemma al_part_conference [simp]: "al_part (handle_conference_join ch s) = al_part s"
  by (auto simp: handle_conference_join_def Let_def split: prod.split) (metis al_part_rest(2) snd_conv)+

lemma al_partD:
  assumes "al_part s = al_part t"
  shows "al_cfg s = al_cfg t" "al_active_bridges s = al_active_bridges t" "al_channels s = al_channels t"
    "al_bridges s = al_bridges t" "al_created s = al_created t" "al_registered s = al_registered t"
  using assms by (simp_all add: al_part_def)

section \<open>Admission control\<close>

text \<open>The counter is the number of bridges Asterisk has reported and not yet destroyed.\<close>

definition bridges_inv :: "'a ari_scheme \<Rightarrow> bool" where
  "bridges_inv s \<longleftrightarrow> um_distinct (al_bridges s) \<and> al_active_bridges s = int (length (al_bridges s))"

lemma bridges_inv_part: "bridges_inv s \<Longrightarrow> al_bridges t = al_bridges s \<Longrightarrow> al_active_bridges t = al_active_bridges s \<Longrightarrow> bridges_inv t"
  by (simp add: bridges_inv_def)

lemma bridge_created_inv: "bridges_inv s \<Longrightarrow> bridges_inv (handle_bridge_created j s)"
  by (auto simp: handle_bridge_created_def bridges_inv_def um_length_emplace Let_def split: option.split)

lemma bridge_destroyed_inv:
  assumes "bridges_inv s"
  shows "bridges_inv (handle_bridge_destroyed j s)"
proof -
  have "um_distinct (um_erase i (al_bridges s)) \<and> 0 < al_active_bridges s \<and>
      al_active_bridges s - 1 = int (length (um_erase i (al_bridges s)))" if "um_find (al_bridges s) i = Some b" for i b
    using assms um_length_erase[of "al_bridges s" i b] that by (auto simp: bridges_inv_def)
  with assms show ?thesis
    by (auto simp: handle_bridge_destroyed_def bridges_inv_def split: option.split)
qed

lemma entered_bridge_inv: "bridges_inv s \<Longrightarrow> bridges_inv (snd (handle_channel_entered_bridge now j s))"
  by (auto simp: handle_channel_entered_bridge_def bridges_inv_def um_length_put try_value_def Let_def
      split: option.split sum.split)

lemma stasis_start_part:
  "al_bridges (snd (handle_stasis_start env now j s)) = al_bridges s"
  "al_active_bridges (snd (handle_stasis_start env now j s)) = al_active_bridges s"
  "al_created (snd (handle_stasis_start env now j s)) = al_created s"
proof -
  have p: "al_bridges t = al_bridges s \<and> al_active_bridges t = al_active_bridges s \<and> al_created t = al_created s"
    if "al_part t = al_part u" "al_part u = al_part (s\<lparr>al_channels := m\<rparr>)" for t u :: "'a ari_scheme" and m
    using that by (simp add: al_part_def)
  have q: "al_bridges t = al_bridges s \<and> al_active_bridges t = al_active_bridges s \<and> al_created t = al_created s"
    if "al_part t = al_part s" for t using that by (simp add: al_part_def)
  have r: "al_bridges (handle_conference_join c (s\<lparr>al_channels := m\<rparr>)) = al_bridges s \<and>
      al_active_bridges (handle_conference_join c (s\<lparr>al_channels := m\<rparr>)) = al_active_bridges s \<and>
      al_created (handle_conference_join c (s\<lparr>al_channels := m\<rparr>)) = al_created s"
    "al_bridges (on_caller_start e c i x (s\<lparr>al_channels := m\<rparr>)) = al_bridges s \<and>
      al_active_bridges (on_caller_start e c i x (s\<lparr>al_channels := m\<rparr>)) = al_active_bridges s \<and>
      al_created (on_caller_start e c i x (s\<lparr>al_channels := m\<rparr>)) = al_created s" for c m e i x
    using p[of _ "s\<lparr>al_channels := m\<rparr>" m] by auto
  show "al_bridges (snd (handle_stasis_start env now j s)) = al_bridges s"
    "al_active_bridges (snd (handle_stasis_start env now j s)) = al_active_bridges s"
    "al_created (snd (handle_stasis_start env now j s)) = al_created s"
    using q[OF al_part_router(2)] q[OF al_part_rest(1)] r
    by (auto simp: handle_stasis_start_def try_value_def Let_def split: option.split sum.split)
qed

lemma destroyed_part:
  "al_bridges (snd (handle_channel_destroyed env now j s)) = al_bridges s"
  "al_active_bridges (snd (handle_channel_destroyed env now j s)) = al_active_bridges s"
  using al_partD[OF al_part_router(3)[of _ s]]
  by (auto simp: handle_channel_destroyed_def try_value_def Let_def split: option.split sum.split)

lemma register_part:
  "al_bridges (snd (handle_endpoint_state_change env j s)) = al_bridges s"
  "al_active_bridges (snd (handle_endpoint_state_change env j s)) = al_active_bridges s"
  "al_bridges (snd (handle_contact_status_change env j s)) = al_bridges s"
  "al_active_bridges (snd (handle_contact_status_change env j s)) = al_active_bridges s"
  by (auto simp: handle_endpoint_state_change_def handle_contact_status_change_def register_state_def
      try_value_def split: option.split sum.split)

lemma al_part_hangups [simp]: "al_part (fold hangup_channel ids s) = al_part s"
  by (induction ids arbitrary: s) (simp_all add: hangup_channel_def split: json.split)

lemma revoke_part:
  "al_bridges (revoke_subscriber env u s) = al_bridges s"
  "al_active_bridges (revoke_subscriber env u s) = al_active_bridges s"
proof -
  have "al_part (revoke_subscriber env u s) = al_part s"
    using al_part_rest(2)[of "GetEndpoint ''PJSIP'' u" s]
    by (auto simp: revoke_subscriber_def Let_def case_prod_beta split: option.split)
  then show "al_bridges (revoke_subscriber env u s) = al_bridges s"
    "al_active_bridges (revoke_subscriber env u s) = al_active_bridges s"
    by (simp_all add: al_part_def)
qed

lemma publish_endpoints_part:
  "al_bridges (snd (publish_endpoints eps s)) = al_bridges s"
  "al_active_bridges (snd (publish_endpoints eps s)) = al_active_bridges s"
  by (induction eps s rule: publish_endpoints.induct)
    (simp_all add: try_value_def register_state_def split: sum.split)

lemma snapshot_part:
  "al_bridges (snd (publish_register_snapshot env s)) = al_bridges s"
  "al_active_bridges (snd (publish_register_snapshot env s)) = al_active_bridges s"
  using al_partD[OF al_part_rest(2)[of "ListEndpoints ''PJSIP''" s]]
  by (simp_all add: publish_register_snapshot_def Let_def case_prod_beta publish_endpoints_part
      split: option.split json.split)

lemma on_event_cases:
  obtains "on_event env now ev s = (None, s)"
  | j where "on_event env now ev s = handle_stasis_start env now j s"
  | j where "on_event env now ev s = (None, handle_bridge_created j s)"
  | j where "on_event env now ev s = (None, handle_bridge_destroyed j s)"
  | j where "on_event env now ev s = handle_channel_entered_bridge now j s"
  | j where "on_event env now ev s = handle_channel_destroyed env now j s"
  | j where "on_event env now ev s = handle_endpoint_state_change env j s"
  | j where "on_event env now ev s = handle_contact_status_change env j s"
proof (cases "js_parse (re_json env) ev")
  case None
  then show ?thesis using that(1) by (simp add: on_event_def)
next
  case (Some j)
  note that = that(1) that(2-8)[of j]
  show ?thesis
  proof (cases "j_get_string j ''type''")
    case None
    with Some show ?thesis using that(1) by (simp add: on_event_def)
  next
    case ty: (Some t)
    note e_def = on_event_def[of env now ev s, unfolded Some ty option.simps]
    consider "t = ''StasisStart''" | "t = ''BridgeCreated''" | "t = ''BridgeDestroyed''" | "t = ''ChannelEnteredBridge''"
      | "t = ''ChannelDestroyed''" | "t = ''EndpointStateChange''" | "t = ''ContactStatusChange''"
      | "on_event env now ev s = (None, s)"
      unfolding e_def by argo
    then show ?thesis
      by cases (rule that, simp add: e_def)+
  qed
qed

lemma on_event_bridges_inv:
  assumes inv: "bridges_inv s"
  shows "bridges_inv (snd (on_event env now ev s))"
  by (rule on_event_cases[of env now ev s])
    (simp_all add: inv bridge_created_inv bridge_destroyed_inv entered_bridge_inv
      bridges_inv_part[OF inv stasis_start_part(1,2)] bridges_inv_part[OF inv destroyed_part]
      bridges_inv_part[OF inv register_part(1,2)] bridges_inv_part[OF inv register_part(3,4)])

text \<open>
  The bridges Asterisk has reported and not yet reported destroyed, read off the events alone: a
  report counts when it parses and carries the type and the id of the bridge.
\<close>

definition bridge_report :: "json_lib \<Rightarrow> string \<Rightarrow> string set \<Rightarrow> string set" where
  "bridge_report lib ev live =
     (case js_parse lib ev of
        None \<Rightarrow> live
      | Some j \<Rightarrow>
          (case (j_get_string j ''type'', Option.bind (j_get_object j ''bridge'') (\<lambda>br. j_get_string br ''id'')) of
             (Some typ, Some i) \<Rightarrow>
               (if typ = ''BridgeCreated'' then insert i live
                else if typ = ''BridgeDestroyed'' then live - {i} else live)
           | _ \<Rightarrow> live))"

abbreviation live_bridges :: "'a ari_scheme \<Rightarrow> string set" where
  "live_bridges s \<equiv> um_keys (al_bridges s)"

lemma entered_bridge_keys: "live_bridges (snd (handle_channel_entered_bridge now j s)) = live_bridges s"
  by (auto simp: handle_channel_entered_bridge_def try_value_def Let_def um_find_Some_keys insert_absorb split: option.split sum.split)

lemma on_event_bridges:
  "live_bridges (snd (on_event env now ev s)) = bridge_report (re_json env) ev (live_bridges s)"
proof (cases "js_parse (re_json env) ev")
  case (Some j)
  show ?thesis
  proof (cases "j_get_string j ''type''")
    case ty: (Some t)
    have c: "live_bridges (handle_bridge_created j s) = (case Option.bind (j_get_object j ''bridge'')
        (\<lambda>br. j_get_string br ''id'') of None \<Rightarrow> live_bridges s | Some i \<Rightarrow> insert i (live_bridges s))"
      by (auto simp: handle_bridge_created_def Let_def split: option.split dest: um_find_Some_keys)
    have d: "live_bridges (handle_bridge_destroyed j s) = (case Option.bind (j_get_object j ''bridge'')
        (\<lambda>br. j_get_string br ''id'') of None \<Rightarrow> live_bridges s | Some i \<Rightarrow> live_bridges s - {i})"
      by (auto simp: handle_bridge_destroyed_def um_find_None_keys split: option.split)
    have e: "snd (on_event env now ev s) = snd (if t = ''StasisStart'' then handle_stasis_start env now j s
        else if t = ''BridgeCreated'' then (None, handle_bridge_created j s)
        else if t = ''BridgeDestroyed'' then (None, handle_bridge_destroyed j s)
        else if t = ''ChannelEnteredBridge'' then handle_channel_entered_bridge now j s
        else if t = ''ChannelDestroyed'' then handle_channel_destroyed env now j s
        else if t = ''EndpointStateChange'' then handle_endpoint_state_change env j s
        else if t = ''ContactStatusChange'' then handle_contact_status_change env j s else (None, s))"
      unfolding on_event_def Some ty option.simps ..
    show ?thesis
      unfolding e bridge_report_def Some ty option.simps
      by (simp add: c d stasis_start_part destroyed_part register_part entered_bridge_keys split: option.split)
  qed (simp add: on_event_def bridge_report_def Some)
qed (simp add: on_event_def bridge_report_def)

lemma bridges_inv_card: "bridges_inv s \<Longrightarrow> al_active_bridges s = int (card (live_bridges s))"
  by (metis bridges_inv_def distinct_card length_map list.set_map um_distinct_def um_keys_def)

text \<open>Every event keeps the counter, whatever Asterisk sends and even when a handler throws.\<close>

lemma run_bridges_inv:
  "bridges_inv s \<Longrightarrow> bridges_inv (fold (\<lambda>(now, ev) t. snd (on_event env now ev t)) evs s)"
  by (induction evs arbitrary: s) (auto simp: on_event_bridges_inv)

section \<open>One record per call\<close>

text \<open>
  The destruction of a channel that was admitted writes exactly one record and forgets the
  channel, so that a second report of it writes nothing.
\<close>

lemma destroyed_known:
  assumes ch: "j_get_object j ''channel'' = Some ch" and i: "j_get_string ch ''id'' = Some cid" and "cid \<noteq> []"
    and cx: "um_find (al_channels s) cid = Some cx"
    and dump: "js_dump (re_json env) (cdr_document (cr_society_id s) cid cx (al_bridges s) now j) = Some txt"
  shows "fst (handle_channel_destroyed env now j s) = None"
    and "al_created (snd (handle_channel_destroyed env now j s)) = al_created s @ [(''cdr'', txt)]"
    and "um_find (al_channels (snd (handle_channel_destroyed env now j s))) cid = None"
proof -
  let ?t = "on_channel_gone cid s"
  note part = al_partD[OF al_part_router(3)[of cid s]]
  have "handle_channel_destroyed env now j s =
      (None, ?t\<lparr>al_channels := um_erase cid (al_channels s), al_created := al_created s @ [(''cdr'', txt)]\<rparr>)"
    using assms part by (simp add: handle_channel_destroyed_def try_value_def j_value_string[OF i])
  then show "fst (handle_channel_destroyed env now j s) = None"
    "al_created (snd (handle_channel_destroyed env now j s)) = al_created s @ [(''cdr'', txt)]"
    "um_find (al_channels (snd (handle_channel_destroyed env now j s))) cid = None"
    by simp_all
qed

lemma destroyed_unknown:
  assumes "j_get_object j ''channel'' = Some ch" and i: "j_get_string ch ''id'' = Some cid" and "cid \<noteq> []"
    and "um_find (al_channels s) cid = None"
  shows "handle_channel_destroyed env now j s = (None, on_channel_gone cid s)"
  using assms al_partD(3)[OF al_part_router(3)[of cid s]]
  by (simp add: handle_channel_destroyed_def try_value_def j_value_string[OF i])

text \<open>Calls are stamped in order when the clock does not run backwards.\<close>

definition stamped :: "int \<Rightarrow> 'a ari_scheme \<Rightarrow> bool" where
  "stamped now s \<longleftrightarrow> (\<forall>cid cx. um_find (al_channels s) cid = Some cx \<longrightarrow>
     cx_started_at cx \<le> now \<and>
     (cx_answered_at cx = 0 \<or> (cx_started_at cx \<le> cx_answered_at cx \<and> cx_answered_at cx \<le> now)))"

lemma stamped_channels: "stamped now s \<Longrightarrow> al_channels t = al_channels s \<Longrightarrow> stamped now t"
  by (simp add: stamped_def)

lemma stamped_stasis:
  assumes "stamped now s"
  shows "stamped now (snd (handle_stasis_start env now j s))"
proof -
  have new: "stamped now (s\<lparr>al_channels := um_emplace c \<lparr>cx_channel_id = i, cx_caller_flat = x, cx_callee_flat = y,
      cx_bridge_id = z, cx_started_at = now, cx_answered_at = 0\<rparr> (al_channels s)\<rparr>)" for c i x y z
    using assms by (auto simp: stamped_def)
  have keep: "stamped now (on_caller_start e c i x t)" "stamped now (handle_conference_join c t)"
    if "stamped now t" for e c i x and t :: "'a ari_scheme"
    using stamped_channels[OF that] al_partD(3)[OF al_part_router(1)] al_partD(3)[OF al_part_conference] by blast+
  have "stamped now (on_leg_start l c s)" "stamped now (rest_do r s)" for l c r
    using stamped_channels[OF assms] al_partD(3)[OF al_part_router(2)] al_partD(3)[OF al_part_rest(1)] by blast+
  with assms new keep show ?thesis
    by (auto simp: handle_stasis_start_def try_value_def Let_def split: option.split sum.split)
qed

lemma stamped_entered: "stamped now s \<Longrightarrow> stamped now (snd (handle_channel_entered_bridge now j s))"
  by (auto simp: handle_channel_entered_bridge_def stamped_def try_value_def Let_def split: option.split sum.split)

lemma stamped_destroyed: "stamped now s \<Longrightarrow> stamped now (snd (handle_channel_destroyed env now j s))"
proof -
  assume st: "stamped now s"
  then have "stamped now (on_channel_gone c s)" for c
    using stamped_channels[OF st] al_partD(3)[OF al_part_router(3)] by blast
  then show ?thesis
    using st by (auto simp: handle_channel_destroyed_def try_value_def Let_def split: option.split sum.split)
      (auto simp: stamped_def)
qed

lemma other_channels:
  "al_channels (handle_bridge_created j s) = al_channels s"
  "al_channels (handle_bridge_destroyed j s) = al_channels s"
  "al_channels (snd (handle_endpoint_state_change env j s)) = al_channels s"
  "al_channels (snd (handle_contact_status_change env j s)) = al_channels s"
  by (auto simp: handle_bridge_created_def handle_bridge_destroyed_def handle_endpoint_state_change_def
      handle_contact_status_change_def register_state_def try_value_def Let_def split: option.split sum.split)

lemma on_event_stamped:
  assumes st: "stamped now s"
  shows "stamped now (snd (on_event env now ev s))"
  by (rule on_event_cases[of env now ev s])
    (simp_all add: st stamped_stasis stamped_entered stamped_destroyed stamped_channels[OF st other_channels(1)]
      stamped_channels[OF st other_channels(2)] stamped_channels[OF st other_channels(3)]
      stamped_channels[OF st other_channels(4)])

lemma stamped_later: "stamped now s \<Longrightarrow> now \<le> later \<Longrightarrow> stamped later s"
  unfolding stamped_def by (metis order.trans)

lemma call_duration_bounds:
  "stamped now s \<Longrightarrow> um_find (al_channels s) cid = Some cx \<Longrightarrow>
     0 \<le> call_duration cx now \<and> call_duration cx now \<le> now - cx_started_at cx"
  by (force simp: stamped_def call_duration_def)

end
