(* ===== verification/Pjsip_Provisioner.thy ===== *)
theory Pjsip_Provisioner
  imports Ari_Rest Json
begin

text \<open>
  \<^verbatim>\<open>PjsipProvisioner\<close> (\<^verbatim>\<open>pbx-agent/src/main/pjsip_provisioner.cpp\<close>): the calls that create and
  remove the objects of one subscriber in Asterisk's configuration store.  The answers are only
  logged by the code, so the model ignores them.

  What the calls ask for is read off the trace: \<^verbatim>\<open>requested_config log (kind, id)\<close> is the body the last call
  of \<^verbatim>\<open>log\<close> on that object asks for, \<^verbatim>\<open>None\<close> after a DELETE or when no call names it.  What Asterisk
  holds depends on its answers: \<^verbatim>\<open>store_run\<close> relates the store before and after a list of calls with
  their answers.
\<close>

section \<open>Operations\<close>

definition kCfgClass :: string where "kCfgClass = ''res_pjsip''"

definition fields_json :: "(string \<times> string) list \<Rightarrow> json" where
  "fields_json fs =
     JObject [(''fields'', JArray (map (\<lambda>(a, v). JObject [(''attribute'', JString a), (''value'', JString v)]) fs))]"

definition make_fields_body :: "json_lib \<Rightarrow> (string \<times> string) list \<Rightarrow> cpp_exn + string" where
  "make_fields_body lib fs =
     (case js_dump lib (fields_json fs) of None \<Rightarrow> Inl JsonTypeError | Some body \<Rightarrow> Inr body)"

definition aor_fields :: "(string \<times> string) list" where
  "aor_fields = [(''type'', ''aor''), (''max_contacts'', ''5''), (''remove_existing'', ''yes'')]"

definition endpoint_fields :: "string \<Rightarrow> (string \<times> string) list" where
  "endpoint_fields aor_id =
     [(''type'', ''endpoint''), (''context'', ''pbx''), (''from_domain'', ''pbx.local''),
      (''disallow'', ''all''), (''allow'', ''opus,ulaw,alaw''), (''direct_media'', ''no''),
      (''rtcp_mux'', ''yes''), (''ice_support'', ''yes''), (''use_avpf'', ''yes''), (''force_avp'', ''yes''),
      (''media_use_received_transport'', ''yes''), (''rewrite_contact'', ''yes''), (''rtp_symmetric'', ''yes''),
      (''transport'', ''transport-ws''), (''webrtc'', ''yes''), (''media_encryption'', ''dtls''),
      (''dtls_verify'', ''fingerprint''), (''dtls_setup'', ''actpass''),
      (''dtls_cert_file'', ''/etc/asterisk/keys/pbx.crt''), (''dtls_private_key'', ''/etc/asterisk/keys/pbx.key''),
      (''dtls_rekey'', ''0''), (''aors'', aor_id)]"

definition provision :: "json_lib \<Rightarrow> string \<Rightarrow> 'a rest_scheme \<Rightarrow> 'a rest_scheme outcome" where
  "provision lib sip_username s =
     (if sip_username = [] then (None, s)
      else let s1 = rest_do (DeleteDynamicConfig kCfgClass ''auth'' (sip_username @ ''-auth'')) s
           in try_value (make_fields_body lib aor_fields) s1 (\<lambda>aor_body.
              let s2 = rest_do (CreateDynamicConfig kCfgClass ''aor'' sip_username aor_body) s1
              in try_value (make_fields_body lib (endpoint_fields sip_username)) s2 (\<lambda>ep_body.
                 (None, rest_do (CreateDynamicConfig kCfgClass ''endpoint'' sip_username ep_body) s2))))"

definition deprovision :: "string \<Rightarrow> 'a rest_scheme \<Rightarrow> 'a rest_scheme" where
  "deprovision sip_username s =
     (if sip_username = [] then s
      else rest_do (DeleteDynamicConfig kCfgClass ''aor'' (sip_username @ ''-aor''))
           (rest_do (DeleteDynamicConfig kCfgClass ''aor'' sip_username)
           (rest_do (DeleteDynamicConfig kCfgClass ''auth'' (sip_username @ ''-auth''))
           (rest_do (DeleteDynamicConfig kCfgClass ''endpoint'' sip_username) s))))"

section \<open>What the calls ask for\<close>

text \<open>
  What a sequence of requests asks for, whether or not they are carried out: the body of the last PUT of an object that no
  DELETE follows.  What Asterisk holds depends on its answers, which are the next section.
\<close>

fun config_call :: "ari_req \<Rightarrow> (string \<times> string) \<Rightarrow> string option \<Rightarrow> string option" where
  "config_call (CreateDynamicConfig cls kind i body) obj old = (if obj = (kind, i) then Some body else old)"
| "config_call (DeleteDynamicConfig cls kind i) obj old = (if obj = (kind, i) then None else old)"
| "config_call _ obj old = old"

definition requested_config :: "ari_req list \<Rightarrow> (string \<times> string) \<Rightarrow> string option" where
  "requested_config log obj = fold (\<lambda>r. config_call r obj) log None"

lemma requested_config_Nil [simp]: "requested_config [] obj = None"
  by (simp add: requested_config_def)

lemma requested_config_append [simp]:
  "requested_config (log @ rs) obj = fold (\<lambda>r. config_call r obj) rs (requested_config log obj)"
  by (simp add: requested_config_def)

section \<open>Asterisk's store and the answers\<close>

text \<open>
  Asterisk is not part of the program.  What its REST interface documents: a PUT answered with a 2xx
  status has written the object, a DELETE answered with a 2xx status, or with 404, leaves none.  A call
  without such an answer may or may not have reached the store; and no call touches another object.
  The program sends its calls one at a time, so the answers pair with the requests in order.
\<close>

type_synonym config_store = "string \<times> string \<Rightarrow> string option"

fun config_object :: "ari_req \<Rightarrow> (string \<times> string) option" where
  "config_object (CreateDynamicConfig cls kind i body) = Some (kind, i)"
| "config_object (DeleteDynamicConfig cls kind i) = Some (kind, i)"
| "config_object _ = None"

definition confirmed :: "ari_req \<Rightarrow> ari_io \<Rightarrow> bool" where
  "confirmed req io \<longleftrightarrow>
     (let status = fst (do_request io)
      in is_2xx status \<or> ((\<exists>cls kind i. req = DeleteDynamicConfig cls kind i) \<and> status = 404))"

definition served :: "ari_req \<Rightarrow> ari_io \<Rightarrow> config_store \<Rightarrow> config_store \<Rightarrow> bool" where
  "served req io \<sigma> \<sigma>' \<longleftrightarrow>
     (\<forall>obj. config_object req \<noteq> Some obj \<longrightarrow> \<sigma>' obj = \<sigma> obj) \<and>
     (\<forall>obj. confirmed req io \<longrightarrow> \<sigma>' obj = config_call req obj (\<sigma> obj))"

inductive store_run :: "(ari_req \<times> ari_io) list \<Rightarrow> config_store \<Rightarrow> config_store \<Rightarrow> bool" where
  store_run_Nil: "store_run [] \<sigma> \<sigma>"
| store_run_Cons: "served req io \<sigma> \<sigma>1 \<Longrightarrow> store_run calls \<sigma>1 \<sigma>2 \<Longrightarrow> store_run ((req, io) # calls) \<sigma> \<sigma>2"

inductive_cases store_run_NilE: "store_run [] \<sigma> \<sigma>'"
inductive_cases store_run_ConsE: "store_run (c # cs) \<sigma> \<sigma>'"

text \<open>The requests with the answers that \<^verbatim>\<open>rest_call\<close> draws for them; when none is left the connection fails.\<close>

fun answered :: "ari_req list \<Rightarrow> ari_io list \<Rightarrow> (ari_req \<times> ari_io) list" where
  "answered [] ios = []"
| "answered (r # rs) [] = (r, IoFail) # answered rs []"
| "answered (r # rs) (io # ios) = (r, io) # answered rs ios"

lemma length_answered: "length (answered rs ios) = length rs"
  by (induction rs ios rule: answered.induct) simp_all

lemma config_call_other: "config_object req \<noteq> Some obj \<Longrightarrow> config_call req obj old = old"
  by (cases req) auto

lemma served_object:
  "served r io \<sigma> \<sigma>1 \<Longrightarrow> (config_object r = Some obj \<longrightarrow> confirmed r io) \<Longrightarrow> \<sigma>1 obj = config_call r obj (\<sigma> obj)"
  unfolding served_def by (metis config_call_other)

lemma store_run_object:
  "store_run (answered rs ios) \<sigma> \<sigma>' \<Longrightarrow>
   \<forall>(r, io) \<in> set (answered rs ios). config_object r = Some obj \<longrightarrow> confirmed r io \<Longrightarrow>
   \<sigma>' obj = fold (\<lambda>r. config_call r obj) rs (\<sigma> obj)"
proof (induction rs ios arbitrary: \<sigma> rule: answered.induct)
  case (1 ios)
  then show ?case by (auto elim: store_run_NilE)
next
  case (2 r rs)
  from 2(2) obtain \<sigma>1 where s: "served r IoFail \<sigma> \<sigma>1" "store_run (answered rs []) \<sigma>1 \<sigma>'"
    by (auto elim: store_run_ConsE)
  have "\<sigma>1 obj = config_call r obj (\<sigma> obj)"
    by (intro served_object[OF s(1)]) (use 2(3) in simp)
  with 2(1)[OF s(2)] 2(3) show ?case by simp
next
  case (3 r rs io ios)
  from 3(2) obtain \<sigma>1 where s: "served r io \<sigma> \<sigma>1" "store_run (answered rs ios) \<sigma>1 \<sigma>'"
    by (auto elim: store_run_ConsE)
  have "\<sigma>1 obj = config_call r obj (\<sigma> obj)"
    by (intro served_object[OF s(1)]) (use 3(3) in simp)
  with 3(1)[OF s(2)] 3(3) show ?case by simp
qed

text \<open>One behaviour the documentation allows: what is not confirmed is not done.\<close>

definition serve :: "ari_req \<times> ari_io \<Rightarrow> config_store \<Rightarrow> config_store" where
  "serve c \<sigma> = (if confirmed (fst c) (snd c) then (\<lambda>obj. config_call (fst c) obj (\<sigma> obj)) else \<sigma>)"

lemma store_run_serve: "store_run cs \<sigma> (fold serve cs \<sigma>)"
proof (induction cs arbitrary: \<sigma>)
  case (Cons c cs)
  have "served (fst c) (snd c) \<sigma> (serve c \<sigma>)" by (simp add: served_def serve_def config_call_other)
  from store_run_Cons[OF this Cons.IH] show ?case by simp
qed (simp add: store_run_Nil)

text \<open>The two bodies a subscriber is provisioned with.\<close>

definition provisioned :: "json_lib \<Rightarrow> string \<Rightarrow> ari_req list \<Rightarrow> bool" where
  "provisioned lib u log \<longleftrightarrow>
     (\<exists>a. make_fields_body lib aor_fields = Inr a \<and> requested_config log (''aor'', u) = Some a) \<and>
     (\<exists>e. make_fields_body lib (endpoint_fields u) = Inr e \<and> requested_config log (''endpoint'', u) = Some e) \<and>
     requested_config log (''auth'', u @ ''-auth'') = None"

definition printable :: "json_lib \<Rightarrow> string \<Rightarrow> bool" where
  "printable lib u \<longleftrightarrow>
     js_dump lib (fields_json aor_fields) \<noteq> None \<and> js_dump lib (fields_json (endpoint_fields u)) \<noteq> None"

lemma provision_ok:
  assumes "printable lib u" "u \<noteq> []"
  shows "fst (provision lib u s) = None" "provisioned lib u (ar_log (snd (provision lib u s)))"
  using assms
  by (auto simp: provision_def provisioned_def make_fields_body_def printable_def try_value_def Let_def)

text \<open>Provisioning one subscriber does not touch the objects of another, except a stale \<^verbatim>\<open>auth\<close>.\<close>

lemma provision_other:
  "v \<noteq> u \<Longrightarrow> requested_config (ar_log (snd (provision lib u s))) (''endpoint'', v) = requested_config (ar_log s) (''endpoint'', v)"
  "v \<noteq> u \<Longrightarrow> requested_config (ar_log (snd (provision lib u s))) (''aor'', v) = requested_config (ar_log s) (''aor'', v)"
  by (auto simp: provision_def try_value_def Let_def split: sum.splits)

lemma deprovision_ok:
  "u \<noteq> [] \<Longrightarrow> requested_config (ar_log (deprovision u s)) (''endpoint'', u) = None"
  "u \<noteq> [] \<Longrightarrow> requested_config (ar_log (deprovision u s)) (''aor'', u) = None"
  "u \<noteq> [] \<Longrightarrow> requested_config (ar_log (deprovision u s)) (''auth'', u @ ''-auth'') = None"
  by (simp_all add: deprovision_def)

lemma deprovision_other:
  "v \<noteq> u \<Longrightarrow> requested_config (ar_log (deprovision u s)) (''endpoint'', v) = requested_config (ar_log s) (''endpoint'', v)"
  "v \<noteq> u \<Longrightarrow> v \<noteq> u @ ''-aor'' \<Longrightarrow>
     requested_config (ar_log (deprovision u s)) (''aor'', v) = requested_config (ar_log s) (''aor'', v)"
  by (simp_all add: deprovision_def)

text \<open>
  Removing a subscriber deletes the registration object of the one whose name is that name
  followed by \<^verbatim>\<open>-aor\<close>: the old naming scheme that the last DELETE cleans up collides with the new one.
\<close>

lemma deprovision_collision:
  "u \<noteq> [] \<Longrightarrow> requested_config (ar_log (deprovision u s)) (''aor'', u @ ''-aor'') = None"
  by (simp add: deprovision_def)

text \<open>The endpoint goes first: whenever the registration object is gone, so is the endpoint.\<close>

lemma deprovision_trace:
  "u \<noteq> [] \<Longrightarrow> ar_log (deprovision u s) = ar_log s @
     [DeleteDynamicConfig kCfgClass ''endpoint'' u, DeleteDynamicConfig kCfgClass ''auth'' (u @ ''-auth''),
      DeleteDynamicConfig kCfgClass ''aor'' u, DeleteDynamicConfig kCfgClass ''aor'' (u @ ''-aor'')]"
  by (simp add: deprovision_def rest_do_def rest_call_def Let_def split_beta)

lemma truncate_rest:
  "rest.more (snd (provision lib u s)) = rest.more s" "rest.more (deprovision u s) = rest.more s"
  by (auto simp: provision_def deprovision_def rest_do_def rest_call_def try_value_def Let_def split_beta
      split: sum.splits)

end
