(* ===== verification/Subscriber_Watcher.thy ===== *)
theory Subscriber_Watcher
  imports Pjsip_Provisioner
begin

text \<open>
  \<^verbatim>\<open>SubscriberWatcher\<close> (\<^verbatim>\<open>pbx-agent/src/main/subscriber_watcher.cpp\<close>): the full scan of the
  subscribers of a society and the tail of the change stream that keep Asterisk's configuration in
  step with the database.  Its record extends the REST client's, through which it provisions.

  The database is a parameter: \<^verbatim>\<open>we_get_documents\<close> answers a query (\<^term>\<open>None\<close>: it threw), the
  lists \<^verbatim>\<open>sw_opens\<close> and \<^verbatim>\<open>sw_polls\<close> hold what the next \<^verbatim>\<open>watch_collection\<close> and \<^verbatim>\<open>try_next\<close> will
  answer (an exhausted list: no cursor, no event).  The tokens passed to \<^verbatim>\<open>watch_collection\<close> are
  recorded.
\<close>

section \<open>State and operations\<close>

datatype poll = PollThrow | PollEvent string

record watcher_env =
  we_json :: json_lib
  we_get_documents :: "string \<Rightarrow> string \<Rightarrow> string \<Rightarrow> string option"

record watcher = rest +
  sw_realm :: string
  sw_society_id :: string
  sw_stream :: bool
  sw_id_to_sipuser :: "(string, string) umap"
  sw_resume_token :: string
  sw_reopen_skip_ticks :: int
  sw_opens :: "bool list"
  sw_polls :: "poll list"
  sw_watch_log :: "string list"

definition new_watcher ::
  "ari_config \<Rightarrow> ari_io list \<Rightarrow> string \<Rightarrow> string \<Rightarrow> bool list \<Rightarrow> poll list \<Rightarrow> watcher" where
  "new_watcher cfg io realm society opens polls =
     \<lparr>ar_cfg = cfg, ar_log = [], ar_io = io, sw_realm = realm, sw_society_id = society, sw_stream = False,
      sw_id_to_sipuser = [], sw_resume_token = [], sw_reopen_skip_ticks = 0, sw_opens = opens, sw_polls = polls,
      sw_watch_log = []\<rparr>"

definition set_sip_realm :: "string \<Rightarrow> 'a watcher_scheme \<Rightarrow> 'a watcher_scheme" where
  "set_sip_realm realm s = s\<lparr>sw_realm := realm\<rparr>"

definition oid_str :: "json_lib \<Rightarrow> json \<Rightarrow> cpp_exn + string" where
  "oid_str lib id_node =
     (case j_get_string id_node ''$oid'' of
        Some v \<Rightarrow> Inr v
      | None \<Rightarrow> (case js_dump lib id_node of None \<Rightarrow> Inl JsonTypeError | Some t \<Rightarrow> Inr t))"

text \<open>The three members read from a row or a full document.\<close>

definition subscriber_fields :: "json \<Rightarrow> cpp_exn + (string \<times> string \<times> string)" where
  "subscriber_fields row =
     (case j_value row ''sipUsername'' [] of
        Inl e \<Rightarrow> Inl e
      | Inr sip_user \<Rightarrow>
          (case j_value row ''sipHa1'' [] of
             Inl e \<Rightarrow> Inl e
           | Inr sip_ha1 \<Rightarrow>
               (case j_value row ''status'' ''active'' of
                  Inl e \<Rightarrow> Inl e
                | Inr status \<Rightarrow> Inr (sip_user, sip_ha1, status))))"

text \<open>The part the scan and the event handler have in common: cache the id, then provision or remove.\<close>

definition apply_subscriber ::
  "json_lib \<Rightarrow> json \<Rightarrow> string \<Rightarrow> string \<Rightarrow> 'a watcher_scheme \<Rightarrow> 'a watcher_scheme outcome" where
  "apply_subscriber lib doc sip_user status s =
     (let go = (\<lambda>t. if status = ''active'' then provision lib sip_user t else (None, deprovision sip_user t))
      in case j_get doc ''_id'' of
           None \<Rightarrow> go s
         | Some id_node \<Rightarrow>
             try_value (oid_str lib id_node) s (\<lambda>i.
               go (s\<lparr>sw_id_to_sipuser := um_put i sip_user (sw_id_to_sipuser s)\<rparr>)))"

fun scan_rows :: "json_lib \<Rightarrow> json list \<Rightarrow> 'a watcher_scheme \<Rightarrow> 'a watcher_scheme outcome" where
  "scan_rows lib [] s = (None, s)"
| "scan_rows lib (row # rows) s =
     (if \<not> j_is_object row then scan_rows lib rows s
      else try_value (subscriber_fields row) s (\<lambda>(sip_user, sip_ha1, status).
        if sip_user = [] then scan_rows lib rows s
        else case apply_subscriber lib row sip_user status s of
               (Some e, s') \<Rightarrow> (Some e, s')
             | (None, s') \<Rightarrow> scan_rows lib rows s'))"

definition society_filter :: "string \<Rightarrow> string" where
  "society_filter society_id = ''{\"societyId\":\"'' @ society_id @ ''\"}''"

definition run_full_scan :: "'e watcher_env_scheme \<Rightarrow> 'a watcher_scheme \<Rightarrow> 'a watcher_scheme outcome" where
  "run_full_scan env s =
     (case we_get_documents env ''subscribers'' (society_filter (sw_society_id s)) ''{}'' of
        None \<Rightarrow> (None, s)
      | Some raw \<Rightarrow>
          (if raw = [] then (None, s)
           else case js_parse (we_json env) raw of
                  Some (JArray arr) \<Rightarrow> scan_rows (we_json env) arr s
                | _ \<Rightarrow> (None, s)))"

definition open_stream :: "'a watcher_scheme \<Rightarrow> 'a watcher_scheme" where
  "open_stream s =
     s\<lparr>sw_stream := (case sw_opens s of [] \<Rightarrow> False | b # _ \<Rightarrow> b), sw_opens := tl (sw_opens s),
       sw_watch_log := sw_watch_log s @ [sw_resume_token s]\<rparr>"

definition bootstrap :: "'e watcher_env_scheme \<Rightarrow> 'a watcher_scheme \<Rightarrow> 'a watcher_scheme outcome" where
  "bootstrap env s =
     (case run_full_scan env s of (Some e, s1) \<Rightarrow> (Some e, s1) | (None, s1) \<Rightarrow> (None, open_stream s1))"

definition resync :: "'e watcher_env_scheme \<Rightarrow> 'a watcher_scheme \<Rightarrow> 'a watcher_scheme outcome" where
  "resync env s = run_full_scan env s"

text \<open>The delete branch and the full-document branch of \<^verbatim>\<open>handle_event\<close>.\<close>

definition handle_delete :: "json_lib \<Rightarrow> json \<Rightarrow> 'a watcher_scheme \<Rightarrow> 'a watcher_scheme outcome" where
  "handle_delete lib e s =
     (case j_get_object e ''documentKey'' of
        None \<Rightarrow> (None, s)
      | Some dk \<Rightarrow>
          (case j_get dk ''_id'' of
             None \<Rightarrow> (None, s)
           | Some id_node \<Rightarrow>
               try_value (oid_str lib id_node) s (\<lambda>i.
                 case um_find (sw_id_to_sipuser s) i of
                   None \<Rightarrow> (None, s)
                 | Some u \<Rightarrow>
                     (None, (deprovision u s)\<lparr>sw_id_to_sipuser := um_erase i (sw_id_to_sipuser s)\<rparr>))))"

definition handle_full_document :: "json_lib \<Rightarrow> json \<Rightarrow> 'a watcher_scheme \<Rightarrow> 'a watcher_scheme outcome" where
  "handle_full_document lib e s =
     (case j_get_object e ''fullDocument'' of
        None \<Rightarrow> (None, s)
      | Some doc \<Rightarrow>
          try_value (j_value doc ''societyId'' []) s (\<lambda>society.
          if society \<noteq> sw_society_id s then (None, s)
          else try_value (subscriber_fields doc) s (\<lambda>(sip_user, sip_ha1, status).
            if sip_user = [] then (None, s) else apply_subscriber lib doc sip_user status s)))"

definition handle_event :: "json_lib \<Rightarrow> string \<Rightarrow> 'a watcher_scheme \<Rightarrow> 'a watcher_scheme outcome" where
  "handle_event lib event_json s =
     (case js_parse lib event_json of
        None \<Rightarrow> (None, s)
      | Some e \<Rightarrow>
          (let dispatch = (\<lambda>s1. try_value (j_value e ''operationType'' []) s1 (\<lambda>op.
                 if op = ''delete'' then handle_delete lib e s1 else handle_full_document lib e s1))
           in case j_get e ''_id'' of
                None \<Rightarrow> dispatch s
              | Some tok \<Rightarrow>
                  (case js_dump lib tok of
                     None \<Rightarrow> (Some JsonTypeError, s)
                   | Some t \<Rightarrow> dispatch (s\<lparr>sw_resume_token := t\<rparr>))))"

definition watcher_tick :: "'e watcher_env_scheme \<Rightarrow> 'a watcher_scheme \<Rightarrow> 'a watcher_scheme outcome" where
  "watcher_tick env s =
     (if \<not> sw_stream s then
        (if sw_reopen_skip_ticks s > 0 then (None, s\<lparr>sw_reopen_skip_ticks := sw_reopen_skip_ticks s - 1\<rparr>)
         else let s1 = open_stream s
              in (None, if \<not> sw_stream s1 then s1\<lparr>sw_reopen_skip_ticks := 5\<rparr> else s1))
      else case sw_polls s of
             [] \<Rightarrow> (None, s)
           | PollThrow # ps \<Rightarrow> (None, s\<lparr>sw_polls := ps, sw_stream := False, sw_reopen_skip_ticks := 0\<rparr>)
           | PollEvent evt # ps \<Rightarrow>
               (let s1 = s\<lparr>sw_polls := ps\<rparr> in if evt = [] then (None, s1) else handle_event (we_json env) evt s1))"

section \<open>What provisioning leaves alone\<close>

lemma provision_watcher [simp]:
  "sw_society_id (snd (provision lib u s)) = sw_society_id s"
  "sw_stream (snd (provision lib u s)) = sw_stream s"
  "sw_id_to_sipuser (snd (provision lib u s)) = sw_id_to_sipuser s"
  "sw_resume_token (snd (provision lib u s)) = sw_resume_token s"
  "sw_reopen_skip_ticks (snd (provision lib u s)) = sw_reopen_skip_ticks s"
  "sw_opens (snd (provision lib u s)) = sw_opens s"
  "sw_polls (snd (provision lib u s)) = sw_polls s"
  "sw_watch_log (snd (provision lib u s)) = sw_watch_log s"
  by (simp_all add: provision_def rest_do_def rest_call_def try_value_def Let_def split_beta split: sum.splits)

lemma deprovision_watcher [simp]:
  "sw_society_id (deprovision u s) = sw_society_id s"
  "sw_stream (deprovision u s) = sw_stream s"
  "sw_id_to_sipuser (deprovision u s) = sw_id_to_sipuser s"
  "sw_resume_token (deprovision u s) = sw_resume_token s"
  "sw_reopen_skip_ticks (deprovision u s) = sw_reopen_skip_ticks s"
  "sw_opens (deprovision u s) = sw_opens s"
  "sw_polls (deprovision u s) = sw_polls s"
  "sw_watch_log (deprovision u s) = sw_watch_log s"
  by (simp_all add: deprovision_def rest_do_def rest_call_def Let_def split_beta)

lemma provision_log_cong [simp]:
  "ar_log (snd (provision lib u (s\<lparr>sw_id_to_sipuser := c\<rparr>))) = ar_log (snd (provision lib u s))"
  "fst (provision lib u (s\<lparr>sw_id_to_sipuser := c\<rparr>)) = fst (provision lib u s)"
  "ar_log (deprovision u (s\<lparr>sw_id_to_sipuser := c\<rparr>)) = ar_log (deprovision u s)"
  by (auto simp: provision_def deprovision_def rest_do_def rest_call_def try_value_def Let_def split_beta
      split: sum.splits)

section \<open>The full scan\<close>

text \<open>
  The specification of a scan: the last row of a user decides, an absent status counts as active,
  a user without rows is left as it was.
\<close>

definition row_status :: "json \<Rightarrow> string \<Rightarrow> bool option" where
  "row_status row u =
     (if j_is_object row then
        (case subscriber_fields row of
           Inr (v, _, status) \<Rightarrow> (if v = u \<and> v \<noteq> [] then Some (status = ''active'') else None)
         | Inl _ \<Rightarrow> None)
      else None)"

fun scan_status :: "json list \<Rightarrow> string \<Rightarrow> bool option \<Rightarrow> bool option" where
  "scan_status [] u acc = acc"
| "scan_status (row # rows) u acc =
     scan_status rows u (case row_status row u of None \<Rightarrow> acc | Some b \<Rightarrow> Some b)"

lemma scan_status_Some [simp]: "scan_status rows u (Some b) \<noteq> None"
  by (induction rows arbitrary: b) (auto split: option.splits)

definition endpoint_body :: "json_lib \<Rightarrow> string \<Rightarrow> string option" where
  "endpoint_body lib u = (case make_fields_body lib (endpoint_fields u) of Inr b \<Rightarrow> Some b | Inl _ \<Rightarrow> None)"

text \<open>A row the scan gets through: string members, printable bodies, a printable id.\<close>

definition row_ok :: "json_lib \<Rightarrow> json \<Rightarrow> bool" where
  "row_ok lib row \<longleftrightarrow> j_is_object row \<longrightarrow>
     (case subscriber_fields row of
        Inl _ \<Rightarrow> False
      | Inr (u, _, _) \<Rightarrow> printable lib u \<and>
          (case j_get row ''_id'' of None \<Rightarrow> True | Some n \<Rightarrow> \<exists>i. oid_str lib n = Inr i))"

text \<open>The calls made for one subscriber, and for one row of the scan.\<close>

definition aor_body :: "json_lib \<Rightarrow> string option" where
  "aor_body lib = (case make_fields_body lib aor_fields of Inr b \<Rightarrow> Some b | Inl _ \<Rightarrow> None)"

definition subscriber_requests :: "json_lib \<Rightarrow> string \<Rightarrow> string \<Rightarrow> ari_req list" where
  "subscriber_requests lib u status =
     (if status = ''active''
      then [DeleteDynamicConfig kCfgClass ''auth'' (u @ ''-auth''),
            CreateDynamicConfig kCfgClass ''aor'' u (the (aor_body lib)),
            CreateDynamicConfig kCfgClass ''endpoint'' u (the (endpoint_body lib u))]
      else [DeleteDynamicConfig kCfgClass ''endpoint'' u, DeleteDynamicConfig kCfgClass ''auth'' (u @ ''-auth''),
            DeleteDynamicConfig kCfgClass ''aor'' u, DeleteDynamicConfig kCfgClass ''aor'' (u @ ''-aor'')])"

definition row_user :: "json \<Rightarrow> (string \<times> string) option" where
  "row_user row =
     (if j_is_object row
      then (case subscriber_fields row of Inr (u, _, status) \<Rightarrow> if u = [] then None else Some (u, status) | Inl _ \<Rightarrow> None)
      else None)"

definition row_requests :: "json_lib \<Rightarrow> json \<Rightarrow> ari_req list" where
  "row_requests lib row = (case row_user row of None \<Rightarrow> [] | Some (u, status) \<Rightarrow> subscriber_requests lib u status)"

lemma row_status_user: "row_status row u =
    (case row_user row of Some (v, status) \<Rightarrow> if v = u then Some (status = ''active'') else None | None \<Rightarrow> None)"
  by (auto simp: row_status_def row_user_def split: sum.split)

lemma apply_subscriber_trace:
  assumes u: "u \<noteq> []" and p: "printable lib u"
    and i: "case j_get doc ''_id'' of None \<Rightarrow> True | Some n \<Rightarrow> \<exists>i. oid_str lib n = Inr i"
  shows "fst (apply_subscriber lib doc u status s) = None"
    and "ar_log (snd (apply_subscriber lib doc u status s)) = ar_log s @ subscriber_requests lib u status"
    and "ar_io (snd (apply_subscriber lib doc u status s)) = drop (length (subscriber_requests lib u status)) (ar_io s)"
  using assms
  by (auto simp: apply_subscriber_def provision_def deprovision_def subscriber_requests_def printable_def aor_body_def
      endpoint_body_def make_fields_body_def try_value_def Let_def split: option.splits)

lemma scan_rows_trace:
  "list_all (row_ok lib) rows \<Longrightarrow>
   fst (scan_rows lib rows s) = None \<and>
   ar_log (snd (scan_rows lib rows s)) = ar_log s @ concat (map (row_requests lib) rows) \<and>
   ar_io (snd (scan_rows lib rows s)) = drop (length (concat (map (row_requests lib) rows))) (ar_io s)"
proof (induction rows arbitrary: s)
  case (Cons row rows)
  note ok = Cons.prems[simplified]
  show ?case
  proof (cases "row_user row")
    case None
    then have "scan_rows lib (row # rows) s = scan_rows lib rows s"
      using ok by (auto simp: row_ok_def row_user_def try_value_def split: sum.splits if_splits)
    with Cons.IH[of s] ok None show ?thesis by (simp add: row_requests_def)
  next
    case (Some q)
    then obtain v h st where r: "j_is_object row" "subscriber_fields row = Inr (v, h, st)" "v \<noteq> []" "q = (v, st)"
      by (auto simp: row_user_def split: sum.splits if_splits)
    let ?r = "apply_subscriber lib row v st s"
    have a: "fst ?r = None" "ar_log (snd ?r) = ar_log s @ subscriber_requests lib v st"
      "ar_io (snd ?r) = drop (length (subscriber_requests lib v st)) (ar_io s)"
      using apply_subscriber_trace[of v lib row st s] r ok by (auto simp: row_ok_def)
    then have "scan_rows lib (row # rows) s = scan_rows lib rows (snd ?r)"
      using r by (cases ?r) (simp add: try_value_def)
    with Cons.IH[of "snd ?r"] ok a(2,3) Some r(4) show ?thesis by (simp add: row_requests_def add.commute)
  qed
qed simp

lemma row_calls:
  assumes "row_ok lib row"
  shows "fold (\<lambda>r. config_call r (''endpoint'', u)) (row_requests lib row) old =
      (case row_status row u of None \<Rightarrow> old | Some b \<Rightarrow> if b then endpoint_body lib u else None)"
    and "\<forall>v st. row_user row = Some (v, st) \<longrightarrow> v @ ''-aor'' \<noteq> u \<Longrightarrow>
      fold (\<lambda>r. config_call r (''aor'', u)) (row_requests lib row) old =
      (case row_status row u of None \<Rightarrow> old | Some b \<Rightarrow> if b then aor_body lib else None)"
proof -
  have p: "printable lib v" if "row_user row = Some (v, st)" for v st
    using assms that by (auto simp: row_ok_def row_user_def split: sum.splits if_splits)
  have "endpoint_body lib v = Some (the (endpoint_body lib v))" "aor_body lib = Some (the (aor_body lib))"
    if "row_user row = Some (v, st)" for v st
    using p[OF that] by (auto simp: printable_def endpoint_body_def aor_body_def make_fields_body_def split: option.splits)
  then show "fold (\<lambda>r. config_call r (''endpoint'', u)) (row_requests lib row) old =
      (case row_status row u of None \<Rightarrow> old | Some b \<Rightarrow> if b then endpoint_body lib u else None)"
    "\<forall>v st. row_user row = Some (v, st) \<longrightarrow> v @ ''-aor'' \<noteq> u \<Longrightarrow>
      fold (\<lambda>r. config_call r (''aor'', u)) (row_requests lib row) old =
      (case row_status row u of None \<Rightarrow> old | Some b \<Rightarrow> if b then aor_body lib else None)"
    by (auto simp: row_requests_def row_status_user subscriber_requests_def split: option.split)
qed

text \<open>What a list of rows asks for: the last row of a user decides.\<close>

lemma scan_calls:
  assumes "\<And>row old. row \<in> set rows \<Longrightarrow> fold (\<lambda>r. config_call r obj) (row_requests lib row) old =
      (case row_status row u of None \<Rightarrow> old | Some b \<Rightarrow> if b then body else None)"
  shows "fold (\<lambda>r. config_call r obj) (concat (map (row_requests lib) rows))
      (case acc of None \<Rightarrow> old | Some b \<Rightarrow> if b then body else None) =
    (case scan_status rows u acc of None \<Rightarrow> old | Some b \<Rightarrow> if b then body else None)"
  using assms
proof (induction rows arbitrary: acc)
  case (Cons row rows)
  let ?acc = "case row_status row u of None \<Rightarrow> acc | Some b \<Rightarrow> Some b"
  have "fold (\<lambda>r. config_call r obj) (row_requests lib row) (case acc of None \<Rightarrow> old | Some b \<Rightarrow> if b then body else None) =
      (case ?acc of None \<Rightarrow> old | Some b \<Rightarrow> if b then body else None)"
    using Cons.prems[of row] by (simp split: option.split)
  with Cons.IH[of ?acc] Cons.prems show ?case by simp
qed simp

lemma provision_realm [simp]:
  "sw_realm (snd (provision lib u s)) = sw_realm s" "sw_realm (deprovision u s) = sw_realm s"
  by (simp_all add: provision_def deprovision_def rest_do_def rest_call_def try_value_def Let_def split_beta
      split: sum.splits)

lemma scan_rows_realm: "sw_realm (snd (scan_rows lib rows s)) = sw_realm s"
proof (induction rows arbitrary: s)
  case (Cons row rows)
  have "sw_realm (snd (apply_subscriber lib row u st s)) = sw_realm s" for u st
    by (simp add: apply_subscriber_def try_value_def Let_def split: option.split sum.split)
  then have "apply_subscriber lib row u st s = (e, t) \<Longrightarrow> sw_realm t = sw_realm s" for u st e t
    by (metis snd_conv)
  with Cons.IH show ?case by (simp add: try_value_def split: sum.split prod.split option.split)
qed simp

lemma resync_realm: "sw_realm (snd (resync env s)) = sw_realm s"
  by (simp add: resync_def run_full_scan_def scan_rows_realm split: option.split json.split)

section \<open>The change stream\<close>

lemma apply_subscriber_watcher [simp]:
  "sw_society_id (snd (apply_subscriber lib doc u st s)) = sw_society_id s"
  "sw_stream (snd (apply_subscriber lib doc u st s)) = sw_stream s"
  "sw_resume_token (snd (apply_subscriber lib doc u st s)) = sw_resume_token s"
  "sw_reopen_skip_ticks (snd (apply_subscriber lib doc u st s)) = sw_reopen_skip_ticks s"
  "sw_opens (snd (apply_subscriber lib doc u st s)) = sw_opens s"
  "sw_polls (snd (apply_subscriber lib doc u st s)) = sw_polls s"
  "sw_watch_log (snd (apply_subscriber lib doc u st s)) = sw_watch_log s"
  by (simp_all add: apply_subscriber_def try_value_def Let_def split: option.split sum.split)

lemmas event_defs = handle_event_def handle_delete_def handle_full_document_def try_value_def Let_def

lemma handle_event_watcher [simp]:
  "sw_society_id (snd (handle_event lib ev s)) = sw_society_id s"
  "sw_stream (snd (handle_event lib ev s)) = sw_stream s"
  "sw_reopen_skip_ticks (snd (handle_event lib ev s)) = sw_reopen_skip_ticks s"
  "sw_opens (snd (handle_event lib ev s)) = sw_opens s"
  "sw_polls (snd (handle_event lib ev s)) = sw_polls s"
  "sw_watch_log (snd (handle_event lib ev s)) = sw_watch_log s"
  by (simp_all add: event_defs split: option.split sum.split prod.split)

text \<open>
  The token becomes that of the event as soon as the event has one, whether or not the rest of
  the handler acts on it or throws.
\<close>

lemma handle_event_token:
  assumes "js_parse lib ev = Some e"
  shows "sw_resume_token (snd (handle_event lib ev s)) =
    (case j_get e ''_id'' of None \<Rightarrow> sw_resume_token s
     | Some n \<Rightarrow> (case js_dump lib n of None \<Rightarrow> sw_resume_token s | Some t \<Rightarrow> t))"
  using assms by (simp add: event_defs split: option.split sum.split prod.split)

text \<open>A change to a document of another society makes no call and leaves the cache alone.\<close>

lemma other_society_ignored:
  assumes "js_parse lib ev = Some e" "j_get_string e ''operationType'' = Some op" "op \<noteq> ''delete''"
    and "j_get_object e ''fullDocument'' = Some doc" "j_get_string doc ''societyId'' = Some soc" "soc \<noteq> sw_society_id s"
  shows "ar_log (snd (handle_event lib ev s)) = ar_log s"
    "sw_id_to_sipuser (snd (handle_event lib ev s)) = sw_id_to_sipuser s"
  using assms by (simp_all add: event_defs j_value_string split: option.split)

text \<open>A deletion is resolved through the cache, removes the endpoint and forgets the id.\<close>

lemma delete_deprovisions:
  assumes "js_parse lib ev = Some e" "j_get_string e ''operationType'' = Some ''delete''"
    and tok: "j_get e ''_id'' = None \<or> (\<exists>n t. j_get e ''_id'' = Some n \<and> js_dump lib n = Some t)"
    and "j_get_object e ''documentKey'' = Some dk" "j_get dk ''_id'' = Some n" "oid_str lib n = Inr i"
    and "um_find (sw_id_to_sipuser s) i = Some u" "u \<noteq> []"
  shows "fst (handle_event lib ev s) = None"
    "requested_config (ar_log (snd (handle_event lib ev s))) (''endpoint'', u) = None"
    "um_find (sw_id_to_sipuser (snd (handle_event lib ev s))) i = None"
  using assms by (auto simp: event_defs j_value_string deprovision_def)

text \<open>An update that renames a user leaves the endpoint of the old name in place.\<close>

lemma rename_leaves_endpoint:
  assumes "js_parse lib ev = Some e" "j_get_string e ''operationType'' = Some op" "op \<noteq> ''delete''"
    and "j_get_object e ''fullDocument'' = Some doc"
    and "subscriber_fields doc = Inr (v, h, st)" "v \<noteq> u"
  shows "requested_config (ar_log (snd (handle_event lib ev s))) (''endpoint'', u) = requested_config (ar_log s) (''endpoint'', u)"
proof -
  have "requested_config (ar_log (snd (apply_subscriber lib doc v st t))) (''endpoint'', u) = requested_config (ar_log t) (''endpoint'', u)"
    for t :: "'a watcher_scheme"
    using assms(6)
    by (simp add: apply_subscriber_def try_value_def Let_def provision_other deprovision_other
        split: option.split sum.split)
  then show ?thesis
    using assms by (simp add: event_defs j_value_string split: option.split sum.split)
qed

section \<open>Ticks\<close>

primrec watcher_ticks :: "'e watcher_env_scheme \<Rightarrow> nat \<Rightarrow> 'a watcher_scheme \<Rightarrow> 'a watcher_scheme" where
  "watcher_ticks env 0 s = s"
| "watcher_ticks env (Suc n) s = watcher_ticks env n (snd (watcher_tick env s))"

lemma watcher_ticks_add: "watcher_ticks env (m + n) s = watcher_ticks env n (watcher_ticks env m s)"
  by (induction m arbitrary: s) simp_all

text \<open>While the database refuses a cursor, one attempt in six ticks is made, always with the same token.\<close>

lemma idle_ticks:
  "\<not> sw_stream s \<Longrightarrow> sw_reopen_skip_ticks s = int k \<Longrightarrow> n \<le> k \<Longrightarrow>
     watcher_ticks env n s = s\<lparr>sw_reopen_skip_ticks := int (k - n)\<rparr>"
proof (induction n arbitrary: s k)
  case (Suc n)
  then obtain k' where k: "k = Suc k'" by (cases k) auto
  show ?case
    using Suc.prems Suc.IH[of "s\<lparr>sw_reopen_skip_ticks := int k'\<rparr>" k']
    by (simp add: k watcher_tick_def)
qed simp

lemma refused_open:
  assumes "\<not> sw_stream s" "sw_reopen_skip_ticks s = 0" "\<forall>b \<in> set (sw_opens s). \<not> b"
  shows "snd (watcher_tick env s) = s\<lparr>sw_opens := tl (sw_opens s),
    sw_watch_log := sw_watch_log s @ [sw_resume_token s], sw_reopen_skip_ticks := 5\<rparr>"
  using assms by (cases "sw_opens s") (simp_all add: watcher_tick_def open_stream_def Let_def)

lemma refused_round:
  assumes "\<not> sw_stream s" "sw_reopen_skip_ticks s = 0" "\<forall>b \<in> set (sw_opens s). \<not> b" "n \<le> 5"
  shows "watcher_ticks env (Suc n) s = s\<lparr>sw_opens := tl (sw_opens s),
    sw_watch_log := sw_watch_log s @ [sw_resume_token s], sw_reopen_skip_ticks := int (5 - n)\<rparr>"
  using assms idle_ticks[of "snd (watcher_tick env s)" 5 n env] by (simp add: refused_open)

lemma refused_ticks:
  assumes "\<not> sw_stream s" "sw_reopen_skip_ticks s = 0" "\<forall>b \<in> set (sw_opens s). \<not> b"
  shows "sw_watch_log (watcher_ticks env n s) = sw_watch_log s @ replicate ((n + 5) div 6) (sw_resume_token s) \<and>
    \<not> sw_stream (watcher_ticks env n s)"
  using assms
proof (induction n arbitrary: s rule: less_induct)
  case (less n)
  consider "n = 0" | m where "n = Suc m" "m \<le> 5" | m where "n = Suc 5 + Suc m"
    by (metis add_Suc_right le_add_diff_inverse not_less_eq_eq old.nat.exhaust Suc_leI)
  then show ?case
  proof cases
    case 1
    then show ?thesis using less.prems by simp
  next
    case (2 m)
    then have "(n + 5) div 6 = 1" by (intro div_nat_eqI) simp_all
    then show ?thesis using less.prems 2 by (simp add: refused_round del: watcher_ticks.simps)
  next
    case (3 m)
    define t where "t = watcher_ticks env (Suc 5) s"
    have t: "t = s\<lparr>sw_opens := tl (sw_opens s), sw_watch_log := sw_watch_log s @ [sw_resume_token s],
        sw_reopen_skip_ticks := 0\<rparr>"
      using refused_round[OF less.prems, of 5 env] unfolding t_def by simp
    have "\<forall>b \<in> set (sw_opens t). \<not> b"
      using less.prems(3) by (cases "sw_opens s") (auto simp: t)
    then have "sw_watch_log (watcher_ticks env (Suc m) t) =
        sw_watch_log t @ replicate ((Suc m + 5) div 6) (sw_resume_token t) \<and> \<not> sw_stream (watcher_ticks env (Suc m) t)"
      using 3 less.prems(1) by (intro less.IH) (simp_all add: t)
    moreover have "(n + 5) div 6 = Suc ((Suc m + 5) div 6)"
      using 3 by simp
    moreover have "watcher_ticks env n s = watcher_ticks env (Suc m) t"
      unfolding 3 t_def by (rule watcher_ticks_add)
    ultimately show ?thesis by (simp add: t del: watcher_ticks.simps)
  qed
qed

text \<open>With a live cursor the events are handled in the order they arrive, one per tick.\<close>

lemma provision_polls:
  "provision lib u (s\<lparr>sw_polls := ps\<rparr>) = apsnd (sw_polls_update (\<lambda>_. ps)) (provision lib u s)"
  "deprovision u (s\<lparr>sw_polls := ps\<rparr>) = (deprovision u s)\<lparr>sw_polls := ps\<rparr>"
  by (cases s; simp add: provision_def deprovision_def rest_do_def rest_call_def try_value_def Let_def split_beta
      split: sum.split)+

lemma apply_subscriber_polls:
  "apply_subscriber lib doc u st (s\<lparr>sw_polls := ps\<rparr>) =
     apsnd (sw_polls_update (\<lambda>_. ps)) (apply_subscriber lib doc u st s)"
proof -
  have swap: "t\<lparr>sw_polls := ps, sw_id_to_sipuser := c\<rparr> = t\<lparr>sw_id_to_sipuser := c, sw_polls := ps\<rparr>"
    for c and t :: "'a watcher_scheme"
    by (cases t) simp
  show ?thesis
    by (simp add: swap apply_subscriber_def try_value_def Let_def provision_polls split: option.split sum.split)
qed

lemma handle_event_polls:
  "handle_event lib ev (s\<lparr>sw_polls := ps\<rparr>) = apsnd (sw_polls_update (\<lambda>_. ps)) (handle_event lib ev s)"
proof -
  have swap: "t\<lparr>sw_polls := ps, sw_resume_token := c\<rparr> = t\<lparr>sw_resume_token := c, sw_polls := ps\<rparr>"
    "t\<lparr>sw_polls := ps, sw_id_to_sipuser := d\<rparr> = t\<lparr>sw_id_to_sipuser := d, sw_polls := ps\<rparr>"
    for c d and t :: "'a watcher_scheme"
    by (cases t; simp)+
  show ?thesis
    by (simp add: event_defs swap apply_subscriber_polls provision_polls split: option.split sum.split prod.split)
qed

lemma live_ticks:
  assumes "sw_stream s" "sw_polls s = map PollEvent evs @ ps" "[] \<notin> set evs"
  shows "watcher_ticks env (length evs) s =
    (fold (\<lambda>ev t. snd (handle_event (we_json env) ev t)) evs (s\<lparr>sw_polls := ps\<rparr>))"
  using assms
proof (induction evs arbitrary: s)
  case Nil
  then show ?case by (cases s) simp
next
  case (Cons ev evs)
  let ?t = "snd (handle_event (we_json env) ev (s\<lparr>sw_polls := map PollEvent evs @ ps\<rparr>))"
  have "snd (watcher_tick env s) = ?t"
    using Cons.prems by (auto simp: watcher_tick_def Let_def)
  moreover have "?t\<lparr>sw_polls := ps\<rparr> = snd (handle_event (we_json env) ev (s\<lparr>sw_polls := ps\<rparr>))"
    by (simp add: handle_event_polls)
  ultimately show ?case
    using Cons.IH[of ?t] Cons.prems by simp
qed

end
