(* ===== verification/Agent_App.thy ===== *)
theory Agent_App
  imports Cloud_Connector Ari_Client Subscriber_Watcher
begin

text \<open>
  The wiring of the on-premises process (\<^verbatim>\<open>pbx-agent/src/main/main.cpp\<close>) and its worker
  (\<^verbatim>\<open>ari_dispatch_task.cpp\<close>).  The reactor thread owns the connector, the demux, the streams and the
  watcher; the worker thread owns the ARI client and takes jobs from a queue; what the worker wants
  sent goes through the outbox (\<^verbatim>\<open>ReactorFrameOutbox\<close>), which the reactor drains.

  The record extends the connector's.  A job is one step: it shares with the reactor only the
  outbox, whose order does not depend on where the reactor drains it.  An exception that escapes to
  the reactor loop, where nothing catches it, is recorded in \<^verbatim>\<open>aa_escaped\<close>: the process ends there.
\<close>

section \<open>State\<close>

datatype ari_job = JobEvent string | JobRevoke string | JobSnapshot

record agent_app = connector +
  aa_society_id :: string
  aa_realm_from_cli :: bool
  aa_watcher :: watcher
  aa_ari :: ari
  aa_continue :: bool
  aa_jobs :: "ari_job list"
  aa_outbox :: "(Op \<times> u32 \<times> string) list"
  aa_escaped :: "cpp_exn option"

record agent_env =
  ag_json :: json_lib
  ag_watcher :: watcher_env
  ag_ari :: ari_env

definition escape :: "cpp_exn option \<Rightarrow> 'a agent_app_scheme \<Rightarrow> 'a agent_app_scheme" where
  "escape e s = (case e of None \<Rightarrow> s | Some x \<Rightarrow> s\<lparr>aa_escaped := Some x\<rparr>)"

section \<open>The job queue\<close>

text \<open>\<^verbatim>\<open>AriDispatchTask::dispatch\<close> (the worker thread was started).\<close>

definition dispatch_job :: "ari_job \<Rightarrow> 'a agent_app_scheme \<Rightarrow> bool \<times> 'a agent_app_scheme" where
  "dispatch_job job s =
     (if \<not> aa_continue s then (False, s) else (True, s\<lparr>aa_jobs := aa_jobs s @ [job]\<rparr>))"

definition dispatch_stop :: "'a agent_app_scheme \<Rightarrow> 'a agent_app_scheme" where
  "dispatch_stop s = s\<lparr>aa_continue := False, aa_jobs := []\<rparr>"

section \<open>The outbox\<close>

definition outbox_post :: "Op \<Rightarrow> u32 \<Rightarrow> string \<Rightarrow> 'a agent_app_scheme \<Rightarrow> 'a agent_app_scheme" where
  "outbox_post op sid payload s = s\<lparr>aa_outbox := aa_outbox s @ [(op, sid, payload)]\<rparr>"

definition outbox_drain :: "'a agent_app_scheme \<Rightarrow> 'a agent_app_scheme" where
  "outbox_drain s =
     fold (\<lambda>(op, sid, payload). cc_send_frame op sid payload) (aa_outbox s) (s\<lparr>aa_outbox := []\<rparr>)"

definition register_payload :: "string \<Rightarrow> string \<Rightarrow> bool \<Rightarrow> json" where
  "register_payload society_id user online =
     JObject [(''online'', JBool online), (''sipUsername'', JString user), (''societyId'', JString society_id)]"

definition status_payload :: "bool \<Rightarrow> json" where
  "status_payload up = JObject [(''connected'', JBool up)]"

text \<open>
  The two callbacks installed on the ARI client.  The dump of a payload may throw; the exception
  then leaves the job, so that the remaining frames of the job are not posted.
\<close>

definition job_frames :: "string \<Rightarrow> bool list \<Rightarrow> (string \<times> bool) list \<Rightarrow> (Op \<times> json) list" where
  "job_frames society_id statuses registered =
     map (\<lambda>b. (ASTERISK_STATUS, status_payload b)) statuses @
     map (\<lambda>(u, b). (REGISTER_STATE, register_payload society_id u b)) registered"

fun post_frames :: "json_lib \<Rightarrow> (Op \<times> json) list \<Rightarrow> 'a agent_app_scheme \<Rightarrow> 'a agent_app_scheme" where
  "post_frames lib [] s = s"
| "post_frames lib ((op, j) # fs) s =
     (case js_dump lib j of None \<Rightarrow> s | Some p \<Rightarrow> post_frames lib fs (outbox_post op 0 p s))"

section \<open>The worker\<close>

definition run_job :: "agent_env \<Rightarrow> int \<Rightarrow> ari_job \<Rightarrow> ari \<Rightarrow> ari outcome" where
  "run_job env now job a =
     (case job of
        JobEvent ev \<Rightarrow> on_event (ag_ari env) now ev a
      | JobRevoke u \<Rightarrow> (None, revoke_subscriber (ag_ari env) u a)
      | JobSnapshot \<Rightarrow> publish_register_snapshot (ag_ari env) a)"

text \<open>One turn of the loop of \<^verbatim>\<open>svc\<close>: a job that throws is dropped, the worker goes on.\<close>

definition worker_step :: "agent_env \<Rightarrow> int \<Rightarrow> 'a agent_app_scheme \<Rightarrow> 'a agent_app_scheme" where
  "worker_step env now s =
     (if \<not> aa_continue s then s
      else case aa_jobs s of
             [] \<Rightarrow> s
           | job # jobs \<Rightarrow>
               (let a = aa_ari s; a' = snd (run_job env now job a)
                in post_frames (ag_json env)
                     (job_frames (aa_society_id s) (drop (length (al_status a)) (al_status a'))
                       (drop (length (al_registered a)) (al_registered a')))
                     (s\<lparr>aa_jobs := jobs, aa_ari := a'\<rparr>)))"

section \<open>The handlers installed by main\<close>

definition revoked_handler :: "agent_env \<Rightarrow> string \<Rightarrow> 'a agent_app_scheme \<Rightarrow> 'a agent_app_scheme" where
  "revoked_handler env payload s =
     (case js_parse (ag_json env) payload of
        None \<Rightarrow> s
      | Some j \<Rightarrow> (case j_get_string j ''sipUsername'' of None \<Rightarrow> s | Some u \<Rightarrow> snd (dispatch_job (JobRevoke u) s)))"

definition bootstrap_handler :: "agent_env \<Rightarrow> string \<Rightarrow> 'a agent_app_scheme \<Rightarrow> 'a agent_app_scheme" where
  "bootstrap_handler env payload s =
     (if aa_realm_from_cli s then s
      else case js_parse (ag_json env) payload of
             None \<Rightarrow> s
           | Some j \<Rightarrow>
               (case j_value j ''sipRealm'' [] of
                  Inl _ \<Rightarrow> s
                | Inr cloud_realm \<Rightarrow>
                    (if cloud_realm = [] \<or> cloud_realm = sw_realm (aa_watcher s) then s
                     else let (e, w) = resync (ag_watcher env) (set_sip_realm cloud_realm (aa_watcher s))
                          in escape e (s\<lparr>aa_watcher := w\<rparr>))))"

definition hello_payload :: "string \<Rightarrow> json" where
  "hello_payload society_id = JObject [(''societyId'', JString society_id)]"

definition on_connected_handler :: "agent_env \<Rightarrow> 'a agent_app_scheme \<Rightarrow> 'a agent_app_scheme" where
  "on_connected_handler env s =
     (let s1 = dm_set_tunnel True s
      in case js_dump (ag_json env) (hello_payload (aa_society_id s1)) of
           None \<Rightarrow> escape (Some JsonTypeError) s1
         | Some p \<Rightarrow> snd (dispatch_job JobSnapshot (cc_send_frame AGENT_HELLO 0 p s1)))"

definition agent_cenv :: "agent_env \<Rightarrow> 'a agent_app_scheme connector_env" where
  "agent_cenv env =
     \<lparr>cn_demux = streams_env cc_send_frame (Some (revoked_handler env)) (Some (bootstrap_handler env)),
      cn_on_connected = Some (on_connected_handler env)\<rparr>"

section \<open>Timers and event sources\<close>

definition watcher_timer :: "agent_env \<Rightarrow> 'a agent_app_scheme \<Rightarrow> 'a agent_app_scheme" where
  "watcher_timer env s =
     (let (e, w) = watcher_tick (ag_watcher env) (aa_watcher s) in escape e (s\<lparr>aa_watcher := w\<rparr>))"

definition ari_ws_event :: "string \<Rightarrow> 'a agent_app_scheme \<Rightarrow> 'a agent_app_scheme" where
  "ari_ws_event ev s = snd (dispatch_job (JobEvent ev) s)"

datatype app_op = Reactor agent_op | OutboxNotify | WatcherTimer | AriWsEvent string | Worker int | Stop

fun app_exec :: "agent_env \<Rightarrow> app_op \<Rightarrow> 'a agent_app_scheme \<Rightarrow> 'a agent_app_scheme" where
  "app_exec env (Reactor op) s = agent_exec (agent_cenv env) op s"
| "app_exec env OutboxNotify s = outbox_drain s"
| "app_exec env WatcherTimer s = watcher_timer env s"
| "app_exec env (AriWsEvent ev) s = ari_ws_event ev s"
| "app_exec env (Worker now) s = worker_step env now s"
| "app_exec env Stop s = dispatch_stop s"

text \<open>
  The objects as \<^verbatim>\<open>main\<close> leaves them when it enters the event loop: the subscription posted, the
  watcher bootstrapped, the worker started.  \<^verbatim>\<open>sip_realm_arg\<close> is the value of \<^verbatim>\<open>--sip-realm\<close>, empty
  when absent; the remaining arguments are what the network will answer.
\<close>

definition new_ari :: "ari_config \<Rightarrow> ari_io list \<Rightarrow> string \<Rightarrow> string \<Rightarrow> ari" where
  "new_ari cfg io society_id app =
     \<lparr>ar_cfg = cfg, ar_log = [], ar_io = io, cr_society_id = society_id, cr_app_name = app, cr_calls = [],
      cr_leg_to_caller = [], al_cfg = ari_default_config, al_active_bridges = 0, al_channels = [], al_bridges = [],
      al_registered = [], al_status = [], al_created = []\<rparr>"

definition agent_boot ::
  "agent_env \<Rightarrow> string \<Rightarrow> string \<Rightarrow> string \<Rightarrow> ari_config \<Rightarrow> ari_io list \<Rightarrow> ari_io list \<Rightarrow> bool list \<Rightarrow> poll list
    \<Rightarrow> bool list \<Rightarrow> u32 list \<Rightarrow> agent_transport option list \<Rightarrow> agent_app" where
  "agent_boot env society_id sip_realm_arg app cfg ari_io watcher_io opens polls connects keys dials =
     (let realm = (if sip_realm_arg = [] then society_id @ ''.pbx.local'' else sip_realm_arg);
          (e, w) = bootstrap (ag_watcher env) (new_watcher cfg watcher_io realm society_id opens polls)
      in \<lparr>dm_tunnel = True, dm_streams = [], dm_recv_buffer = [],
          as_heap = (\<lambda>_. new_asterisk_stream 0), as_next = 0, as_connects = connects, as_keys = keys,
          cc_cfg = connector_default_config, cc_transport = None, cc_demux = True, cc_reconnect_attempts = 0,
          cc_current_backoff_sec = 0, cc_next_reconnect_at = 0, cc_outbound = [], cc_last_heartbeat_unix = 0,
          cc_pings_outstanding = 0, cc_disconnect_pending = False, cc_dials = dials, cc_log = [],
          aa_society_id = society_id, aa_realm_from_cli = (sip_realm_arg \<noteq> []), aa_watcher = w,
          aa_ari = start (new_ari cfg ari_io society_id app), aa_continue = True, aa_jobs = [], aa_outbox = [],
          aa_escaped = e\<rparr>)"

section \<open>The wiring keeps the contract of the connector\<close>

lemma app_part_update [simp]:
  "cc_part (s\<lparr>aa_jobs := js\<rparr>) = cc_part s" "cc_part (s\<lparr>aa_watcher := w\<rparr>) = cc_part s"
  "cc_part (s\<lparr>aa_ari := a\<rparr>) = cc_part s" "cc_part (s\<lparr>aa_outbox := ob\<rparr>) = cc_part s"
  "cc_part (s\<lparr>aa_continue := c\<rparr>) = cc_part s" "cc_part (escape e s) = cc_part s"
  by (simp_all add: cc_part_def escape_def split: option.split)

lemma app_part_ops [simp]:
  "cc_part (snd (dispatch_job j s)) = cc_part s" "cc_part (revoked_handler env p s) = cc_part s"
  "cc_part (bootstrap_handler env p s) = cc_part s"
  by (simp_all add: dispatch_job_def revoked_handler_def bootstrap_handler_def Let_def case_prod_beta
      split: option.split sum.split)

lemma app_part_tunnel [simp]: "cc_part (dm_set_tunnel b s) = cc_part s"
  by (simp add: dm_set_tunnel_def cc_part_def)

lemma app_part_post [simp]: "cc_part (post_frames lib fs s) = cc_part s"
  by (induction lib fs s rule: post_frames.induct) (simp_all add: outbox_post_def split: option.split)

lemma app_streams_update [simp]:
  "streams_part (s\<lparr>aa_jobs := js\<rparr>) = streams_part s" "streams_part (s\<lparr>aa_watcher := w\<rparr>) = streams_part s"
  "streams_part (s\<lparr>aa_ari := a\<rparr>) = streams_part s" "streams_part (s\<lparr>aa_outbox := ob\<rparr>) = streams_part s"
  "streams_part (s\<lparr>aa_continue := c\<rparr>) = streams_part s" "streams_part (escape e s) = streams_part s"
  "streams_part (snd (dispatch_job j s)) = streams_part s" "streams_part (dm_set_tunnel b s) = streams_part s"
  by (simp_all add: streams_part_def escape_def dispatch_job_def dm_set_tunnel_def split: option.split)

lemma revoked_handler_outside: "outside (revoked_handler env p)"
proof -
  have "agent_streams.truncate (revoked_handler env p s) = agent_streams.truncate s" for s :: "'a agent_app_scheme"
    by (simp add: revoked_handler_def dispatch_job_def agent_streams.truncate_def split: option.split)
  moreover have "agent_streams.more (revoked_handler env p s) = agent_streams.more (revoked_handler env p t)"
    if "agent_streams.more s = agent_streams.more t" for s t :: "'a agent_app_scheme"
    using that by (cases s; cases t) (simp add: revoked_handler_def dispatch_job_def split: option.split)
  ultimately show ?thesis unfolding outside_def by blast
qed

lemma bootstrap_handler_outside: "outside (bootstrap_handler env p)"
proof -
  have "agent_streams.truncate (bootstrap_handler env p s) = agent_streams.truncate s" for s :: "'a agent_app_scheme"
    by (simp add: bootstrap_handler_def escape_def agent_streams.truncate_def Let_def
        split: option.split sum.split prod.split)
  moreover have "agent_streams.more (bootstrap_handler env p s) = agent_streams.more (bootstrap_handler env p t)"
    if "agent_streams.more s = agent_streams.more t" for s t :: "'a agent_app_scheme"
    using that by (cases s; cases t)
      (simp add: bootstrap_handler_def escape_def Let_def split: option.split sum.split prod.split)
  ultimately show ?thesis unfolding outside_def by blast
qed

lemma on_connected_closed:
  fixes s :: "'a agent_app_scheme"
  assumes P: "conn_closed P" "P s"
  shows "P (on_connected_handler env s)"
proof -
  have "P (dm_set_tunnel True s)" by (rule conn_closed_part[OF P]) simp
  then have "P (escape x (dm_set_tunnel True s))" "P (snd (dispatch_job j (cc_send_frame op i p (dm_set_tunnel True s))))"
    for x j op i p
    by (auto intro: conn_closed_part[OF P(1)] conn_closed_send[OF P(1)])
  then show ?thesis by (simp add: on_connected_handler_def Let_def split: option.split)
qed

lemma on_connected_streams: "streams_inv s \<Longrightarrow> streams_inv (on_connected_handler env s)"
  by (erule streams_inv_part) (simp add: on_connected_handler_def Let_def split: option.split)

interpretation agent: agent_wiring "Some (revoked_handler e)" "Some (bootstrap_handler e)" "Some (on_connected_handler e)"
  for e
  by unfold_locales
    (auto simp: revoked_handler_outside bootstrap_handler_outside on_connected_closed on_connected_streams)

lemma agent_cenv_eq: "agent_cenv e = agent.cenv e"
  by (simp add: agent_cenv_def)

section \<open>Runs of the whole agent\<close>

lemma outbox_drain_sends:
  "outbox_drain s = agent_sink.send_all
     (map (\<lambda>(op, sid, p). \<lparr>frame_op = op, frame_stream_id = sid, frame_payload = p\<rparr>) (aa_outbox s)) (s\<lparr>aa_outbox := []\<rparr>)"
  by (simp add: outbox_drain_def agent_sink.send_all_def fold_map comp_def split_def)

lemma send_all_closed: "conn_closed P \<Longrightarrow> P s \<Longrightarrow> P (agent_sink.send_all fs s)"
  unfolding agent_sink.send_all_def by (induction fs arbitrary: s) (simp_all add: conn_closed_send)

lemma outbox_drain_grows:
  assumes "cc_grows xs s"
  shows "cc_grows xs (outbox_drain s)"
  unfolding outbox_drain_sends
  by (rule send_all_closed[OF cc_grows_closed], rule conn_closed_part[OF cc_grows_closed assms]) simp

lemma app_exec_part:
  "cc_part (watcher_timer env s) = cc_part s" "cc_part (ari_ws_event ev s) = cc_part s"
  "cc_part (worker_step env now s) = cc_part s" "cc_part (dispatch_stop s) = cc_part s"
  by (simp_all add: watcher_timer_def ari_ws_event_def worker_step_def dispatch_stop_def Let_def case_prod_beta
      split: list.split)

lemma app_exec_grows: "cc_grows xs s \<Longrightarrow> cc_grows xs (app_exec env op s)"
  by (cases op)
    (auto simp: outbox_drain_grows agent_cenv_eq agent.exec_grows app_exec_part
      intro: conn_closed_part[OF cc_grows_closed])

lemma app_run_grows: "cc_grows xs s \<Longrightarrow> cc_grows xs (fold (app_exec env) ops s)"
  by (induction ops arbitrary: s) (simp_all add: app_exec_grows)

lemma post_frames_streams [simp]: "streams_part (post_frames lib fs s) = streams_part s"
  by (induction lib fs s rule: post_frames.induct) (simp_all add: outbox_post_def split: option.split)

lemma send_all_streams [simp]:
  "streams_part (fold (\<lambda>(op, sid, payload). cc_send_frame op sid payload) fs s) = streams_part s"
  by (induction fs arbitrary: s) auto

lemma app_exec_streams: "streams_inv s \<Longrightarrow> streams_inv (app_exec env op s)"
proof (cases op)
  case (Reactor o')
  then show "streams_inv s \<Longrightarrow> ?thesis" by (simp add: agent_cenv_eq agent.exec_streams)
qed (erule streams_inv_part, simp add: outbox_drain_def watcher_timer_def ari_ws_event_def worker_step_def
    dispatch_stop_def Let_def case_prod_beta split: list.split)+

lemma app_run_streams: "streams_inv s \<Longrightarrow> streams_inv (fold (app_exec env) ops s)"
  by (induction ops arbitrary: s) (simp_all add: app_exec_streams)

lemma agent_boot_inv:
  assumes b: "b = agent_boot env society_id realm app cfg io1 io2 opens polls connects keys dials"
  shows "cc_grows [] b" "streams_inv b" "bridges_inv (aa_ari b)" "cc_pipeline b = []"
  by (simp_all add: b agent_boot_def Let_def case_prod_beta cc_grows_def connector_inv_def connected_def
      cc_unbounded_def connector_default_config_def cc_pipeline_def streams_inv_def start_def new_ari_def
      bridges_inv_def rest_do_def rest_call_def)

section \<open>What the agent hands to the tunnel\<close>

text \<open>
  The frame a tick of the connector asks for: a due heartbeat on a connection that is up, the hello
  on a fresh connection.  Reconnecting hands over nothing that is already queued a second time.
\<close>

definition tick_handed :: "agent_env \<Rightarrow> int \<Rightarrow> 'a agent_app_scheme \<Rightarrow> string list" where
  "tick_handed env now s =
     (if connected s
      then (if 0 < cfg_heartbeat_interval_sec (cc_cfg s) \<and>
               cfg_heartbeat_interval_sec (cc_cfg s) \<le> now - cc_last_heartbeat_unix s \<and>
               cc_pings_outstanding s < cfg_heartbeat_max_missed (cc_cfg s)
            then [sf_encode PING 0 []] else [])
      else if now < (if cc_transport s = None then cc_next_reconnect_at s else 0) then []
      else case cc_dials s of
             Some t # _ \<Rightarrow>
               (case js_dump (ag_json env) (hello_payload (aa_society_id s)) of
                  None \<Rightarrow> [] | Some p \<Rightarrow> [sf_encode AGENT_HELLO 0 p])
           | _ \<Rightarrow> [])"

lemma cc_grows_pipeline:
  "cc_grows xs s \<Longrightarrow> cc_pipeline (cc_send_frame op sid p s) = cc_pipeline s @ [sf_encode op sid p]"
  by (simp add: cc_grows_def cc_send_pipeline)

lemma cc_pipeline_part: "cc_part t = cc_part s \<Longrightarrow> cc_pipeline t = cc_pipeline s"
  by (simp add: cc_part_def cc_pipeline_def)

lemma drain_pipeline:
  assumes "cc_grows xs s"
  shows "cc_pipeline (outbox_drain s) = cc_pipeline s @ map (\<lambda>(op, sid, p). sf_encode op sid p) (aa_outbox s)"
proof -
  have "cc_part (s\<lparr>aa_outbox := []\<rparr>) = cc_part s" by simp
  then have "cc_grows xs (s\<lparr>aa_outbox := []\<rparr>)" "cc_pipeline (s\<lparr>aa_outbox := []\<rparr>) = cc_pipeline s"
    using conn_closed_part[OF cc_grows_closed assms] cc_pipeline_part by blast+
  then show ?thesis
    by (simp add: outbox_drain_sends agent_sink.pipe_send_all cc_grows_def encode_frame_def comp_def split_def)
qed

lemma flush_pipeline: "cc_pipeline (cc_flush_outbound (agent_cenv env) s) = cc_pipeline s"
proof (cases "cc_transport s")
  case (Some t)
  obtain sent rest t' failed where f: "flush_loop (cc_outbound s) t = (sent, rest, t', failed)"
    by (metis prod_cases4)
  let ?s = "s\<lparr>cc_transport := Some t', cc_outbound := rest, cc_log := cc_log s @ map (Sent (t_id t)) sent\<rparr>"
  have "cc_pipeline ?s = cc_pipeline s" using flush_loop_split[OF f] by (auto simp: cc_pipeline_def)
  moreover have "cc_flush_outbound (agent_cenv env) s = (if failed then cc_mark_disconnected (agent_cenv env) ?s else ?s)"
    using Some f by (simp add: cc_flush_outbound_def Let_def)
  ultimately show ?thesis using agent.mark_part(9)[of env ?s] by (simp add: agent_cenv_eq)
qed (simp add: cc_flush_outbound_def)

lemma hello_pipeline:
  assumes "cc_grows xs s"
  shows "cc_pipeline (on_connected_handler env s) = cc_pipeline s @
    (case js_dump (ag_json env) (hello_payload (aa_society_id s)) of
       None \<Rightarrow> [] | Some p \<Rightarrow> [sf_encode AGENT_HELLO 0 p])"
proof -
  let ?s = "dm_set_tunnel True s"
  have s: "cc_grows xs ?s" "cc_pipeline ?s = cc_pipeline s" "aa_society_id ?s = aa_society_id s"
    using conn_closed_part[OF cc_grows_closed assms, of ?s] cc_pipeline_part[of ?s s]
    by (simp_all add: dm_set_tunnel_def)
  have "cc_pipeline (snd (dispatch_job j u)) = cc_pipeline u" "cc_pipeline (escape e u) = cc_pipeline u"
    for j e and u :: "'a agent_app_scheme"
    by (rule cc_pipeline_part, simp)+
  with s show ?thesis
    by (simp add: on_connected_handler_def Let_def cc_grows_pipeline split: option.split)
qed

lemma close_all_society [simp]: "aa_society_id (fold (\<lambda>(sid, a). adapter_close a r) es s) = aa_society_id s"
  by (induction es arbitrary: s)
    (simp_all add: case_prod_beta adapter_close_def as_close_socket_def as_send_n_def as_upd_def Let_def
      split: list.split)

lemma disconnect_society [simp]: "aa_society_id (cc_mark_disconnected (agent_cenv env) s) = aa_society_id s"
  by (simp add: cc_mark_disconnected_def agent_cenv_def dm_on_tunnel_disconnect_def Let_def split: option.split)

lemma flush_society [simp]: "aa_society_id (cc_flush_outbound (agent_cenv env) s) = aa_society_id s"
  by (simp add: cc_flush_outbound_def Let_def split: option.split prod.split)

lemma attempt_pipeline:
  fixes s :: "'a agent_app_scheme"
  assumes "cc_grows xs s"
  shows "cc_pipeline (attempt_connect (agent_cenv env) now s) = cc_pipeline s @
    (case cc_dials s of
       Some t # _ \<Rightarrow>
         (case js_dump (ag_json env) (hello_payload (aa_society_id s)) of
            None \<Rightarrow> [] | Some p \<Rightarrow> [sf_encode AGENT_HELLO 0 p])
     | _ \<Rightarrow> [])"
proof -
  let ?u = "\<lambda>ds t. s\<lparr>cc_dials := ds, cc_transport := Some t, cc_reconnect_attempts := 0,
      cc_current_backoff_sec := 0, cc_next_reconnect_at := 0, cc_last_heartbeat_unix := now, cc_pings_outstanding := 0\<rparr>"
  have g: "cc_grows xs (cc_flush_outbound (agent_cenv env) (?u ds t))" for ds t
    using assms agent.flush_grows[of "?u ds t" xs env]
    by (simp add: agent_cenv_eq cc_grows_def cc_unbounded_def cc_pipeline_def)
  have p: "cc_pipeline (?u ds t) = cc_pipeline s" "cc_pipeline (s\<lparr>cc_dials := ds, cc_reconnect_attempts := i,
      cc_current_backoff_sec := k, cc_next_reconnect_at := n\<rparr>) = cc_pipeline s" for ds t i k n
    by (simp_all add: cc_pipeline_def)
  have onc: "cn_on_connected (agent_cenv env) = Some (on_connected_handler env)" by (simp add: agent_cenv_def)
  show ?thesis
    by (simp add: attempt_connect_def Let_def onc hello_pipeline[OF g] flush_pipeline p split: list.split option.split)
qed

lemma tick_pipeline:
  fixes s :: "'a agent_app_scheme"
  assumes g: "cc_grows xs s"
  shows "cc_pipeline (cc_tick (agent_cenv env) now s) = cc_pipeline s @ tick_handed env now s"
proof (cases "connected s")
  case True
  have "cc_pipeline (u\<lparr>cc_pings_outstanding := i, cc_last_heartbeat_unix := j\<rparr>) = cc_pipeline u"
    for i j and u :: "'a agent_app_scheme"
    by (simp add: cc_pipeline_def)
  then show ?thesis
    using True agent.mark_part(9)[of env s] cc_grows_pipeline[OF g, of PING 0 "[]"]
    by (auto simp: cc_tick_def cc_maybe_heartbeat_def tick_handed_def connected_def Let_def agent_cenv_eq)
next
  case False
  let ?p = "s\<lparr>cc_disconnect_pending := False\<rparr>"
  define s1 where "s1 = (if cc_disconnect_pending s
    then (if cc_transport s \<noteq> None then cc_mark_disconnected (agent_cenv env) ?p else ?p) else s)"
  note m = agent.mark_part[of env ?p, folded agent_cenv_eq]
  have "prefix xs (cc_pipeline ?p)" "cc_unbounded ?p"
    using g by (simp_all add: cc_grows_def cc_pipeline_def cc_unbounded_def)
  then have "cc_grows xs (cc_mark_disconnected (agent_cenv env) ?p)"
    using agent.mark_grows[of ?p xs env] by (simp add: agent_cenv_eq)
  moreover have "cc_grows xs ?p" if "cc_transport s = None"
    using g that by (simp add: cc_grows_def connector_inv_def connected_def cc_unbounded_def cc_pipeline_def)
  ultimately have g1: "cc_grows xs s1" using g by (simp add: s1_def)
  have fs: "cc_transport s1 = None" "cc_pipeline s1 = cc_pipeline s" "cc_dials s1 = cc_dials s"
    "aa_society_id s1 = aa_society_id s"
    "cc_next_reconnect_at s1 = (if cc_transport s = None then cc_next_reconnect_at s else 0)"
    using False m by (auto simp: connected_def cc_pipeline_def s1_def)
  have "cc_tick (agent_cenv env) now s =
      (if now < cc_next_reconnect_at s1 then s1 else attempt_connect (agent_cenv env) now s1)"
    using fs(1) by (auto simp: cc_tick_def Let_def s1_def)
  with attempt_pipeline[OF g1, of env now] fs False show ?thesis
    by (simp add: tick_handed_def split: list.split option.split)
qed

lemma relay_pipeline:
  assumes "cc_grows xs s"
  shows "cc_pipeline (on_asterisk_data cc_send_frame sid p s) =
      cc_pipeline s @ (if um_find (dm_streams s) sid \<noteq> None \<and> dm_tunnel s then [sf_encode DATA sid p] else [])"
    and "cc_pipeline (on_asterisk_eof cc_send_frame sid p s) =
      cc_pipeline s @ (if um_find (dm_streams s) sid \<noteq> None \<and> dm_tunnel s then [sf_encode CLOSE sid p] else [])"
proof -
  let ?s = "s\<lparr>dm_streams := um_erase sid (dm_streams s)\<rparr>"
  have "cc_grows xs ?s" "cc_pipeline ?s = cc_pipeline s"
    using conn_closed_part[OF cc_grows_closed assms, of ?s] cc_pipeline_part[of ?s s] by simp_all
  then show "cc_pipeline (on_asterisk_eof cc_send_frame sid p s) =
      cc_pipeline s @ (if um_find (dm_streams s) sid \<noteq> None \<and> dm_tunnel s then [sf_encode CLOSE sid p] else [])"
    using cc_grows_pipeline[of xs ?s CLOSE sid p] by (simp add: on_asterisk_eof_def dm_tunnel_send_def del: conn.send_commute)
qed (simp add: on_asterisk_data_def dm_tunnel_send_def cc_grows_pipeline[OF assms])

section \<open>The worker runs its jobs in order\<close>

text \<open>The outbox is sent in the order of the posts, and emptied.\<close>

lemma outbox_drain_pipeline:
  assumes "connector_inv s" "cc_unbounded s"
  shows "cc_pipeline (outbox_drain s) = cc_pipeline s @ map (\<lambda>(op, sid, p). sf_encode op sid p) (aa_outbox s)"
proof -
  let ?t = "s\<lparr>aa_outbox := []\<rparr>"
  have "connector_inv ?t \<and> cc_unbounded ?t" "cc_pipeline ?t = cc_pipeline s"
    using assms by (simp_all add: connector_inv_def connected_def cc_unbounded_def cc_pipeline_def)
  then show ?thesis
    by (simp add: outbox_drain_sends agent_sink.pipe_send_all encode_frame_def case_prod_beta)
qed

lemma outbox_drain_empty: "aa_outbox (outbox_drain s) = []"
proof -
  have "aa_outbox (cc_send_frame op sid p t) = aa_outbox t" for op sid p and t :: "'a agent_app_scheme"
    by (simp add: cc_send_frame_def cc_buffer_frame_def request_disconnect_def Let_def
        split: option.split prod.split bool.split)
  then have "aa_outbox (fold (\<lambda>(op, sid, p). cc_send_frame op sid p) fs t) = aa_outbox t"
    for fs and t :: "'a agent_app_scheme"
    by (induction fs arbitrary: t) auto
  then show ?thesis by (simp add: outbox_drain_def)
qed

lemma post_frames_fields [simp]:
  "aa_jobs (post_frames lib fs s) = aa_jobs s" "aa_ari (post_frames lib fs s) = aa_ari s"
  "aa_continue (post_frames lib fs s) = aa_continue s"
  by (induction lib fs s rule: post_frames.induct) (simp_all add: outbox_post_def split: option.split)

lemma worker_runs_queue:
  assumes "aa_continue s" "length nows = length (aa_jobs s)"
  shows "aa_ari (fold (worker_step env) nows s) =
      fold (\<lambda>(now, job) a. snd (run_job env now job a)) (zip nows (aa_jobs s)) (aa_ari s) \<and>
    aa_jobs (fold (worker_step env) nows s) = []"
  using assms
proof (induction nows arbitrary: s)
  case (Cons now nows)
  then obtain job jobs where j: "aa_jobs s = job # jobs" by (cases "aa_jobs s") auto
  let ?t = "worker_step env now s"
  have t: "aa_jobs ?t = jobs" "aa_ari ?t = snd (run_job env now job (aa_ari s))" "aa_continue ?t"
    using Cons.prems by (simp_all add: worker_step_def j Let_def)
  show ?case using Cons.IH[of ?t] t Cons.prems(2) j by simp
qed simp

text \<open>Every job keeps the admission counter, even one that throws.\<close>

lemma run_job_bridges_inv: "bridges_inv a \<Longrightarrow> bridges_inv (snd (run_job env now job a))"
  by (auto simp: run_job_def on_event_bridges_inv intro: bridges_inv_part revoke_part snapshot_part split: ari_job.split)

lemma worker_bridges_inv: "bridges_inv (aa_ari s) \<Longrightarrow> bridges_inv (aa_ari (fold (worker_step env) nows s))"
proof (induction nows arbitrary: s)
  case (Cons now nows)
  have "bridges_inv (aa_ari (worker_step env now s))"
    using Cons.prems run_job_bridges_inv by (simp add: worker_step_def Let_def split: list.split)
  from Cons.IH[OF this] show ?case by simp
qed simp

text \<open>
  The bridges reported by the jobs a worker takes from its queue, and the jobs it takes in a number
  of turns.
\<close>

fun job_report :: "json_lib \<Rightarrow> ari_job \<Rightarrow> string set \<Rightarrow> string set" where
  "job_report lib (JobEvent ev) live = bridge_report lib ev live"
| "job_report lib (JobRevoke u) live = live"
| "job_report lib JobSnapshot live = live"

definition jobs_taken :: "nat \<Rightarrow> 'a agent_app_scheme \<Rightarrow> ari_job list" where
  "jobs_taken n s = (if aa_continue s then take n (aa_jobs s) else [])"

lemma run_job_bridges:
  "um_keys (al_bridges (snd (run_job env now job a))) =
     job_report (re_json (ag_ari env)) job (um_keys (al_bridges a))"
  by (cases job) (simp_all add: run_job_def on_event_bridges revoke_part snapshot_part)

lemma worker_bridges:
  "um_keys (al_bridges (aa_ari (fold (worker_step env) nows s))) =
     fold (job_report (re_json (ag_ari env))) (jobs_taken (length nows) s) (um_keys (al_bridges (aa_ari s)))"
proof (induction nows arbitrary: s)
  case (Cons now nows)
  show ?case
  proof (cases "aa_continue s \<and> aa_jobs s \<noteq> []")
    case True
    then obtain job jobs where j: "aa_continue s" "aa_jobs s = job # jobs" by (auto simp: neq_Nil_conv)
    let ?t = "worker_step env now s"
    have "aa_jobs ?t = jobs" "aa_ari ?t = snd (run_job env now job (aa_ari s))" "aa_continue ?t"
      using j by (simp_all add: worker_step_def Let_def)
    with Cons.IH[of ?t] j show ?thesis by (simp add: jobs_taken_def run_job_bridges)
  next
    case False
    then have "worker_step env now s = s" by (auto simp: worker_step_def)
    with Cons.IH[of s] False show ?thesis by (auto simp: jobs_taken_def)
  qed
qed (simp add: jobs_taken_def)

section \<open>Connecting\<close>

text \<open>
  A tick that reaches the cloud sends what was queued, then the hello; it re-arms the demux and asks
  the worker for a snapshot.
\<close>

lemma connect_says_hello:
  assumes "cc_transport s = None" "\<not> cc_disconnect_pending s" "cc_next_reconnect_at s \<le> now"
    and "cc_dials s = Some t # ds" "t_oracle t = []" "aa_continue s"
    and hello: "js_dump (ag_json env) (hello_payload (aa_society_id s)) = Some p"
    and s': "s' = cc_tick (agent_cenv env) now s"
  shows "cc_log s' = cc_log s @ map (Sent (t_id t)) (cc_outbound s @ [sf_encode AGENT_HELLO 0 p])"
    and "cc_outbound s' = []" and "connected s'" and "dm_tunnel s'" and "aa_jobs s' = aa_jobs s @ [JobSnapshot]"
proof -
  have send: "transport_send t = (True, t)" using assms(5) by (simp add: transport_send_def)
  have "s' = snd (dispatch_job JobSnapshot (cc_send_frame AGENT_HELLO 0 p (dm_set_tunnel True
      (s\<lparr>cc_dials := ds, cc_reconnect_attempts := 0, cc_current_backoff_sec := 0, cc_next_reconnect_at := 0,
         cc_last_heartbeat_unix := now, cc_pings_outstanding := 0, cc_transport := Some t, cc_outbound := [],
         cc_log := cc_log s @ map (Sent (t_id t)) (cc_outbound s)\<rparr>))))"
    using assms(1-6) hello unfolding s'
    by (simp add: cc_tick_def attempt_connect_def agent_cenv_def cc_flush_outbound_def flush_loop_healthy
        on_connected_handler_def dm_set_tunnel_def Let_def)
  then show "cc_log s' = cc_log s @ map (Sent (t_id t)) (cc_outbound s @ [sf_encode AGENT_HELLO 0 p])"
    "cc_outbound s' = []" "connected s'" "dm_tunnel s'" "aa_jobs s' = aa_jobs s @ [JobSnapshot]"
    using assms(2,6) by (simp_all add: cc_send_frame_def send dispatch_job_def dm_set_tunnel_def connected_def)
qed

end
