(* ===== verification/Tunnel_Properties.thy ===== *)
theory Tunnel_Properties
  imports Cloud_App Agent_App
begin

text \<open>
  What the tunnel between the cloud and the agent guarantees: the codec, delivery in both directions,
  order and completeness over whole runs of either process, ownership of the streams, liveness of
  the heartbeat, and the control conversations (hello, registration state, revocation) that cross it.
\<close>

section \<open>Concrete objects for the witnesses\<close>

definition sample_lib :: json_lib where
  "sample_lib = \<lparr>js_parse = (\<lambda>_. None), js_dump = (\<lambda>_. Some ''{}'')\<rparr>"

definition sample_env :: "json_lib \<Rightarrow> agent_env" where
  "sample_env lib = \<lparr>ag_json = lib, ag_watcher = \<lparr>we_json = lib, we_get_documents = (\<lambda>_ _ _. None)\<rparr>,
     ag_ari = \<lparr>re_json = lib, re_get_documents = (\<lambda>_ _ _. None), re_get_document = (\<lambda>_ _ _. None),
       re_register_handler = True, re_status_handler = True\<rparr>\<rparr>"

definition sample_agent :: "json_lib \<Rightarrow> agent_transport option list \<Rightarrow> agent_app" where
  "sample_agent lib dials = agent_boot (sample_env lib) ''s'' [] ''pbx''
     \<lparr>ac_host = ''h'', ac_username = ''u'', ac_password = ''p''\<rparr> [] [] [] [] [True] [] dials"

definition sample_app :: "json_lib \<Rightarrow> app_env" where
  "sample_app lib = \<lparr>ae_json = lib, ae_db = True, ae_get_document = (\<lambda>_ _ _. ''d''), ae_push_sender = False\<rparr>"

definition sample_transport :: agent_transport where
  "sample_transport = \<lparr>t_id = 1, t_oracle = []\<rparr>"

definition sample_cloud :: cloud_app where
  "sample_cloud = on_agent_connected 0 (Some sample_transport) cloud_boot"

lemma cloud_boot_fields [simp]:
  "ce_cfg cloud_boot = default_config" "m_next_stream_id cloud_boot = 1" "m_recv_buffer cloud_boot = []"
  "ce_transport cloud_boot = None" "ce_outbound cloud_boot = []" "e_log cloud_boot = []" "ce_bridge cloud_boot"
  "ce_clock cloud_boot" "m_browsers cloud_boot = []" "ce_last_heartbeat_unix cloud_boot = 0"
  "ce_pings_outstanding cloud_boot = 0" "b_log cloud_boot = []" "ca_presence cloud_boot = []" "m_tunnel cloud_boot"
  by (simp_all add: cloud_boot_def cloud.extend_def bridge.extend_def cloud.fields_def new_bridge_def)

lemma sample_cloud_eq:
  "sample_cloud = cloud_boot\<lparr>ce_transport := Some sample_transport, ce_pings_outstanding := 0,
     ce_last_heartbeat_unix := 0, m_tunnel := True, m_recv_buffer := []\<rparr>"
  by (simp add: sample_cloud_def on_agent_connected_def has_agent_def set_tunnel_def flush_outbound_simps)

lemma sample_cloud_ok [simp]:
  "cloud_inv sample_cloud" "healthy sample_cloud" "m_recv_buffer sample_cloud = []" "has_agent sample_cloud"
  "ce_cfg sample_cloud = default_config" "ce_bridge sample_cloud" "ca_presence sample_cloud = []"
  "ce_clock sample_cloud" "ce_last_heartbeat_unix sample_cloud = 0" "ce_pings_outstanding sample_cloud = 0"
  "m_tunnel sample_cloud" "m_browsers sample_cloud = []" "m_next_stream_id sample_cloud = 1"
  using app.connected_inv[OF cloud_boot_inv, of 0 "Some sample_transport"]
  by (simp_all add: sample_cloud_def[symmetric])
    (simp_all add: sample_cloud_eq healthy_def has_agent_def sample_transport_def)

lemma sample_agent_fields [simp]:
  "dm_recv_buffer (sample_agent lib d) = []" "cc_transport (sample_agent lib d) = None" "aa_jobs (sample_agent lib d) = []"
  "cc_outbound (sample_agent lib d) = []" "cc_dials (sample_agent lib d) = d" "aa_continue (sample_agent lib d)"
  "\<not> cc_disconnect_pending (sample_agent lib d)" "cc_next_reconnect_at (sample_agent lib d) = 0"
  "cc_log (sample_agent lib d) = []" "aa_society_id (sample_agent lib d) = ''s''" "aa_outbox (sample_agent lib d) = []"
  "cc_current_backoff_sec (sample_agent lib d) = 0" "cc_cfg (sample_agent lib d) = connector_default_config"
  "cc_demux (sample_agent lib d)" "dm_streams (sample_agent lib d) = []" "\<not> aa_realm_from_cli (sample_agent lib d)"
  by (simp_all add: sample_agent_def agent_boot_def Let_def case_prod_beta)

lemma sample_agent_ok [simp]:
  "connector_inv (sample_agent lib d)" "cc_unbounded (sample_agent lib d)" "streams_inv (sample_agent lib d)"
  "cc_pipeline (sample_agent lib d) = []"
  using agent_boot_inv[OF refl] by (simp_all add: sample_agent_def cc_grows_def)

section \<open>Codec\<close>

text \<open>
  C1: a frame within the payload limit decodes to itself and to exactly its own bytes, whatever follows.
\<close>

theorem codec_round_trip:
  assumes "frame_fits f"
  shows "sf_decode (encode_frame f @ rest) = DecOk f (length (encode_frame f))"
  using assms by (rule sf.dec_enc)

theorem codec_round_trip_witness:
  "sf_decode (encode_frame \<lparr>frame_op = DATA, frame_stream_id = 7, frame_payload = ''hi''\<rparr> @ ''x'') =
    DecOk \<lparr>frame_op = DATA, frame_stream_id = 7, frame_payload = ''hi''\<rparr> 12"
  using codec_round_trip[of "\<lparr>frame_op = DATA, frame_stream_id = 7, frame_payload = ''hi''\<rparr>" "''x''"]
  by (simp add: frame_fits_def encode_frame_def kMaxPayload_def kHeaderSize_def)

text \<open>
  Whatever the decoder accepts, it consumed exactly the canonical encoding of the frame it
  returned, no more than the buffer held, and never a payload above the limit.
\<close>

theorem codec_canonical:
  assumes "sf_decode buf = DecOk f n"
  shows "take n buf = encode_frame f \<and> n \<le> length buf \<and> frame_fits f"
  using sf_decode_unique[OF assms] by blast

theorem codec_canonical_witness:
  "take 10 (sf_encode PING 0 [] @ ''z'') = encode_frame \<lparr>frame_op = PING, frame_stream_id = 0, frame_payload = []\<rparr>"
  using codec_canonical[of "sf_encode PING 0 [] @ ''z''" "\<lparr>frame_op = PING, frame_stream_id = 0, frame_payload = []\<rparr>" 10]
  by (simp add: sf_decode_encode kHeaderSize_def encode_frame_def)

section \<open>Delivery\<close>

text \<open>
  C2: the frames the cloud hands to its endpoint, taken as the bytes that enter the pipeline, are
  dispatched by the agent's demultiplexer in the same order, each exactly once, however the network
  cuts them into reads.
\<close>

theorem down_delivery:
  fixes c :: "'a cloud_app_scheme" and a :: "'b agent_app_scheme"
  assumes "cloud_inv c" and "outbound_buffer_max (ce_cfg c) = 0" and "list_all frame_fits fs"
    and "dm_recv_buffer a = []"
    and "concat chunks = concat (drop (length (pipeline c)) (pipeline
      (fold (\<lambda>f. endpoint_send_frame (frame_op f) (frame_stream_id f) (frame_payload f)) fs c)))"
  shows "rx_feed dm_recv_buffer dm_put_buffer (dm_dispatch_frame (cn_demux (agent_cenv env))) chunks a =
    Some (True, fold (dm_dispatch_frame (cn_demux (agent_cenv env))) fs a)"
proof -
  have "concat chunks = concat (map encode_frame fs)"
    using cloud_sink.pipe_send_all[of c fs] assms by (simp add: cloud_sink.send_all_def)
  then show ?thesis
    using agent.dm.rx.rx_feed_frames[of a fs chunks env] assms by (simp add: agent_cenv_def)
qed

theorem down_delivery_witness:
  "rx_feed dm_recv_buffer dm_put_buffer (dm_dispatch_frame (cn_demux (agent_cenv (sample_env sample_lib))))
     [sf_encode PONG 3 ''ab''] (sample_agent sample_lib []) =
   Some (True, fold (dm_dispatch_frame (cn_demux (agent_cenv (sample_env sample_lib))))
     [\<lparr>frame_op = PONG, frame_stream_id = 3, frame_payload = ''ab''\<rparr>] (sample_agent sample_lib []))"
  by (rule down_delivery[of sample_cloud])
    (simp_all add: default_config_def frame_fits_def kMaxPayload_def send_frame_pipeline)

text \<open>
  C3: in the other direction the frames the agent's connector is given reach the bridge in order,
  each exactly once, as long as the cloud's transport accepts the replies the bridge writes.
\<close>

theorem up_delivery:
  fixes c :: "'a cloud_app_scheme" and a :: "'b connector_scheme"
  assumes "connector_inv a" and "cc_unbounded a" and "list_all frame_fits fs"
    and "healthy c" and "m_recv_buffer c = []"
    and "concat chunks = concat (drop (length (cc_pipeline a)) (cc_pipeline
      (fold (\<lambda>f. cc_send_frame (frame_op f) (frame_stream_id f) (frame_payload f)) fs a)))"
  shows "rx_feed m_recv_buffer put_recv_buffer (dispatch_frame (cloud_env ae)) chunks c =
    Some (True, fold (dispatch_frame (cloud_env ae)) fs c)"
proof -
  have "concat chunks = concat (map encode_frame fs)"
    using agent_sink.pipe_send_all[of a fs] assms by (simp add: agent_sink.send_all_def)
  then show ?thesis using up.rx_feed_frames[of c fs chunks ae] assms by simp
qed

theorem up_delivery_witness:
  "rx_feed m_recv_buffer put_recv_buffer (dispatch_frame (cloud_env (sample_app sample_lib)))
     [take 4 (sf_encode PING 0 []), drop 4 (sf_encode PING 0 [])] sample_cloud =
   Some (True, fold (dispatch_frame (cloud_env (sample_app sample_lib)))
     [\<lparr>frame_op = PING, frame_stream_id = 0, frame_payload = []\<rparr>] sample_cloud)"
  by (rule up_delivery[of "sample_agent sample_lib []"]) (simp_all add: frame_fits_def cc_send_pipeline)

text \<open>
  a payload above the limit is encoded without complaint, and the peer that decodes the frame
  gives the whole tunnel up: the connector asks for a disconnect.
\<close>

theorem oversize_drops_tunnel:
  fixes s :: "'a agent_app_scheme"
  assumes "kMaxPayload < length p" and "length p < 2 ^ 32" and "cc_demux s" and "dm_recv_buffer s = []"
  shows "\<exists>s'. cc_on_bytes_received (agent_cenv env) (sf_encode op sid p) s = Some s' \<and> \<not> connected s'"
proof -
  have inv: "sf_decode (sf_encode op sid p) = Invalid"
    using sf_decode_header[OF assms(2), of op sid "[]"] assms(1) by simp
  let ?s = "s\<lparr>cc_pings_outstanding := 0\<rparr>"
  have "dm_on_tunnel_bytes (cn_demux (agent_cenv env)) (sf_encode op sid p) ?s =
      Some (False, dm_put_buffer [] (dm_put_buffer (sf_encode op sid p) ?s))"
    using inv assms(4) by (simp add: dm_on_tunnel_bytes_def rx_bytes_def Let_def)
  then show ?thesis
    using assms(3) by (simp add: cc_on_bytes_received_def request_disconnect_def connected_def)
qed

theorem oversize_drops_tunnel_witness:
  "\<exists>s'. cc_on_bytes_received (agent_cenv (sample_env sample_lib))
     (sf_encode DATA 1 (replicate 1048577 CHR ''a'')) (sample_agent sample_lib []) = Some s' \<and> \<not> connected s'"
  by (rule oversize_drops_tunnel) (simp_all add: kMaxPayload_def)

section \<open>Whole runs\<close>

lemma next_id_bound:
  "unat (m_next_stream_id (fold (cloud_exec (cloud_env ae)) ops s)) \<le> unat (m_next_stream_id s) + length ops"
proof (induction ops arbitrary: s)
  case (Cons op ops)
  have "unat (n + 1) \<le> Suc (unat n)" for n :: u32
    by (metis Suc_eq_plus1 le_less_linear less_or_eq_imp_le unat_plus_simple unat_1 unat_sub_if' word_le_nat_alt
        unat_word_ariths(1) mod_less_eq_dividend)
  then have "unat (m_next_stream_id (cloud_exec (cloud_env ae) op s)) \<le> Suc (unat (m_next_stream_id s))"
    by (simp add: app.exec_next split: cloud_op.split)
  with Cons.IH[of "cloud_exec (cloud_env ae) op s"] show ?case by simp
qed simp

text \<open>
  C4: whatever the reactor of the cloud process calls, from its start and for the first 2^32 - 2
  calls: stream ids are unique and below the counter, the bridge has its tunnel while an agent is
  connected, nothing stays queued while an agent is connected, and the count of unanswered PINGs
  is not negative.
\<close>

theorem cloud_run_invariant:
  assumes "length ops < 2 ^ 32 - 1"
  shows "cloud_inv (fold (cloud_exec (cloud_env ae)) ops cloud_boot)"
  by (rule app.run_inv[OF cloud_boot_inv]) (use assms in simp)

theorem cloud_run_invariant_witness:
  "cloud_inv (fold (cloud_exec (cloud_env (sample_app sample_lib)))
     [Connected 5 (Some \<lparr>t_id = 1, t_oracle = [True, False]\<rparr>), Upgrade (Some 3) ''m'', BrowserData 1 ''x'', Tick 40] cloud_boot)"
  by (rule cloud_run_invariant) simp

text \<open>
  C5: over such a run, through any number of agent connections and failing transports, the frames sent
  on the wires followed by the frames still queued are exactly the frames the calls handed to the
  endpoint, each once and in the order they were handed over: a PING or a hello is answered, an
  upgrade, browser data, a browser's close, a due heartbeat and a revocation give one frame each, a
  reconnect gives none.  In the state reached, \<^verbatim>\<open>send_frame\<close> appends its one frame whatever the
  transport answers, and what comes later only follows what was there.
\<close>

theorem cloud_order:
  assumes "length ops + length ops' < 2 ^ 32 - 1"
  shows "pipeline (fold (cloud_exec (cloud_env ae)) ops cloud_boot) = run_handed ae ops cloud_boot \<and>
    pipeline (endpoint_send_frame op sid p (fold (cloud_exec (cloud_env ae)) ops cloud_boot)) =
      run_handed ae ops cloud_boot @ [sf_encode op sid p] \<and>
    pipeline (fold (cloud_exec (cloud_env ae)) (ops @ ops') cloud_boot) =
      run_handed ae ops cloud_boot @ run_handed ae ops' (fold (cloud_exec (cloud_env ae)) ops cloud_boot)"
proof -
  let ?s = "fold (cloud_exec (cloud_env ae)) ops cloud_boot"
  have boot: "grows [] cloud_boot" by (simp add: grows_def cloud_boot_inv default_config_def)
  have run: "pipeline (fold (cloud_exec (cloud_env ae)) xs cloud_boot) = run_handed ae xs cloud_boot"
    if "length xs < 2 ^ 32 - 1" for xs
    using pipeline_run[OF boot, of xs ae] that by (simp add: pipeline_def wire_bytes_def)
  have "grows [] ?s" by (rule app.run_grows[OF boot]) (use assms in simp)
  then have "pipeline (endpoint_send_frame op sid p ?s) = run_handed ae ops cloud_boot @ [sf_encode op sid p]"
    using run[of ops] assms by (simp add: grows_pipeline)
  moreover have "pipeline (fold (cloud_exec (cloud_env ae)) (ops @ ops') cloud_boot) =
      run_handed ae ops cloud_boot @ run_handed ae ops' ?s"
    using run[of "ops @ ops'"] assms by (simp only: run_handed_append) simp
  ultimately show ?thesis using run[of ops] assms by simp
qed

theorem cloud_order_witness:
  "pipeline (fold (cloud_exec (cloud_env (sample_app sample_lib)))
      ([Upgrade (Some 3) ''m'', Connected 5 (Some \<lparr>t_id = 1, t_oracle = [True, True, False]\<rparr>)] @
       [BrowserData 1 ''x'', Tick 40]) cloud_boot) =
    [sf_encode OPEN 1 ''m'', sf_encode DATA 1 ''x'', sf_encode PING 0 []]"
proof -
  let ?a = "[Upgrade (Some 3) ''m'', Connected 5 (Some \<lparr>t_id = 1, t_oracle = [True, True, False]\<rparr>)]"
    and ?b = "[BrowserData 1 ''x'', Tick 40]" and ?ae = "sample_app sample_lib"
  have "run_handed ?ae ?a cloud_boot = [sf_encode OPEN 1 ''m'']" by (simp add: has_agent_def)
  moreover have "run_handed ?ae ?b (fold (cloud_exec (cloud_env ?ae)) ?a cloud_boot) =
      [sf_encode DATA 1 ''x'', sf_encode PING 0 []]"
    by (simp add: on_browser_upgrade_def on_agent_connected_def on_browser_data_def has_agent_def set_tunnel_def
        endpoint_send_frame_def buffer_frame_def flush_outbound.simps transport_send_def default_config_def
        um_emplace_def Let_def)
  ultimately show ?thesis
    using cloud_order[of ?a ?b ?ae] by simp
qed

text \<open>
  C6: the same for the agent.  In every state it reaches from its start, over any interleaving of its
  timers, sockets, worker jobs and shutdown and whatever the transports answer: \<^verbatim>\<open>send_frame\<close> adds its
  frame at the end of the frames sent or queued, once; draining the outbox adds what the worker
  posted, in order; a tick, which may close, reconnect and flush the queue, adds the heartbeat or the
  hello that is due and nothing else; data and the end of a local stream add one frame while the tunnel
  is set.  Whatever happens next leaves these frames in place.
\<close>

theorem agent_order:
  fixes s :: agent_app
  assumes "s = fold (app_exec env) ops (agent_boot env soc realm app cfg io1 io2 opens polls conns keys dials)"
  shows "cc_pipeline (cc_send_frame op sid p s) = cc_pipeline s @ [sf_encode op sid p] \<and>
    cc_pipeline (outbox_drain s) = cc_pipeline s @ map (\<lambda>(op, sid, p). sf_encode op sid p) (aa_outbox s) \<and>
    cc_pipeline (cc_tick (agent_cenv env) now s) = cc_pipeline s @ tick_handed env now s \<and>
    cc_pipeline (on_asterisk_data cc_send_frame sid p s) =
      cc_pipeline s @ (if um_find (dm_streams s) sid \<noteq> None \<and> dm_tunnel s then [sf_encode DATA sid p] else []) \<and>
    cc_pipeline (on_asterisk_eof cc_send_frame sid p s) =
      cc_pipeline s @ (if um_find (dm_streams s) sid \<noteq> None \<and> dm_tunnel s then [sf_encode CLOSE sid p] else []) \<and>
    prefix (cc_pipeline s) (cc_pipeline (fold (app_exec env) ops' s))"
proof -
  have g: "cc_grows [] s" unfolding assms by (rule app_run_grows) (rule agent_boot_inv(1)[OF refl])
  then have "cc_grows (cc_pipeline s) s" by (simp add: cc_grows_def)
  then have "cc_grows (cc_pipeline s) (fold (app_exec env) ops' s)" by (rule app_run_grows)
  then show ?thesis
    using cc_grows_pipeline[OF g] drain_pipeline[OF g] tick_pipeline[OF g] relay_pipeline[OF g]
    by (simp add: cc_grows_def)
qed

theorem agent_order_witness:
  "cc_pipeline (cc_send_frame PONG 0 [] (fold (app_exec (sample_env sample_lib)) [Reactor (ATick 1)]
      (sample_agent sample_lib [Some \<lparr>t_id = 1, t_oracle = [True, False]\<rparr>]))) =
    [sf_encode AGENT_HELLO 0 ''{}'', sf_encode PONG 0 []]"
proof -
  let ?b = "sample_agent sample_lib [Some \<lparr>t_id = 1, t_oracle = [True, False]\<rparr>]" and ?e = "sample_env sample_lib"
  have b: "?b = fold (app_exec ?e) [] ?b" by simp
  have "cc_pipeline (cc_tick (agent_cenv ?e) 1 ?b) = cc_pipeline ?b @ tick_handed ?e 1 ?b"
    using agent_order[OF b[unfolded sample_agent_def]] unfolding sample_agent_def by blast
  moreover have "tick_handed ?e 1 ?b = [sf_encode AGENT_HELLO 0 ''{}'']"
    by (simp add: tick_handed_def connected_def sample_env_def sample_lib_def)
  moreover have "cc_pipeline (cc_send_frame PONG 0 [] (fold (app_exec ?e) [Reactor (ATick 1)] ?b)) =
      cc_pipeline (fold (app_exec ?e) [Reactor (ATick 1)] ?b) @ [sf_encode PONG 0 []]"
    by (rule agent_order[THEN conjunct1]) (rule sample_agent_def[THEN arg_cong])
  ultimately show ?thesis by (simp add: cc_pipeline_def sent_bytes_def)
qed

text \<open>
  C7: in every such run the table of the demultiplexer and the streams on the heap agree: each stream
  id has one entry, the entry is the one live attached stream with that id, a stream that has
  reported its end is in no entry, and no attached stream has been deleted.
\<close>

theorem agent_streams_owned:
  "streams_inv (fold (app_exec env) ops (agent_boot env soc realm app cfg io1 io2 opens polls conns keys dials))"
  by (rule app_run_streams) (rule agent_boot_inv(2)[OF refl])

section \<open>Liveness\<close>

text \<open>
  C8: an agent that stays silent is dropped: once more ticks than the allowed number of missed PINGs
  have come, each at least one heartbeat interval after the last, the cloud has no agent.
\<close>

theorem silent_agent_dropped:
  assumes "ce_clock s" and "0 < heartbeat_interval_sec (ce_cfg s)"
    and "spaced (heartbeat_interval_sec (ce_cfg s)) (ce_last_heartbeat_unix s) ts"
    and "nat (heartbeat_max_missed (ce_cfg s) - ce_pings_outstanding s) < length ts"
  shows "\<not> has_agent (fold tick ts s)"
  using assms by (rule silent_ticks_drop)

theorem silent_agent_dropped_witness: "\<not> has_agent (fold tick [10, 20, 30, 40, 50, 60] sample_cloud)"
  by (rule silent_agent_dropped) (simp_all add: default_config_def)

text \<open>
  While the cloud cannot be reached, the delay before the n-th attempt after the first doubles
  from the initial value up to the cap.
\<close>

theorem backoff_doubles:
  assumes "cc_transport s = None" and "\<not> cc_disconnect_pending s" and "\<forall>d \<in> set (cc_dials s). d = None"
    and "cc_current_backoff_sec s = 0" and "0 < cfg_initial_backoff_sec (cc_cfg s)"
    and "cfg_initial_backoff_sec (cc_cfg s) \<le> cfg_max_backoff_sec (cc_cfg s)"
    and "backed_off env (t # ts) s"
  shows "cc_current_backoff_sec (fold (cc_tick env) (t # ts) s) =
    min (cfg_initial_backoff_sec (cc_cfg s) * 2 ^ length ts) (cfg_max_backoff_sec (cc_cfg s))"
  using failing_ticks[of s 0 env "t # ts"] backoff_after_closed[of "cfg_initial_backoff_sec (cc_cfg s)"] assms by simp

theorem backoff_doubles_witness:
  "cc_current_backoff_sec (fold (cc_tick (agent_cenv (sample_env sample_lib))) [1, 2, 4, 8, 16, 32, 62] (sample_agent sample_lib [])) = 30"
  by (subst backoff_doubles)
    (simp_all add: connector_default_config_def cc_tick_def attempt_connect_def Let_def)

section \<open>Losing the agent\<close>

text \<open>
  when the agent is lost every browser on the bridge is told so exactly once, its entry is gone,
  the bridge has no tunnel any more, and no frame that was sent or queued is forgotten.
\<close>

theorem agent_lost:
  assumes "has_agent s" and "ce_bridge s"
  shows "m_browsers (on_agent_disconnected s) = [] \<and>
    b_log (on_agent_disconnected s) = b_log s @ map (\<lambda>k. BClose k ''tunnel_lost'') (live_sinks (m_browsers s)) \<and>
    \<not> has_agent (on_agent_disconnected s) \<and> \<not> m_tunnel (on_agent_disconnected s) \<and>
    pipeline (on_agent_disconnected s) = pipeline s"
  using assms
  by (auto simp: on_agent_disconnected_def mark_disconnected_def on_tunnel_disconnect_def has_agent_def Let_def
      pipeline_def wire_bytes_def split: option.splits)

theorem agent_lost_witness:
  "\<not> has_agent (on_agent_disconnected sample_cloud) \<and> m_browsers (on_agent_disconnected sample_cloud) = []"
  using agent_lost[of sample_cloud] by simp

section \<open>Conversations across the tunnel\<close>

lemma cloud_send_pipeline:
  "cloud_inv c \<Longrightarrow> outbound_buffer_max (ce_cfg c) = 0 \<Longrightarrow>
     pipeline (endpoint_send_frame op sid p c) = pipeline c @ [sf_encode op sid p]"
  by (rule send_frame_pipeline)

text \<open>
  the hello.  An agent without \<^verbatim>\<open>--sip-realm\<close> that says hello is answered with the realm of
  its society, and on that answer it adopts the realm.
\<close>

theorem hello_sets_realm:
  fixes c :: "'a cloud_app_scheme" and a :: "'b agent_app_scheme"
  assumes "cloud_inv c" and "outbound_buffer_max (ce_cfg c) = 0" and "m_tunnel c" and "ae_db ae"
    and "js_parse (ae_json ae) hello = Some (hello_payload soc)"
    and "society_realm ae (ae_get_document ae ''societies'' (society_code_filter soc) ''{}'') = realm" and "realm \<noteq> []"
    and "js_dump (ae_json ae) (bootstrap_payload soc realm) = Some boot"
    and "js_parse (ag_json env) boot = Some (bootstrap_payload soc realm)" and "\<not> aa_realm_from_cli a"
  shows "pipeline (dispatch_frame (cloud_env ae) \<lparr>frame_op = AGENT_HELLO, frame_stream_id = 0, frame_payload = hello\<rparr> c) =
      pipeline c @ [sf_encode SOCIETY_BOOTSTRAP 0 boot] \<and>
    sw_realm (aa_watcher (dm_dispatch_frame (cn_demux (agent_cenv env))
      \<lparr>frame_op = SOCIETY_BOOTSTRAP, frame_stream_id = 0, frame_payload = boot\<rparr> a)) = realm"
proof
  show "pipeline (dispatch_frame (cloud_env ae) \<lparr>frame_op = AGENT_HELLO, frame_stream_id = 0, frame_payload = hello\<rparr> c) =
      pipeline c @ [sf_encode SOCIETY_BOOTSTRAP 0 boot]"
    using assms
    by (simp add: dispatch_frame_def call_handler_def agent_hello_handler_def bootstrap_society_def bare_env_def
        hello_payload_def j_get_string_def cloud_send_pipeline)
  have "j_value (bootstrap_payload soc realm) ''sipRealm'' [] = Inr realm"
    by (simp add: bootstrap_payload_def j_value_def)
  then show "sw_realm (aa_watcher (dm_dispatch_frame (cn_demux (agent_cenv env))
      \<lparr>frame_op = SOCIETY_BOOTSTRAP, frame_stream_id = 0, frame_payload = boot\<rparr> a)) = realm"
    using assms resync_realm[of "ag_watcher env" "set_sip_realm realm (aa_watcher a)"]
    by (simp add: dm_dispatch_frame_def agent_cenv_def streams_env_fields dm_call_handler_def bootstrap_handler_def
        escape_def set_sip_realm_def case_prod_beta Let_def split: option.split)
qed

definition realm_lib :: json_lib where
  "realm_lib = \<lparr>js_parse = (\<lambda>t. if t = ''h'' then Some (hello_payload ''s'')
       else if t = ''d'' then Some (JObject [(''sipRealm'', JString ''r'')])
       else if t = ''b'' then Some (bootstrap_payload ''s'' ''r'') else None),
     js_dump = (\<lambda>_. Some ''b'')\<rparr>"

theorem hello_sets_realm_witness:
  "sw_realm (aa_watcher (dm_dispatch_frame (cn_demux (agent_cenv (sample_env realm_lib)))
      \<lparr>frame_op = SOCIETY_BOOTSTRAP, frame_stream_id = 0, frame_payload = ''b''\<rparr> (sample_agent realm_lib []))) = ''r''"
  using hello_sets_realm[of sample_cloud "sample_app realm_lib" "''h''" "''s''" "''r''" "''b''" "sample_env realm_lib"
      "sample_agent realm_lib []"]
  by (simp add: default_config_def sample_app_def realm_lib_def society_realm_def j_value_def sample_env_def)

text \<open>
  C9: presence.  A registration change that Asterisk reports to the agent's worker goes out through
  the outbox as one frame, and the cloud that dispatches that frame shows exactly that subscriber in
  the reported state and leaves every other one as it was.
\<close>

theorem registration_reaches_cloud:
  fixes s :: "'a agent_app_scheme" and c :: "'b cloud_app_scheme"
  assumes "aa_continue s" and "aa_jobs s = [JobEvent ev]" and "aa_outbox s = []" and "connector_inv s" and "cc_unbounded s"
    and "js_parse (re_json (ag_ari env)) ev = Some j" and "j_get_string j ''type'' = Some ''EndpointStateChange''"
    and "j_get_object j ''endpoint'' = Some ep" and "j_get_string ep ''technology'' = Some ''PJSIP''"
    and "j_get_string ep ''resource'' = Some u" and "u \<noteq> []" and "j_get_string ep ''state'' = Some st"
    and "re_register_handler (ag_ari env)"
    and "js_dump (ag_json env) (register_payload (aa_society_id s) u (st = ''online'')) = Some p"
    and "js_parse (ae_json ae) p = Some (register_payload (aa_society_id s) u (st = ''online''))"
    and "CHR 0x00 \<notin> set (aa_society_id s)" and "CHR 0x00 \<notin> set soc"
  shows "cc_pipeline (outbox_drain (worker_step env now s)) = cc_pipeline s @ [sf_encode REGISTER_STATE 0 p] \<and>
    presence_is_online soc v (ca_presence (dispatch_frame (cloud_env ae)
      \<lparr>frame_op = REGISTER_STATE, frame_stream_id = 0, frame_payload = p\<rparr> c)) =
    (if soc = aa_society_id s \<and> v = u then st = ''online'' else presence_is_online soc v (ca_presence c))"
proof
  have "on_event (ag_ari env) now ev (aa_ari s) = (None, register_state u (st = ''online'') (aa_ari s))"
    using assms(6-13) by (simp add: on_event_def handle_endpoint_state_change_def try_value_def j_value_string)
  then have w: "worker_step env now s = (s\<lparr>aa_jobs := [], aa_ari := register_state u (st = ''online'') (aa_ari s),
      aa_outbox := [(REGISTER_STATE, 0, p)]\<rparr>)"
    using assms(1-3,14)
    by (simp add: worker_step_def run_job_def register_state_def job_frames_def outbox_post_def Let_def)
  show "cc_pipeline (outbox_drain (worker_step env now s)) = cc_pipeline s @ [sf_encode REGISTER_STATE 0 p]"
    using assms(4,5) unfolding w
    by (subst outbox_drain_pipeline) (simp_all add: connector_inv_def connected_def cc_unbounded_def cc_pipeline_def)
  show "presence_is_online soc v (ca_presence (dispatch_frame (cloud_env ae)
      \<lparr>frame_op = REGISTER_STATE, frame_stream_id = 0, frame_payload = p\<rparr> c)) =
    (if soc = aa_society_id s \<and> v = u then st = ''online'' else presence_is_online soc v (ca_presence c))"
    using assms(15-17) mem.online_upd[of soc "aa_society_id s" v u]
    by (simp add: dispatch_frame_def call_handler_def register_state_handler_def register_payload_def
        j_get_string_def j_get_bool_def)
qed

definition online_event :: json where
  "online_event = JObject [(''type'', JString ''EndpointStateChange''),
     (''endpoint'', JObject [(''technology'', JString ''PJSIP''), (''resource'', JString ''a102''), (''state'', JString ''online'')])]"

definition online_lib :: json_lib where
  "online_lib = \<lparr>js_parse = (\<lambda>t. if t = ''e'' then Some online_event else Some (register_payload ''s'' ''a102'' True)),
     js_dump = (\<lambda>_. Some ''p'')\<rparr>"

theorem registration_reaches_cloud_witness:
  "presence_is_online ''s'' ''a102'' (ca_presence (dispatch_frame (cloud_env (sample_app online_lib))
      \<lparr>frame_op = REGISTER_STATE, frame_stream_id = 0, frame_payload = ''p''\<rparr> cloud_boot))"
proof -
  let ?s = "ari_ws_event ''e'' (sample_agent online_lib [])"
  have s: "?s = (sample_agent online_lib [])\<lparr>aa_jobs := [JobEvent ''e'']\<rparr>"
    by (simp add: ari_ws_event_def dispatch_job_def)
  have "connector_inv ?s" "cc_unbounded ?s"
    unfolding s using sample_agent_ok(1,2)[of online_lib "[]"]
    by (simp_all add: connector_inv_def connected_def cc_unbounded_def)
  moreover have "js_parse online_lib ''e'' = Some online_event" "js_dump online_lib x = Some ''p''"
    "js_parse online_lib ''p'' = Some (register_payload ''s'' ''a102'' True)" for x
    by (simp_all add: online_lib_def)
  ultimately show ?thesis
    using registration_reaches_cloud[of ?s "''e''" "sample_env online_lib" online_event
        "JObject [(''technology'', JString ''PJSIP''), (''resource'', JString ''a102''), (''state'', JString ''online'')]"
        "''a102''" "''online''" "''p''" "sample_app online_lib" "''s''" 0 "''a102''" cloud_boot]
    by (simp add: s sample_env_def sample_app_def online_event_def j_get_string_def j_get_object_def)
qed

text \<open>
  revocation.  Revoking a subscriber in the cloud sends one frame, and the agent that dispatches
  it queues one job for its worker; the job asks Asterisk for the endpoint of that subscriber and
  hangs up every channel the answer lists, in order.
\<close>

theorem revocation_hangs_up:
  fixes c :: "'a cloud_app_scheme" and a :: "'b agent_app_scheme"
  assumes "cloud_inv c" and "outbound_buffer_max (ce_cfg c) = 0" and "m_tunnel c" and "u \<noteq> []"
    and "js_dump (ae_json ae) (revoke_payload soc u) = Some p"
    and "js_parse (ag_json env) p = Some (revoke_payload soc u)" and "aa_continue a"
    and "fst (rest_call (GetEndpoint ''PJSIP'' u) r) = (status, body)" and "is_2xx status"
    and "js_parse (re_json (ag_ari env)) body = Some ep"
    and "j_get_array ep ''channel_ids'' = Some (map JString ids)" and "[] \<notin> set ids"
  shows "pipeline (snd (revoke (cloud_env ae) soc u c)) = pipeline c @ [sf_encode SUBSCRIBER_REVOKED 0 p] \<and>
    aa_jobs (dm_dispatch_frame (cn_demux (agent_cenv env))
      \<lparr>frame_op = SUBSCRIBER_REVOKED, frame_stream_id = 0, frame_payload = p\<rparr> a) = aa_jobs a @ [JobRevoke u] \<and>
    ar_log (snd (run_job env now (JobRevoke u) r)) =
      ar_log r @ [GetEndpoint ''PJSIP'' u] @ map (\<lambda>i. Hangup i ''normal'') ids"
proof (intro conjI)
  show "pipeline (snd (revoke (cloud_env ae) soc u c)) = pipeline c @ [sf_encode SUBSCRIBER_REVOKED 0 p]"
    using assms(1-5) by (simp add: revoke_def cloud_send_pipeline)
  have "j_get_string (revoke_payload soc u) ''sipUsername'' = Some u"
    by (simp add: revoke_payload_def j_get_string_def)
  then show "aa_jobs (dm_dispatch_frame (cn_demux (agent_cenv env))
      \<lparr>frame_op = SUBSCRIBER_REVOKED, frame_stream_id = 0, frame_payload = p\<rparr> a) = aa_jobs a @ [JobRevoke u]"
    using assms(6,7)
    by (simp add: dm_dispatch_frame_def agent_cenv_def streams_env_fields dm_call_handler_def revoked_handler_def
        dispatch_job_def)
  have hang: "ar_log (fold hangup_channel (map JString ids) t) = ar_log t @ map (\<lambda>i. Hangup i ''normal'') ids"
    for t :: ari
    using assms(12) by (induction ids arbitrary: t) (auto simp: hangup_channel_def)
  show "ar_log (snd (run_job env now (JobRevoke u) r)) =
      ar_log r @ [GetEndpoint ''PJSIP'' u] @ map (\<lambda>i. Hangup i ''normal'') ids"
    using assms(4,8-11) hang[of "snd (rest_call (GetEndpoint ''PJSIP'' u) r)"]
    by (simp add: run_job_def revoke_subscriber_def Let_def case_prod_beta)
qed

definition revoke_lib :: json_lib where
  "revoke_lib = \<lparr>js_parse = (\<lambda>t. if t = ''p'' then Some (revoke_payload ''s'' ''a102'')
       else Some (JObject [(''channel_ids'', JArray (map JString [''c1'', ''c2'']))])),
     js_dump = (\<lambda>_. Some ''p'')\<rparr>"

definition sample_ari :: "ari_io list \<Rightarrow> ari" where
  "sample_ari io = new_ari \<lparr>ac_host = ''h'', ac_username = ''u'', ac_password = ''p''\<rparr> io ''s'' ''pbx''"

definition sample_answer :: ari_io where
  "sample_answer = IoReads [unlines [''HTTP/1.1 '' @ dec_string 200 @ '' '' @ ''OK''] @ crlf @ ''{}'']"

lemma sample_answer_ok: "do_request sample_answer = (200, ''{}'')"
proof -
  let ?r = "unlines [''HTTP/1.1 '' @ dec_string 200 @ '' '' @ ''OK''] @ crlf @ ''{}''"
  have "length (dec_string 200) \<le> 3" by (simp add: dec_string.simps)
  then have "length ?r \<le> kMaxResponse" by (simp add: kMaxResponse_def unlines_def crlf_def)
  then have "read_response [] [?r] = Some ?r"
    using read_response_concat[of "[?r]" "[]"] by (simp add: crlf_def)
  moreover have "parse_response ?r = (200, ''{}'')"
    using parse_response_ok[of 200 "''OK''" "[]" "''{}''"] by simp
  ultimately show ?thesis by (simp add: sample_answer_def do_request_def)
qed

theorem revocation_hangs_up_witness:
  "ar_log (snd (run_job (sample_env revoke_lib) 0 (JobRevoke ''a102'') (sample_ari [sample_answer]))) =
     [GetEndpoint ''PJSIP'' ''a102'', Hangup ''c1'' ''normal'', Hangup ''c2'' ''normal'']"
proof -
  have "js_dump revoke_lib x = Some ''p''" "js_parse revoke_lib ''p'' = Some (revoke_payload ''s'' ''a102'')"
    "js_parse revoke_lib ''{}'' = Some (JObject [(''channel_ids'', JArray (map JString [''c1'', ''c2'']))])" for x
    by (simp_all add: revoke_lib_def)
  moreover have "fst (rest_call r (sample_ari [sample_answer])) = (200, ''{}'')" for r
    by (simp add: rest_call_def sample_ari_def new_ari_def sample_answer_ok)
  moreover have "ar_log (sample_ari io) = []" for io by (simp add: sample_ari_def new_ari_def)
  ultimately show ?thesis
    using revocation_hangs_up[of sample_cloud "''a102''" "sample_app revoke_lib" "''s''" "''p''" "sample_env revoke_lib"
        "sample_agent revoke_lib []" "sample_ari [sample_answer]" 200 "''{}''"
        "JObject [(''channel_ids'', JArray (map JString [''c1'', ''c2'']))]" "[''c1'', ''c2'']" 0]
    by (simp add: default_config_def sample_app_def sample_env_def is_2xx_def j_get_array_def)
qed

section \<open>From the browser to the tunnel\<close>

lemma browser_data_pipeline:
  fixes s :: "'a cloud_app_scheme"
  assumes "healthy s" and "cloud_inv s" and "outbound_buffer_max (ce_cfg s) = 0" and "m_tunnel s"
    and "um_find (m_browsers s) sid \<noteq> None"
  shows "pipeline (fold (on_browser_data (cloud_env ae) sid) msgs s) = pipeline s @ map (sf_encode DATA sid) msgs"
  using assms
proof (induction msgs arbitrary: s)
  case (Cons m msgs)
  let ?t = "on_browser_data (cloud_env ae) sid m s"
  have t: "?t = endpoint_send_frame DATA sid m s" using Cons.prems by (auto simp: on_browser_data_def)
  have "cloud_inv ?t" unfolding t by (rule cloud_inv_send) (use Cons.prems in simp)
  moreover have "healthy ?t" "m_tunnel ?t" "um_find (m_browsers ?t) sid \<noteq> None" "outbound_buffer_max (ce_cfg ?t) = 0"
    using Cons.prems by (simp_all add: t healthy_send)
  ultimately show ?case using Cons.IH[of ?t] Cons.prems by (simp add: t cloud_send_pipeline)
qed simp

text \<open>
  C10: the text messages a registered browser sends, each one WebSocket frame under a masking key of
  its own, however its socket cuts them, enter the tunnel as one DATA frame each, in order, on that
  browser's stream.
\<close>

theorem browser_messages_enter_tunnel:
  fixes s :: "'a cloud_app_scheme"
  assumes "\<forall>(key, m) \<in> set kms. length m < 2 ^ 64 - 14" and "bs_recv_buf w = []"
    and "concat chunks = concat (map (\<lambda>(key, m). client_message key m) kms)"
    and "healthy s" and "cloud_inv s" and "outbound_buffer_max (ce_cfg s) = 0" and "m_tunnel s"
    and "um_find (m_browsers s) (bs_stream_id w) \<noteq> None"
  shows "\<exists>w' s'. ws_feed bs_get_buf bs_put_buf (bs_frame (cloud_env ae)) chunks (w, s) = Some (DrainMore, w', s') \<and>
    pipeline s' = pipeline s @ map (\<lambda>(key, m). sf_encode DATA (bs_stream_id w) m) kms"
  using bs_feed_messages[OF assms(1-3), of "cloud_env ae" s] browser_data_pipeline[OF assms(4-8)]
  by (auto simp: split_def comp_def)

definition sample_browser :: "browser_stream \<times> cloud_app" where
  "sample_browser = new_browser_stream (cloud_env (sample_app sample_lib)) 3 [] ''m'' sample_cloud"

lemma sample_browser_eq:
  "fst sample_browser = \<lparr>bs_self = 3, bs_stream_id = 1, bs_handle = True, bs_recv_buf = [], bs_close_notified = False,
     bs_ping_timer = -1, bs_sends = [], bs_written = [], bs_cancelled = []\<rparr>"
  "snd sample_browser = snd (on_browser_upgrade (cloud_env (sample_app sample_lib)) (Some 3) ''m'' sample_cloud)"
  by (simp_all add: sample_browser_def new_browser_stream_def on_browser_upgrade_def Let_def healthy_send)

lemma sample_browser_id:
  "bs_stream_id (fst sample_browser) = 1" "\<not> bs_close_notified (fst sample_browser)" "bs_recv_buf (fst sample_browser) = []"
  by (simp_all add: sample_browser_eq)

lemma sample_browser_ok:
  "cloud_inv (snd sample_browser)" "healthy (snd sample_browser)" "m_tunnel (snd sample_browser)"
  "um_find (m_browsers (snd sample_browser)) 1 = Some (Some 3)" "ce_cfg (snd sample_browser) = default_config"
  using app.upgrade_cloud_inv[of sample_cloud "sample_app sample_lib" "Some 3" "''m''"]
  by (simp_all add: sample_browser_eq) (simp_all add: on_browser_upgrade_def Let_def healthy_send)

theorem browser_messages_enter_tunnel_witness:
  "\<exists>w' s'. ws_feed bs_get_buf bs_put_buf (bs_frame (cloud_env (sample_app sample_lib)))
      [take 3 (client_message 5 ''hi''), drop 3 (client_message 5 ''hi'') @ client_message 0x9a2f01c7 ''ho'']
      (fst sample_browser, snd sample_browser) = Some (DrainMore, w', s') \<and>
    pipeline s' = pipeline (snd sample_browser) @ [sf_encode DATA 1 ''hi'', sf_encode DATA 1 ''ho'']"
  using browser_messages_enter_tunnel[of "[(5, ''hi''), (0x9a2f01c7, ''ho'')]" "fst sample_browser"
      "[take 3 (client_message 5 ''hi''), drop 3 (client_message 5 ''hi'') @ client_message 0x9a2f01c7 ''ho'']"
      "snd sample_browser" "sample_app sample_lib"]
  by (simp add: sample_browser_ok sample_browser_id default_config_def)

lemma bs_events_notified: "bs_close_notified w \<Longrightarrow> bs_close_notified (fold bs_event es w)"
proof (induction es arbitrary: w)
  case (Cons e es)
  have "bs_close_notified (bs_event e w)"
    using Cons.prems by (cases e) (auto simp: bs_send_bytes_def bs_close_def bs_cancel_ping_timer_def Let_def case_prod_beta)
  then show ?case using Cons.IH by simp
qed simp

text \<open>
  when a browser's socket is torn down its stream leaves the bridge, and a second teardown does
  nothing to the bridge or the tunnel.
\<close>

theorem browser_teardown_once:
  fixes s :: "'a cloud_app_scheme"
  assumes "bs_inv (w, s)" and "bs_handle_close (cloud_env ae) (w, s) = (w1, s1)"
  shows "um_find (m_browsers s1) (bs_stream_id w) = None \<and> snd (bs_handle_close (cloud_env ae) (w1, s1)) = s1"
proof
  let ?w = "bs_cancel_ping_timer w"
  obtain w2 where n: "bs_notify_close_once (cloud_env ae) ''handle_close'' (?w, s) = (w2, s1)" "w1 = w2\<lparr>bs_handle := False\<rparr>"
    using assms(2) by (auto simp: bs_handle_close_def Let_def case_prod_beta prod_eq_iff)
  have id: "bs_stream_id ?w = bs_stream_id w" "bs_close_notified ?w = bs_close_notified w"
    by (simp_all add: bs_cancel_ping_timer_def)
  have "bs_inv (?w, s)" using assms(1) by (simp add: bs_inv_def id)
  from app.notify_forgets(1)[OF this, of ae "''handle_close''"] n id
  show "um_find (m_browsers s1) (bs_stream_id w) = None" by simp
  have "bs_close_notified w2"
    using n(1) by (auto simp: bs_notify_close_once_def bridge_call_def Let_def bs_events_notified split: if_splits)
  then have "bs_close_notified (bs_cancel_ping_timer w1)"
    by (simp add: n(2) bs_cancel_ping_timer_def)
  then show "snd (bs_handle_close (cloud_env ae) (w1, s1)) = s1"
    by (simp add: bs_handle_close_def bs_notify_close_once_def Let_def)
qed

theorem browser_teardown_once_witness:
  "um_find (m_browsers (snd (bs_handle_close (cloud_env (sample_app sample_lib)) sample_browser))) 1 = None"
proof -
  have "bs_inv (fst sample_browser, snd sample_browser)"
    by (simp only: bs_inv_def sample_browser_id prod.case) simp
  from browser_teardown_once[OF this prod.collapse[symmetric], of "sample_app sample_lib"] show ?thesis
    by (simp add: sample_browser_id)
qed

text \<open>
  a WebSocket frame decodes to its opcode and payload, masked or not, whatever follows it, for
  every payload length the header can express.
\<close>

theorem websocket_round_trip:
  assumes "length p < 2 ^ 64 - 14"
  shows "ws_decode (ws_encode p opc masked key rnd @ rest) = WsSome \<lparr>ws_opcode = opc AND 0x0F, ws_payload = p\<rparr> rest"
  using assms by (rule ws_decode_encode)

theorem websocket_round_trip_witness:
  "ws_decode (ws_encode [1, 2, 3] 0x2 True 0 0xDEADBEEF @ [7]) = WsSome \<lparr>ws_opcode = 2, ws_payload = [1, 2, 3]\<rparr> [7]"
  using websocket_round_trip[of "[1, 2, 3]" 2 True 0 "0xDEADBEEF" "[7]"] by simp

section \<open>The worker of the agent\<close>

text \<open>
  the jobs queued for the worker run in the order they were queued, each once, and a job that
  throws does not keep the later ones from running.
\<close>

theorem jobs_run_in_order:
  assumes "aa_continue s" and "length nows = length (aa_jobs s)"
  shows "aa_ari (fold (worker_step env) nows s) =
      fold (\<lambda>(now, job) a. snd (run_job env now job a)) (zip nows (aa_jobs s)) (aa_ari s) \<and>
    aa_jobs (fold (worker_step env) nows s) = []"
  using assms by (rule worker_runs_queue)

theorem jobs_run_in_order_witness:
  "aa_jobs (fold (worker_step (sample_env sample_lib)) [1, 2]
     (ari_ws_event ''f'' (ari_ws_event ''e'' (sample_agent sample_lib [])))) = []"
  using jobs_run_in_order[of "ari_ws_event ''f'' (ari_ws_event ''e'' (sample_agent sample_lib []))" "[1, 2]" "sample_env sample_lib"]
  by (simp add: ari_ws_event_def dispatch_job_def)

text \<open>
  The frames the worker posts are handed to the connector in the order of the posts, each once,
  and the outbox is empty afterwards.
\<close>

theorem outbox_in_order:
  assumes "connector_inv s" and "cc_unbounded s"
  shows "cc_pipeline (outbox_drain s) = cc_pipeline s @ map (\<lambda>(op, sid, p). sf_encode op sid p) (aa_outbox s) \<and>
    aa_outbox (outbox_drain s) = []"
  using outbox_drain_pipeline[OF assms] outbox_drain_empty by blast

theorem outbox_in_order_witness:
  "cc_pipeline (outbox_drain (outbox_post PONG 1 ''b'' (outbox_post PING 0 ''a'' (sample_agent sample_lib [])))) =
     [sf_encode PING 0 ''a'', sf_encode PONG 1 ''b'']"
  using outbox_in_order[of "outbox_post PONG 1 ''b'' (outbox_post PING 0 ''a'' (sample_agent sample_lib []))"]
    sample_agent_ok(1,2,4)[of sample_lib "[]"]
  by (simp add: outbox_post_def connector_inv_def connected_def cc_unbounded_def cc_pipeline_def)

text \<open>
  After a successful dial the agent has sent everything that was queued, then its hello; it is
  connected, its demultiplexer has the tunnel again, and a snapshot of the registrations is queued.
\<close>

theorem connect_announces:
  assumes "cc_transport s = None" and "\<not> cc_disconnect_pending s" and "cc_next_reconnect_at s \<le> now"
    and "cc_dials s = Some t # ds" and "t_oracle t = []" and "aa_continue s"
    and "js_dump (ag_json env) (hello_payload (aa_society_id s)) = Some p"
  shows "let s' = cc_tick (agent_cenv env) now s
    in cc_log s' = cc_log s @ map (Sent (t_id t)) (cc_outbound s @ [sf_encode AGENT_HELLO 0 p]) \<and>
      cc_outbound s' = [] \<and> connected s' \<and> dm_tunnel s' \<and> aa_jobs s' = aa_jobs s @ [JobSnapshot]"
  using connect_says_hello[OF assms refl] by (simp add: Let_def)

theorem connect_announces_witness:
  "connected (cc_tick (agent_cenv (sample_env sample_lib)) 9 (sample_agent sample_lib [Some sample_transport]))"
  using connect_announces[of "sample_agent sample_lib [Some sample_transport]" 9 sample_transport "[]"
      "sample_env sample_lib" "''{}''"]
  by (simp add: sample_transport_def sample_env_def sample_lib_def Let_def)

end
