(* ===== verification/Call_Properties.thy ===== *)
theory Call_Properties
  imports Agent_App
begin

text \<open>
  What the on-premises side guarantees about calls: the forked ring of the router, the admission
  counter and the call records of the ARI client, the texts the REST client sends and reads, and the
  synchronisation of Asterisk's configuration with the subscribers of the database.
\<close>

section \<open>Concrete objects for the witnesses\<close>

definition ringing_call :: pending_call where
  "ringing_call = \<lparr>pc_dialed_ext = ''101'', pc_ringing_legs = [leg_name ''c'' 0, leg_name ''c'' 1], pc_connected_leg = []\<rparr>"

definition ringing_router :: router where
  "ringing_router = \<lparr>ar_cfg = \<lparr>ac_host = ''h'', ac_username = ''u'', ac_password = ''p''\<rparr>, ar_log = [], ar_io = [],
     cr_society_id = ''s'', cr_app_name = ''pbx'',
     cr_calls = [(''c'', ringing_call)],
     cr_leg_to_caller = [(leg_name ''c'' 0, ''c''), (leg_name ''c'' 1, ''c'')]\<rparr>"

definition null_router_env :: router_env where
  "null_router_env = \<lparr>re_json = \<lparr>js_parse = (\<lambda>_. None), js_dump = (\<lambda>_. None)\<rparr>, re_get_documents = (\<lambda>_ _ _. None)\<rparr>"

lemma leg_names_differ [simp]: "leg_name c i = leg_name c j \<longleftrightarrow> i = j" "leg_name c i \<noteq> c" "c \<noteq> leg_name c i" "leg_name c i \<noteq> []"
proof -
  show "leg_name c i = leg_name c j \<longleftrightarrow> i = j" by (simp add: leg_name_inj)
  show "leg_name c i \<noteq> c" "c \<noteq> leg_name c i" "leg_name c i \<noteq> []" by (simp_all add: leg_name_def)
qed

lemma ringing_router_inv: "router_inv ringing_router"
  by (auto simp: router_inv_def ringing_router_def ringing_call_def call_ok_def)

lemma ringing_lookup [simp]:
  "um_find (cr_calls ringing_router) ''c'' = Some ringing_call" "ar_log ringing_router = []"
  "pc_connected_leg ringing_call = []" "pc_ringing_legs ringing_call = [leg_name ''c'' 0, leg_name ''c'' 1]"
  by (simp_all add: ringing_router_def ringing_call_def)

section \<open>The forked ring\<close>

text \<open>
  C11: over every sequence of channel events with named channels, a pending call has distinct
  ringing legs, each of them tracked back to its caller, and is either ringing or connected, never
  both and never neither.
\<close>

theorem router_run_invariant:
  assumes "router_inv s" and "named_legs es"
  shows "router_inv (fold (router_exec env) es s)"
  using assms by (rule router_run_inv)

theorem router_run_invariant_witness:
  "router_inv (fold (router_exec null_router_env)
     [LegStart (leg_name ''c'' 1) ''c'', ChannelGone (leg_name ''c'' 0), CallerStart ''d'' ''102'' ''103'', ChannelGone ''c''] ringing_router)"
  by (rule router_run_invariant[OF ringing_router_inv]) (simp add: named_legs_def leg_name_def)

text \<open>
  C12: the first leg that answers wins: the caller is answered, a bridge is made, caller and leg
  are put into it, every other ringing leg is hung up; a leg that answers later is hung up and changes
  nothing else, so the caller is bridged to one leg only.
\<close>

theorem first_answer_wins:
  assumes "um_find (cr_calls s) caller = Some call" and "pc_connected_leg call = []" and "leg \<noteq> []" and "late \<noteq> leg"
  shows "ar_log (on_leg_start late caller (on_leg_start leg caller s)) = ar_log s @
      [Answer caller, CreateBridge (bridge_name caller) ''mixing'',
       AddChannelToBridge (bridge_name caller) caller, AddChannelToBridge (bridge_name caller) leg] @
      map (\<lambda>l. Hangup l ''answered'') (remove1 leg (pc_ringing_legs call)) @ [Hangup late ''answered'']"
  using late_answer[OF first_answer(1)[OF assms(1,2), of leg], of late] first_answer(2)[OF assms(1,2), of leg] assms(3,4)
  by simp

theorem first_answer_wins_witness:
  "ar_log (on_leg_start (leg_name ''c'' 1) ''c'' (on_leg_start (leg_name ''c'' 0) ''c'' ringing_router)) =
     [Answer ''c'', CreateBridge (bridge_name ''c'') ''mixing'', AddChannelToBridge (bridge_name ''c'') ''c'',
      AddChannelToBridge (bridge_name ''c'') (leg_name ''c'' 0), Hangup (leg_name ''c'' 1) ''answered'',
      Hangup (leg_name ''c'' 1) ''answered'']"
  using first_answer_wins[OF ringing_lookup(1,3), of "leg_name ''c'' 0" "leg_name ''c'' 1"] by simp

text \<open>
  once a leg is connected no event connects the caller to another one: after any event the call
  has the same connected leg or has ended.
\<close>

theorem connected_leg_stays:
  assumes "um_find (cr_calls s) c = Some call" and "pc_connected_leg call \<noteq> []"
  shows "case um_find (cr_calls (router_exec env e s)) c of
    None \<Rightarrow> True | Some call' \<Rightarrow> pc_connected_leg call' = pc_connected_leg call"
  using assms by (rule connected_stable)

theorem connected_leg_stays_witness:
  "case um_find (cr_calls (router_exec null_router_env (LegStart (leg_name ''c'' 1) ''c'')
      (on_leg_start (leg_name ''c'' 0) ''c'' ringing_router))) ''c'' of
    None \<Rightarrow> True | Some call' \<Rightarrow> pc_connected_leg call' = leg_name ''c'' 0"
  using connected_leg_stays[OF first_answer(1)[OF ringing_lookup(1,3)], of "leg_name ''c'' 0" null_router_env
      "LegStart (leg_name ''c'' 1) ''c''"]
  by (simp split: option.splits)

text \<open>
  C13: when every ringing leg of a call has gone, in any order, the caller is hung up with no_answer,
  once and with no other call to Asterisk, and the call is forgotten.
\<close>

theorem unanswered_call_ends:
  assumes "router_inv s" and "um_find (cr_calls s) c = Some call" and "pc_connected_leg call = []"
    and "distinct ls" and "set ls = set (pc_ringing_legs call)" and "\<forall>l \<in> set ls. um_find (cr_calls s) l = None"
  shows "um_find (cr_calls (fold on_channel_gone ls s)) c = None \<and>
    ar_log (fold on_channel_gone ls s) = ar_log s @ [Hangup c ''no_answer'']"
  using assms by (rule all_legs_gone)

theorem unanswered_call_ends_witness:
  "ar_log (fold on_channel_gone [leg_name ''c'' 1, leg_name ''c'' 0] ringing_router) = [Hangup ''c'' ''no_answer'']"
  using unanswered_call_ends[OF ringing_router_inv ringing_lookup(1,3), of "[leg_name ''c'' 1, leg_name ''c'' 0]"]
  by (simp add: insert_commute) (simp add: ringing_router_def)

text \<open>
  a caller that hangs up takes its call down: every ringing leg and the connected leg are hung
  up, each once, and the call is forgotten.
\<close>

theorem caller_hangup_ends_call:
  assumes "um_find (cr_calls s) caller = Some call"
  shows "um_find (cr_calls (on_channel_gone caller s)) caller = None \<and>
    ar_log (on_channel_gone caller s) = ar_log s @ map (\<lambda>l. Hangup l ''normal'') (pc_ringing_legs call) @
      (if pc_connected_leg call = [] then [] else [Hangup (pc_connected_leg call) ''normal''])"
  using caller_gone[OF assms] by blast

theorem caller_hangup_ends_call_witness:
  "ar_log (on_channel_gone ''c'' ringing_router) = [Hangup (leg_name ''c'' 0) ''normal'', Hangup (leg_name ''c'' 1) ''normal'']"
  using caller_hangup_ends_call[OF ringing_lookup(1)] by simp

section \<open>Admission and call records\<close>

text \<open>
  C14: the admission counter of the ARI client is the number of bridges that Asterisk has reported
  created and not reported destroyed since, over every sequence of jobs the worker runs: the table holds
  exactly the ids named by the BridgeCreated and BridgeDestroyed events it has taken from its queue (a
  repeated report counts once, the report of an unknown bridge not at all), and the counter is
  their number, whatever else Asterisk reports and even when a handler throws.
\<close>

theorem admission_counter_exact:
  assumes "bridges_inv (aa_ari s)"
  shows "um_keys (al_bridges (aa_ari (fold (worker_step env) nows s))) =
      fold (job_report (re_json (ag_ari env))) (jobs_taken (length nows) s) (um_keys (al_bridges (aa_ari s))) \<and>
    al_active_bridges (aa_ari (fold (worker_step env) nows s)) =
      int (card (fold (job_report (re_json (ag_ari env))) (jobs_taken (length nows) s) (um_keys (al_bridges (aa_ari s))))) \<and>
    bridges_inv (aa_ari (fold (worker_step env) nows s))"
  using worker_bridges[of env nows s] worker_bridges_inv[OF assms, of env nows]
    bridges_inv_card[OF worker_bridges_inv[OF assms, of env nows]] by simp

text \<open>
  a caller that arrives when the counter is at the cap is sent to the busy context and nothing
  else happens: no leg is dialled, no channel is tracked and so no record will be written for it.
\<close>

theorem over_cap_is_busy:
  assumes "j_get_object j ''channel'' = Some ch" and "j_get_string ch ''id'' = Some cid"
    and "outbound_caller j = None" and "al_active_bridges s \<ge> al_max_concurrent_calls (al_cfg s)"
  shows "handle_stasis_start env now j s =
    (None, rest_do (ContinueInDialplan cid (al_busy_context (al_cfg s)) (al_busy_extension (al_cfg s))
      (al_busy_priority (al_cfg s))) s)"
  using assms by (simp add: handle_stasis_start_def over_admission_cap_def)

text \<open>
  the destruction of a tracked channel writes exactly one call record, and a repeated report of
  it writes nothing more.
\<close>

theorem one_record_per_call:
  assumes "j_get_object j ''channel'' = Some ch" and "j_get_string ch ''id'' = Some cid" and "cid \<noteq> []"
    and "um_find (al_channels s) cid = Some cx"
    and "js_dump (re_json env) (cdr_document (cr_society_id s) cid cx (al_bridges s) now j) = Some doc"
  shows "let s1 = snd (handle_channel_destroyed env now j s); s2 = snd (handle_channel_destroyed env later j s1)
    in al_created s1 = al_created s @ [(''cdr'', doc)] \<and> al_created s2 = al_created s1"
proof -
  note d = destroyed_known[OF assms]
  have "snd (handle_channel_destroyed env later j (snd (handle_channel_destroyed env now j s))) =
      on_channel_gone cid (snd (handle_channel_destroyed env now j s))"
    by (simp add: destroyed_unknown[OF assms(1-3) d(3)])
  then show ?thesis
    using d(2) by (simp add: Let_def al_partD(5)[OF al_part_router(3)])
qed

text \<open>
  While the clock does not run backwards, the duration of a call in its record is never negative
  and never longer than the time since the channel appeared.
\<close>

theorem duration_bounded:
  assumes "sorted (map fst evs)" and "al_channels s = []"
    and "um_find (al_channels (fold (\<lambda>(t, ev) u. snd (on_event env t ev u)) evs s)) cid = Some cx"
    and "\<forall>(t, ev) \<in> set evs. t \<le> now"
  shows "0 \<le> call_duration cx now \<and> call_duration cx now \<le> now - cx_started_at cx"
proof -
  have "stamped now (fold (\<lambda>(t, ev) u. snd (on_event env t ev u)) evs u)"
    if "stamped t0 u" "t0 \<le> now" "\<forall>(t, ev) \<in> set evs. t0 \<le> t" "sorted (map fst evs)" "\<forall>(t, ev) \<in> set evs. t \<le> now"
    for t0 u
    using that
  proof (induction evs arbitrary: t0 u)
    case Nil
    then show ?case using stamped_later by simp
  next
    case (Cons e evs)
    obtain t ev where e: "e = (t, ev)" by (cases e)
    have "stamped t (snd (on_event env t ev u))"
      using Cons.prems e stamped_later[of t0 u t] by (intro on_event_stamped) simp
    then show ?case
      using Cons.IH[of t "snd (on_event env t ev u)"] Cons.prems e by (auto simp: case_prod_beta)
  qed
  moreover have "stamped t0 s" for t0 using assms(2) by (simp add: stamped_def)
  ultimately have "stamped now (fold (\<lambda>(t, ev) u. snd (on_event env t ev u)) evs s)"
    using assms(1,4) by (cases evs) fastforce+
  then show ?thesis using assms(3) by (rule call_duration_bounds)
qed

definition gone_event :: json where
  "gone_event = JObject [(''channel'', JObject [(''id'', JString ''c'')])]"

definition sample_channel :: channel_ctx where
  "sample_channel = \<lparr>cx_channel_id = ''c'', cx_caller_flat = ''101'', cx_callee_flat = ''102'', cx_bridge_id = [],
     cx_started_at = 5, cx_answered_at = 0\<rparr>"

definition record_lib :: json_lib where
  "record_lib = \<lparr>js_parse = (\<lambda>t. if t = ''g'' then Some (JObject [(''type'', JString ''StasisStart''),
       (''channel'', JObject [(''id'', JString ''c'')])]) else None), js_dump = (\<lambda>_. Some ''r'')\<rparr>"

definition record_env :: ari_env where
  "record_env = \<lparr>re_json = record_lib, re_get_documents = (\<lambda>_ _ _. None), re_get_document = (\<lambda>_ _ _. None),
     re_register_handler = True, re_status_handler = True\<rparr>"

definition idle_ari :: ari where
  "idle_ari = new_ari \<lparr>ac_host = ''h'', ac_username = ''u'', ac_password = ''p''\<rparr> [] ''s'' ''pbx''"

definition idle_agent :: "ari_job list \<Rightarrow> agent_app" where
  "idle_agent jobs = (agent_boot \<lparr>ag_json = record_lib, ag_watcher = \<lparr>we_json = record_lib, we_get_documents = (\<lambda>_ _ _. None)\<rparr>,
     ag_ari = record_env\<rparr> ''s'' [] ''pbx'' \<lparr>ac_host = ''h'', ac_username = ''u'', ac_password = ''p''\<rparr> [] [] [] [] [] [] [])
     \<lparr>aa_jobs := jobs\<rparr>"

definition bridge_lib :: json_lib where
  "bridge_lib = \<lparr>js_parse = (\<lambda>t. case t of
       [] \<Rightarrow> None
     | c # i \<Rightarrow> Some (JObject [(''bridge'', JObject [(''id'', JString i)]),
         (''type'', JString (if c = CHR ''+'' then ''BridgeCreated'' else ''BridgeDestroyed''))])),
     js_dump = (\<lambda>_. Some ''r'')\<rparr>"

definition bridge_env_sample :: agent_env where
  "bridge_env_sample = \<lparr>ag_json = bridge_lib, ag_watcher = \<lparr>we_json = bridge_lib, we_get_documents = (\<lambda>_ _ _. None)\<rparr>,
     ag_ari = \<lparr>re_json = bridge_lib, re_get_documents = (\<lambda>_ _ _. None), re_get_document = (\<lambda>_ _ _. None),
       re_register_handler = True, re_status_handler = True\<rparr>\<rparr>"

theorem admission_counter_exact_witness:
  "al_active_bridges (aa_ari (fold (worker_step bridge_env_sample) [1, 2, 3, 4, 5, 6, 7]
     (idle_agent (map JobEvent [''+a'', ''+b'', ''+a'', ''-z'', ''-b'', []] @ [JobSnapshot])))) = 1"
proof -
  let ?s = "idle_agent (map JobEvent [''+a'', ''+b'', ''+a'', ''-z'', ''-b'', []] @ [JobSnapshot])"
  have "bridges_inv (aa_ari ?s)" using agent_boot_inv(3)[OF refl] by (simp add: idle_agent_def)
  note exact = admission_counter_exact[OF this, of bridge_env_sample "[1, 2, 3, 4, 5, 6, 7]"]
  have s: "jobs_taken (length [1::int, 2, 3, 4, 5, 6, 7]) ?s =
      map JobEvent [''+a'', ''+b'', ''+a'', ''-z'', ''-b'', []] @ [JobSnapshot]"
    "um_keys (al_bridges (aa_ari ?s)) = {}"
    by (simp_all add: jobs_taken_def idle_agent_def agent_boot_def start_def new_ari_def rest_do_def rest_call_def
        Let_def case_prod_beta)
  have "fold (job_report (re_json (ag_ari bridge_env_sample)))
      (map JobEvent [''+a'', ''+b'', ''+a'', ''-z'', ''-b'', []] @ [JobSnapshot]) {} = {''a''}"
    by (auto simp: bridge_report_def bridge_env_sample_def bridge_lib_def j_get_string_def j_get_object_def)
  then have one: "int (card (fold (job_report (re_json (ag_ari bridge_env_sample)))
      (map JobEvent [''+a'', ''+b'', ''+a'', ''-z'', ''-b'', []] @ [JobSnapshot]) {})) = 1" by simp
  show ?thesis using exact unfolding s one by blast
qed

theorem over_cap_is_busy_witness:
  "ar_log (snd (handle_stasis_start record_env 9 gone_event (idle_ari\<lparr>al_active_bridges := 5\<rparr>))) =
     [ContinueInDialplan ''c'' ''pbx-busy'' ''s'' 1]"
  using over_cap_is_busy[of gone_event "JObject [(''id'', JString ''c'')]" "''c''" "idle_ari\<lparr>al_active_bridges := 5\<rparr>" record_env 9]
  by (simp add: gone_event_def j_get_object_def j_get_string_def outbound_caller_def j_get_array_def idle_ari_def
      new_ari_def ari_default_config_def)

theorem one_record_per_call_witness:
  "al_created (snd (handle_channel_destroyed record_env 9 gone_event (idle_ari\<lparr>al_channels := [(''c'', sample_channel)]\<rparr>))) =
     [(''cdr'', ''r'')]"
  using one_record_per_call[of gone_event "JObject [(''id'', JString ''c'')]" "''c''"
      "idle_ari\<lparr>al_channels := [(''c'', sample_channel)]\<rparr>" sample_channel record_env 9 "''r''" 10]
  by (simp add: gone_event_def j_get_object_def j_get_string_def record_env_def record_lib_def idle_ari_def new_ari_def Let_def)

theorem duration_bounded_witness:
  "call_duration (sample_channel\<lparr>cx_caller_flat := [], cx_callee_flat := []\<rparr>) 20 \<le> 15"
proof -
  let ?cx = "sample_channel\<lparr>cx_caller_flat := [], cx_callee_flat := []\<rparr>"
  have "um_find (al_channels (fold (\<lambda>(t, ev) u. snd (on_event record_env t ev u)) [(5, ''g'')] idle_ari)) ''c'' = Some ?cx"
    by (simp add: on_event_def record_env_def record_lib_def j_get_string_def handle_stasis_start_def j_get_object_def
        outbound_caller_def j_get_array_def over_admission_cap_def idle_ari_def new_ari_def ari_default_config_def
        try_value_def j_value_def Let_def sip_user_from_channel_name_def lookup_flat_number_def string_field_def
        on_caller_start_def resolve_targets_def sample_channel_def rest_do_def rest_call_def)
  from duration_bounded[OF _ _ this, of 20] show ?thesis
    by (simp add: idle_ari_def new_ari_def sample_channel_def)
qed

section \<open>Requests and responses\<close>

definition clean :: "string \<Rightarrow> bool" where
  "clean s \<longleftrightarrow> CHR '' '' \<notin> set s \<and> CHR 0x0D \<notin> set s \<and> CHR 0x0A \<notin> set s"

lemma clean_append [simp]: "clean (a @ b) \<longleftrightarrow> clean a \<and> clean b"
  by (auto simp: clean_def)

lemma clean_Cons [simp]: "clean (c # s) \<longleftrightarrow> c \<notin> {CHR '' '', CHR 0x0D, CHR 0x0A} \<and> clean s"
  by (auto simp: clean_def)

lemma clean_Nil [simp]: "clean []"
  by (simp add: clean_def)

lemma clean_url_encode [simp]: "clean (url_encode s)"
proof -
  have "\<not> is_unreserved (CHR '' '')" "\<not> is_unreserved (CHR 0x0D)" "\<not> is_unreserved (CHR 0x0A)"
    by (simp_all add: is_unreserved_def is_alnum_def)
  with url_encode_safe[of s] show ?thesis unfolding clean_def by (auto dest: bspec)
qed

lemma clean_dec_string [simp]: "clean (dec_string n)"
proof -
  have "\<not> is_digit (CHR '' '')" "\<not> is_digit (CHR 0x0D)" "\<not> is_digit (CHR 0x0A)"
    by (simp_all add: is_digit_def)
  with dec_string_digits[of n] show ?thesis unfolding clean_def by (auto dest: bspec)
qed

lemma clean_join_sources [simp]: "clean (join_sources ss)"
  by (induction ss rule: join_sources.induct) simp_all

text \<open>The method and the target of each request.\<close>

fun request_method :: "ari_req \<Rightarrow> string" where
  "request_method (GetEndpoint _ _) = ''GET''"
| "request_method (ListEndpoints _) = ''GET''"
| "request_method (Hangup _ _) = ''DELETE''"
| "request_method (CreateDynamicConfig _ _ _ _) = ''PUT''"
| "request_method (DeleteDynamicConfig _ _ _) = ''DELETE''"
| "request_method _ = ''POST''"

fun request_target :: "ari_req \<Rightarrow> string" where
  "request_target (Subscribe app srcs) = ''/ari/applications/'' @ url_encode app @ ''/subscription?'' @ join_sources srcs"
| "request_target (ContinueInDialplan ch ctx ext pri) = ''/ari/channels/'' @ url_encode ch @ ''/continue?context='' @
     url_encode ctx @ ''&extension='' @ url_encode ext @ ''&priority='' @ dec_string pri"
| "request_target (Originate ep app args ch cid) = ''/ari/channels?endpoint='' @ url_encode ep @ ''&app='' @ url_encode app @
     ''&appArgs='' @ url_encode args @ ''&channelId='' @ url_encode ch @ ''&formats='' @ url_encode ''opus,ulaw,alaw'' @
     (if cid = [] then [] else ''&callerId='' @ url_encode cid)"
| "request_target (CreateBridge b t) = ''/ari/bridges?type='' @ url_encode t @ ''&bridgeId='' @ url_encode b"
| "request_target (AddChannelToBridge b ch) = ''/ari/bridges/'' @ url_encode b @ ''/addChannel?channel='' @ url_encode ch"
| "request_target (Hangup ch r) = ''/ari/channels/'' @ url_encode ch @ ''?reason='' @ url_encode r"
| "request_target (Answer ch) = ''/ari/channels/'' @ url_encode ch @ ''/answer''"
| "request_target (GetEndpoint t r) = ''/ari/endpoints/'' @ url_encode t @ ''/'' @ url_encode r"
| "request_target (ListEndpoints t) = ''/ari/endpoints/'' @ url_encode t"
| "request_target (CreateDynamicConfig c t i f) = ''/ari/asterisk/config/dynamic/'' @ url_encode c @ ''/'' @ url_encode t @ ''/'' @ url_encode i"
| "request_target (DeleteDynamicConfig c t i) = ''/ari/asterisk/config/dynamic/'' @ url_encode c @ ''/'' @ url_encode t @ ''/'' @ url_encode i"

lemma clean_request: "clean (request_method req)" "clean (request_target req)"
  by (cases req; simp)+

lemma request_line: "\<exists>rest. ari_request_text cfg req = request_method req @ '' '' @ request_target req @ '' HTTP/1.1'' @ crlf @ rest"
  by (cases req)
    (simp_all add: ari_request_text_def Let_def request_tail_def build_subscribe_request_def build_continue_request_def
      build_originate_request_def build_create_bridge_request_def build_add_channel_request_def build_hangup_request_def
      build_answer_request_def build_get_endpoint_request_def build_list_endpoints_request_def
      build_create_dynamic_config_request_def build_delete_dynamic_config_request_def)

text \<open>
  no value passed to the REST client, whatever bytes it holds, can break out of the request line:
  every request starts with a method, one space, a target without spaces and line breaks, and the
  protocol; and a percent-encoded value can be decoded to exactly what it was.
\<close>

theorem requests_cannot_be_split:
  "(\<exists>rest. ari_request_text cfg req = request_method req @ '' '' @ request_target req @ '' HTTP/1.1'' @ crlf @ rest) \<and>
   clean (request_method req) \<and> clean (request_target req) \<and> url_decode (url_encode v) = v"
  using request_line clean_request url_decode_encode by blast

text \<open>
  The credentials in the Authorization header decode to what was configured, whatever bytes they
  hold.
\<close>

theorem basic_auth_round_trip: "base64_decode (base64_encode credentials) = credentials"
  by (rule base64_decode_encode)

text \<open>
  A response that arrives in any number of pieces, up to the size limit, is read back as its
  status code and its body.
\<close>

theorem response_read_back:
  assumes "concat pieces = unlines ((''HTTP/1.1 '' @ dec_string n @ '' '' @ reason) # headers) @ crlf @ body"
    and "[] \<notin> set pieces" and "length (concat pieces) \<le> kMaxResponse"
    and "int n < 2 ^ 31" and "CHR 0x0D \<notin> set reason" and "list_all line_ok headers"
  shows "do_request (IoReads pieces) = (int n, body)"
proof -
  have "read_response [] pieces = Some (concat pieces)"
    using read_response_concat[of pieces "[]"] assms(2,3) by fastforce
  then show ?thesis using parse_response_ok[OF assms(4-6), of body] assms(1) by (simp add: do_request_def)
qed

theorem response_read_back_witness:
  "do_request (IoReads [unlines [''HTTP/1.1 '' @ dec_string 404 @ '' '' @ ''No''], crlf @ ''{}'']) = (404, ''{}'')"
proof -
  have "length (dec_string 404) \<le> 3" by (simp add: dec_string.simps)
  then have "length (unlines [''HTTP/1.1 '' @ dec_string 404 @ '' '' @ ''No'']) + 4 \<le> kMaxResponse"
    by (simp add: kMaxResponse_def unlines_def crlf_def)
  then show ?thesis
    using response_read_back[of "[unlines [''HTTP/1.1 '' @ dec_string 404 @ '' '' @ ''No''], crlf @ ''{}'']" 404 "''No''" "[]" "''{}''"]
    by (simp add: unlines_def crlf_def)
qed

section \<open>Subscribers and Asterisk's configuration\<close>

text \<open>
  C15: a full scan makes Asterisk's store what the rows say.  The calls of the scan are paired with the
  answers they got; the store may do anything with a call that was not confirmed (a 2xx status, or 404
  to a DELETE).  When every call that names the endpoint or the registration object of a user was
  confirmed, the store holds the provisioned endpoint and registration object of that user if its last
  row is active, neither of them if its last row is not, and what it held before if no row names the
  user.  The user must not be another row's user followed by \<^verbatim>\<open>-aor\<close>, the name that removing a subscriber
  deletes as well.
\<close>

theorem full_scan_materialises:
  assumes "we_get_documents env ''subscribers'' (society_filter (sw_society_id s)) ''{}'' = Some raw" and "raw \<noteq> []"
    and "js_parse (we_json env) raw = Some (JArray rows)" and "list_all (row_ok (we_json env)) rows"
    and "calls = answered (drop (length (ar_log s)) (ar_log (snd (run_full_scan env s)))) (ar_io s)"
    and "store_run calls \<sigma> \<sigma>'"
    and "\<forall>(r, io) \<in> set calls. config_object r \<in> {Some (''endpoint'', u), Some (''aor'', u)} \<longrightarrow> confirmed r io"
    and "\<forall>row \<in> set rows. \<forall>v st. row_user row = Some (v, st) \<longrightarrow> v @ ''-aor'' \<noteq> u"
  shows "fst (run_full_scan env s) = None \<and> ar_io (snd (run_full_scan env s)) = drop (length calls) (ar_io s) \<and>
    \<sigma>' (''endpoint'', u) = (case scan_status rows u None of
        None \<Rightarrow> \<sigma> (''endpoint'', u) | Some active \<Rightarrow> if active then endpoint_body (we_json env) u else None) \<and>
    \<sigma>' (''aor'', u) = (case scan_status rows u None of
        None \<Rightarrow> \<sigma> (''aor'', u) | Some active \<Rightarrow> if active then aor_body (we_json env) else None)"
proof -
  let ?rs = "concat (map (row_requests (we_json env)) rows)"
  note scan = scan_rows_trace[OF assms(4), of s]
  have run: "run_full_scan env s = scan_rows (we_json env) rows s" using assms(1-3) by (simp add: run_full_scan_def)
  have calls: "calls = answered ?rs (ar_io s)" using assms(5) scan by (simp add: run)
  have obj: "\<sigma>' obj = fold (\<lambda>r. config_call r obj) ?rs (\<sigma> obj)" if "obj \<in> {(''endpoint'', u), (''aor'', u)}" for obj
    by (rule store_run_object[OF assms(6)[unfolded calls]]) (use that assms(7)[unfolded calls] in auto)
  have ok: "row_ok (we_json env) row" if "row \<in> set rows" for row using assms(4) that by (simp add: list_all_iff)
  show ?thesis
    using scan run obj length_answered[of ?rs "ar_io s"]
      scan_calls[OF row_calls(1)[OF ok], where acc = None and u = u and old = "\<sigma> (''endpoint'', u)"]
      scan_calls[OF row_calls(2)[OF ok], where acc = None and u = u and old = "\<sigma> (''aor'', u)"] assms(8)
    by (simp add: calls)
qed

definition scan_lib :: json_lib where
  "scan_lib = \<lparr>js_parse = (\<lambda>t. if t = ''[]'' then Some (JArray [JObject [(''sipUsername'', JString ''a'')],
       JObject [(''sipUsername'', JString ''b''), (''status'', JString ''disabled'')]]) else None),
     js_dump = (\<lambda>_. Some ''body'')\<rparr>"

definition scan_env :: watcher_env where
  "scan_env = \<lparr>we_json = scan_lib, we_get_documents = (\<lambda>_ _ _. Some ''[]'')\<rparr>"

definition idle_watcher :: "bool list \<Rightarrow> poll list \<Rightarrow> watcher" where
  "idle_watcher opens polls =
     new_watcher \<lparr>ac_host = ''h'', ac_username = ''u'', ac_password = ''p''\<rparr> [] ''r'' ''s'' opens polls"

definition ok_answer :: ari_io where
  "ok_answer = IoReads [unlines [''HTTP/1.1 '' @ dec_string 200 @ '' OK''], crlf]"

definition missing_answer :: ari_io where
  "missing_answer = IoReads [unlines [''HTTP/1.1 '' @ dec_string 404 @ '' No''], crlf]"

lemma sample_answers: "fst (do_request ok_answer) = 200" "fst (do_request missing_answer) = 404"
proof -
  have "fst (do_request (IoReads [unlines [''HTTP/1.1 '' @ dec_string n @ '' '' @ r], crlf])) = int n"
    if "length (dec_string n) \<le> 3" "length r < 10" "CHR 0x0D \<notin> set r" "n < 1000" for n r
  proof -
    have "read_response [] [unlines [''HTTP/1.1 '' @ dec_string n @ '' '' @ r], crlf] =
        Some (unlines [''HTTP/1.1 '' @ dec_string n @ '' '' @ r] @ crlf)"
      using that(1,2) by (simp add: kMaxResponse_def unlines_def crlf_def)
    then show ?thesis
      using parse_response_ok[of n r "[]" "[]"] that by (simp add: do_request_def)
  qed
  from this[of 200 "''OK''"] this[of 404 "''No''"]
  show "fst (do_request ok_answer) = 200" "fst (do_request missing_answer) = 404"
    by (simp_all add: ok_answer_def missing_answer_def dec_string.simps)
qed

definition scan_rows_sample :: "json list" where
  "scan_rows_sample = [JObject [(''sipUsername'', JString ''a'')],
     JObject [(''sipUsername'', JString ''b''), (''status'', JString ''disabled'')]]"

definition scanning_watcher :: watcher where
  "scanning_watcher = (idle_watcher [] [])\<lparr>ar_io := [IoFail, ok_answer, ok_answer, missing_answer, IoFail, ok_answer]\<rparr>"

theorem full_scan_materialises_witness:
  "fold serve (answered (drop (length (ar_log scanning_watcher)) (ar_log (snd (run_full_scan scan_env scanning_watcher))))
     (ar_io scanning_watcher)) (\<lambda>_. Some ''old'') (''aor'', ''a'') = Some ''body''"
proof -
  let ?s = scanning_watcher and ?u = "''a''"
  let ?calls = "answered (drop (length (ar_log ?s)) (ar_log (snd (run_full_scan scan_env ?s)))) (ar_io ?s)"
  have lib: "js_dump scan_lib j = Some ''body''" "js_parse scan_lib ''[]'' = Some (JArray scan_rows_sample)" for j
    by (simp_all add: scan_lib_def scan_rows_sample_def)
  have f: "subscriber_fields (JObject [(''sipUsername'', JString ''a'')]) = Inr (''a'', [], ''active'')"
    "subscriber_fields (JObject [(''sipUsername'', JString ''b''), (''status'', JString ''disabled'')]) = Inr (''b'', [], ''disabled'')"
    by (simp_all add: subscriber_fields_def j_value_def)
  have rows: "list_all (row_ok scan_lib) scan_rows_sample"
    by (simp add: scan_rows_sample_def row_ok_def f printable_def lib)
  have req: "row_requests scan_lib (JObject [(''sipUsername'', JString ''a'')]) = subscriber_requests scan_lib ''a'' ''active''"
    "row_requests scan_lib (JObject [(''sipUsername'', JString ''b''), (''status'', JString ''disabled'')]) =
      subscriber_requests scan_lib ''b'' ''disabled''"
    by (simp_all add: row_requests_def row_user_def f)
  have calls: "?calls = answered (subscriber_requests scan_lib ''a'' ''active'' @ subscriber_requests scan_lib ''b'' ''disabled'')
      [IoFail, ok_answer, ok_answer, missing_answer, IoFail, ok_answer]"
    using scan_rows_trace[OF rows, of ?s]
    by (simp add: run_full_scan_def scan_env_def lib) (simp add: scan_rows_sample_def req scanning_watcher_def)
  have conf: "\<forall>(r, io) \<in> set ?calls. config_object r \<in> {Some (''endpoint'', ?u), Some (''aor'', ?u)} \<longrightarrow> confirmed r io"
    unfolding calls by (simp add: subscriber_requests_def confirmed_def sample_answers is_2xx_def)
  have "\<forall>row \<in> set scan_rows_sample. \<forall>v st. row_user row = Some (v, st) \<longrightarrow> v @ ''-aor'' \<noteq> ?u"
    by (simp add: scan_rows_sample_def row_user_def f)
  moreover have "scan_status scan_rows_sample ?u None = Some True"
    by (simp add: scan_rows_sample_def row_status_def f)
  moreover have "aor_body scan_lib = Some ''body''" by (simp add: aor_body_def make_fields_body_def lib)
  ultimately show ?thesis
    using full_scan_materialises[of scan_env ?s "''[]''" scan_rows_sample, OF _ _ _ _ refl store_run_serve conf]
    by (simp add: scan_env_def lib rows)
qed

text \<open>
  a deletion event, which names only the id of the document, removes the endpoint of the user
  that the cache holds for that id, and forgets the id.
\<close>

theorem deletion_removes_endpoint:
  assumes "js_parse lib ev = Some e" and "j_get_string e ''operationType'' = Some ''delete''"
    and "j_get e ''_id'' = Some token" and "js_dump lib token = Some t"
    and "j_get_object e ''documentKey'' = Some dk" and "j_get dk ''_id'' = Some n" and "oid_str lib n = Inr i"
    and "um_find (sw_id_to_sipuser s) i = Some u" and "u \<noteq> []"
  shows "fst (handle_event lib ev s) = None \<and>
    requested_config (ar_log (snd (handle_event lib ev s))) (''endpoint'', u) = None \<and>
    um_find (sw_id_to_sipuser (snd (handle_event lib ev s))) i = None \<and>
    sw_resume_token (snd (handle_event lib ev s)) = t"
  using delete_deprovisions[OF assms(1,2) _ assms(5-9)] handle_event_token[OF assms(1), of s] assms(3,4) by simp

definition delete_lib :: json_lib where
  "delete_lib = \<lparr>js_parse = (\<lambda>_. Some (JObject [(''_id'', JString ''t''), (''operationType'', JString ''delete''),
       (''documentKey'', JObject [(''_id'', JObject [(''$oid'', JString ''7'')])])])), js_dump = (\<lambda>_. Some ''tok'')\<rparr>"

theorem deletion_removes_endpoint_witness:
  "um_find (sw_id_to_sipuser (snd (handle_event delete_lib ''e'' ((idle_watcher [] [])\<lparr>sw_id_to_sipuser := [(''7'', ''a'')]\<rparr>)))) ''7'' = None"
  using deletion_removes_endpoint[of delete_lib "''e''" "JObject [(''_id'', JString ''t''), (''operationType'', JString ''delete''),
       (''documentKey'', JObject [(''_id'', JObject [(''$oid'', JString ''7'')])])]" "JString ''t''" "''tok''"
       "JObject [(''_id'', JObject [(''$oid'', JString ''7'')])]" "JObject [(''$oid'', JString ''7'')]" "''7''"
       "(idle_watcher [] [])\<lparr>sw_id_to_sipuser := [(''7'', ''a'')]\<rparr>" "''a''"]
  by (simp add: delete_lib_def j_get_string_def j_get_object_def oid_str_def)

text \<open>
  with a live cursor the events of the change stream are applied in the order they arrive, one
  per tick, and none is skipped when an earlier one throws.
\<close>

theorem change_events_in_order:
  assumes "sw_stream s" and "sw_polls s = map PollEvent evs @ ps" and "[] \<notin> set evs"
  shows "watcher_ticks env (length evs) s =
    fold (\<lambda>ev t. snd (handle_event (we_json env) ev t)) evs (s\<lparr>sw_polls := ps\<rparr>)"
  using assms by (rule live_ticks)

theorem change_events_in_order_witness:
  "watcher_ticks scan_env 2 ((idle_watcher [] [PollEvent ''x'', PollEvent ''y''])\<lparr>sw_stream := True\<rparr>) =
     snd (handle_event scan_lib ''y'' (snd (handle_event scan_lib ''x'' ((idle_watcher [] [])\<lparr>sw_stream := True\<rparr>))))"
  using change_events_in_order[of "(idle_watcher [] [PollEvent ''x'', PollEvent ''y''])\<lparr>sw_stream := True\<rparr>" "[''x'', ''y'']" "[]" scan_env]
  by (simp add: idle_watcher_def new_watcher_def scan_env_def numeral_2_eq_2)

text \<open>
  While the database refuses a cursor, a reopening is attempted on every sixth tick only, and
  always with the token of the last event: when that token is no longer accepted the watcher never
  falls back to a fresh cursor.
\<close>

theorem refused_reopen_cadence:
  assumes "\<not> sw_stream s" and "sw_reopen_skip_ticks s = 0" and "\<forall>b \<in> set (sw_opens s). \<not> b"
  shows "sw_watch_log (watcher_ticks env n s) = sw_watch_log s @ replicate ((n + 5) div 6) (sw_resume_token s) \<and>
    \<not> sw_stream (watcher_ticks env n s)"
  using assms by (rule refused_ticks)

theorem refused_reopen_cadence_witness:
  "sw_watch_log (watcher_ticks scan_env 13 ((idle_watcher [] [])\<lparr>sw_resume_token := ''t''\<rparr>)) = [''t'', ''t'', ''t'']"
proof -
  have "replicate ((13 + 5) div 6) ''t'' = [''t'', ''t'', ''t'']" by (simp add: numeral_3_eq_3)
  then show ?thesis
    using refused_reopen_cadence[of "(idle_watcher [] [])\<lparr>sw_resume_token := ''t''\<rparr>" scan_env 13]
    by (simp add: idle_watcher_def new_watcher_def del: watcher_ticks.simps)
qed

end
