(* ===== verification/Cpp_Effect.thy ===== *)
theory Cpp_Effect
  imports Cpp_String
begin

text \<open>
  Effectful C++ code as state transformers.  A computation ends in one of three ways: it delivers a
  value, it lets an exception escape, or it does not return; in each case it leaves a state behind.
  \<^verbatim>\<open>eff_bind\<close> is sequencing and \<^verbatim>\<open>eff_catch\<close> is \<^verbatim>\<open>try { .. } catch (...) { .. }\<close>.
\<close>

named_theorems effect_intros \<open>what a composed computation guarantees, from its parts\<close>

datatype 'a result = Done 'a | Thrown cpp_exn | Hangs

type_synonym ('s, 'a) effect = "'s \<Rightarrow> 'a result \<times> 's"

definition eff_return :: "'a \<Rightarrow> ('s, 'a) effect" where
  "eff_return v s = (Done v, s)"

definition eff_throw :: "cpp_exn \<Rightarrow> ('s, 'a) effect" where
  "eff_throw e s = (Thrown e, s)"

definition eff_bind :: "('s, 'a) effect \<Rightarrow> ('a \<Rightarrow> ('s, 'b) effect) \<Rightarrow> ('s, 'b) effect" where
  "eff_bind m k s =
     (case m s of
        (Done v, s') \<Rightarrow> k v s'
      | (Thrown e, s') \<Rightarrow> (Thrown e, s')
      | (Hangs, s') \<Rightarrow> (Hangs, s'))"

definition eff_catch :: "('s, 'a) effect \<Rightarrow> ('s, 'a) effect \<Rightarrow> ('s, 'a) effect" where
  "eff_catch m h s = (case m s of (Thrown e, s') \<Rightarrow> h s' | r \<Rightarrow> r)"

text \<open>\<^verbatim>\<open>catch (const std::exception &e)\<close>, where the handler looks at the exception.\<close>

definition eff_catch_with :: "('s, 'a) effect \<Rightarrow> (cpp_exn \<Rightarrow> ('s, 'a) effect) \<Rightarrow> ('s, 'a) effect" where
  "eff_catch_with m h s = (case m s of (Thrown e, s') \<Rightarrow> h e s' | r \<Rightarrow> r)"

text \<open>A value computed without effects, and one that may be missing because a library call threw.\<close>

definition eff_result :: "'a result \<Rightarrow> ('s, 'a) effect" where
  "eff_result r s = (r, s)"

definition eff_sum :: "cpp_exn + 'a \<Rightarrow> ('s, 'a) effect" where
  "eff_sum r = (case r of Inl e \<Rightarrow> eff_throw e | Inr v \<Rightarrow> eff_return v)"

definition eff_option :: "cpp_exn \<Rightarrow> 'a option \<Rightarrow> ('s, 'a) effect" where
  "eff_option e r = (case r of None \<Rightarrow> eff_throw e | Some v \<Rightarrow> eff_return v)"

definition result_bind :: "'a result \<Rightarrow> ('a \<Rightarrow> 'b result) \<Rightarrow> 'b result" where
  "result_bind r k = (case r of Done v \<Rightarrow> k v | Thrown e \<Rightarrow> Thrown e | Hangs \<Rightarrow> Hangs)"

definition result_of :: "cpp_exn + 'a \<Rightarrow> 'a result" where
  "result_of r = (case r of Inl e \<Rightarrow> Thrown e | Inr v \<Rightarrow> Done v)"

lemma result_bind_simps [simp]:
  "result_bind (Done v) k = k v" "result_bind (Thrown e) k = Thrown e" "result_bind Hangs k = Hangs"
  by (simp_all add: result_bind_def)

lemma result_of_simps [simp]: "result_of (Inr v) = Done v" "result_of (Inl e) = Thrown e"
  by (simp_all add: result_of_def)

section \<open>Inversion: how a sequence can have delivered its value\<close>

lemma eff_bind_Done:
  "eff_bind m k s = (Done w, s') \<longleftrightarrow> (\<exists>v t. m s = (Done v, t) \<and> k v t = (Done w, s'))"
  by (auto simp: eff_bind_def split: prod.splits result.splits)

lemma eff_bindE:
  assumes "eff_bind m k s = (Done w, s')"
  obtains v t where "m s = (Done v, t)" and "k v t = (Done w, s')"
  using assms by (auto simp: eff_bind_Done)

lemma eff_bind_step [simp]: "m s = (Done v, t) \<Longrightarrow> eff_bind m k s = k v t"
  by (simp add: eff_bind_def)

lemma eff_bind_Thrown [simp]: "m s = (Thrown e, t) \<Longrightarrow> eff_bind m k s = (Thrown e, t)"
  by (simp add: eff_bind_def)

lemma eff_catch_Done [simp]: "m s = (Done v, t) \<Longrightarrow> eff_catch m h s = (Done v, t)"
  by (simp add: eff_catch_def)

lemma eff_catch_Thrown [simp]: "m s = (Thrown e, t) \<Longrightarrow> eff_catch m h s = h t"
  by (simp add: eff_catch_def)

lemma eff_catch_with_step [simp]:
  "m s = (Done v, t) \<Longrightarrow> eff_catch_with m g s = (Done v, t)"
  "m s = (Thrown e, t) \<Longrightarrow> eff_catch_with m g s = g e t"
  by (simp_all add: eff_catch_with_def)

lemma eff_return_Done [simp]: "eff_return v s = (Done w, s') \<longleftrightarrow> w = v \<and> s' = s"
  by (auto simp: eff_return_def)

lemma eff_bind_return:
  "eff_bind (eff_bind m (\<lambda>v. eff_return (f v))) (\<lambda>w. eff_return (g w)) = eff_bind m (\<lambda>v. eff_return (g (f v)))"
  by (rule ext) (auto simp: eff_bind_def eff_return_def split: prod.splits result.splits)

lemma eff_throw_Done [simp]: "eff_throw e s \<noteq> (Done w, s')"
  by (simp add: eff_throw_def)

lemma eff_sum_Done [simp]: "eff_sum r s = (Done w, s') \<longleftrightarrow> r = Inr w \<and> s' = s"
  by (auto simp: eff_sum_def eff_throw_def eff_return_def split: sum.splits)

lemma eff_option_Done [simp]: "eff_option e r s = (Done w, s') \<longleftrightarrow> r = Some w \<and> s' = s"
  by (auto simp: eff_option_def eff_throw_def eff_return_def split: option.splits)

lemma eff_result_Done [simp]: "eff_result r s = (Done w, s') \<longleftrightarrow> r = Done w \<and> s' = s"
  by (auto simp: eff_result_def)

section \<open>What a computation appends to a log\<close>

text \<open>
  \<^verbatim>\<open>logs_only lg A m\<close>: from every state, \<^verbatim>\<open>m\<close> extends the log \<^verbatim>\<open>lg\<close>, and every entry it adds satisfies \<^verbatim>\<open>A\<close>,
  however it ends.
\<close>

definition logs_only :: "('s \<Rightarrow> 'e list) \<Rightarrow> ('e \<Rightarrow> bool) \<Rightarrow> ('s, 'a) effect \<Rightarrow> bool" where
  "logs_only lg A m \<longleftrightarrow> (\<forall>s. \<exists>l. lg (snd (m s)) = lg s @ l \<and> list_all A l)"

lemma logs_only_return [effect_intros]: "logs_only lg A (eff_return v)"
  by (simp add: logs_only_def eff_return_def)

lemma logs_only_throw [effect_intros]: "logs_only lg A (eff_throw e)"
  by (simp add: logs_only_def eff_throw_def)

lemma logs_only_result [effect_intros]: "logs_only lg A (eff_result r)"
  by (simp add: logs_only_def eff_result_def)

lemma logs_only_sum [effect_intros]: "logs_only lg A (eff_sum r)"
  by (cases r) (simp_all add: eff_sum_def logs_only_return logs_only_throw)

lemma logs_only_option [effect_intros]: "logs_only lg A (eff_option e r)"
  by (cases r) (simp_all add: eff_option_def logs_only_return logs_only_throw)

lemma logs_only_append:
  assumes "lg t = lg s @ l" and "list_all A l" and "logs_only lg A m"
  shows "\<exists>l. lg (snd (m t)) = lg s @ l \<and> list_all A l"
proof -
  obtain l' where "lg (snd (m t)) = lg t @ l'" "list_all A l'" using assms(3) by (auto simp: logs_only_def)
  with assms(1,2) show ?thesis by (intro exI[of _ "l @ l'"]) simp
qed

lemma logs_only_bind [effect_intros]:
  assumes m: "logs_only lg A m" and k: "\<And>v. logs_only lg A (k v)"
  shows "logs_only lg A (eff_bind m k)"
  unfolding logs_only_def
proof
  fix s
  obtain l where l: "lg (snd (m s)) = lg s @ l" "list_all A l" using m by (auto simp: logs_only_def)
  obtain r t where r: "m s = (r, t)" by (cases "m s")
  show "\<exists>l. lg (snd (eff_bind m k s)) = lg s @ l \<and> list_all A l"
    using l logs_only_append[OF _ _ k] by (cases r) (auto simp: r eff_bind_def)
qed

lemma logs_only_catch [effect_intros]:
  assumes m: "logs_only lg A m" and h: "logs_only lg A h"
  shows "logs_only lg A (eff_catch m h)"
  unfolding logs_only_def
proof
  fix s
  obtain l where l: "lg (snd (m s)) = lg s @ l" "list_all A l" using m by (auto simp: logs_only_def)
  obtain r t where r: "m s = (r, t)" by (cases "m s")
  show "\<exists>l. lg (snd (eff_catch m h s)) = lg s @ l \<and> list_all A l"
    using l logs_only_append[OF _ _ h] by (cases r) (auto simp: r eff_catch_def)
qed

lemma logs_only_if [effect_intros]:
  "(b \<Longrightarrow> logs_only lg A m) \<Longrightarrow> (\<not> b \<Longrightarrow> logs_only lg A m') \<Longrightarrow> logs_only lg A (if b then m else m')"
  by simp

lemma logs_only_let [effect_intros]: "(\<And>v. logs_only lg A (k v)) \<Longrightarrow> logs_only lg A (let v = e in k v)"
  by simp

lemma logs_only_case_option [effect_intros]:
  "(r = None \<Longrightarrow> logs_only lg A n) \<Longrightarrow> (\<And>v. r = Some v \<Longrightarrow> logs_only lg A (k v)) \<Longrightarrow>
     logs_only lg A (case r of None \<Rightarrow> n | Some v \<Rightarrow> k v)"
  by (cases r) auto

lemma logs_only_case_prod [effect_intros]:
  "(\<And>a b. logs_only lg A (k a b)) \<Longrightarrow> logs_only lg A (case p of (a, b) \<Rightarrow> k a b)"
  by (cases p) simp

lemma logs_only_mono: "logs_only lg A m \<Longrightarrow> (\<And>e. A e \<Longrightarrow> B e) \<Longrightarrow> logs_only lg B m"
  unfolding logs_only_def by (metis list_all_iff)

text \<open>An entry that is new in the log satisfies the predicate.\<close>

lemma logs_only_entry:
  assumes "logs_only lg A m" and "lg (snd (m s)) = lg s @ l" and "e \<in> set l"
  shows "A e"
proof -
  obtain l' where "lg (snd (m s)) = lg s @ l'" "list_all A l'" using assms(1) by (auto simp: logs_only_def)
  with assms(2,3) show ?thesis by (simp add: list_all_iff)
qed

section \<open>What a computation leaves alone\<close>

definition eff_keeps :: "('s \<Rightarrow> 'p) \<Rightarrow> ('s, 'a) effect \<Rightarrow> bool" where
  "eff_keeps f m \<longleftrightarrow> (\<forall>s. f (snd (m s)) = f s)"

lemma eff_keepsD: "eff_keeps f m \<Longrightarrow> m s = (r, t) \<Longrightarrow> f t = f s"
  unfolding eff_keeps_def by (metis snd_conv)

lemma eff_keeps_pure [effect_intros]:
  "eff_keeps f (eff_return v)" "eff_keeps f (eff_throw e)" "eff_keeps f (eff_result r)" "eff_keeps f (eff_sum q)"
  "eff_keeps f (eff_option e ov)"
  by (auto simp: eff_keeps_def eff_return_def eff_throw_def eff_result_def eff_sum_def eff_option_def
      split: sum.splits option.splits)

lemma eff_keeps_bind [effect_intros]:
  assumes "eff_keeps f m" and "\<And>v. eff_keeps f (k v)"
  shows "eff_keeps f (eff_bind m k)"
proof -
  have "f (snd (eff_bind m k s)) = f s" for s
  proof -
    obtain r t where r: "m s = (r, t)" by (cases "m s")
    show ?thesis
      using r eff_keepsD[OF assms(1) r] assms(2) by (cases r) (auto simp: eff_bind_def eff_keeps_def)
  qed
  then show ?thesis by (simp add: eff_keeps_def)
qed

lemma eff_keeps_catch [effect_intros]:
  assumes "eff_keeps f m" and "eff_keeps f h"
  shows "eff_keeps f (eff_catch m h)"
proof -
  have "f (snd (eff_catch m h s)) = f s" for s
  proof -
    obtain r t where r: "m s = (r, t)" by (cases "m s")
    show ?thesis
      using r eff_keepsD[OF assms(1) r] assms(2) by (cases r) (auto simp: eff_catch_def eff_keeps_def)
  qed
  then show ?thesis by (simp add: eff_keeps_def)
qed

lemma eff_keeps_catch_with [effect_intros]:
  assumes "eff_keeps f m" and "\<And>e. eff_keeps f (h e)"
  shows "eff_keeps f (eff_catch_with m h)"
proof -
  have "f (snd (eff_catch_with m h s)) = f s" for s
  proof -
    obtain r t where r: "m s = (r, t)" by (cases "m s")
    show ?thesis
      using r eff_keepsD[OF assms(1) r] assms(2) by (cases r) (auto simp: eff_catch_with_def eff_keeps_def)
  qed
  then show ?thesis by (simp add: eff_keeps_def)
qed

lemma eff_keeps_split [effect_intros]:
  "(b \<Longrightarrow> eff_keeps f m) \<Longrightarrow> (\<not> b \<Longrightarrow> eff_keeps f m') \<Longrightarrow> eff_keeps f (if b then m else m')"
  "(r = None \<Longrightarrow> eff_keeps f n) \<Longrightarrow> (\<And>v. r = Some v \<Longrightarrow> eff_keeps f (k v)) \<Longrightarrow>
     eff_keeps f (case r of None \<Rightarrow> n | Some v \<Rightarrow> k v)"
  by (auto split: option.splits)

end
