(* ===== verification/Http_Parser.thy ===== *)
theory Http_Parser
  imports Cpp_Effect
begin

text \<open>
  The HTTP/1.1 parser: \<^verbatim>\<open>MessageParser\<close> (\<^verbatim>\<open>message_parser.cpp\<close>: the header map shared with the SIP
  parser) and \<^verbatim>\<open>Http\<close> (\<^verbatim>\<open>http_parser.cpp\<close>: request line, query string, body framing).  Positions are
  natural numbers; the sums the code forms with a number taken from the message are 64-bit words,
  since they can wrap.  zlib is a parameter.  Buffers are shorter than \<open>2\<^sup>6\<^sup>4\<close> bytes.
\<close>

named_theorems http_simps \<open>the parts of a parsed message\<close>

section \<open>MessageParser\<close>

definition str_to_lower :: "string \<Rightarrow> string" where
  "str_to_lower s = map to_lower s"

definition sum_cons :: "char \<Rightarrow> cpp_exn + string \<Rightarrow> cpp_exn + string" where
  "sum_cons c r = (case r of Inl e \<Rightarrow> Inl e | Inr s \<Rightarrow> Inr (c # s))"

function pct_decode :: "string \<Rightarrow> cpp_exn + string" where
  "pct_decode [] = Inr []"
| "pct_decode (c # cs) =
     (if c = CHR ''+'' then sum_cons (CHR '' '') (pct_decode cs)
      else if c = CHR ''%'' \<and> 2 \<le> length cs then
        (case stoi_hex (take 2 cs) of
           Inl e \<Rightarrow> Inl e
         | Inr v \<Rightarrow> sum_cons (char_of (nat (v mod 256))) (pct_decode (drop 2 cs)))
      else sum_cons c (pct_decode cs))"
  by pat_completeness auto
termination by (relation "measure length") auto

record message_parser =
  m_tokenMap :: "(string, string) umap"
  m_header :: string
  m_body :: string

definition extract_header :: "string \<Rightarrow> string" where
  "extract_header inp =
     (case str_find inp (crlf @ crlf) of Some offset \<Rightarrow> take (offset + 4) inp | None \<Rightarrow> inp)"

definition add_element :: "string \<Rightarrow> string \<Rightarrow> 'a message_parser_scheme \<Rightarrow> 'a message_parser_scheme" where
  "add_element key value p = p\<lparr>m_tokenMap := um_emplace (str_to_lower key) value (m_tokenMap p)\<rparr>"

definition get_element :: "'a message_parser_scheme \<Rightarrow> string \<Rightarrow> string" where
  "get_element p key =
     (case um_find (m_tokenMap p) (str_to_lower key) of Some v \<Rightarrow> v | None \<Rightarrow> [])"

text \<open>The header loop that \<^verbatim>\<open>parse_mime_header\<close> and \<^verbatim>\<open>message_length\<close> both contain.\<close>

definition chomp :: "string \<Rightarrow> string" where
  "chomp l = (if l \<noteq> [] \<and> last l = CHR 0x0D then butlast l else l)"

fun header_lines :: "string list \<Rightarrow> string list" where
  "header_lines [] = []"
| "header_lines (l # ls) = (if chomp l = [] then [] else chomp l # header_lines ls)"

definition header_pair :: "string \<Rightarrow> (string \<times> string) option" where
  "header_pair l =
     (case str_find l '':'' of
        None \<Rightarrow> None
      | Some colon \<Rightarrow> Some (take colon l, if colon + 2 \<le> length l then drop (colon + 2) l else []))"

definition header_pairs :: "string \<Rightarrow> (string \<times> string) list" where
  "header_pairs inp = List.map_filter header_pair (header_lines (tl (getline_split (CHR 0x0A) inp)))"

definition parse_mime_header :: "string \<Rightarrow> 'a message_parser_scheme \<Rightarrow> 'a message_parser_scheme" where
  "parse_mime_header inp p = fold (\<lambda>(k, v). add_element k v) (header_pairs inp) p"

section \<open>Http: body encodings\<close>

definition upto_semi :: "string \<Rightarrow> string" where
  "upto_semi s = (case str_find s '';'' of Some e \<Rightarrow> take e s | None \<Rightarrow> s)"

text \<open>
  The loop of \<^verbatim>\<open>decode_chunked\<close>; \<^term>\<open>None\<close> is not returning.  \<^verbatim>\<open>append(in, pos, n)\<close> clamps \<^verbatim>\<open>n\<close> to
  the end of the input.
\<close>

partial_function (option) decode_chunked_from :: "string \<Rightarrow> nat \<Rightarrow> string \<Rightarrow> string option" where
  "decode_chunked_from inp pos out =
     (if pos < length inp then
        (case str_find_from inp crlf pos of
           None \<Rightarrow> Some out
         | Some e \<Rightarrow>
             (case stoul_hex (upto_semi (substr inp pos (e - pos))) of
                Inl _ \<Rightarrow> Some out
              | Inr chunk_size \<Rightarrow>
                  (if chunk_size = 0 then Some out
                   else if length inp < unat (of_nat (e + 2) + chunk_size) then Some out
                   else decode_chunked_from inp (unat (of_nat (e + 2) + chunk_size + 2))
                          (out @ substr inp (e + 2) (unat chunk_size)))))
      else Some out)"

definition decode_chunked :: "string \<Rightarrow> string option" where
  "decode_chunked inp = decode_chunked_from inp 0 []"

definition strip_tail :: "string \<Rightarrow> string" where
  "strip_tail b = rev (dropWhile (\<lambda>c. c \<in> {CHR '' '', CHR 0x0D, CHR 0x0A}) (rev b))"

definition multipart_boundary :: "string \<Rightarrow> string" where
  "multipart_boundary ct =
     (if \<not> str_contains ct ''multipart/form-data'' then []
      else case str_find ct ''boundary='' of
             None \<Rightarrow> []
           | Some pos \<Rightarrow> strip_tail (upto_semi (drop (pos + 9) ct)))"

text \<open>Where a multipart body ends: after the closing boundary and the line break that may follow it.\<close>

definition multipart_end :: "string \<Rightarrow> string \<Rightarrow> nat \<Rightarrow> nat option" where
  "multipart_end buf boundary from =
     (let terminal = ''--'' @ boundary @ ''--''
      in case str_find_from buf terminal from of
           None \<Rightarrow> None
         | Some e \<Rightarrow>
             (let en = e + length terminal
              in Some (if en + 2 \<le> length buf \<and> buf ! en = CHR 0x0D \<and> buf ! (en + 1) = CHR 0x0A
                       then en + 2 else en)))"

section \<open>Http: the request line\<close>

record http = message_parser +
  m_uriName :: string
  m_method :: string

definition new_http :: http where
  "new_http = \<lparr>m_tokenMap = [], m_header = [], m_body = [], m_uriName = [], m_method = []\<rparr>"

text \<open>\<^verbatim>\<open>rfind(c)\<close>.\<close>

definition str_rfind_char :: "string \<Rightarrow> char \<Rightarrow> nat option" where
  "str_rfind_char s c =
     (case str_find (rev s) [c] of None \<Rightarrow> None | Some i \<Rightarrow> Some (length s - Suc i))"

text \<open>One token of the query string, and all of them.\<close>

definition query_token :: "string \<Rightarrow> http \<Rightarrow> cpp_exn + http" where
  "query_token token p =
     (case str_find token ''='' of
        None \<Rightarrow> Inr p
      | Some eq \<Rightarrow>
          (case (pct_decode (take eq token), pct_decode (drop (eq + 1) token)) of
             (Inl e, _) \<Rightarrow> Inl e
           | (_, Inl e) \<Rightarrow> Inl e
           | (Inr k, Inr v) \<Rightarrow> Inr (add_element k v p)))"

fun query_tokens :: "string list \<Rightarrow> http \<Rightarrow> cpp_exn + http" where
  "query_tokens [] p = Inr p"
| "query_tokens (t # ts) p = (case query_token t p of Inl e \<Rightarrow> Inl e | Inr p' \<Rightarrow> query_tokens ts p')"

definition parse_uri :: "string \<Rightarrow> http \<Rightarrow> cpp_exn + http" where
  "parse_uri inp p =
     (let req = (case str_find inp crlf of Some i \<Rightarrow> take i inp | None \<Rightarrow> inp)
      in case (str_find req '' '', str_rfind_char req (CHR '' '')) of
           (Some first_sp, Some last_sp) \<Rightarrow>
             (let p1 = p\<lparr>m_method := take first_sp req\<rparr>;
                  uri_part = (if last_sp > first_sp then substr req (first_sp + 1) (last_sp - first_sp - 1)
                              else drop (first_sp + 1) req)
              in case str_find uri_part ''?'' of
                   None \<Rightarrow>
                     (case pct_decode uri_part of Inl e \<Rightarrow> Inl e | Inr u \<Rightarrow> Inr (p1\<lparr>m_uriName := u\<rparr>))
                 | Some q \<Rightarrow>
                     (case pct_decode (take q uri_part) of
                        Inl e \<Rightarrow> Inl e
                      | Inr u \<Rightarrow>
                          query_tokens (getline_split (CHR ''&'') (drop (q + 1) uri_part))
                            (p1\<lparr>m_uriName := u\<rparr>)))
         | _ \<Rightarrow> Inr p)"

section \<open>Http: framing and body\<close>

definition last_value :: "string \<Rightarrow> (string \<times> string) list \<Rightarrow> string" where
  "last_value key ps = fold (\<lambda>(k, v) acc. if k = key then v else acc) ps []"

definition message_length :: "string \<Rightarrow> u64" where
  "message_length buf =
     (case str_find buf (crlf @ crlf) of
        None \<Rightarrow> 0
      | Some sep_pos \<Rightarrow>
          (let header_len = sep_pos + 4;
               ps = header_pairs (take header_len buf);
               te = last_value ''Transfer-Encoding'' ps;
               cl = last_value ''Content-Length'' ps;
               ct = last_value ''Content-Type'' ps
           in if te = ''chunked'' then
                (case str_find_from buf (''0'' @ crlf @ crlf) header_len of
                   None \<Rightarrow> 0
                 | Some e \<Rightarrow> of_nat (e + 5))
              else if cl \<noteq> [] then
                (case stoul cl of Inl _ \<Rightarrow> 0 | Inr n \<Rightarrow> of_nat header_len + n)
              else if multipart_boundary ct \<noteq> [] then
                (case multipart_end buf (multipart_boundary ct) header_len of
                   None \<Rightarrow> 0
                 | Some e \<Rightarrow> of_nat e)
              else of_nat header_len))"

text \<open>
  \<^verbatim>\<open>zlib in encoding\<close> is the inflated text, empty when inflating fails.
\<close>

definition get_body :: "(string \<Rightarrow> string \<Rightarrow> string) \<Rightarrow> string \<Rightarrow> http \<Rightarrow> string result" where
  "get_body zlib inp p =
     (let te = get_element p ''Transfer-Encoding''; ce = get_element p ''Content-Encoding'';
          cl = get_element p ''Content-Length''; ct = get_element p ''Content-Type'';
          body_offset = length (m_header p);
          raw =
            (if te = ''chunked'' then
               (case decode_chunked (drop body_offset inp) of None \<Rightarrow> Hangs | Some b \<Rightarrow> Done b)
             else if cl \<noteq> [] then
               (if body_offset > 0 then
                  result_bind (result_of (stoul cl)) (\<lambda>n. Done (substr inp body_offset (unat n)))
                else Done [])
             else if multipart_boundary ct \<noteq> [] then
               (case multipart_end inp (multipart_boundary ct) body_offset of
                  None \<Rightarrow> Done []
                | Some e \<Rightarrow> Done (substr inp body_offset (e - body_offset)))
             else Done [])
      in result_bind raw (\<lambda>raw.
           Done (if raw \<noteq> [] \<and> (ce = ''gzip'' \<or> ce = ''deflate'') then zlib raw ce else raw)))"

text \<open>The constructor \<^verbatim>\<open>Http(in)\<close>.\<close>

definition Http :: "(string \<Rightarrow> string \<Rightarrow> string) \<Rightarrow> string \<Rightarrow> http result" where
  "Http zlib inp =
     (let p0 = new_http\<lparr>m_header := extract_header inp\<rparr>
      in result_bind
           (if m_header p0 \<noteq> []
            then result_bind (result_of (parse_uri (m_header p0) p0)) (\<lambda>p. Done (parse_mime_header (m_header p0) p))
            else Done p0)
           (\<lambda>p. result_bind (get_body zlib inp p) (\<lambda>b. Done (p\<lparr>m_body := b\<rparr>))))"

end
