(* ===== verification/Http_Framing.thy ===== *)
theory Http_Framing
  imports Http_Parser Ari_Rest
begin

text \<open>
  What the HTTP parser makes of a well-formed message.  \<^verbatim>\<open>print_request\<close> is the abstract
  specification: the text of a request with a percent-encoded path and query, a list of headers and a
  body.  The parser inverts it, and \<^verbatim>\<open>message_length\<close> finds its end in front of whatever follows.
\<close>

section \<open>Percent decoding inverts the client's encoding\<close>

lemma xdigit_val_hex_digit: "d < 16 \<Longrightarrow> xdigit_val (hex_digit d) = d"
  by (auto simp: hex_digit_def xdigit_val_def Let_def)

lemma is_xdigit_hex_digit: "d < 16 \<Longrightarrow> is_xdigit (hex_digit d)"
  by (auto simp: hex_digit_def is_xdigit_def Let_def)

lemma num_sign_xdigit: "is_xdigit c \<Longrightarrow> num_sign (c # cs) = (False, c # cs)"
  by (auto simp: num_sign_def is_xdigit_def is_space_def Let_def)

lemma stoi_hex_pair:
  assumes "n < 256"
  shows "stoi_hex [hex_digit (n div 16), hex_digit (n mod 16)] = Inr (int n)"
proof -
  have d: "n div 16 < 16" "n mod 16 < 16" using assms by auto
  have "hex_val 0 [hex_digit (n div 16), hex_digit (n mod 16)] = n"
    using d by (simp add: xdigit_val_hex_digit)
  then show ?thesis
    using d assms by (simp add: stoi_hex_def num_sign_xdigit is_xdigit_hex_digit hex_digits_def Let_def)
qed

lemma pct_decode_encoded_char:
  "pct_decode (url_encode_char c @ r) = sum_cons c (pct_decode r)"
proof (cases "is_unreserved c")
  case True
  then have "c \<noteq> CHR ''+''" "c \<noteq> CHR ''%''" by (auto simp: is_unreserved_def is_alnum_def)
  with True show ?thesis by (simp add: url_encode_char_def)
next
  case False
  have "nat (int (of_char c) mod 256) = (of_char c :: nat)"
    by (simp add: nat_mod_distrib del: of_nat_of_char)
  with False show ?thesis
    by (simp add: url_encode_char_def stoi_hex_pair del: of_nat_of_char)
qed

lemma pct_decode_url_encode: "pct_decode (url_encode s) = Inr s"
proof (induction s)
  case (Cons c s)
  have "url_encode (c # s) = url_encode_char c @ url_encode s" by (simp add: url_encode_def)
  with Cons show ?case by (simp only: pct_decode_encoded_char) (simp add: sum_cons_def)
qed (simp add: url_encode_def)

lemma url_encode_misses:
  "\<not> is_unreserved x \<Longrightarrow> x \<noteq> CHR ''%'' \<Longrightarrow> x \<notin> set (url_encode s)"
  using url_encode_safe by blast

lemma not_unreserved [simp]:
  "\<not> is_unreserved (CHR ''&'')" "\<not> is_unreserved (CHR ''='')" "\<not> is_unreserved (CHR ''?'')"
  "\<not> is_unreserved (CHR '' '')" "\<not> is_unreserved (CHR 0x0D)" "\<not> is_unreserved (CHR 0x0A)"
  by (simp_all add: is_unreserved_def is_alnum_def)

text \<open>In a path the slashes stay.\<close>

definition path_encode :: "string \<Rightarrow> string" where
  "path_encode s = concat (map (\<lambda>c. if c = CHR ''/'' then [c] else url_encode_char c) s)"

lemma path_encode_append: "path_encode (a @ b) = path_encode a @ path_encode b"
  by (simp add: path_encode_def)

lemma path_encode_plain: "list_all (\<lambda>c. is_unreserved c \<or> c = CHR ''/'') s \<Longrightarrow> path_encode s = s"
  by (induction s) (auto simp: path_encode_def url_encode_char_def)

lemma pct_decode_path_encode: "pct_decode (path_encode s) = Inr s"
proof (induction s)
  case (Cons c s)
  have "path_encode (c # s) = (if c = CHR ''/'' then [c] else url_encode_char c) @ path_encode s"
    by (simp add: path_encode_def)
  moreover have "pct_decode (CHR ''/'' # path_encode s) = sum_cons (CHR ''/'') (pct_decode (path_encode s))" by simp
  ultimately show ?case using Cons by (auto simp: pct_decode_encoded_char sum_cons_def simp del: pct_decode.simps)
qed (simp add: path_encode_def)

lemma path_encode_misses:
  "\<not> is_unreserved x \<Longrightarrow> x \<notin> {CHR ''%'', CHR ''/''} \<Longrightarrow> x \<notin> set (path_encode s)"
  using url_encode_misses[of x "[c]" for c]
  by (induction s) (auto simp: path_encode_def url_encode_def split: if_splits)

section \<open>Printing a request\<close>

definition print_pair :: "string \<times> string \<Rightarrow> string" where
  "print_pair kv = url_encode (fst kv) @ ''='' @ url_encode (snd kv)"

fun print_query :: "(string \<times> string) list \<Rightarrow> string" where
  "print_query [] = []"
| "print_query [kv] = print_pair kv"
| "print_query (kv # kvs) = print_pair kv @ ''&'' @ print_query kvs"

definition print_target :: "string \<Rightarrow> (string \<times> string) list \<Rightarrow> string" where
  "print_target path qs = path_encode path @ (if qs = [] then [] else ''?'' @ print_query qs)"

definition print_header :: "string \<times> string \<Rightarrow> string" where
  "print_header kv = fst kv @ '': '' @ snd kv"

definition print_request ::
  "string \<Rightarrow> string \<Rightarrow> (string \<times> string) list \<Rightarrow> (string \<times> string) list \<Rightarrow> string \<Rightarrow> string" where
  "print_request meth path qs hs body =
     unlines ((meth @ '' '' @ print_target path qs @ '' HTTP/1.1'') # map print_header hs) @ crlf @ body"

definition header_ok :: "string \<times> string \<Rightarrow> bool" where
  "header_ok kv \<longleftrightarrow> set (fst kv) \<inter> {CHR '':'', CHR 0x0D, CHR 0x0A} = {} \<and>
                   set (snd kv) \<inter> {CHR 0x0D, CHR 0x0A} = {}"

definition method_ok :: "string \<Rightarrow> bool" where
  "method_ok m \<longleftrightarrow> set m \<inter> {CHR '' '', CHR 0x0D, CHR 0x0A} = {}"

lemma print_query_misses:
  "\<not> is_unreserved x \<Longrightarrow> x \<notin> {CHR ''%'', CHR ''='', CHR ''&''} \<Longrightarrow> x \<notin> set (print_query qs)"
  by (induction qs rule: print_query.induct) (auto simp: print_pair_def url_encode_misses)

lemma print_target_misses:
  "\<not> is_unreserved x \<Longrightarrow> x \<notin> {CHR ''%'', CHR ''/'', CHR ''='', CHR ''&'', CHR ''?''} \<Longrightarrow> x \<notin> set (print_target path qs)"
  by (auto simp: print_target_def path_encode_misses print_query_misses)

section \<open>The header block\<close>

lemma header_pair_print: "header_ok kv \<Longrightarrow> header_pair (print_header kv) = Some kv"
proof -
  assume "header_ok kv"
  then have "str_find (fst kv @ CHR '':'' # '' '' @ snd kv) '':'' = Some (length (fst kv))"
    by (intro str_find_char_first) (auto simp: header_ok_def)
  then show ?thesis by (simp add: header_pair_def print_header_def)
qed

lemma header_lines_block:
  "\<forall>l \<in> set ls. l \<noteq> [] \<Longrightarrow> header_lines (map (\<lambda>l. l @ [CHR 0x0D]) ls @ [[CHR 0x0D]]) = ls"
  by (induction ls) (simp_all add: chomp_def)

lemma print_header_line: "header_ok kv \<Longrightarrow> line_ok (print_header kv) \<and> CHR 0x0A \<notin> set (print_header kv)"
  by (auto simp: header_ok_def line_ok_def print_header_def)

lemma header_pairs_block:
  assumes "CHR 0x0A \<notin> set l" and "list_all header_ok hs"
  shows "header_pairs (unlines (l # map print_header hs) @ crlf) = hs"
proof -
  let ?cr = "\<lambda>l. l @ [CHR 0x0D]"
  have h: "\<forall>l' \<in> set (map print_header hs). CHR 0x0A \<notin> set l' \<and> l' \<noteq> []"
    using assms(2) print_header_line by (auto simp: list_all_iff line_ok_def)
  have "getline_split (CHR 0x0A) crlf = [[CHR 0x0D]]"
    using getline_split_step[of "CHR 0x0A" "[CHR 0x0D]" "[]"] by (simp add: crlf_def)
  then have "getline_split (CHR 0x0A) (unlines (l # map print_header hs) @ crlf)
      = map ?cr (l # map print_header hs) @ [[CHR 0x0D]]"
    using getline_split_unlines[of "l # map print_header hs" crlf] assms(1) h by simp
  then have "header_pairs (unlines (l # map print_header hs) @ crlf)
      = List.map_filter header_pair (map print_header hs)"
    using header_lines_block[of "map print_header hs"] h by (simp add: header_pairs_def)
  also have "\<dots> = hs"
    using assms(2) by (induction hs) (simp_all add: List.map_filter_simps header_pair_print)
  finally show ?thesis .
qed

lemma unlines_length: "length (unlines (l # ls)) \<ge> 2"
  by (simp add: crlf_def)

text \<open>Any block of lines followed by an empty line is found as the header.\<close>

lemma header_end:
  assumes "list_all line_ok (l # ls)"
  shows "str_find (unlines (l # ls) @ crlf @ r) (crlf @ crlf) = Some (length (unlines (l # ls)) - 2)"
    and "take (length (unlines (l # ls)) - 2 + 4) (unlines (l # ls) @ crlf @ r) = unlines (l # ls) @ crlf"
proof -
  show "str_find (unlines (l # ls) @ crlf @ r) (crlf @ crlf) = Some (length (unlines (l # ls)) - 2)"
    using str_find_blank_line[of "l # ls" r] assms by blast
  have "length (unlines (l # ls)) - 2 + 4 = length (unlines (l # ls) @ crlf)"
    using unlines_length[of l ls] by (simp add: crlf_def)
  then show "take (length (unlines (l # ls)) - 2 + 4) (unlines (l # ls) @ crlf @ r) = unlines (l # ls) @ crlf"
    by (metis append.assoc append_eq_conv_conj)
qed

text \<open>
  The length of a message with a content length, whatever its first line is and whatever follows its
  header.
\<close>

definition counted_headers :: "(string \<times> string) list \<Rightarrow> nat \<Rightarrow> bool" where
  "counted_headers hs n \<longleftrightarrow>
     list_all header_ok hs \<and> last_value ''Transfer-Encoding'' hs \<noteq> ''chunked'' \<and>
     last_value ''Content-Length'' hs = dec_string n \<and> n < 2 ^ 64"

lemma message_length_at:
  assumes sep: "str_find buf (crlf @ crlf) = Some i"
    and blk: "take (i + 4) buf = unlines (l # map print_header hs) @ crlf"
    and l: "CHR 0x0A \<notin> set l" and hs: "counted_headers hs n"
  shows "message_length buf = of_nat (i + 4 + n)"
proof -
  have "header_pairs (take (i + 4) buf) = hs"
    unfolding blk using hs by (intro header_pairs_block[OF l]) (simp add: counted_headers_def)
  moreover have "stoul (dec_string n) = Inr (of_nat n)"
    using hs by (simp add: counted_headers_def stoul_dec_string)
  ultimately show ?thesis
    using sep hs by (simp add: message_length_def Let_def counted_headers_def)
qed

lemma block_lines_ok:
  "line_ok l \<Longrightarrow> list_all header_ok hs \<Longrightarrow> list_all line_ok (l # map print_header hs)"
  using print_header_line by (auto simp: list_all_iff)

lemma message_length_block:
  assumes l: "line_ok l" "CHR 0x0A \<notin> set l" and hs: "counted_headers hs n"
  shows "message_length (unlines (l # map print_header hs) @ crlf @ r) =
           of_nat (length (unlines (l # map print_header hs) @ crlf) + n)"
proof -
  let ?b = "unlines (l # map print_header hs)"
  have ok: "list_all line_ok (l # map print_header hs)"
    using l(1) hs by (intro block_lines_ok) (simp_all add: counted_headers_def)
  have "length ?b - 2 + 4 = length (?b @ crlf)" using unlines_length[of l "map print_header hs"] by (simp add: crlf_def)
  then show ?thesis using message_length_at[OF header_end[OF ok] l(2) hs, of r] by simp
qed

text \<open>A match inside a prefix is the match in the whole text.\<close>

lemma str_find_prefix: "str_find (take n h) needle = Some i \<Longrightarrow> str_find h needle = Some i"
proof -
  assume f: "str_find (take n h) needle = Some i"
  note d = str_find_SomeD[OF f]
  have m: "take (length needle) (drop j h) = take (length needle) (drop j (take n h))"
    if "j + length needle \<le> length (take n h)" for j
    using that by (auto simp: drop_take min_def split: if_splits)
  obtain j where j: "j \<le> i" "str_find h needle = Some j"
    using str_find_exists[of i needle h] d m[of i] by auto
  have "j = i"
  proof (rule ccontr)
    assume "j \<noteq> i"
    with j(1) have "j < i" by simp
    with str_find_least[OF f this] m[of j] d str_find_SomeD[OF j(2)] show False by simp
  qed
  with j show ?thesis by simp
qed

text \<open>
  The ways a request can be delimited that the framing gets right: by a content length written exactly
  \<^verbatim>\<open>Content-Length\<close>; in chunks, when the end mark stands nowhere but at the end; or by the end of the header,
  when there is no body.
\<close>

definition last_chunk :: string where "last_chunk = ''0'' @ crlf @ crlf"

definition delimited :: "(string \<times> string) list \<Rightarrow> string \<Rightarrow> bool" where
  "delimited hs body \<longleftrightarrow>
     list_all header_ok hs \<and>
     (if last_value ''Transfer-Encoding'' hs = ''chunked''
      then str_find body last_chunk = Some (length body - 5)
      else if last_value ''Content-Length'' hs \<noteq> []
      then last_value ''Content-Length'' hs = dec_string (length body) \<and> length body < 2 ^ 64
      else multipart_boundary (last_value ''Content-Type'' hs) = [] \<and> body = [])"

lemma counted_delimited: "counted_headers hs (length body) \<Longrightarrow> delimited hs body"
  by (auto simp: counted_headers_def delimited_def)

lemma message_length_delimited:
  assumes sep: "str_find buf (crlf @ crlf) = Some i"
    and blk: "take (i + 4) buf = unlines (l # map print_header hs) @ crlf"
    and l: "CHR 0x0A \<notin> set l" and hs: "delimited hs body"
  shows "message_length buf =
    (if last_value ''Transfer-Encoding'' hs = ''chunked''
     then (case str_find (drop (i + 4) buf) last_chunk of None \<Rightarrow> 0 | Some e \<Rightarrow> of_nat (i + 4 + e + 5))
     else of_nat (i + 4 + length body))"
proof -
  have ps: "header_pairs (take (i + 4) buf) = hs"
    unfolding blk using hs by (intro header_pairs_block[OF l]) (simp add: delimited_def)
  have "i + 4 \<le> length buf" using arg_cong[OF blk, of length] str_find_SomeD[OF sep] unlines_length[of l "map print_header hs"]
    by (simp add: crlf_def)
  then have "str_find_from buf (''0'' @ crlf @ crlf) (i + 4) = map_option ((+) (i + 4)) (str_find (drop (i + 4) buf) last_chunk)"
    by (simp add: str_find_from_def last_chunk_def)
  moreover have "stoul (dec_string (length body)) = Inr (of_nat (length body))" if "length body < 2 ^ 64"
    using that by (rule stoul_dec_string)
  ultimately show ?thesis
    using sep ps hs by (auto simp: message_length_def Let_def delimited_def split: option.split)
qed

lemma delimited_head:
  assumes l: "line_ok l" "CHR 0x0A \<notin> set l" and hs: "delimited hs body"
  obtains i where "\<And>r. str_find (unlines (l # map print_header hs) @ crlf @ r) (crlf @ crlf) = Some i"
    and "\<And>r. take (i + 4) (unlines (l # map print_header hs) @ crlf @ r) = unlines (l # map print_header hs) @ crlf"
    and "i + 4 = length (unlines (l # map print_header hs) @ crlf)"
proof -
  have ok: "list_all line_ok (l # map print_header hs)"
    using l(1) hs by (intro block_lines_ok) (simp_all add: delimited_def)
  show ?thesis
    by (rule that[OF header_end[OF ok]]) (use unlines_length[of l "map print_header hs"] in \<open>simp add: crlf_def\<close>)
qed

lemma str_find_before: "str_find h needle = Some i \<Longrightarrow> n < i + length needle \<Longrightarrow> str_find (take n h) needle = None"
  using str_find_prefix[of n h needle] str_find_SomeD[of "take n h" needle] by (cases "str_find (take n h) needle") force+

lemma delimited_complete:
  assumes l: "line_ok l" "CHR 0x0A \<notin> set l" and hs: "delimited hs body"
    and r: "r = unlines (l # map print_header hs) @ crlf @ body"
  shows "message_length (r @ rest) = of_nat (length r)"
proof -
  obtain i where i: "str_find (r @ rest) (crlf @ crlf) = Some i"
    "take (i + 4) (r @ rest) = unlines (l # map print_header hs) @ crlf"
    "i + 4 = length (unlines (l # map print_header hs) @ crlf)"
    using delimited_head[OF l hs] unfolding r by (metis append.assoc)
  have d: "drop (i + 4) (r @ rest) = body @ rest" unfolding i(3) by (simp add: r)
  have len: "length r = i + 4 + length body" unfolding i(3) by (simp add: r)
  have "str_find (body @ rest) last_chunk = Some (length body - 5) \<and> 5 \<le> length body"
    if "last_value ''Transfer-Encoding'' hs = ''chunked''"
  proof -
    have f: "str_find body last_chunk = Some (length body - 5)" using hs that by (simp add: delimited_def)
    with str_find_prefix[of "length body" "body @ rest" last_chunk] str_find_SomeD[OF f] show ?thesis
      by (simp add: last_chunk_def crlf_def)
  qed
  then show ?thesis
    using message_length_delimited[OF i(1,2) l(2) hs] unfolding d len by (auto simp: add.assoc)
qed

text \<open>An incomplete message never looks complete.\<close>

lemma delimited_partial:
  assumes l: "line_ok l" "CHR 0x0A \<notin> set l" and hs: "delimited hs body"
    and r: "r = unlines (l # map print_header hs) @ crlf @ body"
    and small: "length r < 2 ^ 64" and n: "n < length r"
  shows "message_length (take n r) = 0 \<or> n < unat (message_length (take n r))"
proof (cases "str_find (take n r) (crlf @ crlf)")
  case (Some j)
  obtain i where i: "str_find r (crlf @ crlf) = Some i" "take (i + 4) r = unlines (l # map print_header hs) @ crlf"
    "i + 4 = length (unlines (l # map print_header hs) @ crlf)"
    using delimited_head[OF l hs] unfolding r by metis
  have j: "j = i" "i + 4 \<le> n" using str_find_prefix[OF Some] i(1) str_find_SomeD[OF Some] by (simp_all add: crlf_def)
  have blk: "take (i + 4) (take n r) = unlines (l # map print_header hs) @ crlf" using i(2) j(2) by (simp add: min_def)
  have d: "drop (i + 4) (take n r) = take (n - (i + 4)) body" unfolding drop_take i(3) by (simp add: r)
  have len: "length r = i + 4 + length body" unfolding i(3) by (simp add: r)
  have m: "message_length (take n r) = (if last_value ''Transfer-Encoding'' hs = ''chunked''
      then (case str_find (take (n - (i + 4)) body) last_chunk of None \<Rightarrow> 0 | Some e \<Rightarrow> of_nat (i + 4 + e + 5))
      else of_nat (length r))"
    using message_length_delimited[OF Some[unfolded j(1)] blk l(2) hs] unfolding d len by simp
  show ?thesis
  proof (cases "last_value ''Transfer-Encoding'' hs = ''chunked''")
    case True
    have f: "str_find body last_chunk = Some (length body - 5)" using hs True by (simp add: delimited_def)
    have "5 \<le> length body" using str_find_SomeD[OF f] by (simp add: last_chunk_def crlf_def)
    then have "str_find (take (n - (i + 4)) body) last_chunk = None"
      using n len j(2) by (intro str_find_before[OF f]) (simp add: last_chunk_def crlf_def)
    with m True show ?thesis by simp
  next
    case False
    with m n small show ?thesis by (simp add: unat_of_nat)
  qed
qed (simp add: message_length_def)

section \<open>The element map\<close>

text \<open>
  Query parameters and headers live in one map with lower-case keys, and the first one stored wins:
  the query string comes first.
\<close>

definition elements :: "(string \<times> string) list \<Rightarrow> string \<Rightarrow> string" where
  "elements kvs key =
     (case map_of (map (\<lambda>(k, v). (str_to_lower k, v)) kvs) (str_to_lower key) of Some v \<Rightarrow> v | None \<Rightarrow> [])"

definition add_elements :: "(string \<times> string) list \<Rightarrow> 'a message_parser_scheme \<Rightarrow> 'a message_parser_scheme" where
  "add_elements kvs p = fold (\<lambda>(k, v). add_element k v) kvs p"

lemma add_elements_find:
  "um_find (m_tokenMap (add_elements kvs p)) k =
     (case um_find (m_tokenMap p) k of
        Some v \<Rightarrow> Some v
      | None \<Rightarrow> map_of (map (\<lambda>(k, v). (str_to_lower k, v)) kvs) k)"
  by (induction kvs arbitrary: p) (auto simp: add_elements_def add_element_def split: option.splits)

lemma add_elements_append: "add_elements (as @ bs) p = add_elements bs (add_elements as p)"
  by (simp add: add_elements_def)

lemma get_element_elements: "m_tokenMap p = [] \<Longrightarrow> get_element (add_elements kvs p) key = elements kvs key"
  by (simp add: get_element_def elements_def add_elements_find)

lemma add_elements_frame [http_simps]:
  fixes p :: http
  shows "m_header (add_elements kvs p) = m_header p" "m_method (add_elements kvs p) = m_method p"
    "m_uriName (add_elements kvs p) = m_uriName p"
  by (induction kvs arbitrary: p) (auto simp: add_elements_def add_element_def)

section \<open>The request line\<close>

lemma query_token_print: "query_token (print_pair kv) p = Inr (add_element (fst kv) (snd kv) p)"
proof -
  have "str_find (url_encode (fst kv) @ CHR ''='' # url_encode (snd kv)) ''='' = Some (length (url_encode (fst kv)))"
    by (intro str_find_char_first url_encode_misses) simp_all
  then show ?thesis
    by (simp add: query_token_def print_pair_def pct_decode_url_encode)
qed

lemma query_tokens_print:
  "query_tokens (map print_pair qs) p = Inr (add_elements qs p)"
  by (induction qs arbitrary: p) (auto simp: query_token_print add_elements_def)

lemma split_print_query: "getline_split (CHR ''&'') (print_query qs) = map print_pair qs"
proof (induction qs rule: print_query.induct)
  case (2 kv)
  have "print_pair kv \<noteq> []" by (simp add: print_pair_def)
  moreover have "CHR ''&'' \<notin> set (print_pair kv)" by (simp add: print_pair_def url_encode_misses)
  ultimately show ?case by (simp add: getline_split_last)
next
  case (3 kv kv2 kvs)
  have "CHR ''&'' \<notin> set (print_pair kv)" by (simp add: print_pair_def url_encode_misses)
  then show ?case using 3 getline_split_step[of "CHR ''&''" "print_pair kv"] by simp
qed simp

lemma str_rfind_char_last: "c \<notin> set b \<Longrightarrow> str_rfind_char (a @ c # b) c = Some (length a)"
  using str_find_char_first[of c "rev b" "rev a"] by (simp add: str_rfind_char_def)

text \<open>A request line with its three parts.\<close>

lemma parse_uri_line:
  assumes l: "l = meth @ CHR '' '' # t @ CHR '' '' # v" and cr: "CHR 0x0D \<notin> set l"
    and m: "CHR '' '' \<notin> set meth" and v: "CHR '' '' \<notin> set v"
  shows "parse_uri (l @ crlf @ r) p =
           (case str_find t ''?'' of
              None \<Rightarrow>
                (case pct_decode t of Inl e \<Rightarrow> Inl e | Inr u \<Rightarrow> Inr (p\<lparr>m_method := meth, m_uriName := u\<rparr>))
            | Some q \<Rightarrow>
                (case pct_decode (take q t) of
                   Inl e \<Rightarrow> Inl e
                 | Inr u \<Rightarrow> query_tokens (getline_split (CHR ''&'') (drop (q + 1) t))
                             (p\<lparr>m_method := meth, m_uriName := u\<rparr>)))"
proof -
  have req: "(case str_find (l @ crlf @ r) crlf of Some i \<Rightarrow> take i (l @ crlf @ r) | None \<Rightarrow> l @ crlf @ r) = l"
    using str_find_crlf[OF cr, of r] by simp
  have first: "str_find l '' '' = Some (length meth)" unfolding l by (rule str_find_char_first[OF m])
  have lst: "str_rfind_char l (CHR '' '') = Some (length meth + 1 + length t)"
    using str_rfind_char_last[OF v, of "meth @ CHR '' '' # t"] by (simp add: l)
  have parts: "take (length meth) l = meth" "substr l (length meth + 1) (length t) = t"
    by (simp_all add: l substr_def)
  show ?thesis
    unfolding parse_uri_def req using first lst parts by (simp add: Let_def)
qed

lemma parse_uri_print:
  assumes m: "method_ok meth"
  shows "parse_uri ((meth @ '' '' @ print_target path qs @ '' HTTP/1.1'') @ crlf @ r) p =
           Inr (add_elements qs (p\<lparr>m_method := meth, m_uriName := path\<rparr>))"
proof -
  let ?t = "print_target path qs"
  let ?l = "meth @ '' '' @ ?t @ '' HTTP/1.1''"
  have cr: "CHR 0x0D \<notin> set ?l" and sp: "CHR '' '' \<notin> set meth"
    using m by (auto simp: method_ok_def print_target_misses)
  have l: "?l = meth @ CHR '' '' # ?t @ CHR '' '' # ''HTTP/1.1''" by simp
  note line = parse_uri_line[OF l cr sp, of r p]
  show ?thesis
  proof (cases "qs = []")
    case True
    then have t: "?t = path_encode path" by (simp add: print_target_def)
    have "str_find ?t ''?'' = None" unfolding t by (simp add: str_find_char_None path_encode_misses)
    with line t True show ?thesis by (simp add: pct_decode_path_encode add_elements_def)
  next
    case False
    then have t: "?t = path_encode path @ CHR ''?'' # print_query qs" by (simp add: print_target_def)
    have "str_find ?t ''?'' = Some (length (path_encode path))"
      unfolding t by (intro str_find_char_first path_encode_misses) simp_all
    moreover have "take (length (path_encode path)) ?t = path_encode path"
      "drop (length (path_encode path) + 1) ?t = print_query qs" by (simp_all add: t)
    ultimately show ?thesis
      using line by (simp add: pct_decode_path_encode split_print_query query_tokens_print)
  qed
qed

lemma request_line_ok:
  "method_ok meth \<Longrightarrow> line_ok (meth @ '' '' @ print_target path qs @ '' HTTP/1.1'') \<and>
     CHR 0x0A \<notin> set (meth @ '' '' @ print_target path qs @ '' HTTP/1.1'')"
  by (auto simp: line_ok_def method_ok_def print_target_misses)

section \<open>The whole request\<close>

text \<open>The abstract conditions under which a request is delimited by its content length.\<close>

definition request_ok ::
  "string \<Rightarrow> (string \<times> string) list \<Rightarrow> (string \<times> string) list \<Rightarrow> string \<Rightarrow> bool" where
  "request_ok meth qs hs body \<longleftrightarrow>
     method_ok meth \<and> counted_headers hs (length body) \<and>
     elements (qs @ hs) ''Transfer-Encoding'' \<noteq> ''chunked'' \<and>
     elements (qs @ hs) ''Content-Length'' = dec_string (length body) \<and>
     elements (qs @ hs) ''Content-Encoding'' \<notin> {''gzip'', ''deflate''}"

lemma print_request_length:
  assumes "request_ok meth qs hs body"
  shows "message_length (print_request meth path qs hs body @ rest) =
           of_nat (length (print_request meth path qs hs body))"
  using message_length_block[of "meth @ '' '' @ print_target path qs @ '' HTTP/1.1''" hs "length body" "body @ rest"]
    request_line_ok[of meth path qs] assms
  by (simp add: request_ok_def print_request_def)

lemma get_body_counted:
  assumes h: "m_header p = h" "h \<noteq> []" and len: "length body < 2 ^ 64"
    and te: "get_element p ''Transfer-Encoding'' \<noteq> ''chunked''"
    and cl: "get_element p ''Content-Length'' = dec_string (length body)"
    and ce: "get_element p ''Content-Encoding'' \<notin> {''gzip'', ''deflate''}"
  shows "get_body zlib (h @ body) p = Done body"
proof -
  have "unat (of_nat (length body) :: u64) = length body" using len by (simp add: unat_of_nat)
  then show ?thesis
    using assms stoul_dec_string[OF len] by (simp add: get_body_def Let_def substr_def)
qed

text \<open>What the constructor knows of a printed request before it looks at the body.\<close>

definition parsed_head ::
  "string \<Rightarrow> string \<Rightarrow> (string \<times> string) list \<Rightarrow> (string \<times> string) list \<Rightarrow> http" where
  "parsed_head meth path qs hs =
     add_elements (qs @ hs)
       (new_http\<lparr>m_header := print_request meth path qs hs [], m_method := meth, m_uriName := path\<rparr>)"

lemma parsed_head_fields [http_simps]:
  "m_header (parsed_head meth path qs hs) = print_request meth path qs hs []"
  "m_method (parsed_head meth path qs hs) = meth" "m_uriName (parsed_head meth path qs hs) = path"
  "get_element (parsed_head meth path qs hs) key = elements (qs @ hs) key"
  by (simp_all add: parsed_head_def add_elements_frame get_element_elements new_http_def)

lemma print_request_body: "print_request meth path qs hs body = print_request meth path qs hs [] @ body"
  by (simp add: print_request_def)

lemma Http_print_head:
  assumes m: "method_ok meth" and hok: "list_all header_ok hs"
  shows "Http zlib (print_request meth path qs hs body) =
    result_bind (get_body zlib (print_request meth path qs hs body) (parsed_head meth path qs hs))
      (\<lambda>b. Done ((parsed_head meth path qs hs)\<lparr>m_body := b\<rparr>))"
proof -
  let ?l = "meth @ '' '' @ print_target path qs @ '' HTTP/1.1''"
  define h where "h = print_request meth path qs hs []"
  define q where "q = new_http\<lparr>m_header := h, m_method := meth, m_uriName := path\<rparr>"
  have h: "h = unlines (?l # map print_header hs) @ crlf" by (simp add: h_def print_request_def)
  have l: "line_ok ?l" "CHR 0x0A \<notin> set ?l" using request_line_ok[OF m, of path qs] by auto
  have ls: "list_all line_ok (?l # map print_header hs)" by (rule block_lines_ok[OF l(1) hok])
  have eh: "extract_header (h @ body) = h"
    using header_end[OF ls, of body] by (simp add: extract_header_def h)
  have uri: "parse_uri h (new_http\<lparr>m_header := h\<rparr>) = Inr (add_elements qs q)"
    using parse_uri_print[OF m, of path qs "unlines (map print_header hs) @ crlf" "new_http\<lparr>m_header := h\<rparr>"]
    by (simp add: h q_def)
  have "header_pairs h = hs" using header_pairs_block[OF l(2) hok] by (simp only: h)
  then have mime: "parse_mime_header h (add_elements qs q) = parsed_head meth path qs hs"
    unfolding parsed_head_def q_def[unfolded h_def, symmetric]
    by (simp only: parse_mime_header_def add_elements_append) (simp add: add_elements_def)
  have "h \<noteq> []" by (simp add: h)
  then show ?thesis
    using eh uri mime
    by (simp add: Http_def Let_def print_request_body[of meth path qs hs body] h_def[symmetric])
qed

lemma Http_print_request:
  assumes ok: "request_ok meth qs hs body"
  shows "Http zlib (print_request meth path qs hs body) = Done ((parsed_head meth path qs hs)\<lparr>m_body := body\<rparr>)"
proof -
  have "get_body zlib (print_request meth path qs hs body) (parsed_head meth path qs hs) = Done body"
    unfolding print_request_body[of meth path qs hs body]
    using ok by (intro get_body_counted) (simp_all add: http_simps request_ok_def counted_headers_def print_request_def)
  then show ?thesis
    using ok by (simp add: Http_print_head request_ok_def counted_headers_def)
qed

lemma get_element_body [http_simps]: "get_element (p\<lparr>m_body := b\<rparr> :: http) key = get_element p key"
  by (simp add: get_element_def)

section \<open>Chunked bodies\<close>

text \<open>
  A chunk is a size line (it may carry an extension after a semicolon) and its data; the encoded body is
  a list of chunks, the zero chunk, and whatever trailer follows.
\<close>

definition chunk_ok :: "string \<times> string \<Rightarrow> bool" where
  "chunk_ok ch \<longleftrightarrow> CHR 0x0D \<notin> set (fst ch) \<and> snd ch \<noteq> [] \<and>
                  stoul_hex (upto_semi (fst ch)) = Inr (of_nat (length (snd ch)))"

definition print_chunk :: "string \<times> string \<Rightarrow> string" where
  "print_chunk ch = fst ch @ crlf @ snd ch @ crlf"

definition print_chunks :: "(string \<times> string) list \<Rightarrow> string \<Rightarrow> string" where
  "print_chunks chs trailer = concat (map print_chunk chs) @ ''0'' @ crlf @ trailer"

lemma size_line:
  assumes "CHR 0x0D \<notin> set l"
  shows "str_find_from (pre @ l @ crlf @ r) crlf (length pre) = Some (length pre + length l)"
    and "substr (pre @ l @ crlf @ r) (length pre) (length pre + length l - length pre) = l"
  using str_find_crlf[OF assms, of r] by (simp_all add: str_find_from_def substr_def)

lemma u64_of_nat: "n < 2 ^ 64 \<Longrightarrow> unat (of_nat n :: u64) = n"
  by (simp add: unat_of_nat)

lemma decode_chunk_step:
  assumes ch: "chunk_ok (l, c)" and len: "length (pre @ l @ crlf @ c @ crlf @ r) < 2 ^ 64"
  shows "decode_chunked_from (pre @ l @ crlf @ c @ crlf @ r) (length pre) out =
           decode_chunked_from (pre @ l @ crlf @ c @ crlf @ r) (length (pre @ l @ crlf @ c @ crlf)) (out @ c)"
proof -
  let ?inp = "pre @ l @ crlf @ c @ crlf @ r"
  let ?e = "length pre + length l"
  have cr: "CHR 0x0D \<notin> set l" and n: "stoul_hex (upto_semi l) = Inr (of_nat (length c))"
    and c: "c \<noteq> []" using ch by (auto simp: chunk_ok_def)
  have small: "?e + 2 + length c + 2 < 2 ^ 64" and cn: "length c < 2 ^ 64" using len by (simp_all add: crlf_def)
  have sz: "unat (of_nat (length c) :: u64) = length c" using cn by (simp add: unat_of_nat)
  then have nz: "(of_nat (length c) :: u64) \<noteq> 0" using c by auto
  have w: "(of_nat (?e + 2) + of_nat (length c) :: u64) = of_nat (?e + 2 + length c)"
    "(of_nat (?e + 2) + of_nat (length c) + 2 :: u64) = of_nat (?e + 2 + length c + 2)" by simp_all
  have u: "unat (of_nat (?e + 2) + of_nat (length c) :: u64) = ?e + 2 + length c"
    "unat (of_nat (?e + 2) + of_nat (length c) + 2 :: u64) = ?e + 2 + length c + 2"
    subgoal unfolding w(1) using small by (intro u64_of_nat) linarith
    subgoal unfolding w(2) using small by (intro u64_of_nat) linarith
    done
  have data: "substr ?inp (?e + 2) (length c) = c" by (simp add: substr_def crlf_def)
  have pos: "?e + 2 + length c + 2 = length (pre @ l @ crlf @ c @ crlf)" by (simp add: crlf_def)
  have lt: "length pre < length ?inp" and le: "\<not> length ?inp < ?e + 2 + length c" by (simp_all add: crlf_def)
  show ?thesis
    by (subst decode_chunked_from.simps)
      (simp only: lt size_line[OF cr] n nz u le data sz pos if_True if_False option.case sum.case)
qed

lemma decode_chunks:
  "list_all chunk_ok chs \<Longrightarrow> length (pre @ print_chunks chs tr) < 2 ^ 64 \<Longrightarrow>
     decode_chunked_from (pre @ print_chunks chs tr) (length pre) out = Some (out @ concat (map snd chs))"
proof (induction chs arbitrary: pre out)
  case Nil
  have z: "stoul_hex (upto_semi ''0'') = Inr 0"
    by (simp add: stoul_hex_def upto_semi_def num_sign_def is_space_def hex_digits_def is_xdigit_def xdigit_val_def)
  show ?case
    using size_line[of "''0''" pre tr]
    by (subst decode_chunked_from.simps) (simp add: print_chunks_def z[simplified])
next
  case (Cons ch chs)
  obtain l c where ch: "ch = (l, c)" by (cases ch)
  have inp: "pre @ print_chunks (ch # chs) tr = pre @ l @ crlf @ c @ crlf @ print_chunks chs tr"
    by (simp add: print_chunks_def print_chunk_def ch)
  have len: "length (pre @ l @ crlf @ c @ crlf @ print_chunks chs tr) < 2 ^ 64"
    using Cons.prems(2) by (simp only: inp)
  have "decode_chunked_from (pre @ print_chunks (ch # chs) tr) (length pre) out
      = decode_chunked_from ((pre @ l @ crlf @ c @ crlf) @ print_chunks chs tr) (length (pre @ l @ crlf @ c @ crlf)) (out @ c)"
    unfolding inp using decode_chunk_step[OF _ len, of out] Cons.prems(1) by (simp add: ch)
  also have "\<dots> = Some ((out @ c) @ concat (map snd chs))"
    using Cons.prems(1) len by (intro Cons.IH) simp_all
  finally show ?case by (simp add: ch)
qed

lemma decode_chunked_print:
  "list_all chunk_ok chs \<Longrightarrow> length (print_chunks chs tr) < 2 ^ 64 \<Longrightarrow>
     decode_chunked (print_chunks chs tr) = Some (concat (map snd chs))"
  using decode_chunks[of chs "[]" tr "[]"] by (simp add: decode_chunked_def)

text \<open>
  A chunk size is not limited to the input, and the position after a chunk is computed modulo
  \<open>2\<^sup>6\<^sup>4\<close>.  A size line of two blanks and \<open>2\<^sup>6\<^sup>4 - 20\<close> in hexadecimal sends the loop back into the same line.
\<close>

definition looping_line :: string where
  "looping_line = ''  FFFFFFFFFFFFFFEC''"

lemma looping_size:
  "stoul_hex (upto_semi looping_line) = Inr (- 20)" "stoul_hex (upto_semi (drop 2 looping_line)) = Inr (- 20)"
  by (simp_all add: looping_line_def stoul_hex_def upto_semi_def num_sign_def is_space_def hex_digits_def
      is_xdigit_def xdigit_val_def)

lemma looping_step:
  assumes "pos \<in> {0, 2}" and "length r < 2 ^ 63" and inp: "inp = looping_line @ crlf @ r"
  shows "(if pos < length inp then
            (case str_find_from inp crlf pos of
               None \<Rightarrow> Some out
             | Some e \<Rightarrow>
                 (case stoul_hex (upto_semi (substr inp pos (e - pos))) of
                    Inl _ \<Rightarrow> Some out
                  | Inr n \<Rightarrow>
                      (if n = 0 then Some out
                       else if length inp < unat (of_nat (e + 2) + n) then Some out
                       else f inp (unat (of_nat (e + 2) + n + 2)) (out @ substr inp (e + 2) (unat n)))))
          else Some out) = f inp 2 (out @ r)"
proof -
  let ?inp = "looping_line @ crlf @ r"
  have cr: "CHR 0x0D \<notin> set looping_line" by (simp add: looping_line_def)
  have lf: "length looping_line = 18" by (simp add: looping_line_def)
  have split: "?inp = take pos looping_line @ drop pos looping_line @ crlf @ r" by simp
  have pl: "length (take pos looping_line) = pos" "length (drop pos looping_line) = 18 - pos"
    using assms(1) by (auto simp: lf)
  have crd: "CHR 0x0D \<notin> set (drop pos looping_line)" using cr by (meson in_set_dropD)
  have f: "str_find_from ?inp crlf pos = Some 18"
    "substr ?inp pos (18 - pos) = drop pos looping_line"
    using size_line[OF crd, of "take pos looping_line" r] pl assms(1) by (auto simp flip: split)
  have sz: "stoul_hex (upto_semi (drop pos looping_line)) = Inr (- 20)"
    using assms(1) looping_size by auto
  have "unat (- 20 :: u64) = 18446744073709551596" by simp
  then have "length r \<le> unat (- 20 :: u64)" using assms(2) by simp
  moreover have "drop (18 + 2) ?inp = r" by (simp add: lf crlf_def)
  ultimately have data: "substr ?inp (18 + 2) (unat (- 20 :: u64)) = r" by (simp only: substr_def take_all)
  have w: "unat (of_nat (18 + 2) + (- 20) :: u64) = 0" "unat (of_nat (18 + 2) + (- 20) + 2 :: u64) = 2"
    by simp_all
  have lt: "pos < length ?inp" "\<not> length ?inp < 0" using assms(1) by (auto simp: lf)
  have nz: "(- 20 :: u64) \<noteq> 0" by simp
  show ?thesis
    unfolding inp by (simp only: lt f sz nz w data option.case sum.case if_True if_False)
qed

lemma decode_chunked_loops:
  assumes "length r < 2 ^ 63"
  shows "decode_chunked (looping_line @ crlf @ r) = None"
proof -
  let ?P = "\<lambda>inp pos out (y :: string). \<not> (inp = looping_line @ crlf @ r \<and> pos \<in> {0, 2 :: nat})"
  have "?P inp pos out y" if d: "decode_chunked_from inp pos out = Some y" for inp pos out y
  proof (rule decode_chunked_from.raw_induct[where P = ?P, OF _ d], rule notI)
    fix f inp pos out and y :: string
    assume IH: "\<And>inp pos out y. f inp pos out = Some y \<Longrightarrow> ?P inp pos out y"
      and a: "inp = looping_line @ crlf @ r \<and> pos \<in> {0, 2 :: nat}"
      and body: "(if pos < length inp then
            (case str_find_from inp crlf pos of
               None \<Rightarrow> Some out
             | Some e \<Rightarrow>
                 (case stoul_hex (upto_semi (substr inp pos (e - pos))) of
                    Inl _ \<Rightarrow> Some out
                  | Inr n \<Rightarrow>
                      (if n = 0 then Some out
                       else if length inp < unat (of_nat (e + 2) + n) then Some out
                       else f inp (unat (of_nat (e + 2) + n + 2)) (out @ substr inp (e + 2) (unat n)))))
          else Some out) = Some y"
    have "f inp 2 (out @ r) = Some y" using body by (simp only: looping_step[OF conjunct2[OF a] assms conjunct1[OF a]])
    with IH a show False by blast
  qed
  then show ?thesis unfolding decode_chunked_def by (metis insertI1 not_Some_eq)
qed

text \<open>A whole request with such a body: its end is found, and parsing it does not return.\<close>

definition looping_body :: string where
  "looping_body = looping_line @ crlf @ ''0'' @ crlf @ crlf"

definition looping_request :: "string \<Rightarrow> string \<Rightarrow> string" where
  "looping_request meth path = print_request meth path [] [(''Transfer-Encoding'', ''chunked'')] looping_body"

lemma str_find_from_behind:
  "str_find_from (a @ b) n (length a) = map_option (\<lambda>i. length a + i) (str_find b n)"
  by (auto simp: str_find_from_def split: option.splits)

lemma looping_headers: "list_all header_ok [(''Transfer-Encoding'', ''chunked'')]"
  by (simp add: header_ok_def)

lemma looping_request_hangs: "method_ok meth \<Longrightarrow> Http zlib (looping_request meth path) = Hangs"
proof -
  assume m: "method_ok meth"
  have te: "elements [(''Transfer-Encoding'', ''chunked'')] ''Transfer-Encoding'' = ''chunked''"
    by (simp add: elements_def)
  have "decode_chunked looping_body = None"
    unfolding looping_body_def by (rule decode_chunked_loops) (simp add: crlf_def)
  then have "get_body zlib (looping_request meth path) (parsed_head meth path [] [(''Transfer-Encoding'', ''chunked'')]) = Hangs"
    unfolding looping_request_def
    by (subst print_request_body) (simp add: get_body_def Let_def http_simps te)
  then show ?thesis
    unfolding looping_request_def by (simp add: Http_print_head[OF m looping_headers])
qed

lemma looping_request_length:
  assumes m: "method_ok meth"
  shows "message_length (looping_request meth path) = of_nat (length (looping_request meth path))"
proof -
  let ?l = "meth @ '' '' @ print_target path [] @ '' HTTP/1.1''"
  let ?hs = "[(''Transfer-Encoding'', ''chunked'')]"
  let ?z = "''0'' @ crlf @ crlf"
  define b where "b = unlines (?l # map print_header ?hs)"
  have l: "line_ok ?l" "CHR 0x0A \<notin> set ?l" using request_line_ok[OF m, of path "[]"] by auto
  have req: "looping_request meth path = b @ crlf @ looping_body"
    by (simp add: looping_request_def print_request_def b_def)
  note he = header_end[OF block_lines_ok[OF l(1) looping_headers], of looping_body, folded b_def]
  have n: "length b - 2 + 4 = length (b @ crlf)" using unlines_length[of ?l "map print_header ?hs"] by (simp add: crlf_def b_def)
  have ps: "header_pairs (b @ crlf) = ?hs" unfolding b_def by (rule header_pairs_block[OF l(2) looping_headers])
  have te: "last_value ''Transfer-Encoding'' ?hs = ''chunked''" by (simp add: last_value_def)
  have "CHR ''0'' \<notin> set (looping_line @ crlf)" by (simp add: looping_line_def crlf_def)
  from str_find_fresh[OF this, of "crlf @ crlf" "[]"]
  have "str_find looping_body ?z = Some (length (looping_line @ crlf))" by (simp add: looping_body_def)
  then have f: "str_find_from (b @ crlf @ looping_body) ?z (length (b @ crlf)) =
      Some (length (b @ crlf) + length (looping_line @ crlf))"
    using str_find_from_behind[of "b @ crlf" looping_body ?z] by simp
  have e: "length (b @ crlf) + length (looping_line @ crlf) + 5 = length (b @ crlf @ looping_body)"
    by (simp add: looping_body_def crlf_def)
  show ?thesis
    unfolding req message_length_def he(1) option.case Let_def he(2)[unfolded n] n ps te f e by simp
qed

end
