(* ===== verification/Db_Client.thy ===== *)
theory Db_Client
  imports Cpp_Effect
begin

text \<open>
  What the request handlers see of their environment: the database behind \<^verbatim>\<open>IMongodbClient\<close>, OpenSSL, the
  environment variables and the random number generator.

  The database is a parameter: an answer to each call, which may depend on the calls made before.  The
  calls are recorded in the state (\<^verbatim>\<open>db_log\<close>); file contents are byte strings, and \<^verbatim>\<open>GetAllDocuments\<close> is
  the overload of \<^verbatim>\<open>get_documents\<close> without a query.  A call may throw.  \<^verbatim>\<open>RAND_bytes\<close> reports success
  or failure and fills a buffer of the requested size with bytes from the list of answers; an
  exhausted list stands for a failure that leaves zeros.
\<close>

datatype db_call =
    GetDocument string string string
  | GetDocuments string string string
  | CreateDocument string string
  | CreateBulkDocument string string
  | UpdateCollection string string string
  | UpdateBulkDocument string "string list" "string list"
  | DeleteDocument string string
  | NextAwbno string
  | StoreFile string string string
  | FetchFile string
  | GetAllDocuments string string
  | FetchFileById string
  | DeleteFile string

fun db_collection :: "db_call \<Rightarrow> string" where
  "db_collection (GetDocument c q p) = c"
| "db_collection (GetDocuments c q p) = c"
| "db_collection (CreateDocument c d) = c"
| "db_collection (CreateBulkDocument c d) = c"
| "db_collection (UpdateCollection c f d) = c"
| "db_collection (UpdateBulkDocument c f d) = c"
| "db_collection (DeleteDocument c d) = c"
| "db_collection (NextAwbno p) = ''counters''"
| "db_collection (StoreFile n t d) = ''fs''"
| "db_collection (FetchFile n) = ''fs''"
| "db_collection (GetAllDocuments c p) = c"
| "db_collection (FetchFileById oid) = ''fs''"
| "db_collection (DeleteFile oid) = ''fs''"

fun db_reads :: "db_call \<Rightarrow> bool" where
  "db_reads (GetDocument c q p) = True"
| "db_reads (GetDocuments c q p) = True"
| "db_reads (FetchFile n) = True"
| "db_reads (GetAllDocuments c p) = True"
| "db_reads (FetchFileById oid) = True"
| "db_reads _ = False"

text \<open>
  The collection a write reaches.  \<^verbatim>\<open>MongodbClient\<close> hands the name to the driver as
  \<^verbatim>\<open>collectionName.c_str()\<close>, so that a name with a zero byte in it reaches the collection named by what comes
  before that byte.
\<close>

definition db_writes_to :: "string \<Rightarrow> db_call \<Rightarrow> bool" where
  "db_writes_to c op \<longleftrightarrow> \<not> db_reads op \<and> c_str (db_collection op) = c"

record service_env =
  sv_json :: json_lib
  sv_text :: "db_call list \<Rightarrow> db_call \<Rightarrow> cpp_exn + string"
  sv_bool :: "db_call list \<Rightarrow> db_call \<Rightarrow> cpp_exn + bool"
  sv_int :: "db_call list \<Rightarrow> db_call \<Rightarrow> cpp_exn + int"
  sv_remote_disconnected :: "db_call list \<Rightarrow> bool"
  sv_getenv :: "string \<Rightarrow> string option"
  sv_zlib :: "string \<Rightarrow> string \<Rightarrow> string"
  sv_md5 :: "string \<Rightarrow> string"
  sv_hmac_sha1 :: "string \<Rightarrow> string \<Rightarrow> string"
  sv_pbkdf2 :: "string \<Rightarrow> string \<Rightarrow> int \<Rightarrow> string"
  sv_b64_encode :: "string \<Rightarrow> string"
  sv_b64_decode :: "string \<Rightarrow> string"
  sv_float_long :: "string \<Rightarrow> int"
  sv_file :: "string \<Rightarrow> string option"

record db_state =
  db_log :: "db_call list"
  rng :: "(bool \<times> string) list"

type_synonym ('a, 'r) db_effect = "('a db_state_scheme, 'r) effect"

section \<open>Calls\<close>

definition db_text :: "service_env \<Rightarrow> db_call \<Rightarrow> ('a, string) db_effect" where
  "db_text env op s =
     (case sv_text env (db_log s) op of
        Inl e \<Rightarrow> (Thrown e, s\<lparr>db_log := db_log s @ [op]\<rparr>)
      | Inr v \<Rightarrow> (Done v, s\<lparr>db_log := db_log s @ [op]\<rparr>))"

definition db_bool :: "service_env \<Rightarrow> db_call \<Rightarrow> ('a, bool) db_effect" where
  "db_bool env op s =
     (case sv_bool env (db_log s) op of
        Inl e \<Rightarrow> (Thrown e, s\<lparr>db_log := db_log s @ [op]\<rparr>)
      | Inr v \<Rightarrow> (Done v, s\<lparr>db_log := db_log s @ [op]\<rparr>))"

definition db_int :: "service_env \<Rightarrow> db_call \<Rightarrow> ('a, int) db_effect" where
  "db_int env op s =
     (case sv_int env (db_log s) op of
        Inl e \<Rightarrow> (Thrown e, s\<lparr>db_log := db_log s @ [op]\<rparr>)
      | Inr v \<Rightarrow> (Done v, s\<lparr>db_log := db_log s @ [op]\<rparr>))"

definition is_remote_disconnected :: "service_env \<Rightarrow> ('a, bool) db_effect" where
  "is_remote_disconnected env s = (Done (sv_remote_disconnected env (db_log s)), s)"

definition rand_buffer :: "nat \<Rightarrow> string \<Rightarrow> string" where
  "rand_buffer n bytes = take n (bytes @ replicate n (CHR 0x00))"

definition RAND_bytes :: "nat \<Rightarrow> ('a, bool \<times> string) db_effect" where
  "RAND_bytes n s =
     (case rng s of
        [] \<Rightarrow> (Done (False, rand_buffer n []), s)
      | (ok, bytes) # rs \<Rightarrow> (Done (ok, rand_buffer n bytes), s\<lparr>rng := rs\<rparr>))"

lemma rand_buffer_length [simp]: "length (rand_buffer n bytes) = n"
  by (simp add: rand_buffer_def)

lemma rand_buffer_nonempty [simp]: "rand_buffer n bytes = [] \<longleftrightarrow> n = 0"
  using rand_buffer_length[of n bytes] by (metis length_0_conv)

text \<open>\<^verbatim>\<open>json::parse\<close> and \<^verbatim>\<open>dump\<close>, each of which may throw.\<close>

definition json_parse :: "service_env \<Rightarrow> string \<Rightarrow> ('s, json) effect" where
  "json_parse env t = eff_option JsonParseError (js_parse (sv_json env) t)"

definition json_dump :: "service_env \<Rightarrow> json \<Rightarrow> ('s, string) effect" where
  "json_dump env j = eff_option JsonTypeError (js_dump (sv_json env) j)"

lemma db_text_log [effect_intros]: "A op \<Longrightarrow> logs_only db_log A (db_text env op)"
  by (auto simp: logs_only_def db_text_def split: sum.splits)

lemma db_bool_log [effect_intros]: "A op \<Longrightarrow> logs_only db_log A (db_bool env op)"
  by (auto simp: logs_only_def db_bool_def split: sum.splits)

lemma db_int_log [effect_intros]: "A op \<Longrightarrow> logs_only db_log A (db_int env op)"
  by (auto simp: logs_only_def db_int_def split: sum.splits)

lemma remote_disconnected_log [effect_intros]: "logs_only db_log A (is_remote_disconnected env)"
  by (simp add: logs_only_def is_remote_disconnected_def)

lemma RAND_bytes_log [effect_intros]: "logs_only db_log A (RAND_bytes n)"
  by (auto simp: logs_only_def RAND_bytes_def split: list.splits)

lemma json_parse_log [effect_intros]: "logs_only lg A (json_parse env t)"
  by (simp add: json_parse_def effect_intros)

lemma json_dump_log [effect_intros]: "logs_only lg A (json_dump env j)"
  by (simp add: json_dump_def effect_intros)

lemma db_text_Done [simp]:
  "db_text env op s = (Done v, t) \<longleftrightarrow> sv_text env (db_log s) op = Inr v \<and> t = s\<lparr>db_log := db_log s @ [op]\<rparr>"
  by (auto simp: db_text_def split: sum.splits)

lemma db_bool_Done [simp]:
  "db_bool env op s = (Done v, t) \<longleftrightarrow> sv_bool env (db_log s) op = Inr v \<and> t = s\<lparr>db_log := db_log s @ [op]\<rparr>"
  by (auto simp: db_bool_def split: sum.splits)

lemma remote_disconnected_Done [simp]:
  "is_remote_disconnected env s = (Done v, t) \<longleftrightarrow> v = sv_remote_disconnected env (db_log s) \<and> t = s"
  by (auto simp: is_remote_disconnected_def)

lemma json_parse_Done [simp]: "json_parse env t s = (Done j, s') \<longleftrightarrow> js_parse (sv_json env) t = Some j \<and> s' = s"
  by (simp add: json_parse_def)

lemma json_dump_Done [simp]: "json_dump env j s = (Done t, s') \<longleftrightarrow> js_dump (sv_json env) j = Some t \<and> s' = s"
  by (simp add: json_dump_def)

text \<open>\<^verbatim>\<open>env_or(name, fallback)\<close>: an empty variable counts as unset.\<close>

definition env_or :: "service_env \<Rightarrow> string \<Rightarrow> string \<Rightarrow> string" where
  "env_or env name fallback =
     (case sv_getenv env name of Some v \<Rightarrow> if v \<noteq> [] then v else fallback | None \<Rightarrow> fallback)"

definition db_available :: "service_env \<Rightarrow> bool" where
  "db_available env \<longleftrightarrow> env_or env ''DB_URI'' [] \<noteq> [] \<or> env_or env ''REMOTE_DB'' [] \<noteq> []"

end
