(* ===== verification/Password.thy ===== *)
theory Password
  imports Db_Client
begin

text \<open>
  Password hashing of \<^verbatim>\<open>MongodbClient\<close> (\<^verbatim>\<open>mongodbc.cpp\<close>): the stored form
  \<^verbatim>\<open>$pbkdf2-sha256$i=<n>$<salt>$<key>\<close>, its verification, and the migration of plain-text
  accounts.  PBKDF2 and OpenSSL's base64 are parameters.
\<close>

definition kPbkdf2Iterations :: nat where "kPbkdf2Iterations = 600000"

definition kPbkdf2KeyLen :: nat where "kPbkdf2KeyLen = 32"

definition hash_text :: "service_env \<Rightarrow> string \<Rightarrow> string \<Rightarrow> string" where
  "hash_text env password salt =
     ''$pbkdf2-sha256$i='' @ dec_string kPbkdf2Iterations @ ''$'' @ sv_b64_encode env salt @ ''$'' @
     sv_b64_encode env (sv_pbkdf2 env password salt (int kPbkdf2Iterations))"

text \<open>The result of \<^verbatim>\<open>RAND_bytes\<close> is not looked at: the salt is whatever the buffer holds.\<close>

definition hash_password :: "service_env \<Rightarrow> string \<Rightarrow> ('a, string) db_effect" where
  "hash_password env password =
     eff_bind (RAND_bytes 16) (\<lambda>(ok, salt). eff_return (hash_text env password salt))"

text \<open>The non-empty pieces between dollar signs.\<close>

function dollar_parts :: "string \<Rightarrow> string list" where
  "dollar_parts s =
     (if s = [] then []
      else case str_find s ''$'' of
             None \<Rightarrow> [s]
           | Some n \<Rightarrow> (if n > 0 then [take n s] else []) @ dollar_parts (drop (n + 1) s))"
  by pat_completeness auto
termination by (relation "measure length") (auto dest: str_find_SomeD)

declare dollar_parts.simps [simp del]

text \<open>
  The comparison covers as many bytes as the stored key has: a shorter one is a prefix test.  The
  bytes a longer one would be compared with lie behind the buffer; \<^verbatim>\<open>beyond\<close> stands for them.
\<close>

definition verify_password :: "service_env \<Rightarrow> string \<Rightarrow> string \<Rightarrow> string \<Rightarrow> cpp_exn + bool" where
  "verify_password env beyond password stored_hash =
     (if stored_hash = [] then Inr False
      else let parts = dollar_parts stored_hash
           in if length parts < 4 then Inr False
              else if parts ! 0 \<noteq> ''pbkdf2-sha256'' then Inr False
              else let iterations = (if take 2 (parts ! 1) = ''i='' then stoi (drop 2 (parts ! 1))
                                     else Inr (int kPbkdf2Iterations))
                   in case iterations of
                        Inl e \<Rightarrow> Inl e
                      | Inr n \<Rightarrow>
                          (let salt = sv_b64_decode env (parts ! 2); key = sv_b64_decode env (parts ! 3)
                           in if salt = [] \<or> key = [] then Inr False
                              else Inr (take (length key) (sv_pbkdf2 env password salt n @ beyond) = key)))"

section \<open>The round trip\<close>

lemma dollar_parts_step:
  "CHR ''$'' \<notin> set p \<Longrightarrow> p \<noteq> [] \<Longrightarrow> dollar_parts (p @ ''$'' @ r) = p # dollar_parts r"
  using str_find_char_first[of "CHR ''$''" p r] by (subst dollar_parts.simps) simp

lemma dollar_parts_lead: "dollar_parts (CHR ''$'' # r) = dollar_parts r"
  by (subst dollar_parts.simps) simp

lemma dollar_parts_last: "CHR ''$'' \<notin> set p \<Longrightarrow> p \<noteq> [] \<Longrightarrow> dollar_parts p = [p]"
  using str_find_char_None[of p "CHR ''$''"] by (subst dollar_parts.simps) simp

lemma dec_string_no_dollar: "CHR ''$'' \<notin> set (dec_string n)"
  using dec_string_digits[of n] by (auto simp: is_digit_def)

text \<open>What the code relies on of OpenSSL's base64 for a given pair of texts.\<close>

definition b64_faithful :: "service_env \<Rightarrow> string \<Rightarrow> bool" where
  "b64_faithful env t \<longleftrightarrow>
     sv_b64_decode env (sv_b64_encode env t) = t \<and> sv_b64_encode env t \<noteq> [] \<and>
     CHR ''$'' \<notin> set (sv_b64_encode env t)"

lemma hash_text_parts:
  assumes "b64_faithful env salt" and "b64_faithful env (sv_pbkdf2 env pw salt (int kPbkdf2Iterations))"
  shows "dollar_parts (hash_text env pw salt) =
           [''pbkdf2-sha256'', ''i='' @ dec_string kPbkdf2Iterations, sv_b64_encode env salt,
            sv_b64_encode env (sv_pbkdf2 env pw salt (int kPbkdf2Iterations))]"
proof -
  let ?i = "''i='' @ dec_string kPbkdf2Iterations"
  let ?k = "sv_b64_encode env (sv_pbkdf2 env pw salt (int kPbkdf2Iterations))"
  have "hash_text env pw salt = CHR ''$'' # ''pbkdf2-sha256'' @ ''$'' @ ?i @ ''$'' @ sv_b64_encode env salt @ ''$'' @ ?k"
    by (simp add: hash_text_def)
  moreover have "dollar_parts (''pbkdf2-sha256'' @ ''$'' @ r) = ''pbkdf2-sha256'' # dollar_parts r" for r
    by (rule dollar_parts_step) simp_all
  moreover have "dollar_parts (?i @ ''$'' @ r) = ?i # dollar_parts r" for r
    by (rule dollar_parts_step) (simp_all add: dec_string_no_dollar)
  moreover have "dollar_parts (sv_b64_encode env salt @ ''$'' @ r) = sv_b64_encode env salt # dollar_parts r" for r
    using assms(1) by (intro dollar_parts_step) (auto simp: b64_faithful_def)
  moreover have "dollar_parts ?k = [?k]"
    using assms(2) by (intro dollar_parts_last) (auto simp: b64_faithful_def)
  ultimately show ?thesis by (simp only: dollar_parts_lead)
qed

text \<open>
  A password verifies against a stored hash exactly when PBKDF2 gives it the same key as the password
  that was hashed.
\<close>

lemma verify_hash_text:
  assumes key: "length (sv_pbkdf2 env other salt (int kPbkdf2Iterations)) = kPbkdf2KeyLen"
    "length (sv_pbkdf2 env pw salt (int kPbkdf2Iterations)) = kPbkdf2KeyLen"
    and b64: "b64_faithful env salt" "b64_faithful env (sv_pbkdf2 env pw salt (int kPbkdf2Iterations))"
    and salt: "salt \<noteq> []"
  shows "verify_password env beyond other (hash_text env pw salt) =
           Inr (sv_pbkdf2 env other salt (int kPbkdf2Iterations) = sv_pbkdf2 env pw salt (int kPbkdf2Iterations))"
proof -
  have n: "stoi (dec_string kPbkdf2Iterations) = Inr (int kPbkdf2Iterations)"
    using stoi_dec_string[of kPbkdf2Iterations "[]"] by (simp add: kPbkdf2Iterations_def)
  have ne: "hash_text env pw salt \<noteq> []" by (simp add: hash_text_def)
  have k: "sv_pbkdf2 env pw salt (int kPbkdf2Iterations) \<noteq> []" using key(2) by (auto simp: kPbkdf2KeyLen_def)
  show ?thesis
    using b64 salt key k ne n
    by (simp add: verify_password_def Let_def hash_text_parts b64_faithful_def)
qed

section \<open>Migration of plain-text accounts\<close>

text \<open>One account document: hashed only when it has a plain-text password and no hash yet.\<close>

definition migration_plain :: "json \<Rightarrow> (json \<times> string) option" where
  "migration_plain doc =
     (case j_get_object doc ''loginCredentials'' of
        None \<Rightarrow> None
      | Some lc \<Rightarrow>
          (if j_contains lc ''passwordHash'' then None
           else case j_get_string lc ''accountPassword'' of
                  None \<Rightarrow> None
                | Some plain \<Rightarrow> if plain = [] then None else Some (lc, plain)))"

definition migration_filter :: "json \<Rightarrow> json" where
  "migration_filter lc =
     (case j_get_string lc ''accountCode'' of
        Some code \<Rightarrow> JObject [(''loginCredentials.accountCode'', JString code)]
      | None \<Rightarrow> JObject [])"

definition migration_update :: "string \<Rightarrow> json" where
  "migration_update hash =
     JObject [(''$set'', JObject [(''loginCredentials.passwordHash'', JString hash)]),
              (''$unset'', JObject [(''loginCredentials.accountPassword'', JString [])])]"

fun migrate_docs :: "service_env \<Rightarrow> json list \<Rightarrow> int \<Rightarrow> ('a, int) db_effect" where
  "migrate_docs env [] count = eff_return count"
| "migrate_docs env (doc # docs) count =
     (case migration_plain doc of
        None \<Rightarrow> migrate_docs env docs count
      | Some (lc, plain) \<Rightarrow>
          eff_bind (hash_password env plain) (\<lambda>hash.
          eff_bind (json_dump env (migration_filter lc)) (\<lambda>f.
          eff_bind (json_dump env (migration_update hash)) (\<lambda>u.
          eff_bind (db_bool env (UpdateCollection ''account'' f u)) (\<lambda>ok.
          migrate_docs env docs (if ok then count + 1 else count))))))"

definition migrate_account_passwords :: "service_env \<Rightarrow> ('a, int) db_effect" where
  "migrate_account_passwords env =
     eff_bind (db_text env (GetAllDocuments ''account'' ''{}'')) (\<lambda>result.
     if result = [] then eff_return 0
     else case js_parse (sv_json env) result of
            Some (JArray docs) \<Rightarrow> migrate_docs env docs 0
          | _ \<Rightarrow> eff_return 0)"

text \<open>A document that already has a hash is never touched, so a second migration changes nothing.\<close>

lemma migration_skips_hashed:
  "j_get_object doc ''loginCredentials'' = Some lc \<Longrightarrow> j_contains lc ''passwordHash'' \<Longrightarrow> migration_plain doc = None"
  by (simp add: migration_plain_def)

lemma migrate_docs_none: "\<forall>doc \<in> set docs. migration_plain doc = None \<Longrightarrow> migrate_docs env docs n = eff_return n"
  by (induction docs) simp_all

text \<open>The number reported is at most the number of documents that had to be migrated.\<close>

lemma migrate_docs_count:
  "migrate_docs env docs n s = (Done m, t) \<Longrightarrow>
     n \<le> m \<and> m \<le> n + int (length (filter (\<lambda>d. migration_plain d \<noteq> None) docs))"
proof (induction docs arbitrary: n s)
  case (Cons d docs)
  show ?case
  proof (cases "migration_plain d")
    case None
    with Cons show ?thesis by simp
  next
    case (Some p)
    obtain lc plain where p: "p = (lc, plain)" by (cases p)
    from Cons.prems Some p obtain ok u where "migrate_docs env docs (if ok then n + 1 else n) u = (Done m, t)"
      by (auto simp: eff_bind_Done)
    from Cons.IH[OF this] show ?thesis using Some by (auto split: if_splits)
  qed
qed simp

end
