(* ===== verification/Pbx_Helpers.thy ===== *)
theory Pbx_Helpers
  imports Http_Framing Password
begin

text \<open>
  The helpers of the REST service (\<^verbatim>\<open>microservice_pbx.cpp\<close>, anonymous namespaces): response texts, random
  strings, query and cookie lookup, CSV, sessions.
\<close>

section \<open>Responses\<close>

definition http_response :: "nat \<Rightarrow> string \<Rightarrow> string \<Rightarrow> string \<Rightarrow> string \<Rightarrow> string" where
  "http_response code reason body content_type extra_headers =
     ''HTTP/1.1 '' @ dec_string code @ '' '' @ reason @ crlf @
     ''Connection: keep-alive'' @ crlf @
     ''Access-Control-Allow-Origin: *'' @ crlf @
     ''Content-Length: '' @ dec_string (length body) @ crlf @
     ''Content-Type: '' @ content_type @ crlf @
     extra_headers @ crlf @ body"

abbreviation json_response :: "nat \<Rightarrow> string \<Rightarrow> string \<Rightarrow> string" where
  "json_response code reason body \<equiv> http_response code reason body ''application/json'' []"

definition response_error :: "nat \<Rightarrow> string \<Rightarrow> string \<Rightarrow> string" where
  "response_error code reason cause =
     json_response code reason
       (''{\"status\":\"failure\",\"error\":'' @ dec_string code @ '',\"cause\":\"'' @ cause @ ''\"}'')"

section \<open>Random strings and digests\<close>

text \<open>Two lower-case hexadecimal digits per byte.\<close>

definition hex_lower :: "nat \<Rightarrow> char" where
  "hex_lower d = (if d < 10 then char_of (48 + d) else char_of (87 + d))"

definition hex_encode :: "string \<Rightarrow> string" where
  "hex_encode bytes = concat (map (\<lambda>c. [hex_lower (of_char c div 16), hex_lower (of_char c mod 16)]) bytes)"

definition md5_hex :: "service_env \<Rightarrow> string \<Rightarrow> string" where
  "md5_hex env inp = hex_encode (sv_md5 env inp)"

definition alnum_alphabet :: string where
  "alnum_alphabet = ''ABCDEFGHIJKLMNOPQRSTUVWXYZabcdefghijklmnopqrstuvwxyz0123456789''"

text \<open>The bytes come from \<^verbatim>\<open>RAND_bytes\<close>, or from \<^verbatim>\<open>std::random_device\<close> when that fails.\<close>

definition random_alnum :: "nat \<Rightarrow> ('a, string) db_effect" where
  "random_alnum n = eff_bind (RAND_bytes n) (\<lambda>(ok, bytes).
     eff_return (map (\<lambda>c. alnum_alphabet ! (of_char c mod 62)) bytes))"

definition compute_sip_ha1 :: "service_env \<Rightarrow> string \<Rightarrow> string \<Rightarrow> string \<Rightarrow> string" where
  "compute_sip_ha1 env username realm password = md5_hex env (username @ '':'' @ realm @ '':'' @ password)"

definition mint_bearer_token :: "('a, string) db_effect" where
  "mint_bearer_token = eff_bind (RAND_bytes 16) (\<lambda>(ok, bytes).
     eff_return (if ok then hex_encode bytes else []))"

section \<open>Lookup of a key in a list of pairs\<close>

text \<open>
  The loop of \<^verbatim>\<open>query_param\<close> and \<^verbatim>\<open>cookie_value\<close>: pieces between separators, the first one of the form
  \<^verbatim>\<open>key=value\<close>.
\<close>

function pair_scan :: "char \<Rightarrow> (string \<Rightarrow> string) \<Rightarrow> string \<Rightarrow> string \<Rightarrow> string" where
  "pair_scan sep trim key s =
     (if s = [] then []
      else let (pair, rest) =
                 (case str_find s [sep] of None \<Rightarrow> (s, []) | Some i \<Rightarrow> (take i s, drop (i + 1) s));
               p = trim pair
           in case str_find p ''='' of
                Some eq \<Rightarrow> if take eq p = key then drop (eq + 1) p else pair_scan sep trim key rest
              | None \<Rightarrow> pair_scan sep trim key rest)"
  by pat_completeness auto
termination
  by (relation "measure (\<lambda>(sep, trim, key, s). length s)") (auto split: option.splits dest: str_find_SomeD)

declare pair_scan.simps [simp del]

definition query_param :: "string \<Rightarrow> string \<Rightarrow> string" where
  "query_param uri_with_query key =
     (case str_find uri_with_query ''?'' of
        None \<Rightarrow> []
      | Some q \<Rightarrow> pair_scan (CHR ''&'') id key (drop (q + 1) uri_with_query))"

definition trim_blanks :: "string \<Rightarrow> string" where
  "trim_blanks pair =
     (let t = dropWhile (\<lambda>c. c \<in> {CHR '' '', CHR 0x09}) pair in if t = [] then pair else t)"

definition cookie_value :: "string \<Rightarrow> string \<Rightarrow> string" where
  "cookie_value cookie_header key = pair_scan (CHR '';'') trim_blanks key cookie_header"

definition raw_uri_with_query :: "string \<Rightarrow> string" where
  "raw_uri_with_query req =
     (case str_find req crlf of
        None \<Rightarrow> []
      | Some en \<Rightarrow>
          (let line = take en req
           in case str_find line '' '' of
                None \<Rightarrow> []
              | Some sp1 \<Rightarrow>
                  (case str_find_from line '' '' (sp1 + 1) of
                     None \<Rightarrow> []
                   | Some sp2 \<Rightarrow> substr line (sp1 + 1) (sp2 - sp1 - 1))))"

definition path_suffix :: "string \<Rightarrow> string \<Rightarrow> string" where
  "path_suffix req prefix =
     (let raw = raw_uri_with_query req;
          uri = (case str_find raw ''?'' of Some q \<Rightarrow> take q raw | None \<Rightarrow> raw)
      in if length uri \<le> length prefix \<or> take (length prefix) uri \<noteq> prefix then []
         else drop (length prefix) uri)"

definition extract_session_token :: "service_env \<Rightarrow> string \<Rightarrow> ('s, string) effect" where
  "extract_session_token env req =
     (let tok = query_param (raw_uri_with_query req) ''token''
      in if tok \<noteq> [] then eff_return tok
         else eff_bind (eff_result (Http (sv_zlib env) req)) (\<lambda>parsed.
           eff_return (cookie_value (get_element parsed ''Cookie'') ''session'')))"

section \<open>CSV\<close>

function split_fields :: "string \<Rightarrow> string list" where
  "split_fields line =
     (case str_find line '','' of
        None \<Rightarrow> [line]
      | Some comma \<Rightarrow> take comma line # split_fields (drop (comma + 1) line))"
  by pat_completeness auto
termination by (relation "measure length") (auto dest: str_find_SomeD)

declare split_fields.simps [simp del]

definition split_csv_row :: "string \<Rightarrow> string list" where
  "split_csv_row line = split_fields (chomp line)"

definition csv_escape :: "string \<Rightarrow> string" where
  "csv_escape field =
     (if set field \<inter> {CHR '','', CHR 0x22, CHR 0x0D, CHR 0x0A} = {} then field
      else CHR 0x22 # concat (map (\<lambda>c. if c = CHR 0x22 then [CHR 0x22, CHR 0x22] else [c]) field) @ [CHR 0x22])"

section \<open>Sessions\<close>

definition kSessionTtlSec :: int where "kSessionTtlSec = 86400"

definition kSessionTtlGuardSec :: int where "kSessionTtlGuardSec = 604800"

definition ttl_sec_for_role :: "string \<Rightarrow> int" where
  "ttl_sec_for_role role = (if role = ''guard'' then kSessionTtlGuardSec else kSessionTtlSec)"

text \<open>
  The test every user of a session makes: \<^verbatim>\<open>expiresAt\<close> is present, is a number, and lies in the future.
\<close>

definition session_live :: "service_env \<Rightarrow> json \<Rightarrow> int \<Rightarrow> bool" where
  "session_live env session now \<longleftrightarrow>
     (case j_get session ''expiresAt'' of
        Some (JInt n) \<Rightarrow> now < n
      | Some (JFloat f) \<Rightarrow> now < sv_float_long env f
      | _ \<Rightarrow> False)"

definition token_query :: "string \<Rightarrow> json" where
  "token_query token = JObject [(''token'', JString token)]"

definition expiry_update :: "int \<Rightarrow> json" where
  "expiry_update t = JObject [(''$set'', JObject [(''expiresAt'', JInt t)])]"

text \<open>Assignments and erasures on an object.\<close>

fun j_put :: "string \<Rightarrow> json \<Rightarrow> json \<Rightarrow> json" where
  "j_put k v (JObject kvs) = JObject (AList.update k v kvs)"
| "j_put k v j = j"

fun j_erase :: "string \<Rightarrow> json \<Rightarrow> json" where
  "j_erase k (JObject kvs) = JObject (AList.delete k kvs)"
| "j_erase k j = j"

text \<open>The first of the required fields that is not a non-empty string.\<close>

definition missing_field :: "string list \<Rightarrow> json \<Rightarrow> string option" where
  "missing_field required body =
     List.find (\<lambda>f. case j_get_string body f of None \<Rightarrow> True | Some v \<Rightarrow> v = []) required"

definition field_text :: "json \<Rightarrow> string \<Rightarrow> string" where
  "field_text j k = (case j_get_string j k of Some v \<Rightarrow> v | None \<Rightarrow> [])"

definition j_value_eff :: "json \<Rightarrow> string \<Rightarrow> string \<Rightarrow> ('s, string) effect" where
  "j_value_eff j k d = eff_sum (j_value j k d)"

text \<open>\<^verbatim>\<open>j.value(key, false)\<close>.\<close>

definition j_value_bool :: "json \<Rightarrow> string \<Rightarrow> bool \<Rightarrow> ('s, bool) effect" where
  "j_value_bool j k d =
     (case j of
        JObject kvs \<Rightarrow>
          (case map_of kvs k of
             None \<Rightarrow> eff_return d
           | Some (JBool b) \<Rightarrow> eff_return b
           | Some _ \<Rightarrow> eff_throw JsonTypeError)
      | _ \<Rightarrow> eff_throw JsonTypeError)"

text \<open>The best-effort write that moves the expiry of a session forward by the lifetime of its role.\<close>

definition slide_expiry :: "service_env \<Rightarrow> int \<Rightarrow> string \<Rightarrow> json \<Rightarrow> ('a, unit) db_effect" where
  "slide_expiry env now token session =
     eff_bind (j_value_eff session ''role'' ''resident'') (\<lambda>role.
     eff_catch
       (eff_bind (json_dump env (token_query token)) (\<lambda>f.
        eff_bind (json_dump env (expiry_update (now + ttl_sec_for_role role))) (\<lambda>u.
        eff_bind (db_bool env (UpdateCollection ''sessions'' f u)) (\<lambda>_. eff_return ()))))
       (eff_return ()))"

definition refresh_session_expiry :: "service_env \<Rightarrow> int \<Rightarrow> string \<Rightarrow> ('a, unit) db_effect" where
  "refresh_session_expiry env now token =
     (if token = [] then eff_return ()
      else
        eff_bind (eff_catch
          (eff_bind (json_dump env (token_query token)) (\<lambda>f. db_text env (GetDocument ''sessions'' f ''{}'')))
          (eff_return [])) (\<lambda>record.
        if record = [] then eff_return ()
        else case js_parse (sv_json env) record of
               None \<Rightarrow> eff_return ()
             | Some session \<Rightarrow>
                 (if session_live env session now then slide_expiry env now token session else eff_return ())))"

lemma j_value_eff_log [effect_intros]: "logs_only lg A (j_value_eff j k d)"
  by (simp add: j_value_eff_def effect_intros)

lemma j_value_bool_log [effect_intros]: "logs_only lg A (j_value_bool j k d)"
  by (auto simp: j_value_bool_def intro!: effect_intros split: json.splits option.splits)

lemma random_alnum_log [effect_intros]: "logs_only db_log A (random_alnum n)"
  by (auto simp: random_alnum_def intro!: effect_intros)

lemma mint_bearer_token_log [effect_intros]: "logs_only db_log A mint_bearer_token"
  by (auto simp: mint_bearer_token_def intro!: effect_intros)

lemma hash_password_log [effect_intros]: "logs_only db_log A (hash_password env pw)"
  by (auto simp: hash_password_def intro!: effect_intros)

lemma extract_session_token_log [effect_intros]: "logs_only lg A (extract_session_token env req)"
  by (auto simp: extract_session_token_def Let_def intro!: effect_intros)

lemma j_value_eff_Done [simp]: "j_value_eff j k d s = (Done v, t) \<longleftrightarrow> j_value j k d = Inr v \<and> t = s"
  by (simp add: j_value_eff_def)

lemma slide_expiry_log: "(\<And>f u. A (UpdateCollection ''sessions'' f u)) \<Longrightarrow> logs_only db_log A (slide_expiry env now token session)"
  by (auto simp: slide_expiry_def intro!: effect_intros)

section \<open>Lookup in a printed request\<close>

lemma url_encode_inj: "url_encode a = url_encode b \<Longrightarrow> a = b"
  by (metis Inr_inject pct_decode_url_encode)

lemma str_find_from_char_first:
  "c \<notin> set b \<Longrightarrow> str_find_from (a @ b @ c # r) [c] (length a) = Some (length a + length b)"
  using str_find_char_first[of c b r] by (simp add: str_find_from_def)

text \<open>The raw target of a printed request.\<close>

lemma raw_uri_print:
  assumes m: "method_ok meth"
  shows "raw_uri_with_query (print_request meth path qs hs body) = print_target path qs"
proof -
  let ?t = "print_target path qs"
  define l where "l = meth @ '' '' @ ?t @ '' HTTP/1.1''"
  have req: "print_request meth path qs hs body = l @ crlf @ unlines (map print_header hs) @ crlf @ body"
    by (simp add: print_request_def l_def)
  have "CHR 0x0D \<notin> set l" using m by (auto simp: l_def method_ok_def print_target_misses)
  then have e: "str_find (print_request meth path qs hs body) crlf = Some (length l)"
    unfolding req by (rule str_find_crlf)
  have ln: "take (length l) (print_request meth path qs hs body) = l" by (simp add: req)
  have sp1: "str_find l '' '' = Some (length meth)"
    using str_find_char_first[of "CHR '' ''" meth "?t @ '' HTTP/1.1''"] m by (simp add: l_def method_ok_def)
  have "CHR '' '' \<notin> set ?t" by (simp add: print_target_misses)
  from str_find_from_char_first[OF this, of "meth @ '' ''" "''HTTP/1.1''"]
  have sp2: "str_find_from l '' '' (length meth + 1) = Some (length meth + 1 + length ?t)" by (simp add: l_def)
  have "substr l (length meth + 1) (length meth + 1 + length ?t - length meth - 1) = ?t" by (simp add: substr_def l_def)
  then show ?thesis
    unfolding raw_uri_with_query_def e option.case Let_def ln sp1 sp2 .
qed

text \<open>A query parameter is found under its encoded name, and it is not decoded.\<close>

lemma pair_scan_query:
  "pair_scan (CHR ''&'') id (url_encode k) (print_query qs) =
     (case map_of qs k of Some v \<Rightarrow> url_encode v | None \<Rightarrow> [])"
proof (induction qs rule: print_query.induct)
  case 1
  show ?case by (subst pair_scan.simps) simp
next
  case (2 kv)
  have amp: "str_find (print_pair kv) ''&'' = None"
    using str_find_char_None[of "print_pair kv" "CHR ''&''"] by (simp add: print_pair_def url_encode_misses)
  have eq: "str_find (print_pair kv) ''='' = Some (length (url_encode (fst kv)))"
    using str_find_char_first[of "CHR ''=''" "url_encode (fst kv)"] by (simp add: print_pair_def url_encode_misses)
  have ne: "print_pair kv \<noteq> []" by (simp add: print_pair_def)
  have nil: "pair_scan (CHR ''&'') id (url_encode k) [] = []" by (subst pair_scan.simps) simp
  show ?case
    using amp eq ne nil by (subst pair_scan.simps) (auto simp: print_pair_def Let_def dest: url_encode_inj)
next
  case (3 kv kv2 kvs)
  let ?r = "print_query (kv2 # kvs)"
  have "CHR ''&'' \<notin> set (print_pair kv)" by (simp add: print_pair_def url_encode_misses)
  then have amp: "str_find (print_pair kv @ CHR ''&'' # ?r) ''&'' = Some (length (print_pair kv))"
    by (rule str_find_char_first)
  have eq: "str_find (print_pair kv) ''='' = Some (length (url_encode (fst kv)))"
    using str_find_char_first[of "CHR ''=''" "url_encode (fst kv)"] by (simp add: print_pair_def url_encode_misses)
  have q: "print_query (kv # kv2 # kvs) = print_pair kv @ CHR ''&'' # ?r" by simp
  have parts: "take (length (url_encode (fst kv))) (print_pair kv) = url_encode (fst kv)"
    "drop (length (url_encode (fst kv)) + 1) (print_pair kv) = url_encode (snd kv)" by (simp_all add: print_pair_def)
  show ?case
    unfolding q by (subst pair_scan.simps) (auto simp: Let_def amp eq parts[simplified] 3 dest: url_encode_inj)
qed

lemma query_param_print:
  "query_param (print_target path qs) (url_encode k) = (case map_of qs k of Some v \<Rightarrow> url_encode v | None \<Rightarrow> [])"
proof (cases "qs = []")
  case True
  then show ?thesis
    using str_find_char_None[of "path_encode path" "CHR ''?''"]
    by (simp add: query_param_def print_target_def path_encode_misses)
next
  case False
  then have "print_target path qs = path_encode path @ CHR ''?'' # print_query qs" by (simp add: print_target_def)
  moreover have "str_find (path_encode path @ CHR ''?'' # print_query qs) ''?'' = Some (length (path_encode path))"
    by (intro str_find_char_first path_encode_misses) simp_all
  ultimately show ?thesis by (simp add: query_param_def pair_scan_query)
qed

lemma url_encode_plain: "list_all is_unreserved s \<Longrightarrow> url_encode s = s"
  by (induction s) (simp_all add: url_encode_def url_encode_char_def)

text \<open>The last part of a path, as it was written.\<close>

lemma path_suffix_print:
  assumes m: "method_ok meth" and path: "path_encode path = prefix @ suffix" and "suffix \<noteq> []"
  shows "path_suffix (print_request meth path qs hs body) prefix = suffix"
proof -
  have "(case str_find (print_target path qs) ''?'' of Some q \<Rightarrow> take q (print_target path qs) | None \<Rightarrow> print_target path qs) = path_encode path"
  proof (cases "qs = []")
    case True
    then have "str_find (print_target path qs) ''?'' = None"
      by (simp add: print_target_def str_find_char_None path_encode_misses)
    then show ?thesis using True by (simp add: print_target_def)
  next
    case False
    then have t: "print_target path qs = path_encode path @ CHR ''?'' # print_query qs" by (simp add: print_target_def)
    have "str_find (print_target path qs) ''?'' = Some (length (path_encode path))"
      unfolding t by (intro str_find_char_first path_encode_misses) simp_all
    then show ?thesis by (simp add: t)
  qed
  with assms(2,3) show ?thesis by (simp add: path_suffix_def raw_uri_print[OF m] Let_def)
qed

end
