(* ===== verification/Pbx_Service.thy ===== *)
theory Pbx_Service
  imports Pbx_Helpers Presence_Cache
begin

text \<open>
  The REST handlers of the service (\<^verbatim>\<open>microservice_pbx.cpp\<close>), one definition each.  A handler maps a
  request text to a response text and acts on the database; the clock readings, the presence cache
  (\<^term>\<open>None\<close> is a null pointer) and the revocation sink are arguments.
\<close>

section \<open>Societies\<close>

text \<open>A filter with one field, concatenated without escaping.\<close>

definition raw_filter :: "string \<Rightarrow> string \<Rightarrow> string" where
  "raw_filter key value = ''{\"'' @ key @ ''\":\"'' @ value @ ''\"}''"

definition raw_filter2 :: "string \<Rightarrow> string \<Rightarrow> string \<Rightarrow> string \<Rightarrow> string" where
  "raw_filter2 key value key2 value2 =
     ''{\"'' @ key @ ''\":\"'' @ value @ ''\",\"'' @ key2 @ ''\":\"'' @ value2 @ ''\"}''"

definition bad_request :: "string \<Rightarrow> string" where
  "bad_request cause = response_error 400 ''Bad Request'' cause"

abbreviation parse_http :: "service_env \<Rightarrow> string \<Rightarrow> ('s, http) effect" where
  "parse_http env req \<equiv> eff_result (Http (sv_zlib env) req)"

definition society_doc :: "json \<Rightarrow> string \<Rightarrow> string \<Rightarrow> json" where
  "society_doc body code secret =
     j_put ''ringTimeoutSec'' (JInt 30) (j_put ''maxConcurrentCalls'' (JInt 5)
       (j_put ''turnSharedSecret'' (JString secret) (j_put ''sipRealm'' (JString (code @ ''.pbx.local'')) body)))"

definition handle_society_POST :: "service_env \<Rightarrow> string \<Rightarrow> ('a, string) db_effect" where
  "handle_society_POST env req =
     eff_bind (parse_http env req) (\<lambda>parsed.
     case js_parse (sv_json env) (m_body parsed) of
       None \<Rightarrow> eff_return (bad_request ''Invalid JSON body'')
     | Some body \<Rightarrow>
         (case missing_field [''name'', ''code''] body of
            Some f \<Rightarrow> eff_return (bad_request (''Missing field: '' @ f))
          | None \<Rightarrow>
              (let code = field_text body ''code''
               in eff_bind (db_text env (GetDocument ''societies'' (raw_filter ''code'' code) ''{}'')) (\<lambda>existing.
                  if existing \<noteq> [] then
                    eff_return (response_error 409 ''Conflict'' ''Society code already exists'')
                  else eff_bind (random_alnum 32) (\<lambda>secret.
                    eff_bind (json_dump env (society_doc body code secret)) (\<lambda>doc.
                    eff_bind (db_text env (CreateDocument ''societies'' doc)) (\<lambda>inserted.
                    eff_return (json_response 201 ''Created'' (if inserted = [] then doc else inserted)))))))))"

text \<open>A query whose failure, whatever it is, is answered with an empty list.\<close>

definition try_text :: "('s, string) effect \<Rightarrow> ('s, string option) effect" where
  "try_text m = eff_catch (eff_bind m (\<lambda>r. eff_return (Some r))) (eff_return None)"

definition empty_list :: string where
  "empty_list = json_response 200 ''OK'' ''[]''"

definition handle_societies_GET :: "service_env \<Rightarrow> ('a, string) db_effect" where
  "handle_societies_GET env =
     (if \<not> db_available env then eff_return empty_list
      else eff_bind (try_text (db_text env (GetAllDocuments ''societies'' ''{}''))) (\<lambda>raw.
        case raw of
          None \<Rightarrow> eff_return empty_list
        | Some raw \<Rightarrow>
            (if raw = [] then eff_return empty_list
             else case js_parse (sv_json env) raw of
                    Some (JArray arr) \<Rightarrow>
                      eff_bind (json_dump env (JArray (map (j_erase ''turnSharedSecret'') arr))) (\<lambda>out.
                      eff_return (json_response 200 ''OK'' out))
                  | _ \<Rightarrow> eff_return empty_list)))"

definition handle_society_detail_GET :: "service_env \<Rightarrow> string \<Rightarrow> ('a, string) db_effect" where
  "handle_society_detail_GET env req =
     (let i = path_suffix req ''/api/v1/society/''
      in if i = [] then eff_return (bad_request ''Missing society id in path'')
         else if \<not> db_available env then
           eff_return (response_error 503 ''Service Unavailable'' ''DB not configured'')
         else eff_bind (json_dump env (JObject [(''_id'', JString i)])) (\<lambda>query.
           eff_bind (db_text env (GetDocument ''societies'' query ''{}'')) (\<lambda>doc.
           eff_return (if doc = [] then response_error 404 ''Not Found'' ''Unknown society id''
                       else json_response 200 ''OK'' doc))))"

section \<open>Administration\<close>

definition missing_society :: string where
  "missing_society = bad_request ''Missing required query param: societyId''"

text \<open>One row of the administrator's list: secrets stripped, presence added.\<close>

definition admin_row :: "presence option \<Rightarrow> string \<Rightarrow> json \<Rightarrow> cpp_exn + json" where
  "admin_row presence society_id row =
     (if \<not> j_is_object row then Inr row
      else let row' = j_erase ''sipHa1'' (j_erase ''portalPasswordHash'' row)
           in case presence of
                None \<Rightarrow> Inr row'
              | Some pc \<Rightarrow>
                  (case j_value row' ''sipUsername'' [] of
                     Inl e \<Rightarrow> Inl e
                   | Inr u \<Rightarrow>
                       Inr (j_put ''online'' (JBool (u \<noteq> [] \<and> presence_is_online society_id u pc)) row')))"

fun sum_list_of :: "('a \<Rightarrow> cpp_exn + 'b) \<Rightarrow> 'a list \<Rightarrow> cpp_exn + 'b list" where
  "sum_list_of f [] = Inr []"
| "sum_list_of f (x # xs) =
     (case f x of
        Inl e \<Rightarrow> Inl e
      | Inr y \<Rightarrow> (case sum_list_of f xs of Inl e \<Rightarrow> Inl e | Inr ys \<Rightarrow> Inr (y # ys)))"

definition handle_admin_subscribers_GET ::
  "service_env \<Rightarrow> presence option \<Rightarrow> string \<Rightarrow> ('a, string) db_effect" where
  "handle_admin_subscribers_GET env presence req =
     (let society_id = query_param (raw_uri_with_query req) ''societyId''
      in if society_id = [] then eff_return missing_society
         else if \<not> db_available env then eff_return empty_list
         else eff_bind (try_text
             (eff_bind (json_dump env (JObject [(''societyId'', JString society_id)])) (\<lambda>q.
              db_text env (GetDocuments ''subscribers'' q ''{}'')))) (\<lambda>raw.
           case raw of
             None \<Rightarrow> eff_return empty_list
           | Some raw \<Rightarrow>
               (if raw = [] then eff_return empty_list
                else case js_parse (sv_json env) raw of
                       Some (JArray arr) \<Rightarrow>
                         eff_bind (eff_sum (sum_list_of (admin_row presence society_id) arr)) (\<lambda>rows.
                         eff_bind (json_dump env (JArray rows)) (\<lambda>out.
                         eff_return (json_response 200 ''OK'' out)))
                     | _ \<Rightarrow> eff_return empty_list)))"

definition connectivity_body :: "bool \<Rightarrow> bool \<Rightarrow> bool \<Rightarrow> bool \<Rightarrow> json" where
  "connectivity_body agent wsdb mongo asterisk =
     JObject [(''agent'', JObject [(''connected'', JBool agent)]),
              (''wsdbagent'', JObject [(''connected'', JBool wsdb)]),
              (''mongo'', JObject [(''connected'', JBool mongo)]),
              (''asterisk'', JObject [(''connected'', JBool asterisk)])]"

definition handle_admin_connectivity_GET :: "service_env \<Rightarrow> bool \<Rightarrow> bool \<Rightarrow> ('a, string) db_effect" where
  "handle_admin_connectivity_GET env agent_connected asterisk_connected =
     eff_bind (is_remote_disconnected env) (\<lambda>down.
     eff_bind (if down then eff_return False
               else eff_catch (eff_bind (db_text env (NextAwbno ''HEALTHCHK'')) (\<lambda>r. eff_return (r \<noteq> [])))
                      (eff_return False)) (\<lambda>mongo_connected.
     eff_bind (is_remote_disconnected env) (\<lambda>down2.
     eff_bind (json_dump env (connectivity_body agent_connected (\<not> down2) mongo_connected asterisk_connected)) (\<lambda>body.
     eff_return (json_response 200 ''OK'' body)))))"

section \<open>Import of subscribers\<close>

definition index_of :: "string list \<Rightarrow> string \<Rightarrow> nat option" where
  "index_of header col =
     (if col \<in> set header then Some (length (takeWhile (\<lambda>h. h \<noteq> col) header)) else None)"

definition row_get :: "string list \<Rightarrow> nat option \<Rightarrow> string" where
  "row_get row i = (case i of Some k \<Rightarrow> if k < length row then row ! k else [] | None \<Rightarrow> [])"

record csv_columns =
  i_flat :: "nat option"
  i_name :: "nat option"
  i_email :: "nat option"
  i_phone :: "nat option"
  i_role :: "nat option"

definition csv_columns_of :: "string list \<Rightarrow> csv_columns" where
  "csv_columns_of header =
     \<lparr>i_flat = index_of header ''flat_number'', i_name = index_of header ''name'',
      i_email = index_of header ''email'', i_phone = index_of header ''phone'', i_role = index_of header ''role''\<rparr>"

text \<open>The fields of one row.\<close>

record csv_person =
  cp_flat_no :: string
  cp_name :: string
  cp_email :: string
  cp_phone :: string
  cp_role :: string

definition csv_person_of :: "csv_columns \<Rightarrow> string list \<Rightarrow> csv_person" where
  "csv_person_of cols row =
     \<lparr>cp_flat_no = row_get row (i_flat cols), cp_name = row_get row (i_name cols),
      cp_email = row_get row (i_email cols), cp_phone = row_get row (i_phone cols),
      cp_role = (if row_get row (i_role cols) = [] then ''resident'' else row_get row (i_role cols))\<rparr>"

definition subscriber_doc :: "string \<Rightarrow> string \<Rightarrow> csv_person \<Rightarrow> string \<Rightarrow> string \<Rightarrow> string \<Rightarrow> json" where
  "subscriber_doc society_id flat_id p sip_username sip_ha1 portal_hash =
     JObject [(''societyId'', JString society_id), (''flatId'', JString flat_id), (''flatNumber'', JString (cp_flat_no p)),
              (''name'', JString (cp_name p)), (''email'', JString (cp_email p)), (''phone'', JString (cp_phone p)),
              (''role'', JString (cp_role p)), (''status'', JString ''active''), (''autoAnswer'', JBool False),
              (''sipUsername'', JString sip_username), (''sipHa1'', JString sip_ha1),
              (''portalPasswordHash'', JString portal_hash)]"

record import_state =
  im_csv :: string
  im_created :: nat
  im_skipped :: nat

text \<open>
  The flat of a resident must exist; its id stays empty when the document has another shape.
  \<^verbatim>\<open>Inl\<close> is an error response that ends the import.
\<close>

definition resolve_flat :: "service_env \<Rightarrow> string \<Rightarrow> nat \<Rightarrow> string \<Rightarrow> string \<Rightarrow> ('a, string + string) db_effect" where
  "resolve_flat env society_id r role flat_no =
     (if role \<noteq> ''resident'' then eff_return (Inr [])
      else eff_bind (db_text env (GetDocument ''flats'' (raw_filter2 ''societyId'' society_id ''number'' flat_no) ''{}'')) (\<lambda>flat_doc.
        if flat_doc = [] then
          eff_return (Inl (bad_request (''Row '' @ dec_string r @ '': unknown flat_number '' @ [CHR 0x27] @ flat_no @ [CHR 0x27])))
        else eff_return (Inr (case js_parse (sv_json env) flat_doc of
                                Some j \<Rightarrow> field_text j ''_id'' | None \<Rightarrow> []))))"

text \<open>The three columns every line of the result starts with.\<close>

definition person_csv :: "csv_person \<Rightarrow> string" where
  "person_csv p = csv_escape (cp_flat_no p) @ '','' @ csv_escape (cp_name p) @ '','' @ csv_escape (cp_email p)"

definition create_subscriber ::
  "service_env \<Rightarrow> string \<Rightarrow> string \<Rightarrow> string \<Rightarrow> csv_person \<Rightarrow> import_state \<Rightarrow> ('a, import_state) db_effect" where
  "create_subscriber env society_id realm flat_id p st =
     eff_bind (random_alnum 10) (\<lambda>u.
     eff_bind (random_alnum 16) (\<lambda>sip_password.
     eff_bind (random_alnum 16) (\<lambda>portal_password.
     let sip_username = ''u_'' @ u; sip_ha1 = compute_sip_ha1 env sip_username realm sip_password
     in eff_bind (hash_password env portal_password) (\<lambda>portal_hash.
        eff_bind (json_dump env (subscriber_doc society_id flat_id p sip_username sip_ha1 portal_hash)) (\<lambda>doc.
        eff_bind (db_text env (CreateDocument ''subscribers'' doc)) (\<lambda>_.
        eff_return (st\<lparr>im_csv := im_csv st @ person_csv p @ '','' @ sip_username @ '','' @ sip_password @ '','' @
                                 portal_password @ '',created'' @ crlf,
                       im_created := Suc (im_created st)\<rparr>)))))))"

definition import_row ::
  "service_env \<Rightarrow> string \<Rightarrow> string \<Rightarrow> csv_columns \<Rightarrow> nat \<Rightarrow> string list \<Rightarrow> import_state
    \<Rightarrow> ('a, string + import_state) db_effect" where
  "import_row env society_id realm cols r row st =
     (let p = csv_person_of cols row
      in if cp_flat_no p = [] \<or> cp_name p = [] \<or> cp_email p = [] then
           eff_return (Inl (bad_request (''Row '' @ dec_string r @ '': missing required field'')))
         else eff_bind (resolve_flat env society_id r (cp_role p) (cp_flat_no p)) (\<lambda>flat.
           case flat of
             Inl err \<Rightarrow> eff_return (Inl err)
           | Inr flat_id \<Rightarrow>
               eff_bind (db_text env (GetDocument ''subscribers''
                 (raw_filter2 ''societyId'' society_id ''email'' (cp_email p)) ''{}'')) (\<lambda>existing.
               if existing \<noteq> [] then
                 eff_return (Inr (st\<lparr>im_csv := im_csv st @ person_csv p @ '',,,,skipped'' @ crlf,
                                      im_skipped := Suc (im_skipped st)\<rparr>))
               else eff_bind (create_subscriber env society_id realm flat_id p st)
                      (\<lambda>st'. eff_return (Inr st')))))"

fun import_rows ::
  "service_env \<Rightarrow> string \<Rightarrow> string \<Rightarrow> csv_columns \<Rightarrow> nat \<Rightarrow> string list list \<Rightarrow> import_state
    \<Rightarrow> ('a, string + import_state) db_effect" where
  "import_rows env society_id realm cols r [] st = eff_return (Inr st)"
| "import_rows env society_id realm cols r (row # rows) st =
     eff_bind (import_row env society_id realm cols r row st) (\<lambda>res.
     case res of
       Inl err \<Rightarrow> eff_return (Inl err)
     | Inr st' \<Rightarrow> import_rows env society_id realm cols (Suc r) rows st')"

definition csv_rows :: "string \<Rightarrow> string list list" where
  "csv_rows csv =
     map split_csv_row (filter (\<lambda>l. l \<noteq> [] \<and> l \<noteq> [CHR 0x0D]) (getline_split (CHR 0x0A) csv))"

definition import_response :: "import_state \<Rightarrow> string" where
  "import_response st =
     ''HTTP/1.1 200 OK'' @ crlf @ ''Connection: keep-alive'' @ crlf @
     ''Access-Control-Allow-Origin: *'' @ crlf @
     ''X-Import-Created: '' @ dec_string (im_created st) @ crlf @
     ''X-Import-Skipped: '' @ dec_string (im_skipped st) @ crlf @
     ''Content-Length: '' @ dec_string (length (im_csv st)) @ crlf @ ''Content-Type: text/csv'' @ crlf @
     ''Content-Disposition: attachment; filename=\"subscriber_credentials.csv\"'' @ crlf @ crlf @ im_csv st"

definition import_header :: string where
  "import_header = ''flat_number,name,email,sipUsername,sipPassword,portalPassword,status'' @ crlf"

definition handle_subscriber_import_POST :: "service_env \<Rightarrow> string \<Rightarrow> ('a, string) db_effect" where
  "handle_subscriber_import_POST env req =
     eff_bind (parse_http env req) (\<lambda>parsed.
     let society_id = query_param (raw_uri_with_query req) ''societyId''
     in if society_id = [] then eff_return missing_society
        else eff_bind (db_text env (GetDocument ''societies'' (raw_filter ''_id'' society_id) ''{}'')) (\<lambda>society.
          if society = [] then eff_return (response_error 404 ''Not Found'' ''Unknown societyId'')
          else case (case js_parse (sv_json env) society of None \<Rightarrow> None | Some j \<Rightarrow> j_get_string j ''sipRealm'') of
                 None \<Rightarrow> eff_return (response_error 500 ''Internal Server Error'' ''Society document missing sipRealm'')
               | Some realm \<Rightarrow>
                   (let rows = csv_rows (m_body parsed); cols = csv_columns_of (hd rows)
                    in if length rows < 2 then
                         eff_return (bad_request ''CSV must contain a header row and at least one data row'')
                       else if i_flat cols = None \<or> i_name cols = None \<or> i_email cols = None then
                         eff_return (bad_request ''CSV header must include flat_number, name, email'')
                       else eff_bind (import_rows env society_id realm cols 1 (tl rows)
                                        \<lparr>im_csv = import_header, im_created = 0, im_skipped = 0\<rparr>) (\<lambda>res.
                         eff_return (case res of Inl err \<Rightarrow> err | Inr st \<Rightarrow> import_response st)))))"

definition handle_subscriber_import_template_GET :: string where
  "handle_subscriber_import_template_GET =
     http_response 200 ''OK'' (''flat_number,name,email,phone,role'' @ crlf @ crlf) ''text/csv''
       (''Content-Disposition: attachment; filename=subscribers-template.csv'' @ crlf)"

text \<open>The first candidate file that can be opened and is not empty.\<close>

definition template_xlsx :: "service_env \<Rightarrow> string" where
  "template_xlsx env =
     (case sv_file env ''../docs/subscribers-template.xlsx'' of
        Some b \<Rightarrow> if b \<noteq> [] then b
                  else (case sv_file env ''docs/subscribers-template.xlsx'' of Some b' \<Rightarrow> b' | None \<Rightarrow> b)
      | None \<Rightarrow> (case sv_file env ''docs/subscribers-template.xlsx'' of Some b' \<Rightarrow> b' | None \<Rightarrow> []))"

definition handle_subscriber_import_template_xlsx_GET :: "service_env \<Rightarrow> string" where
  "handle_subscriber_import_template_xlsx_GET env =
     (if template_xlsx env = [] then
        response_error 404 ''Not Found''
          (''XLSX template missing '' @ [CHR 0xE2, CHR 0x80, CHR 0x94] @
           '' rebuild the cloud image (scripts/generate-subscriber-template.py runs at build time)'')
      else http_response 200 ''OK'' (template_xlsx env)
             ''application/vnd.openxmlformats-officedocument.spreadsheetml.sheet''
             (''Content-Disposition: attachment; filename=subscribers-template.xlsx'' @ crlf))"

end
