(* ===== verification/Pbx_Sessions.thy ===== *)
theory Pbx_Sessions
  imports Pbx_Service
begin

text \<open>
  The second half of \<^verbatim>\<open>microservice_pbx.cpp\<close>: call records, push subscriptions, login, the directory,
  the life cycle of a subscriber, and the three gates a session opens (ping, the \<^verbatim>\<open>/sip-ws\<close> upgrade and
  the administrator's routes).
\<close>

section \<open>Call records and push subscriptions\<close>

definition handle_cdr_GET :: "service_env \<Rightarrow> string \<Rightarrow> ('a, string) db_effect" where
  "handle_cdr_GET env req =
     (let society_id = query_param (raw_uri_with_query req) ''societyId''
      in if society_id = [] then eff_return missing_society
         else if \<not> db_available env then eff_return empty_list
         else eff_bind (try_text (db_text env (GetDocuments ''cdr'' (raw_filter ''societyId'' society_id) ''{}''))) (\<lambda>result.
           case result of
             None \<Rightarrow> eff_return empty_list
           | Some r \<Rightarrow> eff_return (json_response 200 ''OK'' (if r = [] then ''[]'' else r))))"

definition unavailable :: "string \<Rightarrow> string" where
  "unavailable cause = response_error 503 ''Service Unavailable'' cause"

definition handle_push_subscribe_POST :: "service_env \<Rightarrow> string \<Rightarrow> ('a, string) db_effect" where
  "handle_push_subscribe_POST env req =
     eff_bind (parse_http env req) (\<lambda>parsed.
     case js_parse (sv_json env) (m_body parsed) of
       None \<Rightarrow> eff_return (bad_request ''Invalid JSON body'')
     | Some body \<Rightarrow>
         (case missing_field [''subscriberId'', ''endpoint'', ''p256dh'', ''auth''] body of
            Some f \<Rightarrow> eff_return (bad_request (''Missing field: '' @ f))
          | None \<Rightarrow>
              (if \<not> db_available env then
                 eff_return (unavailable ''Push subscriptions store unavailable (no DB configured)'')
               else eff_bind (try_text (eff_bind (json_dump env body) (\<lambda>d.
                      db_text env (CreateDocument ''push_subscriptions'' d)))) (\<lambda>stored.
                    case stored of
                      None \<Rightarrow> eff_return (unavailable ''Push subscriptions store unavailable'')
                    | Some _ \<Rightarrow> eff_bind (json_dump env body) (\<lambda>d. eff_return (json_response 201 ''Created'' d))))))"

section \<open>Login\<close>

definition session_doc :: "string \<Rightarrow> string \<Rightarrow> string \<Rightarrow> string \<Rightarrow> string \<Rightarrow> int \<Rightarrow> json" where
  "session_doc token email society_id sip_username role now =
     JObject [(''token'', JString token), (''email'', JString email), (''societyId'', JString society_id),
              (''sipUsername'', JString sip_username), (''role'', JString role), (''createdAt'', JInt now),
              (''expiresAt'', JInt (now + ttl_sec_for_role role))]"

definition set_cookie :: "string \<Rightarrow> int \<Rightarrow> string" where
  "set_cookie token ttl =
     ''Set-Cookie: session='' @ token @ ''; HttpOnly; Secure; SameSite=Strict; Path=/; Max-Age='' @
     dec_string (nat ttl) @ crlf"

definition finish_login ::
  "service_env \<Rightarrow> int \<Rightarrow> json \<Rightarrow> string \<Rightarrow> string \<Rightarrow> string \<Rightarrow> string \<Rightarrow> ('a, string) db_effect" where
  "finish_login env now subscriber email society_id sip_username role =
     eff_bind mint_bearer_token (\<lambda>token.
     if token = [] then eff_return (response_error 500 ''Internal Server Error'' ''RAND_bytes failed'')
     else
       eff_bind (json_dump env (session_doc token email society_id sip_username role now)) (\<lambda>d.
       eff_bind (db_text env (CreateDocument ''sessions'' d)) (\<lambda>_.
       eff_bind (json_dump env (JObject [(''token'', JString token), (''subscriber'', subscriber)])) (\<lambda>rsp.
       eff_return (http_response 200 ''OK'' rsp ''application/json''
                     (set_cookie token (ttl_sec_for_role role)))))))"

definition profile_of :: "string \<Rightarrow> string \<Rightarrow> string \<Rightarrow> string \<Rightarrow> string \<Rightarrow> bool \<Rightarrow> json" where
  "profile_of society_id flat name sip_user role auto =
     JObject [(''societyId'', JString society_id), (''flatNumber'', JString flat), (''displayName'', JString name),
              (''sipUser'', JString sip_user), (''role'', JString role), (''autoAnswer'', JBool auto)]"

definition invalid_credentials :: string where
  "invalid_credentials = response_error 401 ''Unauthorized'' ''Invalid credentials''"

definition internal_error :: "string \<Rightarrow> string" where
  "internal_error cause = response_error 500 ''Internal Server Error'' cause"

text \<open>Present, a string, and not \<^verbatim>\<open>active\<close>.\<close>

definition account_disabled :: "json \<Rightarrow> bool" where
  "account_disabled subscriber \<longleftrightarrow>
     (case j_get_string subscriber ''status'' of Some st \<Rightarrow> st \<noteq> ''active'' | None \<Rightarrow> False)"

text \<open>The strict path, once the subscriber's record is found.\<close>

definition login_subscriber ::
  "service_env \<Rightarrow> string \<Rightarrow> int \<Rightarrow> string \<Rightarrow> string \<Rightarrow> json \<Rightarrow> ('a, string) db_effect" where
  "login_subscriber env beyond now society_id password subscriber =
     (case j_get_string subscriber ''portalPasswordHash'' of
        None \<Rightarrow> eff_return invalid_credentials
      | Some hash \<Rightarrow>
          eff_bind (eff_sum (verify_password env beyond password hash)) (\<lambda>ok.
          if \<not> ok then eff_return invalid_credentials
          else if account_disabled subscriber then
            eff_return (response_error 403 ''Forbidden'' ''Account disabled'')
          else
            eff_bind (j_value_eff subscriber ''sipUsername'' []) (\<lambda>sip_username.
            eff_bind (j_value_eff subscriber ''role'' ''resident'') (\<lambda>role.
            eff_bind (j_value_eff subscriber ''email'' []) (\<lambda>email.
            eff_bind (j_value_eff subscriber ''flatNumber'' []) (\<lambda>flat.
            eff_bind (j_value_eff subscriber ''name'' []) (\<lambda>name.
            eff_bind (j_value_bool subscriber ''autoAnswer'' False) (\<lambda>auto.
            finish_login env now (profile_of society_id flat name sip_username role auto) email society_id
              sip_username role))))))))"

definition login_strict ::
  "service_env \<Rightarrow> string \<Rightarrow> int \<Rightarrow> string \<Rightarrow> string \<Rightarrow> string \<Rightarrow> ('a, string) db_effect" where
  "login_strict env beyond now society_code flat_number password =
     eff_bind (json_dump env (JObject [(''code'', JString society_code)])) (\<lambda>soc_query.
     eff_bind (db_text env (GetDocument ''societies'' soc_query ''{}'')) (\<lambda>society.
     if society = [] then eff_return invalid_credentials
     else case (case js_parse (sv_json env) society of None \<Rightarrow> Inl JsonParseError | Some j \<Rightarrow> j_value j ''_id'' []) of
            Inl _ \<Rightarrow> eff_return (internal_error ''society record is not valid JSON'')
          | Inr society_id \<Rightarrow>
              (if society_id = [] then eff_return (internal_error ''society record missing _id'')
               else
                 eff_bind (json_dump env (JObject [(''societyId'', JString society_id),
                                                   (''flatNumber'', JString flat_number)])) (\<lambda>sub_query.
                 eff_bind (db_text env (GetDocument ''subscribers'' sub_query ''{}'')) (\<lambda>record.
                 if record = [] then eff_return invalid_credentials
                 else case js_parse (sv_json env) record of
                        None \<Rightarrow> eff_return (internal_error ''subscriber record is not valid JSON'')
                      | Some subscriber \<Rightarrow> login_subscriber env beyond now society_id password subscriber)))))"

definition auth_strict :: "service_env \<Rightarrow> bool" where
  "auth_strict env \<longleftrightarrow> env_or env ''PBX_AUTH_STRICT'' [] = ''1''"

definition handle_subscriber_login_POST ::
  "service_env \<Rightarrow> string \<Rightarrow> int \<Rightarrow> string \<Rightarrow> ('a, string) db_effect" where
  "handle_subscriber_login_POST env beyond now req =
     eff_bind (parse_http env req) (\<lambda>parsed.
     case js_parse (sv_json env) (m_body parsed) of
       None \<Rightarrow> eff_return (bad_request ''Invalid JSON body'')
     | Some body \<Rightarrow>
         (case missing_field [''societyCode'', ''flatNumber'', ''password''] body of
            Some f \<Rightarrow> eff_return (bad_request (''Missing field: '' @ f))
          | None \<Rightarrow>
              (let society_code = field_text body ''societyCode''; flat_number = field_text body ''flatNumber'';
                   password = field_text body ''password''
               in eff_bind (is_remote_disconnected env) (\<lambda>down.
                  if down then eff_return (unavailable ''On-prem agent not connected to cloud'')
                  else if auth_strict env then
                    login_strict env beyond now society_code flat_number password
                  else finish_login env now
                         (profile_of society_code flat_number flat_number flat_number ''resident'' False)
                         [] society_code flat_number ''resident''))))"

section \<open>The directory\<close>

definition matches_prefix :: "string \<Rightarrow> string \<Rightarrow> bool" where
  "matches_prefix flat_prefix flat \<longleftrightarrow>
     flat_prefix = [] \<or> (length flat_prefix \<le> length flat \<and>
       map to_lower (take (length flat_prefix) flat) = map to_lower flat_prefix)"

definition directory_entry :: "presence option \<Rightarrow> string \<Rightarrow> string \<Rightarrow> json \<Rightarrow> cpp_exn + json option" where
  "directory_entry presence society_id flat_prefix row =
     (case j_get_string row ''flatNumber'' of
        None \<Rightarrow> Inr None
      | Some flat \<Rightarrow>
          (if \<not> matches_prefix flat_prefix flat then Inr None
           else case j_value row ''sipUsername'' [] of
                  Inl e \<Rightarrow> Inl e
                | Inr sip_user \<Rightarrow>
                    (case j_value row ''name'' [] of
                       Inl e \<Rightarrow> Inl e
                     | Inr name \<Rightarrow>
                         (let online = (case presence of
                                          None \<Rightarrow> False
                                        | Some pc \<Rightarrow> sip_user \<noteq> [] \<and> presence_is_online society_id sip_user pc)
                          in Inr (Some (JObject [(''flatNumber'', JString flat), (''displayName'', JString name),
                                (''sipUri'', JString (''sip:'' @ flat @ ''@pbx.local'')), (''online'', JBool online)]))))))"

definition directory_rows :: "presence option \<Rightarrow> string \<Rightarrow> string \<Rightarrow> json list \<Rightarrow> cpp_exn + json list" where
  "directory_rows presence society_id flat_prefix arr =
     (case sum_list_of (directory_entry presence society_id flat_prefix) arr of
        Inl e \<Rightarrow> Inl e
      | Inr os \<Rightarrow> Inr (List.map_filter id os))"

definition handle_directory_GET :: "service_env \<Rightarrow> presence option \<Rightarrow> string \<Rightarrow> ('a, string) db_effect" where
  "handle_directory_GET env presence req =
     (let uri = raw_uri_with_query req;
          society_id = query_param uri ''societyId''; flat_prefix = query_param uri ''flatPrefix''
      in if society_id = [] then eff_return missing_society
         else if \<not> db_available env then eff_return empty_list
         else eff_bind (try_text (db_text env
               (GetDocuments ''subscribers'' (raw_filter ''societyId'' society_id) ''{}''))) (\<lambda>result.
           case result of
             None \<Rightarrow> eff_return empty_list
           | Some result \<Rightarrow>
               (if result = [] then eff_return empty_list
                else let arr = (case js_parse (sv_json env) result of Some (JArray arr) \<Rightarrow> arr | _ \<Rightarrow> [])
                     in eff_bind (eff_sum (directory_rows presence society_id flat_prefix arr)) (\<lambda>rows.
                        eff_bind (json_dump env (JArray rows)) (\<lambda>out.
                        eff_return (json_response 200 ''OK'' out))))))"

section \<open>Disabling and removing a subscriber\<close>

text \<open>\<^verbatim>\<open>Inl\<close> is the ready error response, \<^verbatim>\<open>Inr\<close> the user, the society and the filter.\<close>

definition resolve_lifecycle_target ::
  "service_env \<Rightarrow> string \<Rightarrow> ('a, string + (string \<times> string \<times> string)) db_effect" where
  "resolve_lifecycle_target env req =
     (let sip_username = path_suffix req ''/api/v1/subscriber/'';
          society_id = query_param (raw_uri_with_query req) ''societyId''
      in if sip_username = [] then eff_return (Inl (bad_request ''Missing subscriber sipUsername in path''))
         else if society_id = [] then eff_return (Inl missing_society)
         else
           eff_bind (json_dump env (JObject [(''societyId'', JString society_id),
                                             (''sipUsername'', JString sip_username)])) (\<lambda>flt.
           eff_bind (db_text env (GetDocument ''subscribers'' flt ''{}'')) (\<lambda>doc.
           eff_return (if doc = [] then Inl (response_error 404 ''Not Found'' ''Unknown subscriber'')
                       else Inr (sip_username, society_id, flt)))))"

text \<open>The revocation sink; \<^term>\<open>None\<close> is the null pointer.\<close>

type_synonym 's revocation_sink = "(string \<Rightarrow> string \<Rightarrow> ('s, unit) effect) option"

definition call_revoke :: "'s revocation_sink \<Rightarrow> string \<Rightarrow> string \<Rightarrow> ('s, unit) effect" where
  "call_revoke sink society_id sip_username =
     (case sink of None \<Rightarrow> eff_return () | Some f \<Rightarrow> f society_id sip_username)"

definition status_update :: "string \<Rightarrow> json" where
  "status_update status = JObject [(''$set'', JObject [(''status'', JString status)])]"

definition handle_subscriber_status_PUT ::
  "service_env \<Rightarrow> 'a db_state_scheme revocation_sink \<Rightarrow> string \<Rightarrow> ('a, string) db_effect" where
  "handle_subscriber_status_PUT env sink req =
     eff_bind (resolve_lifecycle_target env req) (\<lambda>target.
     case target of
       Inl err \<Rightarrow> eff_return err
     | Inr (sip_username, society_id, flt) \<Rightarrow>
         eff_bind (parse_http env req) (\<lambda>parsed.
         case js_parse (sv_json env) (m_body parsed) of
           None \<Rightarrow> eff_return (bad_request ''Invalid JSON body'')
         | Some body \<Rightarrow>
             (case j_get_string body ''status'' of
                None \<Rightarrow> eff_return (bad_request ''Missing field: status'')
              | Some status \<Rightarrow>
                  (if status \<noteq> ''active'' \<and> status \<noteq> ''disabled'' then
                     eff_return (bad_request ''status must be \"active\" or \"disabled\"'')
                   else
                     eff_bind (json_dump env (status_update status)) (\<lambda>update.
                     eff_bind (db_bool env (UpdateCollection ''subscribers'' flt update)) (\<lambda>_.
                     eff_bind (if status = ''disabled'' then
                                 eff_bind (db_bool env (DeleteDocument ''sessions'' flt)) (\<lambda>_.
                                 call_revoke sink society_id sip_username)
                               else eff_return ()) (\<lambda>_.
                     eff_bind (json_dump env (JObject [(''status'', JString ''success''),
                         (''sipUsername'', JString sip_username), (''subscriberStatus'', JString status)])) (\<lambda>rsp.
                     eff_return (json_response 200 ''OK'' rsp)))))))))"

definition handle_subscriber_DELETE ::
  "service_env \<Rightarrow> 'a db_state_scheme revocation_sink \<Rightarrow> string \<Rightarrow> ('a, string) db_effect" where
  "handle_subscriber_DELETE env sink req =
     eff_bind (resolve_lifecycle_target env req) (\<lambda>target.
     case target of
       Inl err \<Rightarrow> eff_return err
     | Inr (sip_username, society_id, flt) \<Rightarrow>
         eff_bind (db_bool env (DeleteDocument ''subscribers'' flt)) (\<lambda>_.
         eff_bind (db_bool env (DeleteDocument ''sessions'' flt)) (\<lambda>_.
         eff_bind (call_revoke sink society_id sip_username) (\<lambda>_.
         eff_bind (json_dump env (JObject [(''status'', JString ''success''),
             (''sipUsername'', JString sip_username), (''removed'', JBool True)])) (\<lambda>rsp.
         eff_return (json_response 200 ''OK'' rsp))))))"

section \<open>Small routes\<close>

definition handle_push_vapid_key_GET :: "service_env \<Rightarrow> ('s, string) effect" where
  "handle_push_vapid_key_GET env =
     eff_bind (json_dump env (JObject [(''key'', JString (env_or env ''VAPID_PUBLIC_KEY'' []))])) (\<lambda>rsp.
     eff_return (json_response 200 ''OK'' rsp))"

definition handle_ping_GET :: "service_env \<Rightarrow> int \<Rightarrow> int \<Rightarrow> string \<Rightarrow> ('a, string) db_effect" where
  "handle_ping_GET env now ts_ms req =
     eff_bind (extract_session_token env req) (\<lambda>token.
     eff_bind (refresh_session_expiry env now token) (\<lambda>_.
     eff_bind (json_dump env (JObject [(''ok'', JBool True), (''ts'', JInt ts_ms)])) (\<lambda>rsp.
     eff_return (json_response 200 ''OK'' rsp))))"

definition turn_username :: "int \<Rightarrow> string \<Rightarrow> string" where
  "turn_username now sip_user = dec_string (nat (now + 300)) @ '':'' @ sip_user"

definition handle_turn_credentials_GET :: "service_env \<Rightarrow> int \<Rightarrow> string \<Rightarrow> ('s, string) effect" where
  "handle_turn_credentials_GET env now req =
     eff_bind (parse_http env req) (\<lambda>parsed.
     let flat = get_element parsed ''X-PBX-Flat''; sip_user = (if flat = [] then ''anon'' else flat);
         secret = env_or env ''TURN_SHARED_SECRET'' ''dev-only-shared-secret-override-in-prod'';
         turn_url = env_or env ''TURN_URL'' ''turn:turn.pbx.local:3478?transport=udp'';
         username = turn_username now sip_user;
         credential = sv_b64_encode env (sv_hmac_sha1 env secret username)
     in if length turn_url < 5 then eff_throw OutOfRange
        else eff_bind (json_dump env (JObject
               [(''urls'', JArray [JString turn_url, JString (''stun:'' @ drop 5 turn_url)]),
                (''username'', JString username), (''credential'', JString credential), (''ttlSec'', JInt 300)])) (\<lambda>rsp.
             eff_return (json_response 200 ''OK'' rsp)))"

section \<open>The gate of the SIP WebSocket\<close>

text \<open>The pair \<^verbatim>\<open>SipWsUpgrade\<close>: an error response, or the metadata of the OPEN frame.\<close>

type_synonym sipws_upgrade = "string + string"

definition unauthorized :: "string \<Rightarrow> string" where
  "unauthorized cause = response_error 401 ''Unauthorized'' cause"

text \<open>The strict-mode check that the session's subscriber still exists and is active.\<close>

definition lifecycle_gate :: "service_env \<Rightarrow> json \<Rightarrow> ('a, string option) db_effect" where
  "lifecycle_gate env session =
     (if \<not> auth_strict env then eff_return None
      else
        eff_bind (j_value_eff session ''societyId'' []) (\<lambda>soc.
        eff_bind (j_value_eff session ''sipUsername'' []) (\<lambda>user.
        eff_bind (json_dump env (JObject [(''societyId'', JString soc), (''sipUsername'', JString user)])) (\<lambda>q.
        eff_bind (db_text env (GetDocument ''subscribers'' q ''{}'')) (\<lambda>rec.
        if rec = [] then eff_return (Some (response_error 403 ''Forbidden'' ''subscriber no longer exists''))
        else let subscriber = (case js_parse (sv_json env) rec of Some j \<Rightarrow> j | None \<Rightarrow> JObject [])
             in eff_return (if account_disabled subscriber
                            then Some (response_error 403 ''Forbidden'' ''subscriber account is disabled'')
                            else None))))))"

text \<open>The part of the gate that starts from the bearer token.\<close>

definition sipws_with_token ::
  "service_env \<Rightarrow> int \<Rightarrow> http \<Rightarrow> string \<Rightarrow> ('a, sipws_upgrade) db_effect" where
  "sipws_with_token env now parsed token =
     (if token = [] then
        eff_return (Inl (unauthorized
          ''SIP-WS upgrade requires ?token=<bearer> or a session= cookie tied to a portal login''))
      else
        eff_bind (json_dump env (token_query token)) (\<lambda>query.
        eff_bind (db_text env (GetDocument ''sessions'' query ''{}'')) (\<lambda>record.
        if record = [] then eff_return (Inl (unauthorized ''unknown or expired portal session''))
        else case js_parse (sv_json env) record of
               None \<Rightarrow> eff_return (Inl (internal_error ''session record is not valid JSON''))
             | Some session \<Rightarrow>
                 (if \<not> session_live env session now then
                    eff_return (Inl (unauthorized ''unknown or expired portal session''))
                  else
                    eff_bind (lifecycle_gate env session) (\<lambda>refused.
                    case refused of
                      Some err \<Rightarrow> eff_return (Inl err)
                    | None \<Rightarrow>
                        eff_bind (slide_expiry env now token session) (\<lambda>_.
                        eff_bind (j_value_eff session ''societyId'' []) (\<lambda>soc.
                        eff_bind (j_value_eff session ''sipUsername'' []) (\<lambda>user.
                        eff_bind (json_dump env (JObject [(''societyId'', JString soc),
                            (''sipUsername'', JString user),
                            (''clientUA'', JString (get_element parsed ''User-Agent''))])) (\<lambda>open_meta.
                        eff_return (Inr open_meta))))))))))"

definition handle_sipws_upgrade :: "service_env \<Rightarrow> int \<Rightarrow> string \<Rightarrow> ('a, sipws_upgrade) db_effect" where
  "handle_sipws_upgrade env now req =
     eff_bind (parse_http env req) (\<lambda>parsed.
     let q = query_param (raw_uri_with_query req) ''token''
     in sipws_with_token env now parsed
          (if q = [] then cookie_value (get_element parsed ''Cookie'') ''session'' else q))"

section \<open>The administrator's gate\<close>

record admin_session =
  as_error :: string
  as_society_id :: string
  as_sip_username :: string
  as_role :: string

definition admin_refused :: "string \<Rightarrow> admin_session" where
  "admin_refused err = \<lparr>as_error = err, as_society_id = [], as_sip_username = [], as_role = []\<rparr>"

definition resolve_admin_session :: "service_env \<Rightarrow> int \<Rightarrow> string \<Rightarrow> ('a, admin_session) db_effect" where
  "resolve_admin_session env now req =
     eff_bind (extract_session_token env req) (\<lambda>token.
     if token = [] then eff_return (admin_refused (unauthorized ''Missing or invalid session''))
     else
       eff_bind (json_dump env (token_query token)) (\<lambda>query.
       eff_bind (db_text env (GetDocument ''sessions'' query ''{}'')) (\<lambda>record.
       if record = [] then eff_return (admin_refused (unauthorized ''Missing or invalid session''))
       else case js_parse (sv_json env) record of
              None \<Rightarrow> eff_return (admin_refused (internal_error ''session record is not valid JSON''))
            | Some session \<Rightarrow>
                (if \<not> session_live env session now then
                   eff_bind (eff_catch (eff_bind (db_bool env (DeleteDocument ''sessions'' query)) (\<lambda>_. eff_return ()))
                               (eff_return ())) (\<lambda>_.
                   eff_return (admin_refused (unauthorized ''Session expired'')))
                 else
                   eff_bind (j_value_eff session ''role'' []) (\<lambda>role.
                   if role \<noteq> ''admin'' then
                     eff_return (admin_refused (response_error 403 ''Forbidden'' ''Admin role required''))
                   else
                     eff_bind (j_value_eff session ''societyId'' []) (\<lambda>soc.
                     eff_bind (j_value_eff session ''sipUsername'' []) (\<lambda>user.
                     eff_return \<lparr>as_error = [], as_society_id = soc, as_sip_username = user, as_role = role\<rparr>)))))))"

end
