(* ===== verification/Web_Routes.thy ===== *)
theory Web_Routes
  imports Pbx_Sessions Cloud_App
begin

text \<open>
  The route table of the REST service, \<^verbatim>\<open>MicroService::dispatch_pbx_routes\<close> (\<^verbatim>\<open>webservice.cpp\<close>), over the
  state of the web server: the database calls, and the cloud side of the tunnel, which holds the
  presence cache and the bridge that forwards a revocation to the agent.
\<close>

record web = db_state +
  wb_cloud :: cloud_app
  wb_cte :: bool
  wb_bridge :: bool
  wb_presence :: bool

text \<open>
  Parameters: the environment of the handlers, that of the cloud process, the memory behind a digest
  buffer, and the clock readings of the gate, of the handler, and in milliseconds.
\<close>

record web_params =
  wp_env :: service_env
  wp_app :: app_env
  wp_beyond :: string
  wp_gate_now :: int
  wp_now :: int
  wp_now_ms :: int

text \<open>The bridge as \<^verbatim>\<open>IRevocationSink\<close>.\<close>

definition web_revoke :: "web_params \<Rightarrow> string \<Rightarrow> string \<Rightarrow> ('a web_scheme, unit) effect" where
  "web_revoke wp society_id sip_username s =
     (case revoke (cloud_env (wp_app wp)) society_id sip_username (wb_cloud s) of
        (None, c) \<Rightarrow> (Done (), s\<lparr>wb_cloud := c\<rparr>)
      | (Some e, c) \<Rightarrow> (Thrown e, s\<lparr>wb_cloud := c\<rparr>))"

definition web_sink :: "web_params \<Rightarrow> 'a web_scheme \<Rightarrow> 'a web_scheme revocation_sink" where
  "web_sink wp s = (if wb_bridge s then Some (web_revoke wp) else None)"

definition web_presence :: "'a web_scheme \<Rightarrow> presence option" where
  "web_presence s = (if wb_presence s then Some (ca_presence (wb_cloud s)) else None)"

text \<open>A route behind the administrator's gate.\<close>

definition admin_only ::
  "web_params \<Rightarrow> string \<Rightarrow> ('a web_scheme, string) effect \<Rightarrow> ('a web_scheme, string) effect" where
  "admin_only wp req handler =
     eff_bind (resolve_admin_session (wp_env wp) (wp_gate_now wp) req) (\<lambda>check.
     if as_error check \<noteq> [] then eff_return (as_error check) else handler)"

definition has_prefix :: "string \<Rightarrow> string \<Rightarrow> bool" where
  "has_prefix p u \<longleftrightarrow> take (length p) u = p"

text \<open>
  The arguments a handler takes from the server are read when the route calls it, hence the
  state in \<^verbatim>\<open>with_state\<close>.
\<close>

definition with_state :: "('s \<Rightarrow> ('s, 'r) effect) \<Rightarrow> ('s, 'r) effect" where
  "with_state f s = f s s"

definition dispatch_pbx_routes :: "web_params \<Rightarrow> string \<Rightarrow> ('a web_scheme, string) effect" where
  "dispatch_pbx_routes wp req =
     (let env = wp_env wp; now = wp_now wp
      in eff_bind (parse_http env req) (\<lambda>http.
         let uri = m_uriName http; meth = m_method http
         in if meth = ''POST'' \<and> uri = ''/api/v1/subscriber/login'' then
              handle_subscriber_login_POST env (wp_beyond wp) now req
            else if meth = ''GET'' \<and> uri = ''/api/v1/subscriber/import/template.xlsx'' then
              eff_return (handle_subscriber_import_template_xlsx_GET env)
            else if meth = ''GET'' \<and> uri = ''/api/v1/subscriber/import/template'' then
              eff_return handle_subscriber_import_template_GET
            else if meth = ''POST'' \<and> has_prefix ''/api/v1/subscriber/import'' uri then
              admin_only wp req (handle_subscriber_import_POST env req)
            else if (meth = ''PUT'' \<or> meth = ''DELETE'') \<and> has_prefix ''/api/v1/subscriber/'' uri then
              admin_only wp req (with_state (\<lambda>s.
                if meth = ''PUT'' then handle_subscriber_status_PUT env (web_sink wp s) req
                else handle_subscriber_DELETE env (web_sink wp s) req))
            else if meth = ''GET'' \<and> has_prefix ''/api/v1/subscriber'' uri then
              with_state (\<lambda>s. handle_directory_GET env (web_presence s) req)
            else if meth = ''POST'' \<and> uri = ''/api/v1/society'' then
              admin_only wp req (handle_society_POST env req)
            else if meth = ''GET'' \<and> uri = ''/api/v1/societies'' then
              admin_only wp req (handle_societies_GET env)
            else if meth = ''GET'' \<and> has_prefix ''/api/v1/society/'' uri then
              admin_only wp req (handle_society_detail_GET env req)
            else if meth = ''GET'' \<and> uri = ''/api/v1/admin/subscribers'' then
              admin_only wp req (with_state (\<lambda>s. handle_admin_subscribers_GET env (web_presence s) req))
            else if meth = ''GET'' \<and> uri = ''/api/v1/admin/connectivity'' then
              admin_only wp req (with_state (\<lambda>s.
                handle_admin_connectivity_GET env (wb_cte s \<and> has_agent (wb_cloud s))
                  (wb_bridge s \<and> m_asterisk_connected (wb_cloud s))))
            else if meth = ''GET'' \<and> has_prefix ''/api/v1/cdr'' uri then handle_cdr_GET env req
            else if meth = ''GET'' \<and> uri = ''/api/v1/push-vapid-key'' then handle_push_vapid_key_GET env
            else if meth = ''POST'' \<and> (uri = ''/api/v1/push-subscribe'' \<or> uri = ''/api/v1/push/subscribe'') then
              handle_push_subscribe_POST env req
            else if meth = ''GET'' \<and> uri = ''/api/v1/turn-credentials'' then
              handle_turn_credentials_GET env now req
            else if meth = ''GET'' \<and> uri = ''/api/v1/ping'' then
              handle_ping_GET env now (wp_now_ms wp) req
            else eff_return []))"

section \<open>Who may write\<close>

text \<open>The bearer token of a request: the query parameter, or else the cookie.\<close>

definition request_token :: "service_env \<Rightarrow> string \<Rightarrow> string \<Rightarrow> bool" where
  "request_token env req tok \<longleftrightarrow>
     (let q = query_param (raw_uri_with_query req) ''token''
      in if q \<noteq> [] then tok = q
         else \<exists>p. Http (sv_zlib env) req = Done p \<and> tok = cookie_value (get_element p ''Cookie'') ''session'')"

text \<open>
  At the time of the history \<^verbatim>\<open>h\<close>, the database holds a live session of an administrator for the
  request's token.
\<close>

definition admin_bearer :: "service_env \<Rightarrow> int \<Rightarrow> string \<Rightarrow> db_call list \<Rightarrow> bool" where
  "admin_bearer env now req h \<longleftrightarrow>
     (\<exists>tok q doc session.
        request_token env req tok \<and> tok \<noteq> [] \<and>
        js_dump (sv_json env) (token_query tok) = Some q \<and>
        sv_text env h (GetDocument ''sessions'' q ''{}'') = Inr doc \<and>
        js_parse (sv_json env) doc = Some session \<and>
        session_live env session now \<and> j_get_string session ''role'' = Some ''admin'')"

lemma extract_session_token_Done:
  "extract_session_token env req s = (Done tok, t) \<Longrightarrow> request_token env req tok \<and> t = s"
  by (auto simp: extract_session_token_def request_token_def Let_def eff_bind_Done split: if_splits)

lemma j_value_nonempty: "j_value j k [] = Inr v \<Longrightarrow> v \<noteq> [] \<Longrightarrow> j_get_string j k = Some v"
  by (cases j) (auto simp: j_value_def j_get_string_def split: option.splits json.splits)

lemma response_error_nonempty [simp]: "response_error c r m \<noteq> []"
  by (simp add: response_error_def http_response_def)

lemma refused_errors [simp]:
  "as_error (admin_refused e) = e" "unauthorized m \<noteq> []" "internal_error m \<noteq> []"
  by (simp_all add: admin_refused_def unauthorized_def internal_error_def)

lemma admin_gate_open:
  assumes "resolve_admin_session env now req s = (Done c, t)" and "as_error c = []"
  shows "admin_bearer env now req (db_log s)"
proof -
  from assms obtain tok s' q doc session where
    tok: "extract_session_token env req s = (Done tok, s')" "tok \<noteq> []"
    and doc: "js_dump (sv_json env) (token_query tok) = Some q"
      "sv_text env (db_log s') (GetDocument ''sessions'' q ''{}'') = Inr doc"
      "js_parse (sv_json env) doc = Some session" "session_live env session now"
      "j_value session ''role'' [] = Inr ''admin''"
    by (auto simp: resolve_admin_session_def elim!: eff_bindE split: if_splits option.splits)
  moreover have "j_get_string session ''role'' = Some ''admin''" using j_value_nonempty[OF doc(5)] by simp
  ultimately show ?thesis
    unfolding admin_bearer_def using extract_session_token_Done[OF tok(1)] by blast
qed

text \<open>
  \<^verbatim>\<open>logs_unless lg A B m\<close>: every new log entry satisfies \<^verbatim>\<open>A\<close>, unless \<^verbatim>\<open>B\<close> held of the log at the start.
\<close>

definition logs_unless :: "('s \<Rightarrow> 'e list) \<Rightarrow> ('e \<Rightarrow> bool) \<Rightarrow> ('e list \<Rightarrow> bool) \<Rightarrow> ('s, 'r) effect \<Rightarrow> bool" where
  "logs_unless lg A B m \<longleftrightarrow> (\<forall>s. \<exists>l. lg (snd (m s)) = lg s @ l \<and> (list_all A l \<or> B (lg s)))"

lemma logs_only_unless: "logs_only lg A m \<Longrightarrow> logs_unless lg A B m"
  by (auto simp: logs_only_def logs_unless_def)

lemma logs_unless_mono:
  assumes "logs_unless lg A B m" and "\<And>e. A e \<Longrightarrow> A' e"
  shows "logs_unless lg A' B m"
  using assms unfolding logs_unless_def by (metis list.pred_mono_strong)

lemma logs_unless_if [effect_intros]:
  "(b \<Longrightarrow> logs_unless lg A B m) \<Longrightarrow> (\<not> b \<Longrightarrow> logs_unless lg A B m') \<Longrightarrow> logs_unless lg A B (if b then m else m')"
  by simp

lemma logs_only_with_state [effect_intros]: "(\<And>s. logs_only lg A (f s)) \<Longrightarrow> logs_only lg A (with_state f)"
  by (simp add: logs_only_def with_state_def)

lemma logs_unless_result_bind:
  "(\<And>v. logs_unless lg A B (k v)) \<Longrightarrow> logs_unless lg A B (eff_bind (eff_result r) k)"
  by (cases r) (simp_all add: logs_unless_def eff_bind_def eff_result_def)

text \<open>The collections that only an administrator may change.\<close>

definition protected_write :: "db_call \<Rightarrow> bool" where
  "protected_write op \<longleftrightarrow> db_writes_to ''subscribers'' op \<or> db_writes_to ''societies'' op"

lemma protected_simps [simp]:
  "\<not> protected_write (GetDocument c q p)" "\<not> protected_write (GetDocuments c q p)"
  "\<not> protected_write (GetAllDocuments c p)"
  "\<not> protected_write (CreateDocument ''sessions'' d)" "\<not> protected_write (CreateDocument ''push_subscriptions'' d)"
  "\<not> protected_write (UpdateCollection ''sessions'' f u)" "\<not> protected_write (DeleteDocument ''sessions'' f)"
  "\<not> protected_write (NextAwbno p)"
  by (simp_all add: protected_write_def db_writes_to_def c_str_def)

lemma try_text_log [effect_intros]: "logs_only lg A m \<Longrightarrow> logs_only lg A (try_text m)"
  by (auto simp: try_text_def intro!: effect_intros)

lemma resolve_admin_log: "logs_only db_log (\<lambda>op. \<not> protected_write op) (resolve_admin_session env now req)"
  by (auto simp: resolve_admin_session_def Let_def intro!: effect_intros)

lemma login_log: "logs_only db_log (\<lambda>op. \<not> protected_write op) (handle_subscriber_login_POST env b now req)"
  by (auto simp: handle_subscriber_login_POST_def login_strict_def login_subscriber_def finish_login_def Let_def
      intro!: effect_intros split: sum.splits)

lemma read_routes_log:
  "logs_only db_log (\<lambda>op. \<not> protected_write op) (handle_directory_GET env pc req)"
  "logs_only db_log (\<lambda>op. \<not> protected_write op) (handle_cdr_GET env req)"
  "logs_only db_log (\<lambda>op. \<not> protected_write op) (handle_push_vapid_key_GET env)"
  "logs_only db_log (\<lambda>op. \<not> protected_write op) (handle_push_subscribe_POST env req)"
  "logs_only db_log (\<lambda>op. \<not> protected_write op) (handle_turn_credentials_GET env now req)"
  "logs_only db_log (\<lambda>op. \<not> protected_write op) (handle_ping_GET env now ms req)"
  by (auto simp: handle_directory_GET_def handle_cdr_GET_def handle_push_vapid_key_GET_def
      handle_push_subscribe_POST_def handle_turn_credentials_GET_def handle_ping_GET_def
      refresh_session_expiry_def Let_def intro!: effect_intros slide_expiry_log)

text \<open>A gated handler may write whatever it likes, but only behind an administrator's bearer.\<close>

lemma admin_only_log:
  fixes h :: "('a web_scheme, string) effect"
  assumes h: "logs_only db_log (\<lambda>_. True) h"
  shows "logs_unless db_log (\<lambda>op. \<not> protected_write op) (admin_bearer (wp_env wp) (wp_gate_now wp) req) (admin_only wp req h)"
  unfolding logs_unless_def
proof
  fix s :: "'a web_scheme"
  let ?gate = "resolve_admin_session (wp_env wp) (wp_gate_now wp) req"
  obtain l where l: "db_log (snd (?gate s)) = db_log s @ l" "list_all (\<lambda>op. \<not> protected_write op) l"
    using resolve_admin_log[of "wp_env wp" "wp_gate_now wp" req] unfolding logs_only_def by blast
  show "\<exists>l. db_log (snd (admin_only wp req h s)) = db_log s @ l \<and>
    (list_all (\<lambda>op. \<not> protected_write op) l \<or> admin_bearer (wp_env wp) (wp_gate_now wp) req (db_log s))"
  proof (cases "\<exists>c t. ?gate s = (Done c, t) \<and> as_error c = []")
    case True
    then obtain c t where c: "?gate s = (Done c, t)" "as_error c = []" by blast
    obtain l' where "db_log (snd (h t)) = db_log t @ l'" using h by (auto simp: logs_only_def)
    then show ?thesis using l(1) c admin_gate_open[OF c] by (simp add: admin_only_def)
  next
    case False
    obtain r t where r: "?gate s = (r, t)" by (cases "?gate s")
    have "db_log (snd (admin_only wp req h s)) = db_log t"
      using False r by (cases r) (auto simp: admin_only_def eff_bind_def eff_return_def)
    then show ?thesis using l r by (intro exI[of _ l]) simp
  qed
qed

text \<open>Every handler only appends to the log of database calls.\<close>

lemma web_revoke_log [effect_intros]: "logs_only db_log A (web_revoke wp soc user)"
  by (auto simp: logs_only_def web_revoke_def split: prod.splits option.splits)

lemma call_revoke_log [effect_intros]: "logs_only db_log A (call_revoke (web_sink wp s) soc user)"
  by (auto simp: call_revoke_def web_sink_def intro!: effect_intros)

lemma lifecycle_target_log [effect_intros]: "logs_only db_log (\<lambda>_. True) (resolve_lifecycle_target env req)"
  by (auto simp: resolve_lifecycle_target_def Let_def intro!: effect_intros)

lemma import_row_log [effect_intros]: "logs_only db_log (\<lambda>_. True) (import_row env soc realm cols r row st)"
  by (auto simp: import_row_def resolve_flat_def create_subscriber_def Let_def intro!: effect_intros split: sum.splits)

lemma import_rows_log [effect_intros]: "logs_only db_log (\<lambda>_. True) (import_rows env soc realm cols r rows st)"
  by (induction rows arbitrary: r st) (auto intro!: effect_intros split: sum.splits)

lemma admin_routes_log:
  "logs_only db_log (\<lambda>_. True) (handle_subscriber_import_POST env req)"
  "logs_only db_log (\<lambda>_. True) (handle_subscriber_status_PUT env (web_sink wp s) req)"
  "logs_only db_log (\<lambda>_. True) (handle_subscriber_DELETE env (web_sink wp s) req)"
  "logs_only db_log (\<lambda>_. True) (handle_society_POST env req)"
  "logs_only db_log (\<lambda>_. True) (handle_societies_GET env)"
  "logs_only db_log (\<lambda>_. True) (handle_society_detail_GET env req)"
  "logs_only db_log (\<lambda>_. True) (handle_admin_subscribers_GET env pc req)"
  "logs_only db_log (\<lambda>_. True) (handle_admin_connectivity_GET env ag ast)"
  subgoal by (auto simp: handle_subscriber_import_POST_def Let_def intro!: effect_intros)
  subgoal by (auto simp: handle_subscriber_status_PUT_def intro!: effect_intros split: sum.splits)
  subgoal by (auto simp: handle_subscriber_DELETE_def intro!: effect_intros split: sum.splits)
  subgoal by (auto simp: handle_society_POST_def Let_def intro!: effect_intros)
  subgoal by (auto simp: handle_societies_GET_def intro!: effect_intros split: json.splits)
  subgoal by (auto simp: handle_society_detail_GET_def Let_def intro!: effect_intros)
  subgoal by (auto simp: handle_admin_subscribers_GET_def Let_def intro!: effect_intros split: json.splits)
  subgoal by (auto simp: handle_admin_connectivity_GET_def intro!: effect_intros)
  done

lemma dispatch_protected:
  "logs_unless db_log (\<lambda>op. \<not> protected_write op) (admin_bearer (wp_env wp) (wp_gate_now wp) req)
     (dispatch_pbx_routes wp req)"
  unfolding dispatch_pbx_routes_def Let_def
  by (intro logs_unless_result_bind logs_unless_if admin_only_log logs_only_unless logs_only_with_state
      logs_only_if login_log read_routes_log admin_routes_log logs_only_return)

end
