(* ===== verification/Pbx_Security.thy ===== *)
theory Pbx_Security
  imports Web_Routes
begin

text \<open>
  What the handlers guarantee about sessions, credentials and secrets: who gets a session, what a
  session opens, how it ends, and what a response may contain.
\<close>

section \<open>Guarded effects\<close>

text \<open>
  \<^verbatim>\<open>log_at lg A Q m s\<close>: from the state \<^verbatim>\<open>s\<close>, every log entry that \<^verbatim>\<open>m\<close> adds satisfies \<^verbatim>\<open>A\<close>, unless \<^verbatim>\<open>Q\<close>.
\<close>

definition log_at :: "('s \<Rightarrow> 'e list) \<Rightarrow> ('e \<Rightarrow> bool) \<Rightarrow> bool \<Rightarrow> ('s, 'r) effect \<Rightarrow> 's \<Rightarrow> bool" where
  "log_at lg A Q m s \<longleftrightarrow> (\<exists>l. lg (snd (m s)) = lg s @ l \<and> (list_all A l \<or> Q))"

lemma log_at_only: "logs_only lg A m \<Longrightarrow> log_at lg A Q m s"
  unfolding logs_only_def log_at_def by blast

lemma log_at_trivial: "Q \<Longrightarrow> logs_only lg (\<lambda>_. True) m \<Longrightarrow> log_at lg A Q m s"
  unfolding logs_only_def log_at_def by blast

lemma log_at_bind:
  assumes m: "logs_only lg A m" and k: "\<And>v t. m s = (Done v, t) \<Longrightarrow> log_at lg A Q (k v) t"
  shows "log_at lg A Q (eff_bind m k) s"
proof -
  obtain l where l: "lg (snd (m s)) = lg s @ l" "list_all A l" using m by (auto simp: logs_only_def)
  obtain r t where r: "m s = (r, t)" by (cases "m s")
  show ?thesis
  proof (cases r)
    case (Done v)
    obtain l' where "lg (snd (k v t)) = lg t @ l'" "list_all A l' \<or> Q"
      using k[of v t] r Done by (auto simp: log_at_def)
    with l r Done show ?thesis unfolding log_at_def by (intro exI[of _ "l @ l'"]) auto
  qed (use l r in \<open>auto simp: log_at_def eff_bind_def\<close>)
qed

lemma log_at_then:
  assumes m: "log_at lg A Q m s" and k: "\<And>v. logs_only lg A (k v)"
  shows "log_at lg A Q (eff_bind m k) s"
proof -
  obtain l where l: "lg (snd (m s)) = lg s @ l" "list_all A l \<or> Q" using m by (auto simp: log_at_def)
  obtain r t where r: "m s = (r, t)" by (cases "m s")
  show ?thesis
  proof (cases r)
    case (Done v)
    obtain l' where "lg (snd (k v t)) = lg t @ l'" "list_all A l'" using k[of v] by (auto simp: logs_only_def)
    with l r Done show ?thesis unfolding log_at_def by (intro exI[of _ "l @ l'"]) auto
  qed (use l r in \<open>auto simp: log_at_def eff_bind_def\<close>)
qed

lemma log_at_if: "(b \<Longrightarrow> log_at lg A Q m s) \<Longrightarrow> (\<not> b \<Longrightarrow> log_at lg A Q m' s) \<Longrightarrow> log_at lg A Q (if b then m else m') s"
  by simp

lemma log_at_case_option:
  "(r = None \<Longrightarrow> log_at lg A Q n s) \<Longrightarrow> (\<And>v. r = Some v \<Longrightarrow> log_at lg A Q (k v) s) \<Longrightarrow>
     log_at lg A Q (case r of None \<Rightarrow> n | Some v \<Rightarrow> k v) s"
  by (cases r) auto

lemma log_at_case_sum:
  "(\<And>v. r = Inl v \<Longrightarrow> log_at lg A Q (n v) s) \<Longrightarrow> (\<And>v. r = Inr v \<Longrightarrow> log_at lg A Q (k v) s) \<Longrightarrow>
     log_at lg A Q (case r of Inl v \<Rightarrow> n v | Inr v \<Rightarrow> k v) s"
  by (cases r) auto

lemmas log_at_intros = log_at_bind log_at_if log_at_case_option log_at_case_sum log_at_only[OF logs_only_return]

text \<open>A new entry that violates \<^verbatim>\<open>A\<close> shows that \<^verbatim>\<open>Q\<close> holds.\<close>

lemma log_at_entry: "log_at lg A Q m s \<Longrightarrow> e \<in> set (drop (length (lg s)) (lg (snd (m s)))) \<Longrightarrow> \<not> A e \<Longrightarrow> Q"
  by (auto simp: log_at_def list_all_iff)

section \<open>Login\<close>

definition creates_session :: "db_call \<Rightarrow> bool" where
  "creates_session op \<longleftrightarrow> (\<exists>d. op = CreateDocument ''sessions'' d)"

lemma creates_session_simps [simp]:
  "\<not> creates_session (GetDocument c q p)" "\<not> creates_session (GetDocuments c q p)"
  "\<not> creates_session (GetAllDocuments c p)"
  "\<not> creates_session (UpdateCollection c f u)"
  by (simp_all add: creates_session_def)

text \<open>What a strict login demands of the subscriber's record.\<close>

definition credentials_ok :: "service_env \<Rightarrow> string \<Rightarrow> string \<Rightarrow> json \<Rightarrow> bool" where
  "credentials_ok env beyond password subscriber \<longleftrightarrow>
     (\<exists>hash. j_get_string subscriber ''portalPasswordHash'' = Some hash \<and>
             verify_password env beyond password hash = Inr True) \<and>
     \<not> account_disabled subscriber"

lemma finish_login_log: "logs_only db_log (\<lambda>_. True) (finish_login env now sub email soc user role)"
  by (auto simp: finish_login_def intro!: effect_intros)

lemma login_subscriber_guard:
  "log_at db_log (\<lambda>op. \<not> creates_session op) (credentials_ok env beyond pw sub)
     (login_subscriber env beyond now soc pw sub) s"
proof (cases "credentials_ok env beyond pw sub")
  case True
  then show ?thesis
    by (intro log_at_trivial)
      (auto simp: login_subscriber_def intro!: effect_intros finish_login_log)
next
  case False
  then show ?thesis
    unfolding login_subscriber_def
    by (intro log_at_only logs_only_case_option logs_only_return)
      (auto simp: credentials_ok_def eff_sum_def eff_bind_def eff_return_def eff_throw_def logs_only_def
        split: sum.splits)
qed

text \<open>
  The subscriber a strict login is about, as the database answers after the history \<^verbatim>\<open>h\<close>: found under
  the id of the society with the typed code.
\<close>

definition login_record :: "service_env \<Rightarrow> db_call list \<Rightarrow> string \<Rightarrow> string \<Rightarrow> json \<Rightarrow> bool" where
  "login_record env h society_code flat_number subscriber \<longleftrightarrow>
     (\<exists>q1 doc1 j society_id q2 doc2.
        js_dump (sv_json env) (JObject [(''code'', JString society_code)]) = Some q1 \<and>
        sv_text env h (GetDocument ''societies'' q1 ''{}'') = Inr doc1 \<and>
        js_parse (sv_json env) doc1 = Some j \<and> j_value j ''_id'' [] = Inr society_id \<and> society_id \<noteq> [] \<and>
        js_dump (sv_json env) (JObject [(''societyId'', JString society_id), (''flatNumber'', JString flat_number)])
          = Some q2 \<and>
        sv_text env (h @ [GetDocument ''societies'' q1 ''{}'']) (GetDocument ''subscribers'' q2 ''{}'') = Inr doc2 \<and>
        js_parse (sv_json env) doc2 = Some subscriber)"

lemma log_at_weaken: "log_at lg A P m s \<Longrightarrow> (P \<Longrightarrow> Q) \<Longrightarrow> log_at lg A Q m s"
  unfolding log_at_def by blast

lemma login_strict_guard:
  "log_at db_log (\<lambda>op. \<not> creates_session op)
     (\<exists>sub. login_record env (db_log s) code flat sub \<and> credentials_ok env beyond pw sub)
     (login_strict env beyond now code flat pw) s"
  unfolding login_strict_def
proof (intro log_at_intros json_dump_log db_text_log creates_session_simps, goal_cases)
  case (1 q1 t doc1 t1 society_id q2 t2 doc2 t3 sub)
  then have "login_record env (db_log s) code flat sub"
    by (auto simp: login_record_def split: option.splits)
  then show ?case by (intro log_at_weaken[OF login_subscriber_guard]) blast
qed

text \<open>The form a login request carries.\<close>

definition login_form :: "service_env \<Rightarrow> string \<Rightarrow> string \<Rightarrow> string \<Rightarrow> string \<Rightarrow> bool" where
  "login_form env req code flat pw \<longleftrightarrow>
     (\<exists>p body. Http (sv_zlib env) req = Done p \<and> js_parse (sv_json env) (m_body p) = Some body \<and>
        j_get_string body ''societyCode'' = Some code \<and> j_get_string body ''flatNumber'' = Some flat \<and>
        j_get_string body ''password'' = Some pw)"

lemma missing_field_None:
  "missing_field fs body = None \<Longrightarrow> f \<in> set fs \<Longrightarrow> j_get_string body f = Some (field_text body f) \<and> field_text body f \<noteq> []"
  by (auto simp: missing_field_def find_None_iff field_text_def split: option.splits)

lemma login_guard:
  assumes strict: "auth_strict env"
  shows "log_at db_log (\<lambda>op. \<not> creates_session op)
     (\<exists>code flat pw sub. login_form env req code flat pw \<and> login_record env (db_log s) code flat sub \<and>
        credentials_ok env beyond pw sub)
     (handle_subscriber_login_POST env beyond now req) s"
  unfolding handle_subscriber_login_POST_def Let_def
proof (intro log_at_intros logs_only_result remote_disconnected_log, goal_cases)
  case (1 p t body v t')
  have "login_form env req (field_text body ''societyCode'') (field_text body ''flatNumber'') (field_text body ''password'')"
    using 1 missing_field_None[OF 1(3)] by (auto simp: login_form_def)
  moreover have "t' = s" using 1 by simp
  ultimately show ?case by (intro log_at_weaken[OF login_strict_guard]) blast
qed (use strict in simp)

section \<open>The SIP WebSocket gate\<close>

text \<open>The subscriber behind a session exists and is not disabled, in strict mode.\<close>

definition subscriber_active :: "service_env \<Rightarrow> db_call list \<Rightarrow> json \<Rightarrow> bool" where
  "subscriber_active env h session \<longleftrightarrow>
     (\<exists>soc user q doc. j_value session ''societyId'' [] = Inr soc \<and> j_value session ''sipUsername'' [] = Inr user \<and>
        js_dump (sv_json env) (JObject [(''societyId'', JString soc), (''sipUsername'', JString user)]) = Some q \<and>
        sv_text env h (GetDocument ''subscribers'' q ''{}'') = Inr doc \<and> doc \<noteq> [] \<and>
        (\<forall>sub. js_parse (sv_json env) doc = Some sub \<longrightarrow> \<not> account_disabled sub))"

lemma lifecycle_gate_open:
  assumes "lifecycle_gate env session s = (Done None, t)" and "auth_strict env"
  shows "subscriber_active env (db_log s) session"
proof -
  from assms obtain soc user q doc where "j_value session ''societyId'' [] = Inr soc"
    "j_value session ''sipUsername'' [] = Inr user"
    "js_dump (sv_json env) (JObject [(''societyId'', JString soc), (''sipUsername'', JString user)]) = Some q"
    "sv_text env (db_log s) (GetDocument ''subscribers'' q ''{}'') = Inr doc" "doc \<noteq> []"
    "\<not> account_disabled (case js_parse (sv_json env) doc of Some j \<Rightarrow> j | None \<Rightarrow> JObject [])"
    by (auto simp: lifecycle_gate_def Let_def elim!: eff_bindE split: if_splits)
  moreover from this(6) have "\<forall>sub. js_parse (sv_json env) doc = Some sub \<longrightarrow> \<not> account_disabled sub" by auto
  ultimately show ?thesis unfolding subscriber_active_def by blast
qed

definition live_session :: "service_env \<Rightarrow> int \<Rightarrow> string \<Rightarrow> db_call list \<Rightarrow> string \<Rightarrow> json \<Rightarrow> bool" where
  "live_session env now req h q session \<longleftrightarrow>
     (\<exists>tok doc. request_token env req tok \<and> tok \<noteq> [] \<and> js_dump (sv_json env) (token_query tok) = Some q \<and>
        sv_text env h (GetDocument ''sessions'' q ''{}'') = Inr doc \<and> js_parse (sv_json env) doc = Some session \<and>
        session_live env session now)"

lemma sipws_admits:
  assumes "handle_sipws_upgrade env now req s = (Done (Inr meta), t)"
  obtains q session p soc user where "live_session env now req (db_log s) q session"
    and "auth_strict env \<Longrightarrow> subscriber_active env (db_log s @ [GetDocument ''sessions'' q ''{}'']) session"
    and "Http (sv_zlib env) req = Done p"
    and "j_value session ''societyId'' [] = Inr soc" and "j_value session ''sipUsername'' [] = Inr user"
    and "js_dump (sv_json env) (JObject [(''societyId'', JString soc), (''sipUsername'', JString user),
           (''clientUA'', JString (get_element p ''User-Agent''))]) = Some meta"
proof -
  let ?q = "query_param (raw_uri_with_query req) ''token''"
  from assms obtain p tok where p: "Http (sv_zlib env) req = Done p"
    and tok: "tok = (if ?q = [] then cookie_value (get_element p ''Cookie'') ''session'' else ?q)"
    and up: "sipws_with_token env now p tok s = (Done (Inr meta), t)"
    by (auto simp: handle_sipws_upgrade_def Let_def elim!: eff_bindE)
  from up obtain q doc session t1 soc user where
    s: "tok \<noteq> []" "js_dump (sv_json env) (token_query tok) = Some q"
      "sv_text env (db_log s) (GetDocument ''sessions'' q ''{}'') = Inr doc"
      "js_parse (sv_json env) doc = Some session" "session_live env session now"
    and gate: "lifecycle_gate env session (s\<lparr>db_log := db_log s @ [GetDocument ''sessions'' q ''{}'']\<rparr>) = (Done None, t1)"
    and meta: "j_value session ''societyId'' [] = Inr soc" "j_value session ''sipUsername'' [] = Inr user"
      "js_dump (sv_json env) (JObject [(''societyId'', JString soc), (''sipUsername'', JString user),
           (''clientUA'', JString (get_element p ''User-Agent''))]) = Some meta"
    unfolding sipws_with_token_def
    by (auto elim!: eff_bindE split: if_splits option.splits)
  have "request_token env req tok" using p by (simp add: request_token_def Let_def tok)
  then have live: "live_session env now req (db_log s) q session" using s unfolding live_session_def by blast
  show ?thesis
    by (rule that[OF live _ p meta]) (use lifecycle_gate_open[OF gate] in simp)
qed

section \<open>Expired sessions stay dead\<close>

definition extends_session :: "db_call \<Rightarrow> bool" where
  "extends_session op \<longleftrightarrow> (\<exists>f u. op = UpdateCollection ''sessions'' f u)"

lemma extends_session_simps [simp]:
  "\<not> extends_session (GetDocument c q p)" "\<not> extends_session (DeleteDocument c f)"
  by (simp_all add: extends_session_def)

lemma tried_document:
  "eff_catch (eff_bind (json_dump env j) (\<lambda>f. db_text env (GetDocument c f p))) (eff_return []) s = (Done v, t) \<Longrightarrow>
     v \<noteq> [] \<Longrightarrow> \<exists>q. js_dump (sv_json env) j = Some q \<and> sv_text env (db_log s) (GetDocument c q p) = Inr v"
  by (cases "js_dump (sv_json env) j")
    (auto simp: eff_catch_def eff_bind_def json_dump_def eff_option_def eff_throw_def eff_return_def db_text_def
      split: sum.splits)

lemma refresh_guard:
  assumes tok: "request_token env req token"
  shows "log_at db_log (\<lambda>op. \<not> extends_session op) (\<exists>q session. live_session env now req (db_log s) q session)
           (refresh_session_expiry env now token) s"
  unfolding refresh_session_expiry_def
proof (intro log_at_intros, goal_cases)
  case 1
  show ?case by (auto intro!: effect_intros)
next
  case (2 v t session)
  then have "\<exists>q session. live_session env now req (db_log s) q session"
    using tok tried_document unfolding live_session_def by blast
  then show ?case by (rule log_at_trivial) (simp add: slide_expiry_log)
qed

lemma ping_guard:
  "log_at db_log (\<lambda>op. \<not> extends_session op) (\<exists>q session. live_session env now req (db_log s) q session)
     (handle_ping_GET env now ms req) s"
  unfolding handle_ping_GET_def
proof (rule log_at_bind)
  show "logs_only db_log (\<lambda>op. \<not> extends_session op) (extract_session_token env req)" by (intro effect_intros)
  fix token t
  assume "extract_session_token env req s = (Done token, t)"
  then have "request_token env req token \<and> t = s" by (rule extract_session_token_Done)
  with refresh_guard[of env req token now s]
  show "log_at db_log (\<lambda>op. \<not> extends_session op) (\<exists>q session. live_session env now req (db_log s) q session)
      (eff_bind (refresh_session_expiry env now token) (\<lambda>_. eff_bind (json_dump env (JObject [(''ok'', JBool True), (''ts'', JInt ms)]))
         (\<lambda>rsp. eff_return (json_response 200 ''OK'' rsp)))) t"
    by (auto intro!: log_at_then effect_intros)
qed

text \<open>No other route of the table extends a session.\<close>

lemma extends_others [simp]:
  "\<not> extends_session (GetDocuments c q p)" "\<not> extends_session (GetAllDocuments c p)"
  "\<not> extends_session (CreateDocument c d)" "\<not> extends_session (NextAwbno p)"
  "extends_session (UpdateCollection c f u) = (c = ''sessions'')"
  by (simp_all add: extends_session_def)

lemma gate_no_extend: "logs_only db_log (\<lambda>op. \<not> extends_session op) (resolve_admin_session env now req)"
  by (auto simp: resolve_admin_session_def Let_def intro!: effect_intros)

lemma admin_only_no_extend:
  "logs_only db_log (\<lambda>op. \<not> extends_session op) h \<Longrightarrow> logs_only db_log (\<lambda>op. \<not> extends_session op) (admin_only wp req h)"
  unfolding admin_only_def by (intro logs_only_bind logs_only_if logs_only_return gate_no_extend)

lemma import_row_no_extend: "logs_only db_log (\<lambda>op. \<not> extends_session op) (import_row env soc realm cols r row st)"
  by (auto simp: import_row_def resolve_flat_def create_subscriber_def Let_def intro!: effect_intros split: sum.splits)

lemma import_rows_no_extend: "logs_only db_log (\<lambda>op. \<not> extends_session op) (import_rows env soc realm cols r rows st)"
  by (induction rows arbitrary: r st) (auto intro!: effect_intros import_row_no_extend split: sum.splits)

lemma lifecycle_no_extend: "logs_only db_log (\<lambda>op. \<not> extends_session op) (resolve_lifecycle_target env req)"
  by (auto simp: resolve_lifecycle_target_def Let_def intro!: effect_intros)

lemma open_routes_no_extend:
  "logs_only db_log (\<lambda>op. \<not> extends_session op) (handle_subscriber_login_POST env b now req)"
  "logs_only db_log (\<lambda>op. \<not> extends_session op) (handle_directory_GET env pc req)"
  "logs_only db_log (\<lambda>op. \<not> extends_session op) (handle_cdr_GET env req)"
  "logs_only db_log (\<lambda>op. \<not> extends_session op) (handle_push_vapid_key_GET env)"
  "logs_only db_log (\<lambda>op. \<not> extends_session op) (handle_push_subscribe_POST env req)"
  "logs_only db_log (\<lambda>op. \<not> extends_session op) (handle_turn_credentials_GET env now req)"
  subgoal by (auto simp: handle_subscriber_login_POST_def login_strict_def login_subscriber_def finish_login_def Let_def
        intro!: effect_intros split: sum.splits)
  by (auto simp: handle_directory_GET_def handle_cdr_GET_def handle_push_vapid_key_GET_def
      handle_push_subscribe_POST_def handle_turn_credentials_GET_def Let_def intro!: effect_intros)

lemma gated_routes_no_extend:
  "logs_only db_log (\<lambda>op. \<not> extends_session op) (handle_subscriber_import_POST env req)"
  "logs_only db_log (\<lambda>op. \<not> extends_session op) (handle_subscriber_status_PUT env (web_sink wp s) req)"
  "logs_only db_log (\<lambda>op. \<not> extends_session op) (handle_subscriber_DELETE env (web_sink wp s) req)"
  "logs_only db_log (\<lambda>op. \<not> extends_session op) (handle_society_POST env req)"
  "logs_only db_log (\<lambda>op. \<not> extends_session op) (handle_societies_GET env)"
  "logs_only db_log (\<lambda>op. \<not> extends_session op) (handle_society_detail_GET env req)"
  "logs_only db_log (\<lambda>op. \<not> extends_session op) (handle_admin_subscribers_GET env pc req)"
  "logs_only db_log (\<lambda>op. \<not> extends_session op) (handle_admin_connectivity_GET env ag ast)"
  subgoal by (auto simp: handle_subscriber_import_POST_def Let_def intro!: effect_intros import_rows_no_extend)
  subgoal by (auto simp: handle_subscriber_status_PUT_def intro!: effect_intros lifecycle_no_extend split: sum.splits)
  subgoal by (auto simp: handle_subscriber_DELETE_def intro!: effect_intros lifecycle_no_extend split: sum.splits)
  subgoal by (auto simp: handle_society_POST_def Let_def intro!: effect_intros)
  subgoal by (auto simp: handle_societies_GET_def intro!: effect_intros split: json.splits)
  subgoal by (auto simp: handle_society_detail_GET_def Let_def intro!: effect_intros)
  subgoal by (auto simp: handle_admin_subscribers_GET_def Let_def intro!: effect_intros split: json.splits)
  subgoal by (auto simp: handle_admin_connectivity_GET_def intro!: effect_intros)
  done

lemma dispatch_extends:
  "log_at db_log (\<lambda>op. \<not> extends_session op)
     (\<exists>q session. live_session (wp_env wp) (wp_now wp) req (db_log s) q session) (dispatch_pbx_routes wp req) s"
  unfolding dispatch_pbx_routes_def Let_def
proof (rule log_at_bind, rule logs_only_result, goal_cases)
  case (1 p t)
  then have t: "t = s" by simp
  show ?case
    unfolding t
    by (intro log_at_if;
        (rule ping_guard
         | rule log_at_only, intro admin_only_no_extend logs_only_with_state logs_only_if logs_only_return
             open_routes_no_extend gated_routes_no_extend))
qed

section \<open>Disabling and removing\<close>

text \<open>The target of the two life-cycle routes.\<close>

definition lifecycle_target :: "service_env \<Rightarrow> string \<Rightarrow> db_call list \<Rightarrow> string \<Rightarrow> string \<Rightarrow> string \<Rightarrow> bool" where
  "lifecycle_target env req h user soc flt \<longleftrightarrow>
     user = path_suffix req ''/api/v1/subscriber/'' \<and> user \<noteq> [] \<and>
     soc = query_param (raw_uri_with_query req) ''societyId'' \<and> soc \<noteq> [] \<and>
     js_dump (sv_json env) (JObject [(''societyId'', JString soc), (''sipUsername'', JString user)]) = Some flt \<and>
     (\<exists>doc. sv_text env h (GetDocument ''subscribers'' flt ''{}'') = Inr doc \<and> doc \<noteq> [])"

lemma lifecycle_target_found:
  "lifecycle_target env req (db_log s) user soc flt \<Longrightarrow>
     resolve_lifecycle_target env req s =
       (Done (Inr (user, soc, flt)), s\<lparr>db_log := db_log s @ [GetDocument ''subscribers'' flt ''{}'']\<rparr>)"
  by (auto simp: lifecycle_target_def resolve_lifecycle_target_def Let_def eff_return_def)

text \<open>What a successful removal has done, in this order.\<close>

lemma DELETE_effects:
  assumes t: "lifecycle_target env req (db_log s) user soc flt"
    and r: "handle_subscriber_DELETE env sink req s = (Done rsp, u)"
  obtains s' s'' where "s' = s\<lparr>db_log := db_log s @ [GetDocument ''subscribers'' flt ''{}'',
            DeleteDocument ''subscribers'' flt, DeleteDocument ''sessions'' flt]\<rparr>"
    and "call_revoke sink soc user s' = (Done (), s'')" and "u = s''"
  using r unfolding handle_subscriber_DELETE_def eff_bind_step[of "resolve_lifecycle_target env req", OF lifecycle_target_found[OF t]]
  by (auto elim!: eff_bindE)

text \<open>The revocation over a healthy tunnel is one frame to the agent.\<close>

lemma revoke_sent:
  assumes "m_tunnel c" and "healthy c" and "js_dump (ae_json ae) (revoke_payload soc user) = Some pl"
  shows "revoke (cloud_env ae) soc user c =
           (None, c\<lparr>e_log := e_log c @ [Sent (t_id (the (ce_transport c))) (sf_encode SUBSCRIBER_REVOKED 0 pl)]\<rparr>)"
  using assms by (simp add: revoke_def healthy_send)

lemma web_sink_sent:
  assumes "wb_bridge s" and "m_tunnel (wb_cloud u)" and "healthy (wb_cloud u)"
    and "js_dump (ae_json (wp_app wp)) (revoke_payload soc user) = Some pl"
  shows "call_revoke (web_sink wp s) soc user u =
           (Done (), u\<lparr>wb_cloud := (wb_cloud u)\<lparr>e_log := e_log (wb_cloud u) @
              [Sent (t_id (the (ce_transport (wb_cloud u)))) (sf_encode SUBSCRIBER_REVOKED 0 pl)]\<rparr>\<rparr>)"
  using assms by (simp add: call_revoke_def web_sink_def web_revoke_def revoke_sent)

text \<open>A database that answers every call, and a library that prints every value.\<close>

definition answering :: "service_env \<Rightarrow> bool" where
  "answering env \<longleftrightarrow> (\<forall>h op. \<exists>b. sv_bool env h op = Inr b) \<and> (\<forall>j. js_dump (sv_json env) j \<noteq> None)"

lemma answering_steps:
  assumes "answering env"
  shows "eff_bind (db_bool env op) k s = k (case sv_bool env (db_log s) op of Inr b \<Rightarrow> b | Inl _ \<Rightarrow> False) (s\<lparr>db_log := db_log s @ [op]\<rparr>)"
    and "eff_bind (json_dump env j) k' u = k' (the (js_dump (sv_json env) j)) u"
proof -
  obtain b where "sv_bool env (db_log s) op = Inr b" using assms unfolding answering_def by blast
  then show "eff_bind (db_bool env op) k s = k (case sv_bool env (db_log s) op of Inr b \<Rightarrow> b | Inl _ \<Rightarrow> False) (s\<lparr>db_log := db_log s @ [op]\<rparr>)"
    by (simp add: eff_bind_def db_bool_def)
  obtain t where "js_dump (sv_json env) j = Some t" using assms unfolding answering_def by blast
  then show "eff_bind (json_dump env j) k' u = k' (the (js_dump (sv_json env) j)) u"
    by (simp add: eff_bind_def json_dump_def eff_option_def eff_return_def)
qed

lemma parse_http_step: "Http (sv_zlib env) req = Done p \<Longrightarrow> eff_bind (parse_http env req) k s = k p s"
  by (simp add: eff_bind_def eff_result_def)

section \<open>The directory\<close>

lemma directory_row_shape:
  assumes "j_get_string src ''flatNumber'' = Some flat" and "matches_prefix pre flat"
    and "j_value src ''sipUsername'' [] = Inr user" and "j_value src ''name'' [] = Inr name"
  shows "directory_entry (Some pc) soc pre src =
           Inr (Some (JObject [(''flatNumber'', JString flat), (''displayName'', JString name),
              (''sipUri'', JString (''sip:'' @ flat @ ''@pbx.local'')),
              (''online'', JBool (user \<noteq> [] \<and> presence_is_online soc user pc))]))"
  using assms by (simp add: directory_entry_def)

lemma sum_list_of_Inr: "sum_list_of f xs = Inr ys \<Longrightarrow> list_all2 (\<lambda>x y. f x = Inr y) xs ys"
  by (induction xs arbitrary: ys) (auto split: sum.splits)

lemma directory_rows_source:
  assumes "directory_rows pc soc pre arr = Inr rows" and "row \<in> set rows"
  shows "\<exists>src \<in> set arr. directory_entry pc soc pre src = Inr (Some row)"
proof -
  obtain os where os: "sum_list_of (directory_entry pc soc pre) arr = Inr os" "rows = List.map_filter id os"
    using assms(1) by (auto simp: directory_rows_def split: sum.splits)
  have "Some row \<in> set os" using assms(2) os(2) by (auto simp: List.map_filter_def)
  then obtain i where i: "i < length os" "os ! i = Some row" by (auto simp: in_set_conv_nth)
  have eq: "length arr = length os" "directory_entry pc soc pre (arr ! i) = Inr (Some row)"
    using sum_list_of_Inr[OF os(1)] i by (auto simp: list_all2_conv_all_nth)
  show ?thesis by (rule bexI[of _ "arr ! i"]) (use eq i(1) in simp_all)
qed

end
