(* ===== verification/Message_Stream.thy ===== *)
theory Message_Stream
  imports Http_Framing
begin

text \<open>
  Cutting a byte stream into messages with a function that tells, for a buffer, how long its first
  message is (zero: later bytes are needed).  The locale \<^verbatim>\<open>message_framing\<close> is the contract of
  \<^verbatim>\<open>Http::message_length\<close> that the receive loop of \<^verbatim>\<open>WebConnection\<close> relies on; it is interpreted on
  \<^verbatim>\<open>message_length\<close> for requests that carry a content length.
\<close>

function cut_messages :: "(string \<Rightarrow> u64) \<Rightarrow> string \<Rightarrow> string list \<times> string" where
  "cut_messages len buf =
     (if buf = [] then ([], [])
      else let n = unat (len buf)
           in if n = 0 \<or> length buf < n then ([], buf)
              else let (ms, rest) = cut_messages len (drop n buf) in (take n buf # ms, rest))"
  by pat_completeness auto
termination by (relation "measure (\<lambda>(len, buf). length buf)") auto

declare cut_messages.simps [simp del]

lemma cut_messages_concat: "cut_messages len buf = (ms, rest) \<Longrightarrow> concat ms @ rest = buf"
proof (induction len buf arbitrary: ms rest rule: cut_messages.induct)
  case (1 len buf)
  show ?case
  proof (cases "buf = [] \<or> unat (len buf) = 0 \<or> length buf < unat (len buf)")
    case True
    with 1(2) show ?thesis by (subst (asm) cut_messages.simps) (auto simp: Let_def split: if_splits)
  next
    case False
    obtain ms' where c: "cut_messages len (drop (unat (len buf)) buf) = (ms', rest)" "ms = take (unat (len buf)) buf # ms'"
      using False 1(2) by (subst (asm) cut_messages.simps) (auto simp: Let_def split: prod.splits)
    have "concat ms' @ rest = drop (unat (len buf)) buf" using False by (intro 1(1)[OF _ _ _ c(1)]) auto
    then show ?thesis by (simp add: c(2))
  qed
qed

text \<open>The step of the receive loop: append a piece, cut what is complete, keep the rest.\<close>

definition feed :: "(string \<Rightarrow> u64) \<Rightarrow> string \<Rightarrow> string list \<times> string \<Rightarrow> string list \<times> string" where
  "feed len piece st = (let (ms, rest) = cut_messages len (snd st @ piece) in (fst st @ ms, rest))"

locale message_framing =
  fixes len :: "string \<Rightarrow> u64"
    and good :: "string \<Rightarrow> bool"
  assumes complete: "good r \<Longrightarrow> len (r @ rest) = of_nat (length r)"
    and partial: "good r \<Longrightarrow> n < length r \<Longrightarrow> len (take n r) = 0 \<or> n < unat (len (take n r))"
    and bounded: "good r \<Longrightarrow> length r < 2 ^ 64"
    and nonempty: "good r \<Longrightarrow> r \<noteq> []"
begin

lemma unat_complete: "good r \<Longrightarrow> unat (len (r @ rest)) = length r"
  using complete[of r rest] bounded[of r] by (simp add: u64_of_nat)

lemma cut_partial: "good r \<Longrightarrow> n < length r \<Longrightarrow> cut_messages len (take n r) = ([], take n r)"
  using partial[of r n] by (subst cut_messages.simps) (auto simp: Let_def unat_eq_0)

lemma cut_one: "good r \<Longrightarrow> cut_messages len (r @ rest) = (r # fst (cut_messages len rest), snd (cut_messages len rest))"
  using unat_complete[of r rest] nonempty[of r]
  by (subst cut_messages.simps) (auto simp: Let_def split: prod.splits)

text \<open>A buffer of whole messages and the beginning of another is cut exactly there.\<close>

lemma cut_prefix:
  "list_all good rs \<Longrightarrow> good r \<Longrightarrow> n < length r \<Longrightarrow> cut_messages len (concat rs @ take n r) = (rs, take n r)"
  by (induction rs) (simp_all add: cut_one cut_partial)

lemma cut_all: "list_all good rs \<Longrightarrow> cut_messages len (concat rs) = (rs, [])"
proof (induction rs)
  case Nil
  show ?case by (subst cut_messages.simps) simp
qed (simp add: cut_one)

text \<open>
  Reading a stream piece by piece: what is cut from a buffer depends only on the bytes so far.  The
  bytes received so far are a prefix of a list of good messages.
\<close>

lemma prefix_split:
  assumes "list_all good rs" and "m \<le> length (concat rs)"
  obtains rs1 r rs2 n where "rs = rs1 @ r # rs2" and "n < length r" and "take m (concat rs) = concat rs1 @ take n r"
    | "m = length (concat rs)"
proof -
  have "(\<exists>rs1 r rs2 n. rs = rs1 @ r # rs2 \<and> n < length r \<and> take m (concat rs) = concat rs1 @ take n r) \<or> m = length (concat rs)"
    using assms
  proof (induction rs arbitrary: m)
    case (Cons a rs)
    show ?case
    proof (cases "m < length a")
      case True
      then have "a # rs = [] @ a # rs \<and> m < length a \<and> take m (concat (a # rs)) = concat [] @ take m a" by simp
      then show ?thesis by blast
    next
      case False
      then have "m - length a \<le> length (concat rs)" using Cons.prems(2) by simp
      from Cons.IH[OF _ this] Cons.prems(1)
      consider rs1 r rs2 n where "rs = rs1 @ r # rs2" "n < length r" "take (m - length a) (concat rs) = concat rs1 @ take n r"
        | "m - length a = length (concat rs)" by auto
      then show ?thesis
      proof cases
        case 1
        then have "a # rs = (a # rs1) @ r # rs2 \<and> n < length r \<and>
            take m (concat (a # rs)) = concat (a # rs1) @ take n r"
          using False by simp
        then show ?thesis by blast
      next
        case 2
        with False have "m = length (concat (a # rs))" by simp
        then show ?thesis by blast
      qed
    qed
  qed simp
  then show ?thesis using that by blast
qed

lemma feed_prefix:
  assumes good: "list_all good rs" and pieces: "concat ps @ later = concat rs"
  shows "\<exists>done. fold (feed len) ps ([], []) = done \<and> cut_messages len (concat ps) = done"
  using pieces
proof (induction ps arbitrary: later rule: rev_induct)
  case Nil
  show ?case by (subst cut_messages.simps) simp
next
  case (snoc p ps)
  obtain ms rest where c: "cut_messages len (concat ps) = (ms, rest)" by (cases "cut_messages len (concat ps)")
  have pre: "take (length (concat ps)) (concat rs) = concat ps"
    using snoc.prems by (metis append.assoc append_eq_conv_conj concat_append)
  have f: "fold (feed len) ps ([], []) = (ms, rest)" using snoc.IH[of "p @ later"] snoc.prems c by simp
  have "list_all good ms"
    using good
  proof (rule prefix_split[where m = "length (concat ps)"])
    show "length (concat ps) \<le> length (concat rs)" using snoc.prems by (metis length_append le_add1 append.assoc concat_append)
  next
    fix rs1 r rs2 n
    assume a: "rs = rs1 @ r # rs2" "n < length r" "take (length (concat ps)) (concat rs) = concat rs1 @ take n r"
    then show ?thesis using good c pre cut_prefix[of rs1 r n] by simp
  next
    assume "length (concat ps) = length (concat rs)"
    then have "concat ps = concat rs" using pre by simp
    then show ?thesis using good c cut_all[OF good] by simp
  qed
  then have "cut_messages len (concat ms @ x) = (ms @ fst (cut_messages len x), snd (cut_messages len x))" for x
    by (induction ms) (simp_all add: cut_one)
  moreover have "concat (ps @ [p]) = concat ms @ rest @ p" using cut_messages_concat[OF c] by simp
  ultimately have "cut_messages len (concat (ps @ [p])) = feed len p (ms, rest)"
    by (simp add: feed_def split: prod.split)
  then show ?case using f by simp
qed

text \<open>However the bytes of a list of messages are cut into pieces, the messages come out.\<close>

lemma feed_messages:
  assumes "list_all good rs" and "concat ps = concat rs"
  shows "fold (feed len) ps ([], []) = (rs, [])"
  using feed_prefix[OF assms(1), of ps "[]"] assms cut_all[OF assms(1)] by simp

end

text \<open>
  Requests with a well-formed request line and headers whose end the framing recognises (\<^verbatim>\<open>delimited\<close>) satisfy the
  contract: those without a body and a length, such as an ordinary GET, those with a \<^verbatim>\<open>Content-Length\<close>, and chunked ones.
  Not among them are a length whose header is spelled in another case and multipart bodies without a length.
\<close>

definition delimited_request :: "string \<Rightarrow> bool" where
  "delimited_request r \<longleftrightarrow>
     (\<exists>meth path qs hs body. r = print_request meth path qs hs body \<and> method_ok meth \<and> delimited hs body \<and> length r < 2 ^ 64)"

interpretation requests: message_framing message_length delimited_request
proof
  fix r rest n
  assume "delimited_request r"
  then obtain meth path qs hs body where r: "r = print_request meth path qs hs body" "method_ok meth" "delimited hs body"
    "length r < 2 ^ 64"
    by (auto simp: delimited_request_def)
  note line = request_line_ok[OF r(2), of path qs, THEN conjunct1] request_line_ok[OF r(2), of path qs, THEN conjunct2]
  note rq = r(1)[unfolded print_request_def]
  show "message_length (r @ rest) = of_nat (length r)" by (rule delimited_complete[OF line r(3) rq])
  show "length r < 2 ^ 64" by (rule r(4))
  show "r \<noteq> []" by (simp add: r(1) print_request_def)
  show "n < length r \<Longrightarrow> message_length (take n r) = 0 \<or> n < unat (message_length (take n r))"
    by (rule delimited_partial[OF line r(3) rq r(4)])
qed

end
