(* ===== verification/Web_Server.thy ===== *)
theory Web_Server
  imports Web_Routes Message_Stream
begin

text \<open>
  The web server's connections (\<^verbatim>\<open>WebServer\<close> and \<^verbatim>\<open>WebConnection\<close>, \<^verbatim>\<open>webservice.cpp\<close>): the accept handler, the
  receive loop that cuts requests out of a connection's buffer, the three WebSocket upgrades, and
  the distribution of ordinary requests over the workers.

  The pool maps a socket to the receive buffer of its \<^verbatim>\<open>WebConnection\<close>; \<^verbatim>\<open>wv_registered\<close> are the sockets whose
  handler the reactor knows.  A worker's queue is the list
  of jobs with its number.  The objects that take over an upgraded socket are the \<^verbatim>\<open>BrowserStream\<close>s of
  the state; the one that takes over the agent's socket is the endpoint's transport.  What the
  reactor and the TLS library answer during a hand-off is read from \<^verbatim>\<open>wv_handoffs\<close>.
\<close>

datatype web_event = Wrote nat string | ClosedFd nat | AgentStream nat | DbAgent nat

record handoff =
  ho_tls :: bool
  ho_registered :: bool
  ho_timer :: int
  ho_sends :: "bool list"

record web_server = web +
  wv_db :: bool
  wv_wsdb :: bool
  wv_inner_tls :: bool
  wv_pool :: "(nat, string) umap"
  wv_registered :: "nat list"
  wv_workers :: nat
  wv_current :: nat
  wv_jobs :: "(nat \<times> nat \<times> string) list"
  wv_browsers :: "(nat, browser_stream) umap"
  wv_handoffs :: "handoff list"
  wv_log :: "web_event list"

record server_params = web_params +
  wp_sha1_base64 :: "string \<Rightarrow> string"

section \<open>The pool and the workers\<close>

text \<open>
  Erasing a connection destroys it.  The destructor asks the reactor to remove the handler, which
  closes the socket if the reactor knows it; a socket that was handed off is left alone.
\<close>

definition unregister :: "nat \<Rightarrow> 'a web_server_scheme \<Rightarrow> 'a web_server_scheme" where
  "unregister fd s = s\<lparr>wv_registered := removeAll fd (wv_registered s)\<rparr>"

definition conn_erase :: "nat \<Rightarrow> 'a web_server_scheme \<Rightarrow> 'a web_server_scheme" where
  "conn_erase fd s =
     (if um_find (wv_pool s) fd = None then s
      else let s1 = unregister fd (s\<lparr>wv_pool := um_erase fd (wv_pool s)\<rparr>)
           in if fd \<in> set (wv_registered s) then s1\<lparr>wv_log := wv_log s1 @ [ClosedFd fd]\<rparr> else s1)"

definition conn_release :: "nat \<Rightarrow> 'a web_server_scheme \<Rightarrow> 'a web_server_scheme" where
  "conn_release fd s = unregister fd (s\<lparr>wv_pool := um_erase fd (wv_pool s)\<rparr>)"

definition set_buffer :: "nat \<Rightarrow> string \<Rightarrow> 'a web_server_scheme \<Rightarrow> 'a web_server_scheme" where
  "set_buffer fd buf s = s\<lparr>wv_pool := um_put fd buf (wv_pool s)\<rparr>"

definition web_write :: "nat \<Rightarrow> string \<Rightarrow> 'a web_server_scheme \<Rightarrow> 'a web_server_scheme" where
  "web_write fd bytes s = s\<lparr>wv_log := wv_log s @ [Wrote fd bytes]\<rparr>"

text \<open>
  \<^verbatim>\<open>WebServer::handle_input\<close> for an accepted socket: a stale entry of a recycled descriptor is dropped
  first, and the new connection registers itself.
\<close>

definition web_accept :: "nat \<Rightarrow> 'a web_server_scheme \<Rightarrow> 'a web_server_scheme" where
  "web_accept fd s =
     (let s1 = unregister fd (conn_erase fd s)
      in s1\<lparr>wv_pool := um_emplace fd [] (wv_pool s1), wv_registered := fd # wv_registered s1\<rparr>)"

text \<open>The iterator \<^verbatim>\<open>m_currentWorker\<close> as an index; the number of workers is \<^verbatim>\<open>end()\<close>.\<close>

definition next_worker :: "'a web_server_scheme \<Rightarrow> nat" where
  "next_worker s =
     (if wv_current s = wv_workers s then 0
      else if Suc (wv_current s) = wv_workers s then 0 else Suc (wv_current s))"

definition enqueue_job :: "nat \<Rightarrow> string \<Rightarrow> 'a web_server_scheme \<Rightarrow> 'a web_server_scheme" where
  "enqueue_job fd request s =
     (let w = next_worker s; s1 = s\<lparr>wv_current := w\<rparr>
      in if w \<noteq> wv_workers s1 then s1\<lparr>wv_jobs := wv_jobs s1 @ [(w, fd, request)]\<rparr> else s1)"

section \<open>Upgrades\<close>

definition upgrade_accepted :: "server_params \<Rightarrow> string \<Rightarrow> string" where
  "upgrade_accepted wp key =
     ''HTTP/1.1 101 Switching Protocols'' @ crlf @ ''Upgrade: websocket'' @ crlf @ ''Connection: Upgrade'' @ crlf @
     ''Sec-WebSocket-Accept: '' @ accept_key (wp_sha1_base64 wp) key @ crlf @ crlf"

definition is_upgrade :: "string \<Rightarrow> http \<Rightarrow> bool" where
  "is_upgrade uri h \<longleftrightarrow> m_method h = ''GET'' \<and> m_uriName h = uri \<and> get_element h ''sec-websocket-key'' \<noteq> []"

definition take_handoff :: "'a web_server_scheme \<Rightarrow> handoff \<times> 'a web_server_scheme" where
  "take_handoff s =
     (case wv_handoffs s of
        [] \<Rightarrow> (\<lparr>ho_tls = True, ho_registered = True, ho_timer = 0, ho_sends = []\<rparr>, s)
      | h # hs \<Rightarrow> (h, s\<lparr>wv_handoffs := hs\<rparr>))"

text \<open>
  The agent's socket: with inner TLS the stream is attached only after the handshake; a stream that
  cannot be registered is deleted, which tells the endpoint that the agent is gone.
\<close>

definition handoff_agent :: "server_params \<Rightarrow> nat \<Rightarrow> string \<Rightarrow> 'a web_server_scheme \<Rightarrow> 'a web_server_scheme" where
  "handoff_agent wp fd key s =
     (let (h, s1) = take_handoff (web_write fd (upgrade_accepted wp key) s);
          attach = (\<lambda>t. t\<lparr>wb_cloud := on_agent_connected (wp_now wp) (Some \<lparr>t_id = fd, t_oracle = ho_sends h\<rparr>) (wb_cloud t),
                          wv_log := wv_log t @ [AgentStream fd]\<rparr>);
          s2 = (if wv_inner_tls s1 \<and> \<not> ho_tls h then s1\<lparr>wv_log := wv_log s1 @ [ClosedFd fd]\<rparr>
                else let t = attach s1
                     in if ho_registered h \<and> ho_timer h \<noteq> -1 then t
                        else t\<lparr>wb_cloud := on_agent_disconnected (wb_cloud t), wv_log := wv_log t @ [ClosedFd fd]\<rparr>)
      in conn_release fd s2)"

text \<open>What the bridge did to its sinks reaches the other browsers' objects.\<close>

definition replay_events :: "browser_event list \<Rightarrow> (nat, browser_stream) umap \<Rightarrow> (nat, browser_stream) umap" where
  "replay_events es m = map (\<lambda>(k, w). (k, fold bs_event es w)) m"

definition handoff_browser ::
  "server_params \<Rightarrow> nat \<Rightarrow> string \<Rightarrow> string \<Rightarrow> 'a web_server_scheme \<Rightarrow> 'a web_server_scheme" where
  "handoff_browser wp fd key meta s =
     (let (h, s1) = take_handoff (web_write fd (upgrade_accepted wp key) s);
          env = cloud_env (wp_app wp);
          (w, c) = new_browser_stream env fd (ho_sends h) meta (wb_cloud s1);
          (rc, w1) = bs_register_with_reactor (ho_registered h) (ho_timer h) w;
          (w2, c2) = (if rc = -1 then bs_notify_close_once env ''destroyed'' (bs_cancel_ping_timer w1, c) else (w1, c));
          others = replay_events (drop (length (b_log (wb_cloud s1))) (b_log c2)) (wv_browsers s1);
          s2 = s1\<lparr>wb_cloud := c2,
                  wv_browsers := (if rc = -1 then others else um_put fd w2 others),
                  wv_log := wv_log s1 @ (if rc = -1 then [ClosedFd fd] else [])\<rparr>
      in conn_release fd s2)"

definition handoff_db :: "server_params \<Rightarrow> nat \<Rightarrow> string \<Rightarrow> 'a web_server_scheme \<Rightarrow> 'a web_server_scheme" where
  "handoff_db wp fd key s =
     (let s1 = web_write fd (upgrade_accepted wp key) s
      in conn_release fd (s1\<lparr>wv_log := wv_log s1 @ [DbAgent fd]\<rparr>))"

definition mongo_unavailable :: string where
  "mongo_unavailable =
     ''HTTP/1.1 503 Service Unavailable'' @ crlf @ ''Content-Length: 0'' @ crlf @ ''Connection: close'' @ crlf @
     ''X-PBX-Hint: mongo client unavailable'' @ crlf @ crlf"

definition no_agent_stub :: "bool \<Rightarrow> string" where
  "no_agent_stub agent_up =
     ''HTTP/1.1 503 Service Unavailable'' @ crlf @ ''Content-Length: 0'' @ crlf @ ''Connection: close'' @ crlf @
     ''X-PBX-AgentConnected: '' @ (if agent_up then ''yes'' else ''no'') @ crlf @
     ''X-PBX-Hint: '' @ (if agent_up then ''SipBridge not wired'' else ''no agent connected yet'') @ crlf @ crlf"

section \<open>One request\<close>

datatype web_next = NextMessage | Return int

text \<open>An update of the state as an effect.\<close>

definition eff_update :: "('s \<Rightarrow> 's) \<Rightarrow> 'r \<Rightarrow> ('s, 'r) effect" where
  "eff_update f v s = (Done v, f s)"

definition sipws_request :: "server_params \<Rightarrow> nat \<Rightarrow> string \<Rightarrow> http \<Rightarrow> ('a web_server_scheme, web_next) effect" where
  "sipws_request wp fd request h =
     with_state (\<lambda>s.
     if \<not> wv_db s then eff_update (web_write fd mongo_unavailable) (Return (-1))
     else eff_bind (handle_sipws_upgrade (wp_env wp) (wp_gate_now wp) request) (\<lambda>upgrade.
       case upgrade of
         Inl err \<Rightarrow> eff_update (web_write fd err) (Return (-1))
       | Inr meta \<Rightarrow>
           with_state (\<lambda>t.
           if \<not> wb_cte t \<or> \<not> wb_bridge t \<or> \<not> has_agent (wb_cloud t) then
             eff_update (web_write fd (no_agent_stub (wb_cte t \<and> has_agent (wb_cloud t)))) (Return (-1))
           else eff_update (handoff_browser wp fd (get_element h ''sec-websocket-key'') meta) (Return 0))))"

definition web_request :: "server_params \<Rightarrow> nat \<Rightarrow> string \<Rightarrow> ('a web_server_scheme, web_next) effect" where
  "web_request wp fd request =
     eff_bind (parse_http (wp_env wp) request) (\<lambda>h.
     with_state (\<lambda>s.
       let key = get_element h ''sec-websocket-key''
       in if wb_cte s \<and> is_upgrade ''/agent'' h then eff_update (handoff_agent wp fd key) (Return 0)
          else if is_upgrade ''/sip-ws'' h then sipws_request wp fd request h
          else if wv_wsdb s \<and> is_upgrade ''/ws/db'' h then eff_update (handoff_db wp fd key) (Return 0)
          else eff_update (enqueue_job fd request) NextMessage))"

section \<open>The receive loop\<close>

function web_loop :: "server_params \<Rightarrow> nat \<Rightarrow> string \<Rightarrow> ('a web_server_scheme, int) effect" where
  "web_loop wp fd buf s =
     (if buf = [] then (Done 0, set_buffer fd [] s)
      else let n = unat (message_length buf)
           in if n = 0 \<or> length buf < n then (Done 0, set_buffer fd buf s)
              else case web_request wp fd (take n buf) (set_buffer fd (drop n buf) s) of
                     (Done NextMessage, t) \<Rightarrow> web_loop wp fd (drop n buf) t
                   | (Done (Return rc), t) \<Rightarrow> (Done rc, t)
                   | (Thrown e, t) \<Rightarrow> (Thrown e, t)
                   | (Hangs, t) \<Rightarrow> (Hangs, t))"
  by pat_completeness auto
termination by (relation "measure (\<lambda>(wp, fd, buf, s). length buf)") auto

declare web_loop.simps [simp del]

datatype recv_result = RecvEof | RecvAgain | RecvError | RecvData string

text \<open>
  \<^verbatim>\<open>WebConnection::handle_input\<close>, and what the reactor does when it returns \<open>-1\<close>: it forgets the
  handler and \<^verbatim>\<open>handle_close\<close> closes the socket; the connection stays in the pool.
\<close>

definition conn_handle_input :: "server_params \<Rightarrow> nat \<Rightarrow> recv_result \<Rightarrow> ('a web_server_scheme, int) effect" where
  "conn_handle_input wp fd r =
     (case r of
        RecvEof \<Rightarrow> eff_update (conn_erase fd) 0
      | RecvAgain \<Rightarrow> eff_return 0
      | RecvError \<Rightarrow> eff_update (conn_erase fd) 0
      | RecvData bytes \<Rightarrow>
          (\<lambda>s. case um_find (wv_pool s) fd of
                 None \<Rightarrow> (Done 0, s)
               | Some buf \<Rightarrow> web_loop wp fd (buf @ bytes) s))"

definition reactor_input :: "server_params \<Rightarrow> nat \<Rightarrow> recv_result \<Rightarrow> ('a web_server_scheme, int) effect" where
  "reactor_input wp fd r =
     eff_bind (conn_handle_input wp fd r) (\<lambda>rc.
     if rc = -1 then eff_update (\<lambda>s. unregister fd (s\<lparr>wv_log := wv_log s @ [ClosedFd fd]\<rparr>)) rc else eff_return rc)"

section \<open>Ordinary requests\<close>

text \<open>A request that parses and asks for no upgrade.\<close>

definition ordinary :: "server_params \<Rightarrow> string \<Rightarrow> bool" where
  "ordinary wp r \<longleftrightarrow> (\<exists>h. Http (sv_zlib (wp_env wp)) r = Done h \<and> get_element h ''sec-websocket-key'' = [])"

lemma ordinary_request: "ordinary wp r \<Longrightarrow> web_request wp fd r s = (Done NextMessage, enqueue_job fd r s)"
  by (auto simp: ordinary_def web_request_def eff_bind_def eff_result_def with_state_def is_upgrade_def
      eff_update_def Let_def)

lemma set_buffer_twice [simp]: "set_buffer fd a (set_buffer fd b s) = set_buffer fd a s"
  by (simp add: set_buffer_def um_put_def update_last)

lemma enqueue_set_buffer: "enqueue_job fd r (set_buffer fd' b s) = set_buffer fd' b (enqueue_job fd r s)"
  by (simp add: enqueue_job_def set_buffer_def next_worker_def Let_def)

lemma enqueue_all_set_buffer:
  "fold (enqueue_job fd) rs (set_buffer fd' b s) = set_buffer fd' b (fold (enqueue_job fd) rs s)"
  by (induction rs arbitrary: s) (simp_all add: enqueue_set_buffer)

lemma web_loop_ordinary:
  "cut_messages message_length buf = (ms, rest) \<Longrightarrow> list_all (ordinary wp) ms \<Longrightarrow>
     web_loop wp fd buf s = (Done 0, set_buffer fd rest (fold (enqueue_job fd) ms s))"
proof (induction "message_length" buf arbitrary: ms s rule: cut_messages.induct)
  case (1 buf)
  let ?n = "unat (message_length buf)"
  show ?case
  proof (cases "buf = [] \<or> ?n = 0 \<or> length buf < ?n")
    case True
    with 1(2) have "ms = [] \<and> rest = buf" by (subst (asm) cut_messages.simps) (auto simp: Let_def split: if_splits)
    with True show ?thesis by (subst web_loop.simps) (auto simp: Let_def)
  next
    case False
    obtain ms' where c: "cut_messages message_length (drop ?n buf) = (ms', rest)" "ms = take ?n buf # ms'"
      using False 1(2) by (subst (asm) cut_messages.simps) (auto simp: Let_def split: prod.splits)
    have "web_loop wp fd (drop ?n buf) (enqueue_job fd (take ?n buf) (set_buffer fd (drop ?n buf) s))
        = (Done 0, set_buffer fd rest (fold (enqueue_job fd) ms' (enqueue_job fd (take ?n buf) (set_buffer fd (drop ?n buf) s))))"
      using False 1(3) c by (intro 1(1)) auto
    then show ?thesis
      using False 1(3) c
      by (subst web_loop.simps) (simp add: Let_def ordinary_request enqueue_set_buffer enqueue_all_set_buffer)
  qed
qed

text \<open>Reading a connection piece by piece is feeding the framing, job by job.\<close>

fun read_pieces :: "server_params \<Rightarrow> nat \<Rightarrow> string list \<Rightarrow> ('a web_server_scheme, int) effect" where
  "read_pieces wp fd [] = eff_return 0"
| "read_pieces wp fd (p # ps) = eff_bind (reactor_input wp fd (RecvData p)) (\<lambda>_. read_pieces wp fd ps)"

lemma enqueue_pool [simp]: "wv_pool (enqueue_job fd r s) = wv_pool s"
  by (simp add: enqueue_job_def Let_def)

lemma enqueue_all_pool [simp]: "wv_pool (fold (enqueue_job fd) rs s) = wv_pool s"
  by (induction rs arbitrary: s) simp_all

lemma reactor_input_ordinary:
  assumes "um_find (wv_pool s) fd = Some buf" and "cut_messages message_length (buf @ p) = (ms, rest)"
    and "list_all (ordinary wp) ms"
  shows "reactor_input wp fd (RecvData p) s = (Done 0, set_buffer fd rest (fold (enqueue_job fd) ms s))"
  using assms(1)
  by (simp add: reactor_input_def conn_handle_input_def eff_bind_def eff_return_def web_loop_ordinary[OF assms(2,3)])

lemma read_pieces_feed:
  "um_find (wv_pool s) fd = Some buf \<Longrightarrow> fold (feed message_length) ps (ms0, buf) = (ms0 @ ms, rest) \<Longrightarrow>
     list_all (ordinary wp) ms \<Longrightarrow> ps \<noteq> [] \<Longrightarrow>
     read_pieces wp fd ps s = (Done 0, set_buffer fd rest (fold (enqueue_job fd) ms s))"
proof (induction ps arbitrary: s buf ms0 ms)
  case (Cons p ps)
  obtain m1 b1 where c: "cut_messages message_length (buf @ p) = (m1, b1)" by (cases "cut_messages message_length (buf @ p)")
  have "feed message_length p (ms0, buf) = (ms0 @ m1, b1)" using c by (simp add: feed_def)
  then have f: "fold (feed message_length) ps (ms0 @ m1, b1) = (ms0 @ ms, rest)" using Cons.prems(2) by simp
  have mono: "\<exists>m. fst (fold (feed message_length) ps st) = fst st @ m" for ps st
    by (induction ps arbitrary: st) (auto simp: feed_def split: prod.splits, metis append.assoc fst_conv)
  obtain m2 where m2: "ms0 @ ms = (ms0 @ m1) @ m2" using mono[of ps "(ms0 @ m1, b1)"] f by auto
  then have ms: "ms = m1 @ m2" by simp
  have ord: "list_all (ordinary wp) m1" "list_all (ordinary wp) m2" using Cons.prems(3) ms by simp_all
  let ?t = "set_buffer fd b1 (fold (enqueue_job fd) m1 s)"
  have r: "reactor_input wp fd (RecvData p) s = (Done 0, ?t)"
    by (rule reactor_input_ordinary[OF Cons.prems(1) c ord(1)])
  show ?case
  proof (cases "ps = []")
    case True
    then show ?thesis using r f ms by (simp add: eff_bind_def eff_return_def)
  next
    case False
    have "read_pieces wp fd ps ?t = (Done 0, set_buffer fd rest (fold (enqueue_job fd) m2 ?t))"
      using f ms ord(2) False by (intro Cons.IH[of _ b1 "ms0 @ m1"]) (simp_all add: set_buffer_def)
    then show ?thesis using r ms by (simp add: eff_bind_def enqueue_all_set_buffer)
  qed
qed simp

section \<open>Distribution over the workers\<close>

definition first_worker :: "'a web_server_scheme \<Rightarrow> nat" where
  "first_worker s = (if wv_current s = wv_workers s then 0 else Suc (wv_current s) mod wv_workers s)"

lemma next_worker_first: "wv_current s \<le> wv_workers s \<Longrightarrow> 0 < wv_workers s \<Longrightarrow> next_worker s = first_worker s"
  by (auto simp: next_worker_def first_worker_def mod_Suc)

lemma enqueue_all_jobs:
  "wv_current s \<le> wv_workers s \<Longrightarrow> 0 < wv_workers s \<Longrightarrow>
     wv_jobs (fold (enqueue_job fd) rs s) =
       wv_jobs s @ map (\<lambda>i. ((first_worker s + i) mod wv_workers s, fd, rs ! i)) [0..<length rs]"
proof (induction rs arbitrary: s)
  case (Cons r rs)
  let ?n = "wv_workers s"
  let ?f = "first_worker s"
  let ?t = "enqueue_job fd r s"
  have w: "next_worker s = ?f" using Cons.prems by (rule next_worker_first)
  have fn: "?f < ?n" using Cons.prems by (auto simp: first_worker_def)
  have t: "wv_jobs ?t = wv_jobs s @ [(?f, fd, r)]" "wv_current ?t = ?f" "wv_workers ?t = ?n"
    using w fn by (simp_all add: enqueue_job_def Let_def)
  have ft: "first_worker ?t = Suc ?f mod ?n" using fn by (simp add: first_worker_def t)
  have "wv_jobs (fold (enqueue_job fd) rs ?t)
      = wv_jobs ?t @ map (\<lambda>i. ((first_worker ?t + i) mod ?n, fd, rs ! i)) [0..<length rs]"
    using Cons.IH[of ?t] Cons.prems fn by (simp add: t)
  also have "\<dots> = wv_jobs s @ (?f mod ?n, fd, r) # map (\<lambda>i. ((?f + Suc i) mod ?n, fd, rs ! i)) [0..<length rs]"
    using fn by (simp add: t ft mod_simps)
  also have "\<dots> = wv_jobs s @ map (\<lambda>i. ((?f + i) mod ?n, fd, (r # rs) ! i)) [0..<length (r # rs)]"
    by (simp add: upt_conv_Cons map_Suc_upt[symmetric] comp_def del: upt_Suc)
  finally show ?case by simp
qed simp

section \<open>Who becomes a browser stream\<close>

lemma handoff_agent_browsers [simp]: "wv_browsers (handoff_agent wp fd key s) = wv_browsers s"
  by (simp add: handoff_agent_def take_handoff_def conn_release_def unregister_def web_write_def Let_def split: list.splits)

lemma other_branches_browsers [simp]:
  "wv_browsers (handoff_db wp fd key s) = wv_browsers s" "wv_browsers (web_write fd b s) = wv_browsers s"
  "wv_browsers (enqueue_job fd r s) = wv_browsers s"
  by (simp_all add: handoff_db_def conn_release_def unregister_def web_write_def enqueue_job_def Let_def)

text \<open>The database effects of the gate leave the server's own fields alone.\<close>

lemma db_keeps [effect_intros]:
  assumes "\<And>s l. f (s\<lparr>db_log := l\<rparr>) = f s"
  shows "eff_keeps f (db_text env op)" and "eff_keeps f (db_bool env op)"
  using assms by (auto simp: eff_keeps_def db_text_def db_bool_def split: sum.splits)

lemma sipws_keeps:
  "eff_keeps (\<lambda>s :: 'a web_server_scheme. (wv_browsers s, wb_cloud s)) (handle_sipws_upgrade env now req)"
  unfolding handle_sipws_upgrade_def sipws_with_token_def lifecycle_gate_def slide_expiry_def Let_def
    json_dump_def j_value_eff_def
  by (intro eff_keeps_bind eff_keeps_split eff_keeps_catch eff_keeps_pure db_keeps) simp_all

text \<open>
  A request that puts a browser on the bridge passed the gate of \<^verbatim>\<open>/sip-ws\<close>, and the metadata of its
  stream is what the gate returned.
\<close>

lemma browser_from_gate:
  fixes s :: "'a web_server_scheme"
  assumes r: "web_request wp fd req s = (r, t)"
    and old: "um_find (wv_browsers s) fd = None" and new: "um_find (wv_browsers t) fd \<noteq> None"
  obtains h meta u where "Http (sv_zlib (wp_env wp)) req = Done h" and "is_upgrade ''/sip-ws'' h" and "wv_db s"
    and "handle_sipws_upgrade (wp_env wp) (wp_gate_now wp) req s = (Done (Inr meta), u)"
    and "has_agent (wb_cloud s)" and "wb_cloud u = wb_cloud s"
    and "t = handoff_browser wp fd (get_element h ''sec-websocket-key'') meta u"
proof -
  let ?gate = "handle_sipws_upgrade (wp_env wp) (wp_gate_now wp) req :: ('a web_server_scheme, _) effect"
  have br: "wv_browsers t \<noteq> wv_browsers s" using old new by auto
  obtain h where h: "Http (sv_zlib (wp_env wp)) req = Done h"
    using r br by (cases "Http (sv_zlib (wp_env wp)) req") (auto simp: web_request_def eff_bind_def eff_result_def)
  have up: "is_upgrade ''/sip-ws'' h" and sip: "sipws_request wp fd req h s = (r, t)"
    using r br by (auto simp: web_request_def h eff_bind_def eff_result_def with_state_def Let_def eff_update_def split: if_splits)
  have db: "wv_db s" using sip br by (auto simp: sipws_request_def with_state_def eff_update_def split: if_splits)
  obtain g u where g: "?gate s = (g, u)" by (cases "?gate s")
  have keep: "wv_browsers u = wv_browsers s" "wb_cloud u = wb_cloud s"
    using eff_keepsD[OF sipws_keeps g] by simp_all
  show ?thesis
    using sip br db keep g that[OF h up db]
    by (cases g) (auto simp: sipws_request_def with_state_def eff_bind_def eff_update_def split: sum.splits if_splits)
qed

section \<open>A request that stops the reactor\<close>

lemma web_loop_hangs:
  assumes "message_length req = of_nat (length req)" and "req \<noteq> []" and "length req < 2 ^ 64"
    and "Http (sv_zlib (wp_env wp)) req = Hangs"
  shows "web_loop wp fd req s = (Hangs, set_buffer fd [] s)"
  using assms
  by (subst web_loop.simps) (simp add: Let_def u64_of_nat web_request_def eff_bind_def eff_result_def)

end
