(* ===== verification/Service_Properties.thy ===== *)
theory Service_Properties
  imports Tunnel_Properties Pbx_Security Web_Server
begin

text \<open>
  What the web side of the cloud guarantees: who may change subscribers and societies, who gets on
  the bridge, who gets a session and how one ends, what disabling a subscriber sets off, what the
  directory shows, and how the bytes of a connection become requests.
\<close>

section \<open>Concrete objects for the witnesses\<close>

text \<open>
  A key derivation, a base64 and a database that are good enough to run the handlers: every lookup of
  a session, a subscriber or a society finds a named text, and the library knows what each text means.
\<close>

definition rest_crypto :: service_env where
  "rest_crypto = \<lparr>sv_json = sample_lib, sv_text = (\<lambda>_ _. Inr []), sv_bool = (\<lambda>_ _. Inr True), sv_int = (\<lambda>_ _. Inr 0),
     sv_remote_disconnected = (\<lambda>_. False), sv_getenv = (\<lambda>_. Some ''1''), sv_zlib = (\<lambda>a _. a), sv_md5 = id,
     sv_hmac_sha1 = (\<lambda>_ a. a), sv_pbkdf2 = (\<lambda>pw _ _. take 32 (pw @ replicate 32 (CHR ''k''))),
     sv_b64_encode = (\<lambda>a. CHR ''b'' # a), sv_b64_decode = tl, sv_float_long = (\<lambda>_. 0), sv_file = (\<lambda>_. None)\<rparr>"

definition rest_session :: json where
  "rest_session = JObject [(''expiresAt'', JInt 100), (''role'', JString ''admin''), (''societyId'', JString ''s1''),
     (''sipUsername'', JString ''u1'')]"

definition rest_subscriber :: json where
  "rest_subscriber = JObject [(''portalPasswordHash'', JString (hash_text rest_crypto ''pw'' ''salt'')),
     (''flatNumber'', JString ''101''), (''sipUsername'', JString ''u1''), (''name'', JString ''Ann'')]"

definition rest_body :: json where
  "rest_body = JObject [(''name'', JString ''n''), (''code'', JString ''c''), (''status'', JString ''disabled''),
     (''societyCode'', JString ''c''), (''flatNumber'', JString ''101''), (''password'', JString ''pw'')]"

definition rest_lib :: json_lib where
  "rest_lib = \<lparr>js_parse = (\<lambda>t. if t = ''session'' then Some rest_session
       else if t = ''subscriber'' then Some rest_subscriber
       else if t = ''society'' then Some (JObject [(''_id'', JString ''s1'')])
       else if t = ''subscribers'' then Some (JArray [rest_subscriber])
       else if t = ''body'' then Some rest_body else None),
     js_dump = (\<lambda>_. Some ''{}'')\<rparr>"

text \<open>The argument is the text found for a society.\<close>

definition rest_env :: "string \<Rightarrow> service_env" where
  "rest_env soc = rest_crypto\<lparr>sv_json := rest_lib,
     sv_text := (\<lambda>_ op. case op of
        GetDocument c q p \<Rightarrow>
          Inr (if c = ''sessions'' then ''session'' else if c = ''subscribers'' then ''subscriber'' else soc)
      | GetDocuments c q p \<Rightarrow> Inr ''subscribers''
      | _ \<Rightarrow> Inr ''oid'')\<rparr>"

lemma rest_env_simps [simp]:
  "sv_json (rest_env soc) = rest_lib" "sv_bool (rest_env soc) h op = Inr True" "sv_zlib (rest_env soc) a e = a"
  "sv_text (rest_env soc) h (GetDocument ''sessions'' q p) = Inr ''session''"
  "sv_text (rest_env soc) h (GetDocument ''subscribers'' q p) = Inr ''subscriber''"
  "sv_text (rest_env soc) h (GetDocument ''societies'' q p) = Inr soc"
  "sv_text (rest_env soc) h (GetDocuments c q p) = Inr ''subscribers''"
  "sv_text (rest_env soc) h (CreateDocument c d) = Inr ''oid''"
  "auth_strict (rest_env soc)" "db_available (rest_env soc)" "sv_remote_disconnected (rest_env soc) h = False"
  by (simp_all add: rest_env_def rest_crypto_def auth_strict_def db_available_def env_or_def)

lemma rest_lib_simps [simp]:
  "js_dump rest_lib j = Some ''{}''" "js_parse rest_lib ''session'' = Some rest_session"
  "js_parse rest_lib ''subscriber'' = Some rest_subscriber" "js_parse rest_lib ''body'' = Some rest_body"
  "js_parse rest_lib ''society'' = Some (JObject [(''_id'', JString ''s1'')])"
  "js_parse rest_lib ''subscribers'' = Some (JArray [rest_subscriber])"
  by (simp_all add: rest_lib_def)

lemma rest_session_simps [simp]:
  "session_live env rest_session now = (now < 100)"
  "j_value rest_session ''role'' d = Inr ''admin''" "j_value rest_session ''societyId'' d = Inr ''s1''"
  "j_value rest_session ''sipUsername'' d = Inr ''u1''"
  by (simp_all add: session_live_def rest_session_def j_value_def)

text \<open>A request with a bearer token and a body.\<close>

definition rest_headers :: "nat \<Rightarrow> (string \<times> string) list" where
  "rest_headers n = [(''Content-Length'', dec_string n)]"

definition rest_request :: "string \<Rightarrow> string \<Rightarrow> string" where
  "rest_request meth path =
     print_request meth path [(''token'', ''t0''), (''societyId'', ''s1'')] (rest_headers (length ''body'')) ''body''"

lemma rest_request_ok: "method_ok meth \<Longrightarrow> request_ok meth [(''token'', ''t0''), (''societyId'', ''s1'')] (rest_headers (length ''body'')) ''body''"
  using dec_string_digits[of "length ''body''"]
  by (auto simp: request_ok_def counted_headers_def rest_headers_def header_ok_def last_value_def elements_def
      str_to_lower_def to_lower_def is_digit_def)

lemma rest_Http:
  assumes "method_ok meth"
  shows "Http zlib (rest_request meth path) =
    Done ((parsed_head meth path [(''token'', ''t0''), (''societyId'', ''s1'')] (rest_headers (length ''body'')))\<lparr>m_body := ''body''\<rparr>)"
  unfolding rest_request_def by (rule Http_print_request[OF rest_request_ok[OF assms]])

lemma rest_query:
  assumes "method_ok meth"
  shows "query_param (raw_uri_with_query (rest_request meth path)) ''token'' = ''t0''"
    and "query_param (raw_uri_with_query (rest_request meth path)) ''societyId'' = ''s1''"
    and "query_param (raw_uri_with_query (rest_request meth path)) ''flatPrefix'' = []"
proof -
  let ?qs = "[(''token'', ''t0''), (''societyId'', ''s1'')]"
  have raw: "raw_uri_with_query (rest_request meth path) = print_target path ?qs"
    unfolding rest_request_def by (rule raw_uri_print[OF assms])
  have plain: "url_encode ''token'' = ''token''" "url_encode ''societyId'' = ''societyId''" "url_encode ''t0'' = ''t0''"
    "url_encode ''s1'' = ''s1''" "url_encode ''flatPrefix'' = ''flatPrefix''"
    by (simp_all add: url_encode_plain is_unreserved_def is_alnum_def)
  show "query_param (raw_uri_with_query (rest_request meth path)) ''token'' = ''t0''"
    "query_param (raw_uri_with_query (rest_request meth path)) ''societyId'' = ''s1''"
    "query_param (raw_uri_with_query (rest_request meth path)) ''flatPrefix'' = []"
    using query_param_print[of path ?qs "''token''"] query_param_print[of path ?qs "''societyId''"]
      query_param_print[of path ?qs "''flatPrefix''"]
    by (simp_all add: raw plain)
qed

definition rest_params :: "string \<Rightarrow> web_params" where
  "rest_params soc = \<lparr>wp_env = rest_env soc, wp_app = sample_app sample_lib, wp_beyond = [], wp_gate_now = 5, wp_now = 5,
     wp_now_ms = 5000\<rparr>"

definition rest_state :: web where
  "rest_state = \<lparr>db_log = [], rng = [(True, ''ab'')], wb_cloud = sample_cloud, wb_cte = True, wb_bridge = True,
     wb_presence = True\<rparr>"

lemmas rest_simps = eff_bind_def eff_result_def eff_return_def eff_sum_def eff_option_def eff_catch_def json_dump_def
  db_text_def db_bool_def RAND_bytes_def j_value_eff_def

section \<open>Who may write\<close>

text \<open>
  whatever a request to the REST service makes the database do, a subscriber or a society is
  created, changed or deleted only if the request's bearer token belongs, in the answer of the
  database at that moment, to a session that has not expired and whose role is administrator.
\<close>

theorem admin_writes_only:
  fixes s :: "'a web_scheme"
  assumes "op \<in> set (drop (length (db_log s)) (db_log (snd (dispatch_pbx_routes wp req s))))"
    and "protected_write op"
  shows "admin_bearer (wp_env wp) (wp_gate_now wp) req (db_log s)"
proof -
  obtain l where "db_log (snd (dispatch_pbx_routes wp req s)) = db_log s @ l"
    "list_all (\<lambda>op. \<not> protected_write op) l \<or> admin_bearer (wp_env wp) (wp_gate_now wp) req (db_log s)"
    using dispatch_protected[of wp req] unfolding logs_unless_def by blast
  with assms show ?thesis by (auto simp: list_all_iff)
qed

lemma rest_gate:
  "method_ok meth \<Longrightarrow> resolve_admin_session (rest_env soc) 5 (rest_request meth path) s =
     (Done \<lparr>as_error = [], as_society_id = ''s1'', as_sip_username = ''u1'', as_role = ''admin''\<rparr>,
      s\<lparr>db_log := db_log s @ [GetDocument ''sessions'' ''{}'' ''{}'']\<rparr>)"
  by (simp add: resolve_admin_session_def extract_session_token_def rest_query rest_simps)

lemma rest_society_post:
  "db_log (snd (dispatch_pbx_routes (rest_params []) (rest_request ''POST'' ''/api/v1/society'') rest_state)) =
    [GetDocument ''sessions'' ''{}'' ''{}'', GetDocument ''societies'' (raw_filter ''code'' ''c'') ''{}'',
     CreateDocument ''societies'' ''{}'']"
proof -
  have m: "method_ok ''POST''" by (simp add: method_ok_def)
  have b: "missing_field [''name'', ''code''] rest_body = None" "field_text rest_body ''code'' = ''c''"
    by (simp_all add: missing_field_def rest_body_def j_get_string_def field_text_def)
  show ?thesis
    by (simp add: dispatch_pbx_routes_def rest_params_def rest_Http[OF m] http_simps has_prefix_def admin_only_def
        rest_gate[OF m] handle_society_POST_def rest_simps b random_alnum_def rest_state_def Let_def)
qed

theorem admin_writes_only_witness:
  "protected_write (CreateDocument ''societies'' ''{}'') \<and>
   admin_bearer (rest_env []) 5 (rest_request ''POST'' ''/api/v1/society'') []"
proof -
  have "protected_write (CreateDocument ''societies'' ''{}'')" by (simp add: protected_write_def db_writes_to_def c_str_def)
  with admin_writes_only[of "CreateDocument ''societies'' ''{}''" rest_state "rest_params []"
      "rest_request ''POST'' ''/api/v1/society''"]
  show ?thesis by (simp add: rest_society_post) (simp add: rest_state_def rest_params_def)
qed

section \<open>Who gets on the bridge\<close>




definition rest_server :: web_server where
  "rest_server = web.extend rest_state
     \<lparr>wv_db = True, wv_wsdb = False, wv_inner_tls = False, wv_pool = [(7, [])], wv_registered = [7], wv_workers = 2, wv_current = 2,
      wv_jobs = [], wv_browsers = [], wv_handoffs = [], wv_log = []\<rparr>"

definition server_sample :: server_params where
  "server_sample = web_params.extend (rest_params []) \<lparr>wp_sha1_base64 = id\<rparr>"

lemma server_sample_fields [simp]:
  "wp_env server_sample = rest_env []" "wp_gate_now server_sample = 5" "wp_app server_sample = sample_app sample_lib"
  by (simp_all add: server_sample_def rest_params_def web_params.extend_def)

lemma rest_server_fields [simp]:
  "wv_db rest_server" "wv_browsers rest_server = []" "db_log rest_server = []" "wb_cloud rest_server = sample_cloud"
  "wb_cte rest_server" "wb_bridge rest_server" "um_find (wv_pool rest_server) 7 = Some []"
  "wv_current rest_server = 2" "wv_workers rest_server = 2" "wv_jobs rest_server = []" "wv_handoffs rest_server = []"
  by (simp_all add: rest_server_def rest_state_def web.extend_def)








section \<open>Sessions\<close>

text \<open>
  C18: in strict mode a login request creates a session only for a subscriber that the database finds
  under the society code and the flat of the request, whose stored hash verifies against the password
  of the request, and whose account is not disabled.
\<close>

theorem strict_login:
  assumes "auth_strict env"
    and "CreateDocument ''sessions'' d \<in>
           set (drop (length (db_log s)) (db_log (snd (handle_subscriber_login_POST env beyond now req s))))"
  shows "\<exists>code flat pw sub. login_form env req code flat pw \<and> login_record env (db_log s) code flat sub \<and>
           credentials_ok env beyond pw sub"
  using log_at_entry[OF login_guard[OF assms(1)] assms(2)] by (auto simp: creates_session_def)

lemma rest_password: "verify_password (rest_env soc) beyond ''pw'' (hash_text rest_crypto ''pw'' ''salt'') = Inr True"
proof -
  have "hash_text rest_crypto ''pw'' ''salt'' = hash_text (rest_env soc) ''pw'' ''salt''"
    by (simp add: hash_text_def rest_env_def)
  moreover have "b64_faithful (rest_env soc) ''salt''"
    "b64_faithful (rest_env soc) (sv_pbkdf2 (rest_env soc) ''pw'' ''salt'' (int kPbkdf2Iterations))"
    by (auto simp: b64_faithful_def rest_env_def rest_crypto_def)
  ultimately show ?thesis
    using verify_hash_text[of "rest_env soc" "''pw''" "''salt''" "''pw''" beyond]
    by (simp add: rest_env_def rest_crypto_def kPbkdf2KeyLen_def)
qed

lemma rest_login:
  fixes s :: "'a db_state_scheme"
  assumes "rng s = (True, ''ab'') # rs"
  shows "db_log (snd (handle_subscriber_login_POST (rest_env ''society'') beyond 5 (rest_request ''POST'' p) s)) =
    db_log s @ [GetDocument ''societies'' ''{}'' ''{}'', GetDocument ''subscribers'' ''{}'' ''{}'', CreateDocument ''sessions'' ''{}'']"
proof -
  have m: "method_ok ''POST''" by (simp add: method_ok_def)
  have b: "missing_field [''societyCode'', ''flatNumber'', ''password''] rest_body = None"
    "field_text rest_body ''password'' = ''pw''"
    by (simp_all add: missing_field_def rest_body_def j_get_string_def field_text_def)
  have soc: "j_value (JObject [(''_id'', JString ''s1'')]) ''_id'' [] = Inr ''s1''" by (simp add: j_value_def)
  have sub: "j_get_string rest_subscriber ''portalPasswordHash'' = Some (hash_text rest_crypto ''pw'' ''salt'')"
    "\<not> account_disabled rest_subscriber" "j_value rest_subscriber ''sipUsername'' d = Inr ''u1''"
    "j_value rest_subscriber ''role'' d = Inr d" "j_value rest_subscriber ''email'' d = Inr d"
    "j_value rest_subscriber ''flatNumber'' d = Inr ''101''" "j_value rest_subscriber ''name'' d = Inr ''Ann''"
    "j_value_bool rest_subscriber ''autoAnswer'' e = (\<lambda>s :: 'a db_state_scheme. eff_return e s)" for d e
    by (simp_all add: rest_subscriber_def j_get_string_def account_disabled_def j_value_def j_value_bool_def fun_eq_iff)
  show ?thesis
    using assms
    by (simp add: handle_subscriber_login_POST_def rest_Http[OF m] http_simps rest_simps b is_remote_disconnected_def
        login_strict_def soc login_subscriber_def sub rest_password finish_login_def mint_bearer_token_def
        hex_encode_def Let_def)
qed

theorem strict_login_witness:
  "\<exists>code flat pw sub. login_form (rest_env ''society'') (rest_request ''POST'' ''/l'') code flat pw \<and>
     login_record (rest_env ''society'') [] code flat sub \<and> credentials_ok (rest_env ''society'') [] pw sub"
  using strict_login[of "rest_env ''society''" "''{}''" rest_state "[]" 5 "rest_request ''POST'' ''/l''"]
    rest_login[of rest_state "[]" "[]" "''/l''"]
  by (simp add: rest_state_def)

text \<open>
  C19: no route extends a session that has expired: if handling a request moves the expiry of any
  session, the bearer token of that request has, in the answer of the database at that moment, a
  session that is still alive.
\<close>

theorem expired_session_stays_dead:
  fixes s :: "'a web_scheme"
  assumes "UpdateCollection ''sessions'' f u \<in>
    set (drop (length (db_log s)) (db_log (snd (dispatch_pbx_routes wp req s))))"
  shows "\<exists>q session. live_session (wp_env wp) (wp_now wp) req (db_log s) q session"
  using log_at_entry[OF dispatch_extends assms] by simp

lemma rest_ping:
  "db_log (snd (dispatch_pbx_routes (rest_params []) (rest_request ''GET'' ''/api/v1/ping'') rest_state)) =
    [GetDocument ''sessions'' ''{}'' ''{}'', UpdateCollection ''sessions'' ''{}'' ''{}'']"
proof -
  have m: "method_ok ''GET''" by (simp add: method_ok_def)
  show ?thesis
    by (simp add: dispatch_pbx_routes_def rest_params_def rest_Http[OF m] http_simps has_prefix_def handle_ping_GET_def
        extract_session_token_def rest_query[OF m] refresh_session_expiry_def slide_expiry_def rest_simps rest_state_def Let_def)
qed

theorem expired_session_stays_dead_witness:
  "\<exists>q session. live_session (rest_env []) 5 (rest_request ''GET'' ''/api/v1/ping'') [] q session"
  using expired_session_stays_dead[of "''{}''" "''{}''" rest_state "rest_params []" "rest_request ''GET'' ''/api/v1/ping''"]
    rest_ping
  by (simp add: rest_state_def rest_params_def)

section \<open>Disabling a subscriber\<close>

text \<open>
  C20: disabling a subscriber, over a tunnel that accepts writes and with a database that answers,
  succeeds and has exactly these effects, in this order: the record is looked up and its status
  changed, all sessions of the user are deleted, and one \<^verbatim>\<open>SUBSCRIBER_REVOKED\<close> frame for that user and
  society goes to the agent.
\<close>

theorem disabling_cuts_off:
  fixes s :: web
  assumes "lifecycle_target (wp_env wp) req (db_log s) user soc flt" and "answering (wp_env wp)"
    and "Http (sv_zlib (wp_env wp)) req = Done p" and "js_parse (sv_json (wp_env wp)) (m_body p) = Some body"
    and "j_get_string body ''status'' = Some ''disabled''"
    and "wb_bridge s" and "m_tunnel (wb_cloud s)" and "healthy (wb_cloud s)"
    and "js_dump (ae_json (wp_app wp)) (revoke_payload soc user) = Some pl"
  shows "\<exists>upd rsp. js_dump (sv_json (wp_env wp)) (status_update ''disabled'') = Some upd \<and>
    handle_subscriber_status_PUT (wp_env wp) (web_sink wp s) req s =
      (Done (json_response 200 ''OK'' rsp),
       s\<lparr>db_log := db_log s @ [GetDocument ''subscribers'' flt ''{}'', UpdateCollection ''subscribers'' flt upd,
            DeleteDocument ''sessions'' flt],
         wb_cloud := (wb_cloud s)\<lparr>e_log := e_log (wb_cloud s) @
            [Sent (t_id (the (ce_transport (wb_cloud s)))) (sf_encode SUBSCRIBER_REVOKED 0 pl)]\<rparr>\<rparr>)"
proof -
  obtain upd where upd: "js_dump (sv_json (wp_env wp)) (status_update ''disabled'') = Some upd"
    using assms(2) unfolding answering_def by blast
  let ?s = "s\<lparr>db_log := db_log s @ [GetDocument ''subscribers'' flt ''{}'', UpdateCollection ''subscribers'' flt upd,
            DeleteDocument ''sessions'' flt]\<rparr>"
  have "call_revoke (web_sink wp s) soc user ?s =
      (Done (), ?s\<lparr>wb_cloud := (wb_cloud ?s)\<lparr>e_log := e_log (wb_cloud ?s) @
         [Sent (t_id (the (ce_transport (wb_cloud ?s)))) (sf_encode SUBSCRIBER_REVOKED 0 pl)]\<rparr>\<rparr>)"
    using assms by (intro web_sink_sent) simp_all
  then show ?thesis
    using assms(3-5) upd
    by (simp add: answering_steps[OF assms(2)] handle_subscriber_status_PUT_def eff_bind_step[of "resolve_lifecycle_target (wp_env wp) req", OF lifecycle_target_found[OF assms(1)]]
        parse_http_step eff_return_def) blast
qed

theorem disabling_cuts_off_witness:
  "\<exists>rsp. db_log (snd (handle_subscriber_status_PUT (rest_env []) (web_sink (rest_params []) rest_state)
       (rest_request ''PUT'' ''/api/v1/subscriber/u1'') rest_state)) =
     [GetDocument ''subscribers'' ''{}'' ''{}'', UpdateCollection ''subscribers'' ''{}'' rsp, DeleteDocument ''sessions'' ''{}'']"
proof -
  have m: "method_ok ''PUT''" by (simp add: method_ok_def)
  have "path_encode ''/api/v1/subscriber/u1'' = ''/api/v1/subscriber/'' @ ''u1''"
    by (simp add: path_encode_plain is_unreserved_def is_alnum_def)
  from path_suffix_print[OF m this]
  have suf: "path_suffix (rest_request ''PUT'' ''/api/v1/subscriber/u1'') ''/api/v1/subscriber/'' = ''u1''"
    by (simp add: rest_request_def)
  have t: "lifecycle_target (rest_env []) (rest_request ''PUT'' ''/api/v1/subscriber/u1'') [] ''u1'' ''s1'' ''{}''"
    by (simp add: lifecycle_target_def suf rest_query[OF m])
  have a: "answering (rest_env [])" by (simp add: answering_def) blast
  show ?thesis
    using disabling_cuts_off[of "rest_params []" _ rest_state, OF _ _ rest_Http[OF m], of "''/api/v1/subscriber/u1''" "''u1''" "''s1''" "''{}''" rest_body "''{}''"]
      t a
    by (auto simp: rest_params_def rest_state_def rest_body_def j_get_string_def sample_app_def sample_lib_def)
qed

section \<open>The directory\<close>

text \<open>
  What a row of the directory says, given who is online: rows without a flat number, or of another
  flat, are left out.
\<close>

definition directory_view :: "(string \<Rightarrow> bool) \<Rightarrow> string \<Rightarrow> json \<Rightarrow> json option" where
  "directory_view online pre row =
     (case j_get_string row ''flatNumber'' of
        None \<Rightarrow> None
      | Some flat \<Rightarrow>
          (if matches_prefix pre flat then
             Some (JObject [(''flatNumber'', JString flat), (''displayName'', JString (field_text row ''name'')),
                (''sipUri'', JString (''sip:'' @ flat @ ''@pbx.local'')),
                (''online'', JBool (field_text row ''sipUsername'' \<noteq> [] \<and> online (field_text row ''sipUsername'')))])
           else None))"

text \<open>A row whose name and user name are strings.\<close>

definition subscriber_row :: "json \<Rightarrow> bool" where
  "subscriber_row row \<longleftrightarrow> j_get_string row ''name'' \<noteq> None \<and> j_get_string row ''sipUsername'' \<noteq> None"

lemma directory_entry_view:
  "subscriber_row row \<Longrightarrow>
     directory_entry (Some pc) soc pre row = Inr (directory_view (\<lambda>u. presence_is_online soc u pc) pre row)"
  by (auto simp: subscriber_row_def directory_entry_def directory_view_def field_text_def j_value_string
      split: option.splits)

lemma directory_rows_view:
  assumes "list_all subscriber_row arr"
  shows "directory_rows (Some pc) soc pre arr =
           Inr (List.map_filter (directory_view (\<lambda>u. presence_is_online soc u pc) pre) arr)"
proof -
  have "sum_list_of (directory_entry (Some pc) soc pre) arr =
      Inr (map (directory_view (\<lambda>u. presence_is_online soc u pc) pre) arr)"
    using assms by (induction arr) (simp_all add: directory_entry_view)
  then show ?thesis by (simp add: directory_rows_def List.map_filter_def comp_def filter_map)
qed

text \<open>
  a registration report from the agent shows in the directory.  After the cloud has handled a
  \<^verbatim>\<open>REGISTER_STATE\<close> frame for a user, the directory of a society lists the subscribers the database
  returns, in order, and marks exactly that user of exactly that society with the reported state;
  everybody else is shown as before.
\<close>

theorem directory_shows_registration:
  fixes s :: web
  assumes "js_parse (ae_json ae) payload = Some j" and "j_get_string j ''societyId'' = Some soc'"
    and "j_get_string j ''sipUsername'' = Some user" and "j_get_bool j ''online'' = Some online"
    and "CHR 0x00 \<notin> set soc" and "CHR 0x00 \<notin> set soc'"
    and "soc = query_param (raw_uri_with_query req) ''societyId''" and "soc \<noteq> []" and "db_available env"
    and "sv_text env (db_log s) (GetDocuments ''subscribers'' (raw_filter ''societyId'' soc) ''{}'') = Inr result"
    and "result \<noteq> []" and "js_parse (sv_json env) result = Some (JArray arr)" and "list_all subscriber_row arr"
    and "js_dump (sv_json env) (JArray (List.map_filter (directory_view
           (\<lambda>u. if soc = soc' \<and> u = user then online else presence_is_online soc u (ca_presence (wb_cloud s)))
           (query_param (raw_uri_with_query req) ''flatPrefix'')) arr)) = Some out"
    and "wb_presence s" and "t = s\<lparr>wb_cloud := register_state_handler ae payload (wb_cloud s)\<rparr>"
  shows "handle_directory_GET env (web_presence t) req t =
           (Done (json_response 200 ''OK'' out),
            t\<lparr>db_log := db_log s @ [GetDocuments ''subscribers'' (raw_filter ''societyId'' soc) ''{}'']\<rparr>)"
proof -
  have pres: "presence_is_online soc u (presence_set soc' user online (ca_presence (wb_cloud s))) =
      (if soc = soc' \<and> u = user then online else presence_is_online soc u (ca_presence (wb_cloud s)))" for u
    using assms(5,6) by (simp add: mem.online_upd)
  have c: "ca_presence (wb_cloud t) = presence_set soc' user online (ca_presence (wb_cloud s))"
    using assms by (simp add: register_state_handler_def)
  have w: "web_presence t = Some (presence_set soc' user online (ca_presence (wb_cloud s)))"
    using assms c by (simp add: web_presence_def)
  note rows = directory_rows_view[OF assms(13), of "presence_set soc' user online (ca_presence (wb_cloud s))" soc,
      unfolded pres]
  have l: "db_log t = db_log s" using assms by simp
  show ?thesis
    unfolding handle_directory_GET_def Let_def assms(7)[symmetric] w
    using assms(8-12,14)
    by (simp add: try_text_def rest_simps l rows)
qed

definition register_report :: json where
  "register_report = JObject [(''societyId'', JString ''s1''), (''sipUsername'', JString ''u1''), (''online'', JBool True)]"

definition register_app :: app_env where
  "register_app = sample_app \<lparr>js_parse = (\<lambda>_. Some register_report), js_dump = (\<lambda>_. Some ''{}'')\<rparr>"

theorem directory_shows_registration_witness:
  "fst (handle_directory_GET (rest_env []) (web_presence (rest_state\<lparr>wb_cloud :=
      register_state_handler register_app ''x'' sample_cloud\<rparr>)) (rest_request ''GET'' ''/api/v1/subscriber'')
      (rest_state\<lparr>wb_cloud := register_state_handler register_app ''x'' sample_cloud\<rparr>)) =
    Done (json_response 200 ''OK'' ''{}'')"
proof -
  have m: "method_ok ''GET''" by (simp add: method_ok_def)
  have r: "subscriber_row rest_subscriber" by (simp add: subscriber_row_def rest_subscriber_def j_get_string_def)
  let ?req = "rest_request ''GET'' ''/api/v1/subscriber''"
  let ?t = "rest_state\<lparr>wb_cloud := register_state_handler register_app ''x'' sample_cloud\<rparr>"
  have j: "js_parse (ae_json register_app) ''x'' = Some register_report" by (simp add: register_app_def sample_app_def)
  have f: "j_get_string register_report ''societyId'' = Some ''s1''" "j_get_string register_report ''sipUsername'' = Some ''u1''"
    "j_get_bool register_report ''online'' = Some True"
    by (simp_all add: register_report_def j_get_string_def j_get_bool_def)
  have q: "''s1'' = query_param (raw_uri_with_query ?req) ''societyId''" by (simp add: rest_query[OF m])
  have "handle_directory_GET (rest_env []) (web_presence ?t) ?req ?t = (Done (json_response 200 ''OK'' ''{}''),
      ?t\<lparr>db_log := db_log rest_state @ [GetDocuments ''subscribers'' (raw_filter ''societyId'' ''s1'') ''{}'']\<rparr>)"
    by (rule directory_shows_registration[OF j f _ _ q, where arr = "[rest_subscriber]" and result = "''subscribers''"])
      (use r in \<open>simp_all add: rest_state_def\<close>)
  then show ?thesis by (simp only: fst_conv)
qed

section \<open>Requests on a connection\<close>

text \<open>
  parsing inverts printing.  A request with a percent-encoded path and query, headers and a counted
  body is parsed to its method, its decoded path, its body, and for every key the first value given
  for it in the query or else in the headers; in a buffer with any bytes behind it, its length is found.
\<close>

theorem request_round_trip:
  assumes "request_ok meth qs hs body"
  shows "(\<exists>p. Http zlib (print_request meth path qs hs body) = Done p \<and> m_method p = meth \<and> m_uriName p = path \<and>
            m_body p = body \<and> (\<forall>key. get_element p key = elements (qs @ hs) key)) \<and>
         message_length (print_request meth path qs hs body @ rest) = of_nat (length (print_request meth path qs hs body))"
  using print_request_length[OF assms, of path rest]
  by (simp add: Http_print_request[OF assms] http_simps)

theorem request_round_trip_witness:
  "\<exists>p. Http (\<lambda>a _. a) (rest_request ''POST'' ''/a b'') = Done p \<and> m_uriName p = ''/a b'' \<and> m_body p = ''body''"
  using request_round_trip[OF rest_request_ok[of "''POST''"], of "\<lambda>a _. a" "''/a b''" "[]"]
  by (auto simp: method_ok_def rest_request_def)

text \<open>
  C21: however the network cuts the bytes of a sequence of requests, the connection cuts them back into
  exactly those requests and hands each, once and in order, to the workers in turn; nothing is left
  in the buffer.  The requests are those whose end the framing recognises (a header \<^verbatim>\<open>Content-Length\<close> in exactly
  this spelling; chunks whose end mark stands only at the end; or neither, no multipart type and no body, as an ordinary
  GET), that parse and ask for no upgrade.  A length spelled in another case and a multipart body without a length are not
  covered.
\<close>

theorem requests_queued_in_order:
  fixes s :: "'a web_server_scheme"
  assumes "um_find (wv_pool s) fd = Some []" and "list_all delimited_request rs" and "list_all (ordinary wp) rs"
    and "concat pieces = concat rs" and "pieces \<noteq> []" and "wv_current s \<le> wv_workers s" and "0 < wv_workers s"
  shows "\<exists>t. read_pieces wp fd pieces s = (Done 0, t) \<and> um_find (wv_pool t) fd = Some [] \<and>
           wv_jobs t = wv_jobs s @ map (\<lambda>i. ((first_worker s + i) mod wv_workers s, fd, rs ! i)) [0..<length rs]"
proof -
  have "fold (feed message_length) pieces ([], []) = ([] @ rs, [])"
    using requests.feed_messages[OF assms(2,4)] by simp
  from read_pieces_feed[OF assms(1) this assms(3,5)]
  show ?thesis using enqueue_all_jobs[OF assms(6,7), of fd rs] by (simp add: set_buffer_def)
qed

definition plain_get :: string where
  "plain_get = print_request ''GET'' ''/x'' [] [(''Host'', ''h''), (''Accept'', ''*'')] []"

definition chunked_post :: string where
  "chunked_post = print_request ''POST'' ''/y'' [] [(''Transfer-Encoding'', ''chunked'')] (''2'' @ crlf @ ''ab'' @ crlf @ last_chunk)"

lemma decode_sample: "decode_chunked (''2'' @ crlf @ ''ab'' @ crlf @ last_chunk) = Some ''ab''"
  using decode_chunked_print[of "[(''2'', ''ab'')]" crlf]
  by (simp add: chunk_ok_def print_chunks_def print_chunk_def last_chunk_def crlf_def stoul_hex_def upto_semi_def num_sign_def
      is_space_def hex_digits_def is_xdigit_def xdigit_val_def)

lemma sample_requests:
  "delimited_request plain_get" "delimited_request chunked_post"
  "ordinary server_sample plain_get" "ordinary server_sample chunked_post"
proof -
  have m: "method_ok ''GET''" "method_ok ''POST''" by (simp_all add: method_ok_def)
  have h: "list_all header_ok [(''Host'', ''h''), (''Accept'', ''*'')]" "list_all header_ok [(''Transfer-Encoding'', ''chunked'')]"
    by (simp_all add: header_ok_def)
  have "delimited [(''Host'', ''h''), (''Accept'', ''*'')] []"
    using h by (simp add: delimited_def last_value_def multipart_boundary_def)
  moreover have "delimited [(''Transfer-Encoding'', ''chunked'')] (''2'' @ crlf @ ''ab'' @ crlf @ last_chunk)"
    using h by (simp add: delimited_def last_value_def last_chunk_def crlf_def)
  moreover have "length plain_get < 2 ^ 64" "length chunked_post < 2 ^ 64"
    by (simp_all add: plain_get_def chunked_post_def print_request_def print_target_def path_encode_def url_encode_char_def
        print_header_def crlf_def is_unreserved_def is_alnum_def last_chunk_def)
  ultimately show "delimited_request plain_get" "delimited_request chunked_post"
    using m unfolding delimited_request_def plain_get_def chunked_post_def by blast+
  have d: "drop (length (print_request meth path qs hs [])) (print_request meth path qs hs body) = body" for meth path qs hs body
    by (metis append_eq_conv_conj print_request_body)
  show "ordinary server_sample plain_get"
    using Http_print_head[OF m(1) h(1), of _ "''/x''" "[]" "[]"]
    by (simp add: ordinary_def plain_get_def get_body_def http_simps elements_def str_to_lower_def to_lower_def Let_def
        multipart_boundary_def)
  show "ordinary server_sample chunked_post"
    using Http_print_head[OF m(2) h(2), of _ "''/y''" "[]" "''2'' @ crlf @ ''ab'' @ crlf @ last_chunk"]
    by (simp add: ordinary_def chunked_post_def get_body_def http_simps elements_def str_to_lower_def to_lower_def Let_def
        d decode_sample[simplified])
qed

theorem requests_queued_in_order_witness:
  "\<exists>t. read_pieces server_sample 7 [take 9 plain_get, drop 9 plain_get @ chunked_post] rest_server = (Done 0, t) \<and>
     wv_jobs t = [(0, 7, plain_get), (1, 7, chunked_post)]"
  using requests_queued_in_order[of rest_server 7 "[plain_get, chunked_post]" server_sample
      "[take 9 plain_get, drop 9 plain_get @ chunked_post]"] sample_requests
  by (simp add: first_worker_def upt_rec) blast

text \<open>
  C22: a body in chunks, with any size lines that name the sizes of their chunks and any trailer,
  decodes to the concatenation of the chunks, and decoding ends.
\<close>

theorem chunked_round_trip:
  assumes "list_all chunk_ok chs" and "length (print_chunks chs trailer) < 2 ^ 64"
  shows "decode_chunked (print_chunks chs trailer) = Some (concat (map snd chs))"
  using assms by (rule decode_chunked_print)

theorem chunked_round_trip_witness:
  "decode_chunked (print_chunks [(''3'', ''abc''), (''2;x'', ''de'')] crlf) = Some ''abcde''"
  using chunked_round_trip[of "[(''3'', ''abc''), (''2;x'', ''de'')]" crlf]
  by (simp add: chunk_ok_def print_chunks_def print_chunk_def crlf_def stoul_hex_def upto_semi_def num_sign_def is_space_def
      hex_digits_def is_xdigit_def xdigit_val_def)

text \<open>
  C23: decoding does not always end.  The position behind a chunk is computed modulo \<open>2\<^sup>6\<^sup>4\<close>, so a chunk
  size close to \<open>2\<^sup>6\<^sup>4\<close> moves it back to the same size line.  One such request, sent by anyone who can
  connect, is cut out of the buffer as a complete message, and the input handler that parses it
  never returns.
\<close>

theorem chunk_size_wraps:
  fixes s :: "'a web_server_scheme"
  assumes "method_ok meth" and "length (looping_request meth path) < 2 ^ 64" and "um_find (wv_pool s) fd = Some []"
  shows "fst (conn_handle_input wp fd (RecvData (looping_request meth path)) s) = Hangs"
proof -
  have "looping_request meth path \<noteq> []" by (simp add: looping_request_def print_request_def)
  note hangs = web_loop_hangs[OF looping_request_length[OF assms(1)] this assms(2) looping_request_hangs[OF assms(1)]]
  show ?thesis using assms(3) by (simp add: conn_handle_input_def hangs)
qed

theorem chunk_size_wraps_witness:
  "fst (conn_handle_input server_sample 7 (RecvData (looping_request ''POST'' ''/'')) rest_server) = Hangs"
proof -
  have "length (looping_request ''POST'' ''/'') < 2 ^ 64"
    by (simp add: looping_request_def looping_body_def looping_line_def print_request_def print_target_def path_encode_def
        print_header_def crlf_def)
  then show ?thesis using chunk_size_wraps[of "''POST''" "''/''" rest_server 7] by (simp add: method_ok_def)
qed

section \<open>Passwords\<close>

text \<open>
  a password is verified against the hash that was stored for another one exactly when PBKDF2
  derives the same key from both with the stored salt; in particular the password that was hashed
  verifies.
\<close>

theorem password_round_trip:
  fixes s :: "'a db_state_scheme"
  assumes "rng s = (ok, bytes) # rs" and "salt = rand_buffer 16 bytes"
    and "\<And>p. length (sv_pbkdf2 env p salt (int kPbkdf2Iterations)) = kPbkdf2KeyLen"
    and "b64_faithful env salt" and "b64_faithful env (sv_pbkdf2 env pw salt (int kPbkdf2Iterations))"
  shows "\<exists>h. hash_password env pw s = (Done h, s\<lparr>rng := rs\<rparr>) \<and>
    (\<forall>other beyond. verify_password env beyond other h =
       Inr (sv_pbkdf2 env other salt (int kPbkdf2Iterations) = sv_pbkdf2 env pw salt (int kPbkdf2Iterations)))"
proof -
  have "salt \<noteq> []" using assms(2) by simp
  from verify_hash_text[OF assms(3,3,4,5) this] show ?thesis
    using assms(1,2) by (simp add: hash_password_def rest_simps)
qed

theorem password_round_trip_witness:
  "\<exists>h. hash_password (rest_env []) ''pw'' rest_state = (Done h, rest_state\<lparr>rng := []\<rparr>) \<and>
     verify_password (rest_env []) [] ''pw'' h = Inr True \<and> verify_password (rest_env []) [] ''px'' h = Inr False"
proof -
  have k: "sv_pbkdf2 (rest_env []) p salt n = take 32 (p @ replicate 32 (CHR ''k''))" for p salt n
    by (simp add: rest_env_def rest_crypto_def)
  have b: "b64_faithful (rest_env []) a = (CHR ''$'' \<notin> set a)" for a
    by (simp add: b64_faithful_def rest_env_def rest_crypto_def)
  have len: "length (sv_pbkdf2 (rest_env []) p salt n) = kPbkdf2KeyLen" for p salt n
    unfolding k by (simp add: kPbkdf2KeyLen_def)
  show ?thesis
    using password_round_trip[of rest_state True "''ab''" "[]" "rand_buffer 16 ''ab''" "rest_env []" "''pw''", OF _ _ len]
    by (auto simp: b k rest_state_def rand_buffer_def)
qed

end
