(* ===== verification/Db_Proto.thy ===== *)
theory Db_Proto
  imports Ws_Frame Cpp_Effect
begin

text \<open>
  The envelope of the database protocol between the cloud and the agent beside the database
  (\<^verbatim>\<open>modules/module/wsdbproxy/src/dbproto.cpp\<close>): BSON documents with a request id, an operation code and
  the arguments, and BSON documents with the answer.

  The BSON library is a parameter (\<^verbatim>\<open>bson_lib\<close>): serialising a list of elements, looking an element up
  in serialised bytes, and the two conversions from and to JSON text, which may throw
  (\<^term>\<open>None\<close>).  \<^verbatim>\<open>bson_laws\<close> states what its documentation promises of a serialised document.  Request
  ids and counts are 32-bit words.
\<close>

named_theorems dbproto_simps \<open>unfolding of the database envelopes\<close>

type_synonym i32 = "32 word"

section \<open>The BSON library\<close>

datatype bson_value = BInt32 i32 | BBool bool | BUtf8 string | BBinary "u8 list" | BOther "u8 list"

type_synonym bson_doc = "(string \<times> bson_value) list"

record bson_lib =
  bs_encode :: "bson_doc \<Rightarrow> u8 list"
  bs_find :: "u8 list \<Rightarrow> string \<Rightarrow> bson_value option"
  bs_from_json :: "string \<Rightarrow> u8 list option"
  bs_to_json :: "u8 list \<Rightarrow> string option"

definition bson_laws :: "bson_lib \<Rightarrow> bool" where
  "bson_laws lib \<longleftrightarrow>
     (\<forall>d k. bs_find lib (bs_encode lib d) k = map_of d k) \<and> (\<forall>d. bs_encode lib d \<noteq> [])"

lemma bson_find_encode [simp]: "bson_laws lib \<Longrightarrow> bs_find lib (bs_encode lib d) k = map_of d k"
  and bson_encode_nonempty [simp]: "bson_laws lib \<Longrightarrow> bs_encode lib d \<noteq> []"
  by (simp_all add: bson_laws_def)

text \<open>\<^verbatim>\<open>get_int32()\<close> and its siblings throw on an element of another type.\<close>

fun get_int32 :: "bson_value \<Rightarrow> i32 option" where
  "get_int32 (BInt32 v) = Some v"
| "get_int32 _ = None"

fun get_bool :: "bson_value \<Rightarrow> bool option" where
  "get_bool (BBool v) = Some v"
| "get_bool _ = None"

fun get_utf8 :: "bson_value \<Rightarrow> string option" where
  "get_utf8 (BUtf8 v) = Some v"
| "get_utf8 _ = None"

fun get_binary :: "bson_value \<Rightarrow> u8 list option" where
  "get_binary (BBinary v) = Some v"
| "get_binary _ = None"

section \<open>Operations, requests and responses\<close>

datatype db_op =
    CREATE_DOCUMENT | CREATE_BULK_DOCUMENT | UPDATE_COLLECTION | UPDATE_BULK_DOCUMENT | DELETE_DOCUMENT
  | GET_DOCUMENT | GET_DOCUMENTS_QUERIED | GET_DOCUMENTS_ALL | NEXT_AWBNO | STORE_FILE | FETCH_FILE
  | FETCH_FILE_BY_ID | DELETE_FILE

fun db_op_code :: "db_op \<Rightarrow> i32" where
  "db_op_code CREATE_DOCUMENT = 0"
| "db_op_code CREATE_BULK_DOCUMENT = 1"
| "db_op_code UPDATE_COLLECTION = 2"
| "db_op_code UPDATE_BULK_DOCUMENT = 3"
| "db_op_code DELETE_DOCUMENT = 4"
| "db_op_code GET_DOCUMENT = 5"
| "db_op_code GET_DOCUMENTS_QUERIED = 6"
| "db_op_code GET_DOCUMENTS_ALL = 7"
| "db_op_code NEXT_AWBNO = 8"
| "db_op_code STORE_FILE = 9"
| "db_op_code FETCH_FILE = 10"
| "db_op_code FETCH_FILE_BY_ID = 11"
| "db_op_code DELETE_FILE = 12"

definition all_ops :: "db_op list" where
  "all_ops = [CREATE_DOCUMENT, CREATE_BULK_DOCUMENT, UPDATE_COLLECTION, UPDATE_BULK_DOCUMENT, DELETE_DOCUMENT,
     GET_DOCUMENT, GET_DOCUMENTS_QUERIED, GET_DOCUMENTS_ALL, NEXT_AWBNO, STORE_FILE, FETCH_FILE,
     FETCH_FILE_BY_ID, DELETE_FILE]"

text \<open>
  \<^verbatim>\<open>static_cast<DbOp>\<close> keeps every 32-bit value; a \<^verbatim>\<open>switch\<close> over it reaches \<^verbatim>\<open>default\<close> for a value that is
  not an enumerator.
\<close>

definition db_op_of_code :: "i32 \<Rightarrow> db_op option" where
  "db_op_of_code c = find (\<lambda>op. db_op_code op = c) all_ops"

lemma db_op_of_op_code [simp]: "db_op_of_code (db_op_code op) = Some op"
  by (cases op) (simp_all add: db_op_of_code_def all_ops_def)

record db_request =
  rq_reqid :: i32
  rq_op :: i32
  rq_db :: string
  rq_coll :: string
  rq_doc :: "u8 list"
  rq_doc2 :: "u8 list"
  rq_sval :: string

definition DbRequest :: db_request where
  "DbRequest = \<lparr>rq_reqid = -1, rq_op = db_op_code GET_DOCUMENT, rq_db = [], rq_coll = [], rq_doc = [], rq_doc2 = [],
     rq_sval = []\<rparr>"

record db_response =
  rs_reqid :: i32
  rs_ok :: bool
  rs_sval :: string
  rs_ival :: i32
  rs_bval :: bool
  rs_data :: "u8 list"
  rs_errmsg :: string

definition DbResponse :: db_response where
  "DbResponse = \<lparr>rs_reqid = -1, rs_ok = False, rs_sval = [], rs_ival = 0, rs_bval = False, rs_data = [],
     rs_errmsg = []\<rparr>"

section \<open>Building and parsing\<close>

text \<open>An element that is appended only when its value is not the default.\<close>

definition kvp_if :: "bool \<Rightarrow> string \<Rightarrow> bson_value \<Rightarrow> bson_doc" where
  "kvp_if b k v = (if b then [(k, v)] else [])"

definition request_doc :: "db_request \<Rightarrow> bson_doc" where
  "request_doc r =
     [(''reqid'', BInt32 (rq_reqid r)), (''op'', BInt32 (rq_op r))] @
     kvp_if (rq_db r \<noteq> []) ''db'' (BUtf8 (rq_db r)) @
     kvp_if (rq_coll r \<noteq> []) ''coll'' (BUtf8 (rq_coll r)) @
     kvp_if (rq_doc r \<noteq> []) ''doc'' (BBinary (rq_doc r)) @
     kvp_if (rq_doc2 r \<noteq> []) ''doc2'' (BBinary (rq_doc2 r)) @
     kvp_if (rq_sval r \<noteq> []) ''sval'' (BUtf8 (rq_sval r))"

text \<open>
  \<^verbatim>\<open>build_request\<close> takes the request id from the process-wide counter \<^verbatim>\<open>s_reqid\<close>, which it advances (wrapping
  at 32 bits); the id in the arguments is not looked at.
\<close>

definition build_request :: "bson_lib \<Rightarrow> i32 \<Rightarrow> db_request \<Rightarrow> (i32 \<times> u8 list) \<times> i32" where
  "build_request lib s_reqid args =
     (let reqid = s_reqid
      in ((reqid, bs_encode lib (request_doc (args\<lparr>rq_reqid := reqid\<rparr>))), s_reqid + 1))"

text \<open>
  One \<^verbatim>\<open>if (auto e = v[key]) out.field = e.get_..()\<close>: an absent element leaves the field, an element of
  another type throws, and the \<^verbatim>\<open>catch\<close> returns false with the fields read so far in place.
\<close>

definition with_field ::
    "(bson_value \<Rightarrow> 'v option) \<Rightarrow> bson_value option \<Rightarrow> ('v \<Rightarrow> 'r \<Rightarrow> 'r) \<Rightarrow> ('r \<Rightarrow> bool \<times> 'r) \<Rightarrow> 'r \<Rightarrow> bool \<times> 'r" where
  "with_field get e assign k out =
     (case e of
        None \<Rightarrow> k out
      | Some v \<Rightarrow> (case get v of None \<Rightarrow> (False, out) | Some x \<Rightarrow> k (assign x out)))"

definition parse_request :: "bson_lib \<Rightarrow> u8 list \<Rightarrow> db_request \<Rightarrow> bool \<times> db_request" where
  "parse_request lib bytes out =
     (if bytes = [] then (False, out)
      else let v = bs_find lib bytes
           in with_field get_int32 (v ''reqid'') (\<lambda>x r. r\<lparr>rq_reqid := x\<rparr>)
              (with_field get_int32 (v ''op'') (\<lambda>x r. r\<lparr>rq_op := x\<rparr>)
              (with_field get_utf8 (v ''db'') (\<lambda>x r. r\<lparr>rq_db := x\<rparr>)
              (with_field get_utf8 (v ''coll'') (\<lambda>x r. r\<lparr>rq_coll := x\<rparr>)
              (with_field get_utf8 (v ''sval'') (\<lambda>x r. r\<lparr>rq_sval := x\<rparr>)
              (with_field get_binary (v ''doc'') (\<lambda>x r. r\<lparr>rq_doc := x\<rparr>)
              (with_field get_binary (v ''doc2'') (\<lambda>x r. r\<lparr>rq_doc2 := x\<rparr>)
              (\<lambda>r. (True, r)))))))) out)"

definition response_doc :: "db_response \<Rightarrow> bson_doc" where
  "response_doc r =
     [(''reqid'', BInt32 (rs_reqid r)), (''ok'', BBool (rs_ok r))] @
     kvp_if (rs_sval r \<noteq> []) ''sval'' (BUtf8 (rs_sval r)) @
     kvp_if (rs_ival r \<noteq> 0) ''ival'' (BInt32 (rs_ival r)) @
     kvp_if (rs_bval r) ''bval'' (BBool (rs_bval r)) @
     kvp_if (rs_data r \<noteq> []) ''data'' (BBinary (rs_data r)) @
     kvp_if (rs_errmsg r \<noteq> []) ''errmsg'' (BUtf8 (rs_errmsg r))"

definition build_response :: "bson_lib \<Rightarrow> db_response \<Rightarrow> u8 list" where
  "build_response lib r = bs_encode lib (response_doc r)"

definition parse_response :: "bson_lib \<Rightarrow> u8 list \<Rightarrow> db_response \<Rightarrow> bool \<times> db_response" where
  "parse_response lib bytes out =
     (if bytes = [] then (False, out)
      else let v = bs_find lib bytes
           in with_field get_int32 (v ''reqid'') (\<lambda>x r. r\<lparr>rs_reqid := x\<rparr>)
              (with_field get_bool (v ''ok'') (\<lambda>x r. r\<lparr>rs_ok := x\<rparr>)
              (with_field get_utf8 (v ''sval'') (\<lambda>x r. r\<lparr>rs_sval := x\<rparr>)
              (with_field get_int32 (v ''ival'') (\<lambda>x r. r\<lparr>rs_ival := x\<rparr>)
              (with_field get_bool (v ''bval'') (\<lambda>x r. r\<lparr>rs_bval := x\<rparr>)
              (with_field get_utf8 (v ''errmsg'') (\<lambda>x r. r\<lparr>rs_errmsg := x\<rparr>)
              (with_field get_binary (v ''data'') (\<lambda>x r. r\<lparr>rs_data := x\<rparr>)
              (\<lambda>r. (True, r)))))))) out)"

definition make_error_response :: "bson_lib \<Rightarrow> i32 \<Rightarrow> string \<Rightarrow> u8 list" where
  "make_error_response lib reqid errmsg =
     build_response lib (DbResponse\<lparr>rs_reqid := reqid, rs_ok := False, rs_errmsg := errmsg\<rparr>)"

section \<open>Round trips\<close>

lemma with_field_simps [simp]:
  "with_field get None assign k out = k out"
  "with_field get (Some v) assign k out = (case get v of None \<Rightarrow> (False, out) | Some x \<Rightarrow> k (assign x out))"
  by (simp_all add: with_field_def)

lemma request_doc_find:
  "map_of (request_doc r) ''reqid'' = Some (BInt32 (rq_reqid r))"
  "map_of (request_doc r) ''op'' = Some (BInt32 (rq_op r))"
  "map_of (request_doc r) ''db'' = (if rq_db r \<noteq> [] then Some (BUtf8 (rq_db r)) else None)"
  "map_of (request_doc r) ''coll'' = (if rq_coll r \<noteq> [] then Some (BUtf8 (rq_coll r)) else None)"
  "map_of (request_doc r) ''doc'' = (if rq_doc r \<noteq> [] then Some (BBinary (rq_doc r)) else None)"
  "map_of (request_doc r) ''doc2'' = (if rq_doc2 r \<noteq> [] then Some (BBinary (rq_doc2 r)) else None)"
  "map_of (request_doc r) ''sval'' = (if rq_sval r \<noteq> [] then Some (BUtf8 (rq_sval r)) else None)"
  by (simp_all add: request_doc_def kvp_if_def)

lemma response_doc_find:
  "map_of (response_doc r) ''reqid'' = Some (BInt32 (rs_reqid r))"
  "map_of (response_doc r) ''ok'' = Some (BBool (rs_ok r))"
  "map_of (response_doc r) ''sval'' = (if rs_sval r \<noteq> [] then Some (BUtf8 (rs_sval r)) else None)"
  "map_of (response_doc r) ''ival'' = (if rs_ival r \<noteq> 0 then Some (BInt32 (rs_ival r)) else None)"
  "map_of (response_doc r) ''bval'' = (if rs_bval r then Some (BBool (rs_bval r)) else None)"
  "map_of (response_doc r) ''data'' = (if rs_data r \<noteq> [] then Some (BBinary (rs_data r)) else None)"
  "map_of (response_doc r) ''errmsg'' = (if rs_errmsg r \<noteq> [] then Some (BUtf8 (rs_errmsg r)) else None)"
  by (simp_all add: response_doc_def kvp_if_def)

text \<open>A field that is left out when it has its default reads back as that default.\<close>

lemma with_field_optional:
  assumes "b \<Longrightarrow> get (c x) = Some x" and "\<not> b \<Longrightarrow> assign x out = out"
  shows "with_field get (if b then Some (c x) else None) assign k out = k (assign x out)"
  using assms by simp

text \<open>Every request the cloud builds is read back whole by the agent, with the id it was given.\<close>

lemma parse_request_doc:
  assumes "bson_laws lib"
  shows "parse_request lib (bs_encode lib (request_doc r)) DbRequest = (True, r)"
  using assms unfolding parse_request_def
  by (simp add: request_doc_find DbRequest_def with_field_optional Let_def)

lemma parse_build_request:
  assumes "bson_laws lib" and "build_request lib n args = ((reqid, bytes), n')"
  shows "parse_request lib bytes DbRequest = (True, args\<lparr>rq_reqid := n\<rparr>)" and "reqid = n" and "n' = n + 1"
  using assms by (auto simp: build_request_def parse_request_doc)

lemma parse_build_response:
  assumes "bson_laws lib"
  shows "parse_response lib (build_response lib r) DbResponse = (True, r)"
  using assms unfolding parse_response_def
  by (simp add: response_doc_find build_response_def DbResponse_def with_field_optional Let_def)

lemma parse_error_response [simp]:
  "bson_laws lib \<Longrightarrow> parse_response lib (make_error_response lib n msg) DbResponse =
     (True, DbResponse\<lparr>rs_reqid := n, rs_ok := False, rs_errmsg := msg\<rparr>)"
  by (simp add: make_error_response_def parse_build_response)

end
