(* ===== verification/Ws_Socket.thy ===== *)
theory Ws_Socket
  imports Ws_Frame Cpp_String
begin

unbundle bit_operations_syntax

text \<open>
  Blocking reads of WebSocket frames and of the head of an upgrade, as the two ends of the database
  connection do them (\<^verbatim>\<open>ws_recv_frame\<close>, \<^verbatim>\<open>ws_upgrade_server\<close> of \<^verbatim>\<open>wsdbproxy.cpp\<close> and their counterparts in
  \<^verbatim>\<open>wsdbagent.cpp\<close>), and the adapter of \<^verbatim>\<open>wstransport.hpp\<close> that puts inner TLS on top.

  A socket is the list of bytes that still arrive before it fails.  \<^verbatim>\<open>recv_n\<close> delivers as many bytes as
  asked for or fails.  A buffer grows at the program's width: \<^verbatim>\<open>cap\<close> is the size beyond which
  \<^verbatim>\<open>resize\<close> throws, and a size that wrapped around would let \<^verbatim>\<open>recv_n\<close> write past the end of the
  buffer, the outcome \<^verbatim>\<open>ReadWild\<close>.
\<close>

datatype read_result = ReadOk "u8 list" "u8 list" | ReadShort | ReadThrow | ReadWild

definition read_n :: "nat \<Rightarrow> u64 \<Rightarrow> u8 list \<Rightarrow> u8 list \<Rightarrow> read_result" where
  "read_n cap n buf inp =
     (let size = unat (of_nat (length buf) + n)
      in if size < length buf then ReadWild
         else if cap < size then ReadThrow
         else if length inp < unat n then ReadShort
         else ReadOk (buf @ take (unat n) inp) (drop (unat n) inp))"

datatype recv_result = RecvFrame ws_frame "u8 list" | RecvFail | RecvThrow | RecvWild

definition and_read :: "read_result \<Rightarrow> (u8 list \<Rightarrow> u8 list \<Rightarrow> recv_result) \<Rightarrow> recv_result" where
  "and_read r k =
     (case r of
        ReadOk buf inp \<Rightarrow> k buf inp | ReadShort \<Rightarrow> RecvFail | ReadThrow \<Rightarrow> RecvThrow | ReadWild \<Rightarrow> RecvWild)"

definition ws_recv_frame :: "nat \<Rightarrow> u8 list \<Rightarrow> recv_result" where
  "ws_recv_frame cap inp =
     and_read (read_n cap 2 [] inp) (\<lambda>buf inp.
       let masked = (buf ! 1 AND 0x80 \<noteq> 0);
           plen = ucast (buf ! 1 AND 0x7F) :: u64
       in and_read (if plen = 126 then read_n cap 2 buf inp
                    else if plen = 127 then read_n cap 8 buf inp
                    else ReadOk buf inp) (\<lambda>buf inp.
          and_read (if masked then read_n cap 4 buf inp else ReadOk buf inp) (\<lambda>buf inp.
            case ws_decode buf of
              WsSome f rest \<Rightarrow> RecvFrame f inp
            | WsBadRange \<Rightarrow> RecvThrow
            | WsNone \<Rightarrow>
                let need = (if plen = 126 then push_bit 8 (ucast (buf ! 2)) OR ucast (buf ! 3)
                            else if plen = 127 then read_be (take 8 (drop 2 buf))
                            else plen)
                in and_read (read_n cap need buf inp) (\<lambda>buf inp.
                     case ws_decode buf of
                       WsSome f rest \<Rightarrow> RecvFrame f inp
                     | WsNone \<Rightarrow> RecvFail
                     | WsBadRange \<Rightarrow> RecvThrow))))"

text \<open>
  The head of an upgrade, read byte by byte until a blank line or the limit; \<^term>\<open>None\<close> when the
  connection is lost before.
\<close>

function read_head :: "nat \<Rightarrow> string \<Rightarrow> string \<Rightarrow> (string \<times> string) option" where
  "read_head limit headers inp =
     (if length headers < limit then
        (case inp of
           [] \<Rightarrow> None
         | c # cs \<Rightarrow>
             let headers' = headers @ [c]
             in if 4 \<le> length headers' \<and> drop (length headers' - 4) headers' = crlf @ crlf
                then Some (headers', cs)
                else read_head limit headers' cs)
      else Some (headers, inp))"
  by pat_completeness auto
termination by (relation "measure (\<lambda>(limit, headers, inp). length inp)") auto

declare read_head.simps [simp del]

section \<open>The transport under inner TLS\<close>

text \<open>
  \<^verbatim>\<open>WebSocketTransport\<close>: \<^verbatim>\<open>send\<close> wraps the data in a binary frame; \<^verbatim>\<open>recv\<close> takes one frame.  The result of
  \<^verbatim>\<open>recv\<close> is its return value with the data (empty for everything but a binary frame), together with the
  frame it may send; \<^term>\<open>None\<close> when an exception passes through.
\<close>

record transport_recv =
  tr_ok :: bool
  tr_data :: "u8 list"
  tr_reply :: "(u8 list \<times> u8) option"

definition transport_send_frame :: "u8 list \<Rightarrow> u8 list \<times> u8" where
  "transport_send_frame payload = (payload, 0x02)"

definition transport_recv_frame :: "recv_result \<Rightarrow> u8 list \<Rightarrow> transport_recv option" where
  "transport_recv_frame r old =
     (case r of
        RecvFrame f rest \<Rightarrow>
          Some (if ws_opcode f = 0x02 then \<lparr>tr_ok = True, tr_data = ws_payload f, tr_reply = None\<rparr>
                else if ws_opcode f = 0x09 then \<lparr>tr_ok = True, tr_data = [], tr_reply = Some (ws_payload f, 0x0A)\<rparr>
                else if ws_opcode f = 0x0A then \<lparr>tr_ok = True, tr_data = [], tr_reply = None\<rparr>
                else if ws_opcode f = 0x08 then \<lparr>tr_ok = False, tr_data = old, tr_reply = None\<rparr>
                else \<lparr>tr_ok = True, tr_data = [], tr_reply = None\<rparr>)
      | RecvFail \<Rightarrow> Some \<lparr>tr_ok = False, tr_data = old, tr_reply = None\<rparr>
      | RecvThrow \<Rightarrow> None
      | RecvWild \<Rightarrow> None)"

section \<open>Reading in steps is decoding\<close>

lemma and_read_simps [simp]:
  "and_read (ReadOk buf inp) k = k buf inp" "and_read ReadShort k = RecvFail"
  "and_read ReadThrow k = RecvThrow" "and_read ReadWild k = RecvWild"
  by (simp_all add: and_read_def)

text \<open>A step of the header: the buffer holds the first \<open>a\<close> bytes.\<close>

lemma read_n_small:
  assumes "a \<le> length inp" and "a \<le> 14" and "unat n \<le> 8" and "32 \<le> cap"
  shows "read_n cap n (take a inp) (drop a inp) =
    (if length inp < a + unat n then ReadShort else ReadOk (take (a + unat n) inp) (drop (a + unat n) inp))"
proof -
  have "unat (of_nat (length (take a inp)) + n) = a + unat n"
    using assms by (subst unat_plus_if') (simp add: unat_of_nat)
  with assms show ?thesis by (auto simp: read_n_def Let_def take_add add.commute)
qed

definition header_size :: "u8 list \<Rightarrow> nat" where
  "header_size inp =
     (let plen = ucast (inp ! 1 AND 0x7F) :: u64
      in (if plen = 126 then 4 else if plen = 127 then 10 else 2) + (if inp ! 1 AND 0x80 \<noteq> 0 then 4 else 0))"

text \<open>What follows once the whole header is in the buffer.\<close>

definition recv_payload :: "nat \<Rightarrow> u64 \<Rightarrow> u8 list \<Rightarrow> u8 list \<Rightarrow> recv_result" where
  "recv_payload cap need buf inp =
     (case ws_decode buf of
        WsSome f rest \<Rightarrow> RecvFrame f inp
      | WsBadRange \<Rightarrow> RecvThrow
      | WsNone \<Rightarrow>
          and_read (read_n cap need buf inp) (\<lambda>buf inp.
            case ws_decode buf of
              WsSome f rest \<Rightarrow> RecvFrame f inp
            | WsNone \<Rightarrow> RecvFail
            | WsBadRange \<Rightarrow> RecvThrow))"

lemma ws_length_header:
  assumes "2 \<le> length inp" and "header_size inp \<le> length inp"
  obtains h n where "ws_length inp = Some (h, n)"
    and "ws_length (take (header_size inp) inp) = Some (h, n)"
    and "header_size inp = h + (if inp ! 1 AND 0x80 \<noteq> 0 then 4 else 0)" and "2 \<le> h" and "h \<le> 10"
  using assms that by (auto simp: ws_length_def header_size_def Let_def take_drop split: if_splits)

lemma ws_recv_header:
  assumes "2 \<le> length inp" and "32 \<le> cap"
  shows "ws_recv_frame cap inp =
    (if length inp < header_size inp then RecvFail
     else recv_payload cap (snd (the (ws_length inp))) (take (header_size inp) inp) (drop (header_size inp) inp))"
proof -
  let ?plen = "ucast (inp ! 1 AND 0x7F) :: u64" and ?m = "inp ! 1 AND 0x80 \<noteq> 0"
  note step = read_n_small[OF _ _ _ assms(2), of _ inp]
  have two: "read_n cap 2 [] inp = ReadOk (take 2 inp) (drop 2 inp)"
    using assms by (simp add: read_n_def Let_def)
  have n1: "take 2 inp ! 1 = inp ! 1" using assms by simp
  define h where "h = (if ?plen = 126 then 4 else if ?plen = 127 then 10 else 2 :: nat)"
  have hs: "header_size inp = h + (if ?m then 4 else 0)" by (simp add: header_size_def h_def Let_def)
  have ext: "(if ?plen = 126 then read_n cap 2 (take 2 inp) (drop 2 inp)
      else if ?plen = 127 then read_n cap 8 (take 2 inp) (drop 2 inp) else ReadOk (take 2 inp) (drop 2 inp)) =
      (if length inp < h then ReadShort else ReadOk (take h inp) (drop h inp))"
    using step[of 2 2] step[of 2 8] assms(1) by (simp add: h_def)
  have h: "2 \<le> h" "h \<le> 10" by (simp_all add: h_def)
  have mask: "(if ?m then read_n cap 4 (take h inp) (drop h inp) else ReadOk (take h inp) (drop h inp)) =
      (if length inp < header_size inp then ReadShort else ReadOk (take (header_size inp) inp) (drop (header_size inp) inp))"
    if "h \<le> length inp" using step[of h 4] that h by (simp add: hs)
  have need: "(if ?plen = 126 then push_bit 8 (ucast (take k inp ! 2)) OR ucast (take k inp ! 3)
      else if ?plen = 127 then read_be (take 8 (drop 2 (take k inp))) else ?plen) = snd (the (ws_length inp))"
    if "h \<le> k" "k \<le> length inp" for k
    using that by (simp add: h_def ws_length_def Let_def take_drop split: if_splits)
  note unf = ws_recv_frame_def two and_read_simps n1 Let_def ext recv_payload_def if_True if_False
  consider "length inp < h" | "\<not> length inp < h" "length inp < header_size inp" | "\<not> length inp < h" "\<not> length inp < header_size inp"
    by blast
  then show ?thesis
  proof cases
    case 1
    then have "length inp < header_size inp" by (simp add: hs)
    with 1 show ?thesis by (simp only: unf)
  next
    case 2
    then have "h \<le> length inp" by simp
    with 2 show ?thesis by (simp only: unf mask)
  next
    case 3
    then have "h \<le> header_size inp" "header_size inp \<le> length inp" "h \<le> length inp" by (simp_all add: hs)
    with 3 show ?thesis by (simp only: unf mask need)
  qed
qed

lemma no_wrap_above:
  assumes "s \<le> unat (of_nat s + n :: u64)" and "s \<le> 14"
  shows "unat (of_nat s + n :: u64) = s + unat n"
  using assms unat_plus_if'[of "of_nat s" n] unsigned_less[of n, where 'a = nat]
  by (auto simp: unat_of_nat split: if_splits)

text \<open>Once the header is complete, the wrapped size and the wrapped total of the frame are the same number.\<close>

lemma recv_payload_decode:
  assumes b2: "2 \<le> length inp" and hs: "header_size inp \<le> length inp" and cap: "32 \<le> cap"
  shows "recv_payload cap (snd (the (ws_length inp))) (take (header_size inp) inp) (drop (header_size inp) inp) =
    (case ws_decode inp of
       WsSome f rest \<Rightarrow> if cap < length inp - length rest then RecvThrow else RecvFrame f rest
     | WsBadRange \<Rightarrow> RecvThrow
     | WsNone \<Rightarrow> if cap < unat (of_nat (header_size inp) + snd (the (ws_length inp))) then RecvThrow else RecvFail)"
proof -
  obtain h n where hn: "ws_length inp = Some (h, n)" "ws_length (take (header_size inp) inp) = Some (h, n)"
    and sz: "header_size inp = h + (if inp ! 1 AND 0x80 \<noteq> 0 then 4 else 0)" and h: "2 \<le> h" "h \<le> 10"
    using ws_length_header[OF b2 hs] by blast
  let ?s = "header_size inp"
  define t where "t = unat (of_nat ?s + n :: u64)"
  have t: "unat (of_nat h + of_nat (if inp ! 1 AND 0x80 \<noteq> 0 then 4 else 0) + n :: u64) = t"
    by (simp add: t_def sz)
  have no_wrap: "t = ?s + unat n" if "?s \<le> t"
    using that h sz no_wrap_above[of ?s n] by (simp add: t_def split: if_splits)
  have heads: "take k inp ! 0 = inp ! 0" "take k inp ! 1 = inp ! 1" if "?s \<le> k" for k
    using that h sz by simp_all
  have len: "ws_length (take k inp) = Some (h, n)" if "?s \<le> k" "k \<le> length inp" for k
  proof -
    have "take k inp = take ?s inp @ drop ?s (take k inp)"
      using that by (metis append_take_drop_id min.absorb1 take_take)
    with ws_length_append(1)[OF hn(2)] h sz hs show ?thesis by (metis le_add1 le_trans length_take min.absorb2)
  qed
  have raw: "ws_decode (take k inp) = (if k < t then WsNone else if t < ?s then WsBadRange else
      WsSome \<lparr>ws_opcode = inp ! 0 AND 0x0F, ws_payload =
        (let payload = take (t - ?s) (drop ?s (take k inp))
         in if inp ! 1 AND 0x80 \<noteq> 0 then xor_key (take 4 (drop h (take k inp))) payload else payload)\<rparr>
        (drop t (take k inp)))" if k: "?s \<le> k" "k \<le> length inp" for k
  proof -
    have two: "(k < 2) = False" using k h sz by simp
    have lk: "length (take k inp) = k" using k by simp
    show ?thesis
      unfolding ws_decode_def len[OF k] option.case prod.case Let_def heads[OF k(1)] t lk two if_False
      by (simp only: sz)
  qed
  have dec: "\<exists>f. ws_decode (take t inp) = WsSome f [] \<and> ws_decode (take k inp) = WsSome f (drop t (take k inp))"
    if k: "?s \<le> t" "t \<le> k" "k \<le> length inp" for k
  proof -
    obtain f where f: "ws_decode (take t inp) = WsSome f []" using k raw[of t] by simp
    have "take k inp = take t inp @ drop t (take k inp)"
      using k by (metis append_take_drop_id min.absorb2 min.commute take_take)
    with ws_decode_append[OF f, of "drop t (take k inp)"] f show ?thesis by auto
  qed
  have whole: "take (length inp) inp = inp" by simp
  have read: "read_n cap n (take ?s inp) (drop ?s inp) =
      (if cap < t then ReadThrow else if length inp < t then ReadShort else ReadOk (take t inp) (drop t inp))"
    if st: "?s \<le> t"
  proof -
    have "length (take ?s inp) = ?s" using hs by simp
    moreover have "take t inp = take ?s inp @ take (unat n) (drop ?s inp)"
      by (simp only: no_wrap[OF st] take_add)
    moreover have "drop (unat n) (drop ?s inp) = drop t inp"
      by (simp only: no_wrap[OF st] drop_drop add.commute)
    moreover have "length inp < t \<longleftrightarrow> length (drop ?s inp) < unat n" using no_wrap[OF st] hs by auto
    ultimately show ?thesis using st by (simp add: read_n_def Let_def t_def[symmetric])
  qed
  have s14: "?s \<le> cap" using sz h cap by (simp split: if_splits)
  consider "t < ?s" | "t = ?s" | "?s < t" "length inp < t" | "?s < t" "t \<le> length inp" by linarith
  then show ?thesis
  proof cases
    case 1
    then show ?thesis using raw[of ?s] raw[of "length inp"] hs by (simp add: recv_payload_def)
  next
    case 2
    then show ?thesis using dec[of ?s] dec[of "length inp"] hs s14 by (auto simp: recv_payload_def)
  next
    case 3
    then show ?thesis using raw[of ?s] raw[of "length inp"] hs read
      by (simp add: recv_payload_def hn t_def[symmetric])
  next
    case 4
    then show ?thesis using raw[of ?s] dec[of t] dec[of "length inp"] hs read
      by (auto simp: recv_payload_def hn)
  qed
qed

lemma ws_recv_frame_eq:
  assumes "32 \<le> cap"
  shows "ws_recv_frame cap inp =
    (if length inp < 2 \<or> length inp < header_size inp then RecvFail
     else case ws_decode inp of
            WsSome f rest \<Rightarrow> if cap < length inp - length rest then RecvThrow else RecvFrame f rest
          | WsBadRange \<Rightarrow> RecvThrow
          | WsNone \<Rightarrow> if cap < unat (of_nat (header_size inp) + snd (the (ws_length inp))) then RecvThrow else RecvFail)"
proof (cases "length inp < 2")
  case True
  with assms show ?thesis by (simp add: ws_recv_frame_def read_n_def Let_def)
next
  case False
  then show ?thesis using ws_recv_header[OF _ assms, of inp] recv_payload_decode[OF _ _ assms, of inp] by simp
qed

lemma ws_recv_frame_Frame:
  assumes "32 \<le> cap" and "ws_recv_frame cap inp = RecvFrame f rest"
  shows "ws_decode inp = WsSome f rest"
  using assms by (auto simp: ws_recv_frame_eq split: if_splits ws_result.splits)

lemma ws_recv_frame_encoded:
  assumes "32 \<le> cap" and "length p + 14 \<le> cap" and "length p < 2 ^ 64 - 14"
  shows "ws_recv_frame cap (ws_encode p opc m key rnd @ r) = RecvFrame \<lparr>ws_opcode = opc AND 0x0F, ws_payload = p\<rparr> r"
proof -
  let ?inp = "ws_encode p opc m key rnd @ r"
  have d: "ws_decode ?inp = WsSome \<lparr>ws_opcode = opc AND 0x0F, ws_payload = p\<rparr> r" using ws_decode_encode[OF assms(3)] .
  then obtain h n where l: "ws_length ?inp = Some (h, n)" "2 \<le> length ?inp" "2 \<le> h"
    and e: "h + (if ?inp ! 1 AND 0x80 \<noteq> 0 then 4 else 0) + length p + length r = length ?inp"
    using ws_decode_SomeE[OF d] by (metis ws_frame.select_convs(2))
  have "header_size ?inp = h + (if ?inp ! 1 AND 0x80 \<noteq> 0 then 4 else 0)" "h \<le> 10"
    using l(1) by (auto simp: header_size_def ws_length_def Let_def split: if_splits)
  with e l(2) d assms show ?thesis by (simp add: ws_recv_frame_eq split: if_splits)
qed

text \<open>What one side sends through the transport the other side receives as one piece.\<close>

lemma transport_round_trip:
  assumes "32 \<le> cap" and "length p + 14 \<le> cap" and "length p < 2 ^ 64 - 14"
    and "transport_send_frame p = (payload, opc)"
  shows "transport_recv_frame (ws_recv_frame cap (ws_encode payload opc m key rnd @ r)) old =
    Some \<lparr>tr_ok = True, tr_data = p, tr_reply = None\<rparr>"
  using assms by (auto simp: transport_send_frame_def transport_recv_frame_def ws_recv_frame_encoded)

end
