(* ===== verification/Db_Agent.thy ===== *)
theory Db_Agent
  imports Db_Proto Db_Client Ws_Socket
begin

text \<open>
  The agent beside the database (\<^verbatim>\<open>modules/module/wsdbagent/src/wsdbagent.cpp\<close>): it dials the cloud, upgrades
  the connection to a WebSocket, and answers one request after the other from the local database.

  The database and the JSON library are those of \<^verbatim>\<open>service_env\<close>; the text of an exception
  (\<^verbatim>\<open>e.what()\<close>) and inner TLS are parameters: an event of a session says what \<^verbatim>\<open>poll\<close>, \<^verbatim>\<open>recv\<close> and \<^verbatim>\<open>send\<close>
  came back with.  The database name given to \<^verbatim>\<open>create_document\<close> is the agent's own throughout and is not
  part of \<^verbatim>\<open>db_call\<close>.
\<close>

section \<open>Texts\<close>

definition bson_to_json :: "bson_lib \<Rightarrow> u8 list \<Rightarrow> string" where
  "bson_to_json lib bson =
     (if bson = [] then ''{}''
      else case bs_to_json lib bson of Some t \<Rightarrow> t | None \<Rightarrow> ''{}'')"

text \<open>\<^verbatim>\<open>get<std::vector<std::string>>()\<close> throws unless the value is an array of strings.\<close>

fun j_strings :: "json list \<Rightarrow> string list option" where
  "j_strings [] = Some []"
| "j_strings (JString t # js) = map_option ((#) t) (j_strings js)"
| "j_strings (_ # js) = None"

fun j_string_vector :: "json \<Rightarrow> string list option" where
  "j_string_vector (JArray js) = j_strings js"
| "j_string_vector _ = None"

definition json_string_vector :: "service_env \<Rightarrow> u8 list \<Rightarrow> ('s, string list) effect" where
  "json_string_vector env bytes =
     eff_bind (json_parse env (bytes_to_string bytes)) (\<lambda>j. eff_option JsonTypeError (j_string_vector j))"

section \<open>One request\<close>

text \<open>
  The \<^verbatim>\<open>switch\<close> of \<^verbatim>\<open>WsDbAgent::dispatch\<close>; a file comes as \<^verbatim>\<open>filename|content_type\<close>.  An answer of the database is an \<^verbatim>\<open>int32_t\<close>; \<^verbatim>\<open>ok\<close> of a count is
  \<^verbatim>\<open>ival >= 0\<close>.
\<close>

definition split_sval :: "string \<Rightarrow> string \<times> string" where
  "split_sval sval =
     (case str_find sval ''|'' of
        Some sep \<Rightarrow> (take sep sval, drop (sep + 1) sval)
      | None \<Rightarrow> (sval, []))"

fun agent_op :: "service_env \<Rightarrow> bson_lib \<Rightarrow> db_request \<Rightarrow> db_response \<Rightarrow> db_op \<Rightarrow> ('a, db_response) db_effect" where
  "agent_op env lib req rsp CREATE_DOCUMENT =
     eff_bind (db_text env (CreateDocument (rq_coll req) (bson_to_json lib (rq_doc req)))) (\<lambda>v.
       eff_return (rsp\<lparr>rs_sval := v, rs_ok := v \<noteq> []\<rparr>))"
| "agent_op env lib req rsp CREATE_BULK_DOCUMENT =
     eff_bind (db_int env (CreateBulkDocument (rq_coll req) (bytes_to_string (rq_doc req)))) (\<lambda>v.
       let n = word_of_int v in eff_return (rsp\<lparr>rs_ival := n, rs_ok := 0 \<le> sint n\<rparr>))"
| "agent_op env lib req rsp UPDATE_COLLECTION =
     eff_bind (db_bool env
         (UpdateCollection (rq_coll req) (bson_to_json lib (rq_doc req)) (bson_to_json lib (rq_doc2 req)))) (\<lambda>v.
       eff_return (rsp\<lparr>rs_bval := v, rs_ok := True\<rparr>))"
| "agent_op env lib req rsp UPDATE_BULK_DOCUMENT =
     eff_bind (json_string_vector env (rq_doc req)) (\<lambda>fa.
     eff_bind (json_string_vector env (rq_doc2 req)) (\<lambda>va.
     eff_bind (db_int env (UpdateBulkDocument (rq_coll req) fa va)) (\<lambda>v.
       let n = word_of_int v in eff_return (rsp\<lparr>rs_ival := n, rs_ok := 0 \<le> sint n\<rparr>))))"
| "agent_op env lib req rsp DELETE_DOCUMENT =
     eff_bind (db_bool env (DeleteDocument (rq_coll req) (bson_to_json lib (rq_doc req)))) (\<lambda>v.
       eff_return (rsp\<lparr>rs_bval := v, rs_ok := True\<rparr>))"
| "agent_op env lib req rsp GET_DOCUMENT =
     eff_bind (db_text env
         (GetDocument (rq_coll req) (bson_to_json lib (rq_doc req)) (bson_to_json lib (rq_doc2 req)))) (\<lambda>v.
       eff_return (rsp\<lparr>rs_sval := v, rs_ok := v \<noteq> []\<rparr>))"
| "agent_op env lib req rsp GET_DOCUMENTS_QUERIED =
     eff_bind (db_text env
         (GetDocuments (rq_coll req) (bson_to_json lib (rq_doc req)) (bson_to_json lib (rq_doc2 req)))) (\<lambda>v.
       eff_return (rsp\<lparr>rs_sval := v, rs_ok := True\<rparr>))"
| "agent_op env lib req rsp GET_DOCUMENTS_ALL =
     eff_bind (db_text env (GetAllDocuments (rq_coll req) (bson_to_json lib (rq_doc2 req)))) (\<lambda>v.
       eff_return (rsp\<lparr>rs_sval := v, rs_ok := True\<rparr>))"
| "agent_op env lib req rsp NEXT_AWBNO =
     eff_bind (db_text env (NextAwbno (rq_sval req))) (\<lambda>v.
       eff_return (rsp\<lparr>rs_sval := v, rs_ok := v \<noteq> []\<rparr>))"
| "agent_op env lib req rsp STORE_FILE =
     (let (filename, content_type) = split_sval (rq_sval req)
      in eff_bind (db_text env (StoreFile filename content_type (bytes_to_string (rq_doc req)))) (\<lambda>v.
           eff_return (rsp\<lparr>rs_sval := v, rs_ok := v \<noteq> []\<rparr>)))"
| "agent_op env lib req rsp FETCH_FILE =
     eff_bind (db_text env (FetchFile (rq_sval req))) (\<lambda>v.
       eff_return (rsp\<lparr>rs_data := string_to_bytes v, rs_ok := v \<noteq> []\<rparr>))"
| "agent_op env lib req rsp FETCH_FILE_BY_ID =
     eff_bind (db_text env (FetchFileById (rq_sval req))) (\<lambda>v.
       eff_return (rsp\<lparr>rs_data := string_to_bytes v, rs_ok := v \<noteq> []\<rparr>))"
| "agent_op env lib req rsp DELETE_FILE =
     eff_bind (db_bool env (DeleteFile (rq_sval req))) (\<lambda>v.
       eff_return (rsp\<lparr>rs_bval := v, rs_ok := True\<rparr>))"

definition agent_dispatch ::
    "service_env \<Rightarrow> bson_lib \<Rightarrow> (cpp_exn \<Rightarrow> string) \<Rightarrow> db_request \<Rightarrow> ('a, u8 list) db_effect" where
  "agent_dispatch env lib what req =
     (let rsp = DbResponse\<lparr>rs_reqid := rq_reqid req, rs_ok := False\<rparr>
      in eff_bind
           (eff_catch_with
              (case db_op_of_code (rq_op req) of
                 Some op \<Rightarrow> agent_op env lib req rsp op
               | None \<Rightarrow> eff_return (rsp\<lparr>rs_errmsg := ''unknown op''\<rparr>))
              (\<lambda>e. eff_return (rsp\<lparr>rs_ok := False, rs_errmsg := what e\<rparr>)))
           (\<lambda>rsp. eff_return (build_response lib rsp)))"

section \<open>A session\<close>

datatype agent_sent = AgPing | AgResponse "u8 list" | AgUpgrade string

record db_agent = db_state +
  ag_sent :: "agent_sent list"
  ag_open :: bool
  ag_inner_tls :: bool

datatype agent_event =
    StopRequested
  | PollTimeout bool
  | InnerRecvFails
  | InnerRecv "u8 list" bool

definition agent_disconnect :: "'a db_agent_scheme \<Rightarrow> 'a db_agent_scheme" where
  "agent_disconnect s = s\<lparr>ag_inner_tls := False, ag_open := False\<rparr>"

definition agent_send :: "agent_sent \<Rightarrow> bool \<Rightarrow> 'a db_agent_scheme \<Rightarrow> 'a db_agent_scheme" where
  "agent_send m ok s = (if ok then s\<lparr>ag_sent := ag_sent s @ [m]\<rparr> else s)"

text \<open>
  \<^verbatim>\<open>run_session\<close>: an event is one pass of the loop; the result says whether the session is over.
\<close>

fun agent_session ::
    "service_env \<Rightarrow> bson_lib \<Rightarrow> (cpp_exn \<Rightarrow> string) \<Rightarrow> agent_event list \<Rightarrow> ('a db_agent_scheme, bool) effect" where
  "agent_session env lib what [] s = (Done False, s)"
| "agent_session env lib what (StopRequested # evs) s = (Done True, agent_disconnect s)"
| "agent_session env lib what (PollTimeout sent # evs) s =
     (let s = agent_send AgPing sent s
      in if sent then agent_session env lib what evs s else (Done True, agent_disconnect s))"
| "agent_session env lib what (InnerRecvFails # evs) s = (Done True, agent_disconnect s)"
| "agent_session env lib what (InnerRecv plaintext sent # evs) s =
     (if plaintext = [] then agent_session env lib what evs s
      else let (ok, req) = parse_request lib plaintext DbRequest
           in if \<not> ok then agent_session env lib what evs s
              else eff_bind (agent_dispatch env lib what req) (\<lambda>rsp_bson s.
                     let s = agent_send (AgResponse rsp_bson) sent s
                     in if sent then agent_session env lib what evs s else (Done True, agent_disconnect s)) s)"

section \<open>Dialling\<close>

definition db_upgrade_request :: "string \<Rightarrow> string \<Rightarrow> string" where
  "db_upgrade_request host key =
     ''GET /ws/db HTTP/1.1'' @ crlf @
     ''Host: '' @ host @ crlf @
     ''Upgrade: websocket'' @ crlf @
     ''Connection: Upgrade'' @ crlf @
     ''Sec-WebSocket-Key: '' @ key @ crlf @
     ''Sec-WebSocket-Version: 13'' @ crlf @
     crlf"

text \<open>
  What one attempt meets: whether the connect and the upgrade's \<^verbatim>\<open>send_n\<close> succeed, the nonce drawn, the bytes
  the peer answers with, whether inner TLS comes up and the host name verifies, the events of the
  session, and whether \<^verbatim>\<open>m_stop\<close> is set afterwards.
\<close>

record agent_attempt =
  at_tcp :: bool
  at_key :: string
  at_sent :: bool
  at_input :: string
  at_tls :: bool
  at_host :: bool
  at_events :: "agent_event list"
  at_stop :: bool

definition connect_and_handshake ::
    "(string \<Rightarrow> string) \<Rightarrow> string \<Rightarrow> agent_attempt \<Rightarrow> 'a db_agent_scheme \<Rightarrow> bool \<times> 'a db_agent_scheme" where
  "connect_and_handshake sha1_base64 host att s =
     (if \<not> at_tcp att then (False, s)
      else let s = agent_send (AgUpgrade (db_upgrade_request host (at_key att))) (at_sent att) s;
               up = s\<lparr>ag_open := True\<rparr>; down = s\<lparr>ag_open := False\<rparr>
           in if \<not> at_sent att then (False, down)
              else case read_head 4096 [] (at_input att) of
                     None \<Rightarrow> (False, down)
                   | Some (headers, rest) \<Rightarrow>
                       if \<not> str_contains headers ''101'' then (False, down)
                       else if \<not> str_contains headers (accept_key sha1_base64 (at_key att)) then (False, down)
                       else (True, up))"

text \<open>
  \<^verbatim>\<open>setup_inner_tls\<close>: a certificate that does not load and a failed handshake both leave no inner TLS.
\<close>

definition agent_setup_inner_tls :: "agent_attempt \<Rightarrow> 'a db_agent_scheme \<Rightarrow> bool \<times> 'a db_agent_scheme" where
  "agent_setup_inner_tls att s =
     (if at_tls att then (True, s\<lparr>ag_inner_tls := True\<rparr>) else (False, s\<lparr>ag_inner_tls := False\<rparr>))"

text \<open>
  One pass of the loop of \<^verbatim>\<open>run\<close>: whether a session ran.  A session whose events do not end it is still running.
\<close>

definition agent_try ::
    "service_env \<Rightarrow> bson_lib \<Rightarrow> (cpp_exn \<Rightarrow> string) \<Rightarrow> (string \<Rightarrow> string) \<Rightarrow> string \<Rightarrow> string \<Rightarrow> agent_attempt
      \<Rightarrow> ('a db_agent_scheme, bool) effect" where
  "agent_try env lib what sha1_base64 host tls_hostname att s =
     (case connect_and_handshake sha1_base64 host att s of
        (False, s) \<Rightarrow> (Done False, s)
      | (True, s) \<Rightarrow>
          (case agent_setup_inner_tls att s of
             (False, s) \<Rightarrow> (Done False, agent_disconnect s)
           | (True, s) \<Rightarrow>
               if tls_hostname \<noteq> [] \<and> \<not> at_host att then (Done False, agent_disconnect s)
               else eff_bind (agent_session env lib what (at_events att)) (\<lambda>over.
                      if over then eff_return True else eff_result Hangs) s))"

text \<open>
  \<^verbatim>\<open>run\<close>: the seconds slept between the attempts.  The list of attempts ends where \<^verbatim>\<open>m_stop\<close> is seen at the
  top of the loop.
\<close>

definition base_backoff :: "int \<Rightarrow> int" where
  "base_backoff backoff_secs = (if 0 < backoff_secs then backoff_secs else 5)"

fun agent_run_loop ::
    "(agent_attempt \<Rightarrow> ('s, bool) effect) \<Rightarrow> int \<Rightarrow> int \<Rightarrow> agent_attempt list \<Rightarrow> ('s, int list) effect" where
  "agent_run_loop attempt base cur [] = eff_return []"
| "agent_run_loop attempt base cur (att # atts) =
     eff_bind (attempt att) (\<lambda>session_ran.
       if at_stop att then eff_return []
       else let slept = (if session_ran then base else cur);
                cur' = (if session_ran then slept else min (slept * 2) 60)
            in eff_bind (agent_run_loop attempt base cur' atts) (\<lambda>rest. eff_return (slept # rest)))"

definition agent_run ::
    "service_env \<Rightarrow> bson_lib \<Rightarrow> (cpp_exn \<Rightarrow> string) \<Rightarrow> (string \<Rightarrow> string) \<Rightarrow> string \<Rightarrow> string \<Rightarrow> int \<Rightarrow> agent_attempt list
      \<Rightarrow> ('a db_agent_scheme, int list) effect" where
  "agent_run env lib what sha1_base64 host tls_hostname backoff_secs atts =
     (let base = base_backoff backoff_secs
      in agent_run_loop (agent_try env lib what sha1_base64 host tls_hostname) base base atts)"

section \<open>What a request does\<close>

text \<open>
  The answer to a request, from the answer of the database: the agent always replies, under the id of the
  request, and an exception becomes its text.
\<close>

definition agent_reply ::
    "(cpp_exn \<Rightarrow> string) \<Rightarrow> i32 \<Rightarrow> cpp_exn + 'v \<Rightarrow> ('v \<Rightarrow> db_response \<Rightarrow> db_response) \<Rightarrow> db_response" where
  "agent_reply what n r f =
     (case r of
        Inl e \<Rightarrow> DbResponse\<lparr>rs_reqid := n, rs_ok := False, rs_errmsg := what e\<rparr>
      | Inr v \<Rightarrow> f v (DbResponse\<lparr>rs_reqid := n, rs_ok := False\<rparr>))"

lemma agent_dispatch_text:
  fixes s :: "'a db_state_scheme"
  assumes "db_op_of_code (rq_op req) = Some op"
    and "\<And>rsp. (agent_op env lib req rsp op :: ('a, db_response) db_effect) =
      eff_bind (db_text env call) (\<lambda>v. eff_return (f v rsp))"
  shows "agent_dispatch env lib what req s =
    (Done (build_response lib (agent_reply what (rq_reqid req) (sv_text env (db_log s) call) f)),
     s\<lparr>db_log := db_log s @ [call]\<rparr>)"
  using assms
  by (auto simp: agent_dispatch_def agent_reply_def Let_def eff_bind_def eff_catch_with_def eff_return_def db_text_def
      split: sum.splits)

lemma agent_dispatch_bool:
  fixes s :: "'a db_state_scheme"
  assumes "db_op_of_code (rq_op req) = Some op"
    and "\<And>rsp. (agent_op env lib req rsp op :: ('a, db_response) db_effect) =
      eff_bind (db_bool env call) (\<lambda>v. eff_return (f v rsp))"
  shows "agent_dispatch env lib what req s =
    (Done (build_response lib (agent_reply what (rq_reqid req) (sv_bool env (db_log s) call) f)),
     s\<lparr>db_log := db_log s @ [call]\<rparr>)"
  using assms
  by (auto simp: agent_dispatch_def agent_reply_def Let_def eff_bind_def eff_catch_with_def eff_return_def db_bool_def
      split: sum.splits)

lemma agent_dispatch_int:
  fixes s :: "'a db_state_scheme"
  assumes "db_op_of_code (rq_op req) = Some op"
    and "\<And>rsp. (agent_op env lib req rsp op :: ('a, db_response) db_effect) =
      eff_bind (db_int env call) (\<lambda>v. eff_return (f v rsp))"
  shows "agent_dispatch env lib what req s =
    (Done (build_response lib (agent_reply what (rq_reqid req) (sv_int env (db_log s) call) f)),
     s\<lparr>db_log := db_log s @ [call]\<rparr>)"
  using assms
  by (auto simp: agent_dispatch_def agent_reply_def Let_def eff_bind_def eff_catch_with_def eff_return_def db_int_def
      split: sum.splits)

lemma agent_op_reqid: "agent_op env lib req rsp op s = (Done rsp', t) \<Longrightarrow> rs_reqid rsp' = rs_reqid rsp"
  by (cases op) (auto simp: Let_def split: prod.splits elim!: eff_bindE)

text \<open>The agent's reply carries the id of the request.\<close>

lemma agent_dispatch_reqid:
  assumes "agent_dispatch env lib what req s = (Done out, t)"
  shows "\<exists>rsp. out = build_response lib rsp \<and> rs_reqid rsp = rq_reqid req"
  using assms
  by (fastforce simp: agent_dispatch_def Let_def eff_bind_def eff_catch_with_def eff_return_def
      split: option.splits prod.splits result.splits dest: agent_op_reqid)

text \<open>A request touches nothing but the database.\<close>

lemma agent_op_keeps:
  assumes f: "\<And>s l. f (s\<lparr>db_log := l\<rparr>) = f s"
  shows "eff_keeps f (agent_op env lib req rsp op)"
proof -
  have [effect_intros]: "eff_keeps f (db_text env call)" "eff_keeps f (db_bool env call)" "eff_keeps f (db_int env call)" for call
    using f by (auto simp: eff_keeps_def db_text_def db_bool_def db_int_def split: sum.splits)
  show ?thesis
    by (cases op) (auto simp: Let_def split_def json_string_vector_def json_parse_def intro!: effect_intros)
qed

lemma agent_dispatch_keeps:
  assumes "\<And>s l. f (s\<lparr>db_log := l\<rparr>) = f s"
  shows "eff_keeps f (agent_dispatch env lib what req)"
  unfolding agent_dispatch_def Let_def
  by (intro effect_intros) (auto intro: effect_intros agent_op_keeps[OF assms] split: option.split)

text \<open>Every request is answered.\<close>

lemma agent_op_returns: "agent_op env lib req rsp op s \<noteq> (Hangs, t)"
  by (cases op)
    (auto simp: Let_def split_def json_string_vector_def json_parse_def eff_bind_def eff_return_def eff_option_def eff_throw_def
      db_text_def db_bool_def db_int_def split: sum.splits option.splits prod.splits result.splits)

lemma agent_dispatch_total: "\<exists>out t. agent_dispatch env lib what req s = (Done out, t)"
proof -
  have "agent_op env lib req rsp op s \<noteq> (Hangs, t)" for rsp op t by (rule agent_op_returns)
  then show ?thesis
    by (auto simp: agent_dispatch_def Let_def eff_bind_def eff_catch_with_def eff_return_def
        split: option.splits prod.splits result.splits)
qed

section \<open>Backing off\<close>

text \<open>The delay between two attempts never leaves the range that the base delay and the ceiling span.\<close>

lemma agent_run_loop_sleeps:
  assumes "agent_run_loop attempt base cur atts s = (Done slept, t)" and "0 < base" and "min base 60 \<le> cur" "cur \<le> max base 60"
  shows "\<forall>d \<in> set slept. min base 60 \<le> d \<and> d \<le> max base 60"
  using assms
proof (induction atts arbitrary: cur s slept t)
  case (Cons att atts)
  then obtain ran u where tr: "attempt att s = (Done ran, u)" by (auto elim!: eff_bindE)
  let ?d = "if ran then base else cur" and ?n = "if ran then base else min (cur * 2) 60"
  have range: "min base 60 \<le> ?d" "?d \<le> max base 60" "min base 60 \<le> ?n" "?n \<le> max base 60"
    using Cons.prems(2-4) by auto
  show ?case
  proof (cases "at_stop att")
    case True
    then show ?thesis using Cons.prems(1) tr by simp
  next
    case False
    then obtain rest where "agent_run_loop attempt base ?n atts u = (Done rest, t)" "slept = ?d # rest"
      using Cons.prems(1) tr by (auto simp: Let_def elim!: eff_bindE split: if_splits)
    with Cons.IH[OF _ Cons.prems(2) range(3,4)] range(1,2) show ?thesis by simp
  qed
qed simp

end
