(* ===== verification/Db_Proxy.thy ===== *)
theory Db_Proxy
  imports Db_Agent
begin

text \<open>
  The database client of the cloud in remote mode (\<^verbatim>\<open>WsMongodbProxy\<close> of
  \<^verbatim>\<open>modules/module/wsdbproxy/src/wsdbproxy.cpp\<close>): each method of \<^verbatim>\<open>IMongodbClient\<close> becomes one request that
  \<^verbatim>\<open>IWsDispatcher::dispatch\<close> carries to the agent.

  The locale \<^verbatim>\<open>db_dispatcher\<close> is the contract of \<^verbatim>\<open>dispatch\<close>; inside it every method is shown to be one call of
  the agent's database on normalised arguments.  It is interpreted on the server of the connection in the
  theory that composes the two ends.
\<close>

text \<open>
  \<^verbatim>\<open>px_reqid\<close> is the counter \<^verbatim>\<open>s_reqid\<close> of \<^verbatim>\<open>dbproto.cpp\<close>.
\<close>

record db_proxy = db_agent +
  px_reqid :: i32

type_synonym ('a, 'r) px_effect = "('a db_proxy_scheme, 'r) effect"

definition json_to_bson :: "bson_lib \<Rightarrow> string \<Rightarrow> u8 list" where
  "json_to_bson lib t =
     (if t = [] then []
      else case bs_from_json lib t of Some b \<Rightarrow> b | None \<Rightarrow> [])"

definition request_args :: "db_op \<Rightarrow> string \<Rightarrow> u8 list \<Rightarrow> u8 list \<Rightarrow> string \<Rightarrow> db_request" where
  "request_args op coll doc doc2 sval =
     DbRequest\<lparr>rq_op := db_op_code op, rq_coll := coll, rq_doc := doc, rq_doc2 := doc2, rq_sval := sval\<rparr>"

lemma request_args_simps [simp]:
  "rq_op ((request_args op coll doc doc2 sval)\<lparr>rq_reqid := n\<rparr>) = db_op_code op"
  "rq_coll ((request_args op coll doc doc2 sval)\<lparr>rq_reqid := n\<rparr>) = coll"
  "rq_doc ((request_args op coll doc doc2 sval)\<lparr>rq_reqid := n\<rparr>) = doc"
  "rq_doc2 ((request_args op coll doc doc2 sval)\<lparr>rq_reqid := n\<rparr>) = doc2"
  "rq_sval ((request_args op coll doc doc2 sval)\<lparr>rq_reqid := n\<rparr>) = sval"
  by (simp_all add: request_args_def)

definition next_request :: "bson_lib \<Rightarrow> db_request \<Rightarrow> ('a, u8 list) px_effect" where
  "next_request lib args s =
     (let ((reqid, bson), n) = build_request lib (px_reqid s) args in (Done bson, s\<lparr>px_reqid := n\<rparr>))"

definition roundtrip ::
    "bson_lib \<Rightarrow> (u8 list \<Rightarrow> ('a, u8 list) px_effect) \<Rightarrow> db_request \<Rightarrow> ('a, db_response) px_effect" where
  "roundtrip lib dispatch args =
     eff_bind (next_request lib args) (\<lambda>bson.
     eff_bind (dispatch bson) (\<lambda>rsp_bson.
       eff_return
         (let (ok, rsp) = parse_response lib rsp_bson DbResponse
          in if ok then rsp else rsp\<lparr>rs_ok := False, rs_errmsg := ''malformed response''\<rparr>)))"

section \<open>The methods\<close>

definition proxy_create_document where
  "proxy_create_document lib dispatch coll doc =
     eff_bind (roundtrip lib dispatch (request_args CREATE_DOCUMENT coll (json_to_bson lib doc) [] [])) (\<lambda>rsp.
       eff_return (if rs_ok rsp then rs_sval rsp else []))"

definition proxy_create_bulk_document where
  "proxy_create_bulk_document lib dispatch coll doc =
     eff_bind (roundtrip lib dispatch (request_args CREATE_BULK_DOCUMENT coll (string_to_bytes doc) [] [])) (\<lambda>rsp.
       eff_return (if rs_ok rsp then rs_ival rsp else 0))"

definition proxy_update_collection where
  "proxy_update_collection lib dispatch coll flt document =
     eff_bind (roundtrip lib dispatch
         (request_args UPDATE_COLLECTION coll (json_to_bson lib flt) (json_to_bson lib document) [])) (\<lambda>rsp.
       eff_return (rs_ok rsp \<and> rs_bval rsp))"

text \<open>
  \<^verbatim>\<open>std::vector doc(fa.dump().begin(), fa.dump().end())\<close> takes the two iterators from two different strings,
  which is undefined; what the constructor makes of them is the parameter \<open>iter_range\<close>.
\<close>

definition proxy_update_bulk_document where
  "proxy_update_bulk_document env lib iter_range dispatch coll flt values =
     eff_bind (json_dump env (JArray (map JString flt))) (\<lambda>fa.
     eff_bind (eff_sum (iter_range fa)) (\<lambda>doc.
     eff_bind (json_dump env (JArray (map JString values))) (\<lambda>va.
     eff_bind (eff_sum (iter_range va)) (\<lambda>doc2.
     eff_bind (roundtrip lib dispatch (request_args UPDATE_BULK_DOCUMENT coll doc doc2 [])) (\<lambda>rsp.
       eff_return (if rs_ok rsp then rs_ival rsp else 0))))))"

definition proxy_delete_document where
  "proxy_delete_document lib dispatch coll doc =
     eff_bind (roundtrip lib dispatch (request_args DELETE_DOCUMENT coll (json_to_bson lib doc) [] [])) (\<lambda>rsp.
       eff_return (rs_ok rsp \<and> rs_bval rsp))"

definition proxy_get_document where
  "proxy_get_document lib dispatch coll query projection =
     eff_bind (roundtrip lib dispatch
         (request_args GET_DOCUMENT coll (json_to_bson lib query) (json_to_bson lib projection) [])) (\<lambda>rsp.
       eff_return (if rs_ok rsp then rs_sval rsp else []))"

definition proxy_get_documents where
  "proxy_get_documents lib dispatch coll query projection =
     eff_bind (roundtrip lib dispatch
         (request_args GET_DOCUMENTS_QUERIED coll (json_to_bson lib query) (json_to_bson lib projection) [])) (\<lambda>rsp.
       eff_return (if rs_ok rsp then rs_sval rsp else []))"

definition proxy_get_all_documents where
  "proxy_get_all_documents lib dispatch coll projection =
     eff_bind (roundtrip lib dispatch
         (request_args GET_DOCUMENTS_ALL coll [] (json_to_bson lib projection) [])) (\<lambda>rsp.
       eff_return (if rs_ok rsp then rs_sval rsp else []))"

definition proxy_next_awbno where
  "proxy_next_awbno lib dispatch pfx =
     eff_bind (roundtrip lib dispatch (request_args NEXT_AWBNO [] [] [] pfx)) (\<lambda>rsp.
       eff_return (if rs_ok rsp then rs_sval rsp else []))"

definition proxy_store_file where
  "proxy_store_file lib dispatch filename content_type data =
     (let sval = filename @ ''|'' @ content_type
      in eff_bind (roundtrip lib dispatch (request_args STORE_FILE [] data [] sval)) (\<lambda>rsp.
           eff_return (if rs_ok rsp then rs_sval rsp else [])))"

definition proxy_fetch_file where
  "proxy_fetch_file lib dispatch filename =
     eff_bind (roundtrip lib dispatch (request_args FETCH_FILE [] [] [] filename)) (\<lambda>rsp.
       eff_return (if rs_ok rsp then rs_data rsp else []))"

definition proxy_fetch_file_by_id where
  "proxy_fetch_file_by_id lib dispatch oid =
     eff_bind (roundtrip lib dispatch (request_args FETCH_FILE_BY_ID [] [] [] oid)) (\<lambda>rsp.
       eff_return (if rs_ok rsp then rs_data rsp else []))"

definition proxy_delete_file where
  "proxy_delete_file lib dispatch oid =
     eff_bind (roundtrip lib dispatch (request_args DELETE_FILE [] [] [] oid)) (\<lambda>rsp.
       eff_return (rs_ok rsp \<and> rs_bval rsp))"

text \<open>
  The methods behind the three shapes of an answer, indexed by the call.  A call of another shape is
  not a method.
\<close>

fun proxy_text :: "bson_lib \<Rightarrow> (u8 list \<Rightarrow> ('a, u8 list) px_effect) \<Rightarrow> db_call \<Rightarrow> ('a, string) px_effect option" where
  "proxy_text lib d (CreateDocument c doc) = Some (proxy_create_document lib d c doc)"
| "proxy_text lib d (GetDocument c q p) = Some (proxy_get_document lib d c q p)"
| "proxy_text lib d (GetDocuments c q p) = Some (proxy_get_documents lib d c q p)"
| "proxy_text lib d (GetAllDocuments c p) = Some (proxy_get_all_documents lib d c p)"
| "proxy_text lib d (NextAwbno pfx) = Some (proxy_next_awbno lib d pfx)"
| "proxy_text lib d (StoreFile n t data) = Some (proxy_store_file lib d n t (string_to_bytes data))"
| "proxy_text lib d (FetchFile n) =
     Some (eff_bind (proxy_fetch_file lib d n) (\<lambda>v. eff_return (bytes_to_string v)))"
| "proxy_text lib d (FetchFileById oid) =
     Some (eff_bind (proxy_fetch_file_by_id lib d oid) (\<lambda>v. eff_return (bytes_to_string v)))"
| "proxy_text lib d _ = None"

fun proxy_bool :: "bson_lib \<Rightarrow> (u8 list \<Rightarrow> ('a, u8 list) px_effect) \<Rightarrow> db_call \<Rightarrow> ('a, bool) px_effect option" where
  "proxy_bool lib d (UpdateCollection c f u) = Some (proxy_update_collection lib d c f u)"
| "proxy_bool lib d (DeleteDocument c doc) = Some (proxy_delete_document lib d c doc)"
| "proxy_bool lib d (DeleteFile oid) = Some (proxy_delete_file lib d oid)"
| "proxy_bool lib d _ = None"

text \<open>
  Of the two methods that answer with a count, \<^verbatim>\<open>update_bulk_document\<close> is left out: what it sends is undefined.
\<close>

fun proxy_int :: "bson_lib \<Rightarrow> (u8 list \<Rightarrow> ('a, u8 list) px_effect) \<Rightarrow> db_call \<Rightarrow> ('a, i32) px_effect option" where
  "proxy_int lib d (CreateBulkDocument c doc) = Some (proxy_create_bulk_document lib d c doc)"
| "proxy_int lib d _ = None"

lemmas proxy_text_defs =
  proxy_create_document_def proxy_get_document_def proxy_get_documents_def proxy_get_all_documents_def
  proxy_next_awbno_def proxy_store_file_def proxy_fetch_file_def proxy_fetch_file_by_id_def

lemmas proxy_bool_defs = proxy_update_collection_def proxy_delete_document_def proxy_delete_file_def

section \<open>What the agent's database is asked\<close>

text \<open>
  A JSON text goes through BSON and back; an empty and a malformed one both arrive as the empty
  document.  A file name is cut at its first bar.
\<close>

definition json_norm :: "bson_lib \<Rightarrow> string \<Rightarrow> string" where
  "json_norm lib t = bson_to_json lib (json_to_bson lib t)"

fun call_norm :: "bson_lib \<Rightarrow> db_call \<Rightarrow> db_call" where
  "call_norm lib (CreateDocument c doc) = CreateDocument c (json_norm lib doc)"
| "call_norm lib (GetDocument c q p) = GetDocument c (json_norm lib q) (json_norm lib p)"
| "call_norm lib (GetDocuments c q p) = GetDocuments c (json_norm lib q) (json_norm lib p)"
| "call_norm lib (GetAllDocuments c p) = GetAllDocuments c (json_norm lib p)"
| "call_norm lib (UpdateCollection c f u) = UpdateCollection c (json_norm lib f) (json_norm lib u)"
| "call_norm lib (DeleteDocument c doc) = DeleteDocument c (json_norm lib doc)"
| "call_norm lib (StoreFile n t data) = (let (n', t') = split_sval (n @ ''|'' @ t) in StoreFile n' t' data)"
| "call_norm lib call = call"

lemma bytes_to_string_Nil [simp]: "bytes_to_string [] = []"
  by (simp add: bytes_to_string_def)

lemma json_norm_bad: "t = [] \<or> bs_from_json lib t = None \<Longrightarrow> json_norm lib t = ''{}''"
  by (auto simp: json_norm_def json_to_bson_def bson_to_json_def)

lemma split_sval_plain: "CHR ''|'' \<notin> set n \<Longrightarrow> split_sval (n @ ''|'' @ t) = (n, t)"
  by (simp add: split_sval_def str_find_char_first)

text \<open>What a caller gets from an answer of the database: an exception reads as nothing found.\<close>

fun answer_text :: "cpp_exn + string \<Rightarrow> string" where
  "answer_text (Inr v) = v"
| "answer_text (Inl e) = []"

fun answer_bool :: "cpp_exn + bool \<Rightarrow> bool" where
  "answer_bool (Inr v) = v"
| "answer_bool (Inl e) = False"

text \<open>A count is an \<^verbatim>\<open>int32_t\<close>; a negative one is a failure, which reads as none.\<close>

fun answer_int :: "cpp_exn + int \<Rightarrow> i32" where
  "answer_int (Inr v) = (let n = word_of_int v in if 0 \<le> sint n then n else 0)"
| "answer_int (Inl e) = 0"

section \<open>The dispatcher's contract\<close>

locale db_dispatcher =
  fixes env :: service_env
    and lib :: bson_lib
    and what :: "cpp_exn \<Rightarrow> string"
    and dispatch :: "u8 list \<Rightarrow> ('a, u8 list) px_effect"
    and up down :: "'a db_proxy_scheme \<Rightarrow> bool"
  assumes answers: "bson_laws lib \<Longrightarrow> up s \<Longrightarrow> parse_request lib b DbRequest = (True, r) \<Longrightarrow>
      agent_dispatch env lib what r s = (Done rsp, t) \<Longrightarrow>
      \<exists>s'. dispatch b s = (Done rsp, s') \<and> up s' \<and> db_log s' = db_log t \<and> px_reqid s' = px_reqid s"
    and refuses: "down s \<Longrightarrow> parse_request lib b DbRequest = (True, r) \<Longrightarrow>
      \<exists>s'. dispatch b s = (Done (make_error_response lib (rq_reqid r) ''no agent connected''), s') \<and> down s' \<and>
        db_log s' = db_log s \<and> px_reqid s' = px_reqid s"
    and up_reqid: "up (s\<lparr>px_reqid := n\<rparr>) = up s"
    and down_reqid: "down (s\<lparr>px_reqid := n\<rparr>) = down s"
begin

lemma next_request_eq:
  "next_request lib args s = (Done (bs_encode lib (request_doc (args\<lparr>rq_reqid := px_reqid s\<rparr>))), s\<lparr>px_reqid := px_reqid s + 1\<rparr>)"
  by (simp add: next_request_def build_request_def Let_def)

lemma roundtrip_up:
  fixes s :: "'a db_proxy_scheme"
  assumes bson: "bson_laws lib" and "up s"
    and "\<And>s :: 'a db_proxy_scheme. agent_dispatch env lib what (args\<lparr>rq_reqid := px_reqid s\<rparr>) (s\<lparr>px_reqid := px_reqid s + 1\<rparr>) =
      (Done (build_response lib (g s)), h s)"
  shows "\<exists>s'. roundtrip lib dispatch args s = (Done (g s), s') \<and> up s' \<and> db_log s' = db_log (h s) \<and>
    px_reqid s' = px_reqid s + 1"
proof -
  let ?s = "s\<lparr>px_reqid := px_reqid s + 1\<rparr>" and ?r = "args\<lparr>rq_reqid := px_reqid s\<rparr>"
  have "up ?s" by (simp add: up_reqid assms(2))
  from answers[OF bson this parse_request_doc[OF bson] assms(3)[of s]]
  obtain s' where s': "dispatch (bs_encode lib (request_doc ?r)) ?s = (Done (build_response lib (g s)), s')"
    "up s'" "db_log s' = db_log (h s)" "px_reqid s' = px_reqid s + 1" by auto
  have "roundtrip lib dispatch args s = (Done (g s), s')"
    using s'(1) by (simp add: roundtrip_def eff_bind_def next_request_eq parse_build_response bson eff_return_def)
  with s' show ?thesis by blast
qed

lemma roundtrip_down:
  assumes bson: "bson_laws lib" and "down s"
  shows "\<exists>rsp s'. roundtrip lib dispatch args s = (Done rsp, s') \<and> \<not> rs_ok rsp \<and> down s' \<and> db_log s' = db_log s \<and>
    px_reqid s' = px_reqid s + 1"
proof -
  let ?s = "s\<lparr>px_reqid := px_reqid s + 1\<rparr>" and ?r = "args\<lparr>rq_reqid := px_reqid s\<rparr>"
  have "down ?s" by (simp add: down_reqid assms(2))
  from refuses[OF this parse_request_doc[OF bson, of ?r]] show ?thesis
    by (auto simp: roundtrip_def eff_bind_def next_request_eq eff_return_def parse_error_response bson)
qed

lemma roundtrip_text:
  fixes s :: "'a db_proxy_scheme"
  assumes "bson_laws lib" "up s" and "rq_op args = db_op_code op"
    and "\<And>n rsp. (agent_op env lib (args\<lparr>rq_reqid := n\<rparr>) rsp op :: ('a db_proxy_scheme, db_response) effect) =
      eff_bind (db_text env call) (\<lambda>v. eff_return (f v rsp))"
  shows "\<exists>s'. roundtrip lib dispatch args s =
      (Done (agent_reply what (px_reqid s) (sv_text env (db_log s) call) f), s') \<and>
    up s' \<and> db_log s' = db_log s @ [call] \<and> px_reqid s' = px_reqid s + 1"
proof -
  have "agent_dispatch env lib what (args\<lparr>rq_reqid := px_reqid s\<rparr>) (s\<lparr>px_reqid := px_reqid s + 1\<rparr>) =
      (Done (build_response lib (agent_reply what (px_reqid s) (sv_text env (db_log s) call) f)),
       s\<lparr>px_reqid := px_reqid s + 1, db_log := db_log s @ [call]\<rparr>)" for s :: "'a db_proxy_scheme"
    using agent_dispatch_text[of "args\<lparr>rq_reqid := px_reqid s\<rparr>" op env lib call f what "s\<lparr>px_reqid := px_reqid s + 1\<rparr>"] assms(3,4)
    by simp
  from roundtrip_up[OF assms(1,2) this] show ?thesis by simp
qed

lemma roundtrip_bool:
  fixes s :: "'a db_proxy_scheme"
  assumes "bson_laws lib" "up s" and "rq_op args = db_op_code op"
    and "\<And>n rsp. (agent_op env lib (args\<lparr>rq_reqid := n\<rparr>) rsp op :: ('a db_proxy_scheme, db_response) effect) =
      eff_bind (db_bool env call) (\<lambda>v. eff_return (f v rsp))"
  shows "\<exists>s'. roundtrip lib dispatch args s =
      (Done (agent_reply what (px_reqid s) (sv_bool env (db_log s) call) f), s') \<and>
    up s' \<and> db_log s' = db_log s @ [call] \<and> px_reqid s' = px_reqid s + 1"
proof -
  have "agent_dispatch env lib what (args\<lparr>rq_reqid := px_reqid s\<rparr>) (s\<lparr>px_reqid := px_reqid s + 1\<rparr>) =
      (Done (build_response lib (agent_reply what (px_reqid s) (sv_bool env (db_log s) call) f)),
       s\<lparr>px_reqid := px_reqid s + 1, db_log := db_log s @ [call]\<rparr>)" for s :: "'a db_proxy_scheme"
    using agent_dispatch_bool[of "args\<lparr>rq_reqid := px_reqid s\<rparr>" op env lib call f what "s\<lparr>px_reqid := px_reqid s + 1\<rparr>"] assms(3,4)
    by simp
  from roundtrip_up[OF assms(1,2) this] show ?thesis by simp
qed

lemma roundtrip_int:
  fixes s :: "'a db_proxy_scheme"
  assumes "bson_laws lib" "up s" and "rq_op args = db_op_code op"
    and "\<And>n rsp. (agent_op env lib (args\<lparr>rq_reqid := n\<rparr>) rsp op :: ('a db_proxy_scheme, db_response) effect) =
      eff_bind (db_int env call) (\<lambda>v. eff_return (f v rsp))"
  shows "\<exists>s'. roundtrip lib dispatch args s =
      (Done (agent_reply what (px_reqid s) (sv_int env (db_log s) call) f), s') \<and>
    up s' \<and> db_log s' = db_log s @ [call] \<and> px_reqid s' = px_reqid s + 1"
proof -
  have "agent_dispatch env lib what (args\<lparr>rq_reqid := px_reqid s\<rparr>) (s\<lparr>px_reqid := px_reqid s + 1\<rparr>) =
      (Done (build_response lib (agent_reply what (px_reqid s) (sv_int env (db_log s) call) f)),
       s\<lparr>px_reqid := px_reqid s + 1, db_log := db_log s @ [call]\<rparr>)" for s :: "'a db_proxy_scheme"
    using agent_dispatch_int[of "args\<lparr>rq_reqid := px_reqid s\<rparr>" op env lib call f what "s\<lparr>px_reqid := px_reqid s + 1\<rparr>"] assms(3,4)
    by simp
  from roundtrip_up[OF assms(1,2) this] show ?thesis by simp
qed

text \<open>A method from its request: the call it makes of the database and what it returns.\<close>

lemma text_method:
  fixes s :: "'a db_proxy_scheme"
  assumes "bson_laws lib" "up s"
    and "\<And>n rsp. (agent_op env lib ((request_args op coll doc doc2 sval)\<lparr>rq_reqid := n\<rparr>) rsp op :: ('a db_proxy_scheme, db_response) effect) =
      eff_bind (db_text env call) (\<lambda>v. eff_return (f v rsp))"
    and "\<And>n r. res (agent_reply what n r f) = answer r"
  shows "\<exists>s'. eff_bind (roundtrip lib dispatch (request_args op coll doc doc2 sval)) (\<lambda>rsp. eff_return (res rsp)) s =
      (Done (answer (sv_text env (db_log s) call)), s') \<and> up s' \<and> db_log s' = db_log s @ [call] \<and> px_reqid s' = px_reqid s + 1"
  using roundtrip_text[OF assms(1,2) _ assms(3)] by (auto simp: assms(4) eff_return_def request_args_def)

lemma bool_method:
  fixes s :: "'a db_proxy_scheme"
  assumes "bson_laws lib" "up s"
    and "\<And>n rsp. (agent_op env lib ((request_args op coll doc doc2 sval)\<lparr>rq_reqid := n\<rparr>) rsp op :: ('a db_proxy_scheme, db_response) effect) =
      eff_bind (db_bool env call) (\<lambda>v. eff_return (f v rsp))"
    and "\<And>n r. res (agent_reply what n r f) = answer r"
  shows "\<exists>s'. eff_bind (roundtrip lib dispatch (request_args op coll doc doc2 sval)) (\<lambda>rsp. eff_return (res rsp)) s =
      (Done (answer (sv_bool env (db_log s) call)), s') \<and> up s' \<and> db_log s' = db_log s @ [call] \<and> px_reqid s' = px_reqid s + 1"
  using roundtrip_bool[OF assms(1,2) _ assms(3)] by (auto simp: assms(4) eff_return_def request_args_def)

lemma reply_simps [simp]:
  "(if rs_ok (agent_reply what n r (\<lambda>v rsp. rsp\<lparr>rs_sval := v, rs_ok := v \<noteq> []\<rparr>))
    then rs_sval (agent_reply what n r (\<lambda>v rsp. rsp\<lparr>rs_sval := v, rs_ok := v \<noteq> []\<rparr>)) else []) = answer_text r"
  "(if rs_ok (agent_reply what n r (\<lambda>v rsp. rsp\<lparr>rs_sval := v, rs_ok := True\<rparr>))
    then rs_sval (agent_reply what n r (\<lambda>v rsp. rsp\<lparr>rs_sval := v, rs_ok := True\<rparr>)) else []) = answer_text r"
  "bytes_to_string (if rs_ok (agent_reply what n r (\<lambda>v rsp. rsp\<lparr>rs_data := string_to_bytes v, rs_ok := v \<noteq> []\<rparr>))
    then rs_data (agent_reply what n r (\<lambda>v rsp. rsp\<lparr>rs_data := string_to_bytes v, rs_ok := v \<noteq> []\<rparr>)) else []) = answer_text r"
  by (cases r, simp_all add: agent_reply_def)+

lemma reply_bool_simps [simp]:
  "rs_ok (agent_reply what n q (\<lambda>v rsp. rsp\<lparr>rs_bval := v, rs_ok := True\<rparr>)) \<longleftrightarrow> \<not> isl q"
  "rs_bval (agent_reply what n q (\<lambda>v rsp. rsp\<lparr>rs_bval := v, rs_ok := True\<rparr>)) \<longleftrightarrow> answer_bool q"
  by (cases q; simp add: agent_reply_def DbResponse_def)+

lemma answer_bool_isl [dest]: "answer_bool q \<Longrightarrow> isl q \<Longrightarrow> False"
  by (cases q) simp_all

lemma proxy_text_up:
  fixes s :: "'a db_proxy_scheme"
  assumes "bson_laws lib" "up s" and "proxy_text lib dispatch call = Some m"
  shows "\<exists>s'. m s = (Done (answer_text (sv_text env (db_log s) (call_norm lib call))), s') \<and>
    up s' \<and> db_log s' = db_log s @ [call_norm lib call] \<and> px_reqid s' = px_reqid s + 1"
  using assms(3)
  by (cases call)
    (auto simp: proxy_text_defs eff_bind_return json_norm_def Let_def split_def
      intro!: text_method[OF assms(1,2), where answer = answer_text])

lemma proxy_bool_up:
  fixes s :: "'a db_proxy_scheme"
  assumes "bson_laws lib" "up s" and "proxy_bool lib dispatch call = Some m"
  shows "\<exists>s'. m s = (Done (answer_bool (sv_bool env (db_log s) (call_norm lib call))), s') \<and>
    up s' \<and> db_log s' = db_log s @ [call_norm lib call] \<and> px_reqid s' = px_reqid s + 1"
  using assms(3)
  by (cases call)
    (auto simp del: eff_bind_step simp: proxy_bool_defs json_norm_def
      intro!: bool_method[OF assms(1,2), where answer = answer_bool])

lemma proxy_int_up:
  fixes s :: "'a db_proxy_scheme"
  assumes "bson_laws lib" "up s" and "proxy_int lib dispatch call = Some m"
  shows "\<exists>s'. m s = (Done (answer_int (sv_int env (db_log s) (call_norm lib call))), s') \<and>
    up s' \<and> db_log s' = db_log s @ [call_norm lib call] \<and> px_reqid s' = px_reqid s + 1"
proof -
  obtain c doc where c: "call = CreateBulkDocument c doc" and m: "m = proxy_create_bulk_document lib dispatch c doc"
    using assms(3) by (cases call) auto
  let ?f = "\<lambda>v rsp. rsp\<lparr>rs_ival := word_of_int v, rs_ok := 0 \<le> sint (word_of_int v :: i32)\<rparr>"
  let ?args = "request_args CREATE_BULK_DOCUMENT c (string_to_bytes doc) [] []"
  have "rs_ok (agent_reply what n r ?f) \<longrightarrow> rs_ival (agent_reply what n r ?f) = answer_int r"
    "\<not> rs_ok (agent_reply what n r ?f) \<longrightarrow> answer_int r = 0" for n r
    by (cases r; simp add: agent_reply_def)+
  moreover have "(agent_op env lib (?args\<lparr>rq_reqid := n\<rparr>) rsp CREATE_BULK_DOCUMENT :: ('a db_proxy_scheme, db_response) effect) =
      eff_bind (db_int env (CreateBulkDocument c doc)) (\<lambda>v. eff_return (?f v rsp))" for n rsp
    by (simp add: Let_def)
  note roundtrip_int[OF assms(1,2) _ this]
  ultimately show ?thesis
    by (auto simp: c m proxy_create_bulk_document_def eff_return_def request_args_def)
qed

text \<open>Without an agent nothing is asked and nothing is found.\<close>

lemma method_down:
  assumes "bson_laws lib" "down s" and "\<And>rsp. \<not> rs_ok rsp \<Longrightarrow> res rsp = z"
  shows "\<exists>s'. eff_bind (roundtrip lib dispatch args) (\<lambda>rsp. eff_return (res rsp)) s = (Done z, s') \<and> down s' \<and>
    db_log s' = db_log s \<and> px_reqid s' = px_reqid s + 1"
  using roundtrip_down[OF assms(1,2), of args] assms(3) by (auto simp: eff_return_def)

lemma proxy_text_down:
  assumes "bson_laws lib" "down s" and "proxy_text lib dispatch call = Some m"
  shows "\<exists>s'. m s = (Done [], s') \<and> down s' \<and> db_log s' = db_log s \<and> px_reqid s' = px_reqid s + 1"
  using assms(3)
  by (cases call) (auto simp: proxy_text_defs eff_bind_return Let_def intro!: method_down[OF assms(1,2)])

lemma proxy_bool_down:
  assumes "bson_laws lib" "down s" and "proxy_bool lib dispatch call = Some m"
  shows "\<exists>s'. m s = (Done False, s') \<and> down s' \<and> db_log s' = db_log s \<and> px_reqid s' = px_reqid s + 1"
  using assms(3) by (cases call) (auto simp: proxy_bool_defs intro!: method_down[OF assms(1,2)])

lemma proxy_int_down:
  assumes "bson_laws lib" "down s" and "proxy_int lib dispatch call = Some m"
  shows "\<exists>s'. m s = (Done 0, s') \<and> down s' \<and> db_log s' = db_log s \<and> px_reqid s' = px_reqid s + 1"
  using assms(3) by (cases call) (auto simp: proxy_create_bulk_document_def intro!: method_down[OF assms(1,2)])

end

end
