(* ===== verification/Db_Server.thy ===== *)
theory Db_Server
  imports Db_Proto Ws_Socket
begin

text \<open>
  The cloud end of the database connection (\<^verbatim>\<open>WsDbServer\<close> of
  \<^verbatim>\<open>modules/module/wsdbproxy/src/wsdbproxy.cpp\<close>).  Worker threads call \<^verbatim>\<open>dispatch\<close>; the thread of
  \<^verbatim>\<open>svc\<close> accepts the agent, reads its responses and hands each to the caller that waits for it; the web server hands
  over an upgraded socket with \<^verbatim>\<open>on_agent_connected\<close>; \<^verbatim>\<open>close\<close> may be called from anywhere.

  The threads are interleaved at the places where the code takes or releases a mutex or touches an atomic:
  an action of the model is the code between two such places, and a run is any sequence of enabled actions.
  A \<^verbatim>\<open>shared_ptr<PendingRequest>\<close> is an index into a store of objects.  \<^verbatim>\<open>po_reqid\<close> is not a member of the
  program's struct: it remembers for the proofs which id an object was made for.
\<close>

section \<open>State\<close>

record pending_request =
  po_reqid :: i32
  po_response :: "u8 list"
  po_ready :: bool
  po_failed :: bool

text \<open>How far a caller is in \<^verbatim>\<open>dispatch(bson)\<close>.  \<^verbatim>\<open>Leaving\<close> still holds the mutex of its object.\<close>

datatype caller =
    Entered "u8 list"
  | Checked "u8 list"
  | Registered "u8 list" i32 nat
  | Waiting "u8 list" i32 nat
  | SendFailed "u8 list" i32
  | Leaving "u8 list" i32 nat bool
  | Returned "u8 list" "u8 list"

text \<open>How far \<^verbatim>\<open>svc\<close> is, and how far \<^verbatim>\<open>close\<close> is.\<close>

datatype svc_phase =
    SvcIdle
  | SvcSetup
  | SvcAccepting
  | SvcSession
  | SvcFound nat "u8 list"
  | SvcCleanup
  | SvcSnapshot string
  | SvcFailing string "(i32 \<times> nat) list"
  | SvcDone

datatype close_phase = CloseIdle | CloseSnapshot | CloseFailing "(i32 \<times> nat) list" | CloseDone

datatype db_wire = CipherSent "u8 list" | FrameSent "u8 list" | HttpSent string

record db_server =
  ds_tls_mode :: bool
  ds_inner_cfg :: bool
  ds_running :: bool
  ds_connected :: bool
  ds_handle :: "nat option"
  ds_inner :: bool
  ds_inner_ready :: bool
  ds_pending :: "(i32, nat) umap"
  ds_objs :: "nat \<Rightarrow> pending_request"
  ds_next :: nat
  ds_callers :: "(nat, caller) umap"
  ds_svc :: svc_phase
  ds_close :: close_phase
  ds_wire :: "db_wire list"
  ds_received :: "u8 list list"

definition new_pending :: "i32 \<Rightarrow> pending_request" where
  "new_pending k = \<lparr>po_reqid = k, po_response = [], po_ready = False, po_failed = False\<rparr>"

text \<open>
  The constructors and \<^verbatim>\<open>open\<close>: \<open>tls_mode\<close> with its own acceptor or a socket handed over, inner TLS configured
  when a certificate and a key are.
\<close>

definition new_db_server :: "bool \<Rightarrow> bool \<Rightarrow> db_server" where
  "new_db_server tls_mode inner_cfg =
     \<lparr>ds_tls_mode = tls_mode, ds_inner_cfg = inner_cfg, ds_running = True, ds_connected = False, ds_handle = None,
      ds_inner = False, ds_inner_ready = False, ds_pending = [], ds_objs = (\<lambda>_. new_pending 0), ds_next = 0,
      ds_callers = [], ds_svc = SvcIdle, ds_close = CloseIdle, ds_wire = [], ds_received = []\<rparr>"

definition set_caller :: "nat \<Rightarrow> caller \<Rightarrow> db_server \<Rightarrow> db_server" where
  "set_caller t c s = s\<lparr>ds_callers := um_put t c (ds_callers s)\<rparr>"

definition set_obj :: "nat \<Rightarrow> pending_request \<Rightarrow> db_server \<Rightarrow> db_server" where
  "set_obj ob p s = s\<lparr>ds_objs := (ds_objs s)(ob := p)\<rparr>"

definition send_wire :: "db_wire \<Rightarrow> db_server \<Rightarrow> db_server" where
  "send_wire w s = s\<lparr>ds_wire := ds_wire s @ [w]\<rparr>"

fun holds_obj :: "nat \<Rightarrow> caller \<Rightarrow> bool" where
  "holds_obj ob (Leaving b r ob' received) \<longleftrightarrow> ob' = ob"
| "holds_obj ob _ \<longleftrightarrow> False"

text \<open>The mutex of an object is free.\<close>

definition obj_free :: "nat \<Rightarrow> db_server \<Rightarrow> bool" where
  "obj_free ob s \<longleftrightarrow> list_all (\<lambda>(t, c). \<not> holds_obj ob c) (ds_callers s)"

section \<open>dispatch\<close>

definition dispatch_check :: "bson_lib \<Rightarrow> nat \<Rightarrow> u8 list \<Rightarrow> db_server \<Rightarrow> db_server" where
  "dispatch_check lib t bson s =
     (if \<not> ds_connected s then
        let (ok, req) = parse_request lib bson DbRequest
        in set_caller t (Returned bson (make_error_response lib (rq_reqid req) ''no agent connected'')) s
      else set_caller t (Checked bson) s)"

definition dispatch_register :: "bson_lib \<Rightarrow> nat \<Rightarrow> u8 list \<Rightarrow> db_server \<Rightarrow> db_server" where
  "dispatch_register lib t bson s =
     (let (ok, req) = parse_request lib bson DbRequest
      in if \<not> ok then set_caller t (Returned bson (make_error_response lib (-1) ''malformed request'')) s
         else let ob = ds_next s
              in set_caller t (Registered bson (rq_reqid req) ob)
                   (set_obj ob (new_pending (rq_reqid req))
                     (s\<lparr>ds_pending := um_put (rq_reqid req) ob (ds_pending s), ds_next := ob + 1\<rparr>)))"

text \<open>The outcome \<open>ok\<close> of the write is the transport's.\<close>

definition dispatch_send :: "nat \<Rightarrow> u8 list \<Rightarrow> i32 \<Rightarrow> nat \<Rightarrow> bool \<Rightarrow> db_server \<Rightarrow> db_server" where
  "dispatch_send t bson reqid ob ok s =
     (let sent = (if ds_inner s then ds_inner_ready s \<and> ok else ok);
          w = (if ds_inner s then CipherSent bson else FrameSent (ws_encode bson 0x02 False 0 0))
      in if sent then set_caller t (Waiting bson reqid ob) (send_wire w s)
         else set_caller t (SendFailed bson reqid) s)"

definition dispatch_send_failed :: "bson_lib \<Rightarrow> nat \<Rightarrow> u8 list \<Rightarrow> i32 \<Rightarrow> db_server \<Rightarrow> db_server" where
  "dispatch_send_failed lib t bson reqid s =
     set_caller t (Returned bson (make_error_response lib reqid ''send failed''))
       (s\<lparr>ds_pending := um_erase reqid (ds_pending s)\<rparr>)"

text \<open>\<^verbatim>\<open>wait_for\<close> returns the value of its predicate when the time is up.\<close>

definition dispatch_leave :: "bson_lib \<Rightarrow> nat \<Rightarrow> u8 list \<Rightarrow> i32 \<Rightarrow> nat \<Rightarrow> bool \<Rightarrow> db_server \<Rightarrow> db_server" where
  "dispatch_leave lib t bson reqid ob received s =
     set_caller t
       (Returned bson
         (if received then po_response (ds_objs s ob) else make_error_response lib reqid ''dispatch timeout''))
       (s\<lparr>ds_pending := um_erase reqid (ds_pending s)\<rparr>)"

section \<open>The agent's connection\<close>

definition retry_response :: string where
  "retry_response = ''HTTP/1.1 503 Service Unavailable'' @ crlf @ ''Retry-After: 2'' @ crlf @
     ''Content-Length: 0'' @ crlf @ ''Connection: close'' @ crlf @ crlf"

definition conflict_response :: string where
  "conflict_response = ''HTTP/1.1 409 Conflict'' @ crlf @ ''Content-Length: 0'' @ crlf @ ''Connection: close'' @ crlf @ crlf"

definition db_on_agent_connected :: "nat \<Rightarrow> db_server \<Rightarrow> bool \<times> db_server" where
  "db_on_agent_connected handle s =
     (if ds_connected s then
        (False, send_wire (HttpSent retry_response) (s\<lparr>ds_connected := False, ds_handle := None\<rparr>))
      else (True, s\<lparr>ds_handle := Some handle, ds_connected := True\<rparr>))"

text \<open>\<^verbatim>\<open>ws_upgrade_server\<close>: the reply to the bytes of the peer, or a failure.\<close>

definition ws_upgrade_server :: "(string \<Rightarrow> string) \<Rightarrow> string \<Rightarrow> string option" where
  "ws_upgrade_server sha1_base64 inp =
     (case read_head 8192 [] inp of
        None \<Rightarrow> None
      | Some (headers, rest) \<Rightarrow>
          (case str_find headers ''Sec-WebSocket-Key:'' of
             None \<Rightarrow> None
           | Some p \<Rightarrow>
               let pos = p + 18 + length (takeWhile (\<lambda>c. c = CHR '' '') (drop (p + 18) headers))
               in (case str_find_from headers crlf pos of
                     None \<Rightarrow> None
                   | Some fin \<Rightarrow>
                       let key = substr headers pos (fin - pos)
                       in Some (''HTTP/1.1 101 Switching Protocols'' @ crlf @ ''Upgrade: websocket'' @ crlf @
                            ''Connection: Upgrade'' @ crlf @ ''Sec-WebSocket-Accept: '' @ accept_key sha1_base64 key @
                            crlf @ crlf))))"

text \<open>One pass of the accepting loop of \<^verbatim>\<open>svc\<close> in \<open>tls_mode\<close>.\<close>

definition svc_accept :: "(string \<Rightarrow> string) \<Rightarrow> nat \<Rightarrow> string \<Rightarrow> bool \<Rightarrow> db_server \<Rightarrow> db_server" where
  "svc_accept sha1_base64 handle inp sent s =
     (if ds_connected s then send_wire (HttpSent conflict_response) s
      else case ws_upgrade_server sha1_base64 inp of
             None \<Rightarrow> s
           | Some rsp \<Rightarrow>
               if sent then send_wire (HttpSent rsp)
                 (s\<lparr>ds_handle := Some handle, ds_connected := True, ds_svc := SvcSetup\<rparr>)
               else s)"

text \<open>What \<^verbatim>\<open>svc\<close> does when \<^verbatim>\<open>setup_inner_tls\<close> failed: only the loop without an acceptor fails the callers.\<close>

definition svc_setup_failed :: "db_server \<Rightarrow> db_server" where
  "svc_setup_failed s =
     s\<lparr>ds_connected := False, ds_handle := None,
       ds_svc := (if ds_tls_mode s then SvcIdle else SvcSnapshot ''inner TLS setup failed'')\<rparr>"

text \<open>\<^verbatim>\<open>setup_inner_tls\<close>: making the TLS object, which may throw, and the handshake.\<close>

definition setup_inner_tls :: "bool \<Rightarrow> db_server \<Rightarrow> db_server" where
  "setup_inner_tls made s =
     (if \<not> ds_inner_cfg s then s\<lparr>ds_svc := SvcSession\<rparr>
      else if made then s\<lparr>ds_inner := True, ds_svc := SvcAccepting\<rparr>
      else svc_setup_failed s)"

definition inner_tls_accepted :: "bool \<Rightarrow> db_server \<Rightarrow> db_server" where
  "inner_tls_accepted ok s =
     (if ok then s\<lparr>ds_inner_ready := True, ds_svc := SvcSession\<rparr>
      else svc_setup_failed (s\<lparr>ds_inner := False\<rparr>))"

section \<open>run\_session\<close>

definition session_plaintext :: "bson_lib \<Rightarrow> u8 list \<Rightarrow> db_server \<Rightarrow> db_server" where
  "session_plaintext lib plaintext s =
     (let s = s\<lparr>ds_received := ds_received s @ [plaintext]\<rparr>;
          (ok, rsp) = parse_response lib plaintext DbResponse
      in if \<not> ok then s
         else case um_find (ds_pending s) (rs_reqid rsp) of
                Some ob \<Rightarrow> s\<lparr>ds_svc := SvcFound ob plaintext\<rparr>
              | None \<Rightarrow> s)"

definition session_recv_tls :: "bson_lib \<Rightarrow> u8 list option \<Rightarrow> db_server \<Rightarrow> db_server" where
  "session_recv_tls lib r s =
     (case r of
        None \<Rightarrow> s\<lparr>ds_svc := SvcCleanup\<rparr>
      | Some plaintext \<Rightarrow> if plaintext = [] then s else session_plaintext lib plaintext s)"

definition session_recv_raw :: "bson_lib \<Rightarrow> recv_result \<Rightarrow> db_server \<Rightarrow> db_server option" where
  "session_recv_raw lib r s =
     (case r of
        RecvFail \<Rightarrow> Some (s\<lparr>ds_svc := SvcCleanup\<rparr>)
      | RecvFrame f rest \<Rightarrow>
          Some (if ws_opcode f = 0x09 then send_wire (FrameSent (ws_encode [] 0x0A False 0 0)) s
                else if ws_opcode f = 0x0A then s
                else if ws_opcode f = 0x08 then s\<lparr>ds_svc := SvcCleanup\<rparr>
                else session_plaintext lib (ws_payload f) s)
      | RecvThrow \<Rightarrow> None
      | RecvWild \<Rightarrow> None)"

definition session_deliver :: "nat \<Rightarrow> u8 list \<Rightarrow> db_server \<Rightarrow> db_server" where
  "session_deliver ob plaintext s =
     set_obj ob ((ds_objs s ob)\<lparr>po_response := plaintext, po_ready := True\<rparr>) (s\<lparr>ds_svc := SvcSession\<rparr>)"

definition session_cleanup :: "db_server \<Rightarrow> db_server" where
  "session_cleanup s =
     s\<lparr>ds_connected := False, ds_inner_ready := False, ds_inner := False, ds_handle := None,
       ds_svc := SvcSnapshot ''agent disconnected''\<rparr>"

text \<open>\<^verbatim>\<open>fail_all_pending\<close>: a snapshot under the mutex, then one object after the other.\<close>

definition fail_snapshot :: "db_server \<Rightarrow> (i32 \<times> nat) list \<times> db_server" where
  "fail_snapshot s = (ds_pending s, s\<lparr>ds_pending := []\<rparr>)"

definition fail_one :: "bson_lib \<Rightarrow> string \<Rightarrow> i32 \<Rightarrow> nat \<Rightarrow> db_server \<Rightarrow> db_server" where
  "fail_one lib reason k ob s =
     set_obj ob ((ds_objs s ob)\<lparr>po_response := make_error_response lib k reason, po_failed := True, po_ready := True\<rparr>) s"

definition db_server_close :: "db_server \<Rightarrow> db_server" where
  "db_server_close s = s\<lparr>ds_running := False, ds_inner_ready := False, ds_inner := False, ds_close := CloseSnapshot\<rparr>"

section \<open>Actions\<close>

datatype db_action =
    ACall nat "u8 list" | ACheck nat | ARegister nat | ASend nat bool | ASendFailed nat | AWake nat | ATimeout nat
  | ALeave nat
  | AConnect nat | AAccept nat string bool | AWaitConnected | AStopped
  | ASetup bool | AAccepted bool
  | ARecvTls "u8 list option" | ARecvRaw recv_result | ALoopExit | ADeliver | ACleanup | ASnapshot | AFailNext
  | AClose | ACloseSnapshot | ACloseFailNext

text \<open>
  \<^term>\<open>None\<close>: the action is not enabled.  A receive that began before \<^verbatim>\<open>m_connected\<close> was cleared still completes.
\<close>

fun db_exec :: "bson_lib \<Rightarrow> (string \<Rightarrow> string) \<Rightarrow> db_action \<Rightarrow> db_server \<Rightarrow> db_server option" where
  "db_exec lib sha (ACall t bson) s =
     (case um_find (ds_callers s) t of
        None \<Rightarrow> Some (set_caller t (Entered bson) s)
      | Some (Returned b out) \<Rightarrow> Some (set_caller t (Entered bson) s)
      | _ \<Rightarrow> None)"
| "db_exec lib sha (ACheck t) s =
     (case um_find (ds_callers s) t of Some (Entered b) \<Rightarrow> Some (dispatch_check lib t b s) | _ \<Rightarrow> None)"
| "db_exec lib sha (ARegister t) s =
     (case um_find (ds_callers s) t of Some (Checked b) \<Rightarrow> Some (dispatch_register lib t b s) | _ \<Rightarrow> None)"
| "db_exec lib sha (ASend t ok) s =
     (case um_find (ds_callers s) t of Some (Registered b r ob) \<Rightarrow> Some (dispatch_send t b r ob ok s) | _ \<Rightarrow> None)"
| "db_exec lib sha (ASendFailed t) s =
     (case um_find (ds_callers s) t of Some (SendFailed b r) \<Rightarrow> Some (dispatch_send_failed lib t b r s) | _ \<Rightarrow> None)"
| "db_exec lib sha (AWake t) s =
     (case um_find (ds_callers s) t of
        Some (Waiting b r ob) \<Rightarrow>
          if po_ready (ds_objs s ob) \<and> obj_free ob s then Some (set_caller t (Leaving b r ob True) s) else None
      | _ \<Rightarrow> None)"
| "db_exec lib sha (ATimeout t) s =
     (case um_find (ds_callers s) t of
        Some (Waiting b r ob) \<Rightarrow>
          if obj_free ob s then Some (set_caller t (Leaving b r ob (po_ready (ds_objs s ob))) s) else None
      | _ \<Rightarrow> None)"
| "db_exec lib sha (ALeave t) s =
     (case um_find (ds_callers s) t of
        Some (Leaving b r ob received) \<Rightarrow> Some (dispatch_leave lib t b r ob received s) | _ \<Rightarrow> None)"
| "db_exec lib sha (AConnect handle) s = Some (snd (db_on_agent_connected handle s))"
| "db_exec lib sha (AAccept handle inp sent) s =
     (if ds_svc s = SvcIdle \<and> ds_tls_mode s \<and> ds_running s then Some (svc_accept sha handle inp sent s) else None)"
| "db_exec lib sha AWaitConnected s =
     (if ds_svc s = SvcIdle \<and> \<not> ds_tls_mode s \<and> ds_running s \<and> ds_connected s
      then Some (s\<lparr>ds_svc := SvcSetup\<rparr>) else None)"
| "db_exec lib sha AStopped s =
     (if ds_svc s = SvcIdle \<and> \<not> ds_running s then Some (s\<lparr>ds_svc := SvcDone\<rparr>) else None)"
| "db_exec lib sha (ASetup made) s = (if ds_svc s = SvcSetup then Some (setup_inner_tls made s) else None)"
| "db_exec lib sha (AAccepted ok) s = (if ds_svc s = SvcAccepting then Some (inner_tls_accepted ok s) else None)"
| "db_exec lib sha (ARecvTls r) s =
     (if ds_svc s = SvcSession \<and> ds_inner s then Some (session_recv_tls lib r s) else None)"
| "db_exec lib sha (ARecvRaw r) s =
     (if ds_svc s = SvcSession \<and> \<not> ds_inner s then session_recv_raw lib r s else None)"
| "db_exec lib sha ALoopExit s =
     (if ds_svc s = SvcSession \<and> \<not> ds_connected s then Some (s\<lparr>ds_svc := SvcCleanup\<rparr>) else None)"
| "db_exec lib sha ADeliver s =
     (case ds_svc s of
        SvcFound ob p \<Rightarrow> if obj_free ob s then Some (session_deliver ob p s) else None
      | _ \<Rightarrow> None)"
| "db_exec lib sha ACleanup s = (if ds_svc s = SvcCleanup then Some (session_cleanup s) else None)"
| "db_exec lib sha ASnapshot s =
     (case ds_svc s of
        SvcSnapshot reason \<Rightarrow>
          let (snap, s) = fail_snapshot s in Some (s\<lparr>ds_svc := SvcFailing reason snap\<rparr>)
      | _ \<Rightarrow> None)"
| "db_exec lib sha AFailNext s =
     (case ds_svc s of
        SvcFailing reason [] \<Rightarrow> Some (s\<lparr>ds_svc := SvcIdle\<rparr>)
      | SvcFailing reason ((k, ob) # snap) \<Rightarrow>
          if obj_free ob s then Some (fail_one lib reason k ob (s\<lparr>ds_svc := SvcFailing reason snap\<rparr>)) else None
      | _ \<Rightarrow> None)"
| "db_exec lib sha AClose s = (if ds_close s = CloseIdle then Some (db_server_close s) else None)"
| "db_exec lib sha ACloseSnapshot s =
     (case ds_close s of
        CloseSnapshot \<Rightarrow> let (snap, s) = fail_snapshot s in Some (s\<lparr>ds_close := CloseFailing snap\<rparr>)
      | _ \<Rightarrow> None)"
| "db_exec lib sha ACloseFailNext s =
     (case ds_close s of
        CloseFailing [] \<Rightarrow> Some (s\<lparr>ds_close := CloseDone\<rparr>)
      | CloseFailing ((k, ob) # snap) \<Rightarrow>
          if obj_free ob s then Some (fail_one lib ''server shutting down'' k ob (s\<lparr>ds_close := CloseFailing snap\<rparr>))
          else None
      | _ \<Rightarrow> None)"

text \<open>
  Runs of actions that a condition \<open>P\<close> allows, and the states reached from a new server.
\<close>

inductive db_run :: "bson_lib \<Rightarrow> (string \<Rightarrow> string) \<Rightarrow> (db_action \<Rightarrow> db_server \<Rightarrow> bool) \<Rightarrow> db_server \<Rightarrow> db_server \<Rightarrow> bool"
  for lib sha P s where
  run_refl: "db_run lib sha P s s"
| run_step: "db_run lib sha P s t \<Longrightarrow> P a t \<Longrightarrow> db_exec lib sha a t = Some u \<Longrightarrow> db_run lib sha P s u"

definition any_action :: "db_action \<Rightarrow> db_server \<Rightarrow> bool" where
  "any_action a s \<longleftrightarrow> True"

definition db_reachable :: "bson_lib \<Rightarrow> (string \<Rightarrow> string) \<Rightarrow> (db_action \<Rightarrow> db_server \<Rightarrow> bool) \<Rightarrow> db_server \<Rightarrow> bool" where
  "db_reachable lib sha P s \<longleftrightarrow> (\<exists>tls_mode inner_cfg. db_run lib sha P (new_db_server tls_mode inner_cfg) s)"

section \<open>A caller gets the response to its own request\<close>

definition response_for :: "bson_lib \<Rightarrow> u8 list \<Rightarrow> i32 \<Rightarrow> bool" where
  "response_for lib p k \<longleftrightarrow> (\<exists>rsp. parse_response lib p DbResponse = (True, rsp) \<and> rs_reqid rsp = k)"

text \<open>What a caller may get: an error under its own id, or bytes the agent sent that carry its id.\<close>

definition reply_ok :: "bson_lib \<Rightarrow> db_server \<Rightarrow> u8 list \<Rightarrow> i32 \<Rightarrow> bool" where
  "reply_ok lib s p k \<longleftrightarrow>
     (\<exists>msg. p = make_error_response lib k msg) \<or> (p \<in> set (ds_received s) \<and> response_for lib p k)"

definition request_id :: "bson_lib \<Rightarrow> u8 list \<Rightarrow> i32 \<Rightarrow> bool" where
  "request_id lib b k \<longleftrightarrow> (\<exists>req. parse_request lib b DbRequest = (True, req) \<and> rq_reqid req = k)"

definition returned_ok :: "bson_lib \<Rightarrow> db_server \<Rightarrow> u8 list \<Rightarrow> u8 list \<Rightarrow> bool" where
  "returned_ok lib s b out \<longleftrightarrow>
     (\<exists>k. request_id lib b k \<and> reply_ok lib s out k) \<or>
     (\<not> fst (parse_request lib b DbRequest) \<and> (\<exists>k msg. out = make_error_response lib k msg))"

lemma returned_error:
  "request_id lib b k \<or> \<not> fst (parse_request lib b DbRequest) \<Longrightarrow> returned_ok lib s b (make_error_response lib k msg)"
  by (auto simp: returned_ok_def reply_ok_def)

definition made_for :: "db_server \<Rightarrow> nat \<Rightarrow> i32 \<Rightarrow> bool" where
  "made_for s ob k \<longleftrightarrow> ob < ds_next s \<and> po_reqid (ds_objs s ob) = k"

fun caller_ok :: "bson_lib \<Rightarrow> db_server \<Rightarrow> caller \<Rightarrow> bool" where
  "caller_ok lib s (Entered b) \<longleftrightarrow> True"
| "caller_ok lib s (Checked b) \<longleftrightarrow> True"
| "caller_ok lib s (Registered b k ob) \<longleftrightarrow> made_for s ob k \<and> request_id lib b k"
| "caller_ok lib s (Waiting b k ob) \<longleftrightarrow> made_for s ob k \<and> request_id lib b k"
| "caller_ok lib s (SendFailed b k) \<longleftrightarrow> request_id lib b k"
| "caller_ok lib s (Leaving b k ob received) \<longleftrightarrow>
     made_for s ob k \<and> request_id lib b k \<and> (received \<longrightarrow> po_ready (ds_objs s ob))"
| "caller_ok lib s (Returned b out) \<longleftrightarrow> returned_ok lib s b out"

fun svc_snap :: "svc_phase \<Rightarrow> (i32 \<times> nat) list" where
  "svc_snap (SvcFailing reason snap) = snap"
| "svc_snap _ = []"

fun close_snap :: "close_phase \<Rightarrow> (i32 \<times> nat) list" where
  "close_snap (CloseFailing snap) = snap"
| "close_snap _ = []"

definition db_tags :: "db_server \<Rightarrow> (i32 \<times> nat) set" where
  "db_tags s = set (ds_pending s) \<union> set (svc_snap (ds_svc s)) \<union> set (close_snap (ds_close s))"

definition db_inv :: "bson_lib \<Rightarrow> db_server \<Rightarrow> bool" where
  "db_inv lib s \<longleftrightarrow>
     (\<forall>k ob. (k, ob) \<in> db_tags s \<longrightarrow> made_for s ob k) \<and>
     (\<forall>ob p. ds_svc s = SvcFound ob p \<longrightarrow> ob < ds_next s \<and> reply_ok lib s p (po_reqid (ds_objs s ob))) \<and>
     (\<forall>ob < ds_next s. po_ready (ds_objs s ob) \<longrightarrow> reply_ok lib s (po_response (ds_objs s ob)) (po_reqid (ds_objs s ob))) \<and>
     (\<forall>t c. um_find (ds_callers s) t = Some c \<longrightarrow> caller_ok lib s c)"

text \<open>Nothing is forgotten: what was received stays received, and an object keeps its id and its readiness.\<close>

definition db_ext :: "db_server \<Rightarrow> db_server \<Rightarrow> bool" where
  "db_ext s s' \<longleftrightarrow> set (ds_received s) \<subseteq> set (ds_received s') \<and> ds_next s \<le> ds_next s' \<and>
     (\<forall>ob < ds_next s. po_reqid (ds_objs s' ob) = po_reqid (ds_objs s ob) \<and>
        (po_ready (ds_objs s ob) \<longrightarrow> po_ready (ds_objs s' ob)))"

lemma db_ext_refl [simp]: "db_ext s s"
  by (simp add: db_ext_def)

lemma reply_ok_ext: "db_ext s s' \<Longrightarrow> reply_ok lib s p k \<Longrightarrow> reply_ok lib s' p k"
  by (auto simp: db_ext_def reply_ok_def)

lemma made_for_ext: "db_ext s s' \<Longrightarrow> made_for s ob k \<Longrightarrow> made_for s' ob k"
  by (auto simp: db_ext_def made_for_def)

lemma caller_ok_ext: "db_ext s s' \<Longrightarrow> caller_ok lib s c \<Longrightarrow> caller_ok lib s' c"
  by (cases c) (auto simp: made_for_ext returned_ok_def dest: reply_ok_ext, auto simp: db_ext_def made_for_def)

lemma um_set_put: "set (um_put k v m) \<subseteq> insert (k, v) (set m)"
  by (induction m) (auto simp: um_put_def)

lemma um_set_put_other: "(k, v) \<in> set (um_put k' v' m) \<Longrightarrow> (k, v) = (k', v') \<or> (k, v) \<in> set m"
  using um_set_put[of k' v' m] by blast

text \<open>It is enough to look at what an action changes.\<close>

lemma db_inv_step:
  assumes inv: "db_inv lib s" and ext: "db_ext s s'"
    and tags: "\<And>k ob. (k, ob) \<in> db_tags s' \<Longrightarrow> (k, ob) \<in> db_tags s \<or> made_for s' ob k"
    and found: "\<And>ob p. ds_svc s' = SvcFound ob p \<Longrightarrow>
      ds_svc s = SvcFound ob p \<or> ob < ds_next s' \<and> reply_ok lib s' p (po_reqid (ds_objs s' ob))"
    and objs: "\<And>ob. ob < ds_next s' \<Longrightarrow> po_ready (ds_objs s' ob) \<Longrightarrow>
      ob < ds_next s \<and> ds_objs s' ob = ds_objs s ob \<or>
      reply_ok lib s' (po_response (ds_objs s' ob)) (po_reqid (ds_objs s' ob))"
    and callers: "\<And>t c. um_find (ds_callers s') t = Some c \<Longrightarrow>
      um_find (ds_callers s) t = Some c \<or> caller_ok lib s' c"
  shows "db_inv lib s'"
  unfolding db_inv_def
proof (intro conjI allI impI)
  show "made_for s' ob k" if "(k, ob) \<in> db_tags s'" for k ob
    using tags[OF that] inv made_for_ext[OF ext] by (auto simp: db_inv_def)
  show "ob < ds_next s'" "reply_ok lib s' p (po_reqid (ds_objs s' ob))" if "ds_svc s' = SvcFound ob p" for ob p
    using found[OF that] inv reply_ok_ext[OF ext] ext by (auto simp: db_inv_def db_ext_def)
  show "reply_ok lib s' (po_response (ds_objs s' ob)) (po_reqid (ds_objs s' ob))"
    if "ob < ds_next s'" "po_ready (ds_objs s' ob)" for ob
    using objs[OF that] that inv reply_ok_ext[OF ext] by (auto simp: db_inv_def)
  show "caller_ok lib s' c" if "um_find (ds_callers s') t = Some c" for t c
    using callers[OF that] inv caller_ok_ext[OF ext] by (auto simp: db_inv_def)
qed

lemmas db_state_defs = set_caller_def set_obj_def send_wire_def db_tags_def db_ext_def made_for_def new_pending_def

lemma caller_ok_cong:
  assumes "ds_next s' = ds_next s" "ds_objs s' = ds_objs s" "ds_received s' = ds_received s"
  shows "caller_ok lib s' c = caller_ok lib s c"
  using assms by (cases c) (simp_all add: made_for_def returned_ok_def reply_ok_def)

lemma caller_ok_frame [simp]:
  "caller_ok lib (s\<lparr>ds_callers := cs\<rparr>) c = caller_ok lib s c" "caller_ok lib (s\<lparr>ds_pending := m\<rparr>) c = caller_ok lib s c"
  "caller_ok lib (s\<lparr>ds_wire := w\<rparr>) c = caller_ok lib s c"
  by (rule caller_ok_cong, simp, simp, simp)+

lemma inv_set_caller: "db_inv lib s \<Longrightarrow> caller_ok lib s c \<Longrightarrow> db_inv lib (set_caller t c s)"
  by (rule db_inv_step[of lib s]) (auto simp: db_state_defs split: if_splits)

lemma inv_erase: "db_inv lib s \<Longrightarrow> db_inv lib (s\<lparr>ds_pending := um_erase k (ds_pending s)\<rparr>)"
  by (rule db_inv_step[of lib s]) (auto simp: db_state_defs um_set_erase)

lemma inv_wire: "db_inv lib s \<Longrightarrow> db_inv lib (send_wire w s)"
  by (rule db_inv_step[of lib s]) (auto simp: db_state_defs)

text \<open>Changes of the flags and of the phases outside the two loops of \<^verbatim>\<open>fail_all_pending\<close>.\<close>

lemma inv_flags:
  assumes "db_inv lib s" and "ds_pending s' = ds_pending s" "ds_objs s' = ds_objs s" "ds_next s' = ds_next s"
    "ds_callers s' = ds_callers s" "ds_received s' = ds_received s"
    and "set (svc_snap (ds_svc s')) \<subseteq> set (svc_snap (ds_svc s))" "set (close_snap (ds_close s')) \<subseteq> set (close_snap (ds_close s))"
    and "\<And>ob p. ds_svc s' = SvcFound ob p \<Longrightarrow> ds_svc s = SvcFound ob p"
  shows "db_inv lib s'"
  using assms(2-) by (intro db_inv_step[OF assms(1)]) (auto simp: db_tags_def db_ext_def)

lemma inv_register:
  assumes "db_inv lib s"
  shows "db_inv lib (dispatch_register lib t b s)"
proof -
  obtain ok req where r: "parse_request lib b DbRequest = (ok, req)" by fastforce
  show ?thesis
  proof (cases ok)
    case True
    let ?k = "rq_reqid req" and ?ob = "ds_next s"
    let ?s = "set_obj ?ob (new_pending ?k) (s\<lparr>ds_pending := um_put ?k ?ob (ds_pending s), ds_next := ?ob + 1\<rparr>)"
    have "db_inv lib ?s"
      by (rule db_inv_step[OF assms])
        (use um_set_put_other[of _ _ ?k ?ob "ds_pending s"] assms in \<open>auto simp: db_state_defs db_inv_def\<close>)
    then have "db_inv lib (set_caller t (Registered b ?k ?ob) ?s)"
      using r True by (intro inv_set_caller) (auto simp: db_state_defs request_id_def)
    then show ?thesis using r True by (simp add: dispatch_register_def Let_def)
  next
    case False
    with r assms show ?thesis
      by (auto simp: dispatch_register_def intro!: inv_set_caller returned_error)
  qed
qed

lemma inv_received: "db_inv lib s \<Longrightarrow> db_inv lib (s\<lparr>ds_received := ds_received s @ [p]\<rparr>)"
  by (rule db_inv_step[of lib s]) (auto simp: db_state_defs)

lemma inv_plaintext:
  assumes "db_inv lib s" and "ds_svc s = SvcSession"
  shows "db_inv lib (session_plaintext lib p s)"
proof -
  let ?s = "s\<lparr>ds_received := ds_received s @ [p]\<rparr>"
  obtain ok rsp where r: "parse_response lib p DbResponse = (ok, rsp)" by fastforce
  have inv: "db_inv lib ?s" by (rule inv_received[OF assms(1)])
  have "db_inv lib (?s\<lparr>ds_svc := SvcFound ob p\<rparr>)" if ok and "um_find (ds_pending s) (rs_reqid rsp) = Some ob" for ob
  proof -
    have "made_for s ob (rs_reqid rsp)"
      using assms(1) map_of_SomeD[OF that(2)] by (auto simp: db_inv_def db_tags_def)
    then show ?thesis
      using r that(1) assms(2)
      by (intro db_inv_step[OF inv]) (auto simp: db_state_defs reply_ok_def response_for_def)
  qed
  then show ?thesis using inv r by (auto simp: session_plaintext_def Let_def split: option.split)
qed

text \<open>An object that becomes ready with an admissible response.\<close>

lemma inv_ready:
  assumes "db_inv lib s" and "ob < ds_next s"
    and "po_reqid q = po_reqid (ds_objs s ob)" "po_ready q" "reply_ok lib s (po_response q) (po_reqid q)"
  shows "db_inv lib (set_obj ob q s)"
  by (rule db_inv_step[OF assms(1)]) (use assms(2-) in \<open>auto simp: db_state_defs reply_ok_def\<close>)

lemma inv_fail_one:
  assumes "db_inv lib s" and "made_for s ob k"
  shows "db_inv lib (fail_one lib reason k ob s)"
  unfolding fail_one_def using assms by (intro inv_ready) (auto simp: made_for_def reply_ok_def)

lemma inv_deliver:
  assumes "db_inv lib s" and "ds_svc s = SvcFound ob p"
  shows "db_inv lib (session_deliver ob p s)"
  unfolding session_deliver_def
proof (rule inv_ready)
  show "db_inv lib (s\<lparr>ds_svc := SvcSession\<rparr>)" by (rule inv_flags[OF assms(1)]) auto
  show "ob < ds_next (s\<lparr>ds_svc := SvcSession\<rparr>)" using assms by (simp add: db_inv_def)
qed (use assms in \<open>auto simp: db_inv_def reply_ok_def\<close>)

lemma inv_snapshot:
  assumes "db_inv lib s"
  shows "db_inv lib (s\<lparr>ds_pending := [], ds_svc := SvcFailing reason (ds_pending s)\<rparr>)"
    and "db_inv lib (s\<lparr>ds_pending := [], ds_close := CloseFailing (ds_pending s)\<rparr>)"
  by (rule db_inv_step[OF assms], auto simp: db_state_defs)+

lemma inv_caller: "db_inv lib s \<Longrightarrow> um_find (ds_callers s) t = Some c \<Longrightarrow> caller_ok lib s c"
  by (auto simp: db_inv_def)

lemma inv_reply: "db_inv lib s \<Longrightarrow> made_for s ob k \<Longrightarrow> po_ready (ds_objs s ob) \<Longrightarrow> reply_ok lib s (po_response (ds_objs s ob)) k"
  by (auto simp: db_inv_def made_for_def)

lemma inv_dispatch:
  assumes inv: "db_inv lib s"
  shows "um_find (ds_callers s) t = Some (Entered b) \<Longrightarrow> db_inv lib (dispatch_check lib t b s)"
    and "um_find (ds_callers s) t = Some (Registered b r ob) \<Longrightarrow> db_inv lib (dispatch_send t b r ob ok s)"
    and "um_find (ds_callers s) t = Some (SendFailed b r) \<Longrightarrow> db_inv lib (dispatch_send_failed lib t b r s)"
    and "um_find (ds_callers s) t = Some (Leaving b r ob received) \<Longrightarrow> db_inv lib (dispatch_leave lib t b r ob received s)"
proof -
  show "db_inv lib (dispatch_check lib t b s)" if "um_find (ds_callers s) t = Some (Entered b)"
    by (auto simp: dispatch_check_def request_id_def split: prod.splits
        intro!: inv_set_caller[OF inv] returned_error)
  show "db_inv lib (dispatch_send t b r ob ok s)" if "um_find (ds_callers s) t = Some (Registered b r ob)"
    using inv_caller[OF inv that]
    by (auto simp: dispatch_send_def Let_def send_wire_def made_for_def
        intro!: inv_set_caller inv_wire[OF inv, unfolded send_wire_def] inv)
  show "db_inv lib (dispatch_send_failed lib t b r s)" if "um_find (ds_callers s) t = Some (SendFailed b r)"
    using inv_caller[OF inv that]
    by (auto simp: dispatch_send_failed_def intro!: inv_set_caller inv_erase[OF inv] returned_error)
  show "db_inv lib (dispatch_leave lib t b r ob received s)"
    if "um_find (ds_callers s) t = Some (Leaving b r ob received)"
  proof -
    have c: "made_for s ob r" "request_id lib b r" "received \<longrightarrow> po_ready (ds_objs s ob)"
      using inv_caller[OF inv that] by auto
    then have "caller_ok lib s (Returned b (if received then po_response (ds_objs s ob) else
        make_error_response lib r ''dispatch timeout''))"
      using inv_reply[OF inv c(1)] by (auto simp: returned_ok_def reply_ok_def)
    then show ?thesis unfolding dispatch_leave_def by (intro inv_set_caller inv_erase[OF inv]) (simp del: caller_ok.simps)
  qed
qed

lemma inv_session:
  assumes inv: "db_inv lib s" and "ds_svc s = SvcSession"
  shows "db_inv lib (session_recv_tls lib r s)" and "session_recv_raw lib q s = Some s' \<Longrightarrow> db_inv lib s'"
  using inv_plaintext[OF assms] inv inv_wire[OF inv] inv_flags[OF inv, of "s\<lparr>ds_svc := SvcCleanup\<rparr>"]
  by (auto simp: session_recv_tls_def session_recv_raw_def split: option.splits recv_result.splits if_splits)

lemma inv_connection:
  assumes inv: "db_inv lib s"
  shows "db_inv lib (snd (db_on_agent_connected h s))"
    and "ds_svc s = SvcIdle \<Longrightarrow> db_inv lib (svc_accept sha h inp sent s)"
    and "ds_svc s = SvcSetup \<Longrightarrow> db_inv lib (setup_inner_tls made s)"
    and "ds_svc s = SvcAccepting \<Longrightarrow> db_inv lib (inner_tls_accepted ok s)"
    and "ds_svc s = SvcCleanup \<Longrightarrow> db_inv lib (session_cleanup s)"
    and "ds_close s = CloseIdle \<Longrightarrow> db_inv lib (db_server_close s)"
  by (rule inv_flags[OF inv];
      auto simp: db_on_agent_connected_def svc_accept_def setup_inner_tls_def inner_tls_accepted_def session_cleanup_def
        svc_setup_failed_def db_server_close_def send_wire_def split: option.splits if_splits)+

lemma inv_failing:
  assumes inv: "db_inv lib s"
  shows "ds_svc s = SvcFailing reason ((k, ob) # snap) \<Longrightarrow> db_inv lib (fail_one lib reason k ob (s\<lparr>ds_svc := SvcFailing reason snap\<rparr>))"
    and "ds_close s = CloseFailing ((k, ob) # snap) \<Longrightarrow> db_inv lib (fail_one lib msg k ob (s\<lparr>ds_close := CloseFailing snap\<rparr>))"
proof -
  have tag: "made_for s ob k" if "(k, ob) \<in> db_tags s" using inv that by (auto simp: db_inv_def)
  show "db_inv lib (fail_one lib reason k ob (s\<lparr>ds_svc := SvcFailing reason snap\<rparr>))"
    if "ds_svc s = SvcFailing reason ((k, ob) # snap)"
    by (rule inv_fail_one, rule inv_flags[OF inv]) (use that tag in \<open>auto simp: db_tags_def made_for_def\<close>)
  show "db_inv lib (fail_one lib msg k ob (s\<lparr>ds_close := CloseFailing snap\<rparr>))"
    if "ds_close s = CloseFailing ((k, ob) # snap)"
    by (rule inv_fail_one, rule inv_flags[OF inv]) (use that tag in \<open>auto simp: db_tags_def made_for_def\<close>)
qed

lemma db_inv_exec:
  assumes "db_inv lib s" and "db_exec lib sha a s = Some s'"
  shows "db_inv lib s'"
  using assms inv_caller[OF assms(1)]
  by (cases a)
    (fastforce split: option.splits caller.splits svc_phase.splits close_phase.splits if_splits list.splits prod.splits
      simp: fail_snapshot_def
      intro: inv_set_caller inv_dispatch inv_register inv_session inv_connection inv_failing inv_deliver inv_snapshot
        inv_flags[OF assms(1)])+

lemma db_inv_new: "db_inv lib (new_db_server m c)"
  by (simp add: db_inv_def db_tags_def new_db_server_def)

lemma db_reachable_inv: "db_reachable lib sha P s \<Longrightarrow> db_inv lib s"
  unfolding db_reachable_def
  by (elim exE, erule db_run.induct) (auto intro: db_inv_new db_inv_exec)

lemma db_returned:
  assumes "db_reachable lib sha P s" and "um_find (ds_callers s) t = Some (Returned b out)"
    and "parse_request lib b DbRequest = (True, req)"
  shows "(\<exists>msg. out = make_error_response lib (rq_reqid req) msg) \<or>
    (out \<in> set (ds_received s) \<and> response_for lib out (rq_reqid req))"
  using inv_caller[OF db_reachable_inv[OF assms(1)] assms(2)] assms(3)
  by (auto simp: returned_ok_def request_id_def reply_ok_def)

end
