(* ===== verification/Db_Link.thy ===== *)
theory Db_Link
  imports Db_Proxy Db_Server
begin

text \<open>
  The two ends of the database connection put together: the proxy of the cloud, its server and the agent.
  A call by a single caller is one schedule of the system: the caller checks, registers and sends, the
  agent answers, the server's thread hands the answer over and the caller wakes.  It is the schedule of an undisturbed
  call: one caller, the inner TLS session up, every transport write and read complete and no time-out.  All
  the interleavings, of several callers, of failing sends, of time-outs and of closes, are the runs of \<^verbatim>\<open>db_exec\<close> in
  \<^verbatim>\<open>Db_Server\<close>.  The schedule implements the
  contract \<^verbatim>\<open>db_dispatcher\<close>.
\<close>

record db_link = db_proxy +
  lk_server :: db_server

fun run_actions :: "bson_lib \<Rightarrow> (string \<Rightarrow> string) \<Rightarrow> db_action list \<Rightarrow> db_server \<Rightarrow> db_server option" where
  "run_actions lib sha [] s = Some s"
| "run_actions lib sha (a # as) s =
     (case db_exec lib sha a s of None \<Rightarrow> None | Some s' \<Rightarrow> run_actions lib sha as s')"

text \<open>\<^verbatim>\<open>IWsDispatcher::is_connected\<close> and \<^verbatim>\<open>WsMongodbProxy::is_remote_disconnected\<close>.\<close>

definition proxy_is_remote_disconnected :: "'a db_link_scheme \<Rightarrow> bool" where
  "proxy_is_remote_disconnected s \<longleftrightarrow> \<not> ds_connected (lk_server s)"

definition remote_dispatch ::
    "service_env \<Rightarrow> bson_lib \<Rightarrow> (cpp_exn \<Rightarrow> string) \<Rightarrow> (string \<Rightarrow> string) \<Rightarrow> u8 list
      \<Rightarrow> ('a db_link_scheme, u8 list) effect" where
  "remote_dispatch env lib what sha b s =
     (case run_actions lib sha [ACall 0 b, ACheck 0] (lk_server s) of
        None \<Rightarrow> (Hangs, s)
      | Some srv \<Rightarrow>
          (case um_find (ds_callers srv) 0 of
             Some (Returned b' out) \<Rightarrow> (Done out, s\<lparr>lk_server := srv\<rparr>)
           | _ \<Rightarrow>
               (case run_actions lib sha [ARegister 0, ASend 0 True] srv of
                  None \<Rightarrow> (Hangs, s)
                | Some srv \<Rightarrow>
                    eff_bind (agent_session env lib what [InnerRecv b True]) (\<lambda>over s.
                      case last (ag_sent s) of
                        AgResponse rsp \<Rightarrow>
                          (case run_actions lib sha [ARecvTls (Some rsp), ADeliver, AWake 0, ALeave 0] srv of
                             None \<Rightarrow> (Hangs, s)
                           | Some srv \<Rightarrow>
                               (case um_find (ds_callers srv) 0 of
                                  Some (Returned b' out) \<Rightarrow> (Done out, s\<lparr>lk_server := srv\<rparr>)
                                | _ \<Rightarrow> (Hangs, s)))
                      | _ \<Rightarrow> (Hangs, s)) s)))"

fun has_returned :: "caller \<Rightarrow> bool" where
  "has_returned (Returned b out) = True"
| "has_returned _ = False"

definition all_returned :: "db_server \<Rightarrow> bool" where
  "all_returned srv \<longleftrightarrow> list_all (\<lambda>(t, c). has_returned c) (ds_callers srv)"

definition server_up :: "db_server \<Rightarrow> bool" where
  "server_up srv \<longleftrightarrow> ds_connected srv \<and> ds_svc srv = SvcSession \<and> ds_inner srv \<and> ds_inner_ready srv \<and> all_returned srv"

definition server_down :: "db_server \<Rightarrow> bool" where
  "server_down srv \<longleftrightarrow> \<not> ds_connected srv \<and> all_returned srv"

section \<open>The schedule\<close>

lemma list_all_um_put: "P (k, v) \<Longrightarrow> list_all P m \<Longrightarrow> list_all P (um_put k v m)"
  by (induction m) (auto simp: um_put_def)

lemma has_returnedE: "has_returned c \<Longrightarrow> \<exists>b out. c = Returned b out"
  by (cases c) simp_all

lemma all_returned_find:
  "all_returned srv \<Longrightarrow> um_find (ds_callers srv) t = None \<or> (\<exists>b out. um_find (ds_callers srv) t = Some (Returned b out))"
  by (cases "um_find (ds_callers srv) t")
    (auto simp: all_returned_def list_all_iff dest!: map_of_SomeD dest: has_returnedE bspec)

lemma call_enabled:
  assumes "all_returned srv"
  shows "db_exec lib sha (ACall 0 b) srv = Some (set_caller 0 (Entered b) srv)"
  using all_returned_find[OF assms, of 0] by auto

lemma free_put:
  assumes "all_returned srv" and "\<not> holds_obj ob c"
  shows "list_all (\<lambda>(t, c). \<not> holds_obj ob c) (um_put t c (ds_callers srv))"
proof (rule list_all_um_put)
  show "list_all (\<lambda>(t, c). \<not> holds_obj ob c) (ds_callers srv)"
    using assms(1) unfolding all_returned_def by (rule list.pred_mono_strong) (auto elim: has_returned.elims)
qed (simp add: assms(2))

lemma um_put_put: "um_put k v (um_put k w m) = um_put k v m"
  by (induction m) (auto simp: um_put_def)

lemma schedule_refused:
  assumes "server_down srv" and "parse_request lib b DbRequest = (True, r)"
  shows "\<exists>srv'. run_actions lib sha [ACall 0 b, ACheck 0] srv = Some srv' \<and> server_down srv' \<and>
    um_find (ds_callers srv') 0 = Some (Returned b (make_error_response lib (rq_reqid r) ''no agent connected''))"
  using assms
  by (auto simp: server_down_def call_enabled dispatch_check_def set_caller_def all_returned_def um_put_put
      simp del: db_exec.simps(1) intro!: list_all_um_put)

lemma schedule_answered:
  assumes up: "server_up srv" and req: "parse_request lib b DbRequest = (True, r)"
    and rsp: "parse_response lib rsp DbResponse = (True, q)" "rs_reqid q = rq_reqid r" "rsp \<noteq> []"
  shows "\<exists>srv1 srv2 srv3. run_actions lib sha [ACall 0 b, ACheck 0] srv = Some srv1 \<and>
    um_find (ds_callers srv1) 0 = Some (Checked b) \<and>
    run_actions lib sha [ARegister 0, ASend 0 True] srv1 = Some srv2 \<and>
    run_actions lib sha [ARecvTls (Some rsp), ADeliver, AWake 0, ALeave 0] srv2 = Some srv3 \<and>
    um_find (ds_callers srv3) 0 = Some (Returned b rsp) \<and> server_up srv3"
proof -
  let ?k = "rq_reqid r" and ?ob = "ds_next srv"
  let ?srv1 = "srv\<lparr>ds_callers := um_put 0 (Checked b) (ds_callers srv)\<rparr>"
  let ?srv2 = "srv\<lparr>ds_callers := um_put 0 (Waiting b ?k ?ob) (ds_callers srv), ds_wire := ds_wire srv @ [CipherSent b],
    ds_pending := um_put ?k ?ob (ds_pending srv), ds_next := ?ob + 1, ds_objs := (ds_objs srv)(?ob := new_pending ?k)\<rparr>"
  have free: "list_all (\<lambda>(t, c). \<not> holds_obj ?ob c) (um_put 0 (Waiting b ?k ?ob) (ds_callers srv))"
    using up by (intro free_put) (simp_all add: server_up_def)
  have 1: "run_actions lib sha [ACall 0 b, ACheck 0] srv = Some ?srv1"
    using up by (simp add: call_enabled server_up_def dispatch_check_def set_caller_def um_put_put del: db_exec.simps(1))
  have 2: "run_actions lib sha [ARegister 0, ASend 0 True] ?srv1 = Some ?srv2"
    using up req
    by (simp add: server_up_def dispatch_register_def dispatch_send_def Let_def set_caller_def set_obj_def send_wire_def um_put_put)
  have 3: "\<exists>srv3. run_actions lib sha [ARecvTls (Some rsp), ADeliver, AWake 0, ALeave 0] ?srv2 = Some srv3 \<and>
      um_find (ds_callers srv3) 0 = Some (Returned b rsp) \<and> server_up srv3"
    using up rsp free
    by (auto simp: server_up_def session_recv_tls_def session_plaintext_def Let_def session_deliver_def set_obj_def obj_free_def
        set_caller_def dispatch_leave_def um_put_put new_pending_def all_returned_def intro!: list_all_um_put)
  have "um_find (ds_callers ?srv1) 0 = Some (Checked b)" by simp
  with 1 2 3 show ?thesis by blast
qed

section \<open>The contract\<close>

definition link_rest :: "'a db_link_scheme \<Rightarrow> agent_sent list \<times> i32 \<times> db_server" where
  "link_rest s = (ag_sent s, px_reqid s, lk_server s)"

lemma link_rest_dispatch: "eff_keeps link_rest (agent_dispatch env lib what req)"
  by (rule agent_dispatch_keeps) (simp add: link_rest_def)

lemma remote_answers:
  fixes s :: "'a db_link_scheme"
  assumes laws: "bson_laws lib" and up: "server_up (lk_server s)" and req: "parse_request lib b DbRequest = (True, r)"
    and ag: "agent_dispatch env lib what r s = (Done out, t)"
  shows "\<exists>s'. remote_dispatch env lib what sha b s = (Done out, s') \<and> server_up (lk_server s') \<and>
    db_log s' = db_log t \<and> px_reqid s' = px_reqid s"
proof -
  obtain rsp where rsp: "out = build_response lib rsp" "rs_reqid rsp = rq_reqid r"
    using agent_dispatch_reqid[OF ag] by blast
  have out: "parse_response lib out DbResponse = (True, rsp)" "out \<noteq> []"
    using laws by (simp_all add: rsp(1) parse_build_response) (simp add: build_response_def)
  have rest: "link_rest t = link_rest s" using eff_keepsD[OF link_rest_dispatch ag] .
  have b: "b \<noteq> []" using req by (auto simp: parse_request_def)
  have ses: "agent_session env lib what [InnerRecv b True] s = (Done False, t\<lparr>ag_sent := ag_sent t @ [AgResponse out]\<rparr>)"
    using b req ag by (simp add: agent_send_def)
  from schedule_answered[OF up req out(1) rsp(2) out(2), of sha]
  obtain srv1 srv2 srv3 where "run_actions lib sha [ACall 0 b, ACheck 0] (lk_server s) = Some srv1"
    "um_find (ds_callers srv1) 0 = Some (Checked b)"
    "run_actions lib sha [ARegister 0, ASend 0 True] srv1 = Some srv2"
    "run_actions lib sha [ARecvTls (Some out), ADeliver, AWake 0, ALeave 0] srv2 = Some srv3"
    "um_find (ds_callers srv3) 0 = Some (Returned b out)" "server_up srv3" by blast
  then have "remote_dispatch env lib what sha b s = (Done out, t\<lparr>ag_sent := ag_sent t @ [AgResponse out], lk_server := srv3\<rparr>)"
    by (simp add: remote_dispatch_def eff_bind_def ses del: run_actions.simps agent_session.simps)
  with \<open>server_up srv3\<close> rest show ?thesis by (simp add: link_rest_def)
qed

lemma remote_refuses:
  fixes s :: "'a db_link_scheme"
  assumes "server_down (lk_server s)" and "parse_request lib b DbRequest = (True, r)"
  shows "\<exists>s'. remote_dispatch env lib what sha b s = (Done (make_error_response lib (rq_reqid r) ''no agent connected''), s') \<and>
    server_down (lk_server s') \<and> db_log s' = db_log s \<and> px_reqid s' = px_reqid s"
  using schedule_refused[OF assms, of sha]
  by (auto simp: remote_dispatch_def simp del: run_actions.simps)

interpretation remote: db_dispatcher env lib what "remote_dispatch env lib what sha"
  "\<lambda>s :: 'a db_link_scheme. server_up (lk_server s)" "\<lambda>s. server_down (lk_server s)" for env lib what sha
  by unfold_locales (auto intro: remote_answers remote_refuses)

end
