(* ===== verification/Db_Waiters.thy ===== *)
theory Db_Waiters
  imports Db_Server
begin

text \<open>
  Waiting callers of \<^verbatim>\<open>WsDbServer\<close>: in every interleaving the object of a caller that waits is ready, or in the
  table of the pending requests, or in the hands of a thread that is about to make it ready.  When the agent
  goes away, every caller that waits at that moment is woken.
\<close>

section \<open>No caller is forgotten\<close>

fun live_id :: "caller \<Rightarrow> i32 option" where
  "live_id (Registered b k ob) = Some k"
| "live_id (Waiting b k ob) = Some k"
| "live_id (SendFailed b k) = Some k"
| "live_id (Leaving b k ob received) = Some k"
| "live_id _ = None"

fun live_obj :: "caller \<Rightarrow> nat option" where
  "live_obj (Registered b k ob) = Some ob"
| "live_obj (Waiting b k ob) = Some ob"
| "live_obj (Leaving b k ob received) = Some ob"
| "live_obj _ = None"

text \<open>
  The condition on a run: no caller registers an id that another caller is using.  The ids come from one
  counter, so it holds as long as no call outlives four thousand million others.
\<close>

fun fresh_ids :: "bson_lib \<Rightarrow> db_action \<Rightarrow> db_server \<Rightarrow> bool" where
  "fresh_ids lib (ARegister t) s \<longleftrightarrow>
     (case um_find (ds_callers s) t of
        Some (Checked b) \<Rightarrow>
          list_all (\<lambda>(t', c). live_id c \<noteq> Some (rq_reqid (snd (parse_request lib b DbRequest)))) (ds_callers s)
      | _ \<Rightarrow> True)"
| "fresh_ids lib _ s \<longleftrightarrow> True"

text \<open>The object of a caller is ready, or somebody who will make it ready has it.\<close>

definition looked_after :: "db_server \<Rightarrow> i32 \<Rightarrow> nat \<Rightarrow> bool" where
  "looked_after s k ob \<longleftrightarrow>
     po_ready (ds_objs s ob) \<or> um_find (ds_pending s) k = Some ob \<or> (\<exists>p. ds_svc s = SvcFound ob p) \<or>
     (k, ob) \<in> set (svc_snap (ds_svc s)) \<or> (k, ob) \<in> set (close_snap (ds_close s))"

lemma looked_after_set_caller: "looked_after (set_caller t c s) k ob = looked_after s k ob"
  by (simp add: looked_after_def set_caller_def)

lemma find_set_caller:
  "um_find (ds_callers (set_caller t c s)) t' = (if t' = t then Some c else um_find (ds_callers s) t')"
  by (simp add: set_caller_def)

definition own_ids :: "db_server \<Rightarrow> bool" where
  "own_ids s \<longleftrightarrow>
     (\<forall>t t' c c'. um_find (ds_callers s) t = Some c \<longrightarrow> um_find (ds_callers s) t' = Some c' \<longrightarrow>
        (live_id c \<noteq> None \<and> live_id c = live_id c' \<or> live_obj c \<noteq> None \<and> live_obj c = live_obj c') \<longrightarrow> t = t')"

definition wait_inv :: "db_server \<Rightarrow> bool" where
  "wait_inv s \<longleftrightarrow> own_ids s \<and>
     (\<forall>t b k ob. um_find (ds_callers s) t = Some (Registered b k ob) \<or> um_find (ds_callers s) t = Some (Waiting b k ob) \<longrightarrow>
        looked_after s k ob)"

text \<open>A caller that goes on with the id and the object it has, or with none.\<close>

lemma own_ids_set_caller:
  assumes "own_ids s" and "um_find (ds_callers s) t = Some c0"
    and "live_id c = None \<or> live_id c = live_id c0" and "live_obj c = None \<or> live_obj c = live_obj c0"
    and "ds_callers s' = um_put t c (ds_callers s)"
  shows "own_ids s'"
  using assms unfolding own_ids_def by (auto split: if_splits) (metis+)

lemma wait_invI:
  assumes "own_ids s'"
    and "\<And>t b k ob. um_find (ds_callers s') t = Some (Registered b k ob) \<Longrightarrow> looked_after s' k ob"
    and "\<And>t b k ob. um_find (ds_callers s') t = Some (Waiting b k ob) \<Longrightarrow> looked_after s' k ob"
  shows "wait_inv s'"
  using assms by (auto simp: wait_inv_def)

lemma wait_invD:
  assumes "wait_inv s"
  shows "own_ids s" and "um_find (ds_callers s) t = Some (Registered b k ob) \<Longrightarrow> looked_after s k ob"
    and "um_find (ds_callers s) t = Some (Waiting b k ob) \<Longrightarrow> looked_after s k ob"
  using assms by (auto simp: wait_inv_def)

text \<open>Actions that do not touch the callers.\<close>

lemma wait_frame:
  assumes "wait_inv s" and "ds_callers s' = ds_callers s" and "\<And>k ob. looked_after s k ob \<Longrightarrow> looked_after s' k ob"
  shows "wait_inv s'"
  using assms(2,3) wait_invD[OF assms(1)] by (intro wait_invI) (auto simp: own_ids_def)

text \<open>A step of a caller that keeps its id and object, and may strike its id from the table when it is done.\<close>

lemma wait_caller:
  assumes inv: "wait_inv s" and c0: "um_find (ds_callers s) t = Some c0"
    and live: "live_id c = None \<or> live_id c = live_id c0" "live_obj c = None \<or> live_obj c = live_obj c0"
    and wait: "\<And>b k ob. c = Waiting b k ob \<Longrightarrow> c0 = Registered b k ob" "\<And>b k ob. c \<noteq> Registered b k ob"
    and s': "ds_callers s' = um_put t c (ds_callers s)" "ds_objs s' = ds_objs s" "ds_svc s' = ds_svc s" "ds_close s' = ds_close s"
    and pend: "ds_pending s' = ds_pending s \<or> live_id c = None \<and> (\<exists>k. live_id c0 = Some k \<and> ds_pending s' = um_erase k (ds_pending s))"
  shows "wait_inv s'"
proof (rule wait_invI)
  show "own_ids s'" by (rule own_ids_set_caller[OF wait_invD(1)[OF inv] c0 live s'(1)])
  have other: "looked_after s' k ob"
    if "um_find (ds_callers s) t' = Some c'" "live_id c' = Some k" "t' \<noteq> t" "looked_after s k ob" for t' c' k ob
  proof -
    have "live_id c0 \<noteq> Some k" using wait_invD(1)[OF inv] c0 that by (auto simp: own_ids_def)
    then have "um_find (ds_pending s') k = um_find (ds_pending s) k" using pend by auto
    with that(4) show ?thesis by (simp add: looked_after_def s')
  qed
  have self: "looked_after s' k ob" if "c = Waiting b k ob" for b k ob
    using wait_invD(2)[OF inv] c0 wait(1)[OF that] pend that by (auto simp: looked_after_def s')
  show "looked_after s' k ob" if "um_find (ds_callers s') t' = Some (Registered b k ob)" for t' b k ob
    using that other[of t'] wait(2) wait_invD(2)[OF inv] by (auto simp: s'(1) split: if_splits)
  show "looked_after s' k ob" if "um_find (ds_callers s') t' = Some (Waiting b k ob)" for t' b k ob
    using that other[of t'] self wait_invD(3)[OF inv] by (auto simp: s'(1) split: if_splits)
qed

lemma wait_call:
  assumes inv: "wait_inv s" and c: "live_id c = None" "live_obj c = None"
  shows "wait_inv (set_caller t c s)"
proof (rule wait_invI)
  show "own_ids (set_caller t c s)"
    using wait_invD(1)[OF inv] c by (auto simp: own_ids_def set_caller_def split: if_splits) (metis+)
qed (use c wait_invD[OF inv] in \<open>auto simp: set_caller_def looked_after_def split: if_splits\<close>)

lemma live_obj_old: "db_inv lib s \<Longrightarrow> um_find (ds_callers s) t = Some c \<Longrightarrow> live_obj c = Some ob \<Longrightarrow> ob < ds_next s"
  using inv_caller[of lib s t c] by (cases c) (auto simp: made_for_def)

lemma wait_register:
  assumes inv: "wait_inv s" and db: "db_inv lib s" and c: "um_find (ds_callers s) t = Some (Checked b)"
    and fresh: "fresh_ids lib (ARegister t) s"
  shows "wait_inv (dispatch_register lib t b s)"
proof -
  obtain ok req where r: "parse_request lib b DbRequest = (ok, req)" by fastforce
  let ?k = "rq_reqid req" and ?ob = "ds_next s"
  let ?s = "set_obj ?ob (new_pending ?k) (s\<lparr>ds_pending := um_put ?k ?ob (ds_pending s), ds_next := ?ob + 1\<rparr>)"
  have new_id: "live_id c' \<noteq> Some ?k" if "um_find (ds_callers s) t' = Some c'" for t' c'
    using fresh c r map_of_SomeD[OF that] by (auto simp: list_all_iff)
  have new_obj: "live_obj c' \<noteq> Some ?ob" if "um_find (ds_callers s) t' = Some c'" for t' c'
    using live_obj_old[OF db that] by auto
  have old: "looked_after ?s k ob"
    if "looked_after s k ob" "um_find (ds_callers s) t' = Some c'" "live_id c' = Some k" "live_obj c' = Some ob" for t' c' k ob
    using that new_id[OF that(2)] new_obj[OF that(2)] by (auto simp: looked_after_def db_state_defs)
  have "wait_inv (set_caller t (Registered b ?k ?ob) ?s)"
  proof (rule wait_invI)
    show "own_ids (set_caller t (Registered b ?k ?ob) ?s)"
      using wait_invD(1)[OF inv] new_id new_obj
      by (auto simp: own_ids_def db_state_defs split: if_splits) (metis option.distinct(1))+
    have new: "looked_after ?s ?k ?ob" by (simp add: looked_after_def db_state_defs)
    have cs: "ds_callers ?s = ds_callers s" by (simp add: set_obj_def)
    show "looked_after (set_caller t (Registered b ?k ?ob) ?s) k ob"
      if "um_find (ds_callers (set_caller t (Registered b ?k ?ob) ?s)) t' = Some (Registered b' k ob)" for t' b' k ob
      using that new old[OF wait_invD(2)[OF inv, of t' b'], of k ob t']
      by (auto simp only: looked_after_set_caller find_set_caller cs live_id.simps live_obj.simps caller.inject option.inject
          split: if_splits)
    show "looked_after (set_caller t (Registered b ?k ?ob) ?s) k ob"
      if "um_find (ds_callers (set_caller t (Registered b ?k ?ob) ?s)) t' = Some (Waiting b' k ob)" for t' b' k ob
      using that old[OF wait_invD(3)[OF inv, of t' b'], of k ob t']
      by (auto simp only: looked_after_set_caller find_set_caller cs live_id.simps live_obj.simps caller.inject option.inject
          caller.distinct split: if_splits)
  qed
  then show ?thesis using r wait_call[OF inv] by (auto simp: dispatch_register_def Let_def)
qed

lemma wait_dispatch:
  assumes inv: "wait_inv s"
  shows "um_find (ds_callers s) t = Some (Entered b) \<Longrightarrow> wait_inv (dispatch_check lib t b s)"
    and "um_find (ds_callers s) t = Some (Registered b r ob) \<Longrightarrow> wait_inv (dispatch_send t b r ob ok s)"
    and "um_find (ds_callers s) t = Some (SendFailed b r) \<Longrightarrow> wait_inv (dispatch_send_failed lib t b r s)"
    and "um_find (ds_callers s) t = Some (Leaving b r ob received) \<Longrightarrow> wait_inv (dispatch_leave lib t b r ob received s)"
    and "um_find (ds_callers s) t = Some (Waiting b r ob) \<Longrightarrow> wait_inv (set_caller t (Leaving b r ob received) s)"
proof -
  show "wait_inv (dispatch_check lib t b s)" if "um_find (ds_callers s) t = Some (Entered b)"
    by (auto simp: dispatch_check_def split: prod.splits intro!: wait_call[OF inv])
  show "wait_inv (dispatch_send t b r ob ok s)" if "um_find (ds_callers s) t = Some (Registered b r ob)"
    by (rule wait_caller[OF inv that, of "if (if ds_inner s then ds_inner_ready s \<and> ok else ok) then Waiting b r ob else SendFailed b r"])
      (auto simp: dispatch_send_def Let_def send_wire_def set_caller_def split: if_splits)
  show "wait_inv (dispatch_send_failed lib t b r s)" if "um_find (ds_callers s) t = Some (SendFailed b r)"
    by (rule wait_caller[OF inv that, of "Returned b (make_error_response lib r ''send failed'')"])
      (auto simp: dispatch_send_failed_def set_caller_def)
  show "wait_inv (dispatch_leave lib t b r ob received s)" if "um_find (ds_callers s) t = Some (Leaving b r ob received)"
    by (rule wait_caller[OF inv that, of "Returned b (if received then po_response (ds_objs s ob) else
        make_error_response lib r ''dispatch timeout'')"])
      (auto simp: dispatch_leave_def set_caller_def)
  show "wait_inv (set_caller t (Leaving b r ob received) s)" if "um_find (ds_callers s) t = Some (Waiting b r ob)"
    by (rule wait_caller[OF inv that]) (auto simp: set_caller_def)
qed

lemma wait_flags:
  assumes "wait_inv s" and "ds_callers s' = ds_callers s" "ds_pending s' = ds_pending s" "ds_objs s' = ds_objs s"
    and "svc_snap (ds_svc s) = []" "\<And>ob p. ds_svc s \<noteq> SvcFound ob p" "close_snap (ds_close s') = close_snap (ds_close s)"
  shows "wait_inv s'"
  by (rule wait_frame[OF assms(1,2)]) (use assms(3-) in \<open>auto simp: looked_after_def\<close>)

lemma wait_session:
  assumes inv: "wait_inv s" and svc: "ds_svc s = SvcSession"
  shows "wait_inv (session_recv_tls lib r s)" and "session_recv_raw lib q s = Some s' \<Longrightarrow> wait_inv s'"
proof -
  have p: "wait_inv (session_plaintext lib p s)" for p
    using svc by (intro wait_flags[OF inv]) (auto simp: session_plaintext_def Let_def split: prod.splits option.splits)
  show "wait_inv (session_recv_tls lib r s)"
    using inv p svc by (auto simp: session_recv_tls_def intro!: wait_flags[OF inv] split: option.splits)
  show "wait_inv s'" if "session_recv_raw lib q s = Some s'"
    using that inv p svc wait_flags[OF inv, of "s\<lparr>ds_svc := SvcCleanup\<rparr>"] wait_flags[OF inv, of "send_wire w s" for w]
    by (auto simp: session_recv_raw_def send_wire_def split: recv_result.splits if_splits)
qed

lemma wait_connection:
  assumes inv: "wait_inv s"
  shows "ds_svc s = SvcIdle \<Longrightarrow> wait_inv (svc_accept sha h inp sent s)"
    and "ds_svc s = SvcSetup \<Longrightarrow> wait_inv (setup_inner_tls made s)"
    and "ds_svc s = SvcAccepting \<Longrightarrow> wait_inv (inner_tls_accepted ok s)"
    and "ds_svc s = SvcCleanup \<Longrightarrow> wait_inv (session_cleanup s)"
  by (rule wait_flags[OF inv];
      auto simp: svc_accept_def setup_inner_tls_def inner_tls_accepted_def session_cleanup_def
        svc_setup_failed_def send_wire_def split: option.splits if_splits)+

lemma wait_others:
  assumes inv: "wait_inv s"
  shows "wait_inv (snd (db_on_agent_connected h s))"
    and "ds_close s = CloseIdle \<Longrightarrow> wait_inv (db_server_close s)"
    and "ds_close s = CloseFailing [] \<Longrightarrow> wait_inv (s\<lparr>ds_close := CloseDone\<rparr>)"
    and "ds_svc s = SvcFound ob p \<Longrightarrow> wait_inv (session_deliver ob p s)"
    and "ds_svc s = SvcSnapshot reason \<Longrightarrow> wait_inv (s\<lparr>ds_pending := [], ds_svc := SvcFailing reason (ds_pending s)\<rparr>)"
    and "ds_close s = CloseSnapshot \<Longrightarrow> wait_inv (s\<lparr>ds_pending := [], ds_close := CloseFailing (ds_pending s)\<rparr>)"
    and "ds_svc s = SvcFailing reason ((k, ob) # snap) \<Longrightarrow> wait_inv (fail_one lib reason k ob (s\<lparr>ds_svc := SvcFailing reason snap\<rparr>))"
    and "ds_close s = CloseFailing ((k, ob) # snap) \<Longrightarrow> wait_inv (fail_one lib msg k ob (s\<lparr>ds_close := CloseFailing snap\<rparr>))"
  by (rule wait_frame[OF inv];
      auto simp: looked_after_def db_on_agent_connected_def send_wire_def db_server_close_def session_deliver_def set_obj_def
        fail_one_def dest: map_of_SomeD split: if_splits)+

lemma wait_inv_exec:
  assumes inv: "wait_inv s" and "db_inv lib s" and "fresh_ids lib a s" and "db_exec lib sha a s = Some s'"
  shows "wait_inv s'"
  using assms(2-)
  by (cases a)
    (fastforce split: option.splits caller.splits svc_phase.splits close_phase.splits if_splits list.splits prod.splits
      simp: fail_snapshot_def
      intro: wait_call[OF inv] wait_dispatch[OF inv] wait_register[OF inv] wait_session[OF inv] wait_connection[OF inv]
        wait_others[OF inv] wait_flags[OF inv])+

lemma wait_inv_new: "wait_inv (new_db_server m c)"
  by (simp add: wait_inv_def own_ids_def new_db_server_def)

lemma db_run_wait_inv:
  assumes "db_run lib sha (fresh_ids lib) s s'" and "wait_inv s" and "db_inv lib s"
  shows "wait_inv s'" and "db_inv lib s'"
proof -
  have "wait_inv s' \<and> db_inv lib s'" using assms by induction (auto intro: wait_inv_exec db_inv_exec)
  then show "wait_inv s'" "db_inv lib s'" by auto
qed

text \<open>What is left to happen to a caller that waits while the agent's disappearance is being handled.\<close>

definition being_failed :: "db_server \<Rightarrow> i32 \<Rightarrow> nat \<Rightarrow> bool" where
  "being_failed s k ob \<longleftrightarrow>
     po_ready (ds_objs s ob) \<or> (\<exists>reason. ds_svc s = SvcSnapshot reason) \<and> um_find (ds_pending s) k = Some ob \<or>
     (k, ob) \<in> set (svc_snap (ds_svc s)) \<or> (k, ob) \<in> set (close_snap (ds_close s))"

lemma being_failed_caller:
  "being_failed s k ob \<Longrightarrow> ds_svc s' = ds_svc s \<Longrightarrow> ds_close s' = ds_close s \<Longrightarrow> ds_objs s' ob = ds_objs s ob \<Longrightarrow>
     um_find (ds_pending s') k = um_find (ds_pending s) k \<Longrightarrow> being_failed s' k ob"
  by (simp add: being_failed_def)

lemma being_failed_svc:
  "being_failed s k ob \<Longrightarrow> svc_snap (ds_svc s) = [] \<Longrightarrow> \<forall>reason. ds_svc s \<noteq> SvcSnapshot reason \<Longrightarrow>
     close_snap (ds_close s') = close_snap (ds_close s) \<Longrightarrow> (po_ready (ds_objs s ob) \<longrightarrow> po_ready (ds_objs s' ob)) \<Longrightarrow> being_failed s' k ob"
  by (auto simp: being_failed_def)

lemma being_failed_dispatch:
  assumes bf: "being_failed s k ob" and old: "ob < ds_next s"
  shows "being_failed (set_caller t c s) k ob" and "being_failed (dispatch_check lib t b s) k ob"
    and "being_failed (dispatch_send t b r ob' ok s) k ob"
    and "r \<noteq> k \<Longrightarrow> being_failed (dispatch_send_failed lib t b r s) k ob"
    and "r \<noteq> k \<Longrightarrow> being_failed (dispatch_leave lib t b r ob' received s) k ob"
    and "rq_reqid (snd (parse_request lib b DbRequest)) \<noteq> k \<Longrightarrow> being_failed (dispatch_register lib t b s) k ob"
  by (rule being_failed_caller[OF bf];
      use old in \<open>simp add: set_caller_def set_obj_def send_wire_def dispatch_check_def dispatch_send_def Let_def
        dispatch_send_failed_def dispatch_leave_def dispatch_register_def split_def\<close>)+

lemma being_failed_connection:
  assumes bf: "being_failed s k ob"
  shows "being_failed (snd (db_on_agent_connected h s)) k ob"
    and "ds_svc s = SvcIdle \<Longrightarrow> being_failed (svc_accept sha h inp sent s) k ob"
    and "ds_svc s = SvcSetup \<Longrightarrow> being_failed (setup_inner_tls made s) k ob"
    and "ds_svc s = SvcAccepting \<Longrightarrow> being_failed (inner_tls_accepted ok s) k ob"
    and "ds_svc s = SvcCleanup \<Longrightarrow> being_failed (session_cleanup s) k ob"
    and "ds_svc s = SvcFound ob' p \<Longrightarrow> being_failed (session_deliver ob' p s) k ob"
    and "ds_close s = CloseIdle \<Longrightarrow> being_failed (db_server_close s) k ob"
    and "ds_svc s = SvcIdle \<or> ds_svc s = SvcSession \<Longrightarrow> being_failed (s\<lparr>ds_svc := ph\<rparr>) k ob"
proof -
  show "being_failed (snd (db_on_agent_connected h s)) k ob"
    by (rule being_failed_caller[OF bf]) (simp_all add: db_on_agent_connected_def send_wire_def)
  show "being_failed (db_server_close s) k ob" if "ds_close s = CloseIdle"
    using bf that by (auto simp: being_failed_def db_server_close_def)
qed (rule being_failed_svc[OF bf]; auto simp: svc_accept_def send_wire_def setup_inner_tls_def inner_tls_accepted_def
    svc_setup_failed_def session_cleanup_def session_deliver_def set_obj_def split: option.splits)+

lemma being_failed_session:
  assumes bf: "being_failed s k ob" and svc: "ds_svc s = SvcSession"
  shows "being_failed (session_recv_tls lib r s) k ob" and "session_recv_raw lib q s = Some s' \<Longrightarrow> being_failed s' k ob"
proof -
  have p: "being_failed (session_plaintext lib p s) k ob" for p
    by (rule being_failed_svc[OF bf]) (auto simp: svc session_plaintext_def Let_def split: prod.splits option.splits)
  show "being_failed (session_recv_tls lib r s) k ob"
    using bf p being_failed_connection(8)[OF bf] svc by (auto simp: session_recv_tls_def split: option.splits)
  show "being_failed s' k ob" if "session_recv_raw lib q s = Some s'"
    using that bf p being_failed_connection(8)[OF bf] svc being_failed_caller[OF bf, of "send_wire w s" for w]
    by (auto simp: session_recv_raw_def send_wire_def split: recv_result.splits if_splits)
qed

lemma being_failed_loops:
  assumes bf: "being_failed s k ob"
  shows "ds_svc s = SvcSnapshot reason \<Longrightarrow> being_failed (s\<lparr>ds_pending := [], ds_svc := SvcFailing reason (ds_pending s)\<rparr>) k ob"
    and "ds_close s = CloseSnapshot \<Longrightarrow> being_failed (s\<lparr>ds_pending := [], ds_close := CloseFailing (ds_pending s)\<rparr>) k ob"
    and "ds_svc s = SvcFailing reason ((k', ob') # snap) \<Longrightarrow>
      being_failed (fail_one lib reason k' ob' (s\<lparr>ds_svc := SvcFailing reason snap\<rparr>)) k ob"
    and "ds_close s = CloseFailing ((k', ob') # snap) \<Longrightarrow>
      being_failed (fail_one lib reason k' ob' (s\<lparr>ds_close := CloseFailing snap\<rparr>)) k ob"
    and "ds_svc s = SvcFailing reason [] \<Longrightarrow> being_failed (s\<lparr>ds_svc := SvcIdle\<rparr>) k ob"
    and "ds_close s = CloseFailing [] \<Longrightarrow> being_failed (s\<lparr>ds_close := CloseDone\<rparr>) k ob"
  using bf by (auto simp: being_failed_def fail_one_def set_obj_def dest: map_of_SomeD)

lemma being_failed_exec:
  assumes "db_inv lib s" "wait_inv s" and c: "um_find (ds_callers s) t = Some (Waiting b k ob)"
    and bf: "being_failed s k ob" and ex: "db_exec lib sha a s = Some s'" and fresh: "fresh_ids lib a s"
  shows "being_failed s' k ob"
proof -
  have old: "ob < ds_next s" using live_obj_old[OF assms(1) c] by simp
  have other: "r \<noteq> k" if "um_find (ds_callers s) t' = Some (SendFailed b' r)" for t' b' r
    using wait_invD(1)[OF assms(2)] c that by (fastforce simp: own_ids_def)
  have other': "r \<noteq> k" if "um_find (ds_callers s) t' = Some (Leaving b' r ob' rec)" for t' b' r ob' rec
    using wait_invD(1)[OF assms(2)] c that by (fastforce simp: own_ids_def)
  have new: "rq_reqid (snd (parse_request lib b' DbRequest)) \<noteq> k"
    if "a = ARegister t'" "um_find (ds_callers s) t' = Some (Checked b')" for t' b'
    using fresh that map_of_SomeD[OF c] by (auto simp: list_all_iff)
  note facts = being_failed_dispatch[OF bf old] being_failed_connection[OF bf] being_failed_session[OF bf]
    being_failed_loops[OF bf]
  show ?thesis
    using ex new other other'
    by (cases a)
      (fastforce split: option.splits caller.splits svc_phase.splits close_phase.splits if_splits list.splits prod.splits
        simp: fail_snapshot_def intro: facts)+
qed

text \<open>How a caller can have come to wait for an object.\<close>

lemma caller_frame [simp]:
  "ds_callers (set_obj ob q s) = ds_callers s" "ds_callers (send_wire w s) = ds_callers s"
  "ds_callers (session_plaintext lib p s) = ds_callers s" "ds_callers (svc_setup_failed s) = ds_callers s"
  "ds_callers (setup_inner_tls made s) = ds_callers s" "ds_callers (inner_tls_accepted ok s) = ds_callers s"
  "ds_callers (session_recv_tls lib r s) = ds_callers s" "ds_callers (session_deliver ob p s) = ds_callers s"
  "ds_callers (session_cleanup s) = ds_callers s" "ds_callers (fail_one lib msg k ob s) = ds_callers s"
  "ds_callers (db_server_close s) = ds_callers s" "ds_callers (svc_accept sha h inp sent s) = ds_callers s"
  "ds_callers (snd (db_on_agent_connected h s)) = ds_callers s"
  by (simp_all add: set_obj_def send_wire_def session_plaintext_def Let_def svc_setup_failed_def setup_inner_tls_def
      inner_tls_accepted_def session_recv_tls_def session_deliver_def session_cleanup_def fail_one_def db_server_close_def
      svc_accept_def db_on_agent_connected_def split: option.split prod.split)

lemma caller_recv_raw: "session_recv_raw lib q s = Some s' \<Longrightarrow> ds_callers s' = ds_callers s"
  by (auto simp: session_recv_raw_def split: recv_result.splits if_splits)

lemma caller_other:
  assumes "t' \<noteq> t"
  shows "um_find (ds_callers (dispatch_check lib t b s)) t' = um_find (ds_callers s) t'"
    "um_find (ds_callers (dispatch_register lib t b s)) t' = um_find (ds_callers s) t'"
    "um_find (ds_callers (dispatch_send t b r ob ok s)) t' = um_find (ds_callers s) t'"
    "um_find (ds_callers (dispatch_send_failed lib t b r s)) t' = um_find (ds_callers s) t'"
    "um_find (ds_callers (dispatch_leave lib t b r ob received s)) t' = um_find (ds_callers s) t'"
    "um_find (ds_callers (set_caller t c s)) t' = um_find (ds_callers s) t'"
  using assms
  by (simp_all add: dispatch_check_def dispatch_register_def dispatch_send_def dispatch_send_failed_def dispatch_leave_def
      find_set_caller Let_def split_def)

lemma caller_self:
  "um_find (ds_callers (dispatch_check lib t b s)) t = Some c \<Longrightarrow> live_obj c = None"
  "um_find (ds_callers (dispatch_register lib t b s)) t = Some c \<Longrightarrow> live_obj c \<in> {None, Some (ds_next s)}"
  "um_find (ds_callers (dispatch_send t b r ob ok s)) t = Some c \<Longrightarrow> c = Waiting b r ob \<or> live_obj c = None"
  "um_find (ds_callers (dispatch_send_failed lib t b r s)) t = Some c \<Longrightarrow> live_obj c = None"
  "um_find (ds_callers (dispatch_leave lib t b r ob received s)) t = Some c \<Longrightarrow> live_obj c = None"
  by (auto simp: dispatch_check_def dispatch_register_def dispatch_send_def dispatch_send_failed_def dispatch_leave_def
      find_set_caller Let_def split_def split: if_splits)

fun actor :: "db_action \<Rightarrow> nat option" where
  "actor (ACall t b) = Some t"
| "actor (ACheck t) = Some t"
| "actor (ARegister t) = Some t"
| "actor (ASend t ok) = Some t"
| "actor (ASendFailed t) = Some t"
| "actor (AWake t) = Some t"
| "actor (ATimeout t) = Some t"
| "actor (ALeave t) = Some t"
| "actor _ = None"

lemma exec_other:
  assumes "db_exec lib sha a s = Some s'" and "actor a \<noteq> Some t"
  shows "um_find (ds_callers s') t = um_find (ds_callers s) t"
  using assms
  by (cases a)
    (auto simp: fail_snapshot_def caller_other caller_recv_raw
      split: option.splits caller.splits svc_phase.splits close_phase.splits if_splits list.splits prod.splits)

text \<open>A caller keeps its object, lets go of it, or takes a new one; it waits only after it has registered.\<close>

lemma exec_self:
  assumes "db_exec lib sha a s = Some s'" and "actor a = Some t"
    and "um_find (ds_callers s') t = Some c'" and "live_obj c' = Some ob"
  shows "ob = ds_next s \<or> (\<exists>b k. um_find (ds_callers s) t = Some (Registered b k ob) \<and> c' = Waiting b k ob) \<or>
    (\<exists>b k rec. um_find (ds_callers s) t = Some (Waiting b k ob) \<and> c' = Leaving b k ob rec)"
  using assms(1,2,4) caller_self[where t = t and s = s and c = c'] assms(3)
  by (cases a) (fastforce simp: find_set_caller split: option.splits caller.splits if_splits)+

text \<open>
  A caller that waits for an object that is being failed does so until the object is ready.
\<close>

definition kept_waiting :: "db_server \<Rightarrow> nat \<Rightarrow> u8 list \<Rightarrow> i32 \<Rightarrow> nat \<Rightarrow> bool" where
  "kept_waiting s t b k ob \<longleftrightarrow> ob < ds_next s \<and>
     (\<forall>c. um_find (ds_callers s) t = Some c \<longrightarrow> live_obj c = Some ob \<longrightarrow>
        c = Waiting b k ob \<and> being_failed s k ob \<or> (\<exists>b k rec. c = Leaving b k ob rec))"

lemma next_mono: "db_exec lib sha a s = Some s' \<Longrightarrow> ds_next s \<le> ds_next s'"
  by (cases a)
    (auto simp: fail_snapshot_def dispatch_check_def dispatch_register_def dispatch_send_def Let_def
      dispatch_send_failed_def dispatch_leave_def set_caller_def set_obj_def send_wire_def
      db_on_agent_connected_def svc_accept_def setup_inner_tls_def inner_tls_accepted_def svc_setup_failed_def
      session_recv_tls_def session_recv_raw_def session_plaintext_def session_deliver_def session_cleanup_def
      fail_one_def db_server_close_def
      split: option.splits caller.splits svc_phase.splits close_phase.splits if_splits list.splits prod.splits
        recv_result.splits)

lemma kept_waiting_exec:
  assumes "db_inv lib s" "wait_inv s" "kept_waiting s t b k ob" and ex: "db_exec lib sha a s = Some s'" and "fresh_ids lib a s"
  shows "kept_waiting s' t b k ob"
proof -
  have old: "ob < ds_next s" using assms(3) by (simp add: kept_waiting_def)
  have "c' = Waiting b k ob \<and> being_failed s' k ob \<or> (\<exists>b k rec. c' = Leaving b k ob rec)"
    if c': "um_find (ds_callers s') t = Some c'" "live_obj c' = Some ob" for c'
  proof (cases "actor a = Some t")
    case True
    from exec_self[OF ex True c'] old assms(3) show ?thesis by (auto simp: kept_waiting_def)
  next
    case False
    then have c: "um_find (ds_callers s) t = Some c'" using exec_other[OF ex False] c' by simp
    with assms(3) c'(2) have "c' = Waiting b k ob \<and> being_failed s k ob \<or> (\<exists>b k rec. c' = Leaving b k ob rec)"
      by (auto simp: kept_waiting_def)
    with being_failed_exec[OF assms(1,2) _ _ ex assms(5)] c show ?thesis by blast
  qed
  with old next_mono[OF ex] show ?thesis by (auto simp: kept_waiting_def)
qed

lemma db_run_kept_waiting:
  assumes "db_run lib sha (fresh_ids lib) s s'" and "wait_inv s" "db_inv lib s" "kept_waiting s t b k ob"
  shows "kept_waiting s' t b k ob"
  using assms
proof induction
  case (run_step u a v)
  then show ?case using db_run_wait_inv[OF run_step.hyps(1)] kept_waiting_exec by blast
qed

lemma db_reachable_wait: "db_reachable lib sha (fresh_ids lib) s \<Longrightarrow> wait_inv s"
  unfolding db_reachable_def using db_run_wait_inv(1) wait_inv_new db_inv_new by blast

lemma obj_free_waiting:
  assumes "wait_inv s" and c: "um_find (ds_callers s) t = Some (Waiting b k ob)" and "um_distinct (ds_callers s)"
  shows "obj_free ob s"
proof -
  have "\<not> holds_obj ob c'" if "(t', c') \<in> set (ds_callers s)" for t' c'
  proof
    assume "holds_obj ob c'"
    then obtain b' k' rec where c': "c' = Leaving b' k' ob rec" by (cases c') auto
    have "um_find (ds_callers s) t' = Some c'" using that assms(3) by (simp add: um_mem_find)
    with c c' wait_invD(1)[OF assms(1)] have "t' = t" by (fastforce simp: own_ids_def)
    with c c' \<open>um_find (ds_callers s) t' = Some c'\<close> show False by simp
  qed
  then show ?thesis by (auto simp: obj_free_def list_all_iff)
qed

lemma callers_distinct_exec:
  assumes "um_distinct (ds_callers s)" and "db_exec lib sha a s = Some s'"
  shows "um_distinct (ds_callers s')"
  using assms
  by (cases a)
    (auto simp: fail_snapshot_def caller_recv_raw dispatch_check_def dispatch_register_def dispatch_send_def Let_def
      dispatch_send_failed_def dispatch_leave_def set_caller_def
      split: option.splits caller.splits svc_phase.splits close_phase.splits if_splits list.splits prod.splits)

lemma db_run_distinct:
  "db_run lib sha P s s' \<Longrightarrow> um_distinct (ds_callers s) \<Longrightarrow> um_distinct (ds_callers s')"
  by (induction rule: db_run.induct) (auto intro: callers_distinct_exec)

lemma db_reachable_distinct: "db_reachable lib sha P s \<Longrightarrow> um_distinct (ds_callers s)"
  unfolding db_reachable_def using db_run_distinct by (fastforce simp: new_db_server_def)

text \<open>
  From the moment the table is about to be emptied to any later moment when that is over: a caller that still
  waits can be woken.
\<close>

lemma woken:
  assumes reach: "db_reachable lib sha (fresh_ids lib) s" and svc: "ds_svc s = SvcSnapshot reason"
    and c: "um_find (ds_callers s) t = Some (Waiting b k ob)"
    and run: "db_run lib sha (fresh_ids lib) s s'"
    and over: "svc_snap (ds_svc s') = []" "\<forall>reason. ds_svc s' \<noteq> SvcSnapshot reason" "close_snap (ds_close s') = []"
    and c': "um_find (ds_callers s') t = Some (Waiting b k ob)"
  shows "\<exists>u. db_exec lib sha (AWake t) s' = Some u"
proof -
  note inv = db_reachable_wait[OF reach] db_reachable_inv[OF reach]
  have "being_failed s k ob"
    using wait_invD(3)[OF inv(1) c] svc by (auto simp: being_failed_def looked_after_def)
  then have "kept_waiting s t b k ob"
    using live_obj_old[OF inv(2) c] c by (auto simp: kept_waiting_def)
  from db_run_kept_waiting[OF run inv this] have "being_failed s' k ob" using c' by (auto simp: kept_waiting_def)
  then have "po_ready (ds_objs s' ob)" using over by (auto simp: being_failed_def)
  moreover have "obj_free ob s'"
    using obj_free_waiting[OF db_run_wait_inv(1)[OF run inv] c'] db_run_distinct[OF run db_reachable_distinct[OF reach]] by simp
  ultimately show ?thesis using c' by simp
qed

end
