(* ===== verification/Db_Properties.thy ===== *)
theory Db_Properties
  imports Db_Link Db_Waiters Sip_Frame
begin

text \<open>
  What the database connection guarantees: a call through the proxy is one call of the agent's database, a
  caller gets the response to its own request in every interleaving and is woken when the agent goes away,
  frames are read as the codec decodes them, and the agent answers everything.  Two theorems show where
  the code does less than it means to.
\<close>

section \<open>Concrete objects for the witnesses\<close>

text \<open>
  A serialisation of documents that has the laws of BSON: strings of bytes are written with a mark before each
  byte and a zero at the end, an element with its name and the kind of its value.
\<close>

fun put_bytes :: "u8 list \<Rightarrow> u8 list" where
  "put_bytes [] = [0]"
| "put_bytes (b # bs) = 1 # b # put_bytes bs"

fun get_bytes :: "u8 list \<Rightarrow> u8 list \<times> u8 list" where
  "get_bytes [] = ([], [])"
| "get_bytes [m] = ([], [])"
| "get_bytes (m # b # r) = (if m = 0 then ([], b # r) else let (bs, r') = get_bytes r in (b # bs, r'))"

fun value_kind :: "bson_value \<Rightarrow> u8" where
  "value_kind (BInt32 w) = 0"
| "value_kind (BBool v) = 1"
| "value_kind (BUtf8 t) = 2"
| "value_kind (BBinary bs) = 3"
| "value_kind (BOther bs) = 4"

fun value_bytes :: "bson_value \<Rightarrow> u8 list" where
  "value_bytes (BInt32 w) = string_to_bytes (write_u32_be w)"
| "value_bytes (BBool v) = (if v then [1] else [])"
| "value_bytes (BUtf8 t) = string_to_bytes t"
| "value_bytes (BBinary bs) = bs"
| "value_bytes (BOther bs) = bs"

definition get_value :: "u8 \<Rightarrow> u8 list \<Rightarrow> bson_value" where
  "get_value k bs =
     (if k = 0 then (case bytes_to_string bs of [a, b, c, d] \<Rightarrow> BInt32 (read_u32_be a b c d) | _ \<Rightarrow> BOther bs)
      else if k = 1 then BBool (bs \<noteq> [])
      else if k = 2 then BUtf8 (bytes_to_string bs)
      else if k = 3 then BBinary bs
      else BOther bs)"

fun put_doc :: "bson_doc \<Rightarrow> u8 list" where
  "put_doc [] = [0]"
| "put_doc ((k, v) # d) = 1 # put_bytes (string_to_bytes k) @ value_kind v # put_bytes (value_bytes v) @ put_doc d"

fun get_doc :: "nat \<Rightarrow> u8 list \<Rightarrow> bson_doc" where
  "get_doc 0 bs = []"
| "get_doc (Suc n) [] = []"
| "get_doc (Suc n) (m # r) =
     (if m = 0 then []
      else let (k, r) = get_bytes r in
           (case r of
              [] \<Rightarrow> []
            | t # r \<Rightarrow> let (v, r) = get_bytes r in (bytes_to_string k, get_value t v) # get_doc n r))"

definition sample_bson :: bson_lib where
  "sample_bson = \<lparr>bs_encode = put_doc, bs_find = (\<lambda>b. map_of (get_doc (length b) b)),
     bs_from_json = (\<lambda>t. if t = ''bad'' then None else Some (string_to_bytes t)),
     bs_to_json = (\<lambda>b. Some (bytes_to_string b))\<rparr>"

lemma get_put_bytes: "r \<noteq> [] \<Longrightarrow> get_bytes (put_bytes bs @ r) = (bs, r)"
proof (induction bs)
  case Nil
  then show ?case by (cases r) simp_all
qed simp

lemma get_put_value: "get_value (value_kind v) (value_bytes v) = v"
proof (cases v)
  case (BInt32 w)
  obtain a b c d where w: "write_u32_be w = [a, b, c, d]" using write_u32_be_ex by blast
  with read_write_u32_be[of w] BInt32 show ?thesis by (simp add: get_value_def)
qed (simp_all add: get_value_def)

lemma put_doc_nonempty [simp]: "put_doc d \<noteq> []"
  by (cases d rule: put_doc.cases) simp_all

lemma get_put_doc: "length (put_doc d) \<le> n \<Longrightarrow> get_doc n (put_doc d) = d"
proof (induction d arbitrary: n rule: put_doc.induct)
  case 1
  then show ?case by (cases n) simp_all
next
  case (2 k v d)
  obtain m where m: "n = Suc m" "length (put_doc d) \<le> m" using 2(2) by (cases n) simp_all
  show ?case using 2(1)[OF m(2)] by (simp add: m(1) get_put_bytes get_put_value)
qed

lemma sample_bson_laws: "bson_laws sample_bson"
  by (simp add: bson_laws_def sample_bson_def get_put_doc)

definition link_env :: service_env where
  "link_env = \<lparr>sv_json = \<lparr>js_parse = (\<lambda>_. None), js_dump = (\<lambda>_. None)\<rparr>, sv_text = (\<lambda>_ _. Inr ''found''),
     sv_bool = (\<lambda>_ _. Inr True), sv_int = (\<lambda>_ _. Inr 1), sv_remote_disconnected = (\<lambda>_. False), sv_getenv = (\<lambda>_. None),
     sv_zlib = (\<lambda>a _. a), sv_md5 = id, sv_hmac_sha1 = (\<lambda>_ a. a), sv_pbkdf2 = (\<lambda>pw _ _. pw), sv_b64_encode = id,
     sv_b64_decode = id, sv_float_long = (\<lambda>_. 0), sv_file = (\<lambda>_. None)\<rparr>"

definition link_server :: db_server where
  "link_server = (new_db_server False True)\<lparr>ds_connected := True, ds_svc := SvcSession, ds_inner := True, ds_inner_ready := True\<rparr>"

definition link_state :: db_link where
  "link_state = \<lparr>db_log = [], rng = [], ag_sent = [], ag_open = True, ag_inner_tls = True, px_reqid = 7, lk_server = link_server\<rparr>"

definition link_dispatch :: "u8 list \<Rightarrow> (db_link, u8 list) effect" where
  "link_dispatch = remote_dispatch link_env sample_bson (\<lambda>_. ''error'') id"

lemma link_state_up: "server_up (lk_server link_state)" "db_log link_state = []"
  by (simp_all add: server_up_def link_state_def link_server_def new_db_server_def all_returned_def)

lemma sample_norm:
  "json_norm sample_bson ''q'' = ''q''" "json_norm sample_bson [] = ''{}''" "json_norm sample_bson ''bad'' = ''{}''"
  by (simp_all add: json_norm_def json_to_bson_def bson_to_json_def sample_bson_def) (simp add: string_to_bytes_def)

text \<open>A run of allowed actions, computed.\<close>

fun run_allowed :: "(db_action \<Rightarrow> db_server \<Rightarrow> bool) \<Rightarrow> bson_lib \<Rightarrow> (string \<Rightarrow> string) \<Rightarrow> db_action list \<Rightarrow> db_server
    \<Rightarrow> db_server option" where
  "run_allowed P lib sha [] s = Some s"
| "run_allowed P lib sha (a # as) s =
     (if P a s then case db_exec lib sha a s of None \<Rightarrow> None | Some s' \<Rightarrow> run_allowed P lib sha as s' else None)"

lemma db_run_trans: "db_run lib sha P t u \<Longrightarrow> db_run lib sha P s t \<Longrightarrow> db_run lib sha P s u"
  by (induction rule: db_run.induct) (auto intro: db_run.intros)

lemma run_allowed_run: "run_allowed P lib sha as s = Some u \<Longrightarrow> db_run lib sha P s u"
proof (induction as arbitrary: s)
  case (Cons a as)
  then obtain t where t: "P a s" "db_exec lib sha a s = Some t" "run_allowed P lib sha as t = Some u"
    by (auto split: if_splits option.splits)
  from db_run_trans[OF Cons.IH[OF t(3)]] t(1,2) show ?case by (blast intro: db_run.intros)
qed (auto intro: db_run.intros)

lemma run_allowed_reachable:
  "run_allowed P lib sha as (new_db_server m c) = Some u \<Longrightarrow> db_reachable lib sha P u"
  unfolding db_reachable_def using run_allowed_run by blast

section \<open>Properties\<close>

text \<open>
  C24: a caller that is alone, while an agent is connected with inner TLS up and answers: every method of the
  proxy but \<^verbatim>\<open>update_bulk_document\<close> (which sends what an undefined iterator range gives) makes exactly one call of
  the agent's database, the same call up to the passage of its texts through BSON, and returns the answer of the
  database, a text, a truth value or a count; an exception on the agent's side reads as nothing found.
\<close>

theorem proxied_calls:
  fixes s :: "'a db_link_scheme"
  assumes "bson_laws lib" and "server_up (lk_server s)"
  shows "(proxy_text lib (remote_dispatch env lib what sha) call = Some m \<longrightarrow>
      (\<exists>s'. m s = (Done (answer_text (sv_text env (db_log s) (call_norm lib call))), s') \<and>
        server_up (lk_server s') \<and> db_log s' = db_log s @ [call_norm lib call] \<and> px_reqid s' = px_reqid s + 1)) \<and>
    (proxy_bool lib (remote_dispatch env lib what sha) call = Some k \<longrightarrow>
      (\<exists>s'. k s = (Done (answer_bool (sv_bool env (db_log s) (call_norm lib call))), s') \<and>
        server_up (lk_server s') \<and> db_log s' = db_log s @ [call_norm lib call] \<and> px_reqid s' = px_reqid s + 1)) \<and>
    (proxy_int lib (remote_dispatch env lib what sha) call = Some i \<longrightarrow>
      (\<exists>s'. i s = (Done (answer_int (sv_int env (db_log s) (call_norm lib call))), s') \<and>
        server_up (lk_server s') \<and> db_log s' = db_log s @ [call_norm lib call] \<and> px_reqid s' = px_reqid s + 1))"
  using remote.proxy_text_up[OF assms] remote.proxy_bool_up[OF assms] remote.proxy_int_up[OF assms] by blast

theorem proxied_calls_witness:
  "(\<exists>s'. proxy_get_document sample_bson link_dispatch ''c'' ''q'' [] link_state = (Done ''found'', s') \<and>
     db_log s' = [GetDocument ''c'' ''q'' ''{}'']) \<and>
   (\<exists>s'. proxy_create_bulk_document sample_bson link_dispatch ''c'' ''q'' link_state = (Done 1, s') \<and>
     db_log s' = [CreateBulkDocument ''c'' ''q''])"
proof -
  have "\<exists>s'. proxy_create_bulk_document sample_bson link_dispatch ''c'' ''q'' link_state =
      (Done (answer_int (sv_int link_env (db_log link_state) (call_norm sample_bson (CreateBulkDocument ''c'' ''q'')))), s') \<and>
      server_up (lk_server s') \<and> db_log s' = db_log link_state @ [call_norm sample_bson (CreateBulkDocument ''c'' ''q'')] \<and>
      px_reqid s' = px_reqid link_state + 1"
    unfolding link_dispatch_def
    by (rule proxied_calls[OF sample_bson_laws link_state_up(1), THEN conjunct2, THEN conjunct2, rule_format]) simp
  then have bulk: "\<exists>s'. proxy_create_bulk_document sample_bson link_dispatch ''c'' ''q'' link_state = (Done 1, s') \<and>
     db_log s' = [CreateBulkDocument ''c'' ''q'']"
    by (auto simp: link_state_up link_env_def)
  have "\<exists>s'. proxy_get_document sample_bson link_dispatch ''c'' ''q'' [] link_state =
      (Done (answer_text (sv_text link_env (db_log link_state) (call_norm sample_bson (GetDocument ''c'' ''q'' [])))), s') \<and>
      server_up (lk_server s') \<and> db_log s' = db_log link_state @ [call_norm sample_bson (GetDocument ''c'' ''q'' [])] \<and>
      px_reqid s' = px_reqid link_state + 1"
    unfolding link_dispatch_def
    by (rule proxied_calls[OF sample_bson_laws link_state_up(1), THEN conjunct1, rule_format]) simp
  then have "\<exists>s'. proxy_get_document sample_bson link_dispatch ''c'' ''q'' [] link_state = (Done ''found'', s') \<and>
     db_log s' = [GetDocument ''c'' ''q'' ''{}'']"
    by (auto simp: link_state_up sample_norm link_env_def)
  then show ?thesis using bulk by blast
qed

text \<open>
  A filter that is not valid JSON reaches the database as the empty document: a deletion or an update
  with such a filter is carried out on every document of the collection.
\<close>

theorem malformed_filter_matches_all:
  fixes s :: "'a db_link_scheme"
  assumes "bson_laws lib" and "server_up (lk_server s)" and "bs_from_json lib flt = None"
  shows "(\<exists>s'. proxy_delete_document lib (remote_dispatch env lib what sha) coll flt s =
      (Done (answer_bool (sv_bool env (db_log s) (DeleteDocument coll ''{}''))), s') \<and>
      db_log s' = db_log s @ [DeleteDocument coll ''{}'']) \<and>
    (\<exists>s'. proxy_update_collection lib (remote_dispatch env lib what sha) coll flt upd s =
      (Done (answer_bool (sv_bool env (db_log s) (UpdateCollection coll ''{}'' (json_norm lib upd)))), s') \<and>
      db_log s' = db_log s @ [UpdateCollection coll ''{}'' (json_norm lib upd)])"
proof -
  note up = remote.proxy_bool_up[OF assms(1,2), where env = env and what = what and sha = sha]
  show ?thesis
    using up[where call = "DeleteDocument coll flt"] up[where call = "UpdateCollection coll flt upd"]
    by (fastforce simp: json_norm_bad assms(3))
qed

theorem malformed_filter_matches_all_witness:
  "\<exists>s'. proxy_delete_document sample_bson link_dispatch ''subscribers'' ''bad'' link_state = (Done True, s') \<and>
     db_log s' = [DeleteDocument ''subscribers'' ''{}'']"
proof -
  have "bs_from_json sample_bson ''bad'' = None" by (simp add: sample_bson_def)
  from malformed_filter_matches_all[THEN conjunct1, OF sample_bson_laws link_state_up(1) this,
      of link_env "\<lambda>_. ''error''" id "''subscribers''"]
  show ?thesis by (simp add: link_dispatch_def link_state_up(2)) (simp add: link_env_def)
qed

text \<open>
  C25: In every interleaving of the callers, the thread of the connection, new agents and the shutdown, what a
  caller of \<^verbatim>\<open>dispatch\<close> gets is an error under the id of its own request, or bytes that the agent sent under
  that id.
\<close>

theorem own_response:
  assumes "db_reachable lib sha any_action s" and "um_find (ds_callers s) t = Some (Returned b out)"
    and "parse_request lib b DbRequest = (True, req)"
  shows "(\<exists>msg. out = make_error_response lib (rq_reqid req) msg) \<or>
    (out \<in> set (ds_received s) \<and> response_for lib out (rq_reqid req))"
  using assms by (rule db_returned)

definition sample_request :: db_request where
  "sample_request = DbRequest\<lparr>rq_reqid := 3, rq_coll := ''c''\<rparr>"

definition sample_bytes :: "u8 list" where
  "sample_bytes = bs_encode sample_bson (request_doc sample_request)"

lemma sample_bytes_parse [simp]: "parse_request sample_bson sample_bytes DbRequest = (True, sample_request)"
  by (simp add: sample_bytes_def parse_request_doc sample_bson_laws)

definition sample_reply :: "u8 list" where
  "sample_reply = build_response sample_bson (DbResponse\<lparr>rs_reqid := 3, rs_ok := True\<rparr>)"

lemma sample_reply_parse [simp]:
  "parse_response sample_bson sample_reply DbResponse = (True, DbResponse\<lparr>rs_reqid := 3, rs_ok := True\<rparr>)"
  "sample_reply \<noteq> []"
  using sample_bson_laws by (simp_all add: sample_reply_def parse_build_response) (simp add: build_response_def)

lemmas db_run_simps =
  new_db_server_def dispatch_check_def dispatch_register_def dispatch_send_def dispatch_leave_def set_caller_def set_obj_def
  send_wire_def setup_inner_tls_def inner_tls_accepted_def session_recv_tls_def session_plaintext_def session_deliver_def
  session_cleanup_def db_on_agent_connected_def fail_snapshot_def fail_one_def new_pending_def obj_free_def um_put_def
  um_erase_def Let_def sample_request_def any_action_def

definition sample_session :: "db_action list" where
  "sample_session = [AConnect 1, AWaitConnected, ASetup True, AAccepted True,
     ACall 0 sample_bytes, ACheck 0, ARegister 0, ASend 0 True]"

lemma answered_run:
  "\<exists>u. run_allowed any_action sample_bson id (sample_session @ [ARecvTls (Some sample_reply), ADeliver, AWake 0, ALeave 0])
      (new_db_server False True) = Some u \<and>
    um_find (ds_callers u) 0 = Some (Returned sample_bytes sample_reply) \<and> ds_received u = [sample_reply]"
  by (simp add: sample_session_def db_run_simps)

theorem own_response_witness:
  "\<exists>s. db_reachable sample_bson id any_action s \<and>
     um_find (ds_callers s) 0 = Some (Returned sample_bytes sample_reply) \<and> ds_received s = [sample_reply] \<and>
     ((\<exists>msg. sample_reply = make_error_response sample_bson 3 msg) \<or> response_for sample_bson sample_reply 3)"
proof -
  obtain u where u: "run_allowed any_action sample_bson id
      (sample_session @ [ARecvTls (Some sample_reply), ADeliver, AWake 0, ALeave 0]) (new_db_server False True) = Some u"
    "um_find (ds_callers u) 0 = Some (Returned sample_bytes sample_reply)" "ds_received u = [sample_reply]"
    using answered_run by blast
  from own_response[OF run_allowed_reachable[OF u(1)] u(2) sample_bytes_parse] run_allowed_reachable[OF u(1)] u(2,3)
  show ?thesis by (auto simp: sample_request_def)
qed

text \<open>
  C26: When the agent goes away, no caller is left behind: whoever waits for a response when the table of the
  pending requests is about to be emptied can be woken as soon as that is over, in every interleaving in
  which live callers have different ids.
\<close>

theorem disconnect_wakes:
  assumes "db_reachable lib sha (fresh_ids lib) s" and "ds_svc s = SvcSnapshot reason"
    and "um_find (ds_callers s) t = Some (Waiting b k ob)"
    and "db_run lib sha (fresh_ids lib) s s'"
    and "svc_snap (ds_svc s') = []" "\<forall>reason. ds_svc s' \<noteq> SvcSnapshot reason" "close_snap (ds_close s') = []"
    and "um_find (ds_callers s') t = Some (Waiting b k ob)"
  shows "\<exists>u. db_exec lib sha (AWake t) s' = Some u"
  using assms by (rule woken)

lemma disconnected_run:
  "\<exists>s s'. run_allowed (fresh_ids sample_bson) sample_bson id (sample_session @ [ARecvTls None, ACleanup])
      (new_db_server False True) = Some s \<and>
    ds_svc s = SvcSnapshot ''agent disconnected'' \<and> um_find (ds_callers s) 0 = Some (Waiting sample_bytes 3 0) \<and>
    run_allowed (fresh_ids sample_bson) sample_bson id [ASnapshot, AFailNext, AFailNext] s = Some s' \<and>
    ds_svc s' = SvcIdle \<and> ds_close s' = CloseIdle \<and> um_find (ds_callers s') 0 = Some (Waiting sample_bytes 3 0)"
  by (simp add: sample_session_def db_run_simps)

theorem disconnect_wakes_witness:
  "\<exists>s u. db_reachable sample_bson id (fresh_ids sample_bson) s \<and> ds_svc s = SvcIdle \<and>
     um_find (ds_callers s) 0 = Some (Waiting sample_bytes 3 0) \<and> db_exec sample_bson id (AWake 0) s = Some u"
proof -
  obtain s s' where s: "run_allowed (fresh_ids sample_bson) sample_bson id (sample_session @ [ARecvTls None, ACleanup])
      (new_db_server False True) = Some s" "ds_svc s = SvcSnapshot ''agent disconnected''"
      "um_find (ds_callers s) 0 = Some (Waiting sample_bytes 3 0)"
    and s': "run_allowed (fresh_ids sample_bson) sample_bson id [ASnapshot, AFailNext, AFailNext] s = Some s'"
      "ds_svc s' = SvcIdle" "ds_close s' = CloseIdle" "um_find (ds_callers s') 0 = Some (Waiting sample_bytes 3 0)"
    using disconnected_run by blast
  note reach = run_allowed_reachable[OF s(1)] and run = run_allowed_run[OF s'(1)]
  have "\<exists>u. db_exec sample_bson id (AWake 0) s' = Some u"
    by (rule disconnect_wakes[OF reach s(2,3) run]) (simp_all only: s' svc_snap.simps close_snap.simps svc_phase.distinct, simp)
  moreover have "db_reachable sample_bson id (fresh_ids sample_bson) s'"
    using reach db_run_trans[OF run] by (auto simp: db_reachable_def)
  ultimately show ?thesis using s' by blast
qed

text \<open>
  C27: Reading a frame from a blocking socket in steps gives a frame exactly when the codec decodes the bytes of
  the socket to it and it fits into memory, and it takes the same bytes off the socket.
\<close>

theorem stepwise_read_decodes:
  assumes "32 \<le> cap"
  shows "ws_recv_frame cap inp = RecvFrame f rest \<longleftrightarrow> ws_decode inp = WsSome f rest \<and> length inp - length rest \<le> cap"
proof
  assume "ws_recv_frame cap inp = RecvFrame f rest"
  with assms show "ws_decode inp = WsSome f rest \<and> length inp - length rest \<le> cap"
    by (auto simp: ws_recv_frame_eq split: if_splits ws_result.splits)
next
  assume d: "ws_decode inp = WsSome f rest \<and> length inp - length rest \<le> cap"
  then obtain h n where "ws_length inp = Some (h, n)" "2 \<le> length inp"
    "h + (if inp ! 1 AND 0x80 \<noteq> 0 then 4 else 0) + length (ws_payload f) + length rest = length inp"
    using ws_decode_SomeE[of inp f rest] by metis
  then have "\<not> length inp < header_size inp"
    by (auto simp: header_size_def ws_length_def Let_def split: if_splits)
  with d \<open>2 \<le> length inp\<close> assms show "ws_recv_frame cap inp = RecvFrame f rest" by (simp add: ws_recv_frame_eq)
qed

theorem stepwise_read_decodes_witness:
  "ws_recv_frame 64 (ws_encode [7, 8] 0x02 True 0 5 @ [9]) = RecvFrame \<lparr>ws_opcode = 0x02, ws_payload = [7, 8]\<rparr> [9]"
proof -
  have "ws_decode (ws_encode [7, 8] 0x02 True 0 5 @ [9]) = WsSome \<lparr>ws_opcode = 0x02, ws_payload = [7, 8]\<rparr> [9]"
    using ws_decode_encode[of "[7, 8]" "0x02" True 0 5 "[9]"] by simp
  moreover have "length (ws_encode [7, 8] 0x02 True 0 5 @ [9]) \<le> 64" by (simp add: ws_encode_def ws_length_bytes_def apply_mask_def)
  ultimately show ?thesis by (subst stepwise_read_decodes) simp_all
qed

text \<open>
  Whatever length a frame announces, reading it never writes outside the buffer: a length at which the
  64-bit size of the buffer would wrap around is caught by the decoder before the buffer is resized.
\<close>

theorem read_stays_in_buffer:
  assumes "32 \<le> cap"
  shows "ws_recv_frame cap inp \<noteq> RecvWild"
  using assms by (auto simp: ws_recv_frame_eq split: if_splits ws_result.splits)

theorem read_stays_in_buffer_witness:
  "ws_recv_frame 32 (0x82 # 0x7F # replicate 8 0xFF) \<noteq> RecvWild"
  by (rule read_stays_in_buffer) simp

text \<open>
  A session of the agent answers every well-formed request, in the order in which the requests arrive, each
  once and under its own id, whatever the database does and whatever operation is asked for.
\<close>

theorem agent_answers_in_order:
  fixes s :: "'a db_agent_scheme"
  assumes "bson_laws lib" and "\<forall>b \<in> set bs. fst (parse_request lib b DbRequest)"
  shows "\<exists>outs t. agent_session env lib what (map (\<lambda>b. InnerRecv b True) bs) s = (Done False, t) \<and>
    ag_sent t = ag_sent s @ map AgResponse outs \<and>
    list_all2 (\<lambda>b out. response_for lib out (rq_reqid (snd (parse_request lib b DbRequest)))) bs outs"
  using assms(2)
proof (induction bs arbitrary: s)
  case (Cons b bs)
  obtain req where req: "parse_request lib b DbRequest = (True, req)"
    using Cons.prems by (cases "parse_request lib b DbRequest") auto
  then have b: "b \<noteq> []" by (auto simp: parse_request_def)
  obtain out u where out: "agent_dispatch env lib what req s = (Done out, u)" using agent_dispatch_total by blast
  obtain rsp where rsp: "out = build_response lib rsp" "rs_reqid rsp = rq_reqid req"
    using agent_dispatch_reqid[OF out] by blast
  have "eff_keeps ag_sent (agent_dispatch env lib what req :: ('a db_agent_scheme, u8 list) effect)"
    by (rule agent_dispatch_keeps) simp
  then have sent: "ag_sent u = ag_sent s" using out by (rule eff_keepsD)
  let ?u = "agent_send (AgResponse out) True u"
  obtain outs t where "agent_session env lib what (map (\<lambda>b. InnerRecv b True) bs) ?u = (Done False, t)"
    "ag_sent t = ag_sent ?u @ map AgResponse outs"
    "list_all2 (\<lambda>b out. response_for lib out (rq_reqid (snd (parse_request lib b DbRequest)))) bs outs"
    using Cons.IH[of ?u] Cons.prems by auto
  moreover have "response_for lib out (rq_reqid req)"
    using rsp parse_build_response[OF assms(1)] by (auto simp: response_for_def)
  ultimately show ?case
    using req b out sent by (intro exI[of _ "out # outs"] exI[of _ t]) (simp add: agent_send_def)
qed simp

theorem agent_answers_in_order_witness:
  "\<exists>outs t. agent_session link_env sample_bson (\<lambda>_. ''error'') [InnerRecv sample_bytes True, InnerRecv sample_bytes True]
      link_state = (Done False, t) \<and> ag_sent t = map AgResponse outs \<and> length outs = 2"
proof -
  have "ag_sent link_state = []" by (simp add: link_state_def)
  then show ?thesis
    using agent_answers_in_order[OF sample_bson_laws, of "[sample_bytes, sample_bytes]" link_env "\<lambda>_. ''error''" link_state]
    by (fastforce dest: list_all2_lengthD simp del: agent_session.simps)
qed

text \<open>
  Although inner TLS is configured, a request can leave the cloud in a plain WebSocket frame: between the
  moment a new agent is announced as connected and the moment its TLS object is made, \<^verbatim>\<open>dispatch\<close> takes the
  absence of the object for the absence of a configuration.
\<close>

theorem request_leaves_in_clear:
  assumes "parse_request lib b DbRequest = (True, req)"
  shows "\<exists>s. db_reachable lib sha any_action s \<and> ds_inner_cfg s \<and> \<not> ds_inner_ready s \<and>
    FrameSent (ws_encode b 0x02 False 0 0) \<in> set (ds_wire s)"
proof -
  let ?as = "[AConnect 1, ACall 0 b, ACheck 0, ARegister 0, ASend 0 True]"
  have "\<exists>u. run_allowed any_action lib sha ?as (new_db_server False True) = Some u \<and> ds_inner_cfg u \<and> \<not> ds_inner_ready u \<and>
      FrameSent (ws_encode b 0x02 False 0 0) \<in> set (ds_wire u)"
    using assms by (simp add: db_run_simps)
  then show ?thesis using run_allowed_reachable by blast
qed

theorem request_leaves_in_clear_witness:
  "\<exists>s. db_reachable sample_bson id any_action s \<and> ds_inner_cfg s \<and>
     FrameSent (ws_encode sample_bytes 0x02 False 0 0) \<in> set (ds_wire s)"
  using request_leaves_in_clear[OF sample_bytes_parse, of id] by blast

text \<open>
  The delays of the reconnecting agent stay between the base delay and the ceiling of a minute, whichever is
  larger.
\<close>

theorem agent_backoff_range:
  assumes "agent_run env lib what sha host tls_hostname backoff_secs atts s = (Done slept, t)" and "d \<in> set slept"
  shows "min (base_backoff backoff_secs) 60 \<le> d \<and> d \<le> max (base_backoff backoff_secs) 60"
proof -
  have "0 < base_backoff backoff_secs" by (simp add: base_backoff_def)
  with agent_run_loop_sleeps[of "agent_try env lib what sha host tls_hostname" "base_backoff backoff_secs"
      "base_backoff backoff_secs" atts s slept t] assms
  show ?thesis by (auto simp: agent_run_def Let_def)
qed

text \<open>Without an agent every method returns nothing and the database is not asked.\<close>

theorem unreachable_database:
  fixes s :: "'a db_link_scheme"
  assumes "bson_laws lib" and "server_down (lk_server s)" and "proxy_text lib (remote_dispatch env lib what sha) call = Some m"
  shows "\<exists>s'. m s = (Done [], s') \<and> db_log s' = db_log s"
  using remote.proxy_text_down[OF assms] by blast

end
