(* ===== verification/Inner_Tls.thy ===== *)
theory Inner_Tls
  imports Ws_Frame
begin

text \<open>
  The TLS session inside a WebSocket (\<^verbatim>\<open>modules/module/security\<close>): \<^verbatim>\<open>InnerTlsClient\<close> and
  \<^verbatim>\<open>InnerTlsServer\<close> (\<^verbatim>\<open>innertls.cpp\<close>), whose bodies differ only in the OpenSSL call that drives the
  handshake, and the transport they run on under a reactor, \<^verbatim>\<open>WsInnerTlsBridge\<close>
  (\<^verbatim>\<open>ws_inner_tls_bridge.cpp\<close>).

  The SSL object with its two memory BIOs is OpenSSL's: a state of any type and the calls made on it,
  \<^verbatim>\<open>ssl_lib\<close>.  What the code relies on of a pair of such objects is \<open>tls_laws\<close>.  A loop over OpenSSL's
  answers may not end, so it is a partial function and \<^term>\<open>None\<close> is not returning.

  The raw socket under the bridge is a list of reads (the end of the list is the end of the stream), a list
  of outcomes of \<^verbatim>\<open>send_n\<close> (an exhausted list is a healthy socket) and the masking keys drawn.
\<close>

section \<open>OpenSSL\<close>

datatype ssl_input = SslBytes "u8 list" | SslWantRead | SslBroken

datatype ssl_progress = ShakeDone | ShakeWantRead | ShakeWantWrite | ShakeBroken

record 'c ssl_lib =
  ssl_shake :: "'c \<Rightarrow> ssl_progress \<times> 'c"
  ssl_read :: "'c \<Rightarrow> ssl_input \<times> 'c"
  ssl_write :: "u8 list \<Rightarrow> 'c \<Rightarrow> bool \<times> 'c"
  bio_take :: "'c \<Rightarrow> u8 list \<times> 'c"
  bio_put :: "u8 list \<Rightarrow> 'c \<Rightarrow> 'c"

section \<open>IInnerTlsTransport\<close>

text \<open>\<^verbatim>\<open>recv\<close> gives bytes, returns false, or lets the exception of the frame decoder through.\<close>

datatype tls_input = TlsBytes "u8 list" | TlsLost | TlsThrow

record 't tls_transport =
  tt_send :: "u8 list \<Rightarrow> 't \<Rightarrow> bool \<times> 't"
  tt_recv :: "'t \<Rightarrow> tls_input \<times> 't"

section \<open>InnerTlsClient and InnerTlsServer\<close>

definition flush_wbio :: "'c ssl_lib \<Rightarrow> 't tls_transport \<Rightarrow> 'c \<times> 't \<Rightarrow> bool \<times> 'c \<times> 't" where
  "flush_wbio lib tr s =
     (let (out, c) = bio_take lib (fst s)
      in if out = [] then (True, s)
         else let (ok, t) = tt_send tr out (snd s) in (ok, c, t))"

datatype shake_exit = ShakeTrue | ShakeFalse | ShakeThrow

text \<open>\<^verbatim>\<open>handshake\<close> of the client and \<^verbatim>\<open>accept\<close> of the server: one turn of the loop, and the loop.\<close>

definition shake_turn ::
    "'c ssl_lib \<Rightarrow> 't tls_transport \<Rightarrow> 'c \<times> 't \<Rightarrow> shake_exit option \<times> 'c \<times> 't" where
  "shake_turn lib tr s =
     (let (p, c) = ssl_shake lib (fst s);
          (sent, s1) = flush_wbio lib tr (c, snd s)
      in if p = ShakeDone then (Some ShakeTrue, s1)
         else if \<not> sent then (Some ShakeFalse, s1)
         else if p = ShakeWantRead then
           (case tt_recv tr (snd s1) of
              (TlsLost, t) \<Rightarrow> (Some ShakeFalse, fst s1, t)
            | (TlsThrow, t) \<Rightarrow> (Some ShakeThrow, fst s1, t)
            | (TlsBytes buf, t) \<Rightarrow>
                (let c1 = (if buf \<noteq> [] then bio_put lib buf (fst s1) else fst s1)
                 in (if buf = [] \<and> fst (bio_take lib c1) = [] then Some ShakeFalse else None, c1, t)))
         else if p = ShakeWantWrite then (None, s1)
         else (Some ShakeFalse, s1))"

partial_function (option) inner_shake ::
    "'c ssl_lib \<Rightarrow> 't tls_transport \<Rightarrow> 'c \<times> 't \<Rightarrow> (shake_exit \<times> 'c \<times> 't) option" where
  "inner_shake lib tr s =
     (case fst (shake_turn lib tr s) of
        Some e \<Rightarrow> Some (e, snd (shake_turn lib tr s))
      | None \<Rightarrow> inner_shake lib tr (snd (shake_turn lib tr s)))"

definition inner_send :: "'c ssl_lib \<Rightarrow> 't tls_transport \<Rightarrow> u8 list \<Rightarrow> 'c \<times> 't \<Rightarrow> bool \<times> 'c \<times> 't" where
  "inner_send lib tr plaintext s =
     (case ssl_write lib plaintext (fst s) of
        (False, c) \<Rightarrow> (False, c, snd s)
      | (True, c) \<Rightarrow> flush_wbio lib tr (c, snd s))"

partial_function (option) ssl_read_all :: "'c ssl_lib \<Rightarrow> u8 list \<Rightarrow> 'c \<Rightarrow> (bool \<times> u8 list \<times> 'c) option" where
  "ssl_read_all lib plaintext c =
     (case fst (ssl_read lib c) of
        SslBytes b \<Rightarrow> ssl_read_all lib (plaintext @ b) (snd (ssl_read lib c))
      | SslWantRead \<Rightarrow> Some (True, plaintext, snd (ssl_read lib c))
      | SslBroken \<Rightarrow> Some (False, plaintext, snd (ssl_read lib c)))"

definition inner_recv :: "'c ssl_lib \<Rightarrow> 't tls_transport \<Rightarrow> 'c \<times> 't \<Rightarrow> (tls_input \<times> 'c \<times> 't) option" where
  "inner_recv lib tr s =
     (case tt_recv tr (snd s) of
        (TlsBytes wire, t) \<Rightarrow>
          (case ssl_read_all lib [] (if wire \<noteq> [] then bio_put lib wire (fst s) else fst s) of
             None \<Rightarrow> None
           | Some (ok, plaintext, c) \<Rightarrow> Some (if ok then TlsBytes plaintext else TlsLost, c, t))
      | (r, t) \<Rightarrow> Some (r, fst s, t))"

section \<open>WsInnerTlsBridge\<close>

record tls_bridge =
  tb_client_mask :: bool
  tb_buffered :: bool
  tb_closed :: bool
  tb_socket_buf :: "u8 list"
  tb_inbound :: "u8 list list"
  tb_reads :: "u8 list list"
  tb_sends :: "bool list"
  tb_keys :: "u32 list"
  tb_written :: "u8 list list"

definition new_tls_bridge :: "bool \<Rightarrow> u8 list list \<Rightarrow> bool list \<Rightarrow> u32 list \<Rightarrow> tls_bridge" where
  "new_tls_bridge client_mask reads sends keys =
     \<lparr>tb_client_mask = client_mask, tb_buffered = False, tb_closed = False, tb_socket_buf = [],
      tb_inbound = [], tb_reads = reads, tb_sends = sends, tb_keys = keys, tb_written = []\<rparr>"

definition tb_send_raw :: "u8 list \<Rightarrow> tls_bridge \<Rightarrow> bool \<times> tls_bridge" where
  "tb_send_raw bytes b =
     (case tb_sends b of
        [] \<Rightarrow> (True, b\<lparr>tb_written := tb_written b @ [bytes]\<rparr>)
      | ok # oks \<Rightarrow> (ok, b\<lparr>tb_written := tb_written b @ [bytes], tb_sends := oks\<rparr>))"

text \<open>\<^verbatim>\<open>wsframe::encode\<close> with the bridge's masking; an unmasked frame draws no key.\<close>

definition tb_frame :: "u8 list \<Rightarrow> u8 \<Rightarrow> tls_bridge \<Rightarrow> u8 list \<times> tls_bridge" where
  "tb_frame payload opcode b =
     (if \<not> tb_client_mask b then (ws_encode payload opcode False 0 0, b)
      else case tb_keys b of
             [] \<Rightarrow> (ws_encode payload opcode True 0 0, b)
           | k # ks \<Rightarrow> (ws_encode payload opcode True 0 k, b\<lparr>tb_keys := ks\<rparr>))"

definition tb_emit :: "u8 list \<Rightarrow> u8 \<Rightarrow> tls_bridge \<Rightarrow> bool \<times> tls_bridge" where
  "tb_emit payload opcode b = tb_send_raw (fst (tb_frame payload opcode b)) (snd (tb_frame payload opcode b))"

definition bridge_send :: "u8 list \<Rightarrow> tls_bridge \<Rightarrow> bool \<times> tls_bridge" where
  "bridge_send payload b =
     (if tb_closed b then (False, b) else tb_emit payload 0x2 b)"

lemma tb_send_raw_fields [simp]:
  "tb_reads (snd (tb_send_raw x b)) = tb_reads b" "tb_socket_buf (snd (tb_send_raw x b)) = tb_socket_buf b"
  "tb_inbound (snd (tb_send_raw x b)) = tb_inbound b" "tb_buffered (snd (tb_send_raw x b)) = tb_buffered b"
  "tb_closed (snd (tb_send_raw x b)) = tb_closed b" "tb_client_mask (snd (tb_send_raw x b)) = tb_client_mask b"
  "tb_written (snd (tb_send_raw x b)) = tb_written b @ [x]"
  by (simp_all add: tb_send_raw_def split: list.split)

lemma tb_frame_fields [simp]:
  "tb_reads (snd (tb_frame p f b)) = tb_reads b" "tb_socket_buf (snd (tb_frame p f b)) = tb_socket_buf b"
  "tb_inbound (snd (tb_frame p f b)) = tb_inbound b" "tb_buffered (snd (tb_frame p f b)) = tb_buffered b"
  "tb_closed (snd (tb_frame p f b)) = tb_closed b" "tb_client_mask (snd (tb_frame p f b)) = tb_client_mask b"
  "tb_written (snd (tb_frame p f b)) = tb_written b" "tb_sends (snd (tb_frame p f b)) = tb_sends b"
  by (simp_all add: tb_frame_def split: list.split)

lemma tb_emit_fields [simp]:
  "tb_reads (snd (tb_emit p f b)) = tb_reads b" "tb_socket_buf (snd (tb_emit p f b)) = tb_socket_buf b"
  "tb_inbound (snd (tb_emit p f b)) = tb_inbound b" "tb_buffered (snd (tb_emit p f b)) = tb_buffered b"
  "tb_closed (snd (tb_emit p f b)) = tb_closed b" "tb_client_mask (snd (tb_emit p f b)) = tb_client_mask b"
  by (simp_all add: tb_emit_def)

function blocking_recv :: "tls_bridge \<Rightarrow> tls_input \<times> tls_bridge" where
  "blocking_recv b =
     (case ws_decode (tb_socket_buf b) of
        WsBadRange \<Rightarrow> (TlsThrow, b)
      | WsSome f rest \<Rightarrow>
          (let b1 = b\<lparr>tb_socket_buf := rest\<rparr>
           in if ws_opcode f \<in> {0x2, 0x1, 0x0} then (TlsBytes (ws_payload f), b1)
              else if ws_opcode f = 0x9 then
                (if fst (tb_emit (ws_payload f) 0xA b1) then blocking_recv (snd (tb_emit (ws_payload f) 0xA b1))
                 else (TlsLost, snd (tb_emit (ws_payload f) 0xA b1)))
              else if ws_opcode f = 0xA then blocking_recv b1
              else if ws_opcode f = 0x8 then (TlsLost, b1\<lparr>tb_closed := True\<rparr>)
              else (TlsLost, b1))
      | WsNone \<Rightarrow>
          (case tb_reads b of
             [] \<Rightarrow> (TlsLost, b\<lparr>tb_closed := True\<rparr>)
           | chunk # reads \<Rightarrow>
               if chunk = [] then (TlsLost, b\<lparr>tb_closed := True, tb_reads := reads\<rparr>)
               else blocking_recv (b\<lparr>tb_socket_buf := tb_socket_buf b @ chunk, tb_reads := reads\<rparr>)))"
  by pat_completeness auto

termination
  by (relation "measures [\<lambda>b. length (tb_reads b), \<lambda>b. length (tb_socket_buf b)]")
    (auto dest: ws_decode_consumes)

declare blocking_recv.simps [simp del]

definition bridge_recv :: "tls_bridge \<Rightarrow> tls_input \<times> tls_bridge" where
  "bridge_recv b =
     (if tb_closed b then (TlsLost, b)
      else if \<not> tb_buffered b then blocking_recv b
      else case tb_inbound b of
             [] \<Rightarrow> (TlsBytes [], b)
           | p # ps \<Rightarrow> (TlsBytes p, b\<lparr>tb_inbound := ps\<rparr>))"

definition bridge_transport :: "tls_bridge tls_transport" where
  "bridge_transport = \<lparr>tt_send = bridge_send, tt_recv = bridge_recv\<rparr>"

definition switch_to_buffered :: "tls_bridge \<Rightarrow> tls_bridge" where
  "switch_to_buffered b = b\<lparr>tb_buffered := True\<rparr>"

definition leftover_socket_bytes :: "tls_bridge \<Rightarrow> u8 list \<times> tls_bridge" where
  "leftover_socket_bytes b = (tb_socket_buf b, b\<lparr>tb_socket_buf := []\<rparr>)"

definition push_inbound :: "u8 list \<Rightarrow> tls_bridge \<Rightarrow> tls_bridge" where
  "push_inbound payload b = (if payload = [] then b else b\<lparr>tb_inbound := tb_inbound b @ [payload]\<rparr>)"

definition mark_closed :: "tls_bridge \<Rightarrow> tls_bridge" where
  "mark_closed b = b\<lparr>tb_closed := True\<rparr>"

section \<open>The reactor's side of a session\<close>

text \<open>
  What both event handlers do with the payload of a frame once the session stands: queue it and take
  plaintext out until there is none.  \<open>get\<close> and \<open>put\<close> reach the session inside the handler, \<open>deliver\<close> is the
  callback and says whether the socket is still open after it.
\<close>

datatype pump_exit = PumpDrained | PumpLost | PumpClosed | PumpThrow

partial_function (option) tls_pump ::
    "'c ssl_lib \<Rightarrow> ('w \<Rightarrow> 'c \<times> tls_bridge) \<Rightarrow> ('c \<times> tls_bridge \<Rightarrow> 'w \<Rightarrow> 'w)
      \<Rightarrow> (u8 list \<Rightarrow> 'w \<Rightarrow> (bool \<times> 'w) option) \<Rightarrow> 'w \<Rightarrow> (pump_exit \<times> 'w) option" where
  "tls_pump lib get put deliver w =
     Option.bind (inner_recv lib bridge_transport (get w)) (\<lambda>r.
       case fst r of
         TlsLost \<Rightarrow> Some (PumpLost, put (snd r) w)
       | TlsThrow \<Rightarrow> Some (PumpThrow, put (snd r) w)
       | TlsBytes plaintext \<Rightarrow>
           (if plaintext = [] then Some (PumpDrained, put (snd r) w)
            else Option.bind (deliver plaintext (put (snd r) w)) (\<lambda>d.
                   if fst d then tls_pump lib get put deliver (snd d) else Some (PumpClosed, snd d))))"

section \<open>What is relied on of OpenSSL\<close>

text \<open>\<^verbatim>\<open>SSL_read\<close>, called until it wants more input, gives these bytes.\<close>

inductive ssl_yields :: "'c ssl_lib \<Rightarrow> 'c \<Rightarrow> u8 list \<Rightarrow> 'c \<Rightarrow> bool" for lib where
  yields_end: "ssl_read lib c = (SslWantRead, c') \<Longrightarrow> ssl_yields lib c [] c'"
| yields_more: "ssl_read lib c = (SslBytes b, c1) \<Longrightarrow> ssl_yields lib c1 p c' \<Longrightarrow> ssl_yields lib c (b @ p) c'"

lemma ssl_read_all_yields: "ssl_yields lib c p c' \<Longrightarrow> ssl_read_all lib acc c = Some (True, acc @ p, c')"
proof (induction arbitrary: acc rule: ssl_yields.induct)
  case (yields_end c c')
  then show ?case by (subst ssl_read_all.simps) simp
next
  case (yields_more c b c1 p c')
  then show ?case by (subst ssl_read_all.simps) simp
qed

text \<open>
  One direction of an established session, from the object \<open>c\<close> to the object \<open>d\<close>, when nothing is under way:
  what one side writes comes out on the other once the records have been handed over, an idle session
  gives nothing, and neither is disturbed by writing in the other direction.
\<close>

definition tls_laws :: "'c ssl_lib \<Rightarrow> 'd ssl_lib \<Rightarrow> ('c \<Rightarrow> 'd \<Rightarrow> bool) \<Rightarrow> bool" where
  "tls_laws wlib rlib linked \<longleftrightarrow>
     (\<forall>c d p. linked c d \<and> p \<noteq> [] \<and> length p < 2 ^ 31 \<longrightarrow>
        (\<exists>c1 w c2 d1. ssl_write wlib p c = (True, c1) \<and> bio_take wlib c1 = (w, c2) \<and> w \<noteq> [] \<and>
           length w < 2 ^ 32 \<and> ssl_yields rlib (bio_put rlib w d) p d1 \<and> linked c2 d1)) \<and>
     (\<forall>c d. linked c d \<longrightarrow> (\<exists>d1. ssl_yields rlib d [] d1 \<and> linked c d1)) \<and>
     (\<forall>c d q. linked c d \<longrightarrow>
        linked c (snd (ssl_write rlib q d)) \<and> linked c (snd (bio_take rlib d)))"

lemma tls_writeE:
  assumes "tls_laws wlib rlib linked" and "linked c d" and "p \<noteq> []" and "length p < 2 ^ 31"
  obtains c1 w c2 d1 where "ssl_write wlib p c = (True, c1)" "bio_take wlib c1 = (w, c2)" "w \<noteq> []"
    "length w < 2 ^ 32" "ssl_yields rlib (bio_put rlib w d) p d1" "linked c2 d1"
  using assms unfolding tls_laws_def by blast

lemma tls_idleE:
  assumes "tls_laws wlib rlib linked" and "linked c d"
  obtains d1 where "ssl_yields rlib d [] d1" "linked c d1"
  using assms unfolding tls_laws_def by blast

lemma tls_reply:
  assumes "tls_laws wlib rlib linked" and "linked c d"
  shows "linked c (fst (snd (inner_send rlib tr q (d, t))))"
proof -
  have 1: "linked c (snd (ssl_write rlib q d))" "linked c (snd (bio_take rlib (snd (ssl_write rlib q d))))"
    using assms unfolding tls_laws_def by blast+
  then show ?thesis
    by (auto simp: inner_send_def flush_wbio_def split: prod.splits bool.splits)
qed

section \<open>Sending\<close>

definition tb_healthy :: "tls_bridge \<Rightarrow> bool" where
  "tb_healthy b \<longleftrightarrow> \<not> tb_closed b \<and> tb_sends b = []"

lemma bridge_send_healthy:
  assumes "tb_healthy b"
  obtains key b' where "bridge_send w b = (True, b')"
    "tb_written b' = tb_written b @ [ws_encode w 0x2 (tb_client_mask b) 0 key]" "tb_healthy b'"
    "tb_client_mask b' = tb_client_mask b"
proof -
  obtain key where "fst (tb_frame w 0x2 b) = ws_encode w 0x2 (tb_client_mask b) 0 key"
    by (cases "tb_client_mask b"; cases "tb_keys b") (auto simp: tb_frame_def)
  with assms that[of "snd (tb_emit w 0x2 b)" key] show ?thesis
    by (simp add: tb_healthy_def bridge_send_def tb_emit_def tb_send_raw_def)
qed

text \<open>Writing a plaintext puts one binary frame on the socket.\<close>

lemma inner_send_frame:
  assumes "tls_laws wlib rlib linked" and "linked c d" and "p \<noteq> []" and "length p < 2 ^ 31" and "tb_healthy b"
  obtains c2 b2 w d1 key where "inner_send wlib bridge_transport p (c, b) = (True, c2, b2)" "tb_healthy b2"
    "tb_written b2 = tb_written b @ [ws_encode w 0x2 (tb_client_mask b) 0 key]"
    "tb_client_mask b2 = tb_client_mask b" "w \<noteq> []" "length w < 2 ^ 32"
    "ssl_yields rlib (bio_put rlib w d) p d1" "linked c2 d1"
proof -
  obtain c1 w c2 d1 where w: "ssl_write wlib p c = (True, c1)" "bio_take wlib c1 = (w, c2)" "w \<noteq> []"
    "length w < 2 ^ 32" "ssl_yields rlib (bio_put rlib w d) p d1" "linked c2 d1"
    using tls_writeE[OF assms(1-4)] .
  obtain key b2 where b2: "bridge_send w b = (True, b2)" "tb_healthy b2"
    "tb_written b2 = tb_written b @ [ws_encode w 0x2 (tb_client_mask b) 0 key]" "tb_client_mask b2 = tb_client_mask b"
    using bridge_send_healthy[OF assms(5)] by metis
  have "inner_send wlib bridge_transport p (c, b) = (True, c2, b2)"
    using w b2 by (simp add: inner_send_def flush_wbio_def bridge_transport_def)
  with that w b2 show ?thesis by blast
qed

section \<open>Receiving\<close>

lemma inner_recv_queued:
  assumes "tb_buffered b" and "\<not> tb_closed b" and "tb_inbound b = w # ws" and "w \<noteq> []"
    and "ssl_yields lib (bio_put lib w d) p d1"
  shows "inner_recv lib bridge_transport (d, b) = Some (TlsBytes p, d1, b\<lparr>tb_inbound := ws\<rparr>)"
  using assms ssl_read_all_yields[OF assms(5), of "[]"]
  by (simp add: inner_recv_def bridge_transport_def bridge_recv_def)

lemma inner_recv_idle:
  assumes "tb_buffered b" and "\<not> tb_closed b" and "tb_inbound b = []" and "ssl_yields lib d [] d1"
  shows "inner_recv lib bridge_transport (d, b) = Some (TlsBytes [], d1, b)"
  using assms ssl_read_all_yields[OF assms(4), of "[]"]
  by (simp add: inner_recv_def bridge_transport_def bridge_recv_def)

text \<open>One queued record is delivered as one call with its plaintext; then the pump is drained.\<close>

lemma tls_pump_record:
  assumes "get w = (d, b)" and "tb_buffered b" and "\<not> tb_closed b" and "tb_inbound b = [r]" and "r \<noteq> []"
    and "ssl_yields lib (bio_put lib r d) p d1" and "p \<noteq> []"
    and "deliver p (put (d1, b\<lparr>tb_inbound := []\<rparr>) w) = Some (True, w1)"
    and "get w1 = (d2, b2)" and "tb_buffered b2" and "\<not> tb_closed b2" and "tb_inbound b2 = []"
    and "ssl_yields lib d2 [] d3"
  shows "tls_pump lib get put deliver w = Some (PumpDrained, put (d3, b2) w1)"
proof -
  have "tls_pump lib get put deliver w1 = Some (PumpDrained, put (d3, b2) w1)"
    using inner_recv_idle[OF assms(10-13)] assms(9) by (subst tls_pump.simps) simp
  then show ?thesis
    using inner_recv_queued[OF assms(2-6)] assms(1,7,8) by (subst tls_pump.simps) simp
qed

section \<open>The blocking reader\<close>

text \<open>What the socket still holds for the reader.\<close>

definition tb_stream :: "tls_bridge \<Rightarrow> u8 list" where
  "tb_stream b = tb_socket_buf b @ concat (tb_reads b)"

text \<open>
  However the network cuts the stream, the next data frame is taken off its front and nothing behind it is
  lost: what was read too much stays in the buffer.
\<close>

lemma blocking_recv_frame:
  assumes dec: "\<And>r. ws_decode (enc @ r) = WsSome f r" and "ws_opcode f \<in> {0x2, 0x1, 0x0}"
    and "tb_stream b = enc @ rest" and "[] \<notin> set (tb_reads b)"
  shows "\<exists>b'. blocking_recv b = (TlsBytes (ws_payload f), b') \<and> tb_stream b' = rest \<and>
    [] \<notin> set (tb_reads b') \<and> tb_written b' = tb_written b \<and> tb_closed b' = tb_closed b"
  using assms(3,4)
proof (induction "length (tb_reads b)" arbitrary: b rule: less_induct)
  case less
  have whole: "ws_decode (tb_socket_buf b @ concat (tb_reads b)) = WsSome f rest"
    using dec less.prems(1) by (simp add: tb_stream_def)
  show ?case
  proof (cases "ws_decode (tb_socket_buf b)")
    case (WsSome g r)
    then have "g = f" "r @ concat (tb_reads b) = rest" using ws_decode_append[OF WsSome] whole by auto
    with WsSome assms(2) less.prems show ?thesis
      by (subst blocking_recv.simps) (simp add: tb_stream_def)
  next
    case WsBadRange
    then show ?thesis using ws_decode_bad_append whole by fastforce
  next
    case WsNone
    then obtain c cs where cs: "tb_reads b = c # cs" using whole by (cases "tb_reads b") auto
    let ?b = "b\<lparr>tb_socket_buf := tb_socket_buf b @ c, tb_reads := cs\<rparr>"
    have "\<exists>b'. blocking_recv ?b = (TlsBytes (ws_payload f), b') \<and> tb_stream b' = rest \<and>
      [] \<notin> set (tb_reads b') \<and> tb_written b' = tb_written ?b \<and> tb_closed b' = tb_closed ?b"
      using less.prems cs by (intro less.hyps) (auto simp: tb_stream_def)
    moreover have "blocking_recv b = blocking_recv ?b"
      using WsNone cs less.prems(2) by (subst blocking_recv.simps) auto
    ultimately show ?thesis by simp
  qed
qed

section \<open>What the pump keeps\<close>

lemma tls_pump_preserves:
  assumes "tls_pump lib get put deliver w = Some y"
    and "\<And>p w b w'. deliver p w = Some (b, w') \<Longrightarrow> P w \<Longrightarrow> P w'" and "\<And>x w. P w \<Longrightarrow> P (put x w)" and "P w"
  shows "P (snd y)"
proof -
  let ?closed = "\<lambda>put deliver. (\<forall>p w b w'. deliver p w = Some (b, w') \<longrightarrow> P w \<longrightarrow> P w') \<and> (\<forall>x w. P w \<longrightarrow> P (put x w))"
  have "?closed put deliver \<longrightarrow> P w \<longrightarrow> P (snd y)"
    using assms(1)
  proof (rule tls_pump.raw_induct[rotated])
    fix pump lib get put deliver w y
    assume IH: "\<And>lib get put deliver w y. pump lib get put deliver w = Some y \<Longrightarrow>
        ?closed put deliver \<longrightarrow> P w \<longrightarrow> P (snd y)"
      and eq: "Option.bind (inner_recv lib bridge_transport (get w)) (\<lambda>r.
         case fst r of
           TlsBytes plaintext \<Rightarrow>
             if plaintext = [] then Some (PumpDrained, put (snd r) w)
             else Option.bind (deliver plaintext (put (snd r) w))
               (\<lambda>d. if fst d then pump lib get put deliver (snd d) else Some (PumpClosed, snd d))
         | TlsLost \<Rightarrow> Some (PumpLost, put (snd r) w)
         | TlsThrow \<Rightarrow> Some (PumpThrow, put (snd r) w)) = Some y"
    show "?closed put deliver \<longrightarrow> P w \<longrightarrow> P (snd y)"
    proof (intro impI)
      assume cl: "?closed put deliver" and Pw: "P w"
      obtain r where r: "inner_recv lib bridge_transport (get w) = Some r"
        using eq by (cases "inner_recv lib bridge_transport (get w)") auto
      have put: "P (put (snd r) w)" using cl Pw by blast
      show "P (snd y)"
      proof (cases "\<exists>p d. fst r = TlsBytes p \<and> p \<noteq> [] \<and> deliver p (put (snd r) w) = Some d")
        case True
        then obtain p d where d: "fst r = TlsBytes p" "p \<noteq> []" "deliver p (put (snd r) w) = Some d" by blast
        have "P (snd d)" using cl put d(3) by (metis prod.collapse)
        with IH[of lib get put deliver "snd d" y] cl eq r d show ?thesis by (auto split: if_splits)
      next
        case False
        with eq r put show ?thesis by (auto split: tls_input.splits if_splits simp: bind_eq_Some_conv)
      qed
    qed
  qed
  with assms(2-4) show ?thesis by blast
qed

end
