(* ===== verification/Agent_Stream.thy ===== *)
theory Agent_Stream
  imports Cloud_App Inner_Tls
begin

text \<open>
  The cloud's socket of the tunnel, \<^verbatim>\<open>AgentStream\<close> (\<^verbatim>\<open>modules/module/pbx/src/agent_stream.cpp\<close>).  Several
  streams can exist at once: one that has been replaced by a newer connection lives until the reactor
  closes it.  They are kept in a store, by number; the number of a stream is the id of the transport the
  endpoint holds.

  \<^verbatim>\<open>ag_adapter\<close> says that \<^verbatim>\<open>m_adapter\<close> is set and the adapter points back; both pointers are dropped
  together, or the adapter is destroyed at once.  The endpoint records its calls on transports in \<^verbatim>\<open>e_log\<close>;
  \<open>endpoint_call\<close> replays them on the streams, a write always as one that the socket took: how much of a failed
  write left the socket is not recorded, only that the endpoint was told of the failure.  The outcomes of writes through the adapter are those of
  the endpoint's transport, the outcomes of the control frames come from \<^verbatim>\<open>ag_sends\<close> (an exhausted list is a
  healthy socket).  Frames of the inner TLS session are written by its bridge, the others to
  \<^verbatim>\<open>ag_written\<close>.  The receive buffer is passed to the loop over frames and stored when it ends: nothing that
  is called in between looks at it.
\<close>

section \<open>State\<close>

record 'd agent_sock =
  ag_handle :: bool
  ag_adapter :: bool
  ag_recv_buf :: "u8 list"
  ag_close_notified :: bool
  ag_attached :: bool
  ag_ping_timer :: int
  ag_tls :: "('d \<times> tls_bridge) option"
  ag_peer_cn :: string
  ag_deleted :: bool
  ag_sends :: "bool list"
  ag_written :: "u8 list list"
  ag_cancelled :: "int list"

type_synonym 'd agent_socks = "nat \<Rightarrow> 'd agent_sock"
type_synonym ('d, 'a) agent_world = "'d agent_socks \<times> 'a cloud_scheme"

definition ag_upd :: "nat \<Rightarrow> ('d agent_sock \<Rightarrow> 'd agent_sock) \<Rightarrow> ('d, 'a) agent_world \<Rightarrow> ('d, 'a) agent_world" where
  "ag_upd i g w = ((fst w)(i := g (fst w i)), snd w)"

definition ag_send_n :: "u8 list \<Rightarrow> 'd agent_sock \<Rightarrow> bool \<times> 'd agent_sock" where
  "ag_send_n bytes a =
     (case ag_sends a of
        [] \<Rightarrow> (True, a\<lparr>ag_written := ag_written a @ [bytes]\<rparr>)
      | ok # oks \<Rightarrow> (ok, a\<lparr>ag_written := ag_written a @ [bytes], ag_sends := oks\<rparr>))"

definition ag_cancel_ping_timer :: "'d agent_sock \<Rightarrow> 'd agent_sock" where
  "ag_cancel_ping_timer a =
     (if ag_ping_timer a \<noteq> -1
      then a\<lparr>ag_cancelled := ag_cancelled a @ [ag_ping_timer a], ag_ping_timer := -1\<rparr> else a)"

section \<open>The adapter's calls\<close>

text \<open>\<open>ok\<close> is what \<^verbatim>\<open>send_n\<close> answers.\<close>

definition ag_write_bytes :: "'d ssl_lib \<Rightarrow> bool \<Rightarrow> string \<Rightarrow> 'd agent_sock \<Rightarrow> bool \<times> 'd agent_sock" where
  "ag_write_bytes lib ok sip_ws_bytes a =
     (if \<not> ag_handle a then (False, a)
      else case ag_tls a of
             Some (d, b) \<Rightarrow>
               (let (r, x) = inner_send lib bridge_transport (string_to_bytes sip_ws_bytes) (d, b\<lparr>tb_sends := [ok]\<rparr>)
                in (r, a\<lparr>ag_tls := Some x\<rparr>))
           | None \<Rightarrow>
               (ok, a\<lparr>ag_written := ag_written a @ [ws_encode (string_to_bytes sip_ws_bytes) 0x1 False 0 0]\<rparr>))"

definition ag_close_socket :: "'d agent_sock \<Rightarrow> 'd agent_sock" where
  "ag_close_socket a = (ag_cancel_ping_timer (a\<lparr>ag_adapter := False\<rparr>))\<lparr>ag_handle := False\<rparr>"

fun ag_event :: "'d ssl_lib \<Rightarrow> wire_event \<Rightarrow> 'd agent_socks \<Rightarrow> 'd agent_socks" where
  "ag_event lib (Sent i bytes) h =
     (if ag_adapter (h i) then h(i := snd (ag_write_bytes lib True bytes (h i))) else h)"
| "ag_event lib (Closed i) h = (if ag_adapter (h i) then h(i := ag_close_socket (h i)) else h)"
| "ag_event lib (WsPing i) h = h"

definition endpoint_call ::
    "'d ssl_lib \<Rightarrow> ('a cloud_scheme \<Rightarrow> 'a cloud_scheme) \<Rightarrow> ('d, 'a) agent_world \<Rightarrow> ('d, 'a) agent_world" where
  "endpoint_call lib g w =
     (fold (ag_event lib) (drop (length (e_log (snd w))) (e_log (g (snd w)))) (fst w), g (snd w))"

section \<open>Connecting\<close>

definition new_agent_sock :: "bool list \<Rightarrow> 'd agent_sock" where
  "new_agent_sock oks =
     \<lparr>ag_handle = True, ag_adapter = False, ag_recv_buf = [], ag_close_notified = False, ag_attached = False,
      ag_ping_timer = -1, ag_tls = None, ag_peer_cn = [], ag_deleted = False, ag_sends = oks,
      ag_written = [], ag_cancelled = []\<rparr>"

text \<open>\<open>writes\<close> are the outcomes of the writes through the adapter.\<close>

definition ag_attach ::
    "'d ssl_lib \<Rightarrow> nat \<Rightarrow> int \<Rightarrow> bool list \<Rightarrow> ('d, 'a) agent_world \<Rightarrow> ('d, 'a) agent_world" where
  "ag_attach lib i now writes w =
     (if ag_attached (fst w i) then w
      else endpoint_call lib (on_agent_connected now (Some \<lparr>t_id = i, t_oracle = writes\<rparr>))
             (ag_upd i (\<lambda>a. a\<lparr>ag_attached := True, ag_adapter := True\<rparr>) w))"

text \<open>
  \<open>d0\<close> is the SSL object the constructor of \<^verbatim>\<open>InnerTlsServer\<close> makes from the certificates, \<open>reads\<close> and \<open>oks\<close> how
  the socket answers during the handshake, \<open>cn\<close> what \<^verbatim>\<open>peer_subject_cn\<close> reads from the peer's certificate.
\<close>

definition setup_agent_tls ::
    "'d ssl_lib \<Rightarrow> ('d \<Rightarrow> string) \<Rightarrow> 'd \<Rightarrow> u8 list list \<Rightarrow> bool list \<Rightarrow> 'd agent_sock
      \<Rightarrow> (shake_exit \<times> 'd agent_sock) option" where
  "setup_agent_tls lib cn d0 reads oks a =
     (if ag_attached a then Some (ShakeFalse, a)
      else if \<not> ag_handle a then Some (ShakeFalse, a)
      else case inner_shake lib bridge_transport (d0, new_tls_bridge False reads oks []) of
             None \<Rightarrow> None
           | Some (ShakeTrue, d, b) \<Rightarrow>
               (let (left, b1) = leftover_socket_bytes (switch_to_buffered b)
                in Some (ShakeTrue, a\<lparr>ag_tls := Some (d, b1), ag_recv_buf := left, ag_peer_cn := cn d\<rparr>))
           | Some (e, d, b) \<Rightarrow> Some (e, a))"

text \<open>The reactor's answers to \<^verbatim>\<open>register_handler\<close> and \<^verbatim>\<open>schedule_timer\<close> are arguments.\<close>

definition ag_register_with_reactor :: "bool \<Rightarrow> int \<Rightarrow> 'd agent_sock \<Rightarrow> int \<times> 'd agent_sock" where
  "ag_register_with_reactor registered timer a =
     (if \<not> registered then (-1, a)
      else if timer = -1 then (-1, a\<lparr>ag_ping_timer := timer\<rparr>)
      else (0, a\<lparr>ag_ping_timer := timer\<rparr>))"

section \<open>Leaving\<close>

definition ag_notify_disconnect_once ::
    "'d ssl_lib \<Rightarrow> nat \<Rightarrow> ('d, 'a) agent_world \<Rightarrow> ('d, 'a) agent_world" where
  "ag_notify_disconnect_once lib i w =
     (if ag_close_notified (fst w i) then w
      else let w1 = ag_upd i (\<lambda>a. a\<lparr>ag_close_notified := True\<rparr>) w
           in if \<not> ag_adapter (fst w1 i) then w1
              else endpoint_call lib on_agent_disconnected (ag_upd i (\<lambda>a. a\<lparr>ag_adapter := False\<rparr>) w1))"

text \<open>The destructor; \<^verbatim>\<open>handle_close\<close> runs the same statements before it deletes the object.\<close>

definition ag_destroy :: "'d ssl_lib \<Rightarrow> nat \<Rightarrow> ('d, 'a) agent_world \<Rightarrow> ('d, 'a) agent_world" where
  "ag_destroy lib i w =
     ag_upd i (\<lambda>a. a\<lparr>ag_handle := False, ag_tls := None, ag_deleted := True\<rparr>)
       (ag_notify_disconnect_once lib i (ag_upd i ag_cancel_ping_timer w))"

definition ag_handle_close :: "'d ssl_lib \<Rightarrow> nat \<Rightarrow> ('d, 'a) agent_world \<Rightarrow> ('d, 'a) agent_world" where
  "ag_handle_close lib i w =
     ag_destroy lib i
       (ag_upd i (\<lambda>a. a\<lparr>ag_handle := False\<rparr>) (ag_notify_disconnect_once lib i (ag_upd i ag_cancel_ping_timer w)))"

definition ag_handle_timeout :: "'d ssl_lib \<Rightarrow> nat \<Rightarrow> ('d, 'a) agent_world \<Rightarrow> int \<times> ('d, 'a) agent_world" where
  "ag_handle_timeout lib i w =
     (if \<not> ag_handle (fst w i) then (-1, w)
      else let (ok, a) = ag_send_n ping_frame (fst w i); w1 = ag_upd i (\<lambda>_. a) w
           in if ok then (0, w1) else (-1, ag_notify_disconnect_once lib i w1))"

section \<open>Input\<close>

text \<open>\<^verbatim>\<open>m_endpoint.on_bytes_received\<close>, and whether the socket is still open after it.\<close>

definition ag_deliver ::
    "'d ssl_lib \<Rightarrow> 'a cloud_scheme bridge_env \<Rightarrow> nat \<Rightarrow> u8 list \<Rightarrow> ('d, 'a) agent_world
      \<Rightarrow> (bool \<times> ('d, 'a) agent_world) option" where
  "ag_deliver lib env i payload w =
     (case on_bytes_received env (bytes_to_string payload) (snd w) of
        None \<Rightarrow> None
      | Some s \<Rightarrow> (let w1 = endpoint_call lib (\<lambda>_. s) w in Some (ag_handle (fst w1 i), w1)))"

definition ag_frame ::
    "'d ssl_lib \<Rightarrow> 'a cloud_scheme bridge_env \<Rightarrow> nat \<Rightarrow> ws_frame \<Rightarrow> ('d, 'a) agent_world
      \<Rightarrow> (drain_exit \<times> ('d, 'a) agent_world) option" where
  "ag_frame lib env i f w =
     (if ws_opcode f \<in> {0x2, 0x1, 0x0} then
        (case ag_tls (fst w i) of
           Some (d, b) \<Rightarrow>
             (case tls_pump lib (\<lambda>w. the (ag_tls (fst w i))) (\<lambda>x. ag_upd i (\<lambda>a. a\<lparr>ag_tls := Some x\<rparr>))
                     (ag_deliver lib env i)
                     (ag_upd i (\<lambda>a. a\<lparr>ag_tls := Some (d, push_inbound (ws_payload f) b)\<rparr>) w) of
                None \<Rightarrow> None
              | Some (PumpDrained, w1) \<Rightarrow> Some (DrainMore, w1)
              | Some (PumpClosed, w1) \<Rightarrow> Some (DrainStop, w1)
              | Some (PumpLost, w1) \<Rightarrow> Some (DrainStop, ag_notify_disconnect_once lib i w1)
              | Some (PumpThrow, w1) \<Rightarrow> Some (DrainThrow, w1))
         | None \<Rightarrow>
             (case ag_deliver lib env i (ws_payload f) w of
                None \<Rightarrow> None
              | Some (still, w1) \<Rightarrow> Some (if still then DrainMore else DrainStop, w1)))
      else if ws_opcode f = 0x9 then
        Some (DrainMore, ag_upd i (\<lambda>a. snd (ag_send_n (pong_frame (ws_payload f)) a)) w)
      else if ws_opcode f = 0xA then Some (DrainMore, w)
      else if ws_opcode f = 0x8 then
        Some (DrainStop, ag_notify_disconnect_once lib i (ag_upd i (\<lambda>a. snd (ag_send_n close_frame a)) w))
      else Some (DrainStop, ag_notify_disconnect_once lib i w))"

definition ag_handle_input ::
    "'d ssl_lib \<Rightarrow> 'a cloud_scheme bridge_env \<Rightarrow> nat \<Rightarrow> u8 list \<Rightarrow> ('d, 'a) agent_world
      \<Rightarrow> (drain_exit \<times> ('d, 'a) agent_world) option" where
  "ag_handle_input lib env i chunk w =
     (if chunk = [] then Some (DrainStop, ag_notify_disconnect_once lib i w)
      else case ws_pump (ag_frame lib env i)
                  (ag_recv_buf (fst w i) @ chunk, ag_upd i (\<lambda>a. a\<lparr>ag_recv_buf := []\<rparr>) w) of
             None \<Rightarrow> None
           | Some (e, b, w1) \<Rightarrow> Some (e, ag_upd i (\<lambda>a. a\<lparr>ag_recv_buf := b\<rparr>) w1))"

section \<open>The hand-off\<close>

text \<open>
  The end of the \<^verbatim>\<open>/agent\<close> upgrade in \<^verbatim>\<open>WebConnection::handle_input\<close>: the stream is made on the raw socket,
  with inner TLS it is attached only after the handshake, and a stream that cannot be registered is
  deleted.  The record holds what the outside decides.
\<close>

record 'd handoff =
  ho_now :: int
  ho_writes :: "bool list"
  ho_sends :: "bool list"
  ho_inner_tls :: bool
  ho_ssl :: 'd
  ho_reads :: "u8 list list"
  ho_shake_sends :: "bool list"
  ho_registered :: bool
  ho_timer :: int

definition finish_handoff :: "'d ssl_lib \<Rightarrow> 'd handoff \<Rightarrow> nat \<Rightarrow> ('d, 'a) agent_world \<Rightarrow> ('d, 'a) agent_world" where
  "finish_handoff lib ho i w =
     (let (rc, a) = ag_register_with_reactor (ho_registered ho) (ho_timer ho) (fst w i);
          w1 = ag_upd i (\<lambda>_. a) w
      in if rc = -1 then ag_destroy lib i w1 else w1)"

definition handoff_agent_stream ::
    "'d ssl_lib \<Rightarrow> ('d \<Rightarrow> string) \<Rightarrow> 'd handoff \<Rightarrow> nat \<Rightarrow> ('d, 'a) agent_world \<Rightarrow> ('d, 'a) agent_world option" where
  "handoff_agent_stream lib cn ho i w =
     (let w0 = ag_upd i (\<lambda>_. new_agent_sock (ho_sends ho)) w
      in if \<not> ho_inner_tls ho then Some (finish_handoff lib ho i (ag_attach lib i (ho_now ho) (ho_writes ho) w0))
         else case setup_agent_tls lib cn (ho_ssl ho) (ho_reads ho) (ho_shake_sends ho) (fst w0 i) of
                None \<Rightarrow> None
              | Some (e, a) \<Rightarrow>
                  (let w1 = ag_upd i (\<lambda>_. a) w0
                   in case e of
                        ShakeTrue \<Rightarrow> Some (finish_handoff lib ho i (ag_attach lib i (ho_now ho) (ho_writes ho) w1))
                      | ShakeFalse \<Rightarrow> Some (ag_destroy lib i w1)
                      | ShakeThrow \<Rightarrow> Some w1))"

section \<open>Runs\<close>

text \<open>
  The reactor and the other users of the endpoint.  A handler that returns -1 is closed by the reactor; a
  handler that has been deleted is not called any more; reading from a closed socket gives nothing.  Streams
  are numbered as they are made.
\<close>

datatype 'd sock_op =
    Handoff "'d handoff"
  | SockInput nat "u8 list"
  | SockTimer nat
  | SockClose nat
  | EndpointOp cloud_op

definition after_input ::
    "'d ssl_lib \<Rightarrow> nat \<Rightarrow> (drain_exit \<times> ('d, 'a) agent_world) option \<Rightarrow> ('d, 'a) agent_world \<Rightarrow> ('d, 'a) agent_world" where
  "after_input lib i r w =
     (case r of
        None \<Rightarrow> w
      | Some (e, w1) \<Rightarrow> (if e = DrainStop then ag_handle_close lib i w1 else w1))"

definition sock_live :: "nat \<Rightarrow> nat \<times> ('d, 'a) agent_world \<Rightarrow> bool" where
  "sock_live i nw \<longleftrightarrow> i < fst nw \<and> \<not> ag_deleted (fst (snd nw) i)"

fun sock_exec ::
    "'d ssl_lib \<Rightarrow> ('d \<Rightarrow> string) \<Rightarrow> 'a cloud_scheme bridge_env \<Rightarrow> 'd sock_op
      \<Rightarrow> nat \<times> ('d, 'a) agent_world \<Rightarrow> nat \<times> ('d, 'a) agent_world" where
  "sock_exec lib cn env (Handoff ho) nw =
     (case handoff_agent_stream lib cn ho (fst nw) (snd nw) of None \<Rightarrow> nw | Some w \<Rightarrow> (Suc (fst nw), w))"
| "sock_exec lib cn env (SockInput i chunk) nw =
     (if sock_live i nw
      then let got = (if ag_handle (fst (snd nw) i) then chunk else [])
           in (fst nw, after_input lib i (ag_handle_input lib env i got (snd nw)) (snd nw))
      else nw)"
| "sock_exec lib cn env (SockTimer i) nw =
     (if sock_live i nw
      then let (rc, w) = ag_handle_timeout lib i (snd nw)
           in (fst nw, if rc = -1 then ag_handle_close lib i w else w)
      else nw)"
| "sock_exec lib cn env (SockClose i) nw =
     (if sock_live i nw then (fst nw, ag_handle_close lib i (snd nw)) else nw)"
| "sock_exec lib cn env (EndpointOp op) nw =
     (case op of
        Connected _ _ \<Rightarrow> nw
      | _ \<Rightarrow> (fst nw, endpoint_call lib (cloud_exec env op) (snd nw)))"

section \<open>The transport of the endpoint\<close>

text \<open>
  What a call into the endpoint does to its transport: it keeps it, having sent on it, or gives it up
  and closes it last; without a transport it does nothing.
\<close>

definition tstep :: "'a cloud_scheme \<Rightarrow> 'a cloud_scheme \<Rightarrow> bool" where
  "tstep s s' \<longleftrightarrow> (\<exists>es. e_log s' = e_log s @ es \<and>
     (case ce_transport s of
        None \<Rightarrow> es = [] \<and> ce_transport s' = None
      | Some t \<Rightarrow>
          (case ce_transport s' of
             Some t' \<Rightarrow> t_id t' = t_id t \<and> (\<forall>e \<in> set es. \<exists>b. e = Sent (t_id t) b)
           | None \<Rightarrow> \<exists>es1. es = es1 @ [Closed (t_id t)] \<and> (\<forall>e \<in> set es1. \<exists>b. e = Sent (t_id t) b))))"

lemma tstep_refl: "tstep s s"
  by (auto simp: tstep_def split: option.split)

lemma tstep_trans: "tstep s t \<Longrightarrow> tstep t u \<Longrightarrow> tstep s u"
  unfolding tstep_def
  by (elim exE conjE) (force split: option.splits)

lemma tstep_part:
  assumes "tstep s t" and "endpoint_part u = endpoint_part t"
  shows "tstep s u"
proof -
  have l: "e_log u = e_log t" and t: "ce_transport u = ce_transport t"
    using assms(2) by (simp_all add: endpoint_part_def)
  from assms(1) show ?thesis unfolding tstep_def l t .
qed

lemma disconnect_log [simp]:
  "e_log (on_tunnel_disconnect s) = e_log s" "ce_transport (on_tunnel_disconnect s) = ce_transport s"
  by (simp_all add: on_tunnel_disconnect_def)

lemma mark_disconnected_log:
  "e_log (mark_disconnected s) = e_log s @ (case ce_transport s of None \<Rightarrow> [] | Some t \<Rightarrow> [Closed (t_id t)])"
  by (auto simp: mark_disconnected_def Let_def split: option.split)

lemma tstep_drop: "tstep s (mark_disconnected s)"
  by (auto simp: tstep_def mark_disconnected_log split: option.split)

lemma tstep_answer: "ce_transport s = Some t \<Longrightarrow> t_id t' = t_id t \<Longrightarrow> tstep s (s\<lparr>ce_transport := Some t'\<rparr>)"
  by (auto simp: tstep_def)

lemma tstep_send: "tstep s (endpoint_send_frame op sid p s)"
proof (cases "ce_transport s")
  case None
  then show ?thesis
    by (simp add: endpoint_send_frame_def tstep_def)
next
  case (Some t)
  obtain ok t' where t': "transport_send t = (ok, t')" by fastforce
  have id: "t_id t' = t_id t" using transport_send_id[OF t'] .
  show ?thesis
  proof (cases ok)
    case True
    with Some t' id show ?thesis by (auto simp: endpoint_send_frame_def tstep_def)
  next
    case False
    have "tstep s (mark_disconnected (s\<lparr>ce_transport := Some t'\<rparr>))"
      using tstep_trans[OF tstep_answer[OF Some id] tstep_drop] .
    with False Some t' show ?thesis by (simp add: endpoint_send_frame_def tstep_def)
  qed
qed

lemma tstep_flush: "tstep s (flush_outbound s)"
proof (induction s rule: flush_outbound.induct)
  case (1 s)
  show ?case
  proof (cases "ce_outbound s = [] \<or> ce_transport s = None")
    case True
    then have "flush_outbound s = s" using flush_outbound_simps by blast
    then show ?thesis by (simp add: tstep_refl)
  next
    case False
    then obtain b bs t where o: "ce_outbound s = b # bs" "ce_transport s = Some t"
      by (meson list.exhaust option.exhaust)
    obtain ok t' where t': "transport_send t = (ok, t')" by fastforce
    have id: "t_id t' = t_id t" using transport_send_id[OF t'] .
    let ?s = "s\<lparr>ce_transport := Some t', e_log := e_log s @ [Sent (t_id t) b], ce_outbound := bs\<rparr>"
    show ?thesis
    proof (cases ok)
      case True
      have "tstep s ?s" using o id by (auto simp: tstep_def)
      moreover have "tstep ?s (flush_outbound ?s)"
        using 1 o t' True by auto
      ultimately show ?thesis
        using o t' True tstep_trans by (subst flush_outbound.simps) auto
    next
      case False
      then show ?thesis
        using o t' tstep_trans[OF tstep_answer[OF o(2) id] tstep_drop] by (subst flush_outbound.simps) auto
    qed
  qed
qed

context cloud_handlers
begin

lemma tstep_dispatch: "tstep s t \<Longrightarrow> tstep s (dispatch_frame env f t)"
  by (rule dispatch_keeps[where P = "tstep s"]) (auto intro: tstep_trans tstep_send tstep_part)

lemma tstep_received:
  assumes "on_bytes_received env b s = Some s'"
  shows "tstep s s'"
proof -
  let ?s = "s\<lparr>ce_pings_outstanding := 0\<rparr>"
  have s0: "tstep s ?s" by (rule tstep_part[OF tstep_refl]) (simp add: endpoint_part_def)
  have "tstep s t" if "on_tunnel_bytes env b ?s = Some (ok, t)" for ok t
    by (rule on_tunnel_bytes_keeps_cloud[where P = "tstep s", OF that s0])
      (auto intro: tstep_dispatch tstep_part simp: put_recv_buffer_def endpoint_part_def)
  with assms s0 show ?thesis
    by (auto simp: on_bytes_received_def Let_def intro: tstep_trans[OF _ tstep_drop] split: if_splits option.splits)
qed

lemma tstep_exec:
  assumes "\<And>now t. op \<noteq> Connected now t"
  shows "tstep s (cloud_exec env op s)"
proof (cases op)
  case (Upgrade b m)
  have "tstep s (s\<lparr>m_next_stream_id := m_next_stream_id s + 1,
      m_browsers := um_emplace (m_next_stream_id s) b (m_browsers s)\<rparr>)"
    by (rule tstep_part[OF tstep_refl]) (simp add: endpoint_part_def)
  with Upgrade show ?thesis
    by (simp add: on_browser_upgrade_def Let_def send_is_endpoint tstep_trans[OF _ tstep_send])
next
  case (BrowserClose sid r)
  have "tstep s (s\<lparr>m_browsers := um_erase sid (m_browsers s)\<rparr>)"
    by (rule tstep_part[OF tstep_refl]) (simp add: endpoint_part_def)
  with BrowserClose show ?thesis
    by (simp add: on_browser_close_def Let_def send_is_endpoint tstep_trans[OF _ tstep_send] tstep_refl)
next
  case (Received b)
  then show ?thesis
    using tstep_received on_bytes_received_total[of b s] by auto
next
  case (Tick now)
  have "tstep s (endpoint_send_frame PING 0 [] s)" by (rule tstep_send)
  then have "tstep s ((endpoint_send_frame PING 0 [] s)\<lparr>ce_pings_outstanding := i, ce_last_heartbeat_unix := j\<rparr>)" for i j
    by (rule tstep_part) (simp add: endpoint_part_def)
  with Tick show ?thesis
    by (auto simp: tick_def maybe_heartbeat_def Let_def tstep_refl tstep_drop tstep_send)
qed (use assms in \<open>auto simp: on_agent_disconnected_def revoke_def on_browser_data_def
    send_is_endpoint tstep_send tstep_drop tstep_refl split: option.split\<close>)

end

section \<open>Ownership\<close>

definition ag_flags where
  "ag_flags a = (ag_handle a, ag_adapter a, ag_close_notified a, ag_attached a, ag_deleted a, ag_recv_buf a)"

lemma ag_flagsD:
  "ag_flags a = ag_flags b \<Longrightarrow> ag_handle a = ag_handle b \<and> ag_adapter a = ag_adapter b \<and>
     ag_close_notified a = ag_close_notified b \<and> ag_attached a = ag_attached b \<and> ag_deleted a = ag_deleted b \<and>
     ag_recv_buf a = ag_recv_buf b"
  by (simp add: ag_flags_def)

lemma ag_flags_ops [simp]:
  "ag_flags (snd (ag_write_bytes lib ok p a)) = ag_flags a" "ag_flags (snd (ag_send_n x a)) = ag_flags a"
  "ag_flags (ag_cancel_ping_timer a) = ag_flags a" "ag_flags (a\<lparr>ag_tls := y\<rparr>) = ag_flags a"
  by (auto simp: ag_flags_def ag_write_bytes_def ag_send_n_def ag_cancel_ping_timer_def Let_def
      split: option.split prod.split list.split)

lemma ag_close_socket_flags [simp]:
  "ag_adapter (ag_close_socket a) = False" "ag_handle (ag_close_socket a) = False"
  "ag_deleted (ag_close_socket a) = ag_deleted a" "ag_close_notified (ag_close_socket a) = ag_close_notified a"
  "ag_recv_buf (ag_close_socket a) = ag_recv_buf a"
  by (simp_all add: ag_close_socket_def ag_cancel_ping_timer_def)

text \<open>Writes through the adapter of one stream leave the others alone and no flag changes.\<close>

lemma ag_events_sent:
  assumes "\<forall>e \<in> set es. \<exists>b. e = Sent i b"
  shows "ag_flags (fold (ag_event lib) es h j) = ag_flags (h j)"
    and "j \<noteq> i \<Longrightarrow> fold (ag_event lib) es h j = h j"
  using assms by (induction es arbitrary: h) force+

text \<open>
  The stream whose adapter the endpoint holds is the only one that has an adapter; its socket is open and
  it has neither been deleted nor told the endpoint that it is going.
\<close>

definition ag_owner :: "'d agent_sock \<Rightarrow> bool" where
  "ag_owner a \<longleftrightarrow> ag_handle a \<and> \<not> ag_deleted a \<and> \<not> ag_close_notified a"

definition aw_inv :: "nat set \<Rightarrow> ('d, 'a) agent_world \<Rightarrow> bool" where
  "aw_inv A w \<longleftrightarrow>
     (\<forall>i. ag_adapter (fst w i) \<longleftrightarrow> (\<exists>t. ce_transport (snd w) = Some t \<and> t_id t = i)) \<and>
     (\<forall>i. ag_adapter (fst w i) \<longrightarrow> ag_owner (fst w i) \<and> i \<in> A)"

lemma aw_inv_flags:
  assumes "aw_inv A w" and "\<And>j. ag_flags (h j) = ag_flags (fst w j)"
    and "map_option t_id (ce_transport s) = map_option t_id (ce_transport (snd w))"
  shows "aw_inv A (h, s)"
proof -
  have "ag_adapter (h j) = ag_adapter (fst w j)" "ag_owner (h j) = ag_owner (fst w j)" for j
    using ag_flagsD[OF assms(2)[of j]] by (simp_all add: ag_owner_def)
  moreover have "(\<exists>t. ce_transport s = Some t \<and> t_id t = i) \<longleftrightarrow> (\<exists>t. ce_transport (snd w) = Some t \<and> t_id t = i)" for i
    using assms(3) by (cases "ce_transport s"; cases "ce_transport (snd w)") auto
  ultimately show ?thesis using assms(1) by (simp add: aw_inv_def)
qed

lemma aw_inv_upd: "aw_inv A w \<Longrightarrow> ag_flags (g (fst w i)) = ag_flags (fst w i) \<Longrightarrow> aw_inv A (ag_upd i g w)"
  by (cases w) (auto simp: ag_upd_def intro!: aw_inv_flags)

text \<open>A stream without an adapter may change as it likes.\<close>

lemma aw_inv_other:
  assumes "aw_inv A w" and "\<not> ag_adapter (fst w i)" and "\<not> ag_adapter (g (fst w i))"
  shows "aw_inv A (ag_upd i g w)"
  using assms by (auto simp: aw_inv_def ag_upd_def)

lemma endpoint_call_tstep:
  assumes inv: "aw_inv A w" and step: "tstep (snd w) (g (snd w))"
  shows "aw_inv A (endpoint_call lib g w)"
    and "ag_deleted (fst (endpoint_call lib g w) j) = ag_deleted (fst w j)"
    and "ag_recv_buf (fst (endpoint_call lib g w) j) = ag_recv_buf (fst w j)"
    and "ag_adapter (fst (endpoint_call lib g w) j) \<Longrightarrow> ag_adapter (fst w j)"
    and "ag_close_notified (fst (endpoint_call lib g w) j) = ag_close_notified (fst w j)"
proof -
  obtain es where log: "e_log (g (snd w)) = e_log (snd w) @ es"
    and ts: "case ce_transport (snd w) of None \<Rightarrow> es = [] \<and> ce_transport (g (snd w)) = None
      | Some t \<Rightarrow> (case ce_transport (g (snd w)) of
           Some t' \<Rightarrow> t_id t' = t_id t \<and> (\<forall>e \<in> set es. \<exists>b. e = Sent (t_id t) b)
         | None \<Rightarrow> \<exists>es1. es = es1 @ [Closed (t_id t)] \<and> (\<forall>e \<in> set es1. \<exists>b. e = Sent (t_id t) b))"
    using step unfolding tstep_def by blast
  have call: "endpoint_call lib g w = (fold (ag_event lib) es (fst w), g (snd w))"
    by (simp add: endpoint_call_def log)
  have "aw_inv A (endpoint_call lib g w) \<and> (\<forall>j. ag_deleted (fst (endpoint_call lib g w) j) = ag_deleted (fst w j) \<and>
    ag_recv_buf (fst (endpoint_call lib g w) j) = ag_recv_buf (fst w j) \<and>
    (ag_adapter (fst (endpoint_call lib g w) j) \<longrightarrow> ag_adapter (fst w j)) \<and>
    ag_close_notified (fst (endpoint_call lib g w) j) = ag_close_notified (fst w j))"
  proof (cases "ce_transport (snd w)")
    case None
    with ts have "es = []" "ce_transport (g (snd w)) = None" by auto
    with None inv call show ?thesis by (simp add: aw_inv_def)
  next
    case (Some t)
    show ?thesis
    proof (cases "ce_transport (g (snd w))")
      case (Some t')
      with ts \<open>ce_transport (snd w) = Some t\<close> have id: "t_id t' = t_id t"
        and sent: "\<forall>e \<in> set es. \<exists>b. e = Sent (t_id t) b" by auto
      note fl = ag_events_sent(1)[OF sent, where lib = lib and h = "fst w"]
      have "aw_inv A (endpoint_call lib g w)"
        unfolding call using inv fl by (rule aw_inv_flags) (simp add: Some \<open>ce_transport (snd w) = Some t\<close> id)
      with ag_flagsD[OF fl] call show ?thesis by simp
    next
      case None
      with ts \<open>ce_transport (snd w) = Some t\<close> obtain es1 where es: "es = es1 @ [Closed (t_id t)]"
        and sent: "\<forall>e \<in> set es1. \<exists>b. e = Sent (t_id t) b" by auto
      let ?h = "fold (ag_event lib) es1 (fst w)"
      have fl: "ag_flags (?h j) = ag_flags (fst w j)" for j by (rule ag_events_sent(1)[OF sent])
      have ad: "ag_adapter (fst w j) \<longleftrightarrow> j = t_id t" for j
        using inv \<open>ce_transport (snd w) = Some t\<close> by (auto simp: aw_inv_def)
      have h: "fold (ag_event lib) es (fst w) = ?h(t_id t := ag_close_socket (?h (t_id t)))"
        using es ag_flagsD[OF fl[of "t_id t"]] ad by simp
      have no: "\<not> ag_adapter (fold (ag_event lib) es (fst w) j)" for j
        using ag_flagsD[OF fl[of j]] ad[of j] by (cases "j = t_id t") (simp_all add: h)
      have "ag_deleted (fold (ag_event lib) es (fst w) j) = ag_deleted (fst w j)"
        "ag_recv_buf (fold (ag_event lib) es (fst w) j) = ag_recv_buf (fst w j)"
        "ag_close_notified (fold (ag_event lib) es (fst w) j) = ag_close_notified (fst w j)" for j
        using ag_flagsD[OF fl[of j]] by (cases "j = t_id t"; simp add: h)+
      with no None call show ?thesis by (simp add: aw_inv_def)
    qed
  qed
  then show "aw_inv A (endpoint_call lib g w)" "ag_deleted (fst (endpoint_call lib g w) j) = ag_deleted (fst w j)"
    "ag_recv_buf (fst (endpoint_call lib g w) j) = ag_recv_buf (fst w j)"
    "ag_adapter (fst (endpoint_call lib g w) j) \<Longrightarrow> ag_adapter (fst w j)"
    "ag_close_notified (fst (endpoint_call lib g w) j) = ag_close_notified (fst w j)" by blast+
qed

section \<open>Every operation keeps the ownership\<close>

lemma ag_upd_parts [simp]:
  "snd (ag_upd i g w) = snd w" "fst (ag_upd i g w) j = (if j = i then g (fst w i) else fst w j)"
  "ag_upd i g (ag_upd i h w) = ag_upd i (\<lambda>a. g (h a)) w"
  by (auto simp: ag_upd_def)

lemma aw_inv_owner: "aw_inv A w \<Longrightarrow> ag_adapter (fst w i) \<Longrightarrow> ag_owner (fst w i)"
  by (simp add: aw_inv_def)

lemma notify_eq:
  assumes inv: "aw_inv A w"
  shows "ag_notify_disconnect_once lib i w =
    (if ag_close_notified (fst w i) then w
     else ((fst w)(i := (fst w i)\<lparr>ag_close_notified := True, ag_adapter := False\<rparr>),
           if ag_adapter (fst w i) then mark_disconnected (snd w) else snd w))"
proof (cases "ag_adapter (fst w i)")
  case True
  then obtain t where "ce_transport (snd w) = Some t" "t_id t = i"
    using inv by (auto simp: aw_inv_def)
  with True show ?thesis
    by (simp add: ag_notify_disconnect_once_def endpoint_call_def on_agent_disconnected_def has_agent_def
        mark_disconnected_log) (simp add: ag_upd_def)
next
  case False
  then have e: "(fst w i)\<lparr>ag_close_notified := True, ag_adapter := False\<rparr> = (fst w i)\<lparr>ag_close_notified := True\<rparr>"
    by (cases "fst w i") simp
  from False show ?thesis
    unfolding e by (simp add: ag_notify_disconnect_once_def) (simp add: ag_upd_def)
qed

lemma notify_facts:
  fixes lib :: "'d ssl_lib" and i :: nat and w :: "('d, 'a) agent_world"
  assumes inv: "aw_inv A w"
  defines "w' \<equiv> ag_notify_disconnect_once lib i w"
  shows "aw_inv A w'" and "\<not> ag_adapter (fst w' i)" and "j \<noteq> i \<Longrightarrow> fst w' j = fst w j"
    and "\<not> ag_adapter (fst w i) \<Longrightarrow> snd w' = snd w" and "ag_deleted (fst w' j) = ag_deleted (fst w j)"
    and "ag_adapter (fst w' j) \<Longrightarrow> ag_adapter (fst w j)" and "ag_recv_buf (fst w' j) = ag_recv_buf (fst w j)"
proof -
  have ad: "ag_adapter (fst w i) \<Longrightarrow> ag_adapter (fst w j) \<Longrightarrow> j = i" for j
    using inv by (auto simp: aw_inv_def)
  have own: "ag_adapter (fst w i) \<Longrightarrow> \<not> ag_close_notified (fst w i)"
    using aw_inv_owner[OF inv] by (simp add: ag_owner_def)
  show "aw_inv A w'"
  proof (cases "ag_adapter (fst w i)")
    case True
    then have "w' = ((fst w)(i := (fst w i)\<lparr>ag_close_notified := True, ag_adapter := False\<rparr>), mark_disconnected (snd w))"
      using own unfolding w'_def notify_eq[OF inv] by simp
    moreover have "\<not> ag_adapter (((fst w)(i := (fst w i)\<lparr>ag_close_notified := True, ag_adapter := False\<rparr>)) j)" for j
      using ad[OF True, of j] by auto
    ultimately show ?thesis by (simp add: aw_inv_def)
  next
    case False
    then have "w' = w \<or> w' = ag_upd i (\<lambda>a. a\<lparr>ag_close_notified := True, ag_adapter := False\<rparr>) w"
      unfolding w'_def notify_eq[OF inv] by (simp add: ag_upd_def)
    with inv False show ?thesis by (auto intro: aw_inv_other)
  qed
  show "\<not> ag_adapter (fst w' i)" "j \<noteq> i \<Longrightarrow> fst w' j = fst w j" "\<not> ag_adapter (fst w i) \<Longrightarrow> snd w' = snd w"
    "ag_deleted (fst w' j) = ag_deleted (fst w j)" "ag_adapter (fst w' j) \<Longrightarrow> ag_adapter (fst w j)"
    "ag_recv_buf (fst w' j) = ag_recv_buf (fst w j)"
    using own unfolding w'_def notify_eq[OF inv] by (auto split: if_splits)
qed

lemma cancel_fields [simp]:
  "ag_adapter (ag_cancel_ping_timer a) = ag_adapter a" "ag_deleted (ag_cancel_ping_timer a) = ag_deleted a"
  "ag_close_notified (ag_cancel_ping_timer a) = ag_close_notified a"
  by (simp_all add: ag_cancel_ping_timer_def)

lemma aw_inv_cancel: "aw_inv A w \<Longrightarrow> aw_inv A (ag_upd i ag_cancel_ping_timer w)"
  by (simp add: aw_inv_upd)

lemma destroy_inv:
  assumes inv: "aw_inv A w"
  shows "aw_inv A (ag_destroy lib i w)"
proof -
  note n = notify_facts[OF aw_inv_cancel[OF inv, where i = i], where lib = lib and i = i]
  show ?thesis unfolding ag_destroy_def by (rule aw_inv_other[OF n(1,2)]) (simp add: n(2))
qed

lemma close_before_destroy:
  fixes lib :: "'d ssl_lib" and i :: nat and w :: "('d, 'a) agent_world"
  assumes inv: "aw_inv A w"
  defines "w' \<equiv> ag_upd i (\<lambda>a. a\<lparr>ag_handle := False\<rparr>) (ag_notify_disconnect_once lib i (ag_upd i ag_cancel_ping_timer w))"
  shows "aw_inv A w'" and "\<not> ag_adapter (fst w' i)" and "\<not> ag_adapter (fst w i) \<Longrightarrow> snd w' = snd w"
proof -
  note n = notify_facts[OF aw_inv_cancel[OF inv, where i = i], where lib = lib and i = i]
  show "aw_inv A w'" unfolding w'_def by (rule aw_inv_other[OF n(1,2)]) (simp add: n(2))
  show "\<not> ag_adapter (fst w' i)" by (simp add: w'_def n(2))
  show "\<not> ag_adapter (fst w i) \<Longrightarrow> snd w' = snd w" using n(4) by (simp add: w'_def)
qed

lemma ag_close_inv: "aw_inv A w \<Longrightarrow> aw_inv A (ag_handle_close lib i w)"
  unfolding ag_handle_close_def by (intro destroy_inv close_before_destroy(1))

lemma handle_timeout_inv: "aw_inv A w \<Longrightarrow> aw_inv A (snd (ag_handle_timeout lib i w))"
proof -
  assume "aw_inv A w"
  then have "aw_inv A (ag_upd i (\<lambda>_. snd (ag_send_n ping_frame (fst w i))) w)"
    by (intro aw_inv_upd) simp_all
  then show ?thesis
    using \<open>aw_inv A w\<close> by (auto simp: ag_handle_timeout_def Let_def notify_facts split: prod.split)
qed

text \<open>A stream that is not the endpoint's leaves the endpoint as it is.\<close>

lemma destroy_silent:
  assumes "aw_inv A w" and "\<not> ag_adapter (fst w i)"
  shows "snd (ag_destroy lib i w) = snd w"
  using assms notify_facts(4)[OF aw_inv_cancel[OF assms(1), where i = i], where i = i] by (simp add: ag_destroy_def aw_inv_cancel)

lemma handle_close_silent:
  assumes "aw_inv A w" and "\<not> ag_adapter (fst w i)"
  shows "snd (ag_handle_close lib i w) = snd w"
  using close_before_destroy[OF assms(1), where lib = lib and i = i] assms(2) destroy_silent
  unfolding ag_handle_close_def by metis

lemma handle_timeout_silent:
  assumes "aw_inv A w" and "\<not> ag_adapter (fst w i)"
  shows "snd (snd (ag_handle_timeout lib i w)) = snd w"
proof -
  let ?w = "ag_upd i (\<lambda>_. snd (ag_send_n ping_frame (fst w i))) w"
  have "\<not> ag_adapter (snd (ag_send_n ping_frame (fst w i)))"
    using ag_flagsD[OF ag_flags_ops(2)[of ping_frame "fst w i"]] assms(2) by simp
  with assms have "snd (ag_notify_disconnect_once lib i ?w) = snd w"
    using notify_facts(4)[OF aw_inv_other[OF assms], where i = i and lib = lib] by simp
  then show ?thesis
    by (auto simp: ag_handle_timeout_def Let_def split: prod.split)
qed

lemma timeout_stays:
  assumes "aw_inv A w" and "\<not> ag_adapter (fst w i)"
  shows "aw_inv A (snd (ag_handle_timeout lib i w))" and "\<not> ag_adapter (fst (snd (ag_handle_timeout lib i w)) i)"
proof -
  show "aw_inv A (snd (ag_handle_timeout lib i w))" by (rule handle_timeout_inv[OF assms(1)])
  have "\<not> ag_adapter (snd (ag_send_n ping_frame (fst w i)))"
    using ag_flagsD[OF ag_flags_ops(2)[of ping_frame "fst w i"]] assms(2) by simp
  then have "\<not> ag_adapter (fst (ag_notify_disconnect_once lib i (ag_upd i (\<lambda>_. snd (ag_send_n ping_frame (fst w i))) w)) i)"
    using notify_facts(2)[OF aw_inv_other[OF assms], where i = i and lib = lib] by simp
  with assms(2) \<open>\<not> ag_adapter (snd (ag_send_n ping_frame (fst w i)))\<close>
  show "\<not> ag_adapter (fst (snd (ag_handle_timeout lib i w)) i)"
    by (auto simp: ag_handle_timeout_def Let_def split: prod.split)
qed

lemma endpoint_call_two:
  assumes "e_log s1 = e_log (snd w) @ xs" and "e_log (g (snd w)) = e_log s1 @ ys"
  shows "endpoint_call lib g w = endpoint_call lib (\<lambda>_. g (snd w)) (fold (ag_event lib) xs (fst w), s1)"
  using assms by (simp add: endpoint_call_def)

text \<open>
  Attaching a stream: the one the endpoint had is closed, then the new one is its transport and gets what was
  waiting.  \<open>replaced lib i w\<close> are the streams between the two.
\<close>

definition replaced :: "'d ssl_lib \<Rightarrow> nat \<Rightarrow> ('d, 'a) agent_world \<Rightarrow> 'd agent_socks" where
  "replaced lib i w =
     fold (ag_event lib) (case ce_transport (snd w) of None \<Rightarrow> [] | Some t \<Rightarrow> [Closed (t_id t)])
       (fst (ag_upd i (\<lambda>a. a\<lparr>ag_attached := True, ag_adapter := True\<rparr>) w))"

lemma attach_split:
  assumes "\<not> ag_attached (fst w i)"
  obtains s where "ag_attach lib i now oks w = endpoint_call lib (\<lambda>_. flush_outbound s) (replaced lib i w, s)"
    "ce_transport s = Some \<lparr>t_id = i, t_oracle = oks\<rparr>"
proof -
  let ?s = "snd w" and ?t = "\<lparr>t_id = i, t_oracle = oks\<rparr>"
  let ?s1 = "if has_agent ?s then mark_disconnected ?s else ?s"
  let ?s2 = "?s1\<lparr>ce_transport := Some ?t, ce_pings_outstanding := 0,
    ce_last_heartbeat_unix := (if ce_clock ?s1 then now else ce_last_heartbeat_unix ?s1)\<rparr>"
  define s3 where "s3 = (if ce_bridge ?s2 then set_tunnel True ?s2 else ?s2)"
  let ?w = "ag_upd i (\<lambda>a. a\<lparr>ag_attached := True, ag_adapter := True\<rparr>) w"
  let ?xs = "case ce_transport ?s of None \<Rightarrow> [] | Some t \<Rightarrow> [Closed (t_id t)]"
  have res: "on_agent_connected now (Some ?t) ?s = flush_outbound s3"
    by (simp add: on_agent_connected_def s3_def Let_def)
  have log3: "e_log s3 = e_log ?s @ ?xs" and t3: "ce_transport s3 = Some ?t"
    by (auto simp: s3_def mark_disconnected_log has_agent_def set_tunnel_def split: option.split)
  obtain ys where "e_log (flush_outbound s3) = e_log s3 @ ys" using tstep_flush[of s3] unfolding tstep_def by blast
  then have "ag_attach lib i now oks w = endpoint_call lib (\<lambda>_. flush_outbound s3) (replaced lib i w, s3)"
    using assms endpoint_call_two[of s3 ?w ?xs "on_agent_connected now (Some ?t)" ys lib]
    by (simp add: ag_attach_def res log3 replaced_def)
  from that[OF this t3] show ?thesis .
qed

lemma replaced_facts:
  assumes "aw_inv A w" and "\<not> ag_adapter (fst w i)"
  shows "ag_adapter (replaced lib i w j) \<longleftrightarrow> j = i" and "ag_owner (replaced lib i w i) = ag_owner (fst w i)"
    and "ce_transport (snd w) = Some t \<Longrightarrow> \<not> ag_handle (replaced lib i w (t_id t))"
proof -
  have owner: "ce_transport (snd w) = Some t \<Longrightarrow> ag_adapter (fst w k) \<longleftrightarrow> k = t_id t" for k t
    using assms(1) by (auto simp: aw_inv_def)
  show "ag_adapter (replaced lib i w j) \<longleftrightarrow> j = i"
    using assms owner by (cases "ce_transport (snd w)") (auto simp: replaced_def aw_inv_def)
  show "ag_owner (replaced lib i w i) = ag_owner (fst w i)"
    using assms by (auto simp: replaced_def ag_owner_def aw_inv_def split: option.split)
  show "ce_transport (snd w) = Some t \<Longrightarrow> \<not> ag_handle (replaced lib i w (t_id t))"
    using assms(2) owner by (auto simp: replaced_def)
qed

lemma replaced_inv:
  assumes "aw_inv A w" and "\<not> ag_adapter (fst w i)" and "ag_owner (fst w i)" and "i \<in> A" and "ce_transport s = Some \<lparr>t_id = i, t_oracle = oks\<rparr>"
  shows "aw_inv A (replaced lib i w, s)"
  using replaced_facts(1,2)[OF assms(1,2), where lib = lib] assms(3-) by (auto simp: aw_inv_def)

lemma attach_inv:
  assumes inv: "aw_inv A w" and "\<not> ag_adapter (fst w i)" and own: "ag_owner (fst w i)" and "i \<in> A"
  shows "aw_inv A (ag_attach lib i now oks w)"
proof (cases "ag_attached (fst w i)")
  case False
  obtain s where call: "ag_attach lib i now oks w = endpoint_call lib (\<lambda>_. flush_outbound s) (replaced lib i w, s)"
    and t: "ce_transport s = Some \<lparr>t_id = i, t_oracle = oks\<rparr>" using attach_split[OF False] .
  show ?thesis
    unfolding call by (rule endpoint_call_tstep(1)) (simp_all add: replaced_inv[OF assms t] tstep_flush)
qed (simp add: ag_attach_def inv)

text \<open>A stream whose writes are accepted keeps its place; the one before it is closed.\<close>

lemma attach_takes_over:
  assumes inv: "aw_inv A w" and ad: "\<not> ag_adapter (fst w i)" and own: "ag_owner (fst w i)" and "i \<in> A"
    and "\<not> ag_attached (fst w i)"
  shows "ce_transport (snd (ag_attach lib i now [] w)) = Some \<lparr>t_id = i, t_oracle = []\<rparr>"
    and "ce_transport (snd w) = Some t \<Longrightarrow> \<not> ag_handle (fst (ag_attach lib i now [] w) (t_id t))"
proof -
  obtain s where call: "ag_attach lib i now [] w = endpoint_call lib (\<lambda>_. flush_outbound s) (replaced lib i w, s)"
    and t: "ce_transport s = Some \<lparr>t_id = i, t_oracle = []\<rparr>" using attach_split[OF assms(5)] .
  have t': "ce_transport (flush_outbound s) = Some \<lparr>t_id = i, t_oracle = []\<rparr>"
    using flush_outbound_healthy(2)[OF t] by simp
  then show "ce_transport (snd (ag_attach lib i now [] w)) = Some \<lparr>t_id = i, t_oracle = []\<rparr>"
    by (simp add: call endpoint_call_def)
  obtain es where es: "e_log (flush_outbound s) = e_log s @ es" "\<forall>e \<in> set es. \<exists>b. e = Sent i b"
    using tstep_flush[of s] t t' unfolding tstep_def by auto
  have h: "fst (ag_attach lib i now [] w) = fold (ag_event lib) es (replaced lib i w)"
    by (simp add: call endpoint_call_def es(1))
  show "\<not> ag_handle (fst (ag_attach lib i now [] w) (t_id t))" if "ce_transport (snd w) = Some t" for t
    using replaced_facts(3)[OF inv ad that, of lib] ag_flagsD[OF ag_events_sent(1)[OF es(2)]] unfolding h by blast
qed

lemma register_flags: "ag_flags (snd (ag_register_with_reactor ok n a)) = ag_flags a"
  by (simp add: ag_register_with_reactor_def ag_flags_def)

lemma finish_handoff_inv: "aw_inv A w \<Longrightarrow> aw_inv A (finish_handoff lib ho i w)"
proof -
  assume "aw_inv A w"
  then have "aw_inv A (ag_upd i (\<lambda>_. snd (ag_register_with_reactor (ho_registered ho) (ho_timer ho) (fst w i))) w)"
    by (intro aw_inv_upd) (simp_all add: register_flags)
  then show ?thesis
    by (auto simp: finish_handoff_def Let_def destroy_inv split: prod.split)
qed

lemma setup_agent_tls_flags:
  "setup_agent_tls lib cn d0 reads oks a = Some (e, a') \<Longrightarrow>
     ag_adapter a' = ag_adapter a \<and> ag_owner a' = ag_owner a"
  by (auto simp: setup_agent_tls_def Let_def ag_owner_def leftover_socket_bytes_def
      split: if_splits option.splits prod.splits shake_exit.splits)

lemma handoff_inv:
  assumes "aw_inv A w" and "\<not> ag_adapter (fst w i)" and "i \<in> A" and "handoff_agent_stream lib cn ho i w = Some w'"
  shows "aw_inv A w'"
proof -
  let ?a = "new_agent_sock (ho_sends ho)" and ?w = "\<lambda>a. ag_upd i (\<lambda>_. a) w"
  have new: "\<not> ag_adapter ?a" "ag_owner ?a" by (simp_all add: new_agent_sock_def ag_owner_def)
  have ok: "aw_inv A (?w a)" if "\<not> ag_adapter a" for a using aw_inv_other[OF assms(1,2)] that .
  have at: "aw_inv A (ag_attach lib i now oks (?w a))" if "\<not> ag_adapter a" "ag_owner a" for now oks a
    using attach_inv[OF ok] that assms(3) by simp
  show ?thesis
  proof (cases "ho_inner_tls ho")
    case False
    with assms(4) at[OF new] show ?thesis
      by (auto simp: handoff_agent_stream_def intro: finish_handoff_inv)
  next
    case True
    then obtain e a where a: "setup_agent_tls lib cn (ho_ssl ho) (ho_reads ho) (ho_shake_sends ho) ?a = Some (e, a)"
      using assms(4) by (auto simp: handoff_agent_stream_def split: option.splits)
    with setup_agent_tls_flags[OF a] new have "\<not> ag_adapter a" "ag_owner a" by auto
    with True assms(4) a show ?thesis
      by (auto simp: handoff_agent_stream_def Let_def intro: finish_handoff_inv at ok destroy_inv split: shake_exit.splits)
  qed
qed

lemma finish_handoff_registered:
  assumes "ho_registered ho" and "ho_timer ho \<noteq> -1"
  shows "snd (finish_handoff lib ho i w) = snd w" and "ag_handle (fst (finish_handoff lib ho i w) j) = ag_handle (fst w j)"
  using assms by (auto simp: finish_handoff_def ag_register_with_reactor_def Let_def)

lemma handoff_takes_over:
  assumes "aw_inv A w" and "\<not> ag_adapter (fst w i)" and "i \<in> A"
    and reg: "ho_registered ho" "ho_timer ho \<noteq> -1" and "ho_writes ho = []"
    and shake: "ho_inner_tls ho \<Longrightarrow> \<exists>d b. inner_shake lib bridge_transport
      (ho_ssl ho, new_tls_bridge False (ho_reads ho) (ho_shake_sends ho) []) = Some (ShakeTrue, d, b)"
  shows "\<exists>w'. handoff_agent_stream lib cn ho i w = Some w' \<and>
    ce_transport (snd w') = Some \<lparr>t_id = i, t_oracle = []\<rparr> \<and>
    (\<forall>t. ce_transport (snd w) = Some t \<longrightarrow> \<not> ag_handle (fst w' (t_id t)))"
proof -
  obtain a where a: "\<not> ag_adapter a" "ag_owner a" "\<not> ag_attached a"
    and run: "handoff_agent_stream lib cn ho i w =
      Some (finish_handoff lib ho i (ag_attach lib i (ho_now ho) [] (ag_upd i (\<lambda>_. a) w)))"
  proof (cases "ho_inner_tls ho")
    case False
    then show thesis using that[of "new_agent_sock (ho_sends ho)"] assms(6)
      by (simp add: handoff_agent_stream_def Let_def new_agent_sock_def ag_owner_def)
  next
    case True
    then obtain d b where "inner_shake lib bridge_transport
      (ho_ssl ho, new_tls_bridge False (ho_reads ho) (ho_shake_sends ho) []) = Some (ShakeTrue, d, b)" using shake by blast
    with True assms(6) that[of "(new_agent_sock (ho_sends ho))\<lparr>ag_tls := Some (d, (switch_to_buffered b)\<lparr>tb_socket_buf := []\<rparr>),
        ag_recv_buf := tb_socket_buf (switch_to_buffered b), ag_peer_cn := cn d\<rparr>"] show thesis
      by (simp add: handoff_agent_stream_def Let_def setup_agent_tls_def new_agent_sock_def ag_owner_def
          leftover_socket_bytes_def)
  qed
  let ?w = "ag_upd i (\<lambda>_. a) w"
  have inv: "aw_inv A ?w" by (rule aw_inv_other[OF assms(1,2) a(1)])
  have pre: "\<not> ag_adapter (fst ?w i)" "ag_owner (fst ?w i)" "\<not> ag_attached (fst ?w i)" using a by simp_all
  note over = attach_takes_over[OF inv pre(1,2) assms(3) pre(3), where lib = lib and now = "ho_now ho"]
  with run show ?thesis by (simp add: finish_handoff_registered[OF reg])
qed

context cloud_handlers
begin

lemma deliver_inv:
  assumes "ag_deliver lib env i p w = Some (b, w')" and "aw_inv A w"
  shows "aw_inv A w'"
proof -
  obtain s where "on_bytes_received env (bytes_to_string p) (snd w) = Some s"
    and w': "w' = endpoint_call lib (\<lambda>_. s) w"
    using assms(1) by (auto simp: ag_deliver_def Let_def split: option.splits)
  then show ?thesis
    using endpoint_call_tstep(1)[where w = w and g = "\<lambda>_. s" and A = A] tstep_received assms(2) by simp
qed

lemma frame_inv:
  assumes "ag_frame lib env i f w = Some (e, w')" and inv: "aw_inv A w"
  shows "aw_inv A w'"
proof -
  have up: "aw_inv A (ag_upd i g w)" if "\<And>a. ag_flags (g a) = ag_flags a" "aw_inv A w" for g and w :: "('d, 'a) agent_world"
    using that by (intro aw_inv_upd)
  show ?thesis
  proof (cases "ws_opcode f \<in> {0x2, 0x1, 0x0}")
    case True
    show ?thesis
    proof (cases "ag_tls (fst w i)")
      case None
      with True assms show ?thesis
        by (auto simp: ag_frame_def intro: deliver_inv split: option.splits)
    next
      case (Some x)
      let ?w = "ag_upd i (\<lambda>a. a\<lparr>ag_tls := Some (fst x, push_inbound (ws_payload f) (snd x))\<rparr>) w"
      let ?pump = "tls_pump lib (\<lambda>w. the (ag_tls (fst w i))) (\<lambda>x. ag_upd i (\<lambda>a. a\<lparr>ag_tls := Some x\<rparr>))
        (ag_deliver lib env i) ?w"
      have w0: "aw_inv A ?w" using inv by (intro up) simp_all
      have "aw_inv A (snd y)" if "?pump = Some y" for y
        using that by (rule tls_pump_preserves[where P = "aw_inv A"]) (auto intro: deliver_inv up w0)
      with True Some assms(1) show ?thesis
        by (cases x) (force simp: ag_frame_def notify_facts split: option.splits pump_exit.splits)
    qed
  next
    case False
    have "aw_inv A (ag_upd i (\<lambda>a. snd (ag_send_n x a)) w)" for x using inv by (intro up) simp_all
    with False assms show ?thesis
      by (auto simp: ag_frame_def notify_facts split: if_splits)
  qed
qed

lemma input_inv:
  assumes "ag_handle_input lib env i chunk w = Some (e, w')" and inv: "aw_inv A w"
  shows "aw_inv A w'"
proof -
  have buf: "aw_inv A (ag_upd i (\<lambda>a. a\<lparr>ag_recv_buf := b\<rparr>) w)" if "aw_inv A w" for b and w :: "('d, 'a) agent_world"
    using that by (auto simp: aw_inv_def ag_owner_def)
  have "aw_inv A (snd (snd y))"
    if "ws_pump (ag_frame lib env i) (ag_recv_buf (fst w i) @ chunk, ag_upd i (\<lambda>a. a\<lparr>ag_recv_buf := []\<rparr>) w) = Some y" for y
    using that by (rule ws_pump_preserves[where P = "aw_inv A"]) (auto intro: frame_inv buf inv)
  with assms buf show ?thesis
    by (force simp: ag_handle_input_def notify_facts split: if_splits option.splits)
qed

lemma sock_exec_inv:
  assumes inv: "aw_inv {..<fst nw} (snd nw)"
  shows "aw_inv {..<fst (sock_exec lib cn env op nw)} (snd (sock_exec lib cn env op nw))"
proof (cases op)
  case (Handoff ho)
  have "\<not> ag_adapter (fst (snd nw) (fst nw))" using inv by (auto simp: aw_inv_def)
  moreover have "aw_inv {..<Suc (fst nw)} (snd nw)" using inv by (force simp: aw_inv_def)
  ultimately have "aw_inv {..<Suc (fst nw)} w" if "handoff_agent_stream lib cn ho (fst nw) (snd nw) = Some w" for w
    using handoff_inv that by blast
  with Handoff inv show ?thesis by (simp split: option.split)
next
  case (SockInput i chunk)
  have "aw_inv {..<fst nw} (after_input lib i (ag_handle_input lib env i got (snd nw)) (snd nw))" for got
    using inv input_inv[of lib i got "snd nw"]
    by (auto simp: after_input_def intro: ag_close_inv split: option.split)
  with SockInput inv show ?thesis by (simp add: Let_def)
next
  case (SockTimer i)
  have "aw_inv {..<fst nw} (snd (ag_handle_timeout lib i (snd nw)))" by (rule handle_timeout_inv[OF inv])
  with SockTimer inv show ?thesis by (auto simp: Let_def intro: ag_close_inv split: prod.split)
next
  case (SockClose i)
  with inv show ?thesis by (simp add: ag_close_inv)
next
  case (EndpointOp eop)
  show ?thesis
  proof (cases "\<exists>now t. eop = Connected now t")
    case False
    then have "tstep (snd (snd nw)) (cloud_exec env eop (snd (snd nw)))" by (intro tstep_exec) blast
    from endpoint_call_tstep(1)[where g = "cloud_exec env eop", OF inv this] False EndpointOp show ?thesis
      by (auto split: cloud_op.split)
  qed (use EndpointOp inv in auto)
qed

lemma sock_run_inv:
  "aw_inv {..<fst nw} (snd nw) \<Longrightarrow>
     aw_inv {..<fst (fold (sock_exec lib cn env) ops nw)} (snd (fold (sock_exec lib cn env) ops nw))"
  by (induction ops arbitrary: nw) (simp_all add: sock_exec_inv)

end

text \<open>Before the first hand-off.\<close>

definition no_streams :: "'d agent_socks" where
  "no_streams = (\<lambda>_. (new_agent_sock [])\<lparr>ag_handle := False\<rparr>)"

lemma no_streams_inv: "ce_transport s = None \<Longrightarrow> aw_inv {..<0} (no_streams, s)"
  by (simp add: aw_inv_def no_streams_def new_agent_sock_def)

end
