(* ===== verification/Ssl_Transport.thy ===== *)
theory Ssl_Transport
  imports Inner_Tls Asterisk_Stream
begin

text \<open>
  The agent's end of the tunnel socket: \<^verbatim>\<open>AceSslTransport\<close> and its factory
  (\<^verbatim>\<open>pbx-agent/src/main/ace_ssl_transport.cpp\<close>) with the worker that hands the received bytes on,
  \<^verbatim>\<open>InnerTlsDispatchTask\<close> (\<^verbatim>\<open>inner_tls_task.cpp\<close>).

  The calls of \<^verbatim>\<open>m_on_disconnect\<close> are counted in \<^verbatim>\<open>st_lost\<close>; the callback only asks the connector for a
  disconnect.  \<^verbatim>\<open>m_on_bytes\<close> queues a block on the worker; what the worker hands to the handlers is the
  list \<^verbatim>\<open>dt_handled\<close>.  An exception of a handler is swallowed by the worker.
\<close>

section \<open>InnerTlsDispatchTask\<close>

datatype task_block = BlockData string | BlockHangup | BlockStop

datatype handled = HandledBytes string | HandledLost

record dispatch_task =
  dt_synchronous :: bool
  dt_continue :: bool
  dt_stop_called :: bool
  dt_queue :: "task_block list"
  dt_handled :: "handled list"

definition new_dispatch_task :: dispatch_task where
  "new_dispatch_task =
     \<lparr>dt_synchronous = False, dt_continue = False, dt_stop_called = False, dt_queue = [], dt_handled = []\<rparr>"

definition task_set_synchronous :: "'a dispatch_task_scheme \<Rightarrow> 'a dispatch_task_scheme" where
  "task_set_synchronous k = k\<lparr>dt_synchronous := True\<rparr>"

text \<open>\<open>activated\<close> is the answer of \<^verbatim>\<open>activate\<close>.\<close>

definition task_start :: "bool \<Rightarrow> 'a dispatch_task_scheme \<Rightarrow> int \<times> 'a dispatch_task_scheme" where
  "task_start activated k =
     (if dt_synchronous k then (0, k\<lparr>dt_continue := True\<rparr>)
      else if activated then (0, k\<lparr>dt_continue := True\<rparr>)
      else (-1, k\<lparr>dt_continue := False\<rparr>))"

text \<open>\<open>queued\<close> is the answer of \<^verbatim>\<open>putq\<close>.\<close>

definition task_put :: "bool \<Rightarrow> task_block \<Rightarrow> 'a dispatch_task_scheme \<Rightarrow> bool \<times> 'a dispatch_task_scheme" where
  "task_put queued mb k =
     (if \<not> dt_continue k then (False, k)
      else if \<not> queued then (False, k)
      else (True, k\<lparr>dt_queue := dt_queue k @ [mb]\<rparr>))"

definition dispatch_bytes :: "bool \<Rightarrow> string \<Rightarrow> 'a dispatch_task_scheme \<Rightarrow> bool \<times> 'a dispatch_task_scheme" where
  "dispatch_bytes queued bytes k =
     (if dt_synchronous k then (True, k\<lparr>dt_handled := dt_handled k @ [HandledBytes bytes]\<rparr>)
      else task_put queued (BlockData bytes) k)"

definition dispatch_disconnect :: "bool \<Rightarrow> 'a dispatch_task_scheme \<Rightarrow> bool \<times> 'a dispatch_task_scheme" where
  "dispatch_disconnect queued k =
     (if dt_synchronous k then (True, k\<lparr>dt_handled := dt_handled k @ [HandledLost]\<rparr>)
      else task_put queued BlockHangup k)"

text \<open>One turn of \<^verbatim>\<open>svc\<close>; an empty queue leaves the worker blocked in \<^verbatim>\<open>getq\<close>.\<close>

definition svc_turn :: "'a dispatch_task_scheme \<Rightarrow> 'a dispatch_task_scheme" where
  "svc_turn k =
     (if \<not> dt_continue k then k
      else case dt_queue k of
             [] \<Rightarrow> k
           | BlockData payload # mbs \<Rightarrow> k\<lparr>dt_queue := mbs, dt_handled := dt_handled k @ [HandledBytes payload]\<rparr>
           | BlockHangup # mbs \<Rightarrow> k\<lparr>dt_queue := mbs, dt_handled := dt_handled k @ [HandledLost]\<rparr>
           | BlockStop # mbs \<Rightarrow> k\<lparr>dt_queue := mbs, dt_continue := False\<rparr>)"

text \<open>\<^verbatim>\<open>stop\<close>: the flag ends the worker at its next turn, the queue is emptied after the join.\<close>

definition task_stop :: "'a dispatch_task_scheme \<Rightarrow> 'a dispatch_task_scheme" where
  "task_stop k =
     (if dt_stop_called k then k
      else let k1 = k\<lparr>dt_stop_called := True, dt_continue := False\<rparr>
           in if dt_synchronous k1 then k1 else k1\<lparr>dt_queue := []\<rparr>)"

section \<open>AceSslTransport\<close>

record 'c ssl_transport = dispatch_task +
  st_handle :: bool
  st_recv_buf :: "u8 list"
  st_close_notified :: bool
  st_tls :: "('c \<times> tls_bridge) option"
  st_lost :: nat
  st_sends :: "bool list"
  st_keys :: "u32 list"
  st_written :: "u8 list list"

definition st_send_n :: "u8 list \<Rightarrow> 'c ssl_transport \<Rightarrow> bool \<times> 'c ssl_transport" where
  "st_send_n bytes x =
     (case st_sends x of
        [] \<Rightarrow> (True, x\<lparr>st_written := st_written x @ [bytes]\<rparr>)
      | ok # oks \<Rightarrow> (ok, x\<lparr>st_written := st_written x @ [bytes], st_sends := oks\<rparr>))"

definition st_draw_key :: "'c ssl_transport \<Rightarrow> u32 \<times> 'c ssl_transport" where
  "st_draw_key x = (case st_keys x of [] \<Rightarrow> (0, x) | k # ks \<Rightarrow> (k, x\<lparr>st_keys := ks\<rparr>))"

definition st_send_masked :: "u8 list \<Rightarrow> u8 \<Rightarrow> 'c ssl_transport \<Rightarrow> bool \<times> 'c ssl_transport" where
  "st_send_masked payload opcode x =
     (let (k, x1) = st_draw_key x in st_send_n (ws_encode payload opcode True 0 k) x1)"

definition st_notify_disconnect_once :: "'c ssl_transport \<Rightarrow> 'c ssl_transport" where
  "st_notify_disconnect_once x =
     (if st_close_notified x then x else x\<lparr>st_close_notified := True, st_lost := Suc (st_lost x)\<rparr>)"

definition st_send :: "'c ssl_lib \<Rightarrow> string \<Rightarrow> 'c ssl_transport \<Rightarrow> bool \<times> 'c ssl_transport" where
  "st_send lib bytes x =
     (if \<not> st_handle x then (False, x)
      else let (ok, x1) =
             (case st_tls x of
                Some s \<Rightarrow>
                  (let (ok, s1) = inner_send lib bridge_transport (string_to_bytes bytes) s
                   in (ok, x\<lparr>st_tls := Some s1\<rparr>))
              | None \<Rightarrow> st_send_masked (string_to_bytes bytes) 0x1 x)
           in if ok then (True, x1) else (False, st_notify_disconnect_once x1))"

definition st_send_ws_ping :: "'c ssl_transport \<Rightarrow> bool \<times> 'c ssl_transport" where
  "st_send_ws_ping x =
     (if \<not> st_handle x then (False, x)
      else let (ok, x1) = st_send_masked [] 0x9 x
           in if ok then (True, x1) else (False, st_notify_disconnect_once x1))"

definition st_close :: "'c ssl_transport \<Rightarrow> 'c ssl_transport" where
  "st_close x =
     (if \<not> st_handle x then x
      else (snd (st_send_n close_frame x))\<lparr>st_handle := False, st_close_notified := True\<rparr>)"

text \<open>\<^verbatim>\<open>m_on_bytes\<close> as the factory sets it; the socket stays open whatever the queue says.\<close>

definition st_deliver :: "u8 list \<Rightarrow> 'c ssl_transport \<Rightarrow> (bool \<times> 'c ssl_transport) option" where
  "st_deliver payload x =
     (let x1 = snd (dispatch_bytes True (bytes_to_string payload) x) in Some (st_handle x1, x1))"

definition st_frame :: "'c ssl_lib \<Rightarrow> ws_frame \<Rightarrow> 'c ssl_transport \<Rightarrow> (drain_exit \<times> 'c ssl_transport) option" where
  "st_frame lib f x =
     (if ws_opcode f \<in> {0x2, 0x1, 0x0} then
        (case st_tls x of
           Some (c, b) \<Rightarrow>
             (case tls_pump lib (\<lambda>x. the (st_tls x)) (\<lambda>s x. x\<lparr>st_tls := Some s\<rparr>) st_deliver
                     (x\<lparr>st_tls := Some (c, push_inbound (ws_payload f) b)\<rparr>) of
                None \<Rightarrow> None
              | Some (PumpDrained, x1) \<Rightarrow> Some (DrainMore, x1)
              | Some (PumpClosed, x1) \<Rightarrow> Some (DrainStop, x1)
              | Some (PumpLost, x1) \<Rightarrow> Some (DrainStop, st_notify_disconnect_once x1)
              | Some (PumpThrow, x1) \<Rightarrow> Some (DrainThrow, x1))
         | None \<Rightarrow>
             (case st_deliver (ws_payload f) x of
                None \<Rightarrow> None
              | Some (still, x1) \<Rightarrow> Some (if still then DrainMore else DrainStop, x1)))
      else if ws_opcode f = 0x9 then Some (DrainMore, snd (st_send_masked (ws_payload f) 0xA x))
      else if ws_opcode f = 0xA then Some (DrainMore, x)
      else if ws_opcode f = 0x8 then
        Some (DrainStop, st_notify_disconnect_once (snd (st_send_n close_frame x)))
      else Some (DrainStop, st_notify_disconnect_once x))"

definition st_handle_input ::
    "'c ssl_lib \<Rightarrow> u8 list \<Rightarrow> 'c ssl_transport \<Rightarrow> (drain_exit \<times> 'c ssl_transport) option" where
  "st_handle_input lib chunk x =
     (if chunk = [] then Some (DrainStop, st_notify_disconnect_once x)
      else case ws_pump (st_frame lib) (st_recv_buf x @ chunk, x\<lparr>st_recv_buf := []\<rparr>) of
             None \<Rightarrow> None
           | Some (e, b, x1) \<Rightarrow> Some (e, x1\<lparr>st_recv_buf := b\<rparr>))"

definition st_handle_close :: "'c ssl_transport \<Rightarrow> 'c ssl_transport" where
  "st_handle_close x = (st_notify_disconnect_once x)\<lparr>st_handle := False\<rparr>"

section \<open>Connecting\<close>

definition agent_upgrade_request :: "string \<Rightarrow> string \<Rightarrow> string \<Rightarrow> string" where
  "agent_upgrade_request host path key =
     ''GET '' @ path @ '' HTTP/1.1'' @ [CHR 0x0D, CHR 0x0A] @
     ''Host: '' @ host @ [CHR 0x0D, CHR 0x0A] @
     ''Upgrade: websocket'' @ [CHR 0x0D, CHR 0x0A] @ ''Connection: Upgrade'' @ [CHR 0x0D, CHR 0x0A] @
     ''Sec-WebSocket-Key: '' @ key @ [CHR 0x0D, CHR 0x0A] @
     ''Sec-WebSocket-Version: 13'' @ [CHR 0x0D, CHR 0x0A] @ [CHR 0x0D, CHR 0x0A]"

text \<open>
  Reading the answer one character at a time up to the blank line or 4096 characters; \<^term>\<open>None\<close> when the
  connection is lost before.  The rest of the characters stays on the socket.
\<close>

fun read_upgrade_head :: "string \<Rightarrow> string \<Rightarrow> (string \<times> string) option" where
  "read_upgrade_head headers inp =
     (if 4096 \<le> length headers then Some (headers, inp)
      else case inp of
             [] \<Rightarrow> None
           | c # inp' \<Rightarrow>
               (let headers' = headers @ [c]
                in if 4 \<le> length headers' \<and> drop (length headers' - 4) headers' = [CHR 0x0D, CHR 0x0A, CHR 0x0D, CHR 0x0A]
                   then Some (headers', inp') else read_upgrade_head headers' inp'))"

text \<open>
  What the outside decides of one dial: the TLS connection, the key drawn, the write of the request, the
  characters of the answer, and for the inner session the outcome of loading the certificates, the SSL object,
  the reads and writes of the handshake and the check of the host name.
\<close>

record 'c dial =
  di_connected :: bool
  di_key :: string
  di_sent :: bool
  di_answer :: string
  di_cert_ok :: bool
  di_ssl :: 'c
  di_reads :: "u8 list list"
  di_sends :: "bool list"
  di_keys :: "u32 list"
  di_host_ok :: bool
  di_registered :: bool

record inner_tls_config =
  it_cert_path :: string
  it_key_path :: string
  it_ca_path :: string
  it_hostname :: string

definition st_connect_and_handshake ::
    "'c ssl_lib \<Rightarrow> (string \<Rightarrow> string) \<Rightarrow> inner_tls_config \<Rightarrow> 'c dial \<Rightarrow> 'c ssl_transport \<Rightarrow> (shake_exit \<times> 'c ssl_transport) option" where
  "st_connect_and_handshake lib sha1_base64 inner_tls di x =
     (let up = x\<lparr>st_handle := True\<rparr>; down = x\<lparr>st_handle := False\<rparr>
      in if \<not> di_connected di then Some (ShakeFalse, x)
         else if \<not> di_sent di then Some (ShakeFalse, down)
         else case read_upgrade_head [] (di_answer di) of
                None \<Rightarrow> Some (ShakeFalse, down)
              | Some (headers, _) \<Rightarrow>
                  if \<not> validate_upgrade_response sha1_base64 headers (di_key di) then Some (ShakeFalse, down)
                  else if it_cert_path inner_tls = [] then Some (ShakeTrue, up)
                  else if \<not> di_cert_ok di then Some (ShakeFalse, down)
                  else case inner_shake lib bridge_transport
                              (di_ssl di, new_tls_bridge True (di_reads di) (di_sends di) (di_keys di)) of
                         None \<Rightarrow> None
                       | Some (ShakeThrow, _) \<Rightarrow> Some (ShakeThrow, up)
                       | Some (ShakeFalse, _) \<Rightarrow> Some (ShakeFalse, down)
                       | Some (ShakeTrue, c, b) \<Rightarrow>
                           if it_hostname inner_tls \<noteq> [] \<and> \<not> di_host_ok di then Some (ShakeFalse, down)
                           else let (left, b1) = leftover_socket_bytes (switch_to_buffered b)
                                in Some (ShakeTrue, up\<lparr>st_tls := Some (c, b1), st_recv_buf := left\<rparr>))"

text \<open>
  The destructor; a transport that is not handed out is destroyed at once, also when an exception of the
  handshake leaves the factory.
\<close>

definition st_destroy :: "'c ssl_transport \<Rightarrow> 'c ssl_transport" where
  "st_destroy x = (st_notify_disconnect_once x)\<lparr>st_handle := False, st_tls := None\<rparr>"

definition st_create_connected ::
    "'c ssl_lib \<Rightarrow> (string \<Rightarrow> string) \<Rightarrow> inner_tls_config \<Rightarrow> 'c dial \<Rightarrow> 'c ssl_transport \<Rightarrow> (shake_exit \<times> 'c ssl_transport) option" where
  "st_create_connected lib sha1_base64 inner_tls di x =
     (case st_connect_and_handshake lib sha1_base64 inner_tls di x of
        None \<Rightarrow> None
      | Some (ShakeTrue, x1) \<Rightarrow> Some (if di_registered di then (ShakeTrue, x1) else (ShakeFalse, st_destroy x1))
      | Some (e, x1) \<Rightarrow> Some (e, st_destroy x1))"

section \<open>The worker hands on what was queued\<close>

lemma svc_turns:
  assumes "dt_continue k" and "dt_queue k = map BlockData ps @ mbs"
  shows "(svc_turn ^^ length ps) k = k\<lparr>dt_queue := mbs, dt_handled := dt_handled k @ map HandledBytes ps\<rparr>"
  using assms
proof (induction ps arbitrary: k)
  case (Cons p ps)
  let ?k = "svc_turn k"
  have k: "?k = k\<lparr>dt_queue := map BlockData ps @ mbs, dt_handled := dt_handled k @ [HandledBytes p]\<rparr>"
    using Cons.prems by (simp add: svc_turn_def)
  have "(svc_turn ^^ length (p # ps)) k = (svc_turn ^^ length ps) ?k"
    by (simp add: funpow_swap1)
  also have "\<dots> = ?k\<lparr>dt_queue := mbs, dt_handled := dt_handled ?k @ map HandledBytes ps\<rparr>"
    using Cons.prems(1) by (intro Cons.IH) (simp_all add: k)
  finally show ?case by (simp add: k)
qed simp

text \<open>The callback is called at most once, and not at all after the owner has closed the transport.\<close>

lemma notify_once [simp]:
  "st_notify_disconnect_once (st_notify_disconnect_once x) = st_notify_disconnect_once x"
  "st_close_notified (st_notify_disconnect_once x)"
  by (simp_all add: st_notify_disconnect_once_def)

end
