(* ===== verification/Tls_Tunnel.thy ===== *)
theory Tls_Tunnel
  imports Agent_Stream Ssl_Transport
begin

text \<open>
  The two ends of the tunnel socket together: what the agent's transport is given comes out of the
  cloud's stream, and the other way round, through the inner TLS session, the WebSocket frames and
  whatever cuts the network makes.
\<close>

section \<open>Records\<close>

text \<open>
  Plaintexts \<open>ps\<close> written one after the other by an object in state \<open>c\<close> become the records \<open>ws\<close>; the peer's object
  gets each plaintext back from its record.
\<close>

inductive tls_records :: "'d ssl_lib \<Rightarrow> ('c \<Rightarrow> 'd \<Rightarrow> bool) \<Rightarrow> u8 list list \<Rightarrow> u8 list list \<Rightarrow> 'c \<Rightarrow> 'c \<Rightarrow> bool"
  for rlib linked where
  records_none: "tls_records rlib linked [] [] c c"
| records_some: "(\<And>d. linked c d \<Longrightarrow> \<exists>d1. ssl_yields rlib (bio_put rlib w d) p d1 \<and> linked c1 d1)
    \<Longrightarrow> p \<noteq> [] \<Longrightarrow> w \<noteq> [] \<Longrightarrow> length w < 2 ^ 32 \<Longrightarrow> tls_records rlib linked ps ws c1 c2
    \<Longrightarrow> tls_records rlib linked (p # ps) (w # ws) c c2"

text \<open>The frames on the socket, with the masking key drawn for each.\<close>

definition record_frame :: "bool \<Rightarrow> u8 list \<times> u32 \<Rightarrow> u8 list" where
  "record_frame masked x = ws_encode (fst x) 0x2 masked 0 (snd x)"

lemma record_frame_decode:
  assumes "length (fst x) < 2 ^ 32"
  shows "ws_decode (record_frame masked x @ r) = WsSome \<lparr>ws_opcode = 0x2, ws_payload = fst x\<rparr> r"
proof -
  have "(2 :: u8) AND 15 = 2" by simp
  then show ?thesis using assms ws_decode_encode[of "fst x" 2 masked 0 "snd x" r] by (simp add: record_frame_def)
qed

lemma inner_send_record:
  assumes laws: "tls_laws wlib rlib linked" and "linked c d" and "p \<noteq> []" and "length p < 2 ^ 31" and "tb_healthy b"
  obtains c2 b2 w key where "inner_send wlib bridge_transport p (c, b) = (True, c2, b2)" "tb_healthy b2"
    "tb_written b2 = tb_written b @ [record_frame (tb_client_mask b) (w, key)]" "tb_client_mask b2 = tb_client_mask b"
    "w \<noteq> []" "length w < 2 ^ 32" "\<exists>d1. linked c2 d1"
    "\<And>d. linked c d \<Longrightarrow> \<exists>d1. ssl_yields rlib (bio_put rlib w d) p d1 \<and> linked c2 d1"
proof -
  obtain c2 b2 w d1 key where s: "inner_send wlib bridge_transport p (c, b) = (True, c2, b2)" "tb_healthy b2"
    "tb_written b2 = tb_written b @ [ws_encode w 0x2 (tb_client_mask b) 0 key]" "tb_client_mask b2 = tb_client_mask b"
    "w \<noteq> []" "length w < 2 ^ 32" "linked c2 d1"
    using inner_send_frame[OF assms] by metis
  obtain c1 w' c2' where w': "ssl_write wlib p c = (True, c1)" "bio_take wlib c1 = (w', c2')"
    using tls_writeE[OF assms(1-4)] by metis
  obtain key' b' where b': "bridge_send w' b = (True, b')"
    "tb_written b' = tb_written b @ [ws_encode w' 0x2 (tb_client_mask b) 0 key']"
    using bridge_send_healthy[OF assms(5)] by metis
  have "w' \<noteq> []" "length w' < 2 ^ 32"
    using tls_writeE[OF assms(1-4)] w' by fastforce+
  then have eq: "c2 = c2'" "b2 = b'"
    using s(1) w' b' by (auto simp: inner_send_def flush_wbio_def bridge_transport_def)
  have "\<exists>d1. ssl_yields rlib (bio_put rlib w' d) p d1 \<and> linked c2 d1" if "linked c d" for d
    using tls_writeE[OF laws that assms(3,4)] w' eq by (metis prod.inject)
  with that[of c2 b2 w' key'] s b' eq \<open>w' \<noteq> []\<close> \<open>length w' < 2 ^ 32\<close> show ?thesis
    by (auto simp: record_frame_def)
qed

lemma tls_records_length: "tls_records rlib linked ps ws c c2 \<Longrightarrow> w \<in> set ws \<Longrightarrow> length w < 2 ^ 32"
  by (induction rule: tls_records.induct) auto

text \<open>The same with the answer of \<^verbatim>\<open>send_n\<close> handed over beforehand.\<close>

lemma inner_send_answered:
  assumes laws: "tls_laws wlib rlib linked" and "linked c d" and "p \<noteq> []" and "length p < 2 ^ 31" and "\<not> tb_closed b"
  obtains c2 b2 w key where "snd (inner_send wlib bridge_transport p (c, b\<lparr>tb_sends := [True]\<rparr>)) = (c2, b2)"
    "\<not> tb_closed b2" "tb_client_mask b2 = tb_client_mask b"
    "tb_written b2 = tb_written b @ [record_frame (tb_client_mask b) (w, key)]"
    "w \<noteq> []" "length w < 2 ^ 32" "\<exists>d1. linked c2 d1"
    "\<And>d. linked c d \<Longrightarrow> \<exists>d1. ssl_yields rlib (bio_put rlib w d) p d1 \<and> linked c2 d1"
proof -
  have "tb_healthy (b\<lparr>tb_sends := []\<rparr>)" using assms(5) by (simp add: tb_healthy_def)
  from inner_send_record[OF assms(1-4) this] obtain c2 b2 w key where
    s: "inner_send wlib bridge_transport p (c, b\<lparr>tb_sends := []\<rparr>) = (True, c2, b2)" "tb_healthy b2"
    "tb_written b2 = tb_written (b\<lparr>tb_sends := []\<rparr>) @ [record_frame (tb_client_mask (b\<lparr>tb_sends := []\<rparr>)) (w, key)]"
    "tb_client_mask b2 = tb_client_mask (b\<lparr>tb_sends := []\<rparr>)"
    "w \<noteq> []" "length w < 2 ^ 32" "\<exists>d1. linked c2 d1"
    "\<And>d. linked c d \<Longrightarrow> \<exists>d1. ssl_yields rlib (bio_put rlib w d) p d1 \<and> linked c2 d1" by blast
  have "tb_emit u v (b\<lparr>tb_sends := [True]\<rparr>) = tb_emit u v (b\<lparr>tb_sends := []\<rparr>)" for u v
    by (simp add: tb_emit_def tb_send_raw_def tb_frame_def split: list.split)
  then have "snd (inner_send wlib bridge_transport p (c, b\<lparr>tb_sends := [True]\<rparr>)) = (c2, b2)"
    using s(1,3) assms(5) by (auto simp: inner_send_def flush_wbio_def bridge_transport_def bridge_send_def
        split: prod.splits bool.splits if_splits)
  with that s show ?thesis by (simp add: tb_healthy_def)
qed

section \<open>The agent sends\<close>

definition st_send_all :: "'c ssl_lib \<Rightarrow> string list \<Rightarrow> 'c ssl_transport \<Rightarrow> 'c ssl_transport" where
  "st_send_all lib ps x = fold (\<lambda>p x. snd (st_send lib p x)) ps x"

text \<open>What a transport with a session has written through it.\<close>

definition st_wire :: "'c ssl_transport \<Rightarrow> u8 list list" where
  "st_wire x = (case st_tls x of None \<Rightarrow> st_written x | Some (c, b) \<Rightarrow> tb_written b)"

lemma st_send_record:
  assumes "tls_laws wlib rlib linked" and "linked c d" and "p \<noteq> []" and "length p < 2 ^ 31"
    and "st_handle x" and "st_tls x = Some (c, b)" and "tb_healthy b" and "tb_client_mask b"
  obtains c2 b2 w key where "st_send wlib p x = (True, x\<lparr>st_tls := Some (c2, b2)\<rparr>)" "tb_healthy b2" "tb_client_mask b2"
    "tb_written b2 = tb_written b @ [record_frame True (w, key)]" "w \<noteq> []" "length w < 2 ^ 32" "\<exists>d1. linked c2 d1"
    "\<And>d. linked c d \<Longrightarrow> \<exists>d1. ssl_yields rlib (bio_put rlib w d) (string_to_bytes p) d1 \<and> linked c2 d1"
proof -
  have "string_to_bytes p \<noteq> []" "length (string_to_bytes p) < 2 ^ 31"
    using assms(3,4) by (simp_all add: string_to_bytes_def)
  from inner_send_record[OF assms(1,2) this assms(7)] obtain c2 b2 w key where
    s: "inner_send wlib bridge_transport (string_to_bytes p) (c, b) = (True, c2, b2)" "tb_healthy b2"
    "tb_written b2 = tb_written b @ [record_frame (tb_client_mask b) (w, key)]" "tb_client_mask b2 = tb_client_mask b"
    "w \<noteq> []" "length w < 2 ^ 32" "\<exists>d1. linked c2 d1"
    "\<And>d. linked c d \<Longrightarrow> \<exists>d1. ssl_yields rlib (bio_put rlib w d) (string_to_bytes p) d1 \<and> linked c2 d1"
    by blast
  have "st_send wlib p x = (True, x\<lparr>st_tls := Some (c2, b2)\<rparr>)"
    using assms(5,6) s(1) by (simp add: st_send_def)
  with that s assms(8) show ?thesis by auto
qed

lemma st_send_all_records:
  assumes "tls_laws wlib rlib linked" and "\<exists>d. linked c d" and "\<forall>p \<in> set ps. p \<noteq> [] \<and> length p < 2 ^ 31"
    and "st_handle x" and "st_tls x = Some (c, b)" and "tb_healthy b" and "tb_client_mask b"
  shows "\<exists>xs c2 b2. tls_records rlib linked (map string_to_bytes ps) (map fst xs) c c2 \<and>
    st_send_all wlib ps x = x\<lparr>st_tls := Some (c2, b2)\<rparr> \<and> tb_healthy b2 \<and>
    tb_written b2 = tb_written b @ map (record_frame True) xs"
  using assms(2-)
proof (induction ps arbitrary: x c b)
  case Nil
  have "x = x\<lparr>st_tls := Some (c, b)\<rparr>" using Nil.prems(4) by (cases x) simp
  with Nil.prems(5) show ?case
    by (intro exI[of _ "[]"] exI[of _ c] exI[of _ b]) (simp add: st_send_all_def records_none)
next
  case (Cons p ps)
  obtain d where d: "linked c d" using Cons.prems(1) by blast
  from Cons.prems(2) have p: "p \<noteq> []" "length p < 2 ^ 31" by auto
  obtain c1 b1 w key where s: "st_send wlib p x = (True, x\<lparr>st_tls := Some (c1, b1)\<rparr>)" "tb_healthy b1" "tb_client_mask b1"
    "tb_written b1 = tb_written b @ [record_frame True (w, key)]" "w \<noteq> []" "length w < 2 ^ 32" "\<exists>d1. linked c1 d1"
    and yields: "\<And>d. linked c d \<Longrightarrow> \<exists>d1. ssl_yields rlib (bio_put rlib w d) (string_to_bytes p) d1 \<and> linked c1 d1"
    using st_send_record[OF assms(1) d p Cons.prems(3-6)] by blast
  let ?x = "x\<lparr>st_tls := Some (c1, b1)\<rparr>"
  obtain xs c2 b2 where xs: "tls_records rlib linked (map string_to_bytes ps) (map fst xs) c1 c2"
    "st_send_all wlib ps ?x = ?x\<lparr>st_tls := Some (c2, b2)\<rparr>" "tb_healthy b2"
    "tb_written b2 = tb_written b1 @ map (record_frame True) xs"
    using Cons.IH[OF s(7), of ?x b1] Cons.prems(2,3) s(2,3) by auto
  have "tls_records rlib linked (map string_to_bytes (p # ps)) (map fst ((w, key) # xs)) c c2"
    using records_some[OF yields _ s(5,6) xs(1)] p(1) by (simp add: string_to_bytes_def)
  moreover have "st_send_all wlib (p # ps) x = x\<lparr>st_tls := Some (c2, b2)\<rparr>"
    using xs(2) s(1) by (simp add: st_send_all_def)
  ultimately show ?case
    using xs(3,4) s(4) by (intro exI[of _ "(w, key) # xs"] exI[of _ c2] exI[of _ b2]) simp
qed

section \<open>The cloud receives\<close>

lemma received_frame:
  fixes s :: "'a cloud_app_scheme"
  assumes "healthy s" and "m_recv_buffer s = []" and "ce_bridge s" and "frame_fits f"
  shows "on_bytes_received (cloud_env ae) (encode_frame f) s =
    Some (dispatch_frame (cloud_env ae) f (s\<lparr>ce_pings_outstanding := 0\<rparr>))"
proof -
  let ?s = "s\<lparr>ce_pings_outstanding := 0\<rparr>"
  have "healthy ?s" "m_recv_buffer ?s = []" using assms(1,2) by (simp_all add: healthy_def)
  then have "rx_feed m_recv_buffer put_recv_buffer (dispatch_frame (cloud_env ae)) [encode_frame f] ?s =
      Some (True, dispatch_frame (cloud_env ae) f ?s)"
    using up.rx_feed_frames[of ?s "[f]" "[encode_frame f]" ae] assms(4) by simp
  then have "on_tunnel_bytes (cloud_env ae) (encode_frame f) ?s = Some (True, dispatch_frame (cloud_env ae) f ?s)"
    by (auto simp: on_tunnel_bytes_def split: option.splits prod.splits bool.splits)
  with assms(3) show ?thesis by (simp add: on_bytes_received_def)
qed

lemma dispatch_stays:
  fixes s :: "'a cloud_app_scheme"
  assumes "healthy s" and "m_recv_buffer s = []" and "ce_bridge s"
  shows "healthy (dispatch_frame (cloud_env ae) f s)" and "m_recv_buffer (dispatch_frame (cloud_env ae) f s) = []"
    and "ce_bridge (dispatch_frame (cloud_env ae) f s)"
    and "ce_transport (dispatch_frame (cloud_env ae) f s) = ce_transport s"
proof -
  show h: "healthy (dispatch_frame (cloud_env ae) f s)" using healthy_dispatch(1)[OF assms(1)] .
  show "m_recv_buffer (dispatch_frame (cloud_env ae) f s) = []" using up.get_disp[OF assms(1)] assms(2) by simp
  show "ce_bridge (dispatch_frame (cloud_env ae) f s)"
    by (rule app.dispatch_keeps[where P = ce_bridge]) (use assms(3) in \<open>auto simp: endpoint_part_def\<close>)
  have "tstep s (dispatch_frame (cloud_env ae) f s)" by (rule app.tstep_dispatch[OF tstep_refl])
  with h assms(1) show "ce_transport (dispatch_frame (cloud_env ae) f s) = ce_transport s"
    by (auto simp: healthy_def tstep_def split: option.splits)
qed

definition session_idle :: "('d \<Rightarrow> bool) \<Rightarrow> 'd \<times> tls_bridge \<Rightarrow> bool" where
  "session_idle ok x \<longleftrightarrow> ok (fst x) \<and> tb_buffered (snd x) \<and> \<not> tb_closed (snd x) \<and> tb_inbound (snd x) = []"

text \<open>The stream is the endpoint's, its session stands, and nothing is half received.\<close>

definition ag_ready :: "('d \<Rightarrow> bool) \<Rightarrow> nat \<Rightarrow> ('d, 'a) agent_world \<Rightarrow> bool" where
  "ag_ready ok i w \<longleftrightarrow> ag_handle (fst w i) \<and> ag_adapter (fst w i) \<and> ag_recv_buf (fst w i) = [] \<and>
     (\<exists>x. ag_tls (fst w i) = Some x \<and> session_idle ok x) \<and>
     healthy (snd w) \<and> m_recv_buffer (snd w) = [] \<and> ce_bridge (snd w) \<and>
     map_option t_id (ce_transport (snd w)) = Some i"

text \<open>The replies of the endpoint go through the same session and leave it as it is for the other direction.\<close>

lemma inner_send_bridge:
  "tb_buffered (snd (snd (inner_send lib bridge_transport p (d, b)))) = tb_buffered b"
  "tb_closed (snd (snd (inner_send lib bridge_transport p (d, b)))) = tb_closed b"
  "tb_inbound (snd (snd (inner_send lib bridge_transport p (d, b)))) = tb_inbound b"
  by (auto simp: inner_send_def flush_wbio_def bridge_transport_def bridge_send_def split: prod.split bool.split)
    (metis snd_conv tb_emit_fields)+

lemma replies_keep_session:
  assumes laws: "tls_laws wlib rlib linked" and "\<forall>e \<in> set es. \<exists>b. e = Sent i b"
    and "ag_tls (h i) = Some x" and "session_idle (linked c) x"
  shows "\<exists>x'. ag_tls (fold (ag_event rlib) es h i) = Some x' \<and> session_idle (linked c) x'"
  using assms(2-)
proof (induction es arbitrary: h x)
  case (Cons e es)
  then obtain q where e: "e = Sent i q" by auto
  obtain d b where x: "x = (d, b)" by fastforce
  let ?r = "inner_send rlib bridge_transport (string_to_bytes q) (d, b\<lparr>tb_sends := [True]\<rparr>)"
  have "session_idle (linked c) (snd ?r)"
    using Cons.prems(3) x tls_reply[OF laws, of c d bridge_transport "string_to_bytes q" "b\<lparr>tb_sends := [True]\<rparr>"]
    by (auto simp: session_idle_def inner_send_bridge)
  then have "\<exists>x'. ag_tls (ag_event rlib e h i) = Some x' \<and> session_idle (linked c) x'"
    using Cons.prems e x by (auto simp: ag_write_bytes_def Let_def split: prod.split)
  with Cons.IH Cons.prems(1) show ?case by auto
qed auto

lemma ag_ready_upd:
  assumes "ag_ready ok i w" and "session_idle ok' x"
  shows "ag_ready ok' i (ag_upd i (\<lambda>a. a\<lparr>ag_tls := Some x\<rparr>) w)"
  using assms by (auto simp: ag_ready_def)

lemma deliver_frame:
  fixes w :: "('d, 'a cloud_app_ext) agent_world"
  assumes laws: "tls_laws wlib rlib linked" and ready: "ag_ready (linked c) i w" and "frame_fits f"
  shows "\<exists>w'. ag_deliver rlib (cloud_env ae) i (string_to_bytes (encode_frame f)) w = Some (True, w') \<and>
    ag_ready (linked c) i w' \<and> snd w' = dispatch_frame (cloud_env ae) f ((snd w)\<lparr>ce_pings_outstanding := 0\<rparr>)"
proof -
  let ?s = "(snd w)\<lparr>ce_pings_outstanding := 0\<rparr>"
  let ?s' = "dispatch_frame (cloud_env ae) f ?s"
  have s: "healthy ?s" "m_recv_buffer ?s = []" "ce_bridge ?s" "ce_transport ?s = ce_transport (snd w)"
    using ready by (simp_all add: ag_ready_def healthy_def)
  have rec: "on_bytes_received (cloud_env ae) (encode_frame f) (snd w) = Some ?s'"
    using received_frame[of "snd w" f ae] ready assms(3) by (simp add: ag_ready_def)
  note stays = dispatch_stays[OF s(1-3), of ae f]
  have "tstep (snd w) ?s'" by (rule app.tstep_received[OF rec])
  moreover obtain t where t: "ce_transport (snd w) = Some t" "t_id t = i" using ready by (auto simp: ag_ready_def)
  ultimately obtain es where es: "e_log ?s' = e_log (snd w) @ es" "\<forall>e \<in> set es. \<exists>b. e = Sent i b"
    using stays(4) s(4) unfolding tstep_def by auto
  let ?w = "endpoint_call rlib (\<lambda>_. ?s') w"
  have w': "?w = (fold (ag_event rlib) es (fst w), ?s')" by (simp add: endpoint_call_def es(1))
  have fl: "ag_flags (fst ?w i) = ag_flags (fst w i)" unfolding w' using ag_events_sent(1)[OF es(2)] by simp
  obtain x where "ag_tls (fst w i) = Some x" "session_idle (linked c) x" using ready by (auto simp: ag_ready_def)
  from replies_keep_session[OF laws es(2), where h = "fst w", OF this] have ses: "\<exists>x'. ag_tls (fst ?w i) = Some x' \<and> session_idle (linked c) x'"
    by (simp add: w')
  have "ag_ready (linked c) i ?w"
    using ready ag_flagsD[OF fl] ses stays s(4) t by (simp add: ag_ready_def w')
  moreover from this have "ag_deliver rlib (cloud_env ae) i (string_to_bytes (encode_frame f)) w = Some (True, ?w)"
    using rec by (simp add: ag_deliver_def ag_ready_def)
  ultimately show ?thesis by (auto simp: w')
qed

lemma encode_frame_bytes: "string_to_bytes (encode_frame f) \<noteq> []"
  by (simp add: encode_frame_def sf_encode_def string_to_bytes_def)

lemma encode_frame_size: "encode_frame f \<noteq> []" "frame_fits f \<Longrightarrow> length (encode_frame f) < 2 ^ 31"
  by (auto simp: encode_frame_def frame_fits_def sf_simps simp flip: length_0_conv)

lemma cloud_takes_record:
  fixes w :: "('d, 'a cloud_app_ext) agent_world"
  assumes laws: "tls_laws wlib rlib linked" and ready: "ag_ready (linked c) i w" and "frame_fits f"
    and yields: "\<And>d. linked c d \<Longrightarrow>
      \<exists>d1. ssl_yields rlib (bio_put rlib r d) (string_to_bytes (encode_frame f)) d1 \<and> linked c1 d1"
    and "r \<noteq> []"
  shows "\<exists>w'. ag_frame rlib (cloud_env ae) i \<lparr>ws_opcode = 0x2, ws_payload = r\<rparr> w = Some (DrainMore, w') \<and>
    ag_ready (linked c1) i w' \<and> snd w' = dispatch_frame (cloud_env ae) f ((snd w)\<lparr>ce_pings_outstanding := 0\<rparr>)"
proof -
  obtain d b where tls: "ag_tls (fst w i) = Some (d, b)" and idle: "linked c d" "tb_buffered b" "\<not> tb_closed b" "tb_inbound b = []"
    using ready by (auto simp: ag_ready_def session_idle_def)
  let ?get = "\<lambda>w. the (ag_tls (fst w i))" and ?put = "\<lambda>x. ag_upd i (\<lambda>a. a\<lparr>ag_tls := Some x\<rparr>)"
  let ?b = "push_inbound r b" and ?p = "string_to_bytes (encode_frame f)"
  let ?w = "?put (d, ?b) w"
  obtain d1 where d1: "ssl_yields rlib (bio_put rlib r d) ?p d1" "linked c1 d1" using yields[OF idle(1)] by blast
  have b: "tb_buffered ?b" "\<not> tb_closed ?b" "tb_inbound ?b = [r]" "?b\<lparr>tb_inbound := []\<rparr> = b"
    using idle assms(5) by (cases b; simp add: push_inbound_def)+
  have "ag_ready (linked c1) i (?put (d1, b) ?w)"
    using ready d1(2) idle by (auto simp: ag_ready_def session_idle_def)
  from deliver_frame[OF laws this assms(3), of ae] obtain w1 where
    w1: "ag_deliver rlib (cloud_env ae) i ?p (?put (d1, b) ?w) = Some (True, w1)" "ag_ready (linked c1) i w1"
      "snd w1 = dispatch_frame (cloud_env ae) f ((snd w)\<lparr>ce_pings_outstanding := 0\<rparr>)" by auto
  obtain d2 b2 where tls2: "ag_tls (fst w1 i) = Some (d2, b2)"
    and idle2: "linked c1 d2" "tb_buffered b2" "\<not> tb_closed b2" "tb_inbound b2 = []"
    using w1(2) by (auto simp: ag_ready_def session_idle_def)
  obtain d3 where d3: "ssl_yields rlib d2 [] d3" "linked c1 d3" using tls_idleE[OF laws idle2(1)] .
  have "tls_pump rlib ?get ?put (ag_deliver rlib (cloud_env ae) i) ?w = Some (PumpDrained, ?put (d3, b2) w1)"
    by (rule tls_pump_record[OF _ b(1-3) assms(5) d1(1) encode_frame_bytes _ _ idle2(2-4) d3(1)])
      (use w1(1) b(4) tls2 in simp_all)
  then have "ag_frame rlib (cloud_env ae) i \<lparr>ws_opcode = 0x2, ws_payload = r\<rparr> w = Some (DrainMore, ?put (d3, b2) w1)"
    using tls by (simp add: ag_frame_def)
  moreover have "ag_ready (linked c1) i (?put (d3, b2) w1)"
    using w1(2) d3(2) idle2 by (intro ag_ready_upd[where ok = "linked c1"]) (auto simp: session_idle_def)
  ultimately show ?thesis using w1(3) by auto
qed

lemma cloud_takes_records:
  fixes w :: "('d, 'a cloud_app_ext) agent_world"
  assumes laws: "tls_laws wlib rlib linked"
    and "tls_records rlib linked (map (\<lambda>f. string_to_bytes (encode_frame f)) fs) rs c c2"
    and "ag_ready (linked c) i w" and "list_all frame_fits fs"
  shows "\<exists>w'. ws_run (ag_frame rlib (cloud_env ae) i) (map (\<lambda>r. \<lparr>ws_opcode = 0x2, ws_payload = r\<rparr>) rs) w = Some w' \<and>
    ag_ready (linked c2) i w' \<and>
    snd w' = fold (\<lambda>f s. dispatch_frame (cloud_env ae) f (s\<lparr>ce_pings_outstanding := 0\<rparr>)) fs (snd w)"
  using assms(2-)
proof (induction fs arbitrary: w rs c)
  case Nil
  from Nil.prems(1) have "rs = []" "c2 = c" by (auto elim: tls_records.cases)
  with Nil.prems(2) show ?case by simp
next
  case (Cons f fs)
  from Cons.prems(1) obtain r rs' c1 where rs: "rs = r # rs'" "r \<noteq> []"
    and yields: "\<And>d. linked c d \<Longrightarrow>
      \<exists>d1. ssl_yields rlib (bio_put rlib r d) (string_to_bytes (encode_frame f)) d1 \<and> linked c1 d1"
    and rest: "tls_records rlib linked (map (\<lambda>f. string_to_bytes (encode_frame f)) fs) rs' c1 c2"
    by (cases rule: tls_records.cases) auto
  have fits: "frame_fits f" using Cons.prems(3) by simp
  from cloud_takes_record[where ae = ae, OF laws Cons.prems(2) fits yields rs(2)] obtain w1 where
    w1: "ag_frame rlib (cloud_env ae) i \<lparr>ws_opcode = 0x2, ws_payload = r\<rparr> w = Some (DrainMore, w1)"
      "ag_ready (linked c1) i w1" "snd w1 = dispatch_frame (cloud_env ae) f ((snd w)\<lparr>ce_pings_outstanding := 0\<rparr>)"
    by auto
  from Cons.IH[OF rest w1(2)] Cons.prems(3) w1 rs(1) show ?case by auto
qed

section \<open>Reads of the cloud's stream\<close>

fun ag_inputs ::
    "'d ssl_lib \<Rightarrow> 'a cloud_scheme bridge_env \<Rightarrow> nat \<Rightarrow> u8 list list \<Rightarrow> ('d, 'a) agent_world
      \<Rightarrow> (drain_exit \<times> ('d, 'a) agent_world) option" where
  "ag_inputs lib env i [] w = Some (DrainMore, w)"
| "ag_inputs lib env i (chunk # chunks) w =
     (case ag_handle_input lib env i chunk w of
        Some (DrainMore, w') \<Rightarrow> ag_inputs lib env i chunks w'
      | r \<Rightarrow> r)"

lemma ag_flags_buf: "ag_flags a = ag_flags b \<Longrightarrow> ag_recv_buf a = ag_recv_buf b"
  by (simp add: ag_flags_def)

lemma ag_event_buf: "ag_recv_buf (ag_event lib e h j) = ag_recv_buf (h j)"
proof (cases e)
  case (Sent i b)
  then show ?thesis using ag_flags_buf[OF ag_flags_ops(1)] by auto
next
  case (Closed i)
  then show ?thesis by auto
qed auto

lemma ag_events_buf: "ag_recv_buf (fold (ag_event lib) es h j) = ag_recv_buf (h j)"
  by (induction es arbitrary: h) (simp_all add: ag_event_buf)

lemma endpoint_call_buf [simp]: "ag_recv_buf (fst (endpoint_call lib g w) j) = ag_recv_buf (fst w j)"
  by (simp add: endpoint_call_def ag_events_buf)

lemma notify_buf [simp]: "ag_recv_buf (fst (ag_notify_disconnect_once lib i w) j) = ag_recv_buf (fst w j)"
  by (simp add: ag_notify_disconnect_once_def Let_def)

lemma ag_frame_buf:
  fixes w :: "('d, 'a) agent_world" and lib :: "'d ssl_lib" and env :: "'a cloud_scheme bridge_env"
  assumes "ag_frame lib env i f w = Some (e, w')"
  shows "ag_recv_buf (fst w' i) = ag_recv_buf (fst w i)"
proof -
  have send: "ag_recv_buf (snd (ag_send_n x a)) = ag_recv_buf a" for x and a :: "'d agent_sock"
    by (rule ag_flags_buf) simp
  have deliver: "ag_recv_buf (fst w2 i) = ag_recv_buf (fst w1 i)"
    if "ag_deliver lib env i p w1 = Some (b, w2)" for p b w2 and w1 :: "('d, 'a) agent_world"
    using that by (auto simp: ag_deliver_def Let_def split: option.splits)
  let ?P = "\<lambda>w1. ag_recv_buf (fst w1 i) = ag_recv_buf (fst w i)"
  have pump: "?P (snd y)"
    if "tls_pump lib (\<lambda>w. the (ag_tls (fst w i))) (\<lambda>x. ag_upd i (\<lambda>a. a\<lparr>ag_tls := Some x\<rparr>)) (ag_deliver lib env i)
          (ag_upd i (\<lambda>a. a\<lparr>ag_tls := z\<rparr>) w) = Some y" for y z
    using that by (rule tls_pump_preserves[where P = ?P]) (auto dest: deliver)
  show ?thesis
    using assms deliver
    by (auto simp: ag_frame_def send split: if_splits option.splits prod.splits pump_exit.splits dest: pump)
qed

lemma ag_inputs_pump:
  fixes w :: "('d, 'a) agent_world" and lib :: "'d ssl_lib" and env :: "'a cloud_scheme bridge_env"
  assumes "[] \<notin> set cs" and "ws_pump_all (ag_frame lib env i) cs (b, w) = Some (DrainMore, b', w')"
    and "ag_recv_buf (fst w i) = []"
  shows "ag_inputs lib env i cs (ag_upd i (\<lambda>a. a\<lparr>ag_recv_buf := b\<rparr>) w) =
    Some (DrainMore, ag_upd i (\<lambda>a. a\<lparr>ag_recv_buf := b'\<rparr>) w')"
  using assms
proof (induction cs arbitrary: b w)
  case Nil
  then show ?case by simp
next
  case (Cons c cs)
  have clear: "ag_upd i (\<lambda>a. a\<lparr>ag_recv_buf := []\<rparr>) v = v" if "ag_recv_buf (fst v i) = []" for v :: "('d, 'a) agent_world"
    using that by (cases v; cases "fst v i") (auto simp: ag_upd_def)
  obtain b1 w1 where p: "ws_pump (ag_frame lib env i) (b @ c, w) = Some (DrainMore, b1, w1)"
    "ws_pump_all (ag_frame lib env i) cs (b1, w1) = Some (DrainMore, b', w')"
    using Cons.prems(2) by (auto split: option.splits drain_exit.splits)
  have "ag_recv_buf (fst w1 i) = []"
    using ws_pump_preserves[OF p(1), where P = "\<lambda>w. ag_recv_buf (fst w i) = []"] ag_frame_buf Cons.prems(3) by fastforce
  with Cons.IH[of b1 w1] Cons.prems(1) p(2)
  have "ag_inputs lib env i cs (ag_upd i (\<lambda>a. a\<lparr>ag_recv_buf := b1\<rparr>) w1) =
      Some (DrainMore, ag_upd i (\<lambda>a. a\<lparr>ag_recv_buf := b'\<rparr>) w')" by simp
  moreover have "ag_handle_input lib env i c (ag_upd i (\<lambda>a. a\<lparr>ag_recv_buf := b\<rparr>) w) =
      Some (DrainMore, ag_upd i (\<lambda>a. a\<lparr>ag_recv_buf := b1\<rparr>) w1)"
    using Cons.prems(1,3) p(1) clear[of w] by (auto simp: ag_handle_input_def)
  ultimately show ?case by simp
qed

text \<open>A buffer without a whole frame at the start of the reads, and the two halves put together.\<close>

lemma ws_decode_nothing: "ws_decode [] = WsNone"
  by (simp add: ws_decode_def)

lemma ag_inputs_records:
  fixes w :: "('d, 'a cloud_app_ext) agent_world"
  assumes laws: "tls_laws wlib rlib linked" and "ag_ready (linked c) i w" and "list_all frame_fits fs"
    and recs: "tls_records rlib linked (map (\<lambda>f. string_to_bytes (encode_frame f)) fs) (map fst xs) c c2"
    and "[] \<notin> set cs" and "concat cs = concat (map (record_frame True) xs)"
  shows "\<exists>w'. ag_inputs rlib (cloud_env ae) i cs w = Some (DrainMore, w') \<and> ag_ready (linked c2) i w' \<and>
    snd w' = fold (\<lambda>f s. dispatch_frame (cloud_env ae) f (s\<lparr>ce_pings_outstanding := 0\<rparr>)) fs (snd w)"
proof -
  have len: "length (fst x) < 2 ^ 32" if "x \<in> set xs" for x
    using tls_records_length[OF recs] that by auto
  obtain w' where w': "ws_run (ag_frame rlib (cloud_env ae) i)
      (map (\<lambda>r. \<lparr>ws_opcode = 0x2, ws_payload = r\<rparr>) (map fst xs)) w = Some w'"
    "ag_ready (linked c2) i w'"
    "snd w' = fold (\<lambda>f s. dispatch_frame (cloud_env ae) f (s\<lparr>ce_pings_outstanding := 0\<rparr>)) fs (snd w)"
    using cloud_takes_records[where ae = ae, OF laws recs assms(2,3)] by blast
  have pump: "ws_pump_all (ag_frame rlib (cloud_env ae) i) cs ([], w) = Some (DrainMore, [], w')"
    by (rule ws_pump_all_frames[where enc = "record_frame True" and xs = xs
          and frm = "\<lambda>x. \<lparr>ws_opcode = 0x2, ws_payload = fst x\<rparr>"])
      (use w'(1) assms(6) len in \<open>simp_all add: record_frame_decode ws_decode_nothing comp_def\<close>)
  have buf: "ag_recv_buf (fst w i) = []" "ag_recv_buf (fst w' i) = []" using assms(2) w'(2) by (simp_all add: ag_ready_def)
  have clear: "ag_upd i (\<lambda>a. a\<lparr>ag_recv_buf := []\<rparr>) v = v" if "ag_recv_buf (fst v i) = []"
    for v :: "('d, 'a cloud_app_ext) agent_world"
    using that by (cases v; cases "fst v i") (auto simp: ag_upd_def)
  show ?thesis
    using ag_inputs_pump[OF assms(5) pump buf(1)] w'(2,3) buf clear by auto
qed

section \<open>The cloud sends, the agent receives\<close>

text \<open>What the endpoint writes to its transport, \<^verbatim>\<open>ps\<close>, becomes records of the stream's session.\<close>

lemma ag_sent_records:
  assumes "tls_laws wlib rlib linked" and "\<exists>d. linked c d" and "\<forall>p \<in> set ps. p \<noteq> [] \<and> length p < 2 ^ 31"
    and "ag_adapter (h i)" and "ag_handle (h i)" and "ag_tls (h i) = Some (c, b)"
    and "\<not> tb_closed b" and "\<not> tb_client_mask b"
  shows "\<exists>xs c2 b2. tls_records rlib linked (map string_to_bytes ps) (map fst xs) c c2 \<and>
    ag_tls (fold (ag_event wlib) (map (Sent i) ps) h i) = Some (c2, b2) \<and>
    tb_written b2 = tb_written b @ map (record_frame False) xs"
  using assms(2-)
proof (induction ps arbitrary: h c b)
  case Nil
  then show ?case by (intro exI[of _ "[]"] exI[of _ c] exI[of _ b]) (simp add: records_none)
next
  case (Cons p ps)
  obtain d where d: "linked c d" using Cons.prems(1) by blast
  have p: "string_to_bytes p \<noteq> []" "length (string_to_bytes p) < 2 ^ 31"
    using Cons.prems(2) by (auto simp: string_to_bytes_def)
  define r where "r = inner_send wlib bridge_transport (string_to_bytes p) (c, b\<lparr>tb_sends := [True]\<rparr>)"
  define h1 where "h1 = ag_event wlib (Sent i p) h"
  have h: "h1 i = (h i)\<lparr>ag_tls := Some (snd r)\<rparr>"
    using Cons.prems(3-5) by (simp add: h1_def ag_write_bytes_def r_def Let_def split: prod.split)
  obtain c1 b1 w key where s: "snd r = (c1, b1)" "\<not> tb_closed b1" "\<not> tb_client_mask b1"
    "tb_written b1 = tb_written b @ [record_frame False (w, key)]" "w \<noteq> []" "length w < 2 ^ 32" "\<exists>d1. linked c1 d1"
    and yields: "\<And>d. linked c d \<Longrightarrow> \<exists>d1. ssl_yields rlib (bio_put rlib w d) (string_to_bytes p) d1 \<and> linked c1 d1"
    using inner_send_answered[OF assms(1) d p, of b] Cons.prems(6,7) unfolding r_def[symmetric] by metis
  obtain xs c2 b2 where xs: "tls_records rlib linked (map string_to_bytes ps) (map fst xs) c1 c2"
    "ag_tls (fold (ag_event wlib) (map (Sent i) ps) h1 i) = Some (c2, b2)"
    "tb_written b2 = tb_written b1 @ map (record_frame False) xs"
    using Cons.IH[OF s(7) _ _ _ _ s(2,3), of h1] Cons.prems(2-4) s(1) h by auto
  have "tls_records rlib linked (map string_to_bytes (p # ps)) (map fst ((w, key) # xs)) c c2"
    using records_some[OF yields p(1) s(5,6) xs(1)] by simp
  with xs(2,3) s(4) show ?case
    by (intro exI[of _ "(w, key) # xs"] exI[of _ c2] exI[of _ b2]) (simp add: h1_def)
qed

text \<open>The agent's transport has its session and its worker runs; nothing is half received.\<close>

definition st_ready :: "('d \<Rightarrow> bool) \<Rightarrow> 'd ssl_transport \<Rightarrow> bool" where
  "st_ready ok x \<longleftrightarrow> st_handle x \<and> st_recv_buf x = [] \<and> (\<exists>y. st_tls x = Some y \<and> session_idle ok y) \<and>
     dt_continue x \<and> \<not> dt_synchronous x"

lemma agent_takes_record:
  assumes laws: "tls_laws wlib rlib linked" and ready: "st_ready (linked c) x"
    and yields: "\<And>d. linked c d \<Longrightarrow> \<exists>d1. ssl_yields rlib (bio_put rlib r d) p d1 \<and> linked c1 d1"
    and "r \<noteq> []" and "p \<noteq> []"
  shows "\<exists>x'. st_frame rlib \<lparr>ws_opcode = 0x2, ws_payload = r\<rparr> x = Some (DrainMore, x') \<and> st_ready (linked c1) x' \<and>
    dt_queue x' = dt_queue x @ [BlockData (bytes_to_string p)] \<and> dt_handled x' = dt_handled x"
proof -
  obtain d b where tls: "st_tls x = Some (d, b)" and idle: "linked c d" "tb_buffered b" "\<not> tb_closed b" "tb_inbound b = []"
    using ready by (auto simp: st_ready_def session_idle_def)
  let ?put = "\<lambda>s x. x\<lparr>st_tls := Some s\<rparr>" and ?b = "push_inbound r b"
  obtain d1 where d1: "ssl_yields rlib (bio_put rlib r d) p d1" "linked c1 d1" using yields[OF idle(1)] by blast
  obtain d3 where d3: "ssl_yields rlib d1 [] d3" "linked c1 d3" using tls_idleE[OF laws d1(2)] .
  have b: "tb_buffered ?b" "\<not> tb_closed ?b" "tb_inbound ?b = [r]" "?b\<lparr>tb_inbound := []\<rparr> = b"
    using idle assms(4) by (cases b; simp add: push_inbound_def)+
  let ?x1 = "(?put (d1, b) x)\<lparr>dt_queue := dt_queue x @ [BlockData (bytes_to_string p)]\<rparr>"
  have "tls_pump rlib (\<lambda>x. the (st_tls x)) ?put st_deliver (?put (d, ?b) x) = Some (PumpDrained, ?put (d3, b) ?x1)"
    by (rule tls_pump_record[OF _ b(1-3) assms(4) d1(1) assms(5) _ _ idle(2-4) d3(1)])
      (use ready b(4) in \<open>simp_all add: st_deliver_def dispatch_bytes_def task_put_def st_ready_def\<close>)
  then have "st_frame rlib \<lparr>ws_opcode = 0x2, ws_payload = r\<rparr> x = Some (DrainMore, ?put (d3, b) ?x1)"
    using tls by (simp add: st_frame_def)
  moreover have "st_ready (linked c1) (?put (d3, b) ?x1)"
    using ready d3(2) idle by (auto simp: st_ready_def session_idle_def)
  ultimately show ?thesis by auto
qed

lemma agent_takes_records:
  assumes laws: "tls_laws wlib rlib linked"
    and "tls_records rlib linked ps rs c c2" and "st_ready (linked c) x"
  shows "\<exists>x'. ws_run (st_frame rlib) (map (\<lambda>r. \<lparr>ws_opcode = 0x2, ws_payload = r\<rparr>) rs) x = Some x' \<and>
    st_ready (linked c2) x' \<and> dt_queue x' = dt_queue x @ map (BlockData \<circ> bytes_to_string) ps \<and> dt_handled x' = dt_handled x"
  using assms(2,3)
proof (induction arbitrary: x rule: tls_records.induct)
  case (records_some c r p c1 ps rs c2)
  from agent_takes_record[OF laws records_some.prems records_some.hyps(1,3,2)] obtain x1 where
    x1: "st_frame rlib \<lparr>ws_opcode = 0x2, ws_payload = r\<rparr> x = Some (DrainMore, x1)" "st_ready (linked c1) x1"
      "dt_queue x1 = dt_queue x @ [BlockData (bytes_to_string p)]" "dt_handled x1 = dt_handled x" by blast
  from records_some.IH[OF x1(2)] x1 show ?case by auto
qed auto

section \<open>Reads of the agent's transport\<close>

fun st_inputs :: "'c ssl_lib \<Rightarrow> u8 list list \<Rightarrow> 'c ssl_transport \<Rightarrow> (drain_exit \<times> 'c ssl_transport) option" where
  "st_inputs lib [] x = Some (DrainMore, x)"
| "st_inputs lib (chunk # chunks) x =
     (case st_handle_input lib chunk x of
        Some (DrainMore, x') \<Rightarrow> st_inputs lib chunks x'
      | r \<Rightarrow> r)"

lemma st_frame_buf:
  assumes "st_frame lib f x = Some (e, x')"
  shows "st_recv_buf x' = st_recv_buf x"
proof -
  have send: "st_recv_buf (snd (st_send_n y z)) = st_recv_buf z" "st_recv_buf (snd (st_send_masked q op z)) = st_recv_buf z"
    "st_recv_buf (st_notify_disconnect_once z) = st_recv_buf z" for y q op and z :: "'c ssl_transport"
    by (simp_all add: st_send_n_def st_send_masked_def st_draw_key_def st_notify_disconnect_once_def split: list.split)
  have deliver: "st_recv_buf z2 = st_recv_buf z1" if "st_deliver p z1 = Some (b, z2)" for p b z1 and z2 :: "'c ssl_transport"
    using that by (auto simp: st_deliver_def Let_def dispatch_bytes_def task_put_def)
  have pump: "st_recv_buf (snd y) = st_recv_buf x"
    if "tls_pump lib (\<lambda>x. the (st_tls x)) (\<lambda>s x. x\<lparr>st_tls := Some s\<rparr>) st_deliver (x\<lparr>st_tls := z\<rparr>) = Some y" for y z
    using that by (rule tls_pump_preserves[where P = "\<lambda>x1. st_recv_buf x1 = st_recv_buf x"]) (auto dest: deliver)
  show ?thesis
    using assms deliver
    by (auto simp: st_frame_def send split: if_splits option.splits prod.splits pump_exit.splits dest: pump)
qed

lemma st_inputs_pump:
  assumes "[] \<notin> set cs" and "ws_pump_all (st_frame lib) cs (b, x) = Some (DrainMore, b', x')" and "st_recv_buf x = []"
  shows "st_inputs lib cs (x\<lparr>st_recv_buf := b\<rparr>) = Some (DrainMore, x'\<lparr>st_recv_buf := b'\<rparr>)"
  using assms
proof (induction cs arbitrary: b x)
  case Nil
  then show ?case by simp
next
  case (Cons c cs)
  obtain b1 x1 where p: "ws_pump (st_frame lib) (b @ c, x) = Some (DrainMore, b1, x1)"
    "ws_pump_all (st_frame lib) cs (b1, x1) = Some (DrainMore, b', x')"
    using Cons.prems(2) by (auto split: option.splits drain_exit.splits)
  have "st_recv_buf x1 = []"
    using ws_pump_preserves[OF p(1), where P = "\<lambda>x. st_recv_buf x = []"] st_frame_buf Cons.prems(3) by fastforce
  with Cons.IH[of b1 x1] Cons.prems(1) p(2)
  have "st_inputs lib cs (x1\<lparr>st_recv_buf := b1\<rparr>) = Some (DrainMore, x'\<lparr>st_recv_buf := b'\<rparr>)" by simp
  moreover have "x\<lparr>st_recv_buf := []\<rparr> = x" using Cons.prems(3) by (cases x) simp
  then have "st_handle_input lib c (x\<lparr>st_recv_buf := b\<rparr>) = Some (DrainMore, x1\<lparr>st_recv_buf := b1\<rparr>)"
    using Cons.prems(1) p(1) by (auto simp: st_handle_input_def)
  ultimately show ?case by simp
qed

lemma st_inputs_records:
  assumes laws: "tls_laws wlib rlib linked" and "st_ready (linked c) x"
    and recs: "tls_records rlib linked ps (map fst xs) c c2"
    and "[] \<notin> set cs" and "concat cs = concat (map (record_frame False) xs)"
  shows "\<exists>x'. st_inputs rlib cs x = Some (DrainMore, x') \<and> st_ready (linked c2) x' \<and>
    dt_queue x' = dt_queue x @ map (BlockData \<circ> bytes_to_string) ps \<and> dt_handled x' = dt_handled x"
proof -
  have len: "length (fst y) < 2 ^ 32" if "y \<in> set xs" for y
    using tls_records_length[OF recs] that by auto
  obtain x' where x': "ws_run (st_frame rlib) (map (\<lambda>r. \<lparr>ws_opcode = 0x2, ws_payload = r\<rparr>) (map fst xs)) x = Some x'"
    "st_ready (linked c2) x'" "dt_queue x' = dt_queue x @ map (BlockData \<circ> bytes_to_string) ps" "dt_handled x' = dt_handled x"
    using agent_takes_records[OF laws recs assms(2)] by blast
  have pump: "ws_pump_all (st_frame rlib) cs ([], x) = Some (DrainMore, [], x')"
    by (rule ws_pump_all_frames[where enc = "record_frame False" and xs = xs
          and frm = "\<lambda>x. \<lparr>ws_opcode = 0x2, ws_payload = fst x\<rparr>"])
      (use x'(1) assms(5) len in \<open>simp_all add: record_frame_decode ws_decode_nothing comp_def\<close>)
  have buf: "st_recv_buf x = []" "x\<lparr>st_recv_buf := []\<rparr> = x" "x'\<lparr>st_recv_buf := []\<rparr> = x'"
    using assms(2) x'(2) by (cases x; cases x'; simp add: st_ready_def)+
  show ?thesis using st_inputs_pump[OF assms(4) pump buf(1)] buf x'(2-) by auto
qed

end
