(* ===== verification/Stream_Properties.thy ===== *)
theory Stream_Properties
  imports Tls_Tunnel Tunnel_Properties
begin

text \<open>
  What the sockets of the tunnel guarantee: of all the streams that agents have opened exactly the newest
  that stands is the endpoint's, one that has been replaced cannot disturb it, and what one end writes comes
  out at the other end through the inner TLS session, whatever way the network cuts the bytes.
\<close>

section \<open>A concrete TLS library for the witnesses\<close>

text \<open>Bytes in clear up to a fixed mask, received on the left and to be sent on the right.\<close>

definition toy_ssl :: "(u8 list \<times> u8 list) ssl_lib" where
  "toy_ssl =
     \<lparr>ssl_shake = (\<lambda>c. (ShakeDone, c)),
      ssl_read = (\<lambda>c. if fst c = [] then (SslWantRead, c)
                      else (SslBytes (map (\<lambda>b. b + 7) (fst c)), [], snd c)),
      ssl_write = (\<lambda>p c. (True, fst c, snd c @ map (\<lambda>b. b - 7) p)),
      bio_take = (\<lambda>c. (snd c, fst c, [])),
      bio_put = (\<lambda>w c. (fst c @ w, snd c))\<rparr>"

definition toy_linked :: "u8 list \<times> u8 list \<Rightarrow> u8 list \<times> u8 list \<Rightarrow> bool" where
  "toy_linked c d \<longleftrightarrow> snd c = [] \<and> fst d = []"

lemma toy_yields: "w \<noteq> [] \<Longrightarrow> ssl_yields toy_ssl (w, y) (map (\<lambda>b. b + 7) w) ([], y)"
  using yields_more[of toy_ssl "(w, y)" "map (\<lambda>b. b + 7) w" "([], y)" "[]" "([], y)"] yields_end[of toy_ssl "([], y)"]
  by (simp add: toy_ssl_def)

lemma toy_laws: "tls_laws toy_ssl toy_ssl toy_linked"
proof -
  have "\<exists>c1 w c2 d1. ssl_write toy_ssl p c = (True, c1) \<and> bio_take toy_ssl c1 = (w, c2) \<and> w \<noteq> [] \<and>
      length w < 2 ^ 32 \<and> ssl_yields toy_ssl (bio_put toy_ssl w d) p d1 \<and> toy_linked c2 d1"
    if "toy_linked c d" "p \<noteq> []" "length p < 2 ^ 31" for c d p
  proof (intro exI conjI)
    let ?w = "map (\<lambda>b. b - 7) p"
    show "ssl_write toy_ssl p c = (True, fst c, ?w)" "bio_take toy_ssl (fst c, ?w) = (?w, fst c, [])"
      "?w \<noteq> []" "length ?w < 2 ^ 32" "toy_linked (fst c, []) ([], snd d)"
      using that by (simp_all add: toy_ssl_def toy_linked_def)
    show "ssl_yields toy_ssl (bio_put toy_ssl ?w d) p ([], snd d)"
      using toy_yields[of ?w "snd d"] that by (simp add: toy_linked_def toy_ssl_def comp_def)
  qed
  moreover have "\<exists>d1. ssl_yields toy_ssl d [] d1 \<and> toy_linked c d1" if "toy_linked c d" for c d
  proof (intro exI conjI)
    show "ssl_yields toy_ssl d [] d" using that by (intro yields_end) (simp add: toy_ssl_def toy_linked_def)
  qed (rule that)
  ultimately show ?thesis
    by (auto simp: tls_laws_def) (auto simp: toy_ssl_def toy_linked_def)
qed

section \<open>The stream the endpoint has\<close>

lemma sock_reachable_inv:
  assumes "fold (sock_exec lib cn (cloud_env ae)) ops (0, no_streams, cloud_boot) = (n, h, s)"
  shows "aw_inv {..<n} (h, s)"
  using app.sock_run_inv[of "(0, no_streams, cloud_boot)" lib cn ae ops] no_streams_inv[of cloud_boot] assms by simp

definition toy_handoff :: "(u8 list \<times> u8 list) handoff" where
  "toy_handoff = \<lparr>ho_now = 0, ho_writes = [], ho_sends = [], ho_inner_tls = True, ho_ssl = ([], []), ho_reads = [],
     ho_shake_sends = [], ho_registered = True, ho_timer = 5\<rparr>"

lemma toy_shake: "inner_shake toy_ssl bridge_transport (([], []), b) = Some (ShakeTrue, ([], []), b)"
  by (subst inner_shake.simps) (simp add: shake_turn_def toy_ssl_def flush_wbio_def)

text \<open>Two agents connect one after the other.\<close>

definition toy_run :: "nat \<times> (u8 list \<times> u8 list, unit cloud_app_ext) agent_world" where
  "toy_run = fold (sock_exec toy_ssl (\<lambda>_. []) (cloud_env (sample_app sample_lib)))
     [Handoff toy_handoff, Handoff toy_handoff] (0, no_streams, cloud_boot)"

lemma toy_exec:
  assumes "aw_inv {..<n} (h, s)"
  obtains h' s' where "sock_exec toy_ssl cn env (Handoff toy_handoff) (n, h, s) = (Suc n, h', s')"
    "ce_transport s' = Some \<lparr>t_id = n, t_oracle = []\<rparr>"
proof -
  have "aw_inv {..<Suc n} (h, s)" "\<not> ag_adapter (fst (h, s) n)" using assms by (force simp: aw_inv_def)+
  then obtain w' where "handoff_agent_stream toy_ssl cn toy_handoff n (h, s) = Some w'"
    "ce_transport (snd w') = Some \<lparr>t_id = n, t_oracle = []\<rparr>"
    using handoff_takes_over[where lib = toy_ssl and cn = cn and ho = toy_handoff and A = "{..<Suc n}" and i = n and w = "(h, s)"]
      toy_shake
    by (auto simp: toy_handoff_def)
  with that show ?thesis by (cases w') auto
qed

lemma toy_run_state:
  obtains h s where "toy_run = (2, h, s)" "ce_transport s = Some \<lparr>t_id = 1, t_oracle = []\<rparr>"
proof -
  let ?x = "sock_exec toy_ssl (\<lambda>_. []) (cloud_env (sample_app sample_lib)) (Handoff toy_handoff)"
  obtain h1 s1 where 1: "?x (0, no_streams, cloud_boot) = (1, h1, s1)"
    using toy_exec[OF no_streams_inv[of cloud_boot]] by (metis One_nat_def cloud_boot_fields(4))
  have "aw_inv {..<1} (h1, s1)"
    by (rule sock_reachable_inv[where ops = "[Handoff toy_handoff]"]) (use 1 in simp)
  from toy_exec[OF this] obtain h2 s2 where "?x (1, h1, s1) = (2, h2, s2)" "ce_transport s2 = Some \<lparr>t_id = 1, t_oracle = []\<rparr>"
    by (metis Suc_1)
  with 1 that show ?thesis by (simp add: toy_run_def)
qed

text \<open>
  C28: in every run of the reactor, with any number of agents connecting, reading, timing out and closing
  and any other use of the endpoint in between, the endpoint's transport is a live stream that has not
  reported a loss, and no other stream is attached to the endpoint.
\<close>

theorem one_agent_stream:
  assumes "fold (sock_exec lib cn (cloud_env ae)) ops (0, no_streams, cloud_boot) = (n, h, s)"
  shows "case ce_transport s of
      None \<Rightarrow> \<forall>j. \<not> ag_adapter (h j)
    | Some t \<Rightarrow> t_id t < n \<and> ag_handle (h (t_id t)) \<and> \<not> ag_deleted (h (t_id t)) \<and>
        \<not> ag_close_notified (h (t_id t)) \<and> (\<forall>j. ag_adapter (h j) \<longleftrightarrow> j = t_id t)"
  using sock_reachable_inv[OF assms] by (cases "ce_transport s") (auto simp: aw_inv_def ag_owner_def)

theorem one_agent_stream_witness:
  "\<exists>h s. toy_run = (2, h, s) \<and> ag_handle (h 1) \<and> \<not> ag_deleted (h 1) \<and> \<not> ag_close_notified (h 1) \<and>
     (\<forall>j. ag_adapter (h j) \<longleftrightarrow> j = 1)"
proof -
  obtain h s where run: "toy_run = (2, h, s)" and t: "ce_transport s = Some \<lparr>t_id = 1, t_oracle = []\<rparr>"
    by (rule toy_run_state)
  from one_agent_stream[OF run[unfolded toy_run_def]] run t show ?thesis
    by (intro exI[of _ h] exI[of _ s]) simp
qed

text \<open>
  a stream that is no longer the endpoint's, because a newer connection replaced it or because it was
  lost, leaves the endpoint exactly as it is when the reactor times it out, finds its socket closed or
  closes it: the newer connection is not taken down with the old one.
\<close>

theorem replaced_stream_silent:
  assumes "fold (sock_exec lib cn (cloud_env ae)) ops (0, no_streams, cloud_boot) = (n, h, s)"
    and "\<not> ag_adapter (h i)"
    and "op = SockClose i \<or> op = SockTimer i \<or> (op = SockInput i chunk \<and> \<not> ag_handle (h i))"
  shows "snd (snd (sock_exec lib cn (cloud_env ae) op (n, h, s))) = s"
proof -
  note inv = sock_reachable_inv[OF assms(1)]
  have ad: "\<not> ag_adapter (fst (h, s) i)" using assms(2) by simp
  consider "op = SockClose i" | "op = SockTimer i" | "op = SockInput i chunk" "\<not> ag_handle (h i)"
    using assms(3) by blast
  then show ?thesis
  proof cases
    case 1
    with handle_close_silent[OF inv ad] show ?thesis by simp
  next
    case 2
    let ?w = "snd (ag_handle_timeout lib i (h, s))"
    have "aw_inv {..<n} ?w" "\<not> ag_adapter (fst ?w i)" "snd ?w = s"
      using timeout_stays[OF inv ad, of lib] handle_timeout_silent[OF inv ad, of lib] by simp_all
    with 2 handle_close_silent[of "{..<n}" ?w i lib] show ?thesis by (auto simp: Let_def split: prod.split)
  next
    case 3
    let ?w = "ag_notify_disconnect_once lib i (h, s)"
    have "aw_inv {..<n} ?w" "\<not> ag_adapter (fst ?w i)" "snd ?w = s" using notify_facts[OF inv] ad by simp_all
    with 3 handle_close_silent[of "{..<n}" ?w i lib] show ?thesis
      by (simp add: ag_handle_input_def after_input_def)
  qed
qed

theorem replaced_stream_silent_witness:
  "snd (snd (sock_exec toy_ssl (\<lambda>_. []) (cloud_env (sample_app sample_lib)) (SockClose 0) toy_run)) = snd (snd toy_run)"
proof -
  obtain h s where run: "toy_run = (2, h, s)" and t: "ce_transport s = Some \<lparr>t_id = 1, t_oracle = []\<rparr>"
    by (rule toy_run_state)
  have "\<not> ag_adapter (h 0)" using sock_reachable_inv[OF run[unfolded toy_run_def]] t by (simp add: aw_inv_def)
  from replaced_stream_silent[OF run[unfolded toy_run_def] this, of "SockClose 0" "[]"] show ?thesis
    unfolding run by simp
qed

text \<open>
  a stream whose inner TLS handshake succeeds, or that needs none, and that the reactor accepts takes
  the tunnel over in every reachable state: it becomes the endpoint's transport, and the socket of the stream
  it replaces is closed.
\<close>

theorem newest_stream_wins:
  assumes "fold (sock_exec lib cn (cloud_env ae)) ops (0, no_streams, cloud_boot) = (n, h, s)"
    and "ho_registered ho" and "ho_timer ho \<noteq> -1" and "ho_writes ho = []"
    and "ho_inner_tls ho \<Longrightarrow> \<exists>d b. inner_shake lib bridge_transport
      (ho_ssl ho, new_tls_bridge False (ho_reads ho) (ho_shake_sends ho) []) = Some (ShakeTrue, d, b)"
  shows "\<exists>h' s'. sock_exec lib cn (cloud_env ae) (Handoff ho) (n, h, s) = (Suc n, h', s') \<and>
    ce_transport s' = Some \<lparr>t_id = n, t_oracle = []\<rparr> \<and>
    (\<forall>t. ce_transport s = Some t \<longrightarrow> \<not> ag_handle (h' (t_id t)))"
proof -
  have "aw_inv {..<Suc n} (h, s)" "\<not> ag_adapter (fst (h, s) n)" using sock_reachable_inv[OF assms(1)] by (force simp: aw_inv_def)+
  then obtain w' where "handoff_agent_stream lib cn ho n (h, s) = Some w'"
    "ce_transport (snd w') = Some \<lparr>t_id = n, t_oracle = []\<rparr>"
    "\<forall>t. ce_transport (snd (h, s)) = Some t \<longrightarrow> \<not> ag_handle (fst w' (t_id t))"
    using handoff_takes_over[OF _ _ _ assms(2-5), of "{..<Suc n}" "(h, s)" n cn] by auto
  then show ?thesis by (cases w') auto
qed

theorem newest_stream_wins_witness:
  "\<exists>h' s'. sock_exec toy_ssl (\<lambda>_. []) (cloud_env (sample_app sample_lib)) (Handoff toy_handoff) toy_run = (3, h', s') \<and>
    ce_transport s' = Some \<lparr>t_id = 2, t_oracle = []\<rparr> \<and> \<not> ag_handle (h' 1)"
proof -
  obtain h s where run: "toy_run = (2, h, s)" and t: "ce_transport s = Some \<lparr>t_id = 1, t_oracle = []\<rparr>"
    by (rule toy_run_state)
  from newest_stream_wins[OF run[unfolded toy_run_def], of toy_handoff] t toy_shake show ?thesis
    unfolding run by (auto simp: toy_handoff_def)
qed

section \<open>Through TLS\<close>

text \<open>The two ends of an established session, and a ping for the cloud.\<close>

definition toy_bridge :: "bool \<Rightarrow> tls_bridge" where
  "toy_bridge masked = switch_to_buffered (new_tls_bridge masked [] [] [])"

definition toy_transport :: "(u8 list \<times> u8 list) ssl_transport" where
  "toy_transport = dispatch_task.extend (new_dispatch_task\<lparr>dt_continue := True\<rparr>)
     \<lparr>st_handle = True, st_recv_buf = [], st_close_notified = False, st_tls = Some (([], []), toy_bridge True),
      st_lost = 0, st_sends = [], st_keys = [], st_written = []\<rparr>"

definition toy_streams :: "(u8 list \<times> u8 list) agent_socks" where
  "toy_streams = no_streams(1 := (new_agent_sock [])\<lparr>ag_adapter := True, ag_attached := True,
     ag_tls := Some (([], []), toy_bridge False)\<rparr>)"

definition toy_ping :: Frame where
  "toy_ping = \<lparr>frame_op = PING, frame_stream_id = 0, frame_payload = []\<rparr>"

definition toy_wire :: "u8 list" where
  "toy_wire = concat (st_wire (st_send_all toy_ssl [encode_frame toy_ping] toy_transport))"

lemma toy_transport_fields:
  "st_handle toy_transport" "st_tls toy_transport = Some (([], []), toy_bridge True)" "st_wire toy_transport = []"
  "tb_healthy (toy_bridge m)" "tb_client_mask (toy_bridge m) = m" "tb_written (toy_bridge m) = []"
  "st_ready (toy_linked ([], [])) toy_transport" "dt_queue toy_transport = []" "dt_handled toy_transport = []"
  by (simp_all add: toy_transport_def dispatch_task.extend_def new_dispatch_task_def toy_bridge_def switch_to_buffered_def
      new_tls_bridge_def tb_healthy_def st_wire_def st_ready_def session_idle_def toy_linked_def)

lemma toy_streams_ready: "ag_ready (toy_linked ([], [])) 1 (toy_streams, sample_cloud)"
proof -
  have "ce_transport sample_cloud = Some sample_transport" by (simp add: sample_cloud_eq)
  then show ?thesis
    by (simp add: ag_ready_def toy_streams_def new_agent_sock_def session_idle_def toy_bridge_def switch_to_buffered_def
        new_tls_bridge_def toy_linked_def sample_transport_def)
qed

lemma toy_wire_cut: "take 3 toy_wire \<noteq> []" "drop 3 toy_wire \<noteq> []"
proof -
  have "\<forall>p \<in> set [encode_frame toy_ping]. p \<noteq> [] \<and> length p < 2 ^ 31"
    using encode_frame_size by (simp add: toy_ping_def frame_fits_def)
  from st_send_all_records[OF toy_laws _ this toy_transport_fields(1,2,4)]
  obtain xs c2 b2 where "tls_records toy_ssl toy_linked (map string_to_bytes [encode_frame toy_ping]) (map fst xs) ([], []) c2"
    "st_send_all toy_ssl [encode_frame toy_ping] toy_transport = toy_transport\<lparr>st_tls := Some (c2, b2)\<rparr>"
    "tb_written b2 = map (record_frame True) xs"
    using toy_transport_fields by (auto simp: toy_linked_def)
  then obtain x where "toy_wire = record_frame True x"
    by (auto simp: toy_wire_def st_wire_def elim!: tls_records.cases)
  moreover have "3 < length (record_frame True x)" by (simp add: record_frame_def ws_encode_def Let_def)
  ultimately have "3 < length toy_wire" by metis
  then show "take 3 toy_wire \<noteq> []" "drop 3 toy_wire \<noteq> []" by (auto simp: take_eq_Nil)
qed

text \<open>
  C29: the SIP frames the agent's transport is given are dispatched by the cloud's bridge, each exactly once
  and in order, after they have been encrypted, masked, framed, cut into reads in any way, unframed and
  decrypted; the session stays usable.
\<close>

theorem up_delivery_over_tls:
  fixes w :: "('d, unit cloud_app_ext) agent_world"
  assumes "tls_laws wlib rlib linked" and "st_handle x" and "st_tls x = Some (c, b)" and "tb_healthy b"
    and "tb_client_mask b" and "ag_ready (linked c) i w" and "list_all frame_fits fs"
    and "[] \<notin> set cs"
    and "concat (st_wire x) @ concat cs = concat (st_wire (st_send_all wlib (map encode_frame fs) x))"
  shows "\<exists>w' c'. ag_inputs rlib (cloud_env ae) i cs w = Some (DrainMore, w') \<and> ag_ready (linked c') i w' \<and>
    snd w' = fold (\<lambda>f s. dispatch_frame (cloud_env ae) f (s\<lparr>ce_pings_outstanding := 0\<rparr>)) fs (snd w)"
proof -
  have "\<exists>d. linked c d" using assms(6) by (auto simp: ag_ready_def session_idle_def)
  moreover have "\<forall>p \<in> set (map encode_frame fs). p \<noteq> [] \<and> length p < 2 ^ 31"
    using assms(7) encode_frame_size by (auto simp: list_all_iff)
  ultimately obtain xs c2 b2 where r: "tls_records rlib linked (map string_to_bytes (map encode_frame fs)) (map fst xs) c c2"
    "st_send_all wlib (map encode_frame fs) x = x\<lparr>st_tls := Some (c2, b2)\<rparr>"
    "tb_written b2 = tb_written b @ map (record_frame True) xs"
    using st_send_all_records[OF assms(1) _ _ assms(2-5)] by blast
  have "concat cs = concat (map (record_frame True) xs)"
    using assms(9) r(2,3) assms(3) by (simp add: st_wire_def)
  with ag_inputs_records[OF assms(1,6,7) _ assms(8), of xs c2 ae] r(1) show ?thesis
    by (auto simp: comp_def)
qed

theorem up_delivery_over_tls_witness:
  "\<exists>w'. ag_inputs toy_ssl (cloud_env (sample_app sample_lib)) 1 [take 3 toy_wire, drop 3 toy_wire] (toy_streams, sample_cloud) =
      Some (DrainMore, w') \<and>
    snd w' = dispatch_frame (cloud_env (sample_app sample_lib)) toy_ping (sample_cloud\<lparr>ce_pings_outstanding := 0\<rparr>)"
proof -
  have "list_all frame_fits [toy_ping]" by (simp add: toy_ping_def frame_fits_def)
  from up_delivery_over_tls[OF toy_laws toy_transport_fields(1,2,4) _ toy_streams_ready this,
      of "[take 3 toy_wire, drop 3 toy_wire]" "sample_app sample_lib"]
  show ?thesis using toy_wire_cut toy_transport_fields(3,5) by (auto simp: toy_wire_def)
qed

text \<open>
  C30: in the other direction each block of bytes the endpoint writes to its transport is handed to the
  agent's handlers by the worker, each exactly once and in order, however the network cuts them.
\<close>

theorem down_delivery_over_tls:
  assumes "tls_laws wlib rlib linked" and "ag_adapter (h i)" and "ag_handle (h i)" and "ag_tls (h i) = Some (c, b)"
    and "\<not> tb_closed b" and "\<not> tb_client_mask b" and "st_ready (linked c) x" and "dt_queue x = []"
    and "\<forall>p \<in> set ps. p \<noteq> [] \<and> length p < 2 ^ 31" and "[] \<notin> set cs"
    and "ag_tls (fold (ag_event wlib) (map (Sent i) ps) h i) = Some (c', b')"
    and "concat (tb_written b) @ concat cs = concat (tb_written b')"
  shows "\<exists>x'. st_inputs rlib cs x = Some (DrainMore, x') \<and>
    dt_handled ((svc_turn ^^ length ps) x') = dt_handled x @ map HandledBytes ps"
proof -
  have "\<exists>d. linked c d" using assms(7) by (auto simp: st_ready_def session_idle_def)
  from ag_sent_records[where h = h and i = i, OF assms(1) this assms(9,2-6)] assms(11) obtain xs where
    r: "tls_records rlib linked (map string_to_bytes ps) (map fst xs) c c'"
    "tb_written b' = tb_written b @ map (record_frame False) xs" by auto
  have "concat cs = concat (map (record_frame False) xs)" using assms(12) r(2) by simp
  from st_inputs_records[OF assms(1,7) r(1) assms(10) this] obtain x' where
    x': "st_inputs rlib cs x = Some (DrainMore, x')" "st_ready (linked c') x'" "dt_queue x' = map BlockData ps"
      "dt_handled x' = dt_handled x"
    using assms(8) by (auto simp: comp_def)
  have "dt_handled ((svc_turn ^^ length ps) x') = dt_handled x @ map HandledBytes ps"
    using svc_turns[of x' ps "[]"] x' by (simp add: st_ready_def)
  with x'(1) show ?thesis by blast
qed

theorem down_delivery_over_tls_witness:
  "\<exists>b' x'. ag_tls (fold (ag_event toy_ssl) [Sent 1 ''hello''] toy_streams 1) = Some (([], []), b') \<and>
     st_inputs toy_ssl [concat (tb_written b')] toy_transport = Some (DrainMore, x') \<and>
     dt_handled (svc_turn x') = [HandledBytes ''hello'']"
proof -
  have streams: "ag_adapter (toy_streams 1)" "ag_handle (toy_streams 1)"
    "ag_tls (toy_streams 1) = Some (([], []), toy_bridge False)" "\<not> tb_closed (toy_bridge False)"
    by (simp_all add: toy_streams_def new_agent_sock_def toy_bridge_def switch_to_buffered_def new_tls_bridge_def)
  obtain b' where b': "ag_tls (fold (ag_event toy_ssl) [Sent 1 ''hello''] toy_streams 1) = Some (([], []), b')"
    "concat (tb_written b') \<noteq> []"
    using streams
    by (simp add: ag_write_bytes_def inner_send_def flush_wbio_def toy_ssl_def bridge_transport_def bridge_send_def
        tb_emit_def tb_frame_def tb_send_raw_def string_to_bytes_def toy_transport_fields ws_encode_def Let_def)
  have "\<forall>p \<in> set [''hello'']. p \<noteq> [] \<and> length p < 2 ^ 31" by simp
  from down_delivery_over_tls[where h = toy_streams and i = 1, OF toy_laws streams _ toy_transport_fields(7,8) this,
      of "[concat (tb_written b')]" "([], [])" b'] b'
  show ?thesis by (auto simp: toy_transport_fields)
qed

end
