(* ===== verification/Push_Crypto.thy ===== *)
theory Push_Crypto
  imports Cpp_Effect
begin

text \<open>
  The cryptographic part of web push (\<^verbatim>\<open>push_crypto\<close> in \<^verbatim>\<open>modules/module/pbx/src/push_sender.cpp\<close>): base64url, the
  record of RFC 8188 and its reader.  OpenSSL is a parameter, \<^verbatim>\<open>push_lib\<close>; a call that fails makes the wrapper
  around it throw (\<^term>\<open>None\<close>).
\<close>

unbundle bit_operations_syntax

section \<open>base64url\<close>

definition kB64Alphabet :: string where
  "kB64Alphabet = ''ABCDEFGHIJKLMNOPQRSTUVWXYZabcdefghijklmnopqrstuvwxyz0123456789-_''"

definition b64url_char :: "u32 \<Rightarrow> char" where
  "b64url_char v = kB64Alphabet ! unat (v AND 0x3F)"

text \<open>\<^verbatim>\<open>b64_value\<close>; \<^term>\<open>None\<close> is -1.\<close>

definition b64url_value :: "char \<Rightarrow> nat option" where
  "b64url_value c =
     (let n = of_char c :: nat
      in if 65 \<le> n \<and> n \<le> 90 then Some (n - 65)
         else if 97 \<le> n \<and> n \<le> 122 then Some (n - 97 + 26)
         else if 48 \<le> n \<and> n \<le> 57 then Some (n - 48 + 52)
         else if c = CHR ''-'' \<or> c = CHR ''+'' then Some 62
         else if c = CHR ''_'' \<or> c = CHR ''/'' then Some 63
         else None)"

fun b64url_encode :: "string \<Rightarrow> string" where
  "b64url_encode (c0 # c1 # c2 # cs) =
     (let b0 = of_char c0 :: u32; b1 = of_char c1; b2 = of_char c2
      in [b64url_char (drop_bit 2 b0), b64url_char (push_bit 4 b0 OR drop_bit 4 b1),
          b64url_char (push_bit 2 b1 OR drop_bit 6 b2), b64url_char b2] @ b64url_encode cs)"
| "b64url_encode [c0] =
     (let b0 = of_char c0 :: u32 in [b64url_char (drop_bit 2 b0), b64url_char (push_bit 4 b0)])"
| "b64url_encode [c0, c1] =
     (let b0 = of_char c0 :: u32; b1 = of_char c1
      in [b64url_char (drop_bit 2 b0), b64url_char (push_bit 4 b0 OR drop_bit 4 b1), b64url_char (push_bit 2 b1)])"
| "b64url_encode [] = []"

text \<open>The loop of \<^verbatim>\<open>b64url_decode\<close>: a 32-bit accumulator that overflows to the left, and the bits not yet used.\<close>

fun b64url_loop :: "u32 \<Rightarrow> nat \<Rightarrow> string \<Rightarrow> string \<Rightarrow> string result" where
  "b64url_loop acc bits out [] = Done out"
| "b64url_loop acc bits out (c # cs) =
     (if c = CHR ''='' then Done out
      else case b64url_value c of
             None \<Rightarrow> Thrown RuntimeError
           | Some v \<Rightarrow>
               (let acc1 = push_bit 6 acc OR of_nat v; bits1 = bits + 6
                in if 8 \<le> bits1
                   then b64url_loop acc1 (bits1 - 8)
                          (out @ [char_of (unat (drop_bit (bits1 - 8) acc1 AND 0xFF))]) cs
                   else b64url_loop acc1 bits1 out cs))"

definition b64url_decode :: "string \<Rightarrow> string result" where
  "b64url_decode inp = b64url_loop 0 0 [] inp"

lemma b64url_value_alphabet: "i < 64 \<Longrightarrow> b64url_value (kB64Alphabet ! i) = Some i"
proof -
  have all: "map b64url_value kB64Alphabet = map Some [0..<64]"
    by (simp add: kB64Alphabet_def b64url_value_def Let_def upt_rec)
  assume "i < 64"
  moreover have "length kB64Alphabet = 64" by (simp add: kB64Alphabet_def)
  ultimately have "b64url_value (kB64Alphabet ! i) = map b64url_value kB64Alphabet ! i" by simp
  with \<open>i < 64\<close> show ?thesis by (simp add: all)
qed

lemma six_bits: "v AND 0x3F = take_bit 6 (v :: u32)" "unat (take_bit 6 (v :: u32)) < 64"
proof -
  show "v AND 0x3F = take_bit 6 v" by (simp add: take_bit_eq_mask mask_eq_exp_minus_1)
  show "unat (take_bit 6 v) < 64"
    using take_bit_nat_less_exp[of 6 "unat v"] by (simp add: unsigned_take_bit_eq)
qed

lemma b64url_char_value: "b64url_value (b64url_char v) = Some (unat (take_bit 6 v))"
  by (simp add: b64url_char_def six_bits b64url_value_alphabet)

lemma b64url_char_not_pad: "b64url_char v \<noteq> CHR ''=''"
proof
  assume "b64url_char v = CHR ''=''"
  then have "b64url_value (CHR ''='') = Some (unat (take_bit 6 v))" by (metis b64url_char_value)
  then show False by (simp add: b64url_value_def)
qed

text \<open>One character: six more bits, and a byte when eight are there.\<close>

lemma b64url_loop_char:
  "b64url_loop acc bits out (b64url_char v # cs) =
     (if 2 \<le> bits then b64url_loop (push_bit 6 acc OR take_bit 6 v) (bits - 2)
        (out @ [char_of (unat (drop_bit (bits - 2) (push_bit 6 acc OR take_bit 6 v) AND 0xFF))]) cs
      else b64url_loop (push_bit 6 acc OR take_bit 6 v) (bits + 6) out cs)"
  by (simp add: b64url_char_value b64url_char_not_pad Let_def)

declare b64url_loop.simps(2) [simp del]

lemma byte_eqI:
  fixes x y :: u32
  assumes "\<And>n. 8 \<le> n \<Longrightarrow> \<not> bit y n" and "\<And>n. n < 8 \<Longrightarrow> bit x n = bit y n"
  shows "x AND 0xFF = y"
  unfolding and_FF_take_bit
proof (rule bit_word_eqI)
  fix n :: nat
  show "bit (take_bit 8 x) n = bit y n" using assms(1)[of n] assms(2)[of n] by (cases "n < 8") (auto simp: bit_take_bit_iff)
qed

lemma high_bits: "8 \<le> n \<Longrightarrow> \<not> bit (of_char c :: u32) n"
  using take_bit_of_char_u32[of c] by (metis bit_take_bit_iff not_le)

lemma char_byte: "x AND 0xFF = (of_char c :: u32) \<Longrightarrow> char_of (unat (x AND 0xFF)) = c"
  by (simp add: unat_of_char_u32)

lemma b64url_round:
  fixes acc :: u32 and c0 c1 c2 :: char
  defines "b0 \<equiv> of_char c0 :: u32" and "b1 \<equiv> of_char c1 :: u32" and "b2 \<equiv> of_char c2 :: u32"
  defines "acc1 \<equiv> push_bit 6 acc OR take_bit 6 (drop_bit 2 b0)"
  defines "acc2 \<equiv> push_bit 6 acc1 OR take_bit 6 (push_bit 4 b0 OR drop_bit 4 b1)"
  defines "acc3 \<equiv> push_bit 6 acc2 OR take_bit 6 (push_bit 2 b1 OR drop_bit 6 b2)"
  defines "acc4 \<equiv> push_bit 6 acc3 OR take_bit 6 b2"
  shows "drop_bit 4 acc2 AND 0xFF = b0" and "drop_bit 2 acc3 AND 0xFF = b1" and "acc4 AND 0xFF = b2"
proof -
  have hi: "8 \<le> n \<Longrightarrow> \<not> bit b0 n" "8 \<le> n \<Longrightarrow> \<not> bit b1 n" "8 \<le> n \<Longrightarrow> \<not> bit b2 n" for n
    by (simp_all add: b0_def b1_def b2_def high_bits)
  have cases8: "n < 8 \<Longrightarrow> n \<in> {0, 1, 2, 3, 4, 5, 6, 7}" for n :: nat by fastforce
  show "drop_bit 4 acc2 AND 0xFF = b0"
    by (rule byte_eqI) (use hi in \<open>auto dest!: cases8 simp: acc2_def acc1_def bit_simps
        simp flip: numeral_2_eq_2 numeral_3_eq_3\<close>)
  show "drop_bit 2 acc3 AND 0xFF = b1"
    by (rule byte_eqI) (use hi in \<open>auto dest!: cases8 simp: acc3_def acc2_def bit_simps\<close>)
  show "acc4 AND 0xFF = b2"
    by (rule byte_eqI) (use hi in \<open>auto dest!: cases8 simp: acc4_def acc3_def bit_simps\<close>)
qed

lemma b64url_loop_encode: "b64url_loop acc 0 out (b64url_encode s) = Done (out @ s)"
proof (induction s arbitrary: acc out rule: b64url_encode.induct)
  case (1 c0 c1 c2 cs)
  from b64url_round(1)[of acc c0 c1, THEN char_byte] b64url_round(2,3)[of acc c0 c1 c2, THEN char_byte] show ?case
    by (simp add: Let_def b64url_loop_char "1.IH")
next
  case (2 c0)
  from b64url_round(1)[of acc c0 "CHR 0x00", THEN char_byte] show ?case by (simp add: Let_def b64url_loop_char)
next
  case (3 c0 c1)
  from b64url_round(1)[of acc c0 c1, THEN char_byte] b64url_round(2)[of acc c0 c1 "CHR 0x00", THEN char_byte] show ?case by (simp add: Let_def b64url_loop_char)
qed simp

lemma b64url_decode_encode: "b64url_decode (b64url_encode s) = Done s"
  by (simp add: b64url_decode_def b64url_loop_encode)

section \<open>OpenSSL\<close>

text \<open>
  Public key of a private key, shared secret, key derivation, sealing (ciphertext and tag) and opening with AES-GCM,
  and the signature in the fixed-width form of JOSE.
\<close>

record push_lib =
  pl_json :: json_lib
  pl_public :: "string \<Rightarrow> string option"
  pl_ecdh :: "string \<Rightarrow> string \<Rightarrow> string option"
  pl_hkdf :: "string \<Rightarrow> string \<Rightarrow> string \<Rightarrow> nat \<Rightarrow> string option"
  pl_gcm_seal :: "string \<Rightarrow> string \<Rightarrow> string \<Rightarrow> (string \<times> string) option"
  pl_gcm_open :: "string \<Rightarrow> string \<Rightarrow> string \<Rightarrow> string \<Rightarrow> string option"
  pl_sign :: "string \<Rightarrow> string \<Rightarrow> string option"

definition ssl_call :: "'a option \<Rightarrow> 'a result" where
  "ssl_call r = (case r of None \<Rightarrow> Thrown RuntimeError | Some v \<Rightarrow> Done v)"

lemma ssl_call_simps [simp]: "ssl_call (Some v) = Done v" "ssl_call None = Thrown RuntimeError"
  by (simp_all add: ssl_call_def)

definition aes128gcm_encrypt :: "push_lib \<Rightarrow> string \<Rightarrow> string \<Rightarrow> string \<Rightarrow> string result" where
  "aes128gcm_encrypt lib key nonce plaintext =
     result_bind (ssl_call (pl_gcm_seal lib key nonce plaintext)) (\<lambda>(ct, tag). Done (ct @ tag))"

definition aes128gcm_decrypt :: "push_lib \<Rightarrow> string \<Rightarrow> string \<Rightarrow> string \<Rightarrow> string result" where
  "aes128gcm_decrypt lib key nonce ct_with_tag =
     (if length ct_with_tag < 16 then Thrown RuntimeError
      else ssl_call (pl_gcm_open lib key nonce (take (length ct_with_tag - 16) ct_with_tag)
                       (drop (length ct_with_tag - 16) ct_with_tag)))"

section \<open>The record\<close>

definition u32_be :: "u32 \<Rightarrow> string" where
  "u32_be v = map (\<lambda>n. char_of (unat (drop_bit n v AND 0xFF))) [24, 16, 8, 0]"

definition key_info :: "string \<Rightarrow> string \<Rightarrow> string" where
  "key_info ua_pub as_pub = ''WebPush: info'' @ [CHR 0x00] @ ua_pub @ as_pub"

definition cek_info :: string where
  "cek_info = ''Content-Encoding: aes128gcm'' @ [CHR 0x00]"

definition nonce_info :: string where
  "nonce_info = ''Content-Encoding: nonce'' @ [CHR 0x00]"

text \<open>The key and the nonce both sides derive from the shared secret.\<close>

definition record_keys :: "push_lib \<Rightarrow> string \<Rightarrow> string \<Rightarrow> string \<Rightarrow> string \<Rightarrow> (string \<times> string) result" where
  "record_keys lib auth shared info salt =
     result_bind (ssl_call (pl_hkdf lib auth shared info 32)) (\<lambda>ikm.
     result_bind (ssl_call (pl_hkdf lib salt ikm cek_info 16)) (\<lambda>cek.
     result_bind (ssl_call (pl_hkdf lib salt ikm nonce_info 12)) (\<lambda>nonce. Done (cek, nonce))))"

definition encrypt_payload_impl ::
    "push_lib \<Rightarrow> string \<Rightarrow> string \<Rightarrow> string \<Rightarrow> string \<Rightarrow> string \<Rightarrow> string \<Rightarrow> string result" where
  "encrypt_payload_impl lib payload p256dh auth server_priv_pem server_pub salt =
     result_bind (ssl_call (pl_ecdh lib server_priv_pem p256dh)) (\<lambda>shared.
     result_bind (record_keys lib auth shared (key_info p256dh server_pub) salt) (\<lambda>(cek, nonce).
     result_bind (aes128gcm_encrypt lib cek nonce (payload @ [CHR 0x02])) (\<lambda>ct.
     Done (salt @ u32_be 4096 @ [char_of (length server_pub mod 256)] @ server_pub @ ct))))"

text \<open>\<^verbatim>\<open>while (!padded.empty() && padded.back() == 0x00) padded.pop_back()\<close>.\<close>

definition strip_zeros :: "string \<Rightarrow> string" where
  "strip_zeros s = rev (dropWhile (\<lambda>c. c = CHR 0x00) (rev s))"

definition decrypt_payload_for_testing :: "push_lib \<Rightarrow> string \<Rightarrow> string \<Rightarrow> string \<Rightarrow> string result" where
  "decrypt_payload_for_testing lib private_pem auth rec =
     (if length rec < 21 then Thrown RuntimeError
      else let salt = take 16 rec; idlen = of_char (rec ! 20) :: nat
           in if length rec < 21 + idlen then Thrown RuntimeError
              else let server_pub = take idlen (drop 21 rec); ciphertext = drop (21 + idlen) rec
                   in result_bind (ssl_call (pl_public lib private_pem)) (\<lambda>subscriber_pub.
                      result_bind (ssl_call (pl_ecdh lib private_pem server_pub)) (\<lambda>shared.
                      result_bind (record_keys lib auth shared (key_info subscriber_pub server_pub) salt) (\<lambda>(cek, nonce).
                      result_bind (aes128gcm_decrypt lib cek nonce ciphertext) (\<lambda>padded.
                      if padded = [] \<or> last padded \<noteq> CHR 0x02 then Thrown RuntimeError
                      else Done (strip_zeros (butlast padded)))))))"

text \<open>
  What is relied on of OpenSSL: two key pairs of the curve agree on a secret of 32 bytes; derivation works for the sizes
  it documents (an output of at most 255 hashes, an info of at most 1024 bytes); and what was sealed under a key of 16 and
  a nonce of 12 bytes opens under them.
\<close>

definition push_laws :: "push_lib \<Rightarrow> string \<times> string \<Rightarrow> string \<times> string \<Rightarrow> bool" where
  "push_laws lib ua eph \<longleftrightarrow>
     pl_public lib (fst ua) = Some (snd ua) \<and> length (snd ua) = 65 \<and> length (snd eph) = 65 \<and>
     (\<exists>z. pl_ecdh lib (fst eph) (snd ua) = Some z \<and> pl_ecdh lib (fst ua) (snd eph) = Some z \<and> length z = 32) \<and>
     (\<forall>salt ikm info n. salt \<noteq> [] \<longrightarrow> ikm \<noteq> [] \<longrightarrow> length info \<le> 1024 \<longrightarrow> 0 < n \<longrightarrow> n \<le> 255 * 32 \<longrightarrow>
        (\<exists>key. pl_hkdf lib salt ikm info n = Some key \<and> length key = n)) \<and>
     (\<forall>key nonce p. length key = 16 \<longrightarrow> length nonce = 12 \<longrightarrow> length p < 2 ^ 31 \<longrightarrow>
        (\<exists>ct tag. pl_gcm_seal lib key nonce p = Some (ct, tag) \<and> length tag = 16 \<and>
           pl_gcm_open lib key nonce ct tag = Some p))"

lemma record_keys_total:
  assumes "push_laws lib ua eph" and "auth \<noteq> []" and "shared \<noteq> []" and "length info \<le> 1024" and "salt \<noteq> []"
  obtains cek nonce where "record_keys lib auth shared info salt = Done (cek, nonce)" and "length cek = 16" and "length nonce = 12"
proof -
  have some: "\<exists>y. pl_hkdf lib a b c n = Some y \<and> length y = n"
    if "a \<noteq> []" "b \<noteq> []" "length c \<le> 1024" "0 < n" "n \<le> 255 * 32" for a b c n
    using assms(1) that unfolding push_laws_def by blast
  obtain ikm where ikm: "pl_hkdf lib auth shared info 32 = Some ikm" "length ikm = 32" using some[of auth shared info 32] assms by auto
  then have "ikm \<noteq> []" by auto
  then obtain cek nonce where "pl_hkdf lib salt ikm cek_info 16 = Some cek \<and> length cek = 16"
    "pl_hkdf lib salt ikm nonce_info 12 = Some nonce \<and> length nonce = 12"
    using some[of salt ikm cek_info 16] some[of salt ikm nonce_info 12] assms(5) by (auto simp: cek_info_def nonce_info_def)
  with ikm that show ?thesis by (simp add: record_keys_def)
qed

lemma gcm_round_trip:
  assumes "push_laws lib ua eph" and "length key = 16" and "length nonce = 12" and "length p < 2 ^ 31"
  obtains ct where "aes128gcm_encrypt lib key nonce p = Done ct" "aes128gcm_decrypt lib key nonce ct = Done p"
proof -
  obtain ct tag where "pl_gcm_seal lib key nonce p = Some (ct, tag)" "length tag = 16" "pl_gcm_open lib key nonce ct tag = Some p"
    using assms unfolding push_laws_def by metis
  with that[of "ct @ tag"] show ?thesis by (simp add: aes128gcm_encrypt_def aes128gcm_decrypt_def)
qed

lemma length_u32_be: "length (u32_be v) = 4"
  by (simp add: u32_be_def)

lemma record_round_trip:
  assumes laws: "push_laws lib ua eph" and "length salt = 16" and "auth \<noteq> []" and "length payload < 2 ^ 31 - 1"
  shows "\<exists>rec. encrypt_payload_impl lib payload (snd ua) auth (fst eph) (snd eph) salt = Done rec \<and>
    decrypt_payload_for_testing lib (fst ua) auth rec = Done (strip_zeros payload)"
proof -
  obtain z where z: "pl_ecdh lib (fst eph) (snd ua) = Some z" "pl_ecdh lib (fst ua) (snd eph) = Some z"
    "pl_public lib (fst ua) = Some (snd ua)" and "length z = 32" using laws unfolding push_laws_def by blast
  have pub: "length (snd ua) = 65" "length (snd eph) = 65" using laws unfolding push_laws_def by blast+
  have "z \<noteq> []" "salt \<noteq> []" using \<open>length z = 32\<close> assms(2) by auto
  then obtain cek nonce where k: "record_keys lib auth z (key_info (snd ua) (snd eph)) salt = Done (cek, nonce)"
    "length cek = 16" "length nonce = 12"
    using record_keys_total[OF laws assms(3), of z "key_info (snd ua) (snd eph)" salt] pub by (auto simp: key_info_def)
  have "length (payload @ [CHR 0x02]) < 2 ^ 31" using assms(4) by simp
  then obtain ct where ct: "aes128gcm_encrypt lib cek nonce (payload @ [CHR 0x02]) = Done ct"
    "aes128gcm_decrypt lib cek nonce ct = Done (payload @ [CHR 0x02])" by (rule gcm_round_trip[OF laws k(2,3)])
  let ?n = "length (snd eph)"
  let ?rec = "salt @ u32_be 4096 @ [char_of (?n mod 256)] @ snd eph @ ct"
  have idlen: "of_char (?rec ! 20) = ?n" using assms(2) pub(2) by (simp add: nth_append length_u32_be)
  have len: "length ?rec = 21 + ?n + length ct" using assms(2) by (simp add: length_u32_be)
  have parts: "take 16 ?rec = salt" "take ?n (drop 21 ?rec) = snd eph" "drop (21 + ?n) ?rec = ct"
    using assms(2) by (simp_all add: length_u32_be)
  have "decrypt_payload_for_testing lib (fst ua) auth ?rec = Done (strip_zeros payload)"
    unfolding decrypt_payload_for_testing_def Let_def idlen parts len using z k ct by simp
  moreover have "encrypt_payload_impl lib payload (snd ua) auth (fst eph) (snd eph) salt = Done ?rec"
    using z k ct by (simp add: encrypt_payload_impl_def)
  ultimately show ?thesis by blast
qed

lemma strip_zeros_id: "s = [] \<or> last s \<noteq> CHR 0x00 \<Longrightarrow> strip_zeros s = s"
  by (cases s rule: rev_cases) (auto simp: strip_zeros_def)

end
