(* ===== verification/Https_Client.thy ===== *)
theory Https_Client
  imports Cpp_Effect
begin

text \<open>
  The one-shot HTTPS client of the push sender, \<^verbatim>\<open>AceHttpsClient\<close>
  (\<^verbatim>\<open>modules/module/pbx/src/ace_https_client.cpp\<close>).  What the network does with one request is an argument.
\<close>

record push_response =
  pr_status :: int
  pr_body :: string

definition no_response :: push_response where
  "no_response = \<lparr>pr_status = 0, pr_body = []\<rparr>"

record parsed_url =
  pu_scheme :: string
  pu_host :: string
  pu_port :: int
  pu_path :: string

text \<open>\<^term>\<open>None\<close> is \<^verbatim>\<open>ok = false\<close>; nobody looks at the other fields then.\<close>

definition parse_url :: "string \<Rightarrow> parsed_url option" where
  "parse_url url =
     (if take 8 url \<noteq> ''https://'' then None
      else let remainder = drop 8 url;
               path_pos = str_find remainder ''/'';
               authority = (case path_pos of None \<Rightarrow> remainder | Some p \<Rightarrow> take p remainder);
               path = (case path_pos of None \<Rightarrow> ''/'' | Some p \<Rightarrow> drop p remainder)
           in if authority = [] then None
              else case str_find authority '':'' of
                     None \<Rightarrow> Some \<lparr>pu_scheme = ''https'', pu_host = authority, pu_port = 443, pu_path = path\<rparr>
                   | Some colon \<Rightarrow>
                       (case stoi (drop (colon + 1) authority) of
                          Inl _ \<Rightarrow> None
                        | Inr p \<Rightarrow>
                            if p \<le> 0 \<or> 65535 < p then None
                            else if take colon authority = [] then None
                            else Some \<lparr>pu_scheme = ''https'', pu_host = take colon authority, pu_port = p, pu_path = path\<rparr>))"

definition own_header :: "string \<Rightarrow> bool" where
  "own_header name \<longleftrightarrow> name \<in> {''Host'', ''Content-Length'', ''Connection''}"

definition header_line :: "string \<times> string \<Rightarrow> string" where
  "header_line h = (if own_header (fst h) then [] else fst h @ '': '' @ snd h @ crlf)"

definition push_build_request :: "string \<Rightarrow> string \<Rightarrow> (string \<times> string) list \<Rightarrow> string \<Rightarrow> string" where
  "push_build_request host path headers body =
     ''POST '' @ path @ '' HTTP/1.1'' @ crlf @ ''Host: '' @ host @ crlf @ concat (map header_line headers) @
     ''Content-Length: '' @ dec_string (length body) @ crlf @ ''Connection: close'' @ crlf @ crlf @ body"

definition parse_push_response :: "string \<Rightarrow> push_response" where
  "parse_push_response raw =
     (case str_find raw crlf of
        None \<Rightarrow> no_response
      | Some eol \<Rightarrow>
          (let status_line = take eol raw
           in if take 7 status_line \<noteq> ''HTTP/1.'' then no_response
              else case str_find status_line '' '' of
                     None \<Rightarrow> no_response
                   | Some sp1 \<Rightarrow>
                       (let code = (case str_find_from status_line '' '' (sp1 + 1) of
                                      None \<Rightarrow> drop (sp1 + 1) status_line
                                    | Some sp2 \<Rightarrow> substr status_line (sp1 + 1) (sp2 - sp1 - 1))
                        in case stoi code of
                             Inl _ \<Rightarrow> no_response
                           | Inr status \<Rightarrow>
                               (case str_find raw (crlf @ crlf) of
                                  None \<Rightarrow> \<lparr>pr_status = status, pr_body = []\<rparr>
                                | Some p \<Rightarrow> \<lparr>pr_status = status, pr_body = drop (p + 4) raw\<rparr>))))"

text \<open>One connection: whether the TLS handshake and the write succeed, and the reads up to the end of the stream.\<close>

record net_dial =
  nd_connected :: bool
  nd_sent :: bool
  nd_reads :: "string list"

definition kMaxPushResponse :: nat where "kMaxPushResponse = 4 * 1024 * 1024"

fun read_push_response :: "string \<Rightarrow> string list \<Rightarrow> string option" where
  "read_push_response buf [] = Some buf"
| "read_push_response buf (chunk # chunks) =
     (if chunk = [] then Some buf
      else if kMaxPushResponse < length buf + length chunk then None
      else read_push_response (buf @ chunk) chunks)"

definition https_post :: "net_dial \<Rightarrow> string \<Rightarrow> (string \<times> string) list \<Rightarrow> string \<Rightarrow> string option \<times> push_response" where
  "https_post nd url headers body =
     (case parse_url url of
        None \<Rightarrow> (None, no_response)
      | Some u \<Rightarrow>
          if \<not> nd_connected nd then (None, no_response)
          else let req = push_build_request (pu_host u) (pu_path u) headers body
               in if \<not> nd_sent nd then (Some req, no_response)
                  else case read_push_response [] (nd_reads nd) of
                         None \<Rightarrow> (Some req, no_response)
                       | Some buf \<Rightarrow> (Some req, parse_push_response buf))"

end
