(* ===== verification/Push_Sender.thy ===== *)
theory Push_Sender
  imports Push_Crypto Https_Client
begin

text \<open>
  \<^verbatim>\<open>PushSender\<close> (\<^verbatim>\<open>modules/module/pbx/src/push_sender.cpp\<close>): the notification of every browser a subscriber has
  registered, over \<^verbatim>\<open>AceHttpsClient\<close>.  Fresh keys and salts, clock readings and what the network does are lists in the
  state (when they are used up, \<^verbatim>\<open>RAND_bytes\<close> fails, the clock shows 0 and no connection is made); the posts with the
  statuses that came back, the deletions and the pauses are logged there.
\<close>

record push_config =
  vapid_private_pem :: string
  vapid_subject :: string
  jwt_exp_seconds :: int
  max_retries :: int
  initial_backoff_ms :: int

definition push_defaults :: "string \<Rightarrow> string \<Rightarrow> push_config" where
  "push_defaults pem subject =
     \<lparr>vapid_private_pem = pem, vapid_subject = subject, jwt_exp_seconds = 12 * 60 * 60, max_retries = 3,
      initial_backoff_ms = 100\<rparr>"

record push_env =
  pe_lib :: push_lib
  pe_cfg :: push_config
  pe_vapid_pub_b64 :: string
  pe_get_documents :: "string \<Rightarrow> string \<Rightarrow> string \<Rightarrow> string"

record push_state =
  ps_draws :: "((string \<times> string) \<times> string option) list"
  ps_clock :: "int list"
  ps_dials :: "net_dial list"
  ps_posts :: "(string \<times> (string \<times> string) list \<times> string) list"
  ps_statuses :: "int list"
  ps_deleted :: "(string \<times> string) list"
  ps_slept :: "int list"

text \<open>The constructor.\<close>

definition new_push_sender :: "push_lib \<Rightarrow> push_config \<Rightarrow> (string \<Rightarrow> string \<Rightarrow> string \<Rightarrow> string) \<Rightarrow> push_env result" where
  "new_push_sender lib cfg get_documents =
     (if vapid_private_pem cfg = [] then Thrown RuntimeError
      else result_bind (ssl_call (pl_public lib (vapid_private_pem cfg))) (\<lambda>pub.
        Done \<lparr>pe_lib = lib, pe_cfg = cfg, pe_vapid_pub_b64 = b64url_encode pub, pe_get_documents = get_documents\<rparr>))"

section \<open>VAPID\<close>

definition origin_of :: "string \<Rightarrow> string" where
  "origin_of url =
     (case str_find url ''://'' of
        None \<Rightarrow> url
      | Some scheme \<Rightarrow>
          (case str_find_from url ''/'' (scheme + 3) of None \<Rightarrow> url | Some host_end \<Rightarrow> take host_end url))"

definition sign_vapid_jwt :: "push_env \<Rightarrow> string \<Rightarrow> int \<Rightarrow> string result" where
  "sign_vapid_jwt env endpoint_origin now_unix =
     (let cfg = pe_cfg env;
          header = ''{\"typ\":\"JWT\",\"alg\":\"ES256\"}'';
          claims = JObject [(''aud'', JString endpoint_origin), (''exp'', JInt (now_unix + jwt_exp_seconds cfg)),
                            (''sub'', JString (vapid_subject cfg))]
      in case js_dump (pl_json (pe_lib env)) claims of
           None \<Rightarrow> Thrown JsonTypeError
         | Some claims_json \<Rightarrow>
             (let signing_input = b64url_encode header @ ''.'' @ b64url_encode claims_json
              in result_bind (ssl_call (pl_sign (pe_lib env) (vapid_private_pem cfg) signing_input)) (\<lambda>sig_jose.
                 Done (signing_input @ ''.'' @ b64url_encode sig_jose))))"

definition build_vapid_auth :: "push_env \<Rightarrow> string \<Rightarrow> int \<Rightarrow> string result" where
  "build_vapid_auth env endpoint_origin now_unix =
     result_bind (sign_vapid_jwt env endpoint_origin now_unix) (\<lambda>jwt.
     Done (''vapid t='' @ jwt @ '', k='' @ pe_vapid_pub_b64 env))"

section \<open>One subscription\<close>

definition draw_keys :: "(push_state, (string \<times> string) \<times> string) effect" where
  "draw_keys s =
     (case ps_draws s of
        [] \<Rightarrow> (Thrown RuntimeError, s)
      | (eph, None) # ds \<Rightarrow> (Thrown RuntimeError, s\<lparr>ps_draws := ds\<rparr>)
      | (eph, Some salt) # ds \<Rightarrow> (Done (eph, salt), s\<lparr>ps_draws := ds\<rparr>))"

definition encrypt_payload :: "push_lib \<Rightarrow> string \<Rightarrow> string \<Rightarrow> string \<Rightarrow> (push_state, string) effect" where
  "encrypt_payload lib payload p256dh_b64url auth_b64url =
     eff_bind (eff_result (b64url_decode p256dh_b64url)) (\<lambda>p256dh.
     eff_bind (eff_result (b64url_decode auth_b64url)) (\<lambda>auth.
     eff_bind draw_keys (\<lambda>(eph, salt).
     eff_result (encrypt_payload_impl lib payload p256dh auth (fst eph) (snd eph) salt))))"

definition read_clock :: "(push_state, int) effect" where
  "read_clock s = (case ps_clock s of [] \<Rightarrow> (Done 0, s) | t # ts \<Rightarrow> (Done t, s\<lparr>ps_clock := ts\<rparr>))"

definition no_network :: net_dial where
  "no_network = \<lparr>nd_connected = False, nd_sent = False, nd_reads = []\<rparr>"

definition push_post :: "string \<Rightarrow> (string \<times> string) list \<Rightarrow> string \<Rightarrow> push_state \<Rightarrow> push_response \<times> push_state" where
  "push_post url headers body s =
     (let nd = (case ps_dials s of [] \<Rightarrow> no_network | nd # _ \<Rightarrow> nd);
          rsp = snd (https_post nd url headers body)
      in (rsp, s\<lparr>ps_dials := tl (ps_dials s), ps_posts := ps_posts s @ [(url, headers, body)],
              ps_statuses := ps_statuses s @ [pr_status rsp]\<rparr>))"

definition delete_subscription :: "string \<Rightarrow> push_state \<Rightarrow> push_state" where
  "delete_subscription sub_id s =
     (if sub_id = [] then s
      else s\<lparr>ps_deleted := ps_deleted s @ [(''push_subscriptions'', ''{\"_id\":\"'' @ sub_id @ ''\"}'')]\<rparr>)"

definition pause :: "int \<Rightarrow> push_state \<Rightarrow> push_state" where
  "pause ms s = (if 0 < ms then s\<lparr>ps_slept := ps_slept s @ [ms]\<rparr> else s)"

text \<open>
  The attempts; the first argument counts those that are left, so that \<^verbatim>\<open>attempt < max_retries\<close> says that there is
  another one.  The result says whether the notification was delivered.  The doubled pause is unbounded here; the
  \<^verbatim>\<open>int\<close> of the code holds it for the default of three retries and up to 24, which the theorem on the pauses takes
  as a hypothesis.
\<close>

fun push_attempts ::
    "nat \<Rightarrow> int \<Rightarrow> string \<Rightarrow> (string \<times> string) list \<Rightarrow> string \<Rightarrow> string \<Rightarrow> push_state \<Rightarrow> bool \<times> push_state" where
  "push_attempts 0 backoff_ms endpoint headers body sub_id s = (False, s)"
| "push_attempts (Suc left) backoff_ms endpoint headers body sub_id s =
     (let (rsp, s1) = push_post endpoint headers body s
      in if 200 \<le> pr_status rsp \<and> pr_status rsp < 300 then (True, s1)
         else if pr_status rsp = 410 then (False, delete_subscription sub_id s1)
         else if pr_status rsp = 503 \<and> 0 < left
              then push_attempts left (backoff_ms * 2) endpoint headers body sub_id (pause backoff_ms s1)
         else (False, s1))"

definition push_headers :: "string \<Rightarrow> (string \<times> string) list" where
  "push_headers vapid_auth =
     [(''Authorization'', vapid_auth), (''Content-Encoding'', ''aes128gcm''),
      (''Content-Type'', ''application/octet-stream''), (''TTL'', ''60'')]"

text \<open>\<^verbatim>\<open>sub[key].get<std::string>()\<close> on a key that is there.\<close>

definition j_as_string :: "json \<Rightarrow> string \<Rightarrow> cpp_exn + string" where
  "j_as_string j key = (case j_get j key of Some (JString v) \<Rightarrow> Inr v | _ \<Rightarrow> Inl JsonTypeError)"

definition notify_one :: "push_env \<Rightarrow> string \<Rightarrow> json \<Rightarrow> (push_state, bool) effect" where
  "notify_one env payload sub =
     (if \<not> j_contains sub ''endpoint'' \<or> \<not> j_contains sub ''p256dh'' \<or> \<not> j_contains sub ''auth''
      then eff_return False
      else
        eff_bind (eff_sum (j_as_string sub ''endpoint'')) (\<lambda>endpoint.
        eff_bind (eff_sum (j_as_string sub ''p256dh'')) (\<lambda>p256dh.
        eff_bind (eff_sum (j_as_string sub ''auth'')) (\<lambda>auth_b64.
        eff_bind (eff_sum (j_value sub ''_id'' [])) (\<lambda>sub_id.
        eff_bind (encrypt_payload (pe_lib env) payload p256dh auth_b64) (\<lambda>body.
        eff_bind read_clock (\<lambda>now.
        eff_bind (eff_result (build_vapid_auth env (origin_of endpoint) now)) (\<lambda>vapid_auth.
        (\<lambda>s. let (ok, s1) = push_attempts (nat (max_retries (pe_cfg env) + 1)) (initial_backoff_ms (pe_cfg env))
                             endpoint (push_headers vapid_auth) body sub_id s
             in (Done ok, s1))))))))))"

section \<open>Every subscription\<close>

fun notify_all :: "push_env \<Rightarrow> string \<Rightarrow> int \<Rightarrow> json list \<Rightarrow> (push_state, int) effect" where
  "notify_all env payload delivered [] = eff_return delivered"
| "notify_all env payload delivered (sub # subs) =
     eff_bind (notify_one env payload sub) (\<lambda>ok.
     notify_all env payload (if ok then delivered + 1 else delivered) subs)"

definition subscriptions_query :: "string \<Rightarrow> string" where
  "subscriptions_query subscriber_id = ''{\"subscriberId\":\"'' @ subscriber_id @ ''\"}''"

definition notify :: "push_env \<Rightarrow> string \<Rightarrow> string \<Rightarrow> (push_state, int) effect" where
  "notify env subscriber_id payload =
     (let raw = pe_get_documents env ''push_subscriptions'' (subscriptions_query subscriber_id) ''{}''
      in if raw = [] then eff_return 0
         else case js_parse (pl_json (pe_lib env)) raw of
                Some (JArray subs) \<Rightarrow> notify_all env payload 0 subs
              | _ \<Rightarrow> eff_return 0)"

text \<open>
  \<^verbatim>\<open>make_push_deps\<close> of \<^verbatim>\<open>webservice_main.cpp\<close>, with the file system and the database as arguments; \<^term>\<open>None\<close> is a
  null sender.  \<open>run_notified\<close> makes the calls of the handler of PUSH_NOTIFY, which stops the exceptions of \<^verbatim>\<open>notify\<close>.
\<close>

definition make_push_deps ::
    "push_lib \<Rightarrow> (string \<Rightarrow> string option) \<Rightarrow> string \<Rightarrow> string \<Rightarrow> (string \<Rightarrow> string \<Rightarrow> string \<Rightarrow> string) option \<Rightarrow>
     push_env option result" where
  "make_push_deps lib read_file key_path subject db =
     (case db of
        None \<Rightarrow> Done None
      | Some get_documents \<Rightarrow>
          if key_path = [] \<or> subject = [] then Done None
          else let pem = (case read_file key_path of None \<Rightarrow> [] | Some contents \<Rightarrow> contents)
               in if pem = [] then Done None
                  else result_bind (new_push_sender lib (push_defaults pem subject) get_documents) (\<lambda>env. Done (Some env)))"

definition run_notified :: "push_env \<Rightarrow> (string \<times> string) list \<Rightarrow> push_state \<Rightarrow> push_state" where
  "run_notified env calls s = fold (\<lambda>(sub_id, payload) s. snd (notify env sub_id payload s)) calls s"

section \<open>The attempts\<close>

text \<open>The status that comes back does not depend on what is posted.\<close>

definition answer :: "net_dial \<Rightarrow> string \<Rightarrow> int" where
  "answer nd url = pr_status (snd (https_post nd url [] []))"

lemma answer_eq: "pr_status (snd (https_post nd url headers body)) = answer nd url"
  by (auto simp: answer_def https_post_def Let_def split: option.split)

lemma push_post_step:
  "ps_dials s = nd # nds \<Longrightarrow> push_post url headers body s =
     (snd (https_post nd url headers body), s\<lparr>ps_dials := nds, ps_posts := ps_posts s @ [(url, headers, body)],
        ps_statuses := ps_statuses s @ [answer nd url]\<rparr>)"
  by (simp add: push_post_def Let_def answer_eq)

text \<open>
  Every course the attempts can take: \<open>busy\<close> are the answers 503, the next one decides.
\<close>

lemma push_attempts_course:
  assumes "ps_dials s = busy @ nd # rest" and "\<forall>b \<in> set busy. answer b endpoint = 503"
    and "length busy < n" and "Suc (length busy) = n \<or> answer nd endpoint \<noteq> 503"
  defines "a \<equiv> answer nd endpoint"
  shows "push_attempts n ms endpoint headers body sub_id s =
    (200 \<le> a \<and> a < 300,
     (if a = 410 then delete_subscription sub_id else id)
       (s\<lparr>ps_dials := rest, ps_posts := ps_posts s @ replicate (Suc (length busy)) (endpoint, headers, body),
          ps_statuses := ps_statuses s @ replicate (length busy) 503 @ [a],
          ps_slept := ps_slept s @ (if 0 < ms then map (\<lambda>i. ms * 2 ^ i) [0..<length busy] else [])\<rparr>))"
  using assms(1-4)
proof (induction busy arbitrary: n ms s)
  case Nil
  then obtain m where n: "n = Suc m" by (cases n) auto
  have st: "pr_status (snd (https_post nd endpoint headers body)) = a" by (simp add: a_def answer_eq)
  have "a = 503 \<longrightarrow> m = 0" using Nil.prems(4) n by (auto simp: a_def)
  with Nil.prems(1) show ?case
    by (auto simp: n push_post_step st a_def[symmetric] delete_subscription_def)
next
  case (Cons b busy)
  then obtain m where n: "n = Suc m" "0 < m" by (cases n) auto
  have st: "pr_status (snd (https_post b endpoint headers body)) = 503" "answer b endpoint = 503"
    using Cons.prems(2) by (simp_all add: answer_eq)
  let ?s = "s\<lparr>ps_dials := busy @ nd # rest, ps_posts := ps_posts s @ [(endpoint, headers, body)],
    ps_statuses := ps_statuses s @ [503]\<rparr>"
  have "push_attempts n ms endpoint headers body sub_id s = push_attempts m (ms * 2) endpoint headers body sub_id (pause ms ?s)"
    using Cons.prems(1) n by (simp add: push_post_step st)
  also have "\<dots> = (200 \<le> a \<and> a < 300,
     (if a = 410 then delete_subscription sub_id else id)
       ((pause ms ?s)\<lparr>ps_dials := rest,
          ps_posts := ps_posts (pause ms ?s) @ replicate (Suc (length busy)) (endpoint, headers, body),
          ps_statuses := ps_statuses (pause ms ?s) @ replicate (length busy) 503 @ [a],
          ps_slept := ps_slept (pause ms ?s) @ (if 0 < ms * 2 then map (\<lambda>i. ms * 2 * 2 ^ i) [0..<length busy] else [])\<rparr>))"
    by (rule Cons.IH) (use Cons.prems n in \<open>auto simp: pause_def\<close>)
  also have "\<dots> = (200 \<le> a \<and> a < 300,
     (if a = 410 then delete_subscription sub_id else id)
       (s\<lparr>ps_dials := rest, ps_posts := ps_posts s @ replicate (Suc (length (b # busy))) (endpoint, headers, body),
          ps_statuses := ps_statuses s @ replicate (length (b # busy)) 503 @ [a],
          ps_slept := ps_slept s @ (if 0 < ms then map (\<lambda>i. ms * 2 ^ i) [0..<length (b # busy)] else [])\<rparr>))"
  proof -
    have "map (\<lambda>i. ms * 2 ^ i) [0..<length (b # busy)] = ms # map (\<lambda>i. ms * 2 * 2 ^ i) [0..<length busy]"
      by (simp add: upt_conv_Cons map_Suc_upt[symmetric] comp_def del: upt_Suc)
    then show ?thesis by (simp add: pause_def del: upt_Suc)
  qed
  finally show ?case .
qed

section \<open>How much is sent\<close>

lemma push_attempts_bound:
  assumes "0 \<le> ms"
  shows "length (ps_posts (snd (push_attempts n ms endpoint headers body sub_id s))) \<le> length (ps_posts s) + n \<and>
    sum_list (ps_slept (snd (push_attempts n ms endpoint headers body sub_id s))) \<le>
      sum_list (ps_slept s) + ms * (2 ^ (n - 1) - 1)"
  using assms
proof (induction n arbitrary: ms s)
  case (Suc n)
  obtain rsp where post: "push_post endpoint headers body s = (rsp, s\<lparr>ps_dials := tl (ps_dials s),
      ps_posts := ps_posts s @ [(endpoint, headers, body)], ps_statuses := ps_statuses s @ [pr_status rsp]\<rparr>)"
    by (simp add: push_post_def Let_def)
  let ?s = "pause ms (snd (push_post endpoint headers body s))"
  have paused: "length (ps_posts ?s) = Suc (length (ps_posts s))" "sum_list (ps_slept ?s) = sum_list (ps_slept s) + ms"
    using Suc.prems by (simp_all add: post pause_def)
  have del: "ps_posts (delete_subscription i t) = ps_posts t" "ps_slept (delete_subscription i t) = ps_slept t" for i t
    by (simp_all add: delete_subscription_def)
  have nonneg: "0 \<le> ms * (2 ^ n - 1)" using Suc.prems by simp
  show ?case
  proof (cases "pr_status rsp = 503 \<and> 0 < n")
    case True
    then obtain m where "n = Suc m" by (cases n) auto
    then have "ms + ms * 2 * (2 ^ (n - 1) - 1) = ms * (2 ^ n - 1)" by (simp add: algebra_simps)
    with True Suc.IH[of "ms * 2" ?s] Suc.prems paused show ?thesis by (simp add: post)
  next
    case False
    then show ?thesis using nonneg by (auto simp: post del)
  qed
qed simp

text \<open>At most \<open>n\<close> posts and pauses of \<open>d\<close> milliseconds in all, however the computation ends.\<close>

definition push_within :: "nat \<Rightarrow> int \<Rightarrow> (push_state, 'a) effect \<Rightarrow> bool" where
  "push_within n d m \<longleftrightarrow> (\<forall>s. length (ps_posts (snd (m s))) \<le> length (ps_posts s) + n \<and>
     sum_list (ps_slept (snd (m s))) \<le> sum_list (ps_slept s) + d)"

named_theorems within_intros

lemma within_mono: "push_within n d m \<Longrightarrow> n \<le> n' \<Longrightarrow> d \<le> d' \<Longrightarrow> push_within n' d' m"
  unfolding push_within_def by (meson add_left_mono order_trans)

lemma within_bind:
  assumes "push_within n d m" and "\<And>v. push_within n' d' (k v)" and "0 \<le> d'"
  shows "push_within (n + n') (d + d') (eff_bind m k)"
  unfolding push_within_def
proof
  fix s
  have m: "length (ps_posts (snd (m s))) \<le> length (ps_posts s) + n \<and> sum_list (ps_slept (snd (m s))) \<le> sum_list (ps_slept s) + d"
    using assms(1) unfolding push_within_def by blast
  have k: "length (ps_posts (snd (k v t))) \<le> length (ps_posts t) + n' \<and> sum_list (ps_slept (snd (k v t))) \<le> sum_list (ps_slept t) + d'"
    for v t using assms(2) unfolding push_within_def by blast
  show "length (ps_posts (snd (eff_bind m k s))) \<le> length (ps_posts s) + (n + n') \<and>
      sum_list (ps_slept (snd (eff_bind m k s))) \<le> sum_list (ps_slept s) + (d + d')"
  proof (cases "m s")
    case (Pair r t)
    have le: "length (ps_posts t) \<le> length (ps_posts s) + n" "sum_list (ps_slept t) \<le> sum_list (ps_slept s) + d"
      using m Pair by simp_all
    show ?thesis
    proof (cases r)
      case (Done v)
      then have "eff_bind m k s = k v t" using Pair by (simp add: eff_bind_def)
      with le k[of v t] show ?thesis by simp
    qed (use le Pair assms(3) in \<open>simp_all add: eff_bind_def\<close>)
  qed
qed

lemma within_quiet [within_intros]:
  "push_within 0 0 (eff_return v)" "push_within 0 0 (eff_throw e)" "push_within 0 0 (eff_sum r)" "push_within 0 0 (eff_result x)"
  "push_within 0 0 read_clock" "push_within 0 0 draw_keys"
  by (auto simp: push_within_def eff_return_def eff_throw_def eff_sum_def eff_result_def read_clock_def draw_keys_def
      split: sum.split list.split option.split prod.split)

lemma within_after [within_intros]:
  "push_within 0 0 m \<Longrightarrow> (\<And>v. push_within n d (k v)) \<Longrightarrow> 0 \<le> d \<Longrightarrow> push_within n d (eff_bind m k)"
  using within_bind[of 0 0 m n d k] by simp

lemma within_encrypt [within_intros]: "push_within 0 0 (encrypt_payload lib p k a)"
  unfolding encrypt_payload_def by (intro within_intros) (auto intro: within_intros split: prod.split)

lemma within_notify_one:
  fixes env :: push_env
  defines "r \<equiv> nat (max_retries (pe_cfg env) + 1)" and "ms \<equiv> initial_backoff_ms (pe_cfg env)"
  assumes "0 \<le> ms"
  shows "push_within r (ms * (2 ^ (r - 1) - 1)) (notify_one env payload sub)"
proof -
  have d: "0 \<le> ms * (2 ^ (r - 1) - 1)" using assms(3) by simp
  have quiet: "push_within r (ms * (2 ^ (r - 1) - 1)) (eff_return False)"
    by (rule within_mono[OF within_quiet(1)]) (use d in simp_all)
  have last: "push_within r (ms * (2 ^ (r - 1) - 1))
      (\<lambda>s. let (ok, s1) = push_attempts r ms e hs b i s in (Done ok, s1))" for e hs b i
    unfolding push_within_def
  proof
    fix s
    show "length (ps_posts (snd (let (ok, s1) = push_attempts r ms e hs b i s in (Done ok, s1)))) \<le> length (ps_posts s) + r \<and>
      sum_list (ps_slept (snd (let (ok, s1) = push_attempts r ms e hs b i s in (Done ok, s1)))) \<le>
        sum_list (ps_slept s) + ms * (2 ^ (r - 1) - 1)"
      using push_attempts_bound[OF assms(3), of r e hs b i s] by (cases "push_attempts r ms e hs b i s") simp
  qed
  show ?thesis
    unfolding notify_one_def r_def[symmetric] ms_def[symmetric] using quiet d
    by (auto intro!: within_intros last[unfolded Let_def One_nat_def])
qed

lemma within_notify_all:
  fixes env :: push_env
  defines "r \<equiv> nat (max_retries (pe_cfg env) + 1)" and "ms \<equiv> initial_backoff_ms (pe_cfg env)"
  assumes "0 \<le> ms"
  shows "push_within (length subs * r) (int (length subs) * (ms * (2 ^ (r - 1) - 1))) (notify_all env payload delivered subs)"
proof (induction subs arbitrary: delivered)
  case Nil
  show ?case using within_quiet(1) by simp
next
  case (Cons sub subs)
  have "0 \<le> int (length subs) * (ms * (2 ^ (r - 1) - 1))" using assms(3) by simp
  from within_bind[OF within_notify_one[of env payload sub] Cons.IH this] assms(3) show ?case
    by (simp add: r_def ms_def algebra_simps)
qed

end
