(* ===== verification/Push_Properties.thy ===== *)
theory Push_Properties
  imports Push_Sender Cloud_App
begin

text \<open>
  What the push sender guarantees: a notification arrives encrypted for the browser it is for, with a bounded
  number of attempts, and what stops it.
\<close>

section \<open>Concrete objects for the witnesses\<close>

definition toy_public :: "string \<Rightarrow> string" where
  "toy_public pem = take 65 (pem @ replicate 65 CHR ''!'')"

definition toy_push_lib :: "json \<Rightarrow> push_lib" where
  "toy_push_lib subs =
     \<lparr>pl_json = \<lparr>js_parse = (\<lambda>_. Some subs), js_dump = (\<lambda>_. Some ''{}'')\<rparr>, pl_public = (\<lambda>pem. Some (toy_public pem)),
      pl_ecdh = (\<lambda>_ _. Some (replicate 32 CHR ''z'')), pl_hkdf = (\<lambda>salt ikm info n. Some (replicate n CHR ''k'')),
      pl_gcm_seal = (\<lambda>key nonce p. Some (rev p, replicate 16 CHR ''t'')), pl_gcm_open = (\<lambda>key nonce ct tag. Some (rev ct)),
      pl_sign = (\<lambda>pem data. Some ''sig'')\<rparr>"

lemma toy_push_laws: "push_laws (toy_push_lib subs) (pem, toy_public pem) (e, toy_public e)"
  by (simp add: push_laws_def toy_push_lib_def toy_public_def min_def)

definition toy_push_env :: "json \<Rightarrow> push_env" where
  "toy_push_env subs =
     \<lparr>pe_lib = toy_push_lib subs, pe_cfg = push_defaults ''pem'' ''mailto:a'', pe_vapid_pub_b64 = ''pub'',
      pe_get_documents = (\<lambda>_ _ _. ''[]'')\<rparr>"

definition toy_sub :: "json \<Rightarrow> json" where
  "toy_sub oid = JObject [(''_id'', oid), (''auth'', JString (b64url_encode ''secret'')),
     (''endpoint'', JString ''https://p.example/x''), (''p256dh'', JString (b64url_encode (toy_public ''ua'')))]"

definition toy_net :: "string \<Rightarrow> net_dial" where
  "toy_net code = \<lparr>nd_connected = True, nd_sent = True, nd_reads = [''HTTP/1.1 '' @ code @ '' x'' @ crlf @ crlf]\<rparr>"

definition toy_push_state :: push_state where
  "toy_push_state = \<lparr>ps_draws = [((''eph'', toy_public ''eph''), Some (replicate 16 CHR ''s''))], ps_clock = [7],
     ps_dials = [toy_net ''503'', toy_net ''201''], ps_posts = [], ps_statuses = [], ps_deleted = [], ps_slept = []\<rparr>"

section \<open>Delivery\<close>

text \<open>
  A PUSH_NOTIFY frame that names a subscriber is one call of the sender on the payload of the frame, behind the
  calls of earlier frames.
\<close>

lemma push_frame_notifies:
  fixes c :: "'a cloud_app_scheme"
  assumes "ae_push_sender ae" and "js_parse (ae_json ae) p = Some j" and "j_get_string j ''subscriberId'' = Some u"
  shows "run_notified env (ca_notified (dispatch_frame (cloud_env ae)
      \<lparr>frame_op = PUSH_NOTIFY, frame_stream_id = sid, frame_payload = p\<rparr> c)) s =
    snd (notify env u p (run_notified env (ca_notified c) s))"
  using assms by (simp add: dispatch_frame_def call_handler_def push_notify_handler_def run_notified_def)

text \<open>
  C31: a subscriber with one subscription document is notified, when the document's \<^verbatim>\<open>_id\<close> is a string or missing (the
  subscriptions the service itself stores have an object there, and for those the call throws), its key and secret are
  those of a browser, and the payload does not end in a zero byte (JSON text does not).  However often the push service
  answers 503 within the allowed retries, once it accepts the post the call reports one delivery; every post carried the same
  record, with pauses that double as long as the \<^verbatim>\<open>int\<close> that holds them does not overflow, and the browser's key
  and secret decrypt that record to the payload.
\<close>

theorem notification_reaches_browser:
  assumes "push_laws (pe_lib env) ua eph" and "length salt = 16" and "auth \<noteq> []"
    and "pe_get_documents env ''push_subscriptions'' (subscriptions_query subscriber) ''{}'' = raw" and "raw \<noteq> []"
    and "js_parse (pl_json (pe_lib env)) raw = Some (JArray [sub])"
    and "j_get_string sub ''endpoint'' = Some endpoint"
    and "j_get_string sub ''p256dh'' = Some (b64url_encode (snd ua))"
    and "j_get_string sub ''auth'' = Some (b64url_encode auth)" and "j_value sub ''_id'' [] = Inr sub_id"
    and "ps_draws s = (eph, Some salt) # draws" and "ps_clock s = now # nows"
    and "build_vapid_auth env (origin_of endpoint) now = Done vapid"
    and "ps_dials s = busy @ nd # rest" and "\<forall>b \<in> set busy. answer b endpoint = 503"
    and "int (length busy) \<le> max_retries (pe_cfg env)" and "200 \<le> answer nd endpoint \<and> answer nd endpoint < 300"
    and "payload \<noteq> [] \<Longrightarrow> last payload \<noteq> CHR 0x00" and "length payload < 2 ^ 31 - 1"
    and "\<bar>initial_backoff_ms (pe_cfg env) * 2 ^ length busy\<bar> < 2 ^ 31"
  shows "\<exists>rec s'. notify env subscriber payload s = (Done 1, s') \<and>
    ps_posts s' = ps_posts s @ replicate (Suc (length busy)) (endpoint, push_headers vapid, rec) \<and>
    ps_deleted s' = ps_deleted s \<and>
    ps_slept s' = ps_slept s @ (if 0 < initial_backoff_ms (pe_cfg env)
      then map (\<lambda>i. initial_backoff_ms (pe_cfg env) * 2 ^ i) [0..<length busy] else []) \<and>
    decrypt_payload_for_testing (pe_lib env) (fst ua) auth rec = Done payload"
proof -
  obtain rec where rec: "encrypt_payload_impl (pe_lib env) payload (snd ua) auth (fst eph) (snd eph) salt = Done rec"
    "decrypt_payload_for_testing (pe_lib env) (fst ua) auth rec = Done payload"
    using record_round_trip[OF assms(1-3,19)] strip_zeros_id[of payload] assms(18) by metis
  let ?s = "s\<lparr>ps_draws := draws, ps_clock := nows\<rparr>" and ?ms = "initial_backoff_ms (pe_cfg env)"
  have enc: "encrypt_payload (pe_lib env) payload (b64url_encode (snd ua)) (b64url_encode auth) s = (Done rec, s\<lparr>ps_draws := draws\<rparr>)"
    using assms(11) rec(1) by (simp add: encrypt_payload_def eff_bind_def eff_result_def b64url_decode_encode draw_keys_def)
  have clock: "read_clock (s\<lparr>ps_draws := draws\<rparr>) = (Done now, ?s)" using assms(12) by (simp add: read_clock_def)
  let ?r = "nat (max_retries (pe_cfg env) + 1)"
  have n: "length busy < ?r" using assms(16) by linarith
  have course: "push_attempts ?r ?ms endpoint (push_headers vapid) rec sub_id ?s = (True,
      ?s\<lparr>ps_dials := rest, ps_posts := ps_posts s @ replicate (Suc (length busy)) (endpoint, push_headers vapid, rec),
         ps_statuses := ps_statuses s @ replicate (length busy) 503 @ [answer nd endpoint],
         ps_slept := ps_slept s @ (if 0 < ?ms then map (\<lambda>i. ?ms * 2 ^ i) [0..<length busy] else [])\<rparr>)"
    using push_attempts_course[of ?s busy nd rest endpoint ?r ?ms "push_headers vapid" rec sub_id] assms(14,15,17) n by simp
  have fields: "j_contains sub ''endpoint''" "j_contains sub ''p256dh''" "j_contains sub ''auth''"
    "j_as_string sub ''endpoint'' = Inr endpoint" "j_as_string sub ''p256dh'' = Inr (b64url_encode (snd ua))"
    "j_as_string sub ''auth'' = Inr (b64url_encode auth)" "j_value sub ''_id'' [] = Inr sub_id"
    using assms(7-10) by (auto simp: j_contains_def j_as_string_def j_get_string_Some)
  have one: "notify_one env payload sub s = (Done True, snd (push_attempts ?r ?ms endpoint (push_headers vapid) rec sub_id ?s))"
    using fields enc clock assms(13)
    by (simp add: notify_one_def eff_bind_def eff_sum_def eff_return_def eff_result_def course)
  have "notify env subscriber payload s = (Done 1, snd (push_attempts ?r ?ms endpoint (push_headers vapid) rec sub_id ?s))"
    using assms(4-6) one by (simp add: notify_def Let_def eff_bind_def eff_return_def)
  with rec(2) show ?thesis by (simp add: course)
qed

text \<open>
  C32: whatever the database holds and the push services answer, and however the call ends, it makes at most
  \<^verbatim>\<open>max_retries + 1\<close> posts for each document and its pauses stay below the doubled sum of the initial one.
\<close>

theorem notification_bounded:
  assumes "0 \<le> initial_backoff_ms (pe_cfg env)" and "0 \<le> max_retries (pe_cfg env)"
    and "js_parse (pl_json (pe_lib env)) (pe_get_documents env ''push_subscriptions'' (subscriptions_query subscriber) ''{}'') =
      Some (JArray subs)"
  shows "int (length (ps_posts (snd (notify env subscriber payload s)))) \<le>
      int (length (ps_posts s)) + int (length subs) * (max_retries (pe_cfg env) + 1) \<and>
    sum_list (ps_slept (snd (notify env subscriber payload s))) \<le> sum_list (ps_slept s) +
      int (length subs) * (initial_backoff_ms (pe_cfg env) * (2 ^ nat (max_retries (pe_cfg env)) - 1))"
proof -
  let ?r = "nat (max_retries (pe_cfg env) + 1)" and ?ms = "initial_backoff_ms (pe_cfg env)"
  have r: "?r - 1 = nat (max_retries (pe_cfg env))" "int ?r = max_retries (pe_cfg env) + 1"
    "int (length subs * ?r) = int (length subs) * (max_retries (pe_cfg env) + 1)" using assms(2) by simp_all
  have d: "0 \<le> int (length subs) * (?ms * (2 ^ (?r - 1) - 1))" using assms(1) by simp
  have "push_within (length subs * ?r) (int (length subs) * (?ms * (2 ^ (?r - 1) - 1))) (notify env subscriber payload)"
    unfolding notify_def Let_def assms(3)
    by (simp add: within_notify_all[OF assms(1), of subs payload 0, simplified] within_mono[OF within_quiet(1) _ d, simplified])
  then have p: "length (ps_posts (snd (notify env subscriber payload s))) \<le> length (ps_posts s) + length subs * ?r"
    and q: "sum_list (ps_slept (snd (notify env subscriber payload s))) \<le> sum_list (ps_slept s) +
      int (length subs) * (?ms * (2 ^ (?r - 1) - 1))" unfolding push_within_def by blast+
  from p have "int (length (ps_posts (snd (notify env subscriber payload s)))) \<le>
      int (length (ps_posts s)) + int (length subs * ?r)" by linarith
  with q show ?thesis unfolding r by simp
qed

text \<open>
  C33: a document whose \<^verbatim>\<open>_id\<close> is not a string stops the notification.  The identifiers the database assigns
  are objects in its JSON form, so for the subscriptions the service itself has stored the call throws before anything
  is posted, and the documents behind the first are not looked at.
\<close>

theorem object_id_stops_notification:
  assumes "pe_get_documents env ''push_subscriptions'' (subscriptions_query subscriber) ''{}'' = raw" and "raw \<noteq> []"
    and "js_parse (pl_json (pe_lib env)) raw = Some (JArray (JObject doc # subs))"
    and "map_of doc ''_id'' = Some (JObject oid)"
    and "map_of doc ''endpoint'' = Some (JString endpoint)" and "map_of doc ''p256dh'' = Some (JString p256dh)"
    and "map_of doc ''auth'' = Some (JString auth)"
  shows "notify env subscriber payload s = (Thrown JsonTypeError, s)"
proof -
  have "notify_one env payload (JObject doc) s = (Thrown JsonTypeError, s)"
    using assms(4-7)
    by (simp add: notify_one_def j_contains_def j_as_string_def j_value_def eff_bind_def eff_sum_def eff_return_def eff_throw_def)
  with assms(1-3) show ?thesis by (simp add: notify_def Let_def eff_bind_def)
qed

theorem object_id_stops_notification_witness:
  "notify (toy_push_env (JArray [toy_sub (JObject [(''$oid'', JString ''64'')])])) ''u'' ''hi'' toy_push_state =
     (Thrown JsonTypeError, toy_push_state)"
  by (rule object_id_stops_notification[where raw = "''[]''" and subs = "[]" and oid = "[(''$oid'', JString ''64'')]"
        and endpoint = "''https://p.example/x''" and auth = "b64url_encode ''secret''" and p256dh = "b64url_encode (toy_public ''ua'')"
        and doc = "[(''_id'', JObject [(''$oid'', JString ''64'')]), (''auth'', JString (b64url_encode ''secret'')),
          (''endpoint'', JString ''https://p.example/x''), (''p256dh'', JString (b64url_encode (toy_public ''ua'')))]"])
    (simp_all add: toy_push_env_def toy_push_lib_def toy_sub_def)

theorem notification_bounded_witness:
  "int (length (ps_posts (snd (notify (toy_push_env (JArray [toy_sub (JString ''1'')])) ''u'' ''hi'' toy_push_state)))) \<le> 4"
  using notification_bounded[of "toy_push_env (JArray [toy_sub (JString ''1'')])" "''u''" "[toy_sub (JString ''1'')]" "''hi''" toy_push_state]
  by (simp add: toy_push_env_def toy_push_lib_def push_defaults_def toy_push_state_def)

lemma toy_answers: "answer (toy_net ''503'') ''https://p.example/x'' = 503" "answer (toy_net ''201'') ''https://p.example/x'' = 201"
  by (simp_all add: answer_def https_post_def toy_net_def parse_url_def Let_def parse_push_response_def crlf_def kMaxPushResponse_def
      str_find_from_def substr_def stoi_def is_space_def is_digit_def)

theorem notification_reaches_browser_witness:
  "\<exists>rec s' vapid. notify (toy_push_env (JArray [toy_sub (JString ''1'')])) ''u'' ''hi'' toy_push_state = (Done 1, s') \<and>
     ps_posts s' = replicate 2 (''https://p.example/x'', push_headers vapid, rec) \<and> ps_slept s' = [100] \<and>
     decrypt_payload_for_testing (toy_push_lib (JArray [toy_sub (JString ''1'')])) ''ua'' ''secret'' rec = Done ''hi''"
proof -
  let ?subs = "JArray [toy_sub (JString ''1'')]"
  let ?env = "toy_push_env ?subs"
  obtain vapid where v: "build_vapid_auth ?env (origin_of ''https://p.example/x'') 7 = Done vapid"
    by (simp add: build_vapid_auth_def sign_vapid_jwt_def toy_push_env_def toy_push_lib_def)
  have laws: "push_laws (pe_lib ?env) (''ua'', toy_public ''ua'') (''eph'', toy_public ''eph'')"
    using toy_push_laws[of ?subs "''ua''" "''eph''"] by (simp add: toy_push_env_def)
  have "\<exists>rec s'. notify ?env ''u'' ''hi'' toy_push_state = (Done 1, s') \<and>
    ps_posts s' = ps_posts toy_push_state @ replicate (Suc (length [toy_net ''503''])) (''https://p.example/x'', push_headers vapid, rec) \<and>
    ps_deleted s' = ps_deleted toy_push_state \<and>
    ps_slept s' = ps_slept toy_push_state @ (if 0 < initial_backoff_ms (pe_cfg ?env)
      then map (\<lambda>i. initial_backoff_ms (pe_cfg ?env) * 2 ^ i) [0..<length [toy_net ''503'']] else []) \<and>
    decrypt_payload_for_testing (pe_lib ?env) (fst (''ua'', toy_public ''ua'')) ''secret'' rec = Done ''hi''"
    by (rule notification_reaches_browser[OF laws, where salt = "replicate 16 CHR ''s''" and raw = "''[]''" and sub = "toy_sub (JString ''1'')"
          and sub_id = "''1''" and draws = "[]" and now = 7 and nows = "[]" and nd = "toy_net ''201''" and rest = "[]"])
      (simp_all add: v toy_answers, simp_all add: toy_push_env_def toy_push_lib_def toy_sub_def toy_push_state_def push_defaults_def j_get_string_def j_value_def)
  then obtain rec s' where "notify ?env ''u'' ''hi'' toy_push_state = (Done 1, s')"
    "ps_posts s' = replicate 2 (''https://p.example/x'', push_headers vapid, rec)" "ps_slept s' = [100]"
    "decrypt_payload_for_testing (toy_push_lib ?subs) ''ua'' ''secret'' rec = Done ''hi''"
    by (auto simp: toy_push_env_def toy_push_state_def push_defaults_def numeral_2_eq_2)
  then show ?thesis by blast
qed

end
