(* ===== verification/Ari_Ws.thy ===== *)
theory Ari_Ws
  imports Agent_App Ssl_Transport
begin

text \<open>
  The socket on which Asterisk reports its events, \<^verbatim>\<open>AriWsClient\<close> (\<^verbatim>\<open>pbx-agent/src/main/ari_ws_client.cpp\<close>), and the
  timer that dials it again, \<^verbatim>\<open>ReconnectSupervisor\<close> (\<^verbatim>\<open>main.cpp\<close>).  \<^verbatim>\<open>main\<close> makes one object for the whole life of the
  process, queues each event for the worker and sets no \<^verbatim>\<open>on_disconnect\<close>, so that telling it only sets the flag.
  The results of writes are not looked at; what was written is logged.
\<close>

unbundle bit_operations_syntax

section \<open>The socket\<close>

record ari_ws_config =
  aw_host :: string
  aw_app_name :: string
  aw_username :: string
  aw_password :: string

record event_socket =
  ew_handle :: bool
  ew_registered :: bool
  ew_recv_buf :: "u8 list"
  ew_close_notified :: bool
  ew_keys :: "u32 list"
  ew_written :: "u8 list list"

type_synonym 'a event_world = "event_socket \<times> 'a agent_app_scheme"

definition new_event_socket :: "u32 list \<Rightarrow> event_socket" where
  "new_event_socket keys =
     \<lparr>ew_handle = False, ew_registered = False, ew_recv_buf = [], ew_close_notified = False, ew_keys = keys,
      ew_written = []\<rparr>"

definition ew_send_n :: "u8 list \<Rightarrow> event_socket \<Rightarrow> event_socket" where
  "ew_send_n bytes x = x\<lparr>ew_written := ew_written x @ [bytes]\<rparr>"

definition ew_notify_disconnect_once :: "event_socket \<Rightarrow> event_socket" where
  "ew_notify_disconnect_once x = (if ew_close_notified x then x else x\<lparr>ew_close_notified := True\<rparr>)"

definition ew_close :: "event_socket \<Rightarrow> event_socket" where
  "ew_close x =
     (if \<not> ew_handle x then x else (ew_send_n close_frame x)\<lparr>ew_handle := False, ew_close_notified := True\<rparr>)"

definition ew_destroy :: "event_socket \<Rightarrow> event_socket" where
  "ew_destroy x = (ew_notify_disconnect_once x)\<lparr>ew_handle := False\<rparr>"

text \<open>The reactor forgets a handler whose \<^verbatim>\<open>handle_close\<close> it calls.\<close>

definition ew_handle_close :: "event_socket \<Rightarrow> event_socket" where
  "ew_handle_close x = (ew_notify_disconnect_once x)\<lparr>ew_handle := False, ew_registered := False\<rparr>"

section \<open>Input\<close>

definition ew_frame :: "ws_frame \<Rightarrow> 'a event_world \<Rightarrow> bool \<times> 'a event_world" where
  "ew_frame f w =
     (let (x, s) = w
      in if ws_opcode f \<in> {0x2, 0x1, 0x0}
         then (ew_handle x, x, ari_ws_event (bytes_to_string (ws_payload f)) s)
         else if ws_opcode f = 0x9
         then (case ew_keys x of
                 [] \<Rightarrow> (True, ew_send_n (ws_encode (ws_payload f) 0xA True 0 0) x, s)
               | k # ks \<Rightarrow> (True, (ew_send_n (ws_encode (ws_payload f) 0xA True 0 k) x)\<lparr>ew_keys := ks\<rparr>, s))
         else if ws_opcode f = 0xA then (True, x, s)
         else if ws_opcode f = 0x8 then (False, ew_notify_disconnect_once (ew_send_n close_frame x), s)
         else (False, ew_notify_disconnect_once x, s))"

definition ew_get_buf :: "'a event_world \<Rightarrow> u8 list" where
  "ew_get_buf w = ew_recv_buf (fst w)"

definition ew_put_buf :: "u8 list \<Rightarrow> 'a event_world \<Rightarrow> 'a event_world" where
  "ew_put_buf b w = ((fst w)\<lparr>ew_recv_buf := b\<rparr>, snd w)"

definition ew_handle_input :: "u8 list \<Rightarrow> 'a event_world \<Rightarrow> (drain_exit \<times> 'a event_world) option" where
  "ew_handle_input chunk w =
     (if chunk = [] then Some (DrainStop, ew_notify_disconnect_once (fst w), snd w)
      else ws_drain ew_get_buf ew_put_buf ew_frame (ew_put_buf (ew_get_buf w @ chunk) w))"

section \<open>Connecting\<close>

text \<open>\<open>raw\<close> is what \<^verbatim>\<open>RAND_bytes\<close> gave, 16 bytes; the loop takes three at a time.\<close>

fun ws_key_text :: "u8 list \<Rightarrow> string" where
  "ws_key_text [] = []"
| "ws_key_text [r0] =
     (let v = push_bit 16 (ucast r0 :: u32)
      in [b64_char (drop_bit 18 v), b64_char (drop_bit 12 v), CHR ''='', CHR ''=''])"
| "ws_key_text [r0, r1] =
     (let v = push_bit 16 (ucast r0 :: u32) OR push_bit 8 (ucast r1)
      in [b64_char (drop_bit 18 v), b64_char (drop_bit 12 v), b64_char (drop_bit 6 v), CHR ''=''])"
| "ws_key_text (r0 # r1 # r2 # raw) =
     (let v = push_bit 16 (ucast r0 :: u32) OR push_bit 8 (ucast r1) OR ucast r2
      in [b64_char (drop_bit 18 v), b64_char (drop_bit 12 v), b64_char (drop_bit 6 v), b64_char v] @ ws_key_text raw)"

definition random_ws_key :: "u8 list option \<Rightarrow> string" where
  "random_ws_key raw = ws_key_text (case raw of None \<Rightarrow> replicate 16 0 | Some r \<Rightarrow> r)"

definition event_upgrade_request :: "ari_ws_config \<Rightarrow> string \<Rightarrow> string" where
  "event_upgrade_request cfg key =
     ''GET /ari/events?app='' @ aw_app_name cfg @ ''&subscribeAll=true HTTP/1.1'' @ crlf @
     ''Host: '' @ aw_host cfg @ crlf @ ''Upgrade: websocket'' @ crlf @ ''Connection: Upgrade'' @ crlf @
     ''Sec-WebSocket-Key: '' @ key @ crlf @ ''Sec-WebSocket-Version: 13'' @ crlf @
     ''Authorization: Basic '' @ base64_encode (aw_username cfg @ '':'' @ aw_password cfg) @ crlf @ crlf"

text \<open>
  One dial: whether the connection is made and the request written, the random bytes, the characters of the
  answer, and whether the reactor takes the handler.  The object keeps its receive buffer and its flag.
\<close>

record event_dial =
  ed_connected :: bool
  ed_random :: "u8 list option"
  ed_sent :: bool
  ed_answer :: string
  ed_registered :: bool

definition ew_connect_and_handshake ::
    "(string \<Rightarrow> string) \<Rightarrow> ari_ws_config \<Rightarrow> event_dial \<Rightarrow> event_socket \<Rightarrow> bool \<times> event_socket" where
  "ew_connect_and_handshake sha1_base64 cfg ed x =
     (if \<not> ed_connected ed then (False, x)
      else let key = random_ws_key (ed_random ed);
               x1 = ew_send_n (string_to_bytes (event_upgrade_request cfg key)) x;
               down = x1\<lparr>ew_handle := False\<rparr>
           in if \<not> ed_sent ed then (False, down)
              else case read_upgrade_head [] (ed_answer ed) of
                     None \<Rightarrow> (False, down)
                   | Some (headers, _) \<Rightarrow>
                       if validate_upgrade_response sha1_base64 headers key then (True, x1\<lparr>ew_handle := True\<rparr>)
                       else (False, down))"

definition ew_register_with_reactor :: "event_dial \<Rightarrow> event_socket \<Rightarrow> int \<times> event_socket" where
  "ew_register_with_reactor ed x = (if ed_registered ed then (0, x\<lparr>ew_registered := True\<rparr>) else (-1, x))"

definition supervisor_timeout ::
    "agent_env \<Rightarrow> (string \<Rightarrow> string) \<Rightarrow> ari_ws_config \<Rightarrow> int \<Rightarrow> event_dial \<Rightarrow> 'a event_world \<Rightarrow> 'a event_world" where
  "supervisor_timeout env sha1_base64 cfg now ed w =
     (let s = cc_tick (agent_cenv env) now (snd w); x = fst w
      in if ew_handle x then (x, s)
         else case ew_connect_and_handshake sha1_base64 cfg ed x of
                (True, x1) \<Rightarrow> (snd (ew_register_with_reactor ed x1), s)
              | (False, x1) \<Rightarrow> (x1, s))"

section \<open>The reactor\<close>

datatype event_op = EvRead "u8 list" | EvTimeout int event_dial | EvApp app_op

fun event_exec ::
    "agent_env \<Rightarrow> (string \<Rightarrow> string) \<Rightarrow> ari_ws_config \<Rightarrow> event_op \<Rightarrow> 'a event_world \<Rightarrow> 'a event_world" where
  "event_exec env sha1_base64 cfg (EvRead chunk) w =
     (if \<not> ew_registered (fst w) then w
      else case ew_handle_input chunk w of
             None \<Rightarrow> w
           | Some (DrainMore, w1) \<Rightarrow> w1
           | Some (DrainStop, x1, s1) \<Rightarrow> (ew_handle_close x1, s1)
           | Some (DrainThrow, x1, s1) \<Rightarrow> (x1, escape (Some LengthError) s1))"
| "event_exec env sha1_base64 cfg (EvTimeout now ed) w = supervisor_timeout env sha1_base64 cfg now ed w"
| "event_exec env sha1_base64 cfg (EvApp op) w = (fst w, app_exec env op (snd w))"

section \<open>The contract of the receive loop\<close>

lemma ew_frame_put: "ew_frame f (ew_put_buf b w) = (fst (ew_frame f w), ew_put_buf b (snd (ew_frame f w)))"
  by (cases w) (simp add: ew_frame_def ew_put_buf_def ew_send_n_def ew_notify_disconnect_once_def split: list.split)

lemma ew_buf_laws [simp]:
  "ew_get_buf (ew_put_buf b w) = b" "ew_put_buf b (ew_put_buf c w) = ew_put_buf b w" "ew_put_buf (ew_get_buf w) w = w"
  by (simp_all add: ew_get_buf_def ew_put_buf_def)

interpretation events: ws_receiver ew_get_buf ew_put_buf ew_frame
  by unfold_locales (simp_all add: ew_frame_put)

lemma ew_handle_input_total: "\<exists>e w'. ew_handle_input chunk w = Some (e, w')"
  using events.ws_drain_total[of "ew_put_buf (ew_get_buf w @ chunk) w"] by (auto simp: ew_handle_input_def)

section \<open>The key\<close>

text \<open>The loop over the random bytes is the base64 encoder.\<close>

lemma of_char_u8: "(of_char (char_of (unat (r :: u8)) :: char) :: u32) = ucast r"
proof -
  have "unat r < 256" using unsigned_less[of r] by simp
  then show ?thesis by (simp add: of_char_char_of_u32)
qed

lemma b64_char_eqI:
  assumes "\<And>n. n < 6 \<Longrightarrow> bit (v :: u32) n = bit w n"
  shows "b64_char v = b64_char w"
proof -
  have "take_bit 6 v = take_bit 6 w"
    using assms by (intro bit_word_eqI) (auto simp: bit_take_bit_iff)
  moreover have "x AND 0x3F = take_bit 6 x" for x :: u32 by (simp add: take_bit_eq_mask mask_eq_exp_minus_1)
  ultimately show ?thesis by (simp add: b64_char_def)
qed

lemma b64_group:
  fixes r0 r1 r2 :: u8
  defines "v \<equiv> push_bit 16 (ucast r0 :: u32) OR push_bit 8 (ucast r1) OR ucast r2"
  shows "b64_char (drop_bit 18 v) = b64_char (drop_bit 2 (ucast r0))"
    and "b64_char (drop_bit 12 v) = b64_char (push_bit 4 (ucast r0) OR drop_bit 4 (ucast r1))"
    and "b64_char (drop_bit 6 v) = b64_char (push_bit 2 (ucast r1) OR drop_bit 6 (ucast r2))"
    and "b64_char v = b64_char (ucast r2)"
proof -
  have hi: "8 \<le> n \<Longrightarrow> \<not> bit (r :: u8) n" for r n by (simp add: bit_word.rep_eq bit_take_bit_iff)
  have six: "n < 6 \<Longrightarrow> n \<in> {0, 1, 2, 3, 4, 5}" for n :: nat by fastforce
  show "b64_char (drop_bit 18 v) = b64_char (drop_bit 2 (ucast r0))"
    by (rule b64_char_eqI) (auto dest!: six simp: v_def bit_simps hi)
  show "b64_char (drop_bit 12 v) = b64_char (push_bit 4 (ucast r0) OR drop_bit 4 (ucast r1))"
    by (rule b64_char_eqI) (auto dest!: six simp: v_def bit_simps hi)
  show "b64_char (drop_bit 6 v) = b64_char (push_bit 2 (ucast r1) OR drop_bit 6 (ucast r2))"
    by (rule b64_char_eqI) (auto dest!: six simp: v_def bit_simps hi)
  show "b64_char v = b64_char (ucast r2)"
    by (rule b64_char_eqI) (auto dest!: six simp: v_def bit_simps hi)
qed

lemma ws_key_base64: "ws_key_text raw = base64_encode (bytes_to_string raw)"
proof (induction raw rule: ws_key_text.induct)
  case (2 r0)
  from b64_group[of r0 0 0] show ?case by (simp add: bytes_to_string_def of_char_u8 Let_def)
next
  case (3 r0 r1)
  from b64_group[of r0 r1 0] show ?case by (simp add: bytes_to_string_def of_char_u8 Let_def)
next
  case (4 r0 r1 r2 raw)
  with b64_group[of r0 r1 r2] show ?case by (simp add: bytes_to_string_def of_char_u8 Let_def)
qed (simp add: bytes_to_string_def)

section \<open>Reads\<close>

lemma ew_frame_registered [simp]:
  "ew_registered (fst (snd (ew_frame f w))) = ew_registered (fst w)"
  by (cases w) (simp add: ew_frame_def ew_send_n_def ew_notify_disconnect_once_def split: list.split)

text \<open>While the loop asks for more, the reactor's reads are the receive loop.\<close>

lemma event_reads:
  assumes "ws_feed ew_get_buf ew_put_buf ew_frame cs w = Some (DrainMore, w')" and "[] \<notin> set cs" and "ew_registered (fst w)"
  shows "fold (event_exec env sha1 cfg) (map EvRead cs) w = w'"
  using assms
proof (induction cs arbitrary: w)
  case (Cons c cs)
  let ?w = "ew_put_buf (ew_get_buf w @ c) w"
  obtain w1 where w1: "ws_drain ew_get_buf ew_put_buf ew_frame ?w = Some (DrainMore, w1)"
    "ws_feed ew_get_buf ew_put_buf ew_frame cs w1 = Some (DrainMore, w')"
    using Cons.prems(1) by (auto split: option.splits prod.splits drain_exit.splits)
  have "ew_registered (fst w1)"
    by (rule events.ws_drain_preserves[OF _ _ _ w1(1)]) (use Cons.prems(3) in \<open>auto simp: ew_put_buf_def\<close>)
  with Cons w1 show ?case by (auto simp: ew_handle_input_def)
qed simp

text \<open>The frames of the server, unmasked: opcode and payload.\<close>

definition server_frame :: "u8 \<times> u8 list \<Rightarrow> u8 list" where
  "server_frame m = ws_encode (snd m) (fst m) False 0 0"

definition event_frame :: "u8 \<times> u8 list \<Rightarrow> ws_frame" where
  "event_frame m = \<lparr>ws_opcode = fst m, ws_payload = snd m\<rparr>"

definition event_texts :: "(u8 \<times> u8 list) list \<Rightarrow> string list" where
  "event_texts ms = [bytes_to_string p. (opc, p) \<leftarrow> ms, opc \<in> {0x2, 0x1, 0x0}]"

definition ping_payloads :: "(u8 \<times> u8 list) list \<Rightarrow> u8 list list" where
  "ping_payloads ms = [p. (opc, p) \<leftarrow> ms, opc = 0x9]"

lemma decode_server_frame:
  assumes "length (snd m) < 2 ^ 64 - 14" and "fst m \<in> {0x0, 0x1, 0x2, 0x9, 0xA}"
  shows "ws_decode (server_frame m @ r) = WsSome (event_frame m) r"
  using assms by (auto simp: server_frame_def event_frame_def ws_decode_encode)

lemma ew_steps_messages:
  assumes "\<forall>m \<in> set ms. fst m \<in> {0x0, 0x1, 0x2, 0x9, 0xA}" and "ew_handle x" and "aa_continue s"
  shows "\<exists>x' ks. ws_steps ew_frame (map event_frame ms) (x, s) =
      (DrainMore, x', s\<lparr>aa_jobs := aa_jobs s @ map JobEvent (event_texts ms)\<rparr>) \<and>
    ew_written x' = ew_written x @ map2 (\<lambda>p k. ws_encode p 0xA True 0 k) (ping_payloads ms) ks \<and>
    length ks = length (ping_payloads ms) \<and> ew_handle x' \<and> ew_registered x' = ew_registered x \<and>
    ew_recv_buf x' = ew_recv_buf x"
  using assms
proof (induction ms arbitrary: x s)
  case Nil
  then show ?case by (auto simp: event_texts_def ping_payloads_def)
next
  case (Cons m ms)
  obtain opc p where m: "m = (opc, p)" by (cases m)
  define k where "k = (case ew_keys x of [] \<Rightarrow> 0 | k # _ \<Rightarrow> k)"
  define x1 where "x1 = (if opc = 0x9 then (ew_send_n (ws_encode p 0xA True 0 k) x)\<lparr>ew_keys := tl (ew_keys x)\<rparr> else x)"
  define s1 where "s1 = (if opc \<in> {0x2, 0x1, 0x0} then s\<lparr>aa_jobs := aa_jobs s @ [JobEvent (bytes_to_string p)]\<rparr> else s)"
  have "opc \<in> {0x0, 0x1, 0x2, 0x9, 0xA}" using Cons.prems(1) m by simp
  then have step: "ew_frame (event_frame m) (x, s) = (True, x1, s1)"
    using Cons.prems(2,3)
    by (auto simp: m event_frame_def ew_frame_def x1_def s1_def k_def ari_ws_event_def dispatch_job_def ew_send_n_def split: list.split)
  have up: "ew_handle x1" "aa_continue s1" using Cons.prems(2,3) by (simp_all add: x1_def s1_def ew_send_n_def)
  obtain x' ks where IH: "ws_steps ew_frame (map event_frame ms) (x1, s1) =
      (DrainMore, x', s1\<lparr>aa_jobs := aa_jobs s1 @ map JobEvent (event_texts ms)\<rparr>)"
    "ew_written x' = ew_written x1 @ map2 (\<lambda>p k. ws_encode p 0xA True 0 k) (ping_payloads ms) ks"
    "length ks = length (ping_payloads ms)" "ew_handle x'" "ew_registered x' = ew_registered x1" "ew_recv_buf x' = ew_recv_buf x1"
    using Cons.IH[OF _ up] Cons.prems(1) by auto
  let ?ks = "if opc = 0x9 then k # ks else ks"
  have "ws_steps ew_frame (map event_frame (m # ms)) (x, s) =
      (DrainMore, x', s\<lparr>aa_jobs := aa_jobs s @ map JobEvent (event_texts (m # ms))\<rparr>)"
    using IH(1) by (simp add: step) (auto simp: s1_def m event_texts_def)
  moreover have "ew_written x' = ew_written x @ map2 (\<lambda>p k. ws_encode p 0xA True 0 k) (ping_payloads (m # ms)) ?ks"
    "length ?ks = length (ping_payloads (m # ms))"
    using IH(2,3) by (auto simp: x1_def m ping_payloads_def ew_send_n_def)
  moreover have "ew_registered x' = ew_registered x" "ew_recv_buf x' = ew_recv_buf x"
    using IH(5,6) by (auto simp: x1_def ew_send_n_def)
  ultimately show ?case using IH(4) by blast
qed

section \<open>Dialling again\<close>

text \<open>A socket the reactor did not take stays connected, unread and undialled for ever.\<close>

lemma unregistered_socket_dead:
  assumes "ew_handle x" and "\<not> ew_registered x"
  shows "fst (fold (event_exec env sha1 cfg) ops (x, s)) = x"
proof (induction ops arbitrary: s)
  case (Cons op ops)
  have "fst (event_exec env sha1 cfg op (x, s)) = x"
    using assms by (cases op) (simp_all add: supervisor_timeout_def Let_def)
  with Cons.IH show ?case by (cases "event_exec env sha1 cfg op (x, s)") simp
qed simp

definition dial_succeeds :: "(string \<Rightarrow> string) \<Rightarrow> event_dial \<Rightarrow> bool" where
  "dial_succeeds sha1_base64 ed \<longleftrightarrow> ed_connected ed \<and> ed_sent ed \<and> ed_registered ed \<and>
     (case read_upgrade_head [] (ed_answer ed) of
        None \<Rightarrow> False
      | Some (headers, _) \<Rightarrow> validate_upgrade_response sha1_base64 headers (random_ws_key (ed_random ed)))"

lemma supervisor_dials:
  assumes "dial_succeeds sha1 ed" and "\<not> ew_handle x"
  shows "supervisor_timeout env sha1 cfg now ed (x, s) =
    (x\<lparr>ew_written := ew_written x @ [string_to_bytes (event_upgrade_request cfg (random_ws_key (ed_random ed)))],
       ew_handle := True, ew_registered := True\<rparr>, cc_tick (agent_cenv env) now s)"
  using assms
  by (auto simp: supervisor_timeout_def dial_succeeds_def ew_connect_and_handshake_def ew_register_with_reactor_def
      ew_send_n_def Let_def split: option.splits)

text \<open>The end of a connection and the next dial: only the flag and the log differ, the buffer is kept.\<close>

lemma lose_and_redial:
  assumes "dial_succeeds sha1 ed" and "ew_registered x"
  shows "fold (event_exec env sha1 cfg) [EvRead [], EvTimeout now ed] (x, s) =
    (x\<lparr>ew_written := ew_written x @ [string_to_bytes (event_upgrade_request cfg (random_ws_key (ed_random ed)))],
       ew_close_notified := True, ew_handle := True, ew_registered := True\<rparr>, cc_tick (agent_cenv env) now s)"
proof -
  let ?x = "x\<lparr>ew_close_notified := True, ew_handle := False, ew_registered := False\<rparr>"
  have "event_exec env sha1 cfg (EvRead []) (x, s) = (?x, s)"
    using assms(2) by (simp add: ew_handle_input_def ew_handle_close_def ew_notify_disconnect_once_def)
  with supervisor_dials[OF assms(1), of ?x env cfg now s] show ?thesis by simp
qed

end
