(* ===== verification/Event_Properties.thy ===== *)
theory Event_Properties
  imports Ari_Ws Tunnel_Properties
begin

text \<open>
  What the event socket guarantees: the events of Asterisk reach the ARI client in order and once, also over
  a reconnection at the end of a frame, and what a reconnection inside a frame does.
\<close>

section \<open>The worker\<close>

lemma worker_turns:
  assumes "aa_continue s" and "aa_jobs s = map JobEvent evs" and "length ts = length evs"
  shows "\<exists>s'. fold (event_exec env sha1 cfg) (map (\<lambda>t. EvApp (Worker t)) ts) (x, s) = (x, s') \<and> aa_jobs s' = [] \<and>
    aa_ari s' = fold (\<lambda>(t, ev) a. snd (on_event (ag_ari env) t ev a)) (zip ts evs) (aa_ari s)"
proof (intro exI conjI)
  let ?s = "fold (worker_step env) ts s"
  show "fold (event_exec env sha1 cfg) (map (\<lambda>t. EvApp (Worker t)) ts) (x, s) = (x, ?s)"
    by (induction ts arbitrary: s) simp_all
  have jobs: "fold (\<lambda>(now, job) a. snd (run_job env now job a)) (zip ts (map JobEvent evs)) a =
      fold (\<lambda>(t, ev) a. snd (on_event (ag_ari env) t ev a)) (zip ts evs) a" for a
    using assms(3) by (induction ts evs arbitrary: a rule: list_induct2) (simp_all add: run_job_def)
  from worker_runs_queue[of s ts env] assms
  show "aa_jobs ?s = []" "aa_ari ?s = fold (\<lambda>(t, ev) a. snd (on_event (ag_ari env) t ev a)) (zip ts evs) (aa_ari s)"
    by (simp_all add: jobs)
qed

text \<open>
  C34: the events Asterisk sends on a fresh connection, however its frames are cut and whatever pings and pongs
  stand between them, are handled by the ARI client in order and once each, after as many turns of the worker;
  every ping is answered with a masked pong of its payload.
\<close>

theorem events_reach_ari_client:
  fixes s :: "'a agent_app_scheme"
  assumes "\<forall>m \<in> set ms. fst m \<in> {0x0, 0x1, 0x2, 0x9, 0xA} \<and> length (snd m) < 2 ^ 64 - 14"
    and "concat chunks = concat (map server_frame ms)" and "[] \<notin> set chunks"
    and "ew_handle x" and "ew_registered x" and "ew_recv_buf x = []" and "aa_continue s" and "aa_jobs s = []"
    and "length ts = length (event_texts ms)"
  shows "\<exists>x' s' ks. fold (event_exec env sha1 cfg) (map EvRead chunks @ map (\<lambda>t. EvApp (Worker t)) ts) (x, s) = (x', s') \<and>
    aa_ari s' = fold (\<lambda>(t, ev) a. snd (on_event (ag_ari env) t ev a)) (zip ts (event_texts ms)) (aa_ari s) \<and>
    aa_jobs s' = [] \<and> ew_handle x' \<and> ew_recv_buf x' = [] \<and> length ks = length (ping_payloads ms) \<and>
    ew_written x' = ew_written x @ map2 (\<lambda>p k. ws_encode p 0xA True 0 k) (ping_payloads ms) ks"
proof -
  let ?s = "s\<lparr>aa_jobs := map JobEvent (event_texts ms)\<rparr>"
  obtain x' ks where st: "ws_steps ew_frame (map event_frame ms) (x, s) = (DrainMore, x', ?s)"
    "ew_written x' = ew_written x @ map2 (\<lambda>p k. ws_encode p 0xA True 0 k) (ping_payloads ms) ks"
    "length ks = length (ping_payloads ms)" "ew_handle x'" "ew_recv_buf x' = []"
    using ew_steps_messages[of ms x s] assms(1,4,6-8) by auto
  have "ws_feed ew_get_buf ew_put_buf ew_frame chunks (x, s) = Some (DrainMore, x', ?s)"
    by (rule events.ws_feed_frames[where enc = server_frame and frm = event_frame])
      (use assms(1,2,6) st(1) in \<open>auto simp: decode_server_frame ew_get_buf_def\<close>)
  then have reads: "fold (event_exec env sha1 cfg) (map EvRead chunks) (x, s) = (x', ?s)"
    using event_reads assms(3,5) by fastforce
  from worker_turns[of ?s "event_texts ms" ts env sha1 cfg x'] assms(7,9)
  obtain s' where "fold (event_exec env sha1 cfg) (map (\<lambda>t. EvApp (Worker t)) ts) (x', ?s) = (x', s')" "aa_jobs s' = []"
    "aa_ari s' = fold (\<lambda>(t, ev) a. snd (on_event (ag_ari env) t ev a)) (zip ts (event_texts ms)) (aa_ari s)"
    by auto
  with reads st show ?thesis by auto
qed

text \<open>A connection that ends between two frames leaves a socket that the next dial makes ready again.\<close>

lemma redial_ready:
  assumes "dial_succeeds sha1 ed" and "ew_registered x" and "ew_recv_buf x = []"
  shows "\<exists>x1. fold (event_exec env sha1 cfg) [EvRead [], EvTimeout now ed] (x, s) = (x1, cc_tick (agent_cenv env) now s) \<and>
    ew_handle x1 \<and> ew_registered x1 \<and> ew_recv_buf x1 = []"
  using lose_and_redial[OF assms(1,2), of env cfg now s] assms(3) by (intro exI conjI) (assumption | simp)+

text \<open>A frame that was cut inside its payload decodes to nothing, and other bytes of the same number complete it.\<close>

lemma cut_server_frame:
  assumes "server_frame (0x1, begun @ missing) = received @ missing" and "missing \<noteq> []"
    and "length (begun @ missing) < 2 ^ 64 - 14" and "length taken = length missing"
  shows "ws_decode received = WsNone"
    and "ws_decode (received @ taken @ rest) = WsSome \<lparr>ws_opcode = 0x1, ws_payload = begun @ taken\<rparr> rest"
proof -
  have whole: "ws_decode (received @ missing) = WsSome (event_frame (0x1, begun @ missing)) []"
    using decode_server_frame[of "(0x1, begun @ missing)" "[]"] assms(1,3) by simp
  show "ws_decode received = WsNone"
  proof (cases "ws_decode received")
    case (WsSome f r)
    from ws_decode_append[OF this, of missing] whole assms(2) show ?thesis by simp
  next
    case WsBadRange
    from ws_decode_bad_append[OF this, of missing] whole show ?thesis by simp
  qed simp
  have "server_frame (0x1, begun @ taken) = received @ taken"
    using assms(1,4) by (auto simp: server_frame_def ws_encode_def)
  moreover have "ws_decode (server_frame (0x1, begun @ taken) @ rest) = WsSome (event_frame (0x1, begun @ taken)) rest"
    using decode_server_frame assms(3,4) by simp
  ultimately show "ws_decode (received @ taken @ rest) = WsSome \<lparr>ws_opcode = 0x1, ws_payload = begun @ taken\<rparr> rest"
    by (simp add: event_frame_def)
qed

text \<open>
  a connection that ends inside a frame corrupts the next one.  The supervisor dials again with the same
  object, which keeps the bytes of the incomplete frame; the first bytes of the new connection complete it, so that
  an event is queued which Asterisk never sent, and the new frames are decoded from the wrong place.
\<close>

theorem reconnect_splices_frames:
  fixes s :: "'a agent_app_scheme"
  assumes "ew_handle x" and "ew_registered x" and "ew_recv_buf x = []" and "dial_succeeds sha1 ed"
    and "aa_continue (cc_tick (agent_cenv env) now s)"
    and "server_frame (0x1, begun @ missing) = received @ missing" and "missing \<noteq> []" and "received \<noteq> []"
    and "length (begun @ missing) < 2 ^ 64 - 14"
    and "length taken = length missing" and "ws_decode rest = WsNone"
  shows "\<exists>x'. fold (event_exec env sha1 cfg)
      [EvRead received, EvRead [], EvTimeout now ed, EvRead (taken @ rest)] (x, s) =
    (x', (cc_tick (agent_cenv env) now s)\<lparr>aa_jobs := aa_jobs (cc_tick (agent_cenv env) now s) @
       [JobEvent (bytes_to_string (begun @ taken))]\<rparr>) \<and> ew_recv_buf x' = rest"
proof -
  let ?s = "cc_tick (agent_cenv env) now s" and ?x = "x\<lparr>ew_recv_buf := received\<rparr>"
  let ?x1 = "?x\<lparr>ew_written := ew_written x @ [string_to_bytes (event_upgrade_request cfg (random_ws_key (ed_random ed)))],
    ew_close_notified := True, ew_handle := True, ew_registered := True\<rparr>"
  note cut = cut_server_frame[OF assms(6,7,9,10)]
  have "ws_drain ew_get_buf ew_put_buf ew_frame (?x, s) = Some (DrainMore, ?x, s)"
    by (subst events.ws_drain_unfold) (simp add: ew_get_buf_def cut(1))
  then have r1: "event_exec env sha1 cfg (EvRead received) (x, s) = (?x, s)"
    using assms(2,3,8) by (simp add: ew_handle_input_def ew_get_buf_def ew_put_buf_def)
  have r2: "fold (event_exec env sha1 cfg) [EvRead [], EvTimeout now ed] (?x, s) = (?x1, ?s)"
    using lose_and_redial[OF assms(4), of ?x env cfg now s] assms(2) by simp
  let ?s2 = "?s\<lparr>aa_jobs := aa_jobs ?s @ [JobEvent (bytes_to_string (begun @ taken))]\<rparr>"
  have "ws_drain ew_get_buf ew_put_buf ew_frame (?x1\<lparr>ew_recv_buf := rest\<rparr>, ?s2) =
      Some (DrainMore, ?x1\<lparr>ew_recv_buf := rest\<rparr>, ?s2)"
    by (subst events.ws_drain_unfold) (simp add: ew_get_buf_def assms(11))
  moreover have "ew_frame \<lparr>ws_opcode = 0x1, ws_payload = begun @ taken\<rparr> (?x1\<lparr>ew_recv_buf := rest\<rparr>, ?s) =
      (True, ?x1\<lparr>ew_recv_buf := rest\<rparr>, ?s2)"
    using assms(5) by (simp add: ew_frame_def ari_ws_event_def dispatch_job_def)
  ultimately have "ws_drain ew_get_buf ew_put_buf ew_frame (?x1\<lparr>ew_recv_buf := received @ taken @ rest\<rparr>, ?s) =
      Some (DrainMore, ?x1\<lparr>ew_recv_buf := rest\<rparr>, ?s2)"
    by (subst events.ws_drain_unfold) (simp add: ew_get_buf_def ew_put_buf_def cut(2))
  then have "event_exec env sha1 cfg (EvRead (taken @ rest)) (?x1, ?s) = (?x1\<lparr>ew_recv_buf := rest\<rparr>, ?s2)"
    using assms(7,10) by (auto simp: ew_handle_input_def ew_get_buf_def ew_put_buf_def)
  with r1 r2 show ?thesis by simp
qed

section \<open>Witnesses\<close>

definition toy_event_socket :: event_socket where
  "toy_event_socket = (new_event_socket [5])\<lparr>ew_handle := True, ew_registered := True\<rparr>"

definition toy_dial :: event_dial where
  "toy_dial = \<lparr>ed_connected = True, ed_random = Some (replicate 16 1), ed_sent = True,
     ed_answer = ''HTTP/1.1 101 acc'' @ crlf @ crlf, ed_registered = True\<rparr>"

definition toy_ws_config :: ari_ws_config where
  "toy_ws_config = \<lparr>aw_host = ''h'', aw_app_name = ''pbx'', aw_username = ''u'', aw_password = ''p''\<rparr>"

lemma toy_dial_succeeds: "dial_succeeds (\<lambda>_. ''acc'') toy_dial"
  by (simp add: dial_succeeds_def toy_dial_def crlf_def validate_upgrade_response_def accept_key_def str_contains_def)

lemma sample_agent_tick:
  "aa_continue (cc_tick env now (sample_agent lib []))" "aa_jobs (cc_tick env now (sample_agent lib [])) = []"
  by (simp_all add: sample_agent_def agent_boot_def case_prod_beta Let_def cc_tick_def attempt_connect_def)

lemma sample_agent_idle: "aa_continue (sample_agent lib [])" "aa_jobs (sample_agent lib []) = []"
  by (simp_all add: sample_agent_def agent_boot_def case_prod_beta Let_def)

lemma toy_chars: "char_of (101 :: nat) = CHR ''e''" "char_of (102 :: nat) = CHR ''f''" "char_of (129 :: nat) = CHR 0x81"
  by (simp_all add: char_of_def bit_Suc_0_iff)

theorem events_reach_ari_client_witness:
  "\<exists>x' s' ks. fold (event_exec (sample_env sample_lib) (\<lambda>_. ''acc'') toy_ws_config)
      [EvRead [0x81], EvRead [1, 101, 0x89], EvRead [1, 7, 0x81, 1, 102], EvApp (Worker 1), EvApp (Worker 2)]
      (toy_event_socket, sample_agent sample_lib []) = (x', s') \<and>
    aa_ari s' = snd (on_event (ag_ari (sample_env sample_lib)) 2 ''f''
      (snd (on_event (ag_ari (sample_env sample_lib)) 1 ''e'' (aa_ari (sample_agent sample_lib []))))) \<and>
    ew_written x' = [ws_encode [7] 0xA True 0 ks]"
proof -
  let ?ms = "[(0x1, [101]), (0x9, [7]), (0x1, [102])] :: (u8 \<times> u8 list) list"
  have texts: "event_texts ?ms = [''e'', ''f'']" "ping_payloads ?ms = [[7]]"
    by (simp_all add: event_texts_def ping_payloads_def bytes_to_string_def toy_chars)
  have bytes: "concat (map server_frame ?ms) = [0x81, 1, 101, 0x89, 1, 7, 0x81, 1, 102]"
    by (simp add: server_frame_def ws_encode_def ws_length_bytes_def)
  obtain x' s' ks where "fold (event_exec (sample_env sample_lib) (\<lambda>_. ''acc'') toy_ws_config)
      (map EvRead [[0x81], [1, 101, 0x89], [1, 7, 0x81, 1, 102]] @ map (\<lambda>t. EvApp (Worker t)) [1, 2])
      (toy_event_socket, sample_agent sample_lib []) = (x', s')"
    "aa_ari s' = fold (\<lambda>(t, ev) a. snd (on_event (ag_ari (sample_env sample_lib)) t ev a)) (zip [1, 2] (event_texts ?ms))
      (aa_ari (sample_agent sample_lib []))" "length ks = length (ping_payloads ?ms)"
    "ew_written x' = ew_written toy_event_socket @ map2 (\<lambda>p k. ws_encode p 0xA True 0 k) (ping_payloads ?ms) ks"
    using events_reach_ari_client[of ?ms "[[0x81], [1, 101, 0x89], [1, 7, 0x81, 1, 102]]" toy_event_socket
        "sample_agent sample_lib []" "[1, 2]" "sample_env sample_lib" "\<lambda>_. ''acc''" toy_ws_config] bytes
    by (auto simp: texts sample_agent_idle toy_event_socket_def new_event_socket_def)
  then show ?thesis
    by (auto simp: texts toy_event_socket_def new_event_socket_def length_Suc_conv)
qed

theorem reconnect_splices_frames_witness:
  "aa_jobs (snd (fold (event_exec (sample_env sample_lib) (\<lambda>_. ''acc'') toy_ws_config)
      [EvRead [0x81, 2, 101], EvRead [], EvTimeout 0 toy_dial, EvRead (0x81 # [1])]
      (toy_event_socket, sample_agent sample_lib []))) = [JobEvent [CHR ''e'', CHR 0x81]]"
proof -
  have bytes: "server_frame (0x1, [101] @ [102]) = [0x81, 2, 101] @ [102]"
    by (simp add: server_frame_def ws_encode_def ws_length_bytes_def)
  have rest: "ws_decode [1] = WsNone" by (simp add: ws_decode_def)
  from reconnect_splices_frames[of toy_event_socket "\<lambda>_. ''acc''" toy_dial "sample_env sample_lib" 0
      "sample_agent sample_lib []" "[101]" "[102]" "[0x81, 2, 101]" "[0x81]" "[1]" toy_ws_config, OF _ _ _ toy_dial_succeeds _ bytes _ _ _ _ rest]
  obtain x' where "fold (event_exec (sample_env sample_lib) (\<lambda>_. ''acc'') toy_ws_config)
      [EvRead [0x81, 2, 101], EvRead [], EvTimeout 0 toy_dial, EvRead ([0x81] @ [1])] (toy_event_socket, sample_agent sample_lib []) =
    (x', (cc_tick (agent_cenv (sample_env sample_lib)) 0 (sample_agent sample_lib []))\<lparr>aa_jobs :=
       aa_jobs (cc_tick (agent_cenv (sample_env sample_lib)) 0 (sample_agent sample_lib [])) @
       [JobEvent (bytes_to_string ([101] @ [0x81]))]\<rparr>)"
    by (auto simp: toy_event_socket_def new_event_socket_def sample_agent_tick)
  then show ?thesis by (simp add: sample_agent_tick bytes_to_string_def toy_chars del: event_exec.simps)
qed

end
