(* ===== verification/Smtp_Fsm.thy ===== *)
theory Smtp_Fsm
  imports Cpp_Effect
begin

text \<open>
  The state machine of the e-mail client (\<^verbatim>\<open>modules/module/email/src/emailservice_fsm.cpp\<close>): the parser of replies,
  the states with their \<^verbatim>\<open>onResponse\<close> and \<^verbatim>\<open>onCommand\<close>, and the text of a message.

  Replies are kept in an unordered map whose equality looks at the reply code only while its hash also looks at the
  status text, so which entries it holds and where it begins is not determined; the entries in iteration order are
  a parameter of the model (\<^verbatim>\<open>sx_entries\<close>), a function of the assignments the parser makes.  The reading functions of
  ACE for base64, the file system and the date are parameters as well.
\<close>

section \<open>Replies\<close>

record smtp_reply =
  m_reply :: u32
  m_statusCode :: string

datatype smtp_fault = SmtpThrow cpp_exn | SmtpNullReply | SmtpNullClient | SmtpFreedSsl | SmtpHangs

definition fault_bind :: "smtp_fault + 'a \<Rightarrow> ('a \<Rightarrow> smtp_fault + 'b) \<Rightarrow> smtp_fault + 'b" where
  "fault_bind r k = (case r of Inl e \<Rightarrow> Inl e | Inr v \<Rightarrow> k v)"

lemma fault_bind_simps [simp]: "fault_bind (Inr v) k = k v" "fault_bind (Inl e) k = Inl e"
  by (simp_all add: fault_bind_def)

text \<open>
  \<^verbatim>\<open>parseSmtpCommand\<close>: the assignments to the map, in order.  \<open>elm\<close> is the word read so far; a blank or a dash ends it.
  The word behind it ends with a blank, a carriage return or the input; the text behind a blank loses its first
  character.
\<close>

definition in_status :: "char \<Rightarrow> bool" where
  "in_status c \<longleftrightarrow> c \<noteq> CHR '' '' \<and> c \<noteq> CHR 0x0D"

lemma smtp_rest_shorter:
  "length (drop 2 (dropWhile P cs)) \<le> length cs"
  "length (drop 2 (dropWhile Q (drop 2 (dropWhile P cs)))) \<le> length cs"
proof -
  show a: "length (drop 2 (dropWhile P cs)) \<le> length cs" for P and cs :: "'b list"
    using length_dropWhile_le[of P cs] by simp
  show "length (drop 2 (dropWhile Q (drop 2 (dropWhile P cs)))) \<le> length cs"
    using a[of Q "drop 2 (dropWhile P cs)"] a[of P cs] by (rule order_trans)
qed

function parseSmtpCommand :: "string \<Rightarrow> string \<Rightarrow> smtp_fault + (smtp_reply \<times> string) list" where
  "parseSmtpCommand elm [] = Inr []"
| "parseSmtpCommand elm (c # cs) =
     (if c = CHR '' '' \<or> c = CHR ''-'' then
        let status = takeWhile in_status cs; rest = dropWhile in_status cs; more_text = drop 2 rest
        in case stoi elm of
             Inl e \<Rightarrow> Inl (SmtpThrow e)
           | Inr code \<Rightarrow>
               (let entry = \<lparr>m_reply = of_int code, m_statusCode = status\<rparr>
                in if rest = [] then Inr [(entry, [])]
                   else if tl rest \<noteq> [] \<and> hd (tl rest) = CHR 0x0A
                   then fault_bind (parseSmtpCommand [] more_text) (\<lambda>es. Inr ((entry, []) # es))
                   else fault_bind (parseSmtpCommand [] (drop 2 (dropWhile (\<lambda>d. d \<noteq> CHR 0x0D) more_text))) (\<lambda>es.
                          Inr ((entry, takeWhile (\<lambda>d. d \<noteq> CHR 0x0D) more_text) # es)))
      else parseSmtpCommand (elm @ [c]) cs)"
  by pat_completeness auto
termination
  by (relation "measure (\<lambda>(elm, cs). length cs)") (auto simp: le_imp_less_Suc smtp_rest_shorter simp del: length_drop)

section \<open>The account and what lies outside\<close>

record smtp_account =
  from_name :: string
  from_email :: string
  from_password :: string
  to_email :: "string list"
  email_subject :: string
  email_body :: string
  attachment :: "(string \<times> string) list"

text \<open>
  Iteration over the map of replies, ACE's base64 (decoding fails with a null pointer), reading of a file and the
  date line with its line feed.
\<close>

record smtp_env =
  sx_entries :: "(smtp_reply \<times> string) list \<Rightarrow> smtp_reply list"
  sx_b64_encode :: "string \<Rightarrow> string"
  sx_b64_decode :: "string \<Rightarrow> string option"
  sx_read_file :: "string \<Rightarrow> string option"
  sx_date :: string
  sx_account :: smtp_account

definition smtp_entries :: "smtp_env \<Rightarrow> string \<Rightarrow> smtp_fault + smtp_reply list" where
  "smtp_entries env inp = fault_bind (parseSmtpCommand [] inp) (\<lambda>es. Inr (sx_entries env es))"

text \<open>\<^verbatim>\<open>it->first\<close> at the beginning of the map; an empty map has no first entry.\<close>

definition getSmtpStatusCode :: "smtp_env \<Rightarrow> string \<Rightarrow> smtp_fault + smtp_reply" where
  "getSmtpStatusCode env inp =
     fault_bind (smtp_entries env inp) (\<lambda>es. case es of [] \<Rightarrow> Inl SmtpNullReply | e # _ \<Rightarrow> Inr e)"

text \<open>
  \<^verbatim>\<open>SMTP::find\<close>, as the comparison with \<^verbatim>\<open>end()\<close> that its only caller makes.  The function returns an iterator into a map that
  is destroyed when it returns, and the caller compares it with the end of another map: C++ leaves the outcome of
  that undefined.  The definition is what the comparison is meant to say, membership; what the client
  does on a reply that lists STARTTLS is stated for a compiler that gives it this meaning.
\<close>

definition smtp_find :: "smtp_env \<Rightarrow> string \<Rightarrow> string \<Rightarrow> smtp_fault + bool" where
  "smtp_find env inp what =
     fault_bind (smtp_entries env inp) (\<lambda>es. Inr (list_ex (\<lambda>e. m_statusCode e = what) es))"

section \<open>The message\<close>

definition getContentType :: "string \<Rightarrow> string" where
  "getContentType ext =
     (if ext = ''pdf'' then ''application/pdf''
      else if ext \<in> {''docx'', ''doc''} then ''application/msword''
      else if ext = ''zip'' then ''application/zip''
      else if ext = ''gzip'' then ''application/x-gzip''
      else if ext \<in> {''xls'', ''xlsx''} then ''application/vnd.ms-excel''
      else if ext \<in> {''pps'', ''ppt'', ''pptx''} then ''application/vnd.ms-powerpoint''
      else if ext \<in> {''jpeg'', ''jpg'', ''jpe''} then ''image/jpeg''
      else if ext \<in> {''mpeg'', ''mpg'', ''mpe''} then ''video/mpeg''
      else if ext = ''gif'' then ''image/gif''
      else if ext \<in> {''asc'', ''diff'', ''c'', ''log'', ''patch'', ''pot'', ''text'', ''txt''} then ''text/plain''
      else ''application/octet-stream'')"

definition attachment_part :: "string \<Rightarrow> string \<Rightarrow> nat \<Rightarrow> string \<Rightarrow> string" where
  "attachment_part type fname len contents =
     ''--cordoba'' @ crlf @ ''Content-Transfer-Encoding: base64'' @ crlf @ ''Content-Type: '' @ type @ crlf @
     ''Content-Disposition: attachment; filename='' @ fname @ '' ;size-parm='' @ dec_string len @ crlf @ crlf @
     contents @ crlf"

definition attachment_text :: "smtp_env \<Rightarrow> string \<times> string \<Rightarrow> string" where
  "attachment_text env a =
     (let (fname, fcontent) = a
      in if fname = [] then []
         else let type = getContentType (case str_find fname ''.'' of None \<Rightarrow> [] | Some dot \<Rightarrow> drop (dot + 1) fname)
              in case sx_read_file env fname of
                   None \<Rightarrow> if fcontent = [] then [] else attachment_part type fname (length fcontent) fcontent
                 | Some contents \<Rightarrow> attachment_part type fname (length contents) (sx_b64_encode env contents))"

definition build_mime_message :: "smtp_env \<Rightarrow> string" where
  "build_mime_message env =
     (let acc = sx_account env;
          header = ''MIME-Version: 1.0'' @ crlf @ ''From: '' @ from_name acc @ '' <'' @ from_email acc @ ''>'' @ crlf @
            ''To: '' @ concat (map (\<lambda>addr. addr @ '';'') (to_email acc)) @ crlf @
            ''Subject: '' @ email_subject acc @ crlf @ ''Date: '' @ sx_date env;
          body = ''Content-type: text/plain; charset=us-ascii'' @ crlf @ crlf @ email_body acc @ crlf
      in header @
         (if attachment acc = [] then body
          else ''Content-Type: multipart/mixed; boundary=cordoba'' @ crlf @ ''--cordoba'' @ crlf @ body @
               concat (map (attachment_text env) (attachment acc)) @ ''--cordoba--'' @ crlf) @
         crlf @ ''.'' @ crlf)"

section \<open>States\<close>

datatype auth_stage = AUTH_INIT | AUTH_USRNAME | AUTH_PASSWORD | AUTH_SUCCESS | AUTH_FAILURE

datatype smtp_state = ST_GREETING | ST_HELO | ST_MAIL auth_stage | ST_RCPT | ST_DATA | ST_QUIT | ST_BODY
  | ST_HELP | ST_NOOP | ST_VRFY | ST_EXPN | ST_RESET

datatype smtp_status = SMTP_OK | TLS_NOT_SUPPORTED | END_EMAIL_TRANSACTION | REMAIN_IN_SAME_STATE | GOTO_NEXT_STATE
  | CHALLENGE_FOR_USERNAME_FAILED | CHALLENGE_FOR_PASSWORD_FAILED | BASE64_DECODING_FAILED
  | INCORRECT_LOGIN_CREDENTIALS | ERROR_END

text \<open>
  What a handler leaves: its status, the command in \<^verbatim>\<open>out\<close>, the state in \<^verbatim>\<open>new_state\<close> and the active state, whose
  stage it may have changed.  \<^verbatim>\<open>new_state\<close> starts as the default of the variant.
\<close>

record smtp_turn =
  tn_status :: smtp_status
  tn_out :: string
  tn_new_state :: smtp_state
  tn_active :: smtp_state

definition smtp_quiet :: "smtp_state \<Rightarrow> smtp_turn" where
  "smtp_quiet st = \<lparr>tn_status = SMTP_OK, tn_out = [], tn_new_state = ST_GREETING, tn_active = st\<rparr>"

definition smtp_go :: "smtp_state \<Rightarrow> string \<Rightarrow> smtp_state \<Rightarrow> smtp_turn" where
  "smtp_go st cmd st' = \<lparr>tn_status = GOTO_NEXT_STATE, tn_out = cmd, tn_new_state = st', tn_active = st\<rparr>"

definition smtp_stay :: "string \<Rightarrow> smtp_state \<Rightarrow> smtp_turn" where
  "smtp_stay cmd st = \<lparr>tn_status = REMAIN_IN_SAME_STATE, tn_out = cmd, tn_new_state = ST_GREETING, tn_active = st\<rparr>"

definition greeting_response :: "smtp_env \<Rightarrow> string \<Rightarrow> smtp_fault + smtp_turn" where
  "greeting_response env inp =
     fault_bind (getSmtpStatusCode env inp) (\<lambda>ent.
     Inr (if m_reply ent = 220 then smtp_go ST_GREETING (''EHLO gmail.com'' @ crlf) ST_HELO else smtp_quiet ST_GREETING))"

definition helo_response :: "smtp_env \<Rightarrow> string \<Rightarrow> smtp_fault + smtp_turn" where
  "helo_response env inp =
     fault_bind (getSmtpStatusCode env inp) (\<lambda>ent.
     if m_reply ent = 250 then
       fault_bind (smtp_find env inp ''STARTTLS'') (\<lambda>found.
       Inr (if found then smtp_go ST_HELO (''STARTTLS'' @ crlf) (ST_MAIL AUTH_INIT)
            else (smtp_quiet ST_HELO)\<lparr>tn_status := TLS_NOT_SUPPORTED\<rparr>))
     else Inr (smtp_quiet ST_HELO))"

text \<open>\<^verbatim>\<open>onUsername\<close> and \<^verbatim>\<open>onPassword\<close>: the challenge they expect, the answer, and the failure when the challenge is another.\<close>

definition on_challenge ::
    "smtp_env \<Rightarrow> string \<Rightarrow> string \<Rightarrow> smtp_status \<Rightarrow> string \<Rightarrow> smtp_fault + smtp_status \<times> string" where
  "on_challenge env expected answer failed inp =
     fault_bind (getSmtpStatusCode env inp) (\<lambda>ent.
     Inr (if m_reply ent = 334 \<and> m_statusCode ent \<noteq> [] then
            (case sx_b64_decode env (m_statusCode ent) of
               Some plain \<Rightarrow> if plain = expected then (SMTP_OK, sx_b64_encode env answer) else (failed, [])
             | None \<Rightarrow> (BASE64_DECODING_FAILED, []))
          else (BASE64_DECODING_FAILED, [])))"

definition onUsername :: "smtp_env \<Rightarrow> string \<Rightarrow> smtp_fault + smtp_status \<times> string" where
  "onUsername env = on_challenge env ''Username:'' (from_email (sx_account env)) CHALLENGE_FOR_USERNAME_FAILED"

definition onPassword :: "smtp_env \<Rightarrow> string \<Rightarrow> smtp_fault + smtp_status \<times> string" where
  "onPassword env = on_challenge env ''Password:'' (from_password (sx_account env)) CHALLENGE_FOR_PASSWORD_FAILED"

definition onLoginSuccess :: "smtp_env \<Rightarrow> string \<Rightarrow> smtp_fault + bool \<times> string" where
  "onLoginSuccess env inp =
     fault_bind (getSmtpStatusCode env inp) (\<lambda>ent.
     Inr (if m_reply ent = 235 \<and> m_statusCode ent = ''2.7.0''
          then (True, ''MAIL FROM: <'' @ from_email (sx_account env) @ ''>'' @ crlf) else (False, [])))"

definition mail_command :: "smtp_env \<Rightarrow> string \<Rightarrow> auth_stage \<Rightarrow> smtp_fault + smtp_turn" where
  "mail_command env inp stage =
     (case stage of
        AUTH_INIT \<Rightarrow> Inr (smtp_stay (''AUTH LOGIN'' @ crlf) (ST_MAIL AUTH_USRNAME))
      | AUTH_USRNAME \<Rightarrow>
          fault_bind (onUsername env inp) (\<lambda>(status, cmd).
          Inr (smtp_stay cmd (ST_MAIL (if status = SMTP_OK then AUTH_PASSWORD else AUTH_USRNAME))))
      | AUTH_PASSWORD \<Rightarrow>
          fault_bind (onPassword env inp) (\<lambda>(status, cmd).
          Inr (smtp_stay cmd (ST_MAIL (if status = SMTP_OK then AUTH_SUCCESS else AUTH_PASSWORD))))
      | AUTH_SUCCESS \<Rightarrow>
          fault_bind (onLoginSuccess env inp) (\<lambda>(ok, cmd).
          Inr (if ok then smtp_go (ST_MAIL AUTH_SUCCESS) cmd ST_RCPT
               else \<lparr>tn_status = INCORRECT_LOGIN_CREDENTIALS, tn_out = ''RSET'' @ crlf, tn_new_state = ST_RESET,
                     tn_active = ST_MAIL AUTH_INIT\<rparr>))
      | AUTH_FAILURE \<Rightarrow> Inr ((smtp_quiet (ST_MAIL AUTH_FAILURE))\<lparr>tn_status := ERROR_END\<rparr>))"

text \<open>In the states from here on every reply but the ones named leads to the next command.\<close>

definition mail_response :: "smtp_env \<Rightarrow> string \<Rightarrow> auth_stage \<Rightarrow> smtp_fault + smtp_turn" where
  "mail_response env inp stage =
     fault_bind (getSmtpStatusCode env inp) (\<lambda>ent.
     if m_reply ent = 535 then Inr (smtp_quiet (ST_MAIL stage)) else mail_command env inp stage)"

definition rcpt_response :: "smtp_env \<Rightarrow> string \<Rightarrow> smtp_fault + smtp_turn" where
  "rcpt_response env inp =
     fault_bind (getSmtpStatusCode env inp) (\<lambda>ent.
     Inr (if m_reply ent = 535 \<or> m_reply ent = 250 \<and> m_statusCode ent \<noteq> ''2.1.0'' then smtp_quiet ST_RCPT
          else smtp_go ST_RCPT (concat (map (\<lambda>elm. ''RCPT TO: <'' @ elm @ ''>'' @ crlf) (to_email (sx_account env)))) ST_DATA))"

definition data_response :: "smtp_env \<Rightarrow> string \<Rightarrow> smtp_fault + smtp_turn" where
  "data_response env inp =
     fault_bind (getSmtpStatusCode env inp) (\<lambda>ent.
     Inr (if m_reply ent = 535 then smtp_quiet ST_DATA else smtp_go ST_DATA (''DATA'' @ crlf) ST_BODY))"

definition body_response :: "smtp_env \<Rightarrow> string \<Rightarrow> smtp_fault + smtp_turn" where
  "body_response env inp =
     fault_bind (getSmtpStatusCode env inp) (\<lambda>ent.
     Inr (if m_reply ent = 535 then smtp_quiet ST_BODY else smtp_go ST_BODY (build_mime_message env) ST_QUIT))"

definition quit_response :: "smtp_env \<Rightarrow> string \<Rightarrow> smtp_fault + smtp_turn" where
  "quit_response env inp =
     fault_bind (getSmtpStatusCode env inp) (\<lambda>ent.
     Inr (if m_reply ent = 250 \<and> m_statusCode ent \<noteq> ''2.0.0'' then smtp_quiet ST_QUIT
          else if m_reply ent = 221
          then (if m_statusCode ent = ''2.0.0'' then smtp_stay [] ST_QUIT else smtp_quiet ST_QUIT)
          else smtp_stay (''QUIT'' @ crlf) ST_QUIT))"

text \<open>\<^verbatim>\<open>HELP::onResponse\<close> reads the reply and does nothing; the remaining states do not even read it.\<close>

definition help_response :: "smtp_env \<Rightarrow> string \<Rightarrow> smtp_fault + smtp_turn" where
  "help_response env inp = fault_bind (getSmtpStatusCode env inp) (\<lambda>_. Inr (smtp_quiet ST_HELP))"

definition onRx :: "smtp_env \<Rightarrow> string \<Rightarrow> smtp_state \<Rightarrow> smtp_fault + smtp_turn" where
  "onRx env inp st =
     (case st of
        ST_GREETING \<Rightarrow> greeting_response env inp
      | ST_HELO \<Rightarrow> helo_response env inp
      | ST_MAIL stage \<Rightarrow> mail_response env inp stage
      | ST_RCPT \<Rightarrow> rcpt_response env inp
      | ST_DATA \<Rightarrow> data_response env inp
      | ST_BODY \<Rightarrow> body_response env inp
      | ST_QUIT \<Rightarrow> quit_response env inp
      | ST_HELP \<Rightarrow> help_response env inp
      | _ \<Rightarrow> Inr (smtp_quiet st))"

end
