(* ===== verification/Smtp_User.thy ===== *)
theory Smtp_User
  imports Smtp_Fsm
begin

text \<open>
  The e-mail client around its state machine (\<^verbatim>\<open>modules/module/email/src/emailservice.cpp\<close>): \<^verbatim>\<open>Tls\<close>, \<^verbatim>\<open>Client\<close> and
  \<^verbatim>\<open>User\<close>.  The semaphore never blocks: it starts at one and is released before each wait.
\<close>

section \<open>TLS\<close>

datatype smtp_ssl = NoSsl | SslUp | SslFreed

text \<open>
  The loop of \<^verbatim>\<open>Tls::write\<close>.  \<open>wr k\<close> is what the \<open>k\<close>-th call of \<^verbatim>\<open>SSL_write\<close> returns; a call that fails is repeated.
  \<^term>\<open>None\<close> is not returning.
\<close>

partial_function (option) tls_write_loop :: "(nat \<Rightarrow> int) \<Rightarrow> nat \<Rightarrow> int \<Rightarrow> int \<Rightarrow> int option" where
  "tls_write_loop wr k offset len =
     (let rc = wr k; offset' = (if rc \<le> 0 then offset else offset + rc)
      in if offset' \<noteq> len then tls_write_loop wr (Suc k) offset' len else Some rc)"

section \<open>The user\<close>

text \<open>
  The active state, whether \<^verbatim>\<open>m_client\<close> is still owned, \<^verbatim>\<open>m_mailServiceAvailable\<close>, the SSL object with \<^verbatim>\<open>m_isTlsUP\<close>, the
  outcomes of the handshakes and of the writes to come (used up: they succeed), and the commands sent, each with
  whether it went over TLS.
\<close>

record smtp_user =
  su_state :: smtp_state
  su_client :: bool
  su_available :: bool
  su_ssl :: smtp_ssl
  su_tls_up :: bool
  su_connects :: "bool list"
  su_writes :: "(nat \<Rightarrow> int) list"
  su_sent :: "(bool \<times> string) list"

definition new_smtp_user :: "bool list \<Rightarrow> (nat \<Rightarrow> int) list \<Rightarrow> smtp_user" where
  "new_smtp_user connects writes =
     \<lparr>su_state = ST_GREETING, su_client = True, su_available = False, su_ssl = NoSsl, su_tls_up = False,
      su_connects = connects, su_writes = writes, su_sent = []\<rparr>"

text \<open>\<^verbatim>\<open>Tls::start\<close>: after a handshake that failed the object is freed and the flag is set all the same.\<close>

definition tls_start :: "smtp_user \<Rightarrow> smtp_user" where
  "tls_start u =
     (case su_connects u of
        [] \<Rightarrow> u\<lparr>su_ssl := SslUp, su_tls_up := True\<rparr>
      | ok # oks \<Rightarrow> u\<lparr>su_ssl := (if ok then SslUp else SslFreed), su_tls_up := True, su_connects := oks\<rparr>)"

definition tls_write :: "string \<Rightarrow> smtp_user \<Rightarrow> smtp_fault + smtp_user" where
  "tls_write cmd u =
     (if su_ssl u \<noteq> SslUp then Inl SmtpFreedSsl
      else case su_writes u of
             [] \<Rightarrow> Inr (u\<lparr>su_sent := su_sent u @ [(True, cmd)]\<rparr>)
           | wr # wrs \<Rightarrow>
               (case tls_write_loop wr 0 0 (int (length cmd)) of
                  None \<Rightarrow> Inl SmtpHangs
                | Some _ \<Rightarrow> Inr (u\<lparr>su_writes := wrs, su_sent := su_sent u @ [(True, cmd)]\<rparr>)))"

text \<open>\<^verbatim>\<open>Client::tx\<close>; the result of the write is only logged.\<close>

definition client_tx :: "string \<Rightarrow> smtp_user \<Rightarrow> smtp_fault + smtp_user" where
  "client_tx cmd u =
     (if \<not> su_client u then Inl SmtpNullClient
      else Inr (if su_available u then u\<lparr>su_sent := su_sent u @ [(False, cmd)]\<rparr> else u))"

definition endEmailTransaction :: "smtp_user \<Rightarrow> smtp_fault + smtp_user" where
  "endEmailTransaction u =
     (if \<not> su_client u then Inl SmtpNullClient else Inr (u\<lparr>su_available := False, su_client := False\<rparr>))"

text \<open>The lambda \<^verbatim>\<open>dispatch\<close> of \<^verbatim>\<open>User::rx\<close>.\<close>

definition smtp_dispatch :: "smtp_env \<Rightarrow> string \<Rightarrow> bool \<Rightarrow> smtp_user \<Rightarrow> smtp_fault + smtp_user" where
  "smtp_dispatch env inp end_on_error u =
     fault_bind (onRx env inp (su_state u)) (\<lambda>turn.
     let u1 = u\<lparr>su_state := tn_active turn\<rparr>; cmd = tn_out turn
     in fault_bind (if cmd = [] then Inr u1 else if su_tls_up u1 then tls_write cmd u1 else client_tx cmd u1) (\<lambda>u2.
        if tn_status turn = GOTO_NEXT_STATE then Inr (u2\<lparr>su_state := tn_new_state turn\<rparr>)
        else if tn_status turn = REMAIN_IN_SAME_STATE then Inr u2
        else if end_on_error then endEmailTransaction u2 else Inr u2))"

definition smtp_rx :: "smtp_env \<Rightarrow> string \<Rightarrow> smtp_user \<Rightarrow> smtp_fault + smtp_user" where
  "smtp_rx env inp u =
     fault_bind (getSmtpStatusCode env inp) (\<lambda>ent.
     if m_reply ent = 220 then
       (if m_statusCode ent = ''2.0.0'' then
          if \<not> su_client u then Inl SmtpNullClient else smtp_dispatch env inp True (tls_start u)
        else smtp_dispatch env inp True u)
     else smtp_dispatch env inp False u)"

section \<open>The client\<close>

text \<open>
  What a read gives.  The plain branch takes the length unseen: the end of the stream is an empty reply, an error
  the length of a string that cannot exist.  Over TLS only the end of the stream is told from the rest.
\<close>

datatype smtp_read = ReadBytes string | ReadEof | ReadError

definition smtp_handle_input :: "smtp_env \<Rightarrow> smtp_read \<Rightarrow> smtp_user \<Rightarrow> smtp_fault + smtp_user" where
  "smtp_handle_input env rd u =
     (if \<not> su_tls_up u then
        (case rd of
           ReadBytes b \<Rightarrow> smtp_rx env b u
         | ReadEof \<Rightarrow> smtp_rx env [] u
         | ReadError \<Rightarrow> Inl (SmtpThrow LengthError))
      else if su_ssl u \<noteq> SslUp then Inl SmtpFreedSsl
      else (case rd of
              ReadBytes b \<Rightarrow> smtp_rx env b u
            | ReadEof \<Rightarrow> Inr (u\<lparr>su_available := False\<rparr>)
            | ReadError \<Rightarrow> smtp_rx env [] u))"

text \<open>\<^verbatim>\<open>Client::start\<close> and the first part of \<^verbatim>\<open>startEmailTransaction\<close>; \<open>conn\<close> is the outcome of the connection.\<close>

definition startEmailTransaction :: "bool \<Rightarrow> smtp_user \<Rightarrow> smtp_user" where
  "startEmailTransaction conn u = u\<lparr>su_available := conn, su_state := ST_GREETING\<rparr>"

text \<open>
  \<^verbatim>\<open>Client::main\<close>: reads are handled while the service is available.  The caller spins in
  \<^verbatim>\<open>startEmailTransaction\<close> until it is not.
\<close>

fun smtp_main :: "smtp_env \<Rightarrow> smtp_read list \<Rightarrow> smtp_user \<Rightarrow> smtp_fault + smtp_user" where
  "smtp_main env [] u = Inr u"
| "smtp_main env (rd # rds) u =
     (if \<not> su_available u then Inr u
      else fault_bind (smtp_handle_input env rd u) (smtp_main env rds))"

section \<open>The request\<close>

text \<open>
  \<^verbatim>\<open>handle_email_POST\<close> of \<^verbatim>\<open>webservice.cpp\<close>: the fields of its JSON body, empty when missing, go into the one account
  object of the process before the transaction starts; an empty list of files leaves the attachments alone.
\<close>

record email_request =
  er_to :: "string list"
  er_subject :: string
  er_body :: string
  er_files :: "(string \<times> string) list"
  er_from :: string
  er_passwd :: string

definition fill_account :: "email_request \<Rightarrow> smtp_account \<Rightarrow> smtp_account" where
  "fill_account req acc =
     (let acc1 = acc\<lparr>to_email := er_to req, email_subject := er_subject req, email_body := er_body req,
                     from_email := er_from req, from_password := er_passwd req\<rparr>
      in if er_files req \<noteq> [] then acc1\<lparr>attachment := er_files req\<rparr> else acc1)"

end
