(* ===== verification/Mail_Properties.thy ===== *)
theory Mail_Properties
  imports Smtp_User
begin

text \<open>
  What the e-mail client does with the replies of a server: the conversation that sends a message, what happens
  when TLS is refused, and the two ways in which it never ends.
\<close>

definition says :: "smtp_env \<Rightarrow> string \<Rightarrow> u32 \<Rightarrow> string \<Rightarrow> bool" where
  "says env inp code status \<longleftrightarrow> getSmtpStatusCode env inp = Inr \<lparr>m_reply = code, m_statusCode = status\<rparr>"

text \<open>One reply in each state, while the service is available and TLS is up or down.\<close>

definition smtp_put :: "string \<Rightarrow> smtp_user \<Rightarrow> smtp_user" where
  "smtp_put cmd u = u\<lparr>su_sent := su_sent u @ [(su_tls_up u, cmd)]\<rparr>"

definition smtp_ready :: "smtp_user \<Rightarrow> bool" where
  "smtp_ready u \<longleftrightarrow> su_available u \<and> su_client u \<and> su_writes u = [] \<and> (su_tls_up u \<longrightarrow> su_ssl u = SslUp)"

lemma smtp_put_fields [simp]:
  "su_state (smtp_put cmd u) = su_state u" "su_tls_up (smtp_put cmd u) = su_tls_up u"
  "su_sent (smtp_put cmd u) = su_sent u @ [(su_tls_up u, cmd)]" "su_available (smtp_put cmd u) = su_available u"
  "su_ssl (smtp_put cmd u) = su_ssl u" "su_connects (smtp_put cmd u) = su_connects u"
  by (simp_all add: smtp_put_def)

lemma smtp_ready_put [simp]:
  "smtp_ready (smtp_put cmd u) = smtp_ready u" "smtp_ready (u\<lparr>su_state := st\<rparr>) = smtp_ready u"
  by (simp_all add: smtp_ready_def smtp_put_def)

lemma dispatch_turn:
  assumes "smtp_ready u" and "onRx env inp (su_state u) = Inr turn"
    and "tn_status turn \<in> {GOTO_NEXT_STATE, REMAIN_IN_SAME_STATE} \<or> \<not> final"
  shows "smtp_dispatch env inp final u = Inr
    ((if tn_out turn = [] then u else smtp_put (tn_out turn) u)
      \<lparr>su_state := (if tn_status turn = GOTO_NEXT_STATE then tn_new_state turn else tn_active turn)\<rparr>)"
  using assms
  by (auto simp: smtp_dispatch_def tls_write_def client_tx_def smtp_ready_def smtp_put_def Let_def)

text \<open>A read of one reply that is not the go-ahead for TLS.\<close>

lemma read_turn:
  assumes "smtp_ready u" and "says env inp code status" and "code \<noteq> 220 \<or> status \<noteq> ''2.0.0''"
    and "onRx env inp (su_state u) = Inr turn"
    and "tn_status turn \<in> {GOTO_NEXT_STATE, REMAIN_IN_SAME_STATE} \<or> code \<noteq> 220"
  shows "smtp_main env (ReadBytes inp # rds) u = smtp_main env rds
    ((if tn_out turn = [] then u else smtp_put (tn_out turn) u)
      \<lparr>su_state := (if tn_status turn = GOTO_NEXT_STATE then tn_new_state turn else tn_active turn)\<rparr>)"
proof -
  have "smtp_handle_input env (ReadBytes inp) u = smtp_dispatch env inp (code = 220) u"
    using assms(1-3) by (auto simp: smtp_handle_input_def smtp_rx_def says_def smtp_ready_def)
  with dispatch_turn[OF assms(1,4)] assms(1,5) show ?thesis by (auto simp: smtp_ready_def)
qed

lemmas turn_defs = onRx_def greeting_response_def helo_response_def mail_response_def mail_command_def rcpt_response_def
  data_response_def body_response_def quit_response_def onUsername_def onPassword_def on_challenge_def onLoginSuccess_def
  smtp_go_def smtp_stay_def smtp_quiet_def says_def

lemma greeting_step:
  assumes "smtp_ready u" and "su_state u = ST_GREETING" and "says env inp 220 status" and "status \<noteq> ''2.0.0''"
  shows "smtp_main env (ReadBytes inp # rds) u = smtp_main env rds ((smtp_put (''EHLO gmail.com'' @ crlf) u)\<lparr>su_state := ST_HELO\<rparr>)"
  using read_turn[OF assms(1,3)] assms(2-4) by (simp add: turn_defs)

lemma helo_step:
  assumes "smtp_ready u" and "su_state u = ST_HELO" and "says env inp 250 status" and "smtp_find env inp ''STARTTLS'' = Inr True"
  shows "smtp_main env (ReadBytes inp # rds) u =
    smtp_main env rds ((smtp_put (''STARTTLS'' @ crlf) u)\<lparr>su_state := ST_MAIL AUTH_INIT\<rparr>)"
  using read_turn[OF assms(1,3)] assms(2-4) by (simp add: turn_defs)

lemma auth_step:
  assumes "smtp_ready u" and "su_state u = ST_MAIL AUTH_INIT" and "says env inp code status" and "code \<notin> {220, 535}"
  shows "smtp_main env (ReadBytes inp # rds) u =
    smtp_main env rds ((smtp_put (''AUTH LOGIN'' @ crlf) u)\<lparr>su_state := ST_MAIL AUTH_USRNAME\<rparr>)"
  using read_turn[OF assms(1,3)] assms(2-4) by (simp add: turn_defs)

text \<open>The two challenges of the login.\<close>

definition challenges :: "smtp_env \<Rightarrow> string \<Rightarrow> string \<Rightarrow> bool" where
  "challenges env inp what \<longleftrightarrow> (\<exists>c. says env inp 334 c \<and> c \<noteq> [] \<and> sx_b64_decode env c = Some what)"

lemma login_steps:
  assumes "smtp_ready u" and "su_state u = ST_MAIL AUTH_USRNAME"
    and "challenges env r1 ''Username:''" and "challenges env r2 ''Password:''"
    and "sx_b64_encode env (from_email (sx_account env)) = b64_user" and "b64_user \<noteq> []"
    and "sx_b64_encode env (from_password (sx_account env)) = b64_pass" and "b64_pass \<noteq> []"
  shows "smtp_main env (ReadBytes r1 # ReadBytes r2 # rds) u =
    smtp_main env rds ((smtp_put b64_pass (smtp_put b64_user u))\<lparr>su_state := ST_MAIL AUTH_SUCCESS\<rparr>)"
proof -
  obtain c1 c2 where c: "says env r1 334 c1" "c1 \<noteq> []" "sx_b64_decode env c1 = Some ''Username:''"
    "says env r2 334 c2" "c2 \<noteq> []" "sx_b64_decode env c2 = Some ''Password:''"
    using assms(3,4) by (auto simp: challenges_def)
  let ?u = "(smtp_put b64_user u)\<lparr>su_state := ST_MAIL AUTH_PASSWORD\<rparr>"
  have "smtp_main env (ReadBytes r1 # ReadBytes r2 # rds) u = smtp_main env (ReadBytes r2 # rds) ?u"
    using read_turn[OF assms(1) c(1), of _ "ReadBytes r2 # rds"] assms(2,5,6) c by (simp add: turn_defs)
  also have "\<dots> = smtp_main env rds ((smtp_put b64_pass ?u)\<lparr>su_state := ST_MAIL AUTH_SUCCESS\<rparr>)"
    using read_turn[OF _ c(4), of ?u _ rds] assms(1,7,8) c by (simp add: turn_defs)
  finally show ?thesis by (simp add: smtp_put_def)
qed

lemma tls_start_ready [simp]: "smtp_ready u \<Longrightarrow> su_connects u = [] \<Longrightarrow> smtp_ready (tls_start u)"
  "su_state (tls_start u) = su_state u"
  by (simp_all add: smtp_ready_def tls_start_def split: list.split)

text \<open>
  The reply 220 to STARTTLS: TLS is started only when the status code is 2.0.0; with any other text the client goes
  on to the login on the plain connection.
\<close>

definition after_starttls :: "string \<Rightarrow> smtp_user \<Rightarrow> smtp_user" where
  "after_starttls status u = (if status = ''2.0.0'' then tls_start u else u)"

lemma after_starttls_fields:
  assumes "smtp_ready u" and "\<not> su_tls_up u" and "su_connects u = []"
  shows "smtp_ready (after_starttls status u)" and "su_state (after_starttls status u) = su_state u"
    and "su_tls_up (after_starttls status u) = (status = ''2.0.0'')" and "su_sent (after_starttls status u) = su_sent u"
  using assms by (simp_all add: after_starttls_def tls_start_def smtp_ready_def)

lemma tls_step:
  assumes "smtp_ready u" and "\<not> su_tls_up u" and "su_connects u = []" and "su_state u = ST_MAIL AUTH_INIT" and "says env inp 220 status"
  shows "smtp_main env (ReadBytes inp # rds) u =
    smtp_main env rds ((smtp_put (''AUTH LOGIN'' @ crlf) (after_starttls status u))\<lparr>su_state := ST_MAIL AUTH_USRNAME\<rparr>)"
proof -
  let ?u = "after_starttls status u"
  note up = after_starttls_fields[OF assms(1-3), of status]
  have "smtp_handle_input env (ReadBytes inp) u = smtp_dispatch env inp True ?u"
    using assms(1,2,5) by (simp add: smtp_handle_input_def smtp_rx_def says_def smtp_ready_def after_starttls_def)
  also have "\<dots> = Inr ((smtp_put (''AUTH LOGIN'' @ crlf) ?u)\<lparr>su_state := ST_MAIL AUTH_USRNAME\<rparr>)"
    using dispatch_turn[OF up(1), of env inp _ True] up(2) assms(4,5) by (simp add: turn_defs)
  finally show ?thesis using assms(1) by (simp add: smtp_ready_def)
qed

text \<open>From the accepted login to the end of the session.\<close>

definition recipients :: "smtp_env \<Rightarrow> string" where
  "recipients env = concat (map (\<lambda>elm. ''RCPT TO: <'' @ elm @ ''>'' @ crlf) (to_email (sx_account env)))"

lemma mail_steps:
  assumes "smtp_ready u" and "su_state u = ST_MAIL AUTH_SUCCESS" and "says env r6 235 ''2.7.0''" and "says env r7 250 ''2.1.0''"
    and "says env r8 250 c8" and "says env r9 354 c9" and "says env r10 250 ''2.0.0''" and "says env r11 221 ''2.0.0''"
    and "to_email (sx_account env) \<noteq> []"
  shows "smtp_main env (ReadBytes r6 # ReadBytes r7 # ReadBytes r8 # ReadBytes r9 # ReadBytes r10 # ReadBytes r11 # rds) u =
    smtp_main env rds ((fold smtp_put [''MAIL FROM: <'' @ from_email (sx_account env) @ ''>'' @ crlf, recipients env,
      ''DATA'' @ crlf, build_mime_message env, ''QUIT'' @ crlf] u)\<lparr>su_state := ST_QUIT\<rparr>)"
proof -
  have ne: "recipients env \<noteq> []" "build_mime_message env \<noteq> []"
    using assms(9) by (cases "to_email (sx_account env)") (simp_all add: recipients_def build_mime_message_def Let_def)
  define u6 where "u6 = (smtp_put (''MAIL FROM: <'' @ from_email (sx_account env) @ ''>'' @ crlf) u)\<lparr>su_state := ST_RCPT\<rparr>"
  define u7 where "u7 = (smtp_put (recipients env) u6)\<lparr>su_state := ST_DATA\<rparr>"
  define u8 where "u8 = (smtp_put (''DATA'' @ crlf) u7)\<lparr>su_state := ST_BODY\<rparr>"
  define u9 where "u9 = (smtp_put (build_mime_message env) u8)\<lparr>su_state := ST_QUIT\<rparr>"
  define u10 where "u10 = (smtp_put (''QUIT'' @ crlf) u9)\<lparr>su_state := ST_QUIT\<rparr>"
  have st: "su_state u6 = ST_RCPT" "su_state u7 = ST_DATA" "su_state u8 = ST_BODY" "su_state u9 = ST_QUIT" "su_state u10 = ST_QUIT"
    by (simp_all add: u6_def u7_def u8_def u9_def u10_def)
  have rd: "smtp_ready u6" "smtp_ready u7" "smtp_ready u8" "smtp_ready u9" "smtp_ready u10"
    using assms(1) by (simp_all add: u6_def u7_def u8_def u9_def u10_def)
  have same: "u10\<lparr>su_state := ST_QUIT\<rparr> = u10" by (simp add: u10_def)
  have "smtp_main env (ReadBytes r6 # rds') u = smtp_main env rds' u6" for rds'
    using read_turn[OF assms(1,3)] assms(2,3) by (simp add: turn_defs u6_def)
  moreover have "smtp_main env (ReadBytes r7 # rds') u6 = smtp_main env rds' u7" for rds'
    using read_turn[OF rd(1) assms(4)] assms(4) st(1) ne(1) by (simp add: turn_defs u7_def recipients_def)
  moreover have "smtp_main env (ReadBytes r8 # rds') u7 = smtp_main env rds' u8" for rds'
    using read_turn[OF rd(2) assms(5)] assms(5) st(2) by (simp add: turn_defs u8_def)
  moreover have "smtp_main env (ReadBytes r9 # rds') u8 = smtp_main env rds' u9" for rds'
    using read_turn[OF rd(3) assms(6)] assms(6) st(3) ne(2) by (simp add: turn_defs u9_def)
  moreover have "smtp_main env (ReadBytes r10 # rds') u9 = smtp_main env rds' u10" for rds'
    using read_turn[OF rd(4) assms(7)] assms(7) st(4) by (simp add: turn_defs u10_def)
  moreover have "smtp_main env (ReadBytes r11 # rds') u10 = smtp_main env rds' u10" for rds'
    using read_turn[OF rd(5) assms(8)] assms(8) st(5) by (simp add: turn_defs same)
  ultimately show ?thesis
    by (simp add: u10_def u9_def u8_def u7_def u6_def smtp_put_def)
qed

section \<open>A message is sent\<close>

text \<open>
  C35: the conversation that sends a message.  The server greets with 220 (the status not 2.0.0), answers EHLO
  with a 250 that lists STARTTLS, STARTTLS with 220, the login with the challenges 334 for Username: and Password:
  and then 235 2.7.0, MAIL FROM with 250 2.1.0, all the recipients with one 250, DATA with 354, the message with
  250 2.0.0 and QUIT with 221 2.0.0; each reply arrives in one read, every write is taken and a TLS handshake that
  is started succeeds.  Then the client sends exactly the
  commands of the protocol in this order, the message last before QUIT.  EHLO and STARTTLS go in the clear;
  everything from the login on goes over TLS exactly when the reply to STARTTLS carries the status code 2.0.0: a
  server that says 220 with any other text, as in 220 Ready to start TLS, gets the login and the
  message in the clear.  After the status 2.0.0 the close of the connection releases the caller.
\<close>

theorem mail_is_sent:
  assumes "says env r1 220 c1" and "c1 \<noteq> ''2.0.0''" and "says env r2 250 c2" and "smtp_find env r2 ''STARTTLS'' = Inr True"
    and "says env r3 220 c3" and "challenges env r4 ''Username:''" and "challenges env r5 ''Password:''"
    and "says env r6 235 ''2.7.0''" and "says env r7 250 ''2.1.0''" and "says env r8 250 c8" and "says env r9 354 c9"
    and "says env r10 250 ''2.0.0''" and "says env r11 221 ''2.0.0''"
    and "sx_b64_encode env (from_email (sx_account env)) = b64_user" and "b64_user \<noteq> []"
    and "sx_b64_encode env (from_password (sx_account env)) = b64_pass" and "b64_pass \<noteq> []"
    and "to_email (sx_account env) \<noteq> []"
  shows "\<exists>u. smtp_main env (map ReadBytes [r1, r2, r3, r4, r5, r6, r7, r8, r9, r10, r11])
      (startEmailTransaction True (new_smtp_user [] [])) = Inr u \<and>
    su_sent u = map (Pair False) [''EHLO gmail.com'' @ crlf, ''STARTTLS'' @ crlf] @
      map (Pair (c3 = ''2.0.0'')) [''AUTH LOGIN'' @ crlf, b64_user, b64_pass,
        ''MAIL FROM: <'' @ from_email (sx_account env) @ ''>'' @ crlf, recipients env, ''DATA'' @ crlf,
        build_mime_message env, ''QUIT'' @ crlf] \<and>
    (c3 = ''2.0.0'' \<longrightarrow>
      (\<exists>v. smtp_main env (map ReadBytes [r1, r2, r3, r4, r5, r6, r7, r8, r9, r10, r11] @ [ReadEof])
        (startEmailTransaction True (new_smtp_user [] [])) = Inr v \<and> \<not> su_available v \<and> su_sent v = su_sent u))"
proof -
  define u0 where "u0 = startEmailTransaction True (new_smtp_user [] [])"
  define u1 where "u1 = (smtp_put (''EHLO gmail.com'' @ crlf) u0)\<lparr>su_state := ST_HELO\<rparr>"
  define u2 where "u2 = (smtp_put (''STARTTLS'' @ crlf) u1)\<lparr>su_state := ST_MAIL AUTH_INIT\<rparr>"
  define u3 where "u3 = (smtp_put (''AUTH LOGIN'' @ crlf) (after_starttls c3 u2))\<lparr>su_state := ST_MAIL AUTH_USRNAME\<rparr>"
  define u5 where "u5 = (smtp_put b64_pass (smtp_put b64_user u3))\<lparr>su_state := ST_MAIL AUTH_SUCCESS\<rparr>"
  define u11 where "u11 = (fold smtp_put [''MAIL FROM: <'' @ from_email (sx_account env) @ ''>'' @ crlf, recipients env,
      ''DATA'' @ crlf, build_mime_message env, ''QUIT'' @ crlf] u5)\<lparr>su_state := ST_QUIT\<rparr>"
  have ready: "smtp_ready u0" "smtp_ready u1" "smtp_ready u2"
    by (simp_all add: u1_def u2_def) (simp_all add: u0_def startEmailTransaction_def new_smtp_user_def smtp_ready_def)
  have st: "su_state u0 = ST_GREETING" "su_state u1 = ST_HELO" "su_state u2 = ST_MAIL AUTH_INIT" "su_state u3 = ST_MAIL AUTH_USRNAME"
    "su_state u5 = ST_MAIL AUTH_SUCCESS" "\<not> su_tls_up u2" "su_connects u2 = []"
    by (simp_all add: u0_def u1_def u2_def u3_def u5_def startEmailTransaction_def new_smtp_user_def)
  note tls = after_starttls_fields[OF ready(3) st(6,7), of c3]
  have ready_tls: "smtp_ready u3" "smtp_ready u5" "smtp_ready u11"
    using tls(1) by (simp_all add: u3_def u5_def u11_def)
  have "smtp_main env (map ReadBytes [r1, r2, r3, r4, r5, r6, r7, r8, r9, r10, r11] @ rds) u0 =
      smtp_main env (map ReadBytes [r4, r5, r6, r7, r8, r9, r10, r11] @ rds) u3" for rds
    using greeting_step[OF ready(1) st(1) assms(1,2)] helo_step[OF ready(2) st(2) assms(3,4)]
      tls_step[OF ready(3) st(6,7,3) assms(5)] by (simp add: u1_def u2_def u3_def del: smtp_main.simps)
  also have "\<dots> rds = smtp_main env (map ReadBytes [r6, r7, r8, r9, r10, r11] @ rds) u5" for rds
    using login_steps[OF ready_tls(1) st(4) assms(6,7,14-17)] by (simp add: u5_def del: smtp_main.simps)
  also have "\<dots> rds = smtp_main env rds u11" for rds
    using mail_steps[OF ready_tls(2) st(5) assms(8-13,18)] by (simp add: u11_def del: smtp_main.simps)
  finally have run: "smtp_main env (map ReadBytes [r1, r2, r3, r4, r5, r6, r7, r8, r9, r10, r11] @ rds) u0 = smtp_main env rds u11" for rds .
  have sent: "su_sent u11 = map (Pair False) [''EHLO gmail.com'' @ crlf, ''STARTTLS'' @ crlf] @
      map (Pair (c3 = ''2.0.0'')) [''AUTH LOGIN'' @ crlf, b64_user, b64_pass,
        ''MAIL FROM: <'' @ from_email (sx_account env) @ ''>'' @ crlf, recipients env, ''DATA'' @ crlf,
        build_mime_message env, ''QUIT'' @ crlf]"
    by (simp add: u11_def u5_def u3_def tls) (simp add: u2_def u1_def u0_def startEmailTransaction_def new_smtp_user_def)
  have up: "su_tls_up u11 = (c3 = ''2.0.0'')"
    by (simp add: u11_def u5_def u3_def tls)
  have eof: "\<exists>v. smtp_main env [ReadEof] u11 = Inr v \<and> \<not> su_available v \<and> su_sent v = su_sent u11" if "c3 = ''2.0.0''"
    using that ready_tls(3) up by (auto simp: smtp_handle_input_def smtp_ready_def endEmailTransaction_def)
  show ?thesis
    unfolding u0_def[symmetric]
    using run[of "[]"] run[of "[ReadEof]"] sent eof by (intro exI[of _ u11]) (simp del: smtp_main.simps(2))
qed

section \<open>TLS refused\<close>

text \<open>
  C36: a server, or anyone between, that answers STARTTLS with any reply but 220 or 535 gets the
  login in the clear, the password included: the client goes on in the state behind STARTTLS without looking
  whether TLS is up.
\<close>

theorem refused_tls_leaks_password:
  assumes "says env r1 220 c1" and "c1 \<noteq> ''2.0.0''" and "says env r2 250 c2" and "smtp_find env r2 ''STARTTLS'' = Inr True"
    and "says env r3 code c3" and "code \<notin> {220, 535}" and "challenges env r4 ''Username:''" and "challenges env r5 ''Password:''"
    and "sx_b64_encode env (from_email (sx_account env)) = b64_user" and "b64_user \<noteq> []"
    and "sx_b64_encode env (from_password (sx_account env)) = b64_pass" and "b64_pass \<noteq> []"
  shows "\<exists>u. smtp_main env (map ReadBytes [r1, r2, r3, r4, r5]) (startEmailTransaction True (new_smtp_user [] [])) = Inr u \<and>
    su_sent u = [(False, ''EHLO gmail.com'' @ crlf), (False, ''STARTTLS'' @ crlf), (False, ''AUTH LOGIN'' @ crlf),
      (False, b64_user), (False, b64_pass)]"
proof -
  define u0 where "u0 = startEmailTransaction True (new_smtp_user [] [])"
  define u1 where "u1 = (smtp_put (''EHLO gmail.com'' @ crlf) u0)\<lparr>su_state := ST_HELO\<rparr>"
  define u2 where "u2 = (smtp_put (''STARTTLS'' @ crlf) u1)\<lparr>su_state := ST_MAIL AUTH_INIT\<rparr>"
  define u3 where "u3 = (smtp_put (''AUTH LOGIN'' @ crlf) u2)\<lparr>su_state := ST_MAIL AUTH_USRNAME\<rparr>"
  have ready: "smtp_ready u0" "smtp_ready u1" "smtp_ready u2" "smtp_ready u3"
    by (simp_all add: u1_def u2_def u3_def) (simp_all add: u0_def startEmailTransaction_def new_smtp_user_def smtp_ready_def)
  have st: "su_state u0 = ST_GREETING" "su_state u1 = ST_HELO" "su_state u2 = ST_MAIL AUTH_INIT" "su_state u3 = ST_MAIL AUTH_USRNAME"
    by (simp_all add: u0_def u1_def u2_def u3_def startEmailTransaction_def)
  have "smtp_main env (map ReadBytes [r1, r2, r3, r4, r5]) u0 = smtp_main env (map ReadBytes [r4, r5]) u3"
    using greeting_step[OF ready(1) st(1) assms(1,2)] helo_step[OF ready(2) st(2) assms(3,4)]
      auth_step[OF ready(3) st(3) assms(5,6)] by (simp add: u1_def u2_def u3_def del: smtp_main.simps)
  with login_steps[OF ready(4) st(4) assms(7-12), of "[]"] show ?thesis
    by (simp add: u0_def[symmetric] del: smtp_main.simps(2))
      (simp add: u3_def u2_def u1_def u0_def smtp_put_def startEmailTransaction_def new_smtp_user_def)
qed

section \<open>Logins that never end\<close>

text \<open>
  A server that turns each login down with a reply other than 220, 235 and 535, and answers RSET with any but 220
  and 535, is sent the credentials again and again; the client stays available, so that its caller never returns.
\<close>

theorem refused_login_repeats:
  assumes "says env bad c b" and "c \<notin> {220, 235, 535}" and "says env ok d e" and "d \<notin> {220, 535}"
    and "challenges env r4 ''Username:''" and "challenges env r5 ''Password:''"
    and "sx_b64_encode env (from_email (sx_account env)) = b64_user" and "b64_user \<noteq> []"
    and "sx_b64_encode env (from_password (sx_account env)) = b64_pass" and "b64_pass \<noteq> []"
    and "smtp_ready u" and "su_state u = ST_MAIL AUTH_SUCCESS"
  shows "smtp_main env (concat (replicate n (map ReadBytes [bad, ok, r4, r5]))) u = Inr
    (u\<lparr>su_sent := su_sent u @ concat (replicate n
      (map (Pair (su_tls_up u)) [''RSET'' @ crlf, ''AUTH LOGIN'' @ crlf, b64_user, b64_pass]))\<rparr>)"
  using assms(11,12)
proof (induction n arbitrary: u)
  case (Suc n)
  define u1 where "u1 = (smtp_put (''RSET'' @ crlf) u)\<lparr>su_state := ST_MAIL AUTH_INIT\<rparr>"
  define u2 where "u2 = (smtp_put (''AUTH LOGIN'' @ crlf) u1)\<lparr>su_state := ST_MAIL AUTH_USRNAME\<rparr>"
  define u3 where "u3 = (smtp_put b64_pass (smtp_put b64_user u2))\<lparr>su_state := ST_MAIL AUTH_SUCCESS\<rparr>"
  let ?rest = "concat (replicate n (map ReadBytes [bad, ok, r4, r5]))"
  have ready: "smtp_ready u1" "smtp_ready u2" "smtp_ready u3" "su_tls_up u3 = su_tls_up u"
    "su_state u1 = ST_MAIL AUTH_INIT" "su_state u2 = ST_MAIL AUTH_USRNAME" "su_state u3 = ST_MAIL AUTH_SUCCESS"
    using Suc.prems(1) by (simp_all add: u1_def u2_def u3_def)
  have "smtp_main env (ReadBytes bad # rds) u = smtp_main env rds u1" for rds
    using read_turn[OF Suc.prems(1) assms(1)] assms(1,2) Suc.prems(2) by (simp add: turn_defs u1_def)
  then have "smtp_main env (map ReadBytes [bad, ok, r4, r5] @ ?rest) u = smtp_main env ?rest u3"
    using auth_step[OF ready(1,5) assms(3,4)] login_steps[OF ready(2,6) assms(5-10)]
    by (simp add: u2_def u3_def del: smtp_main.simps)
  then show ?case
    using Suc.IH[OF ready(3,7)] Suc.prems(2)
    by (simp add: ready(4) del: smtp_main.simps) (simp add: u3_def u2_def u1_def smtp_put_def)
qed simp

text \<open>A write over TLS on a dead connection does not return.\<close>

lemma tls_write_returns:
  assumes "tls_write_loop wr k offset len = Some r"
  shows "(\<forall>j. wr j \<le> 0) \<longrightarrow> offset = len"
proof (rule tls_write_loop.raw_induct[where P = "\<lambda>wr k offset len r. (\<forall>j. wr j \<le> 0) \<longrightarrow> offset = len", OF _ assms])
  fix loop wr k offset len r
  assume IH: "\<And>wr k offset len r. loop wr k offset len = Some r \<Longrightarrow> (\<forall>j. wr j \<le> (0 :: int)) \<longrightarrow> offset = (len :: int)"
    and body: "(let rc = wr k; offset' = (if rc \<le> 0 then offset else offset + rc)
      in if offset' \<noteq> len then loop wr (Suc k) offset' len else Some rc) = Some (r :: int)"
  show "(\<forall>j. wr j \<le> 0) \<longrightarrow> offset = len"
  proof (intro impI, rule ccontr)
    assume dead: "\<forall>j. wr j \<le> 0" and ne: "offset \<noteq> len"
    with body have "loop wr (Suc k) offset len = Some r" by (simp add: Let_def)
    from IH[OF this] dead ne show False by blast
  qed
qed

lemma tls_write_dead: "(\<And>k. wr k \<le> 0) \<Longrightarrow> 0 < len \<Longrightarrow> tls_write_loop wr k 0 len = None"
  using tls_write_returns[of wr k 0 len] by (cases "tls_write_loop wr k 0 len") auto

text \<open>A reply that arrives in two pieces is read as two replies; a first piece without a blank has no entry.\<close>

lemma split_reply_faults:
  assumes "sx_entries env [] = []" and "\<forall>c \<in> set inp. c \<noteq> CHR '' '' \<and> c \<noteq> CHR ''-''" and "\<not> su_tls_up u"
  shows "smtp_handle_input env (ReadBytes inp) u = Inl SmtpNullReply"
proof -
  have "parseSmtpCommand elm inp = Inr []" for elm
    using assms(2) by (induction inp arbitrary: elm) auto
  with assms(1,3) show ?thesis
    by (simp add: smtp_handle_input_def smtp_rx_def getSmtpStatusCode_def smtp_entries_def)
qed

section \<open>What a message contains\<close>

text \<open>
  A file of the server that a request names is mailed, and the attachments of one request stay for the next that has
  none.
\<close>

lemma part_left: "\<exists>a b. y = a @ c @ b \<Longrightarrow> \<exists>a b. x @ y = a @ c @ b"
  by (metis append.assoc)

lemma part_right: "\<exists>a b. x = a @ c @ b \<Longrightarrow> \<exists>a b. x @ y = a @ c @ b"
  by (metis append.assoc)

lemma part_self: "\<exists>a b. c @ y = a @ c @ b"
  by (metis append_Nil)

lemma server_file_attached:
  assumes "(fname, given) \<in> set (attachment (sx_account env))" and "fname \<noteq> []" and "sx_read_file env fname = Some contents"
  shows "\<exists>a b. build_mime_message env = a @ sx_b64_encode env contents @ b"
proof -
  obtain as bs where l: "attachment (sx_account env) = as @ (fname, given) # bs" using assms(1) by (meson split_list)
  have part: "\<exists>a b. attachment_part ty fname n c = a @ c @ b" for ty n c
    unfolding attachment_part_def by (rule part_self part_left)+
  then have one: "\<exists>a b. attachment_text env (fname, given) = a @ sx_b64_encode env contents @ b"
    using assms(2,3) by (simp add: attachment_text_def Let_def)
  have all: "\<exists>a b. concat (map (attachment_text env) (attachment (sx_account env))) = a @ sx_b64_encode env contents @ b"
    unfolding l map_append concat_append list.map concat.simps by (rule part_left, rule part_right, rule one)
  have "attachment (sx_account env) \<noteq> []" using l by simp
  then have ne: "(attachment (sx_account env) = []) = False" by simp
  show ?thesis
    unfolding build_mime_message_def Let_def ne if_False
    by (rule part_left, rule part_right, rule part_left, rule part_left, rule part_left, rule part_left, rule part_left,
        rule part_right, rule all)
qed

lemma attachments_stay:
  assumes "er_files first \<noteq> []" and "er_files second = []"
  shows "attachment (fill_account second (fill_account first acc)) = er_files first"
  using assms by (simp add: fill_account_def Let_def)

section \<open>Witnesses\<close>

definition toy_mail_env :: smtp_env where
  "toy_mail_env = \<lparr>sx_entries = map fst, sx_b64_encode = (\<lambda>x. x @ ''=''), sx_b64_decode = Some, sx_read_file = (\<lambda>_. None),
     sx_date = [CHR 0x0A], sx_account = \<lparr>from_name = ''n'', from_email = ''f'', from_password = ''p'', to_email = [''t''],
       email_subject = ''s'', email_body = ''b'', attachment = []\<rparr>\<rparr>"

definition reply_line :: "string \<Rightarrow> string" where
  "reply_line r = r @ crlf"

lemmas reply_defs = says_def challenges_def getSmtpStatusCode_def smtp_entries_def smtp_find_def toy_mail_env_def reply_line_def
  crlf_def in_status_def stoi_def is_space_def is_digit_def

lemma toy_replies:
  "says toy_mail_env (reply_line ''220 h'') 220 ''h''" "says toy_mail_env (reply_line ''250-STARTTLS'') 250 ''STARTTLS''"
  "smtp_find toy_mail_env (reply_line ''250-STARTTLS'') ''STARTTLS'' = Inr True"
  "says toy_mail_env (reply_line ''220 2.0.0 go'') 220 ''2.0.0''" "says toy_mail_env (reply_line ''454 no'') 454 ''no''"
  "challenges toy_mail_env (reply_line ''334 Username:'') ''Username:''"
  "challenges toy_mail_env (reply_line ''334 Password:'') ''Password:''"
  "says toy_mail_env (reply_line ''235 2.7.0'') 235 ''2.7.0''" "says toy_mail_env (reply_line ''250 2.1.0'') 250 ''2.1.0''"
  "says toy_mail_env (reply_line ''250 2.1.5'') 250 ''2.1.5''" "says toy_mail_env (reply_line ''354 x'') 354 ''x''"
  "says toy_mail_env (reply_line ''220 Ready'') 220 ''Ready''"
  "says toy_mail_env (reply_line ''250 2.0.0'') 250 ''2.0.0''" "says toy_mail_env (reply_line ''221 2.0.0'') 221 ''2.0.0''"
  by (simp_all add: reply_defs)

theorem mail_is_sent_witness:
  "(\<exists>u. smtp_main toy_mail_env (map (\<lambda>r. ReadBytes (reply_line r)) [''220 h'', ''250-STARTTLS'', ''220 2.0.0 go'', ''334 Username:'',
      ''334 Password:'', ''235 2.7.0'', ''250 2.1.0'', ''250 2.1.5'', ''354 x'', ''250 2.0.0'', ''221 2.0.0''] @ [ReadEof])
      (startEmailTransaction True (new_smtp_user [] [])) = Inr u \<and> \<not> su_available u \<and> length (su_sent u) = 10 \<and> (True, ''p='') \<in> set (su_sent u)) \<and>
   (\<exists>u. smtp_main toy_mail_env (map (\<lambda>r. ReadBytes (reply_line r)) [''220 h'', ''250-STARTTLS'', ''220 Ready'', ''334 Username:'',
      ''334 Password:'', ''235 2.7.0'', ''250 2.1.0'', ''250 2.1.5'', ''354 x'', ''250 2.0.0'', ''221 2.0.0''])
      (startEmailTransaction True (new_smtp_user [] [])) = Inr u \<and> (False, ''p='') \<in> set (su_sent u))"
  using mail_is_sent[OF toy_replies(1) _ toy_replies(2,3,4,6,7,8,9,10,11,13,14) refl _ refl]
    mail_is_sent[OF toy_replies(1) _ toy_replies(2,3,12,6,7,8,9,10,11,13,14) refl _ refl]
  by (auto simp: toy_mail_env_def simp del: smtp_main.simps)

theorem refused_tls_leaks_password_witness:
  "\<exists>u. smtp_main toy_mail_env (map (\<lambda>r. ReadBytes (reply_line r)) [''220 h'', ''250-STARTTLS'', ''454 no'', ''334 Username:'',
      ''334 Password:'']) (startEmailTransaction True (new_smtp_user [] [])) = Inr u \<and> (False, ''p='') \<in> set (su_sent u)"
  using refused_tls_leaks_password[OF toy_replies(1) _ toy_replies(2,3,5) _ toy_replies(6,7) refl _ refl]
  by (fastforce simp: toy_mail_env_def simp del: smtp_main.simps)

theorem refused_login_repeats_witness:
  "smtp_main toy_mail_env (concat (replicate 5 (map (\<lambda>r. ReadBytes (reply_line r)) [''454 no'', ''250 2.0.0'', ''334 Username:'', ''334 Password:''])))
     ((startEmailTransaction True (new_smtp_user [] []))\<lparr>su_state := ST_MAIL AUTH_SUCCESS\<rparr>) = Inr
     ((startEmailTransaction True (new_smtp_user [] []))\<lparr>su_state := ST_MAIL AUTH_SUCCESS,
        su_sent := concat (replicate 5 [(False, ''RSET'' @ crlf), (False, ''AUTH LOGIN'' @ crlf), (False, ''f=''), (False, ''p='')])\<rparr>)"
  using refused_login_repeats[OF toy_replies(5) _ toy_replies(13) _ toy_replies(6,7) refl _ refl,
      of "(startEmailTransaction True (new_smtp_user [] []))\<lparr>su_state := ST_MAIL AUTH_SUCCESS\<rparr>" 5]
  by (simp add: smtp_ready_def startEmailTransaction_def new_smtp_user_def toy_mail_env_def del: smtp_main.simps replicate.simps)

end
