(* ===== verification/Web_Legacy.thy ===== *)
theory Web_Legacy
  imports Web_Server Smtp_User
begin

text \<open>
  The handlers that the web service inherited from a parcel-tracking product (\<^verbatim>\<open>MicroService::handle_GET\<close>, \<^verbatim>\<open>POST\<close>, \<^verbatim>\<open>PUT\<close>,
  \<^verbatim>\<open>DELETE\<close> and \<^verbatim>\<open>OPTIONS\<close> of \<^verbatim>\<open>webservice.cpp\<close>): accounts, shipments, inventory, documents, e-mail and the files of the user
  interface.  They run when no PBX route took the request.

  Each handler of the source parses the request text again; parsing is a function of that text, so the
  model's handlers take the parsed request.  The keys of a JSON object are listed in the order of the source; the
  order \<^verbatim>\<open>dump\<close> prints them in is the library's.  \<^verbatim>\<open>bsoncxx::from_json\<close> and reading a file are parameters.
\<close>

section \<open>Responses\<close>

definition keep_alive_lines :: "string list" where
  "keep_alive_lines = [''Connection: keep-alive'', ''Keep-Alive: timeout=5, max=100'', ''Access-Control-Allow-Origin: *'']"

definition http_build_created :: string where
  "http_build_created = unlines ([''HTTP/1.1 201 Created''] @ keep_alive_lines @ [''Content-Length: 0'']) @ crlf"

definition http_build_ok :: "string \<Rightarrow> string \<Rightarrow> string \<Rightarrow> string" where
  "http_build_ok body contentType cacheControl =
     unlines ([''HTTP/1.1 200 OK''] @ keep_alive_lines @
       (if body \<noteq> [] then [''Content-Length: '' @ dec_string (length body), ''Content-Type: '' @ contentType]
        else [''Content-Length: 0'']) @
       (if cacheControl \<noteq> [] then [''Cache-Control: '' @ cacheControl] else [])) @ crlf @ body"

definition http_build_error :: "string \<Rightarrow> string \<Rightarrow> string" where
  "http_build_error body status =
     unlines ([''HTTP/1.1 '' @ status @ '' ''] @ keep_alive_lines @
       (if body \<noteq> [] then [''Content-Length: '' @ dec_string (length body), ''Content-Type: application/json'']
        else [''Content-Length: 0''])) @ crlf @ body"

abbreviation build_responseOK :: "string \<Rightarrow> string" where
  "build_responseOK body \<equiv> http_build_ok body ''application/json'' []"

abbreviation build_responseERROR :: "string \<Rightarrow> string \<Rightarrow> string" where
  "build_responseERROR \<equiv> http_build_error"

definition handle_OPTIONS :: string where
  "handle_OPTIONS =
     unlines
       [''HTTP/1.1 200 OK'', ''Access-Control-Allow-Methods: GET, POST, OPTIONS, PUT, DELETE'',
        ''Access-Control-Allow-Headers: DNT, User-Agent, X-Requested-With, If-Modified-Since, Cache-Control, Content-Type, Range'',
        ''Access-Control-Max-Age: 1728000'', ''Access-Control-Allow-Origin: *'',
        ''Content-Type: text/plain; charset=utf-8'', ''Content-Length: 0''] @ crlf @ crlf"

text \<open>\<^verbatim>\<open>err.dump()\<close> of the object most handlers answer with.\<close>

definition failure_json :: "string \<Rightarrow> int \<Rightarrow> json" where
  "failure_json cause code = JObject [(''status'', JString ''failure''), (''cause'', JString cause), (''error'', JInt code)]"

definition fail_with :: "service_env \<Rightarrow> string \<Rightarrow> int \<Rightarrow> string \<Rightarrow> ('s, string) effect" where
  "fail_with env cause code status =
     eff_bind (json_dump env (failure_json cause code)) (\<lambda>t. eff_return (build_responseERROR t status))"

abbreviation bad_request :: "service_env \<Rightarrow> string \<Rightarrow> ('s, string) effect" where
  "bad_request env cause \<equiv> fail_with env cause 400 ''400 Bad Request''"

abbreviation not_found :: "service_env \<Rightarrow> string \<Rightarrow> ('s, string) effect" where
  "not_found env cause \<equiv> fail_with env cause 404 ''404 Not Found''"

definition success :: "service_env \<Rightarrow> ('s, string) effect" where
  "success env = eff_bind (json_dump env (JObject [(''status'', JString ''success'')])) (\<lambda>t. eff_return (build_responseOK t))"

definition oid_text :: "string \<Rightarrow> string" where
  "oid_text oid = ''{\"oid\" : \"'' @ oid @ ''\"}''"

section \<open>JSON\<close>

text \<open>\<^verbatim>\<open>j[key] = v\<close> and \<^verbatim>\<open>j.erase(key)\<close> on an object; other values are left alone, and no caller passes one.\<close>

fun j_put :: "string \<Rightarrow> json \<Rightarrow> json \<Rightarrow> json" where
  "j_put key v (JObject kvs) = JObject (AList.update key v kvs)"
| "j_put key v j = j"

fun j_erase :: "string \<Rightarrow> json \<Rightarrow> json" where
  "j_erase key (JObject kvs) = JObject (AList.delete key kvs)"
| "j_erase key j = j"

definition j_put_if :: "string \<Rightarrow> string \<Rightarrow> json \<Rightarrow> json" where
  "j_put_if key v j = (if v \<noteq> [] then j_put key (JString v) j else j)"

abbreviation no_id :: json where "no_id \<equiv> JObject [(''_id'', JBool False)]"

text \<open>The lambda \<^verbatim>\<open>csv_to_array\<close>, which two handlers have.\<close>

definition csv_to_array :: "string \<Rightarrow> json" where
  "csv_to_array csv = JArray (map JString (split_fields csv))"

abbreviation in_list :: "string \<Rightarrow> json" where
  "in_list csv \<equiv> JObject [(''$in'', csv_to_array csv)]"

text \<open>A JSON body with its secrets masked, for the log.\<close>

definition kSecretKeys :: "string list" where
  "kSecretKeys = [''password'', ''accountPassword'', ''newPassword'', ''currentPassword'', ''passwordHash'']"

fun is_jstring :: "json \<Rightarrow> bool" where
  "is_jstring (JString _) = True"
| "is_jstring _ = False"

fun redact_walk :: "json \<Rightarrow> json" where
  "redact_walk (JObject kvs) =
     JObject (map (\<lambda>(k, v). (k, if k \<in> set kSecretKeys \<and> is_jstring v then JString ''***'' else redact_walk v)) kvs)"
| "redact_walk (JArray js) = JArray (map redact_walk js)"
| "redact_walk j = j"

definition redact_for_log :: "service_env \<Rightarrow> string \<Rightarrow> ('s, string) effect" where
  "redact_for_log env content =
     (case js_parse (sv_json env) content of
        None \<Rightarrow> eff_return content
      | Some body \<Rightarrow> json_dump env (redact_walk body))"

text \<open>Masking leaves no other string at a secret key, at any depth.\<close>

fun exposes :: "json \<Rightarrow> bool" where
  "exposes (JObject kvs) =
     (\<exists>kv \<in> set kvs. (fst kv \<in> set kSecretKeys \<and> is_jstring (snd kv) \<and> snd kv \<noteq> JString ''***'') \<or> exposes (snd kv))"
| "exposes (JArray js) = (\<exists>j \<in> set js. exposes j)"
| "exposes j = False"

lemma redact_walk_string [simp]: "is_jstring (redact_walk j) \<longleftrightarrow> is_jstring j"
  by (cases j) simp_all

lemma redact_walk_hides: "\<not> exposes (redact_walk j)"
proof (induction j rule: redact_walk.induct)
  case (1 kvs)
  have "\<not> exposes (redact_walk v)" if "(k, v) \<in> set kvs" "\<not> (k \<in> set kSecretKeys \<and> is_jstring v)" for k v
    using 1[OF that(1) refl] that(2) by simp
  then show ?case by (fastforce split: if_splits)
qed auto

section \<open>Values of a BSON document\<close>

text \<open>
  \<^verbatim>\<open>bsoncxx::from_json\<close> gives the document as a JSON value, or throws.  Text goes through \<^verbatim>\<open>c_str()\<close> and \<^verbatim>\<open>data()\<close>, where it
  ends at a zero byte.
\<close>

datatype json_extract = Monostate | ExtString string | ExtStrVec "string list" | ExtDocList "(string \<times> string) list"

type_synonym bson_parser = "string \<Rightarrow> json option"

text \<open>\<^verbatim>\<open>get_utf8\<close> throws on an element that is missing or of another type.\<close>

definition utf8_element :: "json \<Rightarrow> string \<Rightarrow> cpp_exn + string" where
  "utf8_element doc key = (case j_get_string doc key of Some v \<Rightarrow> Inr v | None \<Rightarrow> Inl RuntimeError)"

fun doc_pairs :: "json list \<Rightarrow> cpp_exn + (string \<times> string) list" where
  "doc_pairs [] = Inr []"
| "doc_pairs (e # es) =
     (if \<not> j_is_object e then doc_pairs es
      else case utf8_element e ''file-name'' of
             Inl x \<Rightarrow> Inl x
           | Inr name \<Rightarrow>
               (case utf8_element e ''file-content'' of
                  Inl x \<Rightarrow> Inl x
                | Inr data \<Rightarrow>
                    (case doc_pairs es of Inl x \<Rightarrow> Inl x | Inr ps \<Rightarrow> Inr ((c_str name, c_str data) # ps))))"

fun utf8_entries :: "json list \<Rightarrow> string list" where
  "utf8_entries [] = []"
| "utf8_entries (JString v # es) = v # utf8_entries es"
| "utf8_entries (_ # es) = utf8_entries es"

fun extract_array :: "json list \<Rightarrow> cpp_exn + json_extract" where
  "extract_array [] = Inr (ExtStrVec [])"
| "extract_array (JString v # es) = Inr (ExtStrVec (utf8_entries (JString v # es)))"
| "extract_array (JObject kvs # es) =
     (case doc_pairs (JObject kvs # es) of Inl x \<Rightarrow> Inl x | Inr ps \<Rightarrow> Inr (ExtDocList ps))"
| "extract_array (_ # es) = Inr Monostate"

definition from_json :: "bson_parser \<Rightarrow> string \<Rightarrow> string \<Rightarrow> cpp_exn + json_extract" where
  "from_json bson json_obj key =
     (case bson (c_str json_obj) of
        None \<Rightarrow> Inl RuntimeError
      | Some doc \<Rightarrow>
          (case j_get doc key of
             Some (JString v) \<Rightarrow> Inr (ExtString v)
           | Some (JArray es) \<Rightarrow> extract_array es
           | _ \<Rightarrow> Inr Monostate))"

definition get_access_token_for_ajoul :: "bson_parser \<Rightarrow> string \<Rightarrow> cpp_exn + string" where
  "get_access_token_for_ajoul bson json_obj =
     (case bson (c_str json_obj) of
        None \<Rightarrow> Inl RuntimeError
      | Some doc \<Rightarrow> Inr (case j_get_string doc ''access_token'' of Some v \<Rightarrow> v | None \<Rightarrow> []))"

text \<open>The number and the reference, which are only logged.\<close>

definition get_tracking_no_for_ajoul :: "bson_parser \<Rightarrow> string \<Rightarrow> cpp_exn + string \<times> string" where
  "get_tracking_no_for_ajoul bson json_obj =
     (case bson (c_str json_obj) of
        None \<Rightarrow> Inl RuntimeError
      | Some doc \<Rightarrow>
          (case j_get doc ''Shipment'' of
             None \<Rightarrow> Inr ([], [])
           | Some tt \<Rightarrow>
               if \<not> j_is_object tt then Inl RuntimeError
               else case utf8_element tt ''reference'' of
                      Inl x \<Rightarrow> Inl x
                    | Inr ref \<Rightarrow>
                        Inr (case j_get_string doc ''TrackingNumber'' of Some v \<Rightarrow> v | None \<Rightarrow> [], ref)))"

definition extract_string :: "bson_parser \<Rightarrow> string \<Rightarrow> string \<Rightarrow> string \<Rightarrow> ('s, string) effect" where
  "extract_string bson content key dflt =
     eff_bind (eff_sum (from_json bson content key)) (\<lambda>v.
     eff_return (case v of ExtString p \<Rightarrow> p | _ \<Rightarrow> dflt))"

end
