(* ===== verification/Web_Handlers.thy ===== *)
theory Web_Handlers
  imports Web_Legacy
begin

text \<open>
  The inherited handlers themselves, method by method, over the database calls and, for the e-mail and the courier's
  service, over the state of the worker.
\<close>

section \<open>Accounts\<close>

text \<open>
  A plain-text password of the body is replaced by its hash before the document is stored.
\<close>

definition account_secret :: "json \<Rightarrow> (json \<times> string) option" where
  "account_secret body =
     (case j_get_object body ''loginCredentials'' of
        None \<Rightarrow> None
      | Some lc \<Rightarrow> (case j_get_string lc ''accountPassword'' of None \<Rightarrow> None | Some plain \<Rightarrow> Some (lc, plain)))"

definition hashed_account :: "json \<Rightarrow> json \<Rightarrow> string \<Rightarrow> json" where
  "hashed_account body lc hash =
     j_put ''loginCredentials'' (j_erase ''accountPassword'' (j_put ''passwordHash'' (JString hash) lc)) body"

definition account_content :: "service_env \<Rightarrow> string \<Rightarrow> ('a, string) db_effect" where
  "account_content env content =
     eff_catch
       (eff_bind (json_parse env content) (\<lambda>body.
        case account_secret body of
          None \<Rightarrow> eff_return content
        | Some (lc, plain) \<Rightarrow>
            eff_bind (hash_password env plain) (\<lambda>hash. json_dump env (hashed_account body lc hash))))
       (eff_return content)"

text \<open>The text for the log is computed before anything else and may throw.\<close>

definition create_account :: "service_env \<Rightarrow> http \<Rightarrow> ('a, string) db_effect" where
  "create_account env http =
     eff_bind (redact_for_log env (m_body http)) (\<lambda>log_body.
     if m_body http = [] then eff_return []
     else eff_bind (account_content env (m_body http)) (\<lambda>content.
          eff_bind (db_text env (CreateDocument ''account'' content)) (\<lambda>oid.
          eff_return (if oid \<noteq> [] then build_responseOK (oid_text oid) else []))))"

definition credentials :: "json \<Rightarrow> string \<times> string" where
  "credentials body =
     (case j_get_string body ''userId'' of Some v \<Rightarrow> v | None \<Rightarrow> [],
      case j_get_string body ''password'' of Some v \<Rightarrow> v | None \<Rightarrow> [])"

definition account_filter :: "string \<Rightarrow> json" where
  "account_filter code = JObject [(''loginCredentials.accountCode'', JString code)]"

text \<open>Whether the stored record lets the password in; whatever goes wrong means it does not.\<close>

definition authenticated :: "service_env \<Rightarrow> string \<Rightarrow> string \<Rightarrow> string \<Rightarrow> bool" where
  "authenticated env beyond password record =
     (case js_parse (sv_json env) record of
        None \<Rightarrow> False
      | Some account \<Rightarrow>
          (case j_get_object account ''loginCredentials'' of
             None \<Rightarrow> False
           | Some lc \<Rightarrow>
               (case j_get_string lc ''passwordHash'' of
                  None \<Rightarrow> False
                | Some h \<Rightarrow> (case verify_password env beyond password h of Inr b \<Rightarrow> b | Inl _ \<Rightarrow> False))))"

definition stripped_account :: "json \<Rightarrow> json" where
  "stripped_account account =
     (case j_get_object account ''loginCredentials'' of
        None \<Rightarrow> account
      | Some lc \<Rightarrow> j_put ''loginCredentials'' (j_erase ''accountPassword'' (j_erase ''passwordHash'' lc)) account)"

definition refuse_login :: "service_env \<Rightarrow> ('s, string) effect" where
  "refuse_login env = fail_with env ''Invalid Credentials'' 401 ''401 Unauthorized''"

definition handle_account_login_POST :: "service_env \<Rightarrow> string \<Rightarrow> http \<Rightarrow> ('a, string) db_effect" where
  "handle_account_login_POST env beyond http =
     (let content = m_body http
      in if content = [] then bad_request env ''Missing credentials''
         else case js_parse (sv_json env) content of
                None \<Rightarrow> bad_request env ''Invalid JSON''
              | Some body \<Rightarrow>
                  (let (userId, password) = credentials body
                   in if userId = [] \<or> password = [] then bad_request env ''Missing userId or password''
                      else
                        eff_bind (json_dump env (account_filter userId)) (\<lambda>q.
                        eff_bind (json_dump env no_id) (\<lambda>p.
                        eff_bind (db_text env (GetDocument ''account'' q p)) (\<lambda>record.
                        if record = [] then refuse_login env
                        else if \<not> authenticated env beyond password record then refuse_login env
                        else eff_catch
                               (eff_bind (json_parse env record) (\<lambda>account.
                                eff_bind (json_dump env (stripped_account account)) (\<lambda>t.
                                eff_return (build_responseOK t))))
                               (fail_with env ''Internal error'' 500 ''500 Internal Server Error''))))))"

definition handle_account_POST :: "service_env \<Rightarrow> string \<Rightarrow> http \<Rightarrow> ('a, string) db_effect" where
  "handle_account_POST env beyond http =
     (if m_uriName http = ''/api/v1/account/login'' then handle_account_login_POST env beyond http
      else if m_uriName http = ''/api/v1/account/account'' then create_account env http
      else eff_return [])"

definition fetch_account :: "service_env \<Rightarrow> json \<Rightarrow> string \<Rightarrow> int \<Rightarrow> ('a, string) db_effect" where
  "fetch_account env doc cause code =
     eff_bind (json_dump env doc) (\<lambda>q.
     eff_bind (json_dump env no_id) (\<lambda>p.
     eff_bind (db_text env (GetDocument ''account'' q p)) (\<lambda>record.
     if record \<noteq> [] then eff_return (build_responseOK record) else fail_with env cause code ''400 Bad Request'')))"

definition handle_account_GET :: "service_env \<Rightarrow> http \<Rightarrow> ('a, string) db_effect" where
  "handle_account_GET env http =
     (if m_uriName http \<noteq> ''/api/v1/account/account'' then eff_return []
      else let userId = get_element http ''userId''; pwd = get_element http ''password'';
               accCode = get_element http ''accountCode''
           in if userId \<noteq> [] \<and> pwd \<noteq> [] then
                fetch_account env
                  (JObject [(''loginCredentials.accountCode'', JString userId), (''loginCredentials.accountPassword'', JString pwd)])
                  ''Invalid Credentials'' 404
              else if accCode \<noteq> [] then fetch_account env (account_filter accCode) ''Invalid Account Code'' 400
              else eff_bind (json_dump env no_id) (\<lambda>p.
                   eff_bind (db_text env (GetAllDocuments ''account'' p)) (\<lambda>record.
                   if record = [] then not_found env ''There's no customer record''
                   else eff_return (build_responseOK record))))"

text \<open>The body is parsed outside any \<^verbatim>\<open>try\<close>; without a user the filter is empty.\<close>

definition update_or_fail :: "service_env \<Rightarrow> string \<Rightarrow> json \<Rightarrow> json \<Rightarrow> string \<Rightarrow> ('a, string) db_effect" where
  "update_or_fail env coll query doc cause =
     eff_bind (json_dump env query) (\<lambda>q.
     eff_bind (json_dump env doc) (\<lambda>d.
     eff_bind (db_bool env (UpdateCollection coll q d)) (\<lambda>ok.
     if ok then success env else bad_request env cause)))"

definition handle_account_PUT :: "service_env \<Rightarrow> http \<Rightarrow> ('a, string) db_effect" where
  "handle_account_PUT env http =
     (if m_uriName http \<noteq> ''/api/v1/account/account'' then eff_return []
      else let accCode = get_element http ''userId''
           in eff_bind (json_parse env (m_body http)) (\<lambda>body.
              eff_bind (case account_secret body of
                          None \<Rightarrow> eff_return body
                        | Some (lc, plain) \<Rightarrow>
                            eff_bind (hash_password env plain) (\<lambda>hash. eff_return (hashed_account body lc hash))) (\<lambda>body'.
              update_or_fail env ''account'' (if accCode \<noteq> [] then account_filter accCode else JObject [])
                (JObject [(''$set'', body')]) ''Account Update Failed'')))"

section \<open>Inventory\<close>

definition stored_or_empty :: "service_env \<Rightarrow> string \<Rightarrow> string \<Rightarrow> ('a, string) db_effect" where
  "stored_or_empty env coll content =
     eff_bind (db_text env (CreateDocument coll content)) (\<lambda>record.
     eff_return (if record \<noteq> [] then build_responseOK (oid_text record) else []))"

definition handle_inventory_POST :: "service_env \<Rightarrow> http \<Rightarrow> ('a, string) db_effect" where
  "handle_inventory_POST env http =
     (if m_uriName http = ''/api/v1/inventory'' \<and> m_body http \<noteq> [] then stored_or_empty env ''inventory'' (m_body http)
      else eff_return [])"

definition handle_inventory_GET :: "service_env \<Rightarrow> http \<Rightarrow> ('a, string) db_effect" where
  "handle_inventory_GET env http =
     (if m_uriName http \<noteq> ''/api/v1/inventory'' then eff_return []
      else let sku = get_element http ''sku''; accCode = get_element http ''accountCode'';
               doc = j_put_if ''sku'' sku (j_put_if ''accountCode'' accCode (JObject []))
           in eff_bind (json_dump env doc) (\<lambda>q.
              eff_bind (json_dump env no_id) (\<lambda>p.
              eff_bind (db_text env (GetDocuments ''inventory'' q p)) (\<lambda>record.
              if record \<noteq> [] then eff_return (build_responseOK record)
              else not_found env ''There's no Inventory Record''))))"

text \<open>\<^verbatim>\<open>std::stoi\<close> throws on a quantity that is missing or not a number.\<close>

definition handle_inventory_PUT :: "service_env \<Rightarrow> http \<Rightarrow> ('a, string) db_effect" where
  "handle_inventory_PUT env http =
     (if m_uriName http \<noteq> ''/api/v1/inventory'' then eff_return []
      else let sku = get_element http ''sku''; qty = get_element http ''qty''; acc = get_element http ''accountCode'';
               isUpdate = get_element http ''isUpdate'';
               query = j_put_if ''accountCode'' acc (j_put_if ''sku'' sku (JObject []))
           in eff_bind (eff_sum (stoi qty)) (\<lambda>n.
              let delta = (if isUpdate = [] then - n else n)
              in update_or_fail env ''inventory'' query (JObject [(''$inc'', JObject [(''qty'', JInt delta)])])
                   ''Inventory Update Failed''))"

section \<open>Documents\<close>

definition handle_document_POST :: "service_env \<Rightarrow> bson_parser \<Rightarrow> http \<Rightarrow> ('a, string) db_effect" where
  "handle_document_POST env bson http =
     (if m_uriName http = ''/api/v1/document'' \<and> m_body http \<noteq> [] then
        eff_bind (eff_sum (from_json bson (m_body http) ''corporate'')) (\<lambda>v.
        let coll = (case v of ExtString p \<Rightarrow> p @ ''_attachment'' | _ \<Rightarrow> ''attachment'')
        in eff_bind (db_text env (CreateDocument coll (m_body http))) (\<lambda>record.
           eff_return
             (if record \<noteq> [] then build_responseOK (oid_text record)
              else build_responseERROR
                     ''{\"status\" : \"faiure\", \"cause\" : \"attachment upload failed\", \"errorCode\" : 400}''
                     ''400 Bad Request'')))
      else eff_return [])"

definition handle_document_GET :: "service_env \<Rightarrow> http \<Rightarrow> ('a, string) db_effect" where
  "handle_document_GET env http =
     (if m_uriName http \<noteq> ''/api/v1/document'' then eff_return []
      else let collection = get_element http ''corporate''; userId = get_element http ''userId'';
               fileName = get_element http ''file'';
               doc0 = JObject [(''corporate'', JString collection)];
               doc = (if userId \<noteq> [] then j_put ''file'' (JString fileName) (j_put ''userId'' (JString userId) doc0) else doc0)
           in eff_bind (json_dump env doc) (\<lambda>q.
              eff_bind (json_dump env no_id) (\<lambda>p.
              eff_bind (db_text env (GetDocuments collection q p)) (\<lambda>record.
              if record \<noteq> [] then eff_return (build_responseOK record) else not_found env ''Document not found''))))"

section \<open>Configuration\<close>

text \<open>
  The address and the port are only logged, but the conversion of the port is evaluated for the log and throws when
  the port is missing or not a number.
\<close>

definition handle_config_POST :: "bson_parser \<Rightarrow> http \<Rightarrow> ('s, string) effect" where
  "handle_config_POST bson http =
     (if m_uriName http = ''/api/v1/config/db'' \<and> m_body http \<noteq> [] then
        eff_bind (extract_string bson (m_body http) ''ip_address'' []) (\<lambda>ip_address.
        eff_bind (extract_string bson (m_body http) ''port'' []) (\<lambda>port.
        eff_bind (eff_sum (stoul port)) (\<lambda>_. eff_return [])))
      else eff_return [])"

section \<open>Deletion\<close>

definition faiure_awb :: string where
  "faiure_awb =
     build_responseERROR ''{\"status\" : \"faiure\", \"cause\" : \"Invalid AWB Bill No.\", \"error\" : 400}'' ''400 Bad Request''"

text \<open>The filters are put together as text.\<close>

fun quoted_list :: "string list \<Rightarrow> string" where
  "quoted_list [] = []"
| "quoted_list [x] = ''\"'' @ x @ ''\"''"
| "quoted_list (x # xs) = ''\"'' @ x @ ''\",'' @ quoted_list xs"

definition delete_shipments :: "service_env \<Rightarrow> string \<Rightarrow> ('a, string) db_effect" where
  "delete_shipments env document =
     eff_bind (db_bool env (DeleteDocument ''shipping'' document)) (\<lambda>rsp.
     eff_return (if rsp then build_responseOK ''{\"status\": \"success\"}'' else faiure_awb))"

definition handle_DELETE :: "service_env \<Rightarrow> http \<Rightarrow> ('a, string) db_effect" where
  "handle_DELETE env http =
     (if m_uriName http = ''/api/v1/shipment/awblist'' then
        let awbNo = get_element http ''awbList''; startDate = get_element http ''startDate'';
            endDate = get_element http ''endDate''
        in if awbNo \<noteq> [] then
             delete_shipments env (''{\"shipmentNo\": {\"$in\" : ['' @ quoted_list (split_fields awbNo) @ '']}}'')
           else if startDate \<noteq> [] \<and> endDate \<noteq> [] then
             delete_shipments env (''{\"createdOn\": {\"$gte\" : \"'' @ startDate @ ''\",'' @ ''\"$lte\" :\"'' @ endDate @ ''\"'' @ ''}}'')
           else eff_return faiure_awb
      else if m_uriName http = ''/api/v1/account/account'' then
        let accCode = get_element http ''accountCode''
        in if accCode = [] then
             eff_return (build_responseERROR ''{\"status\":\"failure\",\"cause\":\"Missing accountCode\",\"error\":400}''
               ''400 Bad Request'')
           else eff_bind (db_bool env (DeleteDocument ''account''
                            (''{\"loginCredentials.accountCode\":\"'' @ accCode @ ''\"}''))) (\<lambda>rsp.
                eff_return
                  (if rsp then build_responseOK ''{\"status\":\"success\"}''
                   else build_responseERROR
                          ''{\"status\":\"failure\",\"cause\":\"Account not found or delete failed\",\"error\":404}''
                          ''404 Not Found''))
      else eff_return faiure_awb)"

end
