(* ===== verification/Web_Worker.thy ===== *)
theory Web_Worker
  imports Web_Handlers
begin

text \<open>
  The rest of the worker (\<^verbatim>\<open>webservice.cpp\<close>): shipments, the courier's service, e-mail, the files of the user interface, the
  tables by method, \<^verbatim>\<open>process_request\<close>, \<^verbatim>\<open>http_send\<close> and the worker's loop.
\<close>

section \<open>State\<close>

text \<open>
  What the courier's server answers: the outcomes of the connection, of the two sends and of the two receives
  (an error is \<^term>\<open>None\<close>).  What the mail server does: the connection, the handshakes, the writes and the replies.
\<close>

record ajoul_io =
  aj_connect :: bool
  aj_send1 :: bool
  aj_recv1 :: "string option"
  aj_send2 :: bool
  aj_recv2 :: "string option"

record mail_io =
  ml_conn :: bool
  ml_connects :: "bool list"
  ml_writes :: "(nat \<Rightarrow> int) list"
  ml_reads :: "smtp_read list"

text \<open>
  The worker adds to the server: the one mail account of the process, the answers to come, the results of \<^verbatim>\<open>::send\<close> to
  come (used up: the rest is accepted) and what it sent to the courier.
\<close>

record worker = web_server +
  wk_account :: smtp_account
  wk_mail :: "mail_io list"
  wk_ajoul :: "ajoul_io list"
  wk_sends :: "int list"
  wk_courier :: "string list"

record worker_env =
  wk_web :: web_params
  wk_bson :: bson_parser
  wk_smtp :: smtp_env

abbreviation wk_env :: "worker_env \<Rightarrow> service_env" where
  "wk_env we \<equiv> wp_env (wk_web we)"

section \<open>Shipments\<close>

text \<open>The prefix of the sender's account, or \<^verbatim>\<open>AWB\<close>; every failure on the way is swallowed.\<close>

definition awb_prefix :: "service_env \<Rightarrow> json \<Rightarrow> ('a, string) db_effect" where
  "awb_prefix env shipment =
     eff_catch
       (case j_get shipment ''senderInformation'' of
          None \<Rightarrow> eff_return ''AWB''
        | Some sender \<Rightarrow>
            eff_bind (eff_sum (j_value sender ''accountNo'' [])) (\<lambda>accNo.
            if accNo = [] then eff_return ''AWB''
            else eff_bind (json_dump env (account_filter accNo)) (\<lambda>af.
                 eff_bind (json_dump env (JObject [(''_id'', JBool False), (''awbPrefix'', JBool True)])) (\<lambda>ap.
                 eff_bind (db_text env (GetDocument ''account'' af ap)) (\<lambda>ad.
                 if ad = [] then eff_return ''AWB''
                 else eff_bind (json_parse env ad) (\<lambda>ja.
                      eff_return (case j_get_string ja ''awbPrefix'' of
                                    Some p \<Rightarrow> if p \<noteq> [] then p else ''AWB''
                                  | None \<Rightarrow> ''AWB'')))))))
       (eff_return ''AWB'')"

text \<open>
  The number of one shipment, generated or as given: the shipment afterwards and whether it changed.
\<close>

definition number_shipment :: "service_env \<Rightarrow> json \<Rightarrow> ('a, json \<times> string \<times> bool) db_effect" where
  "number_shipment env shipment =
     eff_bind (j_value_bool shipment ''isAutoGenerate'' False) (\<lambda>auto_gen.
     if auto_gen then
       eff_bind (awb_prefix env shipment) (\<lambda>prefix.
       eff_bind (db_text env (NextAwbno prefix)) (\<lambda>awbno.
       eff_return (j_put ''awbno'' (JString awbno) shipment, awbno, True)))
     else case j_get shipment ''awbno'' of
            None \<Rightarrow> eff_return (shipment, [], False)
          | Some (JString awbno) \<Rightarrow> eff_return (shipment, awbno, False)
          | Some _ \<Rightarrow> eff_throw JsonTypeError)"

text \<open>A number that was assigned stays assigned when printing the document throws afterwards.\<close>

definition number_document :: "service_env \<Rightarrow> string \<Rightarrow> ('a, string \<times> string) db_effect" where
  "number_document env content =
     eff_catch
       (eff_bind (json_parse env content) (\<lambda>doc.
        case j_get doc ''shipment'' of
          None \<Rightarrow> eff_return ([], content)
        | Some shipment \<Rightarrow>
            eff_bind (number_shipment env shipment) (\<lambda>(shipment', awbno, changed).
            if \<not> changed then eff_return (awbno, content)
            else eff_return (awbno, case js_dump (sv_json env) (j_put ''shipment'' shipment' doc) of
                                      Some t \<Rightarrow> t | None \<Rightarrow> content))))
       (eff_return ([], content))"

definition create_shipment :: "service_env \<Rightarrow> http \<Rightarrow> ('a, string) db_effect" where
  "create_shipment env http =
     (if m_body http = [] then eff_return []
      else eff_bind (number_document env (m_body http)) (\<lambda>(awbno, content).
           eff_bind (db_text env (CreateDocument ''shipping'' content)) (\<lambda>record.
           if record = [] then eff_return []
           else eff_bind (json_dump env (JObject [(''oid'', JString record), (''awbno'', JString awbno)])) (\<lambda>t.
                eff_return (build_responseOK t)))))"

text \<open>
  The loop over the documents of a bulk request.  An exception ends it; the numbers collected before it are kept, the
  changes to the documents are not (\<^term>\<open>None\<close>).
\<close>

fun number_documents ::
  "service_env \<Rightarrow> json list \<Rightarrow> ('a, (json list \<times> bool) option \<times> string list) db_effect" where
  "number_documents env [] = eff_return (Some ([], False), [])"
| "number_documents env (doc # docs) =
     (case j_get doc ''shipment'' of
        None \<Rightarrow>
          eff_bind (number_documents env docs) (\<lambda>(r, awbs).
          eff_return (map_option (\<lambda>(ds, changed). (doc # ds, changed)) r, awbs))
      | Some shipment \<Rightarrow>
          eff_bind (eff_catch (eff_bind (number_shipment env shipment) (\<lambda>v. eff_return (Some v))) (eff_return None)) (\<lambda>v.
          case v of
            None \<Rightarrow> eff_return (None, [])
          | Some (shipment', awbno, c) \<Rightarrow>
              eff_bind (number_documents env docs) (\<lambda>(r, awbs).
              eff_return (map_option (\<lambda>(ds, changed). (j_put ''shipment'' shipment' doc # ds, c \<or> changed)) r,
                          awbno # awbs))))"

text \<open>\<^verbatim>\<open>items()\<close> of an array or an object; another value has no document to number.\<close>

fun j_items :: "json \<Rightarrow> json list" where
  "j_items (JArray js) = js"
| "j_items (JObject kvs) = map snd kvs"
| "j_items _ = []"

fun j_with_items :: "json \<Rightarrow> json list \<Rightarrow> json" where
  "j_with_items (JArray _) js = JArray js"
| "j_with_items (JObject kvs) js = JObject (zip (map fst kvs) js)"
| "j_with_items j js = j"

definition number_bulk :: "service_env \<Rightarrow> string \<Rightarrow> ('a, string list \<times> string) db_effect" where
  "number_bulk env content =
     (case js_parse (sv_json env) content of
        None \<Rightarrow> eff_return ([], content)
      | Some body \<Rightarrow>
          eff_bind (number_documents env (j_items body)) (\<lambda>(r, awbs).
          eff_return (awbs,
            case r of
              Some (ds, True) \<Rightarrow> (case js_dump (sv_json env) (j_with_items body ds) of Some t \<Rightarrow> t | None \<Rightarrow> content)
            | _ \<Rightarrow> content)))"

definition create_shipments :: "service_env \<Rightarrow> http \<Rightarrow> ('a, string) db_effect" where
  "create_shipments env http =
     (if m_body http = [] then eff_return []
      else eff_bind (number_bulk env (m_body http)) (\<lambda>(awb_numbers, content).
           eff_bind (db_int env (CreateBulkDocument ''shipping'' content)) (\<lambda>cnt.
           if cnt \<noteq> 0 then
             eff_bind (json_dump env (JObject [(''createdShipments'', JInt cnt),
                                               (''awbNumbers'', JArray (map JString awb_numbers))])) (\<lambda>t.
             eff_return (build_responseOK t))
           else bad_request env ''Bulk Shipment Creation Failed'')))"

section \<open>The courier\<close>

definition ajoul_failure :: "string \<Rightarrow> string" where
  "ajoul_failure what =
     build_responseERROR (''{\"status\" : \"faiure\", \"cause\" : \"https://ajoul.com is '' @ what @ ''\", \"errorCode\" : 400}'')
       ''400 Bad Request''"

definition ajoul_authorize :: string where
  "ajoul_authorize =
     unlines
       [''POST /remote/api/v1/authorize?client_secret=uCo9GJv4BATqU0C8491tTBooqY4CMttyg8kQyu1o&client_id=34&username=AKjHYuCAco&password=uCo9GJv4BATqU0C8491tTBooqY4CMttyg8kQyu1o HTTP/1.1'',
        ''Host: www.ajoul.com'', ''Accept: application/json'', ''User-Agent: Balaagh/1.0'', ''Connection: keep-alive'',
        ''Cache-Control: no-cache'', ''Content-Type: application/x-www-form-urlencoded'',
        ''Content-Type: multipart/form-data; boundary=----WebKitFormBoundary7MA4YWxkTrZu0gW'', ''Content-Length: 0''] @ crlf"

definition ajoul_shipment :: string where
  "ajoul_shipment =
     ''{\"receiver\":{\"name\":\"Alaa\",\"country_code\": \"SA\",\"city_code\": \"RUH\",'' @
     ''\"address\": \"AL Malki, Damascuss\",\"zip_code\": \"1234\",\"phone\": \"0941951819\",'' @
     ''\"phone2\": \"09419518549\",\"email\": \"info@quadratechsoft.com\"},'' @
     ''\"sender\": {\"name\": \"Alaa\",\"country_code\": \"SA\",\"city_code\": \"RUH\",'' @
     ''\"address\": \"Al Haram street, Giza\",\"phone\": \"01063396459\",\"email\": \"admin@quadratechsoft.com\"},'' @
     ''\"reference\": \"AB100\",\"pick_date\": \"2018-08-06\",\"pickup_time\": \"12:49\",\"product_type\": \"104\",'' @
     ''\"payment_mode\": \"COD\",\"parcel_quantity\": \"2\",\"parcel_weight\": \"4\",\"service_id\": \"2\",'' @
     ''\"description\": \"Testing Create Shipment From API\",\"sku\": \"423423\",\"weight_total\": \"20\",'' @
     ''\"total_cod_amount\": 50.9}''"

definition ajoul_create :: "string \<Rightarrow> string" where
  "ajoul_create access_token =
     unlines
       [''POST /remote/api/v1/shipment/create HTTP/1.1'', ''Host: www.ajoul.com'', ''Accept: application/json'',
        ''User-Agent: Balaagh/1.0'', ''Connection: keep-alive'', ''Cache-Control: no-cache'', ''Content-Type: application/json'',
        ''Authorization: Bearer '' @ access_token, ''Content-Length: '' @ dec_string (length ajoul_shipment)] @ crlf @ ajoul_shipment"

definition next_ajoul :: "('a worker_scheme, ajoul_io) effect" where
  "next_ajoul s =
     (case wk_ajoul s of
        [] \<Rightarrow> (Done \<lparr>aj_connect = False, aj_send1 = False, aj_recv1 = None, aj_send2 = False, aj_recv2 = None\<rparr>, s)
      | a # as \<Rightarrow> (Done a, s\<lparr>wk_ajoul := as\<rparr>))"

definition to_courier :: "string \<Rightarrow> ('a worker_scheme, unit) effect" where
  "to_courier t s = (Done (), s\<lparr>wk_courier := wk_courier s @ [t]\<rparr>)"

text \<open>
  The length of the second receive is not checked: an error is a string of impossible length.  What the caller gets
  back is the answer to the authorization, whose \<^verbatim>\<open>http\<close> is the one in scope.
\<close>

definition ajoul_request :: "worker_env \<Rightarrow> ('a worker_scheme, string) effect" where
  "ajoul_request we =
     eff_bind next_ajoul (\<lambda>io.
     if \<not> aj_connect io then eff_return (ajoul_failure ''not rechable'')
     else if \<not> aj_send1 io then eff_return (ajoul_failure ''not responding'')
     else eff_bind (to_courier ajoul_authorize) (\<lambda>_.
       case aj_recv1 io of
         None \<Rightarrow> eff_return (ajoul_failure ''not responding to Authorize req'')
       | Some rsp \<Rightarrow>
           eff_bind (parse_http (wk_env we) (take 3048 rsp)) (\<lambda>auth.
           eff_bind (eff_sum (get_access_token_for_ajoul (wk_bson we) (m_body auth))) (\<lambda>access_token.
           if \<not> aj_send2 io then eff_return (ajoul_failure ''not responding'')
           else eff_bind (to_courier (ajoul_create access_token)) (\<lambda>_.
             case aj_recv2 io of
               None \<Rightarrow> eff_throw LengthError
             | Some rsp2 \<Rightarrow>
                 eff_bind (parse_http (wk_env we) (take 3048 rsp2)) (\<lambda>created.
                 eff_bind (eff_sum (get_tracking_no_for_ajoul (wk_bson we) (m_body created))) (\<lambda>_.
                 eff_return (build_responseOK (m_body auth)))))))))"

definition handle_shipment_POST :: "worker_env \<Rightarrow> http \<Rightarrow> ('a worker_scheme, string) effect" where
  "handle_shipment_POST we http =
     (if m_uriName http = ''/api/v1/shipment/shipping'' then create_shipment (wk_env we) http
      else if m_uriName http = ''/api/v1/shipment/bulk/shipping'' then create_shipments (wk_env we) http
      else if m_uriName http = ''/api/v1/shipment/thirdparty/ajoul'' then ajoul_request we
      else eff_return [])"

definition fetch_shipments :: "service_env \<Rightarrow> json \<Rightarrow> string \<Rightarrow> ('a, string) db_effect" where
  "fetch_shipments env doc cause =
     eff_bind (json_dump env doc) (\<lambda>q.
     eff_bind (json_dump env no_id) (\<lambda>p.
     eff_bind (db_text env (GetDocuments ''shipping'' q p)) (\<lambda>record.
     if record \<noteq> [] then eff_return (build_responseOK record) else bad_request env cause)))"

definition handle_shipment_GET :: "service_env \<Rightarrow> http \<Rightarrow> ('a, string) db_effect" where
  "handle_shipment_GET env http =
     (if m_uriName http \<noteq> ''/api/v1/shipment/shipping'' then eff_return []
      else let awbNo = get_element http ''awbNo''; altRefNo = get_element http ''altRefNo'';
               senderRefNo = get_element http ''senderRefNo''; accountCode = get_element http ''accountCode'';
               fromDate = get_element http ''fromDate''; toDate = get_element http ''toDate'';
               country = get_element http ''country'';
               by_list = (\<lambda>key csv. j_put_if ''accountCode'' accountCode (JObject [(key, in_list csv)]))
           in if awbNo \<noteq> [] then fetch_shipments env (by_list ''shipment.awbno'' awbNo) ''Invalid AWB Bill No.''
              else if altRefNo \<noteq> [] then fetch_shipments env (by_list ''altRefNo'' altRefNo) ''Invalid ALT REF No.''
              else if senderRefNo \<noteq> [] then fetch_shipments env (by_list ''senderRefNo'' senderRefNo) ''Invalid Sender REF No.''
              else if fromDate \<noteq> [] \<and> toDate \<noteq> [] then
                let doc = JObject [(''shipment.shipmentInformation.createdOn'',
                                    JObject [(''$gte'', JString fromDate), (''$lte'', JString toDate)])];
                    doc1 = (if accountCode \<noteq> [] then j_put ''shipment.senderInformation.accountNo'' (in_list accountCode) doc
                            else doc)
                in fetch_shipments env (j_put_if ''shipment.receiverInformation.country'' country doc1)
                     ''Invalid input for detailed report.''
              else eff_return [])"

definition handle_shipment_PUT :: "service_env \<Rightarrow> http \<Rightarrow> ('a, string) db_effect" where
  "handle_shipment_PUT env http =
     (if m_uriName http \<noteq> ''/api/v1/shipment/shipping'' then eff_return []
      else let awbNo = get_element http ''shipmentNo''; accCode = get_element http ''accountCode'';
               isSingleShipment = get_element http ''isSingleShipment'';
               not_pod = (''shipment.shipmentInformation.activity.event'', JObject [(''$ne'', JString ''Proof of Delivery'')])
           in eff_bind (json_parse env (m_body http)) (\<lambda>body.
              if isSingleShipment \<noteq> [] then
                update_or_fail env ''shipping''
                  (j_put_if ''accountCode'' accCode (JObject [(''shipment.awbno'', JString awbNo), not_pod]))
                  (JObject [(''$set'', body)]) ''Shipment Update Failed''
              else
                update_or_fail env ''shipping''
                  (j_put_if ''accountCode'' accCode (JObject [(''shipment.awbno'', in_list awbNo), not_pod]))
                  (JObject [(''$push'', JObject [(''shipment.shipmentInformation.activity'', body)])])
                  ''Shipment Update Failed''))"

section \<open>E-mail\<close>

definition next_mail :: "('a worker_scheme, mail_io) effect" where
  "next_mail s =
     (case wk_mail s of
        [] \<Rightarrow> (Done \<lparr>ml_conn = False, ml_connects = [], ml_writes = [], ml_reads = []\<rparr>, s)
      | m # ms \<Rightarrow> (Done m, s\<lparr>wk_mail := ms\<rparr>))"

definition set_account :: "email_request \<Rightarrow> ('a worker_scheme, smtp_account) effect" where
  "set_account er s = (let a = fill_account er (wk_account s) in (Done a, s\<lparr>wk_account := a\<rparr>))"

text \<open>
  The worker spins until the mail client's thread clears the flag.  A fault in that thread ends the process, like an
  exception that leaves the worker's loop.
\<close>

definition run_mail :: "smtp_env \<Rightarrow> smtp_account \<Rightarrow> mail_io \<Rightarrow> unit result" where
  "run_mail env account io =
     (let u = startEmailTransaction (ml_conn io) (new_smtp_user (ml_connects io) (ml_writes io))
      in case smtp_main (env\<lparr>sx_account := account\<rparr>) (ml_reads io) u of
           Inl _ \<Rightarrow> Thrown RuntimeError
         | Inr u' \<Rightarrow> if su_available u' then Hangs else Done ())"

definition handle_email_POST :: "worker_env \<Rightarrow> http \<Rightarrow> ('a worker_scheme, string) effect" where
  "handle_email_POST we http =
     (if m_uriName http = ''/api/v1/email'' then
        let body = m_body http; bson = wk_bson we
        in eff_bind (eff_sum (from_json bson body ''to'')) (\<lambda>to.
           eff_bind (extract_string bson body ''subject'' []) (\<lambda>subj.
           eff_bind (extract_string bson body ''emailbody'' []) (\<lambda>mail_body.
           eff_bind (eff_sum (from_json bson body ''files'')) (\<lambda>files.
           eff_bind (extract_string bson body ''from'' []) (\<lambda>from_addr.
           eff_bind (extract_string bson body ''passwd'' []) (\<lambda>passwd.
           eff_bind (set_account
             \<lparr>er_to = (case to of ExtStrVec v \<Rightarrow> v | _ \<Rightarrow> []), er_subject = subj, er_body = mail_body,
              er_files = (case files of ExtDocList l \<Rightarrow> l | _ \<Rightarrow> []), er_from = from_addr, er_passwd = passwd\<rparr>) (\<lambda>account.
           eff_bind next_mail (\<lambda>io.
           eff_bind (eff_result (run_mail (wk_smtp we) account io)) (\<lambda>_.
           eff_return (build_responseOK ''{\"status\": \"success\"''))))))))))
      else eff_return [])"

section \<open>Files of the user interface\<close>

definition content_types :: "(string \<times> string) list" where
  "content_types =
     [(''woff'', ''font/woff''), (''woff2'', ''font/woff2''), (''ttf'', ''font/ttf''), (''otf'', ''font/otf''), (''css'', ''text/css''),
      (''js'', ''text/javascript''), (''eot'', ''application/vnd.ms-fontobject''), (''html'', ''text/html''), (''svg'', ''image/svg+xml''),
      (''gif'', ''image/gif''), (''png'', ''image/png''), (''ico'', ''image/vnd.microsoft.icon''), (''jpg'', ''image/jpeg''),
      (''json'', ''application/json'')]"

definition get_contentType :: "string \<Rightarrow> string" where
  "get_contentType ext = (case map_of content_types ext of Some t \<Rightarrow> t | None \<Rightarrow> ''text/html'')"

definition get_cache_control :: "string \<Rightarrow> string \<Rightarrow> string" where
  "get_cache_control fileName ext =
     (if str_contains fileName ''index.html'' then ''no-cache''
      else if ext \<in> {''js'', ''css''} then ''no-cache''
      else if ext \<in> {''woff'', ''woff2'', ''ttf'', ''otf'', ''eot'', ''svg'', ''png'', ''jpg'', ''gif'', ''ico''} then
        ''public, max-age=604800''
      else ''public, max-age=86400'')"

text \<open>The text after the last dot.\<close>

definition extension :: "string \<Rightarrow> string option" where
  "extension uri = (if CHR ''.'' \<in> set uri then Some (rev (takeWhile (\<lambda>c. c \<noteq> CHR ''.'') (rev uri))) else None)"

definition serve_file :: "service_env \<Rightarrow> string \<Rightarrow> string \<Rightarrow> string \<Rightarrow> ('s, string) effect" where
  "serve_file env newFile cntType cacheControl =
     (case sv_file env (c_str newFile) of
        None \<Rightarrow> bad_request env newFile
      | Some data \<Rightarrow> eff_return (http_build_ok data cntType cacheControl))"

definition serve_index :: "service_env \<Rightarrow> ('s, string) effect" where
  "serve_index env = serve_file env ''../webgui/webui/index.html'' ''text/html'' ''no-cache''"

definition handle_webui :: "service_env \<Rightarrow> string \<Rightarrow> ('s, string) effect" where
  "handle_webui env uri =
     (case extension uri of
        Some ext \<Rightarrow>
          (let fileName = drop 6 uri
           in serve_file env (''../webgui/webui/'' @ fileName) (get_contentType ext) (get_cache_control fileName ext))
      | None \<Rightarrow> serve_index env)"

definition handle_assets :: "service_env \<Rightarrow> string \<Rightarrow> ('s, string) effect" where
  "handle_assets env uri =
     (case extension uri of
        Some ext \<Rightarrow>
          (case sv_file env (c_str (''../webgui/webui'' @ uri)) of
             Some data \<Rightarrow> eff_return (http_build_ok data (get_contentType ext) (get_cache_control uri ext))
           | None \<Rightarrow> eff_return (build_responseOK []))
      | None \<Rightarrow> eff_return (build_responseOK []))"

section \<open>The tables\<close>

definition handle_GET :: "service_env \<Rightarrow> http \<Rightarrow> ('a, string) db_effect" where
  "handle_GET env http =
     (let uri = m_uriName http
      in if has_prefix ''/api/v1/shipment'' uri then handle_shipment_GET env http
         else if has_prefix ''/api/v1/inventory'' uri then handle_inventory_GET env http
         else if has_prefix ''/api/v1/document'' uri then handle_document_GET env http
         else if has_prefix ''/api/v1/account'' uri then handle_account_GET env http
         else if has_prefix ''/webui/'' uri then handle_webui env uri
         else if has_prefix ''/assets/'' uri then handle_assets env uri
         else if has_prefix ''/'' uri then serve_index env
         else eff_return (build_responseOK []))"

definition handle_POST :: "worker_env \<Rightarrow> http \<Rightarrow> ('a worker_scheme, string) effect" where
  "handle_POST we http =
     (let uri = m_uriName http; env = wk_env we
      in if has_prefix ''/api/v1/shipment'' uri then handle_shipment_POST we http
         else if has_prefix ''/api/v1/config'' uri then handle_config_POST (wk_bson we) http
         else if has_prefix ''/api/v1/account'' uri then handle_account_POST env (wp_beyond (wk_web we)) http
         else if has_prefix ''/api/v1/inventory'' uri then handle_inventory_POST env http
         else if has_prefix ''/api/v1/document'' uri then handle_document_POST env (wk_bson we) http
         else if has_prefix ''/api/v1/email'' uri then handle_email_POST we http
         else eff_return (build_responseOK []))"

definition handle_PUT :: "service_env \<Rightarrow> http \<Rightarrow> ('a, string) db_effect" where
  "handle_PUT env http =
     (let uri = m_uriName http
      in if has_prefix ''/api/v1/shipment'' uri then handle_shipment_PUT env http
         else if has_prefix ''/api/v1/inventory'' uri then handle_inventory_PUT env http
         else if has_prefix ''/api/v1/account'' uri then handle_account_PUT env http
         else eff_return (build_responseERROR
                ''{\"status\" : \"faiure\", \"cause\" : \"Shipment Updated Failed\", \"error\" : 400}'' ''400 Bad Request''))"

section \<open>The worker\<close>

text \<open>
  \<^verbatim>\<open>http_send\<close>: the length is cut to 32 bits with a sign; the loop stops at an error.  The result is the return value, the
  number of bytes handed over and the results left.
\<close>

fun send_loop :: "int list \<Rightarrow> int \<Rightarrow> int \<Rightarrow> int \<times> int \<times> int list" where
  "send_loop [] tot offset = (0, max tot offset, [])"
| "send_loop (sent # rs) tot offset =
     (if offset < tot then
        if sent < 0 then (-1, offset, rs) else send_loop rs tot (offset + sent)
      else (0, offset, sent # rs))"

definition http_send :: "nat \<Rightarrow> string \<Rightarrow> ('a worker_scheme, int) effect" where
  "http_send handle rsp s =
     (if rsp = [] then (Done 0, s)
      else let tot = sint (word_of_nat (length rsp) :: 32 word);
               (rc, offset, rs) = send_loop (wk_sends s) tot 0
           in (Done rc, (if offset = 0 then id else web_write handle (take (nat offset) rsp)) (s\<lparr>wk_sends := rs\<rparr>)))"

definition legacy_response :: "worker_env \<Rightarrow> http \<Rightarrow> ('a worker_scheme, string option) effect" where
  "legacy_response we http =
     (let m = m_method http; env = wk_env we; some = (\<lambda>e. eff_bind e (\<lambda>r. eff_return (Some r)))
      in if m = ''OPTIONS'' then some (eff_return handle_OPTIONS)
         else if m = ''GET'' then some (handle_GET env http)
         else if m = ''POST'' then some (handle_POST we http)
         else if m = ''PUT'' then some (handle_PUT env http)
         else if m = ''DELETE'' then some (handle_DELETE env http)
         else eff_return None)"

definition process_request :: "worker_env \<Rightarrow> nat \<Rightarrow> string \<Rightarrow> ('a worker_scheme, int) effect" where
  "process_request we handle req =
     eff_bind (parse_http (wk_env we) req) (\<lambda>http.
     eff_bind (dispatch_pbx_routes (wk_web we) req) (\<lambda>rsp.
     if rsp \<noteq> [] then http_send handle rsp
     else eff_bind (legacy_response we http) (\<lambda>r.
          case r of None \<Rightarrow> eff_return 0 | Some rsp \<Rightarrow> http_send handle rsp)))"

text \<open>
  The loop of a worker over the messages of its queue, each with the parameters of its turn.  It delivers
  \<^verbatim>\<open>m_continue\<close>: true when it waits for the next message, false after the closing one or
  when \<^verbatim>\<open>getq\<close> fails.  An exception leaves the thread,
  which ends the process.
\<close>

datatype work_msg = MB_DATA nat string | MB_PCSIG | GETQ_ERROR

fun svc :: "(worker_env \<times> work_msg) list \<Rightarrow> ('a worker_scheme, bool) effect" where
  "svc [] = eff_return True"
| "svc ((we, MB_DATA handle req) # ms) = eff_bind (process_request we handle req) (\<lambda>_. svc ms)"
| "svc ((we, MB_PCSIG) # ms) = eff_return False"
| "svc ((we, GETQ_ERROR) # ms) = eff_return False"

end
