(* ===== verification/Worker_Properties.thy ===== *)
theory Worker_Properties
  imports Web_Worker Service_Properties
begin

text \<open>
  What the whole worker guarantees, PBX routes and inherited handlers together: who may write, how
  its responses are framed, which files it hands out, what an account's password becomes, and what ends the process.
\<close>

section \<open>The calls of the inherited handlers\<close>

lemma attachment_names: "p @ ''_attachment'' \<noteq> ''subscribers''" "p @ ''_attachment'' \<noteq> ''societies''"
proof -
  have "last (p @ ''_attachment'') \<noteq> last ''subscribers''" "last (p @ ''_attachment'') \<noteq> last ''societies''" by simp_all
  then show "p @ ''_attachment'' \<noteq> ''subscribers''" "p @ ''_attachment'' \<noteq> ''societies''" by metis+
qed

text \<open>
  The name of the collection of a document is the \<^verbatim>\<open>corporate\<close> of the body followed by \<^verbatim>\<open>_attachment\<close>.
  A zero byte in it cuts the suffix off on the way to the database, and what is left is the requester's choice.
\<close>

definition nul_corporate :: "bson_parser \<Rightarrow> http \<Rightarrow> bool" where
  "nul_corporate bson http \<longleftrightarrow>
     m_method http = ''POST'' \<and> m_uriName http = ''/api/v1/document'' \<and> m_body http \<noteq> [] \<and>
     (case from_json bson (m_body http) ''corporate'' of
        Inr (ExtString p) \<Rightarrow> CHR 0x00 \<in> set p \<and> c_str p \<in> {''subscribers'', ''societies''}
      | _ \<Rightarrow> False)"

lemma attachment_protected:
  "protected_write (CreateDocument (p @ ''_attachment'') d) \<longleftrightarrow>
     CHR 0x00 \<in> set p \<and> c_str p \<in> {''subscribers'', ''societies''}"
  using attachment_names[of p] by (simp add: protected_write_def db_writes_to_def c_str_append) (auto simp: c_str_def)

lemma attachment_unprotected [simp]: "\<not> protected_write (CreateDocument ''attachment'' d)"
  by (simp add: protected_write_def db_writes_to_def c_str_def)

lemma legacy_unprotected [simp]:
  "\<not> protected_write (CreateDocument ''account'' d)" "\<not> protected_write (CreateDocument ''inventory'' d)"
  "\<not> protected_write (CreateDocument ''shipping'' d)" "\<not> protected_write (CreateBulkDocument ''shipping'' d)"
  "\<not> protected_write (UpdateCollection ''account'' q d)" "\<not> protected_write (UpdateCollection ''inventory'' q d)"
  "\<not> protected_write (UpdateCollection ''shipping'' q d)"
  "\<not> protected_write (DeleteDocument ''account'' d)" "\<not> protected_write (DeleteDocument ''shipping'' d)"
  by (simp_all add: protected_write_def db_writes_to_def c_str_def)

lemma legacy_helpers_log [effect_intros]:
  "logs_only lg A (fail_with env cause code status)"
  "logs_only lg A (success env)"
  "logs_only lg A (redact_for_log env content)"
  "logs_only lg A (extract_string bson content key d)"
  "logs_only lg A (serve_file env f ct cc)"
  by (auto simp: fail_with_def success_def redact_for_log_def extract_string_def serve_file_def intro!: effect_intros)

lemma update_or_fail_log [effect_intros]:
  "(\<And>q d. A (UpdateCollection coll q d)) \<Longrightarrow> logs_only db_log A (update_or_fail env coll query doc cause)"
  by (auto simp: update_or_fail_def intro!: effect_intros)

abbreviation unprotected :: "('a db_state_scheme, 'r) effect \<Rightarrow> bool" where
  "unprotected m \<equiv> logs_only db_log (\<lambda>op. \<not> protected_write op) m"

lemma unprotected_mono: "unprotected m \<Longrightarrow> logs_only db_log (\<lambda>op. protected_write op \<longrightarrow> H) m"
  unfolding logs_only_def list_all_iff by blast

lemma logs_only_sum_bind:
  "(\<And>v. r = Inr v \<Longrightarrow> logs_only lg A (k v)) \<Longrightarrow> logs_only lg A (eff_bind (eff_sum r) k)"
  by (cases r) (simp_all add: logs_only_def eff_bind_def eff_sum_def eff_throw_def eff_return_def)

lemma account_unprotected:
  "unprotected (handle_account_POST env b http)" "unprotected (handle_account_GET env http)"
  "unprotected (handle_account_PUT env http)"
  by (auto simp: handle_account_POST_def handle_account_login_POST_def create_account_def account_content_def
      handle_account_GET_def fetch_account_def handle_account_PUT_def refuse_login_def Let_def
      intro!: effect_intros split: option.splits)

lemma store_unprotected:
  "unprotected (handle_inventory_POST env http)" "unprotected (handle_inventory_GET env http)"
  "unprotected (handle_inventory_PUT env http)" "unprotected (handle_document_GET env http)" "unprotected (handle_DELETE env http)"
  subgoal by (auto simp: handle_inventory_POST_def stored_or_empty_def intro!: effect_intros)
  subgoal by (auto simp: handle_inventory_GET_def Let_def intro!: effect_intros)
  subgoal by (auto simp: handle_inventory_PUT_def Let_def intro!: effect_intros)
  subgoal by (auto simp: handle_document_GET_def Let_def intro!: effect_intros)
  subgoal by (auto simp: handle_DELETE_def delete_shipments_def Let_def intro!: effect_intros)
  done

lemma document_write:
  assumes "m_method http = ''POST''"
  shows "logs_only db_log (\<lambda>op. protected_write op \<longrightarrow> nul_corporate bson http) (handle_document_POST env bson http)"
proof (cases "m_uriName http = ''/api/v1/document'' \<and> m_body http \<noteq> []")
  case True
  have "logs_only db_log (\<lambda>op. protected_write op \<longrightarrow> nul_corporate bson http)
      (db_text env (CreateDocument (case v of ExtString p \<Rightarrow> p @ ''_attachment'' | _ \<Rightarrow> ''attachment'') (m_body http)))"
    if "from_json bson (m_body http) ''corporate'' = Inr v" for v
    using assms True that
    by (cases v) (auto simp: attachment_protected nul_corporate_def intro!: effect_intros)
  then show ?thesis
    unfolding handle_document_POST_def if_P[OF True] Let_def by (intro logs_only_sum_bind logs_only_bind logs_only_return)
qed (auto simp: handle_document_POST_def intro!: effect_intros)

lemma config_log [effect_intros]: "logs_only lg A (handle_config_POST bson http)"
  by (auto simp: handle_config_POST_def intro!: effect_intros)

lemma number_shipment_unprotected [effect_intros]: "unprotected (number_shipment env shipment)"
  by (auto simp: number_shipment_def awb_prefix_def j_value_bool_def intro!: effect_intros split: json.splits option.splits)

lemma number_documents_unprotected [effect_intros]: "unprotected (number_documents env docs)"
  by (induction docs) (auto intro!: effect_intros split: option.splits)

lemma shipment_unprotected:
  "unprotected (create_shipment env http)" "unprotected (create_shipments env http)"
  "unprotected (handle_shipment_GET env http)" "unprotected (handle_shipment_PUT env http)"
  subgoal by (auto simp: create_shipment_def number_document_def intro!: effect_intros split: option.splits)
  subgoal by (auto simp: create_shipments_def number_bulk_def intro!: effect_intros split: option.splits)
  subgoal by (auto simp: handle_shipment_GET_def fetch_shipments_def Let_def intro!: effect_intros)
  subgoal by (auto simp: handle_shipment_PUT_def Let_def intro!: effect_intros)
  done

lemma io_log [effect_intros]:
  "logs_only db_log A next_ajoul" "logs_only db_log A (to_courier t)" "logs_only db_log A next_mail"
  "logs_only db_log A (set_account er)" "logs_only db_log A (http_send h rsp)"
  by (auto simp: logs_only_def next_ajoul_def to_courier_def next_mail_def set_account_def http_send_def web_write_def
      Let_def split: list.splits prod.splits)

lemma worker_unprotected:
  "unprotected (handle_shipment_POST we http)" "unprotected (handle_email_POST we http)"
  subgoal by (auto simp: handle_shipment_POST_def ajoul_request_def intro!: effect_intros shipment_unprotected split: option.splits)
  subgoal by (auto simp: handle_email_POST_def Let_def intro!: effect_intros)
  done

lemma serve_log [effect_intros]:
  "logs_only lg A (serve_index env)" "logs_only lg A (handle_webui env uri)" "logs_only lg A (handle_assets env uri)"
  by (auto simp: serve_index_def handle_webui_def handle_assets_def Let_def intro!: effect_intros split: option.splits)

lemma legacy_response_writes:
  "logs_only db_log (\<lambda>op. protected_write op \<longrightarrow> nul_corporate (wk_bson we) http) (legacy_response we http)"
  by (auto simp: legacy_response_def handle_GET_def handle_POST_def handle_PUT_def Let_def
      intro!: effect_intros document_write account_unprotected[THEN unprotected_mono] store_unprotected[THEN unprotected_mono]
        shipment_unprotected[THEN unprotected_mono] worker_unprotected[THEN unprotected_mono])

lemma logs_unless_bind_only:
  assumes m: "logs_unless lg A B m" and k: "\<And>v. logs_only lg A (k v)"
  shows "logs_unless lg A B (eff_bind m k)"
  unfolding logs_unless_def
proof
  fix s
  obtain l where l: "lg (snd (m s)) = lg s @ l" "list_all A l \<or> B (lg s)" using m unfolding logs_unless_def by blast
  obtain r t where r: "m s = (r, t)" by (cases "m s")
  show "\<exists>l. lg (snd (eff_bind m k s)) = lg s @ l \<and> (list_all A l \<or> B (lg s))"
  proof (cases r)
    case (Done v)
    obtain l' where "lg (snd (k v t)) = lg t @ l'" "list_all A l'" using k unfolding logs_only_def by blast
    with l r Done show ?thesis by (intro exI[of _ "l @ l'"]) auto
  qed (use l r in \<open>auto simp: eff_bind_def\<close>)
qed

text \<open>The request, parsed, is such a document.\<close>

definition nul_request :: "worker_env \<Rightarrow> string \<Rightarrow> bool" where
  "nul_request we req \<longleftrightarrow>
     (case Http (sv_zlib (wk_env we)) req of Done http \<Rightarrow> nul_corporate (wk_bson we) http | _ \<Rightarrow> False)"

lemma worker_protected:
  "logs_unless db_log (\<lambda>op. protected_write op \<longrightarrow> nul_request we req)
     (admin_bearer (wk_env we) (wp_gate_now (wk_web we)) req) (process_request we h req)"
proof (cases "Http (sv_zlib (wk_env we)) req")
  case (Done http)
  then have nul: "nul_request we req = nul_corporate (wk_bson we) http" by (simp add: nul_request_def)
  have "logs_unless db_log (\<lambda>op. protected_write op \<longrightarrow> nul_request we req)
      (admin_bearer (wk_env we) (wp_gate_now (wk_web we)) req)
      (eff_bind (dispatch_pbx_routes (wk_web we) req) (\<lambda>rsp.
        if rsp \<noteq> [] then http_send h rsp
        else eff_bind (legacy_response we http) (\<lambda>r. case r of None \<Rightarrow> eff_return 0 | Some rsp \<Rightarrow> http_send h rsp)))"
    unfolding nul
    by (intro logs_unless_bind_only dispatch_protected[THEN logs_unless_mono] logs_only_if logs_only_bind
        legacy_response_writes logs_only_case_option logs_only_return io_log) auto
  with Done show ?thesis by (simp add: process_request_def parse_http_step logs_unless_def)
qed (simp_all add: process_request_def logs_unless_def eff_bind_def eff_result_def)

section \<open>Framing\<close>

text \<open>
  A response is framed when its header has a \<^verbatim>\<open>Content-Length\<close> line with the number of bytes that follow the blank line.
\<close>

definition framed :: "string \<Rightarrow> bool" where
  "framed r =
     (case str_find r (crlf @ crlf) of
        None \<Rightarrow> False
      | Some i \<Rightarrow> str_contains (take (i + 2) r) (crlf @ ''Content-Length: '' @ dec_string (length (drop (i + 4) r)) @ crlf))"

lemma str_contains_middle [simp]: "str_contains (a @ n @ b) n"
  using str_find_exists[of "length a" n "a @ n @ b"] by (auto simp: str_contains_def)

lemma unlines_append [simp]: "unlines (ls @ ms) = unlines ls @ unlines ms"
  by (simp add: unlines_def)

lemma framed_unlines:
  assumes "list_all line_ok (pre @ cl # post)" and "pre \<noteq> []" and "cl = ''Content-Length: '' @ dec_string (length body)"
  shows "framed (unlines (pre @ cl # post) @ crlf @ body)"
proof -
  let ?ls = "pre @ cl # post"
  have "2 \<le> length (unlines ?ls)" by (simp add: crlf_def)
  then have i: "length (unlines ?ls) - 2 + 2 = length (unlines ?ls)" by simp
  obtain p l where pre: "pre = p @ [l]" using assms(2) by (metis rev_exhaust)
  have "str_contains ((unlines p @ l) @ (crlf @ cl @ crlf) @ unlines post) (crlf @ cl @ crlf)"
    by (rule str_contains_middle)
  moreover have "(unlines p @ l) @ (crlf @ cl @ crlf) @ unlines post = unlines ?ls" by (simp add: pre)
  ultimately have "str_contains (unlines ?ls) (crlf @ cl @ crlf)" by (simp only:)
  moreover have "str_find (unlines ?ls @ crlf @ body) (crlf @ crlf) = Some (length (unlines ?ls) - 2)"
    using assms(1) by (intro str_find_blank_line) simp_all
  moreover have "drop (length (unlines ?ls) - 2 + 4) (unlines ?ls @ crlf @ body) = body" by (rule drop_blank_line) simp
  moreover have "take (length (unlines ?ls) - 2 + 2) (unlines ?ls @ crlf @ body) = unlines ?ls" unfolding i by simp
  ultimately show ?thesis unfolding framed_def by (simp only: option.case assms(3) append_assoc)
qed

lemma framed_responses [simp]:
  "CHR 0x0D \<notin> set ct \<Longrightarrow> CHR 0x0D \<notin> set cc \<Longrightarrow> framed (http_build_ok body ct cc)"
  "CHR 0x0D \<notin> set status \<Longrightarrow> framed (http_build_error body status)"
proof -
  let ?cl = "''Content-Length: '' @ dec_string (length body)"
  have zero: "dec_string 0 = ''0''" by code_simp
  have cl: "line_ok ?cl" using dec_string_digits[of "length body"] by (auto simp: line_ok_def is_digit_def)
  have keep: "list_all line_ok keep_alive_lines" by (simp add: keep_alive_lines_def line_ok_def)
  show "framed (http_build_ok body ct cc)" if "CHR 0x0D \<notin> set ct" "CHR 0x0D \<notin> set cc"
  proof -
    let ?post = "(if body \<noteq> [] then [''Content-Type: '' @ ct] else []) @ (if cc \<noteq> [] then [''Cache-Control: '' @ cc] else [])"
    have "framed (unlines (([''HTTP/1.1 200 OK''] @ keep_alive_lines) @ ?cl # ?post) @ crlf @ body)"
      using cl keep that by (intro framed_unlines) (simp_all add: line_ok_def)
    then show ?thesis by (cases "body = []") (simp_all add: http_build_ok_def zero)
  qed
  show "framed (http_build_error body status)" if "CHR 0x0D \<notin> set status"
  proof -
    let ?post = "if body \<noteq> [] then [''Content-Type: application/json''] else []"
    have "framed (unlines (([''HTTP/1.1 '' @ status @ '' ''] @ keep_alive_lines) @ ?cl # ?post) @ crlf @ body)"
      using cl keep that by (intro framed_unlines) (simp_all add: line_ok_def)
    then show ?thesis by (cases "body = []") (simp_all add: http_build_error_def zero)
  qed
qed

lemma header_values_clean [simp]: "CHR 0x0D \<notin> set (get_contentType ext)" "CHR 0x0D \<notin> set (get_cache_control f ext)"
  by (auto simp: get_contentType_def content_types_def get_cache_control_def)

text \<open>What every value that a computation delivers satisfies.\<close>

definition eff_yields :: "('r \<Rightarrow> bool) \<Rightarrow> ('s, 'r) effect \<Rightarrow> bool" where
  "eff_yields P m \<longleftrightarrow> (\<forall>s v t. m s = (Done v, t) \<longrightarrow> P v)"

named_theorems yields_intros \<open>what a computation delivers, from its parts\<close>

lemma yields_return [yields_intros]: "P v \<Longrightarrow> eff_yields P (eff_return v)"
  by (simp add: eff_yields_def)

lemma yields_throw [yields_intros]: "eff_yields P (eff_throw e)"
  by (simp add: eff_yields_def)

lemma yields_bind [yields_intros]: "(\<And>v. eff_yields P (k v)) \<Longrightarrow> eff_yields P (eff_bind m k)"
  unfolding eff_yields_def by (metis eff_bindE)

lemma yields_bind_value: "eff_yields Q m \<Longrightarrow> (\<And>v. Q v \<Longrightarrow> eff_yields P (k v)) \<Longrightarrow> eff_yields P (eff_bind m k)"
  unfolding eff_yields_def by (metis eff_bindE)

lemma yields_catch [yields_intros]: "eff_yields P m \<Longrightarrow> eff_yields P h \<Longrightarrow> eff_yields P (eff_catch m h)"
  by (auto simp: eff_yields_def eff_catch_def split: prod.splits result.splits)

lemma yields_if [yields_intros]:
  "(b \<Longrightarrow> eff_yields P m) \<Longrightarrow> (\<not> b \<Longrightarrow> eff_yields P m') \<Longrightarrow> eff_yields P (if b then m else m')"
  by simp

lemma yields_case [yields_intros]:
  "(r = None \<Longrightarrow> eff_yields P n) \<Longrightarrow> (\<And>v. r = Some v \<Longrightarrow> eff_yields P (k v)) \<Longrightarrow>
     eff_yields P (case r of None \<Rightarrow> n | Some v \<Rightarrow> k v)"
  "(\<And>a b. eff_yields P (g a b)) \<Longrightarrow> eff_yields P (case p of (a, b) \<Rightarrow> g a b)"
  by (cases r; simp) (cases p; simp)

abbreviation answers :: "('s, string) effect \<Rightarrow> bool" where
  "answers m \<equiv> eff_yields (\<lambda>r. r = [] \<or> framed r) m"

lemma fail_with_answers [yields_intros]: "CHR 0x0D \<notin> set status \<Longrightarrow> answers (fail_with env cause code status)"
  by (auto simp: fail_with_def intro!: yields_intros)

lemma helpers_answer [yields_intros]:
  "answers (success env)"
  "CHR 0x0D \<notin> set ct \<Longrightarrow> CHR 0x0D \<notin> set cc \<Longrightarrow> answers (serve_file env f ct cc)"
  by (auto simp: success_def serve_file_def intro!: yields_intros)

lemma db_answer [yields_intros]:
  "answers (update_or_fail env coll q d cause)" "answers (stored_or_empty env coll content)"
  "answers (fetch_account env doc cause code)" "answers (delete_shipments env document)"
  "answers (fetch_shipments env doc cause)" "answers (refuse_login env)"
  by (auto simp: update_or_fail_def stored_or_empty_def fetch_account_def delete_shipments_def faiure_awb_def
      fetch_shipments_def refuse_login_def intro!: yields_intros)

lemma get_answers [yields_intros]:
  "answers (handle_shipment_GET env http)" "answers (handle_inventory_GET env http)"
  "answers (handle_document_GET env http)" "answers (handle_account_GET env http)"
  unfolding handle_shipment_GET_def handle_inventory_GET_def handle_document_GET_def handle_account_GET_def Let_def
  by (intro yields_intros; simp)+

lemma file_answers [yields_intros]:
  "answers (serve_index env)" "answers (handle_webui env uri)" "answers (handle_assets env uri)"
  unfolding handle_webui_def handle_assets_def serve_index_def Let_def
  by (intro yields_intros; simp)+

lemma put_answers [yields_intros]:
  "answers (handle_shipment_PUT env http)" "answers (handle_inventory_PUT env http)" "answers (handle_account_PUT env http)"
  unfolding handle_shipment_PUT_def handle_inventory_PUT_def handle_account_PUT_def Let_def
  by (intro yields_intros; simp)+

lemma delete_answers [yields_intros]: "answers (handle_DELETE env http)"
  unfolding handle_DELETE_def faiure_awb_def Let_def by (intro yields_intros; simp)

lemma login_answers [yields_intros]: "answers (handle_account_login_POST env b http)"
  unfolding handle_account_login_POST_def Let_def by (intro yields_intros; simp)

lemma shipment_post_answers [yields_intros]: "answers (handle_shipment_POST we http)"
  unfolding handle_shipment_POST_def create_shipment_def create_shipments_def ajoul_request_def ajoul_failure_def
  by (intro yields_intros; simp)

lemma post_answers [yields_intros]:
  "answers (handle_config_POST bson http)" "answers (handle_account_POST env b http)"
  "answers (handle_inventory_POST env http)" "answers (handle_document_POST env bson http)" "answers (handle_email_POST we http)"
  unfolding handle_config_POST_def handle_account_POST_def create_account_def
    handle_inventory_POST_def handle_document_POST_def handle_email_POST_def Let_def
  by (intro yields_intros; simp)+

lemma table_answers:
  "answers (handle_GET env http)" "answers (handle_POST we http)" "answers (handle_PUT env http)"
  unfolding handle_GET_def handle_POST_def handle_PUT_def Let_def
  by (intro yields_intros; simp)+

lemma some_answers: "answers m \<Longrightarrow> eff_yields (\<lambda>r. \<forall>x. r = Some x \<longrightarrow> x = [] \<or> framed x) (eff_bind m (\<lambda>r. eff_return (Some r)))"
  by (erule yields_bind_value) (auto intro!: yields_intros)

lemma legacy_answers:
  "m_method http \<noteq> ''OPTIONS'' \<Longrightarrow> eff_yields (\<lambda>r. \<forall>x. r = Some x \<longrightarrow> x = [] \<or> framed x) (legacy_response we http)"
  unfolding legacy_response_def Let_def
  by (auto intro!: yields_if some_answers table_answers delete_answers yields_return)

section \<open>Accounts\<close>

lemma j_get_put [simp]: "j_is_object j \<Longrightarrow> j_get (j_put k v j) = (j_get j)(k \<mapsto> v)"
  by (cases j) (auto simp: update_conv')

lemma j_get_erase [simp]: "j_get (j_erase k j) = (j_get j)(k := None)"
  by (cases j) (auto simp: delete_conv' fun_eq_iff)

lemma j_object_edits [simp]: "j_is_object (j_put k v j) = j_is_object j" "j_is_object (j_erase k j) = j_is_object j"
  by (cases j; simp)+

lemma j_get_object_is: "j_get_object j k = Some v \<Longrightarrow> j_is_object j \<and> j_is_object v"
  by (cases j) (auto simp: j_get_object_Some)

lemma account_secretD:
  assumes "account_secret body = Some (lc, plain)"
  shows "j_get_object body ''loginCredentials'' = Some lc" "j_is_object body" "j_is_object lc"
  using assms j_get_object_is[of body "''loginCredentials''" lc]
  by (auto simp: account_secret_def split: option.splits)

lemma hashed_account_fields:
  assumes "account_secret body = Some (lc, plain)"
  obtains lc' where "j_get_object (hashed_account body lc h) ''loginCredentials'' = Some lc'" and "j_is_object lc'"
    and "j_get_string lc' ''passwordHash'' = Some h" and "j_get lc' ''accountPassword'' = None"
proof -
  let ?lc = "j_erase ''accountPassword'' (j_put ''passwordHash'' (JString h) lc)"
  show thesis
    using account_secretD[OF assms]
    by (intro that[of ?lc]) (simp_all add: hashed_account_def j_get_object_Some j_get_string_Some)
qed

text \<open>The salt that the next hash will use.\<close>

definition next_salt :: "'a db_state_scheme \<Rightarrow> string" where
  "next_salt s = rand_buffer 16 (case rng s of [] \<Rightarrow> [] | (ok, bytes) # _ \<Rightarrow> bytes)"

lemma hash_password_next:
  "\<exists>t. hash_password env pw s = (Done (hash_text env pw (next_salt s)), t) \<and> db_log t = db_log s"
  by (auto simp: hash_password_def RAND_bytes_def next_salt_def eff_bind_def eff_return_def split: list.splits)

lemma account_content_hashes:
  assumes "js_parse (sv_json env) content = Some body" and "account_secret body = Some (lc, plain)"
    and "js_dump (sv_json env) (hashed_account body lc (hash_text env plain (next_salt s))) = Some doc"
  shows "\<exists>t. account_content env content s = (Done doc, t) \<and> db_log t = db_log s"
proof -
  obtain t where t: "hash_password env plain s = (Done (hash_text env plain (next_salt s)), t)" "db_log t = db_log s"
    using hash_password_next by blast
  then show ?thesis using assms by (simp add: account_content_def)
qed

lemma stored_hash_lets_in:
  assumes "js_parse (sv_json env) doc = Some (hashed_account body lc (hash_text env plain salt))"
    and "account_secret body = Some (lc, plain)"
    and "length (sv_pbkdf2 env plain salt (int kPbkdf2Iterations)) = kPbkdf2KeyLen"
    and "b64_faithful env salt" and "b64_faithful env (sv_pbkdf2 env plain salt (int kPbkdf2Iterations))" and "salt \<noteq> []"
  shows "authenticated env beyond plain doc"
proof -
  obtain lc' where "j_get_object (hashed_account body lc (hash_text env plain salt)) ''loginCredentials'' = Some lc'"
    "j_get_string lc' ''passwordHash'' = Some (hash_text env plain salt)"
    using hashed_account_fields[OF assms(2)] by metis
  then show ?thesis using verify_hash_text[OF assms(3,3,4,5,6)] assms(1) by (simp add: authenticated_def)
qed

lemma stripped_hides:
  assumes "j_get_object (stripped_account account) ''loginCredentials'' = Some lc"
  shows "j_get lc ''passwordHash'' = None \<and> j_get lc ''accountPassword'' = None"
proof (cases "j_get_object account ''loginCredentials''")
  case None
  with assms show ?thesis by (simp add: stripped_account_def)
next
  case (Some lc0)
  with assms j_get_object_is[OF Some] show ?thesis by (auto simp: stripped_account_def j_get_object_Some)
qed

text \<open>
  C37: an account created with a plain-text password is stored without it, and with that password its owner can log
  in; the answer to the login shows neither the password nor its hash.
\<close>

theorem created_account_logs_in:
  fixes s u :: "'a db_state_scheme"
  assumes new: "create_account env http s = (Done r, t)" "m_body http \<noteq> []"
    "js_parse (sv_json env) (m_body http) = Some body" "account_secret body = Some (lc, plain)" "plain \<noteq> []"
    and acc: "acc = hashed_account body lc (hash_text env plain (next_salt s))"
    and stored: "js_dump (sv_json env) acc = Some doc" "js_parse (sv_json env) doc = Some acc"
      "doc \<noteq> []"
    and crypto: "length (sv_pbkdf2 env plain (next_salt s) (int kPbkdf2Iterations)) = kPbkdf2KeyLen"
      "b64_faithful env (next_salt s)" "b64_faithful env (sv_pbkdf2 env plain (next_salt s) (int kPbkdf2Iterations))"
    and login: "m_body login \<noteq> []" "js_parse (sv_json env) (m_body login) = Some cred" "credentials cred = (user, plain)"
      "user \<noteq> []" "js_dump (sv_json env) (account_filter user) = Some q" "js_dump (sv_json env) no_id = Some p"
    and found: "sv_text env (db_log u) (GetDocument ''account'' q p) = Inr doc"
    and out: "js_dump (sv_json env) (stripped_account acc) = Some out"
  shows "db_log t = db_log s @ [CreateDocument ''account'' doc] \<and> account_secret acc = None \<and>
    fst (handle_account_login_POST env beyond login u) = Done (build_responseOK out) \<and>
    (\<forall>lc'. j_get_object (stripped_account acc) ''loginCredentials'' = Some lc' \<longrightarrow>
       j_get lc' ''passwordHash'' = None \<and> j_get lc' ''accountPassword'' = None)"
proof (intro conjI allI impI)
  obtain s1 where s1: "account_content env (m_body http) s = (Done doc, s1)" "db_log s1 = db_log s"
    using account_content_hashes[OF new(3,4)] stored(1) unfolding acc by blast
  from new(1) obtain lb where lb: "redact_for_log env (m_body http) s = (Done lb, s)"
    by (auto simp: create_account_def redact_for_log_def new(3) elim!: eff_bindE)
  show "db_log t = db_log s @ [CreateDocument ''account'' doc]"
    using new(1,2) s1 lb by (auto simp: create_account_def elim!: eff_bindE)
  obtain lc' where "j_get_object acc ''loginCredentials'' = Some lc'" "j_get lc' ''accountPassword'' = None"
    using hashed_account_fields[OF new(4)] unfolding acc by metis
  then show "account_secret acc = None" by (simp add: account_secret_def j_get_string_def)
  have "authenticated env beyond plain doc"
    using stored(2) new(4) crypto unfolding acc by (rule stored_hash_lets_in) (simp add: next_salt_def)
  then show "fst (handle_account_login_POST env beyond login u) = Done (build_responseOK out)"
    using login new(5) found stored out
    by (simp add: handle_account_login_POST_def eff_bind_def eff_catch_def json_dump_def json_parse_def eff_option_def eff_return_def
        db_text_def)
qed (use stripped_hides in blast)+

section \<open>Concrete workers\<close>

definition work_account :: smtp_account where
  "work_account = \<lparr>from_name = [], from_email = [], from_password = [], to_email = [], email_subject = [], email_body = [],
     attachment = []\<rparr>"

definition work_env :: "(string \<Rightarrow> string option) \<Rightarrow> worker_env" where
  "work_env files = \<lparr>wk_web = (rest_params [])\<lparr>wp_env := (rest_env [])\<lparr>sv_file := files\<rparr>\<rparr>, wk_bson = (\<lambda>_. Some (JObject [])),
     wk_smtp = \<lparr>sx_entries = (\<lambda>_. []), sx_b64_encode = id, sx_b64_decode = Some, sx_read_file = (\<lambda>_. None), sx_date = [],
       sx_account = work_account\<rparr>\<rparr>"

definition work_state :: worker where
  "work_state = \<lparr>db_log = [], rng = [(True, ''ab'')], wb_cloud = sample_cloud, wb_cte = True, wb_bridge = True,
     wb_presence = True, wv_db = True, wv_wsdb = False, wv_inner_tls = False, wv_pool = [(7, [])], wv_registered = [7],
     wv_workers = 1, wv_current = 0, wv_jobs = [], wv_browsers = [], wv_handoffs = [], wv_log = [],
     wk_account = work_account, wk_mail = [], wk_ajoul = [], wk_sends = [], wk_courier = []\<rparr>"

lemma work_env_simps [simp]:
  "sv_zlib (wk_env (work_env files)) a e = a" "sv_file (wk_env (work_env files)) = files"
  "wk_bson (work_env files) = (\<lambda>_. Some (JObject []))" "wp_gate_now (wk_web (work_env files)) = 5"
  by (simp_all add: work_env_def rest_params_def)

lemma work_state_simps [simp]: "db_log work_state = []" "wk_sends work_state = []"
  by (simp_all add: work_state_def)

definition acct_body :: json where
  "acct_body = JObject [(''loginCredentials'', JObject [(''accountCode'', JString ''a1''), (''accountPassword'', JString ''pw'')])]"

definition acct_stored :: json where
  "acct_stored = hashed_account acct_body (JObject [(''accountCode'', JString ''a1''), (''accountPassword'', JString ''pw'')])
     (hash_text rest_crypto ''pw'' (rand_buffer 16 ''ab''))"

definition acct_env :: service_env where
  "acct_env = rest_crypto\<lparr>
     sv_json := \<lparr>js_parse = (\<lambda>t. if t = ''new'' then Some acct_body else if t = ''doc'' then Some acct_stored
         else if t = ''login'' then Some (JObject [(''userId'', JString ''a1''), (''password'', JString ''pw'')]) else None),
       js_dump = (\<lambda>j. Some (if j = acct_stored then ''doc'' else ''{}''))\<rparr>,
     sv_text := (\<lambda>_ op. Inr (case op of CreateDocument c d \<Rightarrow> ''oid'' | _ \<Rightarrow> ''doc''))\<rparr>"

definition acct_state :: db_state where
  "acct_state = \<lparr>db_log = [], rng = [(True, ''ab'')]\<rparr>"

lemma acct_hash: "hash_text acct_env pw salt = hash_text rest_crypto pw salt"
  by (simp add: hash_text_def acct_env_def)

lemma acct_salt: "next_salt acct_state = rand_buffer 16 ''ab''"
  by (simp add: next_salt_def acct_state_def)

lemma acct_crypto:
  "length (sv_pbkdf2 acct_env ''pw'' salt n) = kPbkdf2KeyLen" "b64_faithful acct_env (rand_buffer 16 ''ab'')"
  "b64_faithful acct_env (sv_pbkdf2 acct_env ''pw'' salt n)"
  by (auto simp: acct_env_def rest_crypto_def kPbkdf2KeyLen_def b64_faithful_def rand_buffer_def dest: in_set_takeD)

lemma acct_dumps [simp]:
  "js_dump (sv_json acct_env) j = Some (if j = acct_stored then ''doc'' else ''{}'')"
  "js_parse (sv_json acct_env) ''new'' = Some acct_body" "js_parse (sv_json acct_env) ''doc'' = Some acct_stored"
  "js_parse (sv_json acct_env) ''login'' = Some (JObject [(''userId'', JString ''a1''), (''password'', JString ''pw'')])"
  "sv_text acct_env h (CreateDocument c d) = Inr ''oid''" "sv_text acct_env h (GetDocument c q p) = Inr ''doc''"
  by (simp_all add: acct_env_def)

lemma acct_created:
  "\<exists>r t. create_account acct_env (new_http\<lparr>m_body := ''new''\<rparr>) acct_state = (Done r, t)"
  by (simp add: create_account_def redact_for_log_def account_content_def account_secret_def hash_password_def RAND_bytes_def
      rest_simps json_parse_def acct_state_def acct_body_def j_get_object_def j_get_string_def)

theorem created_account_logs_in_witness:
  "db_log (snd (create_account acct_env (new_http\<lparr>m_body := ''new''\<rparr>) acct_state)) = [CreateDocument ''account'' ''doc''] \<and>
     account_secret acct_stored = None \<and>
     fst (handle_account_login_POST acct_env [] (new_http\<lparr>m_body := ''login''\<rparr>) acct_state) = Done (build_responseOK ''{}'')"
proof -
  let ?lc = "JObject [(''accountCode'', JString ''a1''), (''accountPassword'', JString ''pw'')]"
  obtain r t where t: "create_account acct_env (new_http\<lparr>m_body := ''new''\<rparr>) acct_state = (Done r, t)"
    using acct_created by blast
  have secret: "account_secret acct_body = Some (?lc, ''pw'')"
    by (simp add: account_secret_def acct_body_def j_get_object_def j_get_string_def)
  obtain lc' where lc': "j_get_object acct_stored ''loginCredentials'' = Some lc'" "j_get_string lc' ''passwordHash'' \<noteq> None"
    using hashed_account_fields[OF secret] unfolding acct_stored_def by (metis option.distinct(1))
  have strip: "stripped_account acct_stored \<noteq> acct_stored"
    using stripped_hides[of acct_stored lc'] lc' by (auto simp: j_get_string_def)
  have other: "account_filter ''a1'' \<noteq> acct_stored" "no_id \<noteq> acct_stored"
  proof -
    have "j_get acct_stored ''loginCredentials'' \<noteq> None" using lc'(1) by (simp add: j_get_object_Some)
    moreover have "j_get (account_filter ''a1'') ''loginCredentials'' = None" "j_get no_id ''loginCredentials'' = None"
      by (simp_all add: account_filter_def)
    ultimately show "account_filter ''a1'' \<noteq> acct_stored" "no_id \<noteq> acct_stored" by metis+
  qed
  have "db_log t = db_log acct_state @ [CreateDocument ''account'' ''doc''] \<and> account_secret acct_stored = None \<and>
     fst (handle_account_login_POST acct_env [] (new_http\<lparr>m_body := ''login''\<rparr>) acct_state) = Done (build_responseOK ''{}'') \<and>
     (\<forall>lc'. j_get_object (stripped_account acct_stored) ''loginCredentials'' = Some lc' \<longrightarrow>
        j_get lc' ''passwordHash'' = None \<and> j_get lc' ''accountPassword'' = None)"
    by (rule created_account_logs_in[OF t, of acct_body ?lc "''pw''" acct_stored "''doc''" "new_http\<lparr>m_body := ''login''\<rparr>"
          "JObject [(''userId'', JString ''a1''), (''password'', JString ''pw'')]" "''a1''" "''{}''" "''{}''"])
       (simp_all add: secret acct_salt acct_hash acct_crypto strip other, simp_all add: acct_stored_def credentials_def j_get_string_def)
  moreover have "db_log acct_state = []" by (simp add: acct_state_def)
  ultimately show ?thesis by (simp add: t)
qed

section \<open>One request\<close>

lemma http_send_whole:
  assumes "wk_sends s = []" and "length rsp < 2 ^ 31" and "rsp \<noteq> []"
  shows "http_send fd rsp s = (Done 0, web_write fd rsp s)"
proof -
  have "sint (word_of_nat (length rsp) :: 32 word) = int (length rsp)"
    using assms(2) by (simp add: signed_of_nat signed_take_bit_int_eq_self)
  moreover have same: "s\<lparr>wk_sends := []\<rparr> = s" using assms(1) by (cases s) simp
  ultimately show ?thesis using assms by (simp add: http_send_def Let_def) (simp only: same)
qed

text \<open>A request that no PBX route takes is answered by the inherited handlers.\<close>

lemma process_legacy:
  assumes "Http (sv_zlib (wk_env we)) req = Done p" and "dispatch_pbx_routes (wk_web we) req s = (Done [], s)"
  shows "process_request we fd req s =
    eff_bind (legacy_response we p) (\<lambda>r. case r of None \<Rightarrow> eff_return 0 | Some rsp \<Rightarrow> http_send fd rsp) s"
  using assms by (simp add: process_request_def parse_http_step)

lemma dispatch_passes:
  assumes "Http (sv_zlib (wp_env wp)) req = Done p"
    and "\<not> has_prefix ''/api/v1/'' (m_uriName p) \<or> has_prefix ''/api/v1/config'' (m_uriName p)"
  shows "dispatch_pbx_routes wp req s = (Done [], s)"
proof -
  have none: "m_uriName p \<noteq> ''/api/v1/'' @ x \<and> \<not> has_prefix (''/api/v1/'' @ x) (m_uriName p)"
    if "x \<noteq> []" "hd x \<noteq> CHR ''c'' \<or> (1 < length x \<and> x ! 1 \<noteq> CHR ''o'')" for x
    using assms(2)
  proof
    assume "\<not> has_prefix ''/api/v1/'' (m_uriName p)"
    then show ?thesis by (auto simp: has_prefix_def take_add dest: arg_cong[of _ _ "take 8"])
  next
    assume c: "has_prefix ''/api/v1/config'' (m_uriName p)"
    then obtain r where u: "m_uriName p = ''/api/v1/config'' @ r" unfolding has_prefix_def by (metis append_take_drop_id)
    show ?thesis
      using that by (cases x; cases "tl x") (auto simp: u has_prefix_def)
  qed
  show ?thesis
    unfolding dispatch_pbx_routes_def Let_def parse_http_step[OF assms(1)]
    using none[of "''subscriber/login''"] none[of "''subscriber/import/template.xlsx''"] none[of "''subscriber/import/template''"]
      none[of "''subscriber/import''"] none[of "''subscriber/''"] none[of "''subscriber''"] none[of "''society''"]
      none[of "''societies''"] none[of "''society/''"] none[of "''admin/subscribers''"] none[of "''admin/connectivity''"]
      none[of "''cdr''"] none[of "''push-vapid-key''"] none[of "''push-subscribe''"] none[of "''push/subscribe''"]
      none[of "''turn-credentials''"] none[of "''ping''"]
    by (simp add: eff_return_def)
qed

lemma extension_append: "CHR ''.'' \<in> set b \<Longrightarrow> extension (a @ b) = extension b"
  by (simp add: extension_def)

text \<open>
  C38: a path below \<^verbatim>\<open>/webui/\<close> with a dot in it names the file that is opened, whatever the path is: with enough \<^verbatim>\<open>..\<close> in it,
  the contents of any file the process can read are sent to whoever asks, and the database is not consulted.
\<close>

theorem webui_serves_any_file:
  fixes s :: "'a worker_scheme"
  assumes "Http (sv_zlib (wk_env we)) req = Done p" and "m_method p = ''GET''" and "m_uriName p = ''/webui/'' @ path"
    and "extension path = Some ext" and "sv_file (wk_env we) (c_str (''../webgui/webui//'' @ path)) = Some data"
    and "wk_sends s = []"
    and "length (http_build_ok data (get_contentType ext) (get_cache_control (''/'' @ path) ext)) < 2 ^ 31"
  shows "process_request we fd req s =
    (Done 0, web_write fd (http_build_ok data (get_contentType ext) (get_cache_control (''/'' @ path) ext)) s)"
proof -
  have dot: "CHR ''.'' \<in> set path" using assms(4) by (simp add: extension_def split: if_splits)
  have "dispatch_pbx_routes (wk_web we) req s = (Done [], s)"
    by (rule dispatch_passes[OF assms(1)]) (simp add: assms(3) has_prefix_def)
  moreover have "extension (''/webui/'' @ path) = Some ext" using extension_append[OF dot, of "''/webui/''"] assms(4) by (simp only:)
  moreover have "http_build_ok data (get_contentType ext) (get_cache_control (''/'' @ path) ext) \<noteq> []"
    by (simp add: http_build_ok_def)
  ultimately show ?thesis
    using assms http_send_whole[OF assms(6,7), of fd]
    by (simp add: process_legacy legacy_response_def handle_GET_def has_prefix_def handle_webui_def serve_file_def
        eff_bind_def eff_return_def)
qed

theorem webui_serves_any_file_witness:
  "\<exists>rsp. process_request (work_env (\<lambda>f. if f = ''../webgui/webui//../../etc/resolv.conf'' then Some ''x'' else None)) 7
     (rest_request ''GET'' ''/webui/../../etc/resolv.conf'') work_state = (Done 0, web_write 7 rsp work_state)"
proof -
  let ?we = "work_env (\<lambda>f. if f = ''../webgui/webui//../../etc/resolv.conf'' then Some ''x'' else None)"
  let ?path = "''../../etc/resolv.conf''"
  have m: "method_ok ''GET''" by (simp add: method_ok_def)
  have short: "length (http_build_ok ''x'' (get_contentType ''conf'') (get_cache_control (''/'' @ ?path) ''conf'')) < 1000"
    by code_simp
  show ?thesis
    by (rule exI, rule webui_serves_any_file[OF rest_Http[OF m], where path = ?path and ext = "''conf''" and data = "''x''"])
       (use short in \<open>simp_all add: http_simps extension_def c_str_def\<close>)
qed

text \<open>
  C39: a request to change the database address whose body has no usable port makes the worker's thread throw.  No
  credentials are needed; nothing catches the exception, so the process ends with the jobs behind it unanswered.
\<close>

theorem config_request_ends_process:
  fixes s :: "'a worker_scheme"
  assumes "Http (sv_zlib (wk_env we)) req = Done p" and "m_method p = ''POST''" and "m_uriName p = ''/api/v1/config/db''"
    and "m_body p \<noteq> []"
    and port: "\<And>v. from_json (wk_bson we) (m_body p) ''port'' = Inr (ExtString v) \<Longrightarrow> \<exists>e. stoul v = Inl e"
  shows "\<exists>e. svc ((we, MB_DATA fd req) # ms) s = (Thrown e, s)"
proof -
  have "dispatch_pbx_routes (wk_web we) req s = (Done [], s)"
    by (rule dispatch_passes[OF assms(1)]) (simp add: assms(3) has_prefix_def)
  moreover have "\<exists>e. handle_config_POST (wk_bson we) p s = (Thrown e, s)"
  proof (cases "from_json (wk_bson we) (m_body p) ''ip_address''")
    case (Inl e)
    then show ?thesis using assms(3,4)
      by (simp add: handle_config_POST_def extract_string_def eff_bind_def eff_sum_def eff_throw_def)
  next
    case (Inr ip)
    have "\<exists>e. stoul [] = Inl e" by (simp add: stoul_def num_sign_def)
    then show ?thesis using assms(3,4) Inr port
      by (cases "from_json (wk_bson we) (m_body p) ''port''")
         (auto simp: handle_config_POST_def extract_string_def eff_bind_def eff_sum_def eff_throw_def eff_return_def
           split: json_extract.splits)
  qed
  ultimately show ?thesis
    using assms(1-3)
    by (auto simp: process_legacy legacy_response_def handle_POST_def has_prefix_def eff_bind_def)
qed

theorem config_request_ends_process_witness:
  "\<exists>e. svc [(work_env (\<lambda>_. None), MB_DATA 7 (rest_request ''POST'' ''/api/v1/config/db'')),
            (work_env (\<lambda>_. None), MB_DATA 8 (rest_request ''GET'' ''/''))] work_state = (Thrown e, work_state)"
proof -
  have m: "method_ok ''POST''" by (simp add: method_ok_def)
  show ?thesis
    by (rule config_request_ends_process[OF rest_Http[OF m]]) (simp_all add: http_simps from_json_def)
qed

section \<open>The whole worker\<close>

lemma dispatch_document:
  assumes "Http (sv_zlib (wp_env wp)) req = Done p" and "m_uriName p = ''/api/v1/document''"
  shows "dispatch_pbx_routes wp req s = (Done [], s)"
  unfolding dispatch_pbx_routes_def Let_def parse_http_step[OF assms(1)]
  by (simp add: assms(2) has_prefix_def eff_return_def)

lemma nul_request_writes:
  fixes s :: "'a worker_scheme"
  assumes "nul_request we req"
  shows "\<exists>op \<in> set (drop (length (db_log s)) (db_log (snd (process_request we fd req s)))). protected_write op"
proof -
  obtain p c where h: "Http (sv_zlib (wk_env we)) req = Done p" "m_method p = ''POST''" "m_uriName p = ''/api/v1/document''"
    "m_body p \<noteq> []" "from_json (wk_bson we) (m_body p) ''corporate'' = Inr (ExtString c)"
    and c: "CHR 0x00 \<in> set c \<and> c_str c \<in> {''subscribers'', ''societies''}"
    using assms by (auto simp: nul_request_def nul_corporate_def split: result.splits sum.splits json_extract.splits)
  let ?op = "CreateDocument (c @ ''_attachment'') (m_body p)"
  have "\<exists>r t. legacy_response we p s = (r, t) \<and> db_log t = db_log s @ [?op]"
    using h by (auto simp: legacy_response_def handle_POST_def handle_document_POST_def has_prefix_def eff_bind_def eff_sum_def
        eff_return_def db_text_def Let_def split: sum.splits)
  then obtain r t where t: "legacy_response we p s = (r, t)" "db_log t = db_log s @ [?op]" by blast
  have "db_log (snd (process_request we fd req s)) = db_log s @ [?op]"
    using t by (cases r)
      (auto simp: process_legacy[OF h(1) dispatch_document[OF h(1,3)]] eff_bind_def eff_return_def http_send_def web_write_def
        Let_def split: option.split prod.splits)
  then show ?thesis using c by (simp add: attachment_protected)
qed

text \<open>
  C16: whatever a request makes the worker do, PBX route or inherited handler, a subscriber or a society is created, changed or
  deleted only if the request's bearer token belongs, in the answer of the database at that moment, to a session that
  has not expired and whose role is administrator, with one exception: a \<^verbatim>\<open>POST\<close> of a document whose \<^verbatim>\<open>corporate\<close> is
  the name of one of these collections followed by a zero byte.  Such a request does reach the collection, from anyone.
\<close>

theorem worker_writes_need_admin:
  fixes s :: "'a worker_scheme"
  shows "(\<forall>op \<in> set (drop (length (db_log s)) (db_log (snd (process_request we fd req s)))).
      protected_write op \<longrightarrow> admin_bearer (wk_env we) (wp_gate_now (wk_web we)) req (db_log s) \<or> nul_request we req) \<and>
    (nul_request we req \<longrightarrow>
      (\<exists>op \<in> set (drop (length (db_log s)) (db_log (snd (process_request we fd req s)))). protected_write op))"
proof -
  obtain l where "db_log (snd (process_request we fd req s)) = db_log s @ l"
    "list_all (\<lambda>op. protected_write op \<longrightarrow> nul_request we req) l \<or>
     admin_bearer (wk_env we) (wp_gate_now (wk_web we)) req (db_log s)"
    using worker_protected[of we req fd] unfolding logs_unless_def by blast
  then show ?thesis using nul_request_writes[of we req s fd] by (auto simp: list_all_iff)
qed

lemma work_society_post:
  "CreateDocument ''societies'' ''{}'' \<in>
     set (db_log (snd (process_request (work_env (\<lambda>_. None)) 7 (rest_request ''POST'' ''/api/v1/society'') work_state)))"
proof -
  have m: "method_ok ''POST''" by (simp add: method_ok_def)
  have env: "wk_web (work_env (\<lambda>_. None)) = rest_params []"
    by (simp add: work_env_def rest_params_def rest_env_def rest_crypto_def)
  have b: "missing_field [''name'', ''code''] rest_body = None" "field_text rest_body ''code'' = ''c''"
    by (simp_all add: missing_field_def rest_body_def j_get_string_def field_text_def)
  obtain rsp t where d: "dispatch_pbx_routes (rest_params []) (rest_request ''POST'' ''/api/v1/society'') work_state = (Done rsp, t)"
    "rsp \<noteq> []" "CreateDocument ''societies'' ''{}'' \<in> set (db_log t)"
    by (simp add: dispatch_pbx_routes_def rest_params_def rest_Http[OF m] http_simps has_prefix_def admin_only_def
        rest_gate[OF m] handle_society_POST_def rest_simps b random_alnum_def work_state_def Let_def http_response_def)
  have "db_log (snd (http_send 7 rsp t)) = db_log t"
    by (simp add: http_send_def web_write_def Let_def split: prod.splits)
  then show ?thesis using d by (simp add: process_request_def env rest_params_def rest_Http[OF m] eff_bind_def eff_result_def)
qed

definition nul_env :: worker_env where
  "nul_env = (work_env (\<lambda>_. None))\<lparr>wk_bson := \<lambda>_. Some (JObject [(''corporate'', JString (''subscribers'' @ [CHR 0x00]))])\<rparr>"

theorem worker_writes_need_admin_witness:
  "admin_bearer (wk_env (work_env (\<lambda>_. None))) 5 (rest_request ''POST'' ''/api/v1/society'') [] \<and>
   (\<exists>op \<in> set (db_log (snd (process_request nul_env 7 (rest_request ''POST'' ''/api/v1/document'') work_state))).
      protected_write op)"
proof -
  have m: "method_ok ''POST''" by (simp add: method_ok_def)
  have "\<not> nul_request (work_env (\<lambda>_. None)) (rest_request ''POST'' ''/api/v1/society'')"
    using rest_Http[OF m] by (simp add: nul_request_def nul_corporate_def http_simps)
  moreover have "protected_write (CreateDocument ''societies'' ''{}'')"
    by (simp add: protected_write_def db_writes_to_def c_str_def)
  moreover have "nul_request nul_env (rest_request ''POST'' ''/api/v1/document'')"
    using rest_Http[OF m] by (simp add: nul_env_def nul_request_def nul_corporate_def http_simps from_json_def c_str_def)
  ultimately show ?thesis
    using worker_writes_need_admin[of work_state "work_env (\<lambda>_. None)" 7 "rest_request ''POST'' ''/api/v1/society''"]
      worker_writes_need_admin[of work_state nul_env 7 "rest_request ''POST'' ''/api/v1/document''"] work_society_post by auto
qed

text \<open>
  C40: except for \<^verbatim>\<open>OPTIONS\<close>, every response of the inherited handlers that is not empty is a framed HTTP message: its
  \<^verbatim>\<open>Content-Length\<close> is the length of what follows the blank line.
\<close>

theorem responses_framed:
  assumes "legacy_response we http s = (Done (Some r), t)" and "m_method http \<noteq> ''OPTIONS''" and "r \<noteq> []"
  shows "framed r"
  using legacy_answers[OF assms(2), of we] assms(1,3) unfolding eff_yields_def by blast

theorem responses_framed_witness:
  "framed (build_responseERROR ''{\"status\" : \"faiure\", \"cause\" : \"Shipment Updated Failed\", \"error\" : 400}'' ''400 Bad Request'')"
proof -
  have "legacy_response (work_env (\<lambda>_. None)) (new_http\<lparr>m_method := ''PUT''\<rparr>) work_state =
    (Done (Some (build_responseERROR ''{\"status\" : \"faiure\", \"cause\" : \"Shipment Updated Failed\", \"error\" : 400}''
       ''400 Bad Request'')), work_state)"
    by (simp add: legacy_response_def handle_PUT_def has_prefix_def new_http_def eff_bind_def eff_return_def)
  then show ?thesis by (rule responses_framed) (simp_all add: http_build_error_def)
qed

end
