(* ===== verification/Spec2Isabelle.thy ===== *)
theory Spec2Isabelle
  imports Tunnel_Properties Call_Properties Service_Properties Db_Properties Stream_Properties Push_Properties Event_Properties
    Mail_Properties Worker_Properties
begin

text \<open>
  A verification library for a hosted telephone exchange: a cloud process that browsers connect to, and
  an agent on the premises of each housing society that drives a local Asterisk.  The two talk over
  one tunnel that carries framed SIP streams and control messages.

  \<^bold>\<open>The program.\<close>  In the cloud (\<^verbatim>\<open>modules/module/pbx\<close>, \<^verbatim>\<open>modules/module/webservice\<close>) each browser socket
  (\<^verbatim>\<open>BrowserStream\<close>) is a stream of the bridge (\<^verbatim>\<open>SipBridge\<close>), which sends frames through the endpoint of
  the tunnel (\<^verbatim>\<open>CloudTunnelEndpoint\<close>).  On the premises (\<^verbatim>\<open>pbx-agent\<close>) the connector
  (\<^verbatim>\<open>CloudConnector\<close>) dials the cloud and feeds the demultiplexer (\<^verbatim>\<open>SipFrameDemux\<close>), which keeps one
  WebSocket to Asterisk per stream (\<^verbatim>\<open>AsteriskStream\<close>).  Asterisk's events arrive on a socket of
  their own (\<^verbatim>\<open>AriWsClient\<close>, redialled by \<^verbatim>\<open>ReconnectSupervisor\<close>) and reach \<^verbatim>\<open>AriClient\<close> and
  \<^verbatim>\<open>CallRouter\<close> on a worker thread; both act through \<^verbatim>\<open>AriRestClient\<close>.  \<^verbatim>\<open>SubscriberWatcher\<close> and
  \<^verbatim>\<open>PjsipProvisioner\<close> keep Asterisk's configuration in step with the database.  Browsers reach the cloud
  through a web server (\<^verbatim>\<open>WebServer\<close>, \<^verbatim>\<open>WebConnection\<close>): it cuts requests out of each connection with the
  HTTP parser (\<^verbatim>\<open>Http\<close>), turns \<^verbatim>\<open>/agent\<close> and \<^verbatim>\<open>/sip-ws\<close> upgrades into the two kinds of streams above, and
  queues the rest for workers, whose route table calls the REST handlers (\<^verbatim>\<open>MicroServicePbx\<close>).  The database
  is on the premises too: the handlers call a proxy (\<^verbatim>\<open>WsMongodbProxy\<close>), which sends each call as a BSON
  request over a second WebSocket (\<^verbatim>\<open>WsDbServer\<close>) to the database agent (\<^verbatim>\<open>WsDbAgent\<close>) and waits for the
  response with the same id.  The socket of the tunnel is \<^verbatim>\<open>AgentStream\<close> in the cloud and \<^verbatim>\<open>AceSslTransport\<close> on
  the premises; both run a second TLS session inside the WebSocket (\<^verbatim>\<open>InnerTlsServer\<close>, \<^verbatim>\<open>InnerTlsClient\<close> over
  \<^verbatim>\<open>WsInnerTlsBridge\<close>), and the agent hands what it receives to a worker (\<^verbatim>\<open>InnerTlsDispatchTask\<close>).
  A PUSH_NOTIFY frame makes \<^verbatim>\<open>PushSender\<close> post an encrypted notification to every browser a subscriber has registered,
  through \<^verbatim>\<open>AceHttpsClient\<close>.  A request to the web server can also send an e-mail (\<^verbatim>\<open>SMTP::User\<close>), a state machine
  driven by the replies of the mail server.  Requests that no PBX route takes go to handlers inherited from a parcel-tracking
  product: accounts, shipments, inventory, documents and the files of the user interface.

  \<^bold>\<open>Conventions.\<close>  A \<^verbatim>\<open>std::string\<close> is a list of characters, one per byte; a vector of bytes is a list of
  8-bit words; an unordered map is an association list with distinct keys.  Objects that call each other
  share one extensible record (bridge, endpoint and cloud application; demux, streams, connector and
  agent application; REST client, router and ARI client), a callback is a state transformer in an
  environment record, and what an object needs of its callbacks is a locale, interpreted on the wiring
  of the two main programs.  What the outside decides (the result of a write, a dial, a database
  cursor) is read from lists in the state; an exhausted list is a fixed answer given with its field.
  Clock readings are arguments.  The JSON library (parsing and printing), the database, OpenSSL and zlib
  are parameters.  An escaping exception is returned with the state it leaves.  On the web side a
  computation delivers a value, throws, or does not return (\<^verbatim>\<open>Cpp_Effect\<close>), and the database calls it makes
  are a log in the state.

  \<^bold>\<open>Theories.\<close>
  \<^item> \<^verbatim>\<open>Prelude\<close>, \<^verbatim>\<open>Json\<close>, \<^verbatim>\<open>Cpp_String\<close>, \<^verbatim>\<open>Transport\<close>: maps, bytes, JSON accessors with their exceptions,
    \<^verbatim>\<open>std::string\<close> operations, the transport interface and the contract of a tunnel sink.
  \<^item> \<^verbatim>\<open>Sip_Frame\<close> (\<^verbatim>\<open>sip_frame.cpp\<close>): codec and receive loop; locales \<^verbatim>\<open>frame_codec\<close>, \<^verbatim>\<open>frame_receiver\<close>,
    \<^verbatim>\<open>stable_receiver\<close>.
  \<^item> \<^verbatim>\<open>Sip_Bridge\<close>, \<^verbatim>\<open>Cloud_Tunnel_Endpoint\<close>, \<^verbatim>\<open>Presence_Cache\<close>, \<^verbatim>\<open>Cloud_App\<close>: the cloud side; its runs are folds of
    \<^verbatim>\<open>cloud_exec\<close> from \<^verbatim>\<open>cloud_boot\<close>.
  \<^item> \<^verbatim>\<open>Ws_Frame\<close>, \<^verbatim>\<open>Browser_Stream\<close>: WebSocket frames and the browser's socket.
  \<^item> \<^verbatim>\<open>Sip_Frame_Demux\<close>, \<^verbatim>\<open>Asterisk_Stream\<close>, \<^verbatim>\<open>Cloud_Connector\<close>: the agent side of the tunnel.
  \<^item> \<^verbatim>\<open>Ari_Rest\<close>, \<^verbatim>\<open>Call_Router\<close>, \<^verbatim>\<open>Ari_Client\<close>: calls.
  \<^item> \<^verbatim>\<open>Pjsip_Provisioner\<close>, \<^verbatim>\<open>Subscriber_Watcher\<close>: provisioning.
  \<^item> \<^verbatim>\<open>Agent_App\<close>: the wiring of the agent, its worker and its outbox; its runs are folds of \<^verbatim>\<open>app_exec\<close>
    from \<^verbatim>\<open>agent_boot\<close>.
  \<^item> \<^verbatim>\<open>Cpp_Effect\<close>, \<^verbatim>\<open>Db_Client\<close>: effects with exceptions, the calls of \<^verbatim>\<open>IMongodbClient\<close>, the environment.
  \<^item> \<^verbatim>\<open>Http_Parser\<close> (\<^verbatim>\<open>message_parser.cpp\<close>, \<^verbatim>\<open>http_parser.cpp\<close>), \<^verbatim>\<open>Http_Framing\<close> (printing of requests, the inverse),
    \<^verbatim>\<open>Message_Stream\<close> (locale \<^verbatim>\<open>message_framing\<close>, interpreted on \<^verbatim>\<open>Http::message_length\<close>).
  \<^item> \<^verbatim>\<open>Password\<close> (\<^verbatim>\<open>mongodbc.cpp\<close>), \<^verbatim>\<open>Pbx_Helpers\<close>, \<^verbatim>\<open>Pbx_Service\<close>, \<^verbatim>\<open>Pbx_Sessions\<close> (\<^verbatim>\<open>microservice_pbx.cpp\<close>), \<^verbatim>\<open>Web_Routes\<close> and
    \<^verbatim>\<open>Web_Server\<close> (\<^verbatim>\<open>webservice.cpp\<close>): the web side.  \<^verbatim>\<open>Pbx_Security\<close>: what its handlers do to the database,
    and when.
  \<^item> \<^verbatim>\<open>Db_Proto\<close> (\<^verbatim>\<open>dbproto.cpp\<close>), \<^verbatim>\<open>Ws_Socket\<close> (the blocking reader of frames, \<^verbatim>\<open>wstransport.hpp\<close>), \<^verbatim>\<open>Db_Agent\<close>
    (\<^verbatim>\<open>wsdbagent.cpp\<close>), \<^verbatim>\<open>Db_Proxy\<close> and \<^verbatim>\<open>Db_Server\<close> (\<^verbatim>\<open>wsdbproxy.cpp\<close>): the database connection.  The server is a
    transition system, one action per lock or atomic access of a thread; its runs are folds of
    \<^verbatim>\<open>db_exec\<close>.  \<^verbatim>\<open>Db_Waiters\<close>: the waiting callers of such runs.  \<^verbatim>\<open>Db_Link\<close>: the schedule of one call
    through server and agent, which interprets the dispatcher contract of the proxy (locale
    \<^verbatim>\<open>db_dispatcher\<close>).
  \<^item> \<^verbatim>\<open>Inner_Tls\<close> (\<^verbatim>\<open>innertls.cpp\<close>, \<^verbatim>\<open>ws_inner_tls_bridge.cpp\<close>), \<^verbatim>\<open>Agent_Stream\<close> (\<^verbatim>\<open>agent_stream.cpp\<close> and the hand-off in
    \<^verbatim>\<open>webservice.cpp\<close>), \<^verbatim>\<open>Ssl_Transport\<close> (\<^verbatim>\<open>ace_ssl_transport.cpp\<close>, \<^verbatim>\<open>inner_tls_task.cpp\<close>): the sockets of the tunnel.
    The streams of the cloud are a store, and the reactor's runs are folds of \<^verbatim>\<open>sock_exec\<close>.  \<^verbatim>\<open>Tls_Tunnel\<close>: the two
    ends together.
  \<^item> \<^verbatim>\<open>Ari_Ws\<close> (\<^verbatim>\<open>ari_ws_client.cpp\<close>, \<^verbatim>\<open>ReconnectSupervisor\<close> in \<^verbatim>\<open>main.cpp\<close>): the socket for Asterisk's events beside the
    agent; its runs are folds of \<^verbatim>\<open>event_exec\<close>.
  \<^item> \<^verbatim>\<open>Push_Crypto\<close> (base64url and the encrypted record), \<^verbatim>\<open>Https_Client\<close> (\<^verbatim>\<open>ace_https_client.cpp\<close>), \<^verbatim>\<open>Push_Sender\<close>
    (\<^verbatim>\<open>push_sender.cpp\<close>): notifications.
  \<^item> \<^verbatim>\<open>Smtp_Fsm\<close> (\<^verbatim>\<open>emailservice_fsm.cpp\<close>), \<^verbatim>\<open>Smtp_User\<close> (\<^verbatim>\<open>emailservice.cpp\<close> and the account part of \<^verbatim>\<open>handle_email_POST\<close>):
    the e-mail client; its runs are \<^verbatim>\<open>smtp_main\<close> over a list of reads.
  \<^item> \<^verbatim>\<open>Web_Legacy\<close> (response texts, JSON and BSON values), \<^verbatim>\<open>Web_Handlers\<close> (accounts, inventory, documents, deletion),
    \<^verbatim>\<open>Web_Worker\<close> (shipments, e-mail, files, tables by method, \<^verbatim>\<open>process_request\<close> and \<^verbatim>\<open>svc\<close>): the worker side of
    \<^verbatim>\<open>webservice.cpp\<close>.
  \<^item> \<^verbatim>\<open>Tunnel_Properties\<close>, \<^verbatim>\<open>Call_Properties\<close>, \<^verbatim>\<open>Service_Properties\<close>, \<^verbatim>\<open>Db_Properties\<close>, \<^verbatim>\<open>Stream_Properties\<close>,
    \<^verbatim>\<open>Push_Properties\<close>, \<^verbatim>\<open>Event_Properties\<close>, \<^verbatim>\<open>Mail_Properties\<close>, \<^verbatim>\<open>Worker_Properties\<close>: the properties, with their witnesses.

  \<^bold>\<open>What is shown.\<close>  The codec round trip and its canonicity; delivery of frames in order and once, in both
  directions and for every way the network cuts the bytes; for whole runs of either process, that
  the frames sent or still queued are exactly those handed to the tunnel, and that the stream tables stay
  consistent; that a silent agent is dropped and how the agent backs off; the conversations that cross
  the tunnel (hello, registration state, revocation); the forked ring of the call router; that the admission counter
  counts the bridges Asterisk has reported; call records; that REST requests cannot be split; what a full scan leaves in Asterisk's
  store, whose content depends on the answers the calls got; the change stream.  For the web
  side: who may write subscribers and societies, who gets on the bridge and under which identity, in strict and in permissive mode, who
  gets a session, that no route revives an expired one, what disabling a subscriber sets off, what
  the directory shows after a registration report; that parsing inverts printing and that the
  requests of a connection whose end the framing recognises (with a length, chunked or without a body) reach the workers
  whole, once and in order; that chunked bodies decode, and
  that a crafted one never ends.  For the database connection: that a call of the proxy, of every method but
  \<^verbatim>\<open>update_bulk_document\<close>, is one call of the agent's database with its answer; that in every interleaving a caller gets its own response or an
  error, and that nobody waits on after the agent has gone; that a session of the agent answers in
  order; that reading frames in steps is decoding, and stays inside its buffer; what a malformed filter
  does, and when a request leaves unencrypted.  For the sockets of the tunnel: that the endpoint has one live
  stream or none, that a newer connection takes over and the one it replaced cannot disturb it, and that
  frames and blocks pass through the inner TLS session in order and once, however the bytes are cut.  For
  notifications: that the record a push service gets decrypts to the payload with the keys of the browser, how often
  and how long the sender tries, and which documents stop it.  For the event socket: that events reach the ARI client
  in order and once, and how a connection that ends inside a frame corrupts the next one.  For e-mail: the conversation
  that sends a message, over TLS only when the answer to STARTTLS has the status the client looks for, that a refused
  STARTTLS makes the client send its password in the clear, and the ways in which it never ends.  For the whole worker: that no request writes subscribers or societies without an
  administrator, but for one with a zero byte in the name of the collection (\<^verbatim>\<open>nul_request\<close>), that a created account can log in and what is stored and shown of its password, that responses are framed,
  which files leave the machine, and which request ends the process.

  \<^bold>\<open>Bounds and conditions.\<close>  The reader of frames has the memory limit of its vector as an argument, at least
  32 so that a header fits.  Waking and ownership are stated for runs in which the requests that
  are outstanding together have different ids (\<^verbatim>\<open>fresh_ids\<close>); the code draws them from one 32-bit counter.
  OpenSSL is relied on through \<^verbatim>\<open>tls_laws\<close>: in an established session with nothing under way, a plaintext below
  2^31 bytes comes out once its records have been handed over, an idle session gives nothing, and neither
  is disturbed by writing in the other direction.
  For notifications it is relied on through \<^verbatim>\<open>push_laws\<close>: the two key pairs of the exchange agree on a secret, keys are derived
  at the sizes the record uses, and what was sealed opens under the same key and nonce.  The doubling pause is stated
  while it fits the \<^verbatim>\<open>int\<close> of the code.
  Asterisk's configuration is a store that carries out a call it confirms and does anything with one it does not
  (\<^verbatim>\<open>store_run\<close>).  A call through the proxy is stated for one undisturbed caller; interleavings are those of \<^verbatim>\<open>Db_Server\<close>.
  The undefined iterator range of \<^verbatim>\<open>update_bulk_document\<close> is a parameter of the proxy.

  \<^bold>\<open>Fuel.\<close>  The two receive loops run on fuel one more than the length of the buffer; each turn consumes
  at least one byte, and totality is proved (\<^verbatim>\<open>rx_bytes_total\<close>, \<^verbatim>\<open>ws_drain_total\<close>).  The loop over chunks has no
  fuel: it is a partial function, \<^term>\<open>None\<close> is not returning, and both cases are shown to occur.  The same holds for
  the loops over OpenSSL's answers; that they return is part of what the delivery theorems state.

  \<^bold>\<open>Not modelled.\<close>  ACE sockets and timers, OpenSSL, zlib, the MongoDB driver, the BSON and the JSON library
  (parameters); the command lines; of \<^verbatim>\<open>webservice.cpp\<close> the construction and the shutdown
  of the server and its threads; exceptions of the
  database in the handlers of the bridge; the signal handler and
  the waiting thread of the e-mail client; the SIP parser, which neither process uses.
\<close>

end
